(* ===== verification/Prelude.thy ===== *)
theory Prelude
  imports Main "HOL-Library.Word" "HOL-Library.Sublist"
begin

text \<open>
  Shared vocabulary of the development.  A SQL table is a list of row records; the four
  statement shapes the services issue (scalar select, update, delete, insert) are the
  functions \<open>sql_first\<close>, \<open>sql_update\<close>, \<open>sql_delete\<close> and \<open>sql_insert\<close>, and the
  lemmas about them, collected in \<open>sql\<close>, carry most of the component proofs.  Errors are
  values of \<open>exn\<close>, one constructor per exception class the sources raise, and a fallible
  operation returns \<open>exn + 'a\<close>.  Two interfaces shared by several components are locales:
  \<open>invariant_steps\<close> (operations that keep an invariant) and \<open>single_use\<close> (credentials
  that can be spent once).
\<close>

named_theorems sql \<open>rewriting of table operations\<close>

type_synonym uuid = "128 word"
type_synonym time = int
type_synonym bytes = string

abbreviation second :: time where "second \<equiv> 1000000"
abbreviation minutes :: "int \<Rightarrow> time" where "minutes n \<equiv> n * 60 * second"
abbreviation hours :: "int \<Rightarrow> time" where "hours n \<equiv> n * 3600 * second"
abbreviation days :: "int \<Rightarrow> time" where "days n \<equiv> n * 86400 * second"

section \<open>Exceptions\<close>

datatype exn =
    HTTPException int string
  | StorageUnavailableError string
  | ValueError string
  | RuntimeError string
  | TypeError string
  | OSError string
  | FileNotFoundError
  | FileExistsError
  | MediaEncryptionError string
  | PasskeyCeremonyError string
  | WebAuthnException string
  | NodeAttestationError string
  | InvalidReplicaError string
  | ZeroDivisionError
  | AttributeError string
  | IntegrityError

primrec exn_name :: "exn \<Rightarrow> string" where
  "exn_name (HTTPException c d) = ''HTTPException''"
| "exn_name (StorageUnavailableError r) = ''StorageUnavailableError''"
| "exn_name (ValueError m) = ''ValueError''"
| "exn_name (RuntimeError m) = ''RuntimeError''"
| "exn_name (TypeError m) = ''TypeError''"
| "exn_name (OSError m) = ''OSError''"
| "exn_name FileNotFoundError = ''FileNotFoundError''"
| "exn_name FileExistsError = ''FileExistsError''"
| "exn_name (MediaEncryptionError m) = ''MediaEncryptionError''"
| "exn_name (PasskeyCeremonyError m) = ''PasskeyCeremonyError''"
| "exn_name (WebAuthnException m) = ''WebAuthnException''"
| "exn_name (NodeAttestationError m) = ''NodeAttestationError''"
| "exn_name (InvalidReplicaError m) = ''InvalidReplicaError''"
| "exn_name ZeroDivisionError = ''ZeroDivisionError''"
| "exn_name (AttributeError m) = ''AttributeError''"
| "exn_name IntegrityError = ''IntegrityError''"

section \<open>Results\<close>

definition sbind :: "'e + 'a \<Rightarrow> ('a \<Rightarrow> 'e + 'b) \<Rightarrow> 'e + 'b" where
  "sbind m f = (case m of Inl e \<Rightarrow> Inl e | Inr x \<Rightarrow> f x)"

definition require :: "bool \<Rightarrow> exn \<Rightarrow> exn + unit" where
  "require c e = (if c then Inr () else Inl e)"

lemma sbind_simps [simp]: "sbind (Inl e) f = Inl e" "sbind (Inr x) f = f x"
  by (simp_all add: sbind_def)

lemma sbind_Inr_iff: "sbind m f = Inr y \<longleftrightarrow> (\<exists>x. m = Inr x \<and> f x = Inr y)"
  by (cases m) auto

lemma sbind_Inl_iff: "sbind m f = Inl e \<longleftrightarrow> m = Inl e \<or> (\<exists>x. m = Inr x \<and> f x = Inl e)"
  by (cases m) auto

lemma require_simps [simp]:
  "require c e = Inr u \<longleftrightarrow> c" "require c e = Inl e' \<longleftrightarrow> \<not> c \<and> e' = e"
  "require True e = Inr ()" "require False e = Inl e"
  by (auto simp: require_def)

text \<open>The first failure of a sequence of checks, in order.\<close>

fun check_all :: "('a \<Rightarrow> exn + unit) \<Rightarrow> 'a list \<Rightarrow> exn + unit" where
  "check_all f [] = Inr ()"
| "check_all f (x # xs) = sbind (f x) (\<lambda>_. check_all f xs)"

lemma check_all_Inr [simp]: "check_all f xs = Inr u \<longleftrightarrow> (\<forall>x \<in> set xs. f x = Inr ())"
  by (induction xs) (auto simp: sbind_Inr_iff)

section \<open>Tables\<close>

definition sql_first :: "('r \<Rightarrow> bool) \<Rightarrow> 'r list \<Rightarrow> 'r option" where
  "sql_first P t = List.find P t"

definition sql_update :: "('r \<Rightarrow> bool) \<Rightarrow> ('r \<Rightarrow> 'r) \<Rightarrow> 'r list \<Rightarrow> 'r list" where
  "sql_update P f t = map (\<lambda>r. if P r then f r else r) t"

definition sql_delete :: "('r \<Rightarrow> bool) \<Rightarrow> 'r list \<Rightarrow> 'r list" where
  "sql_delete P t = filter (\<lambda>r. \<not> P r) t"

definition sql_insert :: "'r \<Rightarrow> 'r list \<Rightarrow> 'r list" where
  "sql_insert r t = t @ [r]"

lemma sql_first_Some [dest]: "sql_first P t = Some r \<Longrightarrow> r \<in> set t \<and> P r"
  by (auto simp: sql_first_def find_Some_iff)

lemma sql_first_SomeD: "sql_first P t = Some r \<Longrightarrow> P r" "sql_first P t = Some r \<Longrightarrow> r \<in> set t"
  by auto

lemma sql_first_None: "sql_first P t = None \<longleftrightarrow> (\<forall>r \<in> set t. \<not> P r)"
  by (auto simp: sql_first_def find_None_iff)

lemma sql_first_not_None: "sql_first P t \<noteq> None \<longleftrightarrow> (\<exists>r \<in> set t. P r)"
  by (auto simp: sql_first_None)

lemma sql_first_code [simp]:
  "sql_first P [] = None"
  "sql_first P (r # t) = (if P r then Some r else sql_first P t)"
  by (simp_all add: sql_first_def)

lemma set_sql_update [sql]: "set (sql_update P f t) = (\<lambda>r. if P r then f r else r) ` set t"
  by (auto simp: sql_update_def)

lemma set_sql_delete [sql]: "set (sql_delete P t) = {r \<in> set t. \<not> P r}"
  by (auto simp: sql_delete_def)

lemma set_sql_insert [sql]: "set (sql_insert r t) = insert r (set t)"
  by (auto simp: sql_insert_def)

lemma sql_update_Nil [simp]: "sql_update P f [] = []"
  by (simp add: sql_update_def)

lemma sql_update_Cons [simp]:
  "sql_update P f (r # t) = (if P r then f r else r) # sql_update P f t"
  by (simp add: sql_update_def)

lemma sql_delete_Nil [simp]: "sql_delete P [] = []"
  by (simp add: sql_delete_def)

lemma sql_delete_Cons [simp]:
  "sql_delete P (r # t) = (if P r then sql_delete P t else r # sql_delete P t)"
  by (simp add: sql_delete_def)

lemma map_sql_update [sql]:
  "(\<And>r. k (f r) = k r) \<Longrightarrow> map k (sql_update P f t) = map k t"
  by (simp add: sql_update_def)

lemma bex_sql_update:
  "(\<And>r. Q (f r) = Q r) \<Longrightarrow> (\<exists>r \<in> set (sql_update P f t). Q r) = (\<exists>r \<in> set t. Q r)"
  by (induction t) auto

lemma ball_sql_update:
  "(\<And>r. Q (f r) = Q r) \<Longrightarrow> (\<forall>r \<in> set (sql_update P f t). Q r) = (\<forall>r \<in> set t. Q r)"
  by (induction t) auto

lemma length_sql_update [simp]: "length (sql_update P f t) = length t"
  by (simp add: sql_update_def)

lemma sql_update_noop: "(\<And>r. r \<in> set t \<Longrightarrow> \<not> P r) \<Longrightarrow> sql_update P f t = t"
  by (simp add: sql_update_def map_idI)

lemma distinct_map_sql_delete [sql]:
  "distinct (map k t) \<Longrightarrow> distinct (map k (sql_delete P t))"
  by (simp add: sql_delete_def distinct_map_filter)

lemma distinct_map_sql_insert [sql]:
  "distinct (map k (sql_insert r t)) \<longleftrightarrow> distinct (map k t) \<and> k r \<notin> k ` set t"
  by (auto simp: sql_insert_def)

lemma key_unique: "distinct (map k t) \<Longrightarrow> r \<in> set t \<Longrightarrow> s \<in> set t \<Longrightarrow> k r = k s \<Longrightarrow> r = s"
  by (meson distinct_map inj_onD)

lemma sql_first_key:
  "distinct (map k t) \<Longrightarrow> r \<in> set t \<Longrightarrow> sql_first (\<lambda>x. k x = k r) t = Some r"
  by (induction t) auto

lemma sql_first_update_key:
  assumes "\<And>r. k (g r) = k r"
  shows "sql_first (\<lambda>r. k r = i) (sql_update (\<lambda>r. k r = i) g t) = map_option g (sql_first (\<lambda>r. k r = i) t)"
  by (induction t) (auto simp: assms)

lemma sql_first_update_const:
  "r \<in> set t \<Longrightarrow> Q r \<Longrightarrow> P v \<Longrightarrow> (\<And>x. P x \<Longrightarrow> Q x) \<Longrightarrow>
   sql_first P (sql_update Q (\<lambda>_. v) t) = Some v"
  by (induction t) (auto simp: sql_update_def)

lemma sql_first_insert: "sql_first P t = None \<Longrightarrow> P r \<Longrightarrow> sql_first P (sql_insert r t) = Some r"
  by (induction t) (auto simp: sql_insert_def split: if_splits)

lemma sql_first_cong:
  "(\<And>r. r \<in> set t \<Longrightarrow> P r = Q r) \<Longrightarrow> sql_first P t = sql_first Q t"
  by (induction t) auto

text \<open>Insertion into a table with a unique column: a violation is an \<open>IntegrityError\<close> at the flush.\<close>

definition sql_insert_unique :: "('r \<Rightarrow> 'k) \<Rightarrow> 'r \<Rightarrow> 'r list \<Rightarrow> exn + 'r list" where
  "sql_insert_unique k r t = (if k r \<in> k ` set t then Inl IntegrityError else Inr (sql_insert r t))"

lemma insert_unique_Inr [simp]:
  "sql_insert_unique k r t = Inr t' \<longleftrightarrow> k r \<notin> k ` set t \<and> t' = sql_insert r t"
  by (auto simp: sql_insert_unique_def)

lemma insert_unique_Inl [simp]:
  "sql_insert_unique k r t = Inl x \<longleftrightarrow> k r \<in> k ` set t \<and> x = IntegrityError"
  by (auto simp: sql_insert_unique_def)

section \<open>Rows that can be used once\<close>

text \<open>A row is live under its key while \<open>fresh\<close> holds of it; \<open>rows_evolve\<close> is how a table may change when
  the key is not issued anew: nothing revives a used row, and keys stay unique.\<close>

definition live_row :: "('r \<Rightarrow> 'k) \<Rightarrow> ('r \<Rightarrow> bool) \<Rightarrow> 'k \<Rightarrow> 'r list \<Rightarrow> bool" where
  "live_row key fresh k t \<longleftrightarrow> (\<exists>r \<in> set t. key r = k \<and> fresh r)"

definition rows_evolve :: "('r \<Rightarrow> 'k) \<Rightarrow> ('r \<Rightarrow> bool) \<Rightarrow> 'k \<Rightarrow> 'r list \<Rightarrow> 'r list \<Rightarrow> bool" where
  "rows_evolve key fresh k t t' \<longleftrightarrow>
     (distinct (map key t) \<longrightarrow> distinct (map key t')) \<and> (live_row key fresh k t' \<longrightarrow> live_row key fresh k t)"

lemma rows_evolve_refl [simp, intro]: "rows_evolve key fresh k t t"
  by (simp add: rows_evolve_def)

lemma rows_evolve_trans: "rows_evolve key fresh k a b \<Longrightarrow> rows_evolve key fresh k b c \<Longrightarrow> rows_evolve key fresh k a c"
  by (auto simp: rows_evolve_def)

lemma rows_evolve_update:
  assumes "\<And>r. key (g r) = key r" "\<And>r. fresh (g r) \<Longrightarrow> fresh r"
  shows "rows_evolve key fresh k t (sql_update P g t)"
proof -
  have "map key (sql_update P g t) = map key t" using assms(1) by (rule map_sql_update [where k = key])
  moreover have "live_row key fresh k (sql_update P g t) \<longrightarrow> live_row key fresh k t"
    using assms by (fastforce simp: live_row_def set_sql_update split: if_splits)
  ultimately show ?thesis by (simp add: rows_evolve_def)
qed

lemma rows_evolve_delete: "rows_evolve key fresh k t (sql_delete P t)"
  by (auto simp: rows_evolve_def live_row_def set_sql_delete distinct_map_sql_delete)

lemma rows_evolve_insert:
  "key r \<noteq> k \<or> \<not> fresh r \<Longrightarrow> key r \<notin> key ` set t \<Longrightarrow> rows_evolve key fresh k t (sql_insert r t)"
  by (auto simp: rows_evolve_def live_row_def set_sql_insert distinct_map_sql_insert)

lemma used_row_dead:
  assumes "distinct (map key t)" "r \<in> set t" "key r = k" "P r" "\<And>r. \<not> fresh (g r)"
  shows "\<not> live_row key fresh k (sql_update P g t)"
proof -
  have "x = r" if "x \<in> set t" "key x = k" for x
    using key_unique [OF assms(1) that(1) assms(2)] that(2) assms(3) by simp
  then show ?thesis using assms(4,5) by (auto simp: live_row_def set_sql_update split: if_splits)
qed

section \<open>Strings\<close>

definition digit_char :: "nat \<Rightarrow> char" where
  "digit_char n = (''0123456789abcdef'' ! n)"

fun dec :: "nat \<Rightarrow> string" where
  "dec n = (if n < 10 then [digit_char n] else dec (n div 10) @ [digit_char (n mod 10)])"

declare dec.simps [simp del]

definition show_int :: "int \<Rightarrow> string" where
  "show_int i = (if i < 0 then ''-'' @ dec (nat (- i)) else dec (nat i))"

fun hexs :: "nat \<Rightarrow> nat \<Rightarrow> string" where
  "hexs 0 n = []"
| "hexs (Suc k) n = hexs k (n div 16) @ [digit_char (n mod 16)]"

lemma length_hexs [simp]: "length (hexs k n) = k"
  by (induction k arbitrary: n) auto

definition uuid_hex :: "uuid \<Rightarrow> string" where
  "uuid_hex w = hexs 32 (unat w)"

definition uuid_str :: "uuid \<Rightarrow> string" where
  "uuid_str w = (let h = uuid_hex w in
     take 8 h @ ''-'' @ take 4 (drop 8 h) @ ''-'' @ take 4 (drop 12 h) @ ''-'' @
     take 4 (drop 16 h) @ ''-'' @ drop 20 h)"

text \<open>The text \<open>str(exc)\<close> yields; that of an error of the operating system is not modelled.\<close>

primrec exn_str :: "exn \<Rightarrow> string" where
  "exn_str (HTTPException c d) = show_int c @ '': '' @ d"
| "exn_str (StorageUnavailableError r) = ''503: The '' @ r @
     '' storage drive is unavailable or its identity could not be verified. Reconnect the approved drive and retry.''"
| "exn_str (ValueError m) = m"
| "exn_str (RuntimeError m) = m"
| "exn_str (TypeError m) = m"
| "exn_str (OSError m) = m"
| "exn_str FileNotFoundError = ''''"
| "exn_str FileExistsError = ''''"
| "exn_str (MediaEncryptionError m) = m"
| "exn_str (PasskeyCeremonyError m) = m"
| "exn_str (WebAuthnException m) = m"
| "exn_str (NodeAttestationError m) = m"
| "exn_str (InvalidReplicaError m) = m"
| "exn_str ZeroDivisionError = ''division by zero''"
| "exn_str (AttributeError m) = m"
| "exn_str IntegrityError = ''''"

lemma digit_char_decimal:
  "n < 10 \<Longrightarrow> digit_char n \<in> set ''0123456789''"
proof -
  assume "n < 10"
  then have "n \<in> {0, 1, 2, 3, 4, 5, 6, 7, 8, 9}" by auto
  then show ?thesis by (auto simp: digit_char_def)
qed

lemma digit_char_inj: "m < 10 \<Longrightarrow> n < 10 \<Longrightarrow> digit_char m = digit_char n \<Longrightarrow> m = n"
proof -
  assume mn: "m < 10" "n < 10" and eq: "digit_char m = digit_char n"
  have "distinct ''0123456789abcdef''" by simp
  then show "m = n"
    using mn eq by (simp add: digit_char_def nth_eq_iff_index_eq)
qed

lemma dec_not_Nil [simp]: "dec n \<noteq> []" "[] \<noteq> dec n"
  by (subst dec.simps, simp)+

lemma dec_digits: "set (dec n) \<subseteq> set ''0123456789''"
proof (induction n rule: dec.induct)
  case (1 n)
  show ?case
  proof (cases "n < 10")
    case True
    then show ?thesis by (subst dec.simps) (use digit_char_decimal in auto)
  next
    case False
    have "digit_char (n mod 10) \<in> set ''0123456789''" by (rule digit_char_decimal) simp
    with False "1.IH" show ?thesis by (subst dec.simps) simp
  qed
qed

lemma dec_inj: "dec m = dec n \<Longrightarrow> m = n"
proof (induction m arbitrary: n rule: dec.induct)
  case (1 m)
  show ?case
  proof (cases "m < 10")
    case True
    then have m: "dec m = [digit_char m]" by (subst dec.simps) simp
    have "n < 10"
    proof (rule ccontr)
      assume "\<not> n < 10"
      then have "dec n = dec (n div 10) @ [digit_char (n mod 10)]" by (subst dec.simps) simp
      with m "1.prems" show False by simp
    qed
    then have "dec n = [digit_char n]" by (subst dec.simps) simp
    with m "1.prems" True \<open>n < 10\<close> show ?thesis by (simp add: digit_char_inj)
  next
    case False
    then have m: "dec m = dec (m div 10) @ [digit_char (m mod 10)]" by (subst dec.simps) simp
    have n10: "\<not> n < 10"
    proof
      assume "n < 10"
      then have "dec n = [digit_char n]" by (subst dec.simps) simp
      with m "1.prems" show False by simp
    qed
    then have n: "dec n = dec (n div 10) @ [digit_char (n mod 10)]" by (subst dec.simps) simp
    from m n "1.prems" have d: "dec (m div 10) = dec (n div 10)"
      and c: "digit_char (m mod 10) = digit_char (n mod 10)" by simp_all
    from "1.IH" [OF False d] have "m div 10 = n div 10" .
    moreover from c have "m mod 10 = n mod 10" by (rule digit_char_inj [rotated 2]) simp_all
    ultimately show ?thesis by (metis div_mult_mod_eq)
  qed
qed

lemma split_at_unique:
  "c \<notin> set xs \<Longrightarrow> c \<notin> set ys \<Longrightarrow> xs @ c # us = ys @ c # vs \<Longrightarrow> xs = ys \<and> us = vs"
proof (induction xs arbitrary: ys)
  case Nil
  then show ?case by (cases ys) auto
next
  case (Cons x xs)
  then show ?case by (cases ys) auto
qed

definition is_space :: "char \<Rightarrow> bool" where
  "is_space c \<longleftrightarrow> c \<in> {CHR '' '', CHR 0x09, CHR 0x0A, CHR 0x0B, CHR 0x0C, CHR 0x0D}"

definition strip :: "string \<Rightarrow> string" where
  "strip s = rev (dropWhile is_space (rev (dropWhile is_space s)))"

definition lower_char :: "char \<Rightarrow> char" where
  "lower_char c = (let n = of_char c :: nat in
     if 65 \<le> n \<and> n \<le> 90 then char_of (n + 32) else c)"

definition upper_char :: "char \<Rightarrow> char" where
  "upper_char c = (let n = of_char c :: nat in
     if 97 \<le> n \<and> n \<le> 122 then char_of (n - 32) else c)"

definition lower :: "string \<Rightarrow> string" where
  "lower s = map lower_char s"

definition upper :: "string \<Rightarrow> string" where
  "upper s = map upper_char s"

fun split_on :: "char \<Rightarrow> string \<Rightarrow> string list" where
  "split_on c [] = [[]]"
| "split_on c (x # xs) =
     (if x = c then [] # split_on c xs
      else (case split_on c xs of [] \<Rightarrow> [[x]] | w # ws \<Rightarrow> (x # w) # ws))"

section \<open>POSIX paths, as pathlib normalises them\<close>

definition path_parts :: "string \<Rightarrow> string list" where
  "path_parts p =
     (if prefix ''/'' p then [''/''] else []) @
     filter (\<lambda>c. c \<noteq> [] \<and> c \<noteq> ''.'') (split_on (CHR ''/'') p)"

definition is_relative_to :: "string \<Rightarrow> string \<Rightarrow> bool" where
  "is_relative_to p q \<longleftrightarrow> prefix (path_parts q) (path_parts p)"

definition path_join :: "string \<Rightarrow> string \<Rightarrow> string" where
  "path_join p q = (if prefix ''/'' q then q else p @ ''/'' @ q)"

lemma is_relative_to_refl [simp]: "is_relative_to p p"
  by (simp add: is_relative_to_def)

lemma is_relative_to_trans: "is_relative_to p q \<Longrightarrow> is_relative_to q r \<Longrightarrow> is_relative_to p r"
  unfolding is_relative_to_def by (rule prefix_order.trans)

section \<open>Operations that keep an invariant\<close>

text \<open>The contract a family of transactions offers: each of them, run on a state that
  satisfies the invariant, leaves a state that satisfies it.\<close>

locale invariant_steps =
  fixes inv :: "'s \<Rightarrow> bool"
    and exec :: "'op \<Rightarrow> 's \<Rightarrow> 's"
  assumes exec_inv: "inv s \<Longrightarrow> inv (exec op s)"
begin

lemma fold_inv: "inv s \<Longrightarrow> inv (fold exec ops s)"
  by (induction ops arbitrary: s) (auto intro: exec_inv)

end

section \<open>Credentials that can be spent once\<close>

text \<open>
  \<open>perform\<close> runs one request of a client on the state.  A request may spend the credential \<open>spend\<close>
  names, which then has to be live, or mint credentials, those \<open>mints\<close> holds of.  The laws hold in the states
  \<open>ok\<close>, which every request keeps.
\<close>

locale single_use =
  fixes perform :: "'q \<Rightarrow> 's \<Rightarrow> ('e + 'v) \<times> 's"
    and spend :: "'q \<Rightarrow> 'k option"
    and mints :: "'q \<Rightarrow> 'k \<Rightarrow> bool"
    and live :: "'k \<Rightarrow> 's \<Rightarrow> bool"
    and ok :: "'s \<Rightarrow> bool"
  assumes needs_live: "ok s \<Longrightarrow> spend q = Some k \<Longrightarrow> fst (perform q s) = Inr v \<Longrightarrow> live k s"
    and spends: "ok s \<Longrightarrow> spend q = Some k \<Longrightarrow> fst (perform q s) = Inr v \<Longrightarrow> \<not> live k (snd (perform q s))"
    and stays_spent: "ok s \<Longrightarrow> \<not> live k s \<Longrightarrow> \<not> mints q k \<Longrightarrow> \<not> live k (snd (perform q s))"
    and keeps_ok: "ok s \<Longrightarrow> ok (snd (perform q s))"
begin

fun outcomes :: "'q list \<Rightarrow> 's \<Rightarrow> ('q \<times> ('e + 'v)) list" where
  "outcomes [] s = []"
| "outcomes (q # qs) s = (q, fst (perform q s)) # outcomes qs (snd (perform q s))"

lemma spent_never_succeeds:
  assumes "ok s" "\<not> live k s" "\<forall>q \<in> set qs. \<not> mints q k" "(q, Inr v) \<in> set (outcomes qs s)"
  shows "spend q \<noteq> Some k"
  using assms
proof (induction qs arbitrary: s)
  case (Cons p qs)
  from Cons.prems(4) consider "q = p" "fst (perform p s) = Inr v"
    | "(q, Inr v) \<in> set (outcomes qs (snd (perform p s)))" by auto
  then show ?case
  proof cases
    case 1
    with Cons.prems(1,2) needs_live show ?thesis by blast
  next
    case 2
    with Cons.prems show ?thesis by (intro Cons.IH [OF keeps_ok stays_spent]) auto
  qed
qed simp

lemma at_most_once:
  assumes "ok s" "\<forall>q \<in> set qs. \<not> mints q k"
  shows "length (filter (\<lambda>(q, r). spend q = Some k \<and> \<not> isl r) (outcomes qs s)) \<le> 1"
  using assms
proof (induction qs arbitrary: s)
  case (Cons p qs)
  let ?s = "snd (perform p s)"
  show ?case
  proof (cases "spend p = Some k \<and> \<not> isl (fst (perform p s))")
    case True
    then obtain v where "fst (perform p s) = Inr v" by (cases "fst (perform p s)") auto
    with True Cons.prems(1) have dead: "\<not> live k ?s" using spends by blast
    have "filter (\<lambda>(q, r). spend q = Some k \<and> \<not> isl r) (outcomes qs ?s) = []"
      using spent_never_succeeds [OF keeps_ok [OF Cons.prems(1)] dead] Cons.prems(2)
      by (auto simp: filter_empty_conv) (metis sum.collapse(2))
    with True show ?thesis by simp
  next
    case False
    with Cons.IH [OF keeps_ok [OF Cons.prems(1)]] Cons.prems(2) show ?thesis by auto
  qed
qed simp

end

end
