(* ===== verification/Values.thy ===== *)
theory Values
  imports Prelude "HOL-Library.List_Lexorder" "HOL-Library.Char_ord"
begin

text \<open>
  The values the services exchange and the world they run in: JSON documents, the text of
  a UTC timestamp, the configuration object (\<open>core/config.py\<close>) with its derived properties,
  and the file system.  What the code takes from the operating system and from packages
  outside the repository (path resolution, SHA-256, manifest parsing, disk usage) is a field
  of the record \<open>env\<close>, which every operation that needs it takes as an argument.
\<close>

section \<open>JSON documents\<close>

text \<open>A floating-point number is the text Python prints for it; \<open>nan\<close> and the infinities are not finite.\<close>

datatype json =
    JNull
  | JBool bool
  | JInt int
  | JFloat string
  | JStr string
  | JList "json list"
  | JObj "(string \<times> json) list"

definition json_get :: "string \<Rightarrow> json \<Rightarrow> json option" where
  "json_get k j = (case j of JObj kvs \<Rightarrow> map_of kvs k | _ \<Rightarrow> None)"

definition json_opt_str :: "string option \<Rightarrow> json" where
  "json_opt_str x = (case x of None \<Rightarrow> JNull | Some s \<Rightarrow> JStr s)"

text \<open>\<open>json.dumps(..., sort_keys=True, separators=(",", ":"))\<close> of a document.\<close>

definition json_char :: "char \<Rightarrow> string" where
  "json_char c = (let n = of_char c :: nat in
     if c = CHR 0x22 \<or> c = CHR 0x5C then [CHR 0x5C, c]
     else if n = 8 then [CHR 0x5C, CHR ''b''] else if n = 9 then [CHR 0x5C, CHR ''t'']
     else if n = 10 then [CHR 0x5C, CHR ''n''] else if n = 12 then [CHR 0x5C, CHR ''f'']
     else if n = 13 then [CHR 0x5C, CHR ''r'']
     else if n < 32 then [CHR 0x5C, CHR ''u'', CHR ''0'', CHR ''0''] @ hexs 2 n else [c])"

definition json_escape :: "string \<Rightarrow> string" where
  "json_escape s = concat (map json_char s)"

definition json_quote :: "string \<Rightarrow> string" where
  "json_quote s = [CHR 0x22] @ json_escape s @ [CHR 0x22]"

fun joined :: "string \<Rightarrow> string list \<Rightarrow> string" where
  "joined sep [] = []"
| "joined sep [x] = x"
| "joined sep (x # y # ys) = x @ sep @ joined sep (y # ys)"

fun dumps :: "json \<Rightarrow> string" where
  "dumps JNull = ''null''"
| "dumps (JBool b) = (if b then ''true'' else ''false'')"
| "dumps (JInt i) = show_int i"
| "dumps (JFloat t) = t"
| "dumps (JStr s) = json_quote s"
| "dumps (JList xs) = ''['' @ joined '','' (map dumps xs) @ '']''"
| "dumps (JObj kvs) = ''{'' @ joined '',''
     (map (\<lambda>(k, v). json_quote k @ '':'' @ v)
       (sort_key fst (map (\<lambda>(k, v). (k, dumps v)) kvs))) @ ''}''"

text \<open>\<open>json.dumps(..., indent=2)\<close>: one entry per line, in the order of the document.\<close>

definition indented :: "nat \<Rightarrow> string \<Rightarrow> string \<Rightarrow> string list \<Rightarrow> string" where
  "indented level opening closing entries =
     (if entries = [] then opening @ closing
      else opening @ [CHR 0x0A] @ joined ('','' @ [CHR 0x0A]) (map (\<lambda>t. replicate (2 * level + 2) (CHR '' '') @ t) entries) @
        [CHR 0x0A] @ replicate (2 * level) (CHR '' '') @ closing)"

fun dumps_indent :: "nat \<Rightarrow> json \<Rightarrow> string" where
  "dumps_indent level (JList xs) = indented level ''['' '']'' (map (dumps_indent (Suc level)) xs)"
| "dumps_indent level (JObj kvs) = indented level ''{'' ''}''
     (map (\<lambda>(k, t). json_quote k @ '': '' @ t) (map (\<lambda>(k, v). (k, dumps_indent (Suc level) v)) kvs))"
| "dumps_indent level j = dumps j"

text \<open>\<open>str\<close> of the value a document holds.\<close>

definition py_repr_str :: "string \<Rightarrow> string" where
  "py_repr_str s =
     (let q = (if CHR 0x27 \<in> set s \<and> CHR 0x22 \<notin> set s then CHR 0x22 else CHR 0x27) in
      [q] @ concat (map (\<lambda>c. if c = q \<or> c = CHR 0x5C then [CHR 0x5C, c]
        else if c = CHR 0x0A then [CHR 0x5C, CHR ''n''] else if c = CHR 0x0D then [CHR 0x5C, CHR ''r'']
        else if c = CHR 0x09 then [CHR 0x5C, CHR ''t''] else [c]) s) @ [q])"

fun py_repr :: "json \<Rightarrow> string" where
  "py_repr JNull = ''None''"
| "py_repr (JBool b) = (if b then ''True'' else ''False'')"
| "py_repr (JInt i) = show_int i"
| "py_repr (JFloat t) = t"
| "py_repr (JStr s) = py_repr_str s"
| "py_repr (JList xs) = ''['' @ joined '', '' (map py_repr xs) @ '']''"
| "py_repr (JObj kvs) = ''{'' @ joined '', '' (map (\<lambda>(k, v). py_repr_str k @ '': '' @ v)
     (map (\<lambda>(k, v). (k, py_repr v)) kvs)) @ ''}''"

definition py_str :: "json \<Rightarrow> string" where
  "py_str j = (case j of JStr s \<Rightarrow> s | _ \<Rightarrow> py_repr j)"

section \<open>Unpadded URL-safe base 64\<close>

definition b64_char :: "nat \<Rightarrow> char" where
  "b64_char n = ''ABCDEFGHIJKLMNOPQRSTUVWXYZabcdefghijklmnopqrstuvwxyz0123456789-_'' ! n"

text \<open>\<open>base64.urlsafe_b64encode(raw).rstrip(b"=")\<close>.\<close>

fun encode_base64url :: "bytes \<Rightarrow> string" where
  "encode_base64url [] = []"
| "encode_base64url [a] = (let x = of_char a in [b64_char (x div 4), b64_char (x mod 4 * 16)])"
| "encode_base64url [a, b] =
     (let x = of_char a; y = of_char b
      in [b64_char (x div 4), b64_char (x mod 4 * 16 + y div 16), b64_char (y mod 16 * 4)])"
| "encode_base64url (a # b # c # r) =
     (let x = of_char a; y = of_char b; z = of_char c
      in b64_char (x div 4) # b64_char (x mod 4 * 16 + y div 16) # b64_char (y mod 16 * 4 + z div 64) #
         b64_char (z mod 64) # encode_base64url r)"

section \<open>datetime.isoformat for aware UTC values\<close>

definition pad :: "nat \<Rightarrow> int \<Rightarrow> string" where
  "pad w i = (let d = dec (nat i) in replicate (w - length d) (CHR ''0'') @ d)"

definition civil_of_days :: "int \<Rightarrow> int \<times> int \<times> int" where
  "civil_of_days n =
     (let z = n + 719468;
          era = z div 146097;
          doe = z - era * 146097;
          yoe = (doe - doe div 1460 + doe div 36524 - doe div 146096) div 365;
          doy = doe - (365 * yoe + yoe div 4 - yoe div 100);
          mp = (5 * doy + 2) div 153;
          d = doy - (153 * mp + 2) div 5 + 1;
          m = (if mp < 10 then mp + 3 else mp - 9);
          y = yoe + era * 400
      in (if m \<le> 2 then y + 1 else y, m, d))"

definition isoformat :: "time \<Rightarrow> string" where
  "isoformat t =
     (let (y, m, d) = civil_of_days (t div days 1);
          r = t mod days 1;
          us = r mod second
      in pad 4 y @ ''-'' @ pad 2 m @ ''-'' @ pad 2 d @ ''T'' @
         pad 2 (r div hours 1) @ '':'' @ pad 2 (r mod hours 1 div minutes 1) @ '':'' @
         pad 2 (r mod minutes 1 div second) @
         (if us = 0 then [] else ''.'' @ pad 6 us) @ ''+00:00'')"

section \<open>Configuration\<close>

record settings =
  environment :: string
  deployment_mode :: string
  originals_path :: string
  derivatives_path :: string
  staging_path :: string
  storage_manifest_path :: "string option"
  host_owner_email :: "string option"
  upload_chunk_size :: int
  max_upload_size :: int
  external_library_roots :: string
  replica_path :: string
  replica_roots :: string
  backups_path :: string
  database_backup_enabled :: bool
  database_backup_interval_hours :: int
  database_backup_retention_days :: int
  lifecycle_retention_days :: int
  account_deletion_lease_seconds :: int
  account_deletion_retry_base_seconds :: int
  account_deletion_retry_max_seconds :: int
  account_deletion_batch_size :: nat
  account_deletion_quiescence_seconds :: int
  account_deletion_dispatch_interval_seconds :: int
  auto_protect_uploads :: bool
  resumable_chunk_size :: int
  upload_session_hours :: int
  access_token_minutes :: int
  refresh_session_days :: int
  auth_rate_limit_attempts :: int
  auth_rate_limit_window_seconds :: int
  webauthn_rp_id :: "string option"
  webauthn_rp_name :: string
  webauthn_origins :: string
  webauthn_challenge_minutes :: int
  recent_auth_minutes :: int
  node_pairing_minutes :: int
  remote_access_enabled :: bool
  email_delivery_mode :: string
  media_encryption_enabled :: bool
  jwt_secret :: string
  app_url :: string
  cors_origins :: string
  auth_cookie_name :: string
  refresh_cookie_name :: string
  auth_cookie_secure :: bool
  google_client_id :: "string option"
  google_client_secret :: "string option"

section \<open>Host\<close>

record storage_binding =
  role :: string
  binding_path :: string
  marker_path :: string
  marker :: string

record storage_manifest =
  installation_id :: string
  owner_email :: string
  import_display_name :: string
  bindings :: "storage_binding list"

text \<open>Credentials and verified results of the WebAuthn library.\<close>

record assertion =
  ac_id :: string
  ac_raw_id :: bytes
  ac_user_handle :: "bytes option"
  ac_signed :: json

record attestation =
  rg_id :: string
  rg_raw_id :: bytes
  rg_transports :: "string list option"
  rg_signed :: json

record verified_registration =
  vr_credential_id :: bytes
  vr_public_key :: bytes
  vr_sign_count :: nat
  vr_aaguid :: string
  vr_device_type :: string
  vr_backed_up :: bool

record verified_assertion =
  va_new_sign_count :: nat
  va_device_type :: string
  va_backed_up :: bool

text \<open>\<open>None\<close> stands for a \<open>WebAuthnException\<close>.  The verifiers take the parsed credential, the expected
  challenge, relying party and origins; an assertion also the stored public key and counter.\<close>

record webauthn =
  wa_parse_authentication :: "json \<Rightarrow> assertion option"
  wa_parse_registration :: "json \<Rightarrow> attestation option"
  wa_verify_registration :: "attestation \<Rightarrow> bytes \<Rightarrow> string \<Rightarrow> string list \<Rightarrow> verified_registration option"
  wa_verify_authentication :: "assertion \<Rightarrow> bytes \<Rightarrow> string \<Rightarrow> string list \<Rightarrow> bytes \<Rightarrow> int \<Rightarrow> verified_assertion option"

text \<open>Regular files by the identity of \<open>canonical\<close>, and the existing directories.\<close>

record fs =
  files :: "string \<rightharpoonup> bytes"
  dirs :: "string \<Rightarrow> bool"

record env =
  cfg :: settings
  resolve :: "string \<Rightarrow> string"
  normcase :: "string \<Rightarrow> string"
  casefold :: "string \<Rightarrow> string"
  sha256 :: "bytes \<Rightarrow> string"
  parse_manifest :: "bytes \<Rightarrow> storage_manifest option"
  decode_text :: "bytes \<Rightarrow> string option"
  unlink_fails :: "string \<Rightarrow> bool"
  set_before :: "string \<Rightarrow> string \<Rightarrow> bool"
  hmac :: "string \<Rightarrow> bytes \<Rightarrow> string"
  master_key :: bytes
  parse_iso :: "string \<Rightarrow> time option"
  json_loads :: "string \<Rightarrow> json option"
  gcm_stream :: "bytes \<Rightarrow> bytes \<Rightarrow> nat \<Rightarrow> bytes \<Rightarrow> bytes"
  gcm_tag :: "bytes \<Rightarrow> bytes \<Rightarrow> bytes \<Rightarrow> bytes"
  unwrap_key :: "string \<Rightarrow> bytes option"
  disk_used :: "string \<Rightarrow> int"
  disk_total :: "string \<Rightarrow> int"
  writable :: "string \<Rightarrow> bool"
  write_fails :: "string \<Rightarrow> bool"
  check_password :: "string \<Rightarrow> string \<Rightarrow> bool"
  totp_code :: "string \<Rightarrow> int \<Rightarrow> string"
  open_secret :: "string \<Rightarrow> string option"
  seal_secret :: "string \<Rightarrow> string"
  kdf :: "string \<Rightarrow> string \<Rightarrow> string"
  jwt_encode :: "string \<Rightarrow> string \<Rightarrow> time \<Rightarrow> time \<Rightarrow> string \<Rightarrow> string"
  jwt_claims :: "string \<Rightarrow> string \<Rightarrow> time \<Rightarrow> (string \<times> string option) option"
  parse_ip :: "string \<Rightarrow> string option"
  trusted_proxy :: "string \<Rightarrow> bool"
  webauthn :: webauthn
  ed25519_verify :: "bytes \<Rightarrow> bytes \<Rightarrow> bytes \<Rightarrow> bool"

definition canonical :: "env \<Rightarrow> string \<Rightarrow> string" where
  "canonical e p = normcase e (resolve e p)"

definition is_file :: "env \<Rightarrow> fs \<Rightarrow> string \<Rightarrow> bool" where
  "is_file e f p \<longleftrightarrow> files f (canonical e p) \<noteq> None"

definition is_dir :: "env \<Rightarrow> fs \<Rightarrow> string \<Rightarrow> bool" where
  "is_dir e f p \<longleftrightarrow> dirs f (canonical e p)"

definition read_bytes :: "env \<Rightarrow> fs \<Rightarrow> string \<Rightarrow> exn + bytes" where
  "read_bytes e f p = (case files f (canonical e p) of
     None \<Rightarrow> Inl FileNotFoundError | Some b \<Rightarrow> Inr b)"

definition write_file :: "env \<Rightarrow> string \<Rightarrow> bytes \<Rightarrow> fs \<Rightarrow> fs" where
  "write_file e p b f = f\<lparr>files := (files f)(canonical e p \<mapsto> b)\<rparr>"

definition remove_file :: "env \<Rightarrow> string \<Rightarrow> fs \<Rightarrow> fs" where
  "remove_file e p f = f\<lparr>files := (files f)(canonical e p := None)\<rparr>"

definition mkdirs :: "env \<Rightarrow> string \<Rightarrow> fs \<Rightarrow> fs" where
  "mkdirs e p f = f\<lparr>dirs := (dirs f)(canonical e p := True)\<rparr>"

text \<open>\<open>Path.unlink(missing_ok=True)\<close>; any other failure the system reports is an \<open>OSError\<close>.\<close>

definition unlink_missing_ok :: "env \<Rightarrow> string \<Rightarrow> fs \<Rightarrow> exn + fs" where
  "unlink_missing_ok e p f =
     (if unlink_fails e (canonical e p) then Inl (OSError ''unlink'') else Inr (remove_file e p f))"

lemma files_simps [simp]:
  "files (write_file e p b f) = (files f)(canonical e p \<mapsto> b)"
  "files (remove_file e p f) = (files f)(canonical e p := None)"
  "files (mkdirs e p f) = files f"
  "dirs (write_file e p b f) = dirs f"
  "dirs (remove_file e p f) = dirs f"
  by (simp_all add: write_file_def remove_file_def mkdirs_def)

text \<open>Documented behaviour of \<open>Path.resolve\<close> and \<open>os.path.normcase\<close>: both are idempotent, and
  normalising the case of a resolved path leaves a resolved path.\<close>

definition host_paths :: "env \<Rightarrow> bool" where
  "host_paths e \<longleftrightarrow> (\<forall>p. resolve e (resolve e p) = resolve e p) \<and>
     (\<forall>p. canonical e (canonical e p) = canonical e p)"

lemma canonical_resolve: "host_paths e \<Longrightarrow> canonical e (resolve e p) = canonical e p"
  by (simp add: host_paths_def canonical_def)

section \<open>Derived configuration\<close>

definition production_like :: "env \<Rightarrow> bool" where
  "production_like e \<longleftrightarrow> environment (cfg e) \<in> {''staging'', ''production''}"

definition external_root_list :: "env \<Rightarrow> string list" where
  "external_root_list e =
     map (\<lambda>r. resolve e (strip r))
       (filter (\<lambda>r. strip r \<noteq> []) (split_on (CHR '','') (external_library_roots (cfg e))))"

definition replica_root_list :: "env \<Rightarrow> string list" where
  "replica_root_list e =
     (let configured = map (\<lambda>r. resolve e (strip r))
            (filter (\<lambda>r. strip r \<noteq> []) (split_on (CHR '','') (replica_roots (cfg e))));
          default = resolve e (replica_path (cfg e))
      in if default \<in> set configured then configured else default # configured)"

definition account_deletion_ledger_path :: "env \<Rightarrow> string" where
  "account_deletion_ledger_path e =
     path_join (backups_path (cfg e)) ''account-deletion-suppressions''"

definition development_email_urls_enabled :: "env \<Rightarrow> bool" where
  "development_email_urls_enabled e \<longleftrightarrow>
     environment (cfg e) = ''development'' \<and> \<not> remote_access_enabled (cfg e) \<and>
     email_delivery_mode (cfg e) = ''console''"

definition google_auth_enabled :: "env \<Rightarrow> bool" where
  "google_auth_enabled e \<longleftrightarrow>
     google_client_id (cfg e) \<notin> {None, Some []} \<and> google_client_secret (cfg e) \<notin> {None, Some []}"

text \<open>\<open>urlsplit\<close> of an address: its scheme, network location and host name.\<close>

definition urlsplit :: "string \<Rightarrow> string \<times> string" where
  "urlsplit url =
     (let i = takeWhile (\<lambda>c. c \<noteq> CHR '':'') url;
          schemed = i \<noteq> [] \<and> length i < length url \<and> hd (lower i) \<in> set ''abcdefghijklmnopqrstuvwxyz'' \<and>
            list_all (\<lambda>c. c \<in> set ''abcdefghijklmnopqrstuvwxyz0123456789+-.'') (lower i);
          rest = (if schemed then drop (Suc (length i)) url else url)
      in (if schemed then lower i else [],
          if take 2 rest = ''//'' then takeWhile (\<lambda>c. c \<notin> set ''/?#'') (drop 2 rest) else []))"

definition hostname :: "string \<Rightarrow> string" where
  "hostname netloc =
     (let info = rev (takeWhile (\<lambda>c. c \<noteq> CHR ''@'') (rev netloc))
      in if CHR ''['' \<in> set info
         then takeWhile (\<lambda>c. c \<noteq> CHR '']'') (tl (dropWhile (\<lambda>c. c \<noteq> CHR ''['') info))
         else takeWhile (\<lambda>c. c \<noteq> CHR '':'') info)"

definition url_origin :: "string \<Rightarrow> string" where
  "url_origin url = fst (urlsplit url) @ ''://'' @ snd (urlsplit url)"

fun rstrip_slash :: "string \<Rightarrow> string" where
  "rstrip_slash s = rev (dropWhile (\<lambda>c. c = CHR ''/'') (rev s))"

definition cors_origin_list :: "env \<Rightarrow> string list" where
  "cors_origin_list e = map strip (filter (\<lambda>o'. strip o' \<noteq> []) (split_on (CHR '','') (cors_origins (cfg e))))"

definition webauthn_effective_rp_id :: "env \<Rightarrow> string" where
  "webauthn_effective_rp_id e =
     (let configured = lower (rev (dropWhile (\<lambda>c. c = CHR ''.'') (rev (strip
            (case webauthn_rp_id (cfg e) of None \<Rightarrow> [] | Some s \<Rightarrow> s)))))
      in if configured \<noteq> [] then configured else lower (hostname (snd (urlsplit (app_url (cfg e))))))"

definition webauthn_origin_list :: "env \<Rightarrow> string list" where
  "webauthn_origin_list e =
     (let configured = map (\<lambda>p. rstrip_slash (strip p))
            (filter (\<lambda>p. strip p \<noteq> []) (split_on (CHR '','') (webauthn_origins (cfg e))))
      in if configured \<noteq> [] then configured else [rstrip_slash (url_origin (app_url (cfg e)))])"

text \<open>The startup validation of the deletion settings in \<open>load_file_backed_secrets\<close>.\<close>

definition validate_deletion_settings :: "settings \<Rightarrow> exn + unit" where
  "validate_deletion_settings c =
     (if account_deletion_dispatch_interval_seconds c \<le> 0 \<or> account_deletion_lease_seconds c \<le> 0 \<or>
         account_deletion_retry_base_seconds c \<le> 0 \<or> account_deletion_retry_max_seconds c \<le> 0 \<or>
         account_deletion_batch_size c \<le> 0
      then Inl (ValueError ''must be positive'')
      else if account_deletion_retry_max_seconds c < account_deletion_retry_base_seconds c
      then Inl (ValueError ''ACCOUNT_DELETION_RETRY_MAX_SECONDS must be at least the base retry interval'')
      else if account_deletion_quiescence_seconds c < 0
      then Inl (ValueError ''ACCOUNT_DELETION_QUIESCENCE_SECONDS cannot be negative'')
      else Inr ())"

lemma default_replica_root: "resolve e (replica_path (cfg e)) \<in> set (replica_root_list e)"
  by (simp add: replica_root_list_def Let_def)

end
