(* ===== verification/Catalog.thy ===== *)
theory Catalog
  imports Values Complex_Main
begin

text \<open>
  The catalogue: one record per table of \<open>app/models\<close>, one field per column, and the record
  \<open>db\<close> of all tables.  A column constrained to a fixed set by a check constraint is a datatype,
  the other status columns are strings as in the code.  Field names carry a prefix per table.
\<close>

datatype lifecycle = Active | Superseded | Trashed | Purging

record user =
  u_id :: uuid
  u_email :: string
  u_password_hash :: string
  u_password_enabled :: bool
  u_password_set_at :: "time option"
  u_display_name :: "string option"
  u_onboarding_completed_at :: "time option"
  u_email_verified_at :: "time option"
  u_totp_secret :: "string option"
  u_totp_enabled_at :: "time option"
  u_totp_last_used_step :: "int option"
  u_pending_totp_secret :: "string option"
  u_pending_totp_expires_at :: "time option"
  u_pending_totp_session_id :: "uuid option"
  u_media_key :: "string option"
  u_media_key_version :: int
  u_disabled_at :: "time option"
  u_created_at :: time

record media_info =
  m_width :: "int option"
  m_height :: "int option"
  m_duration_seconds :: "rat option"
  m_latitude :: "rat option"
  m_longitude :: "rat option"
  m_camera_make :: "string option"
  m_camera_model :: "string option"
  m_lens_model :: "string option"
  m_orientation :: "int option"
  m_metadata_json :: "json option"
  m_ocr_text :: "string option"
  m_semantic_text :: "string option"
  m_embedding :: "rat list option"
  m_perceptual_hash :: "string option"
  m_intelligence_status :: string
  m_indexed_at :: "time option"

text \<open>The descriptive columns, which the modelled services only copy, are grouped in
  \<open>a_media\<close>.\<close>

record asset =
  a_id :: uuid
  a_user_id :: uuid
  a_logical_id :: uuid
  a_version :: int
  a_lifecycle_state :: lifecycle
  a_superseded_at :: "time option"
  a_trashed_at :: "time option"
  a_purge_after :: "time option"
  a_deleted_by :: "string option"
  a_original_path :: string
  a_checksum :: string
  a_storage_checksum :: string
  a_encryption_version :: int
  a_file_size :: int
  a_mime_type :: string
  a_taken_at :: "time option"
  a_file_created_at :: "time option"
  a_file_modified_at :: "time option"
  a_media :: media_info
  a_thumbnail_path :: "string option"
  a_preview_path :: "string option"
  a_processing_status :: string
  a_processing_error :: "string option"
  a_storage_source :: string
  a_external_library_id :: "uuid option"
  a_original_filename :: "string option"
  a_relative_path :: "string option"
  a_protection_status :: string
  a_restore_status :: string
  a_restored_at :: "time option"
  a_created_at :: time

record replica =
  r_id :: uuid
  r_asset_id :: uuid
  r_drive_id :: "uuid option"
  r_path :: string
  r_checksum :: string
  r_metadata_path :: "string option"
  r_status :: string
  r_verification_status :: string
  r_failure_count :: int
  r_last_error :: "string option"
  r_verified_at :: time
  r_created_at :: time

record upload =
  up_id :: uuid
  up_user_id :: uuid
  up_device_id :: "uuid option"
  up_filename :: string
  up_mime_type :: string
  up_total_size :: int
  up_offset :: int
  up_expected_checksum :: "string option"
  up_file_created_at :: "time option"
  up_file_modified_at :: "time option"
  up_staging_path :: string
  up_status :: string
  up_expires_at :: time
  up_created_at :: time

record policy =
  p_user_id :: uuid
  p_desired_replica_count :: int
  p_retention_days :: int
  p_balance_threshold_percent :: int
  p_backup_retention_days :: int

record drive =
  dr_id :: uuid
  dr_user_id :: uuid
  dr_name :: string
  dr_path :: string
  dr_priority :: int
  dr_eligible :: bool
  dr_failure_count :: int
  dr_verification_status :: string
  dr_last_verified_at :: "time option"
  dr_last_error :: "string option"
  dr_created_at :: time

record archive =
  ba_id :: uuid
  ba_kind :: string
  ba_path :: string
  ba_checksum :: string
  ba_size_bytes :: int
  ba_status :: string
  ba_verification_status :: string
  ba_verified_at :: "time option"
  ba_verification_detail :: "string option"
  ba_created_at :: time

datatype job_status = JPending | JQueued | JRunning | JRetry | JManualReview | JCompleted

record job =
  j_id :: uuid
  j_subject_id :: "uuid option"
  j_status :: job_status
  j_attempt_count :: int
  j_failure_count :: int
  j_assets_purged :: int
  j_uploads_purged :: int
  j_retained_legacy_paths :: int
  j_requested_at :: time
  j_not_before :: time
  j_next_attempt_at :: time
  j_lease_token :: "uuid option"
  j_lease_expires_at :: "time option"
  j_last_error_code :: "string option"
  j_last_error_at :: "time option"
  j_suppression_review_after :: time
  j_completed_at :: "time option"

record sync_root =
  sr_id :: uuid
  sr_user_id :: uuid
  sr_name :: string
  sr_client_id :: string
  sr_cursor :: int
  sr_status :: string
  sr_last_seen_at :: "time option"
  sr_created_at :: time

record sync_item =
  si_root_id :: uuid
  si_logical_id :: uuid
  si_asset_id :: "uuid option"
  si_relative_path :: string
  si_revision :: string
  si_deleted_at :: "time option"

datatype sync_kind = Upsert | Move | Delete

record sync_operation =
  so_id :: uuid
  so_root_id :: uuid
  so_cursor :: int
  so_client_id :: string
  so_client_sequence :: int
  so_operation_id :: uuid
  so_kind :: sync_kind
  so_logical_id :: uuid
  so_base_revision :: "string option"
  so_revision :: "string option"
  so_payload :: json
  so_status :: string

record sync_conflict =
  sc_id :: uuid
  sc_root_id :: uuid
  sc_logical_id :: uuid
  sc_local_operation_id :: uuid
  sc_conflicting_operation_id :: "uuid option"
  sc_kind :: string
  sc_detail :: json
  sc_status :: string
  sc_resolution :: "string option"
  sc_resolved_at :: "time option"

record auth_session =
  as_id :: uuid
  as_user_id :: uuid
  as_refresh_token_hash :: string
  as_ip_address :: "string option"
  as_user_agent :: "string option"
  as_last_seen_at :: time
  as_expires_at :: time
  as_revoked_at :: "time option"
  as_reauthenticated_at :: "time option"
  as_created_at :: time

record account_token =
  at_id :: uuid
  at_user_id :: uuid
  at_session_id :: "uuid option"
  at_purpose :: string
  at_token_hash :: string
  at_expires_at :: time
  at_used_at :: "time option"
  at_created_at :: time

record recovery_code =
  rc_id :: uuid
  rc_user_id :: uuid
  rc_code_hash :: string
  rc_used_at :: "time option"

record audit_event =
  au_user_id :: "uuid option"
  au_event_type :: string
  au_ip_address :: "string option"
  au_user_agent :: "string option"
  au_detail :: json

record identity =
  ei_user_id :: uuid
  ei_provider :: string
  ei_subject :: string
  ei_email_at_link :: string

record passkey =
  pk_id :: uuid
  pk_user_id :: uuid
  pk_credential_id :: bytes
  pk_public_key :: bytes
  pk_sign_count :: int
  pk_name :: string
  pk_transports :: "string list"
  pk_aaguid :: "string option"
  pk_device_type :: string
  pk_backed_up :: bool
  pk_last_used_at :: "time option"
  pk_created_at :: time

datatype challenge_purpose = PasskeyRegistration | PasskeyAuthentication | PasskeyReauthentication

record challenge =
  ch_id :: uuid
  ch_user_id :: "uuid option"
  ch_session_id :: "uuid option"
  ch_purpose :: challenge_purpose
  ch_challenge :: bytes
  ch_discoverable :: bool
  ch_expires_at :: time
  ch_used_at :: "time option"
  ch_created_at :: time

record device =
  de_id :: uuid
  de_user_id :: uuid
  de_name :: string
  de_platform :: string
  de_token_hash :: string
  de_last_seen_at :: "time option"
  de_last_backup_at :: "time option"
  de_files_backed_up :: int
  de_bytes_backed_up :: int
  de_push_token :: "string option"
  de_push_token_updated_at :: "time option"
  de_created_at :: time

record pairing_code =
  pc_id :: uuid
  pc_user_id :: uuid
  pc_code_hash :: string
  pc_expires_at :: time
  pc_claimed_at :: "time option"

record node =
  nd_id :: uuid
  nd_user_id :: uuid
  nd_name :: string
  nd_public_key :: string
  nd_endpoint_url :: "string option"
  nd_secret_hash :: string
  nd_status :: string
  nd_version :: "string option"
  nd_capabilities :: "json option"
  nd_attestation_state :: string
  nd_last_attested_at :: "time option"
  nd_last_attestation_timestamp_ms :: "int option"
  nd_secret_rotated_at :: "time option"
  nd_last_seen_at :: "time option"
  nd_revoked_at :: "time option"
  nd_created_at :: time

record library =
  li_id :: uuid
  li_user_id :: uuid
  li_name :: string
  li_path :: string
  li_status :: string
  li_file_count :: int
  li_last_scanned_at :: "time option"
  li_error :: "string option"
  li_created_at :: time

record share =
  sh_id :: uuid
  sh_user_id :: uuid
  sh_asset_id :: uuid
  sh_token_hash :: string
  sh_password_hash :: "string option"
  sh_allow_download :: bool
  sh_expires_at :: "time option"
  sh_created_at :: time

record album =
  al_id :: uuid
  al_user_id :: uuid
  al_name :: string
  al_description :: "string option"
  al_created_at :: time

record album_asset =
  aa_album_id :: uuid
  aa_asset_id :: uuid
  aa_added_at :: time

record album_member =
  am_album_id :: uuid
  am_user_id :: uuid
  am_role :: string
  am_invited_by :: "uuid option"
  am_joined_at :: time

record album_invite =
  ai_id :: uuid
  ai_album_id :: uuid
  ai_email :: string
  ai_role :: string
  ai_token_hash :: string
  ai_invited_by :: uuid
  ai_expires_at :: time
  ai_accepted_at :: "time option"

record monitoring_event =
  me_id :: uuid
  me_user_id :: "uuid option"
  me_asset_id :: "uuid option"
  me_kind :: string
  me_severity :: string
  me_status :: string
  me_message :: string
  me_detail :: "json option"
  me_resolved_at :: "time option"
  me_created_at :: time

record db =
  users :: "user list"
  assets :: "asset list"
  replicas :: "replica list"
  uploads :: "upload list"
  policies :: "policy list"
  drives :: "drive list"
  archives :: "archive list"
  jobs :: "job list"
  sync_roots :: "sync_root list"
  sync_items :: "sync_item list"
  sync_operations :: "sync_operation list"
  sync_conflicts :: "sync_conflict list"
  auth_sessions :: "auth_session list"
  account_tokens :: "account_token list"
  recovery_codes :: "recovery_code list"
  audit_events :: "audit_event list"
  identities :: "identity list"
  passkeys :: "passkey list"
  challenges :: "challenge list"
  devices :: "device list"
  pairing_codes :: "pairing_code list"
  nodes :: "node list"
  libraries :: "library list"
  shares :: "share list"
  albums :: "album list"
  album_assets :: "album_asset list"
  album_members :: "album_member list"
  album_invites :: "album_invite list"
  monitoring_events :: "monitoring_event list"

end
