(* ===== verification/HostStorage.thy ===== *)
theory HostStorage
  imports Catalog
begin

text \<open>
  \<open>services/host_storage.py\<close>: the installer's manifest of approved volumes, the check of a
  volume's marker file, the guard \<open>require_storage_path\<close> that every file operation of the
  program calls first, and the ownership of the host's import folder.
\<close>

definition STORAGE_ROLES :: "string list" where
  "STORAGE_ROLES = [''imports'', ''originals'', ''derivatives'', ''staging'', ''replicas'', ''backups'']"

text \<open>The field constraints that pydantic enforces on \<open>StorageBinding\<close> and
  \<open>StorageManifest\<close>.\<close>

definition valid_binding :: "storage_binding \<Rightarrow> bool" where
  "valid_binding b \<longleftrightarrow> role b \<in> set STORAGE_ROLES \<and> 16 \<le> length (marker b) \<and> length (marker b) \<le> 256"

definition valid_manifest :: "storage_manifest \<Rightarrow> bool" where
  "valid_manifest m \<longleftrightarrow>
     1 \<le> length (installation_id m) \<and> length (installation_id m) \<le> 128 \<and>
     3 \<le> length (owner_email m) \<and> length (owner_email m) \<le> 320 \<and>
     1 \<le> length (import_display_name m) \<and> length (import_display_name m) \<le> 255 \<and>
     length (bindings m) = 6 \<and> list_all valid_binding (bindings m)"

definition expected_path :: "env \<Rightarrow> string \<Rightarrow> string" where
  "expected_path e r =
     (if r = ''originals'' then originals_path (cfg e)
      else if r = ''derivatives'' then derivatives_path (cfg e)
      else if r = ''staging'' then staging_path (cfg e)
      else if r = ''replicas'' then replica_path (cfg e)
      else backups_path (cfg e))"

definition is_absolute :: "string \<Rightarrow> bool" where
  "is_absolute p \<longleftrightarrow> prefix ''/'' p"

definition binding_ok :: "env \<Rightarrow> storage_binding \<Rightarrow> bool" where
  "binding_ok e b \<longleftrightarrow>
     is_absolute (binding_path b) \<and> is_absolute (marker_path b) \<and>
     (if role b = ''imports''
      then length (external_root_list e) = 1 \<and> resolve e (binding_path b) = external_root_list e ! 0
      else resolve e (binding_path b) = resolve e (expected_path e (role b)))"

definition load_storage_manifest :: "env \<Rightarrow> fs \<Rightarrow> exn + storage_manifest option" where
  "load_storage_manifest e f =
     (case storage_manifest_path (cfg e) of
        None \<Rightarrow> Inr None
      | Some source \<Rightarrow>
          (case files f (canonical e source) of
             None \<Rightarrow> Inl (StorageUnavailableError ''configured'')
           | Some raw \<Rightarrow>
               if int (length raw) > 65536 then Inl (StorageUnavailableError ''configured'')
               else (case Option.bind (decode_text e raw) (parse_manifest e) of
                  None \<Rightarrow> Inl (StorageUnavailableError ''configured'')
                | Some m \<Rightarrow>
                    if valid_manifest m \<and> set (map role (bindings m)) = set STORAGE_ROLES \<and>
                       list_all (binding_ok e) (bindings m)
                    then Inr (Some m) else Inl (StorageUnavailableError ''configured''))))"

definition verify_binding :: "env \<Rightarrow> fs \<Rightarrow> storage_binding \<Rightarrow> exn + unit" where
  "verify_binding e f b =
     (if \<not> is_dir e f (binding_path b) then Inl (StorageUnavailableError (role b))
      else case files f (canonical e (marker_path b)) of
             None \<Rightarrow> Inl (StorageUnavailableError (role b))
           | Some raw \<Rightarrow>
               if int (length raw) > 1024 then Inl (StorageUnavailableError (role b))
               else (case decode_text e raw of
                       None \<Rightarrow> Inl (StorageUnavailableError (role b))
                     | Some t \<Rightarrow> require (strip t = marker b) (StorageUnavailableError (role b))))"

definition require_storage :: "env \<Rightarrow> fs \<Rightarrow> string list \<Rightarrow> exn + unit" where
  "require_storage e f roles =
     sbind (load_storage_manifest e f) (\<lambda>m.
       case m of None \<Rightarrow> Inr ()
       | Some m \<Rightarrow> check_all (verify_binding e f)
           (filter (\<lambda>b. roles = [] \<or> role b \<in> set roles) (bindings m)))"

definition require_storage_path :: "env \<Rightarrow> fs \<Rightarrow> string \<Rightarrow> exn + unit" where
  "require_storage_path e f p =
     sbind (load_storage_manifest e f) (\<lambda>m.
       case m of None \<Rightarrow> Inr ()
       | Some m \<Rightarrow>
           (let matches = filter (\<lambda>b. is_relative_to (resolve e p) (resolve e (binding_path b))) (bindings m)
            in if matches = [] then Inl (StorageUnavailableError ''configured'')
               else check_all (verify_binding e f) matches))"

definition storage_readiness :: "env \<Rightarrow> fs \<Rightarrow> (string \<times> string) list" where
  "storage_readiness e f =
     (case load_storage_manifest e f of
        Inl x \<Rightarrow> map (\<lambda>r. (r, ''unavailable'')) STORAGE_ROLES
      | Inr None \<Rightarrow> [(''identity'', ''not_configured'')]
      | Inr (Some m) \<Rightarrow>
          map (\<lambda>b. (role b, if isl (verify_binding e f b) then ''unavailable'' else ''ok'')) (bindings m))"

definition configured_owner_email :: "env \<Rightarrow> fs \<Rightarrow> exn + string option" where
  "configured_owner_email e f =
     sbind (load_storage_manifest e f) (\<lambda>m.
       let email = (case m of Some m \<Rightarrow> Some (owner_email m) | None \<Rightarrow> host_owner_email (cfg e))
       in Inr (case email of
            Some s \<Rightarrow> if strip s \<noteq> [] then Some (casefold e (strip s)) else None
          | None \<Rightarrow> None))"

text \<open>A configured address that case folds to the empty string is falsy in
  \<open>bool(owner and ...)\<close>.\<close>

definition is_host_owner :: "env \<Rightarrow> fs \<Rightarrow> user \<Rightarrow> exn + bool" where
  "is_host_owner e f u =
     sbind (configured_owner_email e f) (\<lambda>owner.
       Inr (case owner of None \<Rightarrow> False
            | Some w \<Rightarrow> w \<noteq> [] \<and> u_email_verified_at u \<noteq> None \<and> u_disabled_at u = None \<and>
                casefold e (strip (u_email u)) = w))"

definition require_host_owner :: "env \<Rightarrow> fs \<Rightarrow> user \<Rightarrow> exn + unit" where
  "require_host_owner e f u =
     sbind (configured_owner_email e f) (\<lambda>owner.
       if owner = None
       then Inl (HTTPException 409 ''The PC owner must approve an account in Drivebound Setup before connecting a host photo folder.'')
       else sbind (is_host_owner e f u) (\<lambda>ok.
         require ok (HTTPException 403 ''Only the verified account approved by the PC owner can connect its photo folder.'')))"

definition approved_import_root :: "env \<Rightarrow> fs \<Rightarrow> user \<Rightarrow> exn + string" where
  "approved_import_root e f u =
     sbind (require_host_owner e f u) (\<lambda>_.
     sbind (load_storage_manifest e f) (\<lambda>m.
       case m of
         Some m \<Rightarrow>
           (case sql_first (\<lambda>b. role b = ''imports'') (bindings m) of
              None \<Rightarrow> Inl (RuntimeError ''StopIteration'')
            | Some b \<Rightarrow> sbind (verify_binding e f b) (\<lambda>_. Inr (resolve e (binding_path b))))
       | None \<Rightarrow>
           (case external_root_list e of
              [r] \<Rightarrow> if is_dir e f r then Inr r else Inl (StorageUnavailableError ''imports'')
            | _ \<Rightarrow> Inl (HTTPException 409 ''The host operator must select one photo folder for guided connection.''))))"

lemma load_manifest_Some:
  assumes "load_storage_manifest e f = Inr (Some m)"
  shows "length (bindings m) = 6" "set (map role (bindings m)) = set STORAGE_ROLES"
    "\<And>b. b \<in> set (bindings m) \<Longrightarrow> binding_ok e b"
  using assms
  by (auto simp: load_storage_manifest_def valid_manifest_def list_all_iff
      split: option.splits if_splits)

text \<open>An accepted manifest names each role exactly once.\<close>

lemma manifest_roles_distinct:
  assumes "load_storage_manifest e f = Inr (Some m)"
  shows "distinct (map role (bindings m))"
proof (rule card_distinct)
  have "card (set STORAGE_ROLES) = 6" by (simp add: STORAGE_ROLES_def)
  with load_manifest_Some(1,2) [OF assms]
  show "card (set (map role (bindings m))) = length (map role (bindings m))" by simp
qed

lemma verify_binding_Inr:
  "verify_binding e f b = Inr u \<longleftrightarrow>
     is_dir e f (binding_path b) \<and>
     (\<exists>raw t. files f (canonical e (marker_path b)) = Some raw \<and> int (length raw) \<le> 1024 \<and>
        decode_text e raw = Some t \<and> strip t = marker b)"
  by (auto simp: verify_binding_def split: option.splits)

lemma require_storage_path_Inr:
  assumes "require_storage_path e f p = Inr u" "load_storage_manifest e f = Inr (Some m)"
  obtains b where "b \<in> set (bindings m)"
    "is_relative_to (resolve e p) (resolve e (binding_path b))" "verify_binding e f b = Inr ()"
proof -
  let ?ms = "filter (\<lambda>b. is_relative_to (resolve e p) (resolve e (binding_path b))) (bindings m)"
  from assms have "?ms \<noteq> []" and all: "\<forall>b \<in> set ?ms. verify_binding e f b = Inr ()"
    by (auto simp: require_storage_path_def Let_def split: if_splits)
  then obtain b where "b \<in> set ?ms" by (cases ?ms) auto
  with all that show ?thesis by auto
qed

text \<open>Approving the import root never errors out of the host: the binding always exists.\<close>

lemma approved_import_root_binding:
  assumes "load_storage_manifest e f = Inr (Some m)"
  shows "\<exists>b. sql_first (\<lambda>b. role b = ''imports'') (bindings m) = Some b"
proof -
  have "''imports'' \<in> set (map role (bindings m))"
    using load_manifest_Some(2) [OF assms] by (simp add: STORAGE_ROLES_def)
  then obtain b where "b \<in> set (bindings m)" "role b = ''imports''" by auto
  then have "sql_first (\<lambda>b. role b = ''imports'') (bindings m) \<noteq> None"
    by (auto simp: sql_first_None)
  then show ?thesis by auto
qed

end
