(* ===== verification/StoragePaths.thy ===== *)
theory StoragePaths
  imports HostStorage
begin

text \<open>
  The path functions of \<open>services/storage.py\<close>: the canonical identity of a path and its advisory
  lock key, the content-addressed locations of originals and derivatives, and the validators
  that confine a stored path to a configured root.  (The operations of that file that move
  bytes are in \<open>Encryption\<close>.)
\<close>

definition hex_digit :: "char \<Rightarrow> nat" where
  "hex_digit c = (let n = of_char c :: nat in
     if 48 \<le> n \<and> n \<le> 57 then n - 48 else if 97 \<le> n \<and> n \<le> 102 then n - 87 else 0)"

definition hex_value :: "string \<Rightarrow> nat" where
  "hex_value s = foldl (\<lambda>v c. 16 * v + hex_digit c) 0 s"

text \<open>\<open>uuid.UUID\<close> of the canonical lower-case forms, the ones \<open>str\<close> prints.\<close>

definition parse_uuid :: "string \<Rightarrow> uuid option" where
  "parse_uuid s = (let h = filter (\<lambda>c. c \<noteq> CHR ''-'') s in
     if length h = 32 \<and> list_all (\<lambda>c. c \<in> set ''0123456789abcdef'') h
     then Some (word_of_nat (hex_value h)) else None)"

definition uuid_bytes :: "uuid \<Rightarrow> bytes" where
  "uuid_bytes w = map (\<lambda>i. char_of (uint w div 256 ^ (15 - i))) [0..<16]"

definition canonical_storage_path :: "env \<Rightarrow> string \<Rightarrow> string" where
  "canonical_storage_path e p = canonical e p"

text \<open>The first eight digest bytes as a signed big-endian integer.\<close>

definition storage_path_lock_key :: "env \<Rightarrow> string \<Rightarrow> int" where
  "storage_path_lock_key e p =
     sint (word_of_nat (hex_value (take 16 (sha256 e (canonical e p)))) :: 64 word)"

definition original_path_for :: "env \<Rightarrow> string \<Rightarrow> uuid option \<Rightarrow> string" where
  "original_path_for e checksum user_id =
     (case user_id of
        Some u \<Rightarrow> path_join (path_join (path_join (originals_path (cfg e)) (uuid_str u)) (take 2 checksum)) checksum
      | None \<Rightarrow> path_join (path_join (originals_path (cfg e)) (take 2 checksum)) checksum)"

definition derivative_path_for :: "env \<Rightarrow> string \<Rightarrow> string \<Rightarrow> uuid \<Rightarrow> string" where
  "derivative_path_for e kind checksum user_id =
     path_join (path_join (path_join (path_join (derivatives_path (cfg e)) kind) (uuid_str user_id))
       (take 2 checksum)) (checksum @ ''.webp'')"

definition validated_storage_path :: "env \<Rightarrow> fs \<Rightarrow> string \<Rightarrow> string \<Rightarrow> exn + string" where
  "validated_storage_path e f stored_path rt =
     (let path = resolve e stored_path in
      if \<not> is_relative_to path (resolve e rt)
      then Inl (HTTPException 500 ''Asset has an invalid storage path'')
      else sbind (require_storage_path e f path) (\<lambda>_. Inr path))"

definition validated_external_path :: "env \<Rightarrow> fs \<Rightarrow> string \<Rightarrow> exn + string" where
  "validated_external_path e f stored_path =
     (let path = resolve e stored_path in
      if \<not> list_ex (is_relative_to path) (external_root_list e)
      then Inl (HTTPException 400 ''Path is outside the configured external library roots'')
      else sbind (require_storage_path e f path) (\<lambda>_. Inr path))"

definition validated_replica_drive_path :: "env \<Rightarrow> fs \<Rightarrow> string \<Rightarrow> exn + string" where
  "validated_replica_drive_path e f stored_path =
     (let path = resolve e stored_path in
      if \<not> list_ex (is_relative_to path) (replica_root_list e)
      then Inl (HTTPException 400 ''Path is outside the configured replica-drive roots'')
      else sbind (require_storage_path e f path) (\<lambda>_. Inr path))"

definition validated_backup_path :: "env \<Rightarrow> fs \<Rightarrow> string \<Rightarrow> exn + string" where
  "validated_backup_path e f stored_path =
     (let path = resolve e stored_path in
      if \<not> is_relative_to path (resolve e (backups_path (cfg e)))
      then Inl (HTTPException 500 ''Backup path is outside the configured backup root'')
      else sbind (require_storage_path e f path) (\<lambda>_. Inr path))"

definition sha256_file :: "env \<Rightarrow> fs \<Rightarrow> string \<Rightarrow> exn + string" where
  "sha256_file e f p = sbind (read_bytes e f p) (\<lambda>b. Inr (sha256 e b))"

lemma validated_storage_path_Inr [simp]:
  "validated_storage_path e f p rt = Inr q \<longleftrightarrow>
     q = resolve e p \<and> is_relative_to q (resolve e rt) \<and> require_storage_path e f q = Inr ()"
  by (auto simp: validated_storage_path_def Let_def sbind_Inr_iff)

lemma validated_replica_drive_path_Inr [simp]:
  "validated_replica_drive_path e f p = Inr q \<longleftrightarrow>
     q = resolve e p \<and> (\<exists>r \<in> set (replica_root_list e). is_relative_to q r) \<and>
     require_storage_path e f q = Inr ()"
  by (auto simp: validated_replica_drive_path_def Let_def sbind_Inr_iff list_ex_iff)

lemma validated_external_path_Inr [simp]:
  "validated_external_path e f p = Inr q \<longleftrightarrow>
     q = resolve e p \<and> (\<exists>r \<in> set (external_root_list e). is_relative_to q r) \<and>
     require_storage_path e f q = Inr ()"
  by (auto simp: validated_external_path_def Let_def sbind_Inr_iff list_ex_iff)

lemma validated_backup_path_Inr [simp]:
  "validated_backup_path e f p = Inr q \<longleftrightarrow>
     q = resolve e p \<and> is_relative_to q (resolve e (backups_path (cfg e))) \<and>
     require_storage_path e f q = Inr ()"
  by (auto simp: validated_backup_path_def Let_def sbind_Inr_iff)

text \<open>Two names of one physical path contend for one lock, and the key is a signed 64-bit value,
  the argument type of \<open>pg_advisory_xact_lock\<close>.\<close>

lemma lock_key_same_identity:
  "canonical e p = canonical e q \<Longrightarrow> storage_path_lock_key e p = storage_path_lock_key e q"
  by (simp add: storage_path_lock_key_def)

lemma lock_key_bounds:
  "- (2 ^ 63) \<le> storage_path_lock_key e p" "storage_path_lock_key e p < 2 ^ 63"
  using sint_greater_eq [of "word_of_nat (hex_value (take 16 (sha256 e (canonical e p)))) :: 64 word"]
    sint_less [of "word_of_nat (hex_value (take 16 (sha256 e (canonical e p)))) :: 64 word"]
  by (simp_all add: storage_path_lock_key_def)

lemma hex_value_append: "hex_value (xs @ [c]) = 16 * hex_value xs + hex_digit c"
  by (simp add: hex_value_def)

lemma hex_digit_char: "n < 16 \<Longrightarrow> hex_digit (digit_char n) = n"
proof -
  have "\<forall>i \<in> set [0..<16]. hex_digit (digit_char i) = i" by code_simp
  moreover assume "n < 16"
  ultimately show ?thesis by auto
qed

lemma digit_char_hex: "n < 16 \<Longrightarrow> digit_char n \<in> set ''0123456789abcdef''"
proof -
  assume "n < 16"
  then have "''0123456789abcdef'' ! n \<in> set ''0123456789abcdef''" by (intro nth_mem) simp
  then show ?thesis by (simp only: digit_char_def)
qed

lemma hex_value_hexs: "hex_value (hexs k n) = n mod 16 ^ k"
proof (induction k arbitrary: n)
  case 0
  show ?case by (simp add: hex_value_def)
next
  case (Suc k)
  have "n mod 16 ^ Suc k = 16 * (n div 16 mod 16 ^ k) + n mod 16"
    using mod_mult2_eq [of n 16 "16 ^ k"] by simp
  then show ?case by (simp add: hex_value_append Suc hex_digit_char)
qed

lemma hexs_hex: "set (hexs k n) \<subseteq> set ''0123456789abcdef''"
proof (induction k arbitrary: n)
  case (Suc k)
  have "digit_char (n mod 16) \<in> set ''0123456789abcdef''" by (rule digit_char_hex) simp
  with Suc [of "n div 16"] show ?case by (simp only: hexs.simps set_append) (simp del: set_simps, simp)
qed simp

lemma parse_uuid_str: "parse_uuid (uuid_str w) = Some w"
proof -
  let ?h = "uuid_hex w"
  have len: "length ?h = 32" by (simp add: uuid_hex_def)
  have hex: "set ?h \<subseteq> set ''0123456789abcdef''" by (simp only: uuid_hex_def hexs_hex)
  then have nodash: "CHR ''-'' \<notin> set ?h" by auto
  have keep: "filter (\<lambda>c. c \<noteq> CHR ''-'') xs = xs" if "set xs \<subseteq> set ?h" for xs
    using that nodash by (auto intro: filter_True)
  have sub: "set (take a (drop b ?h)) \<subseteq> set ?h" "set (take a ?h) \<subseteq> set ?h" "set (drop b ?h) \<subseteq> set ?h" for a b
    by (meson set_drop_subset set_take_subset subset_trans)+
  have split: "?h = take 8 ?h @ take 4 (drop 8 ?h) @ take 4 (drop 12 ?h) @ take 4 (drop 16 ?h) @ drop 20 ?h"
  proof -
    have a: "drop n ?h = take k (drop n ?h) @ drop (n + k) ?h" for n k
      by (metis add.commute append_take_drop_id drop_drop)
    show ?thesis using append_take_drop_id [of 8 ?h] a [of 8 4] a [of 12 4] a [of 16 4] by simp
  qed
  have "filter (\<lambda>c. c \<noteq> CHR ''-'') (uuid_str w) =
      take 8 ?h @ take 4 (drop 8 ?h) @ take 4 (drop 12 ?h) @ take 4 (drop 16 ?h) @ drop 20 ?h"
    unfolding uuid_str_def Let_def filter_append keep [OF sub(1)] keep [OF sub(2)] keep [OF sub(3)] by simp
  with split have f: "filter (\<lambda>c. c \<noteq> CHR ''-'') (uuid_str w) = ?h" by simp
  have "hex_value ?h = unat w"
    unfolding uuid_hex_def hex_value_hexs using unsigned_less [of w, where ?'a = nat] by simp
  then have "word_of_nat (hex_value ?h) = w" by simp
  moreover have "list_all (\<lambda>c. c \<in> set ''0123456789abcdef'') ?h"
    using hex by (auto simp only: list_all_iff)
  ultimately show ?thesis unfolding parse_uuid_def Let_def f using len by simp
qed

end
