(* ===== verification/Sample.thy ===== *)
theory Sample
  imports Catalog
begin

text \<open>
  A small concrete installation, on which the properties with hypotheses are applied: an empty
  database, the default configuration, a host whose paths are already resolved, and rows of a
  user, an asset and a replica with the columns the program fills in at insertion.
\<close>

definition empty_db :: db where
  "empty_db = \<lparr>users = [], assets = [], replicas = [], uploads = [], policies = [], drives = [],
     archives = [], jobs = [], sync_roots = [], sync_items = [], sync_operations = [], sync_conflicts = [],
     auth_sessions = [], account_tokens = [], recovery_codes = [], audit_events = [], identities = [], passkeys = [],
     challenges = [], devices = [], pairing_codes = [], nodes = [], libraries = [], shares = [],
     albums = [], album_assets = [], album_members = [], album_invites = [], monitoring_events = []\<rparr>"

definition sample_settings :: settings where
  "sample_settings = \<lparr>environment = ''development'', deployment_mode = ''hybrid'', originals_path = ''/data/originals'',
     derivatives_path = ''/data/derivatives'', staging_path = ''/data/staging'',
     storage_manifest_path = None, host_owner_email = None, upload_chunk_size = 1048576,
     max_upload_size = 53687091200, external_library_roots = ''/data/imports'',
     replica_path = ''/data/replicas'', replica_roots = ''/data/replicas'', backups_path = ''/data/backups'',
     database_backup_enabled = True, database_backup_interval_hours = 24,
     database_backup_retention_days = 30, lifecycle_retention_days = 30,
     account_deletion_lease_seconds = 900, account_deletion_retry_base_seconds = 30,
     account_deletion_retry_max_seconds = 3600, account_deletion_batch_size = 25,
     account_deletion_quiescence_seconds = 0, account_deletion_dispatch_interval_seconds = 60,
     auto_protect_uploads = True, resumable_chunk_size = 8388608, upload_session_hours = 24,
     access_token_minutes = 15, refresh_session_days = 30, auth_rate_limit_attempts = 8,
     auth_rate_limit_window_seconds = 900, webauthn_rp_id = None, webauthn_rp_name = ''Drivebound'',
     webauthn_origins = '''', webauthn_challenge_minutes = 5, recent_auth_minutes = 10,
     node_pairing_minutes = 10, remote_access_enabled = False, email_delivery_mode = ''console'',
     media_encryption_enabled = True, jwt_secret = ''secret'',
     app_url = ''http://localhost:3000'', cors_origins = ''http://localhost:3000'',
     auth_cookie_name = ''drivebound_session'', refresh_cookie_name = ''drivebound_refresh'', auth_cookie_secure = False,
     google_client_id = None, google_client_secret = None\<rparr>"

definition sample_digest :: "bytes \<Rightarrow> string" where
  "sample_digest b = ''d'' @ b"

text \<open>A library that accepts a credential signed with the text of the challenge.\<close>

definition sample_webauthn :: webauthn where
  "sample_webauthn = \<lparr>
     wa_parse_authentication = (\<lambda>j. Some \<lparr>ac_id = ''MTIz'', ac_raw_id = ''123'', ac_user_handle = None, ac_signed = j\<rparr>),
     wa_parse_registration = (\<lambda>j. Some \<lparr>rg_id = ''MTIz'', rg_raw_id = ''123'', rg_transports = None, rg_signed = j\<rparr>),
     wa_verify_registration = (\<lambda>a c _ _. if rg_signed a = JStr c
       then Some \<lparr>vr_credential_id = rg_raw_id a, vr_public_key = ''p'', vr_sign_count = 0, vr_aaguid = [],
              vr_device_type = ''single_device'', vr_backed_up = False\<rparr>
       else None),
     wa_verify_authentication = (\<lambda>a c _ _ _ n. if ac_signed a = JStr c
       then Some \<lparr>va_new_sign_count = Suc (nat n), va_device_type = ''single_device'', va_backed_up = False\<rparr> else None)\<rparr>"

definition sample_env :: env where
  "sample_env = \<lparr>cfg = sample_settings, resolve = (\<lambda>p. p), normcase = (\<lambda>p. p), casefold = lower,
     sha256 = sample_digest, parse_manifest = (\<lambda>_. None), decode_text = Some,
     unlink_fails = (\<lambda>_. False), set_before = (\<lambda>_ _. True), hmac = (\<lambda>k m. k @ m), master_key = ''key'', parse_iso = (\<lambda>_. Some 0), json_loads = (\<lambda>_. None),
     gcm_stream = (\<lambda>_ _ _ b. map (\<lambda>c. if c = CHR ''a'' then CHR ''b'' else if c = CHR ''b'' then CHR ''a'' else c) b),
     gcm_tag = (\<lambda>_ _ _. replicate 16 (CHR ''t'')), unwrap_key = (\<lambda>_. Some (replicate 32 (CHR ''k''))),
     disk_used = (\<lambda>_. 10), disk_total = (\<lambda>_. 100), writable = (\<lambda>_. True), write_fails = (\<lambda>_. False),
     check_password = (\<lambda>p h. h = ''h'' @ p), totp_code = (\<lambda>s n. s @ show_int n), open_secret = Some,
     seal_secret = (\<lambda>s. s), kdf = (\<lambda>salt p. ''h'' @ p), jwt_encode = (\<lambda>_ sub _ _ sid. sub @ sid),
     jwt_claims = (\<lambda>_ t _. Some (take 36 t, Some (drop 36 t))), parse_ip = Some, trusted_proxy = (\<lambda>_. False),
     webauthn = sample_webauthn, ed25519_verify = (\<lambda>_ s _. s \<noteq> replicate 64 (CHR 0x00))\<rparr>"

definition sample_user :: "uuid \<Rightarrow> user" where
  "sample_user i = \<lparr>u_id = i, u_email = ''ann@example.org'', u_password_hash = ''h'',
     u_password_enabled = True, u_password_set_at = None, u_display_name = None,
     u_onboarding_completed_at = None, u_email_verified_at = Some 0, u_totp_secret = None,
     u_totp_enabled_at = None, u_totp_last_used_step = None, u_pending_totp_secret = None,
     u_pending_totp_expires_at = None, u_pending_totp_session_id = None, u_media_key = None,
     u_media_key_version = 1, u_disabled_at = None, u_created_at = 0\<rparr>"

definition no_media :: media_info where
  "no_media = \<lparr>m_width = None, m_height = None, m_duration_seconds = None, m_latitude = None,
     m_longitude = None, m_camera_make = None, m_camera_model = None, m_lens_model = None,
     m_orientation = None, m_metadata_json = None, m_ocr_text = None, m_semantic_text = None,
     m_embedding = None, m_perceptual_hash = None, m_intelligence_status = ''pending'',
     m_indexed_at = None\<rparr>"

definition sample_asset :: "uuid \<Rightarrow> uuid \<Rightarrow> string \<Rightarrow> asset" where
  "sample_asset i u p = \<lparr>a_id = i, a_user_id = u, a_logical_id = i, a_version = 1,
     a_lifecycle_state = Active, a_superseded_at = None, a_trashed_at = None, a_purge_after = None,
     a_deleted_by = None, a_original_path = p, a_checksum = sample_digest ''x'',
     a_storage_checksum = sample_digest ''x'', a_encryption_version = 0, a_file_size = 1,
     a_mime_type = ''image/jpeg'', a_taken_at = None, a_file_created_at = None,
     a_file_modified_at = None, a_media = no_media, a_thumbnail_path = None, a_preview_path = None,
     a_processing_status = ''pending'', a_processing_error = None, a_storage_source = ''managed'',
     a_external_library_id = None, a_original_filename = Some ''x.jpg'', a_relative_path = None,
     a_protection_status = ''unprotected'', a_restore_status = ''not_requested'',
     a_restored_at = None, a_created_at = 0\<rparr>"

definition sample_replica :: "uuid \<Rightarrow> uuid \<Rightarrow> string \<Rightarrow> replica" where
  "sample_replica i a p = \<lparr>r_id = i, r_asset_id = a, r_drive_id = None, r_path = p,
     r_checksum = sample_digest ''x'', r_metadata_path = None, r_status = ''verified'',
     r_verification_status = ''verified'', r_failure_count = 0, r_last_error = None,
     r_verified_at = 0, r_created_at = 0\<rparr>"

definition sample_fs :: "(string \<times> bytes) list \<Rightarrow> fs" where
  "sample_fs kvs = \<lparr>files = map_of kvs, dirs = (\<lambda>_. True)\<rparr>"

lemmas sample_defs = empty_db_def sample_settings_def sample_env_def sample_user_def no_media_def
  sample_asset_def sample_replica_def sample_fs_def

lemma sample_host_paths [simp]: "host_paths sample_env"
  by (simp add: host_paths_def sample_env_def canonical_def)

end
