(* ===== verification/Lifecycle.thy ===== *)
theory Lifecycle
  imports StoragePaths Sample
begin

text \<open>
  \<open>services/lifecycle.py\<close>: the reference check that guards every deletion of bytes, the
  reversible transitions of an asset revision (trash, restore, roll back) and permanent
  deletion.  A transition returns its outcome and the next database; the purge functions
  also thread the file system, which a database rollback does not undo.
\<close>

section \<open>Reference check and safe unlink\<close>

definition excluded :: "uuid option \<Rightarrow> uuid \<Rightarrow> bool" where
  "excluded x i \<longleftrightarrow> x = Some i"

definition asset_paths :: "asset \<Rightarrow> string list" where
  "asset_paths a = a_original_path a # map the (filter (\<lambda>x. x \<noteq> None) [a_thumbnail_path a, a_preview_path a])"

definition replica_paths :: "replica \<Rightarrow> string list" where
  "replica_paths r = r_path r # (case r_metadata_path r of None \<Rightarrow> [] | Some m \<Rightarrow> [m])"

definition is_alias :: "env \<Rightarrow> string \<Rightarrow> string \<Rightarrow> bool" where
  "is_alias e path v \<longleftrightarrow> \<not> prefix ''duplicate:'' v \<and> canonical_storage_path e v = canonical_storage_path e path"

definition physical_path_has_other_reference ::
  "env \<Rightarrow> db \<Rightarrow> string \<Rightarrow> uuid option \<Rightarrow> uuid option \<Rightarrow> uuid option \<Rightarrow> bool" where
  "physical_path_has_other_reference e d path exA exR exU =
     (if sql_first (\<lambda>a. a_storage_source a = ''external'' \<and> a_original_path a = path) (assets d) \<noteq> None
      then True
      else if sql_first (\<lambda>a. (a_original_path a = path \<or> a_thumbnail_path a = Some path \<or>
             a_preview_path a = Some path) \<and> \<not> excluded exA (a_id a)) (assets d) \<noteq> None then True
      else if sql_first (\<lambda>r. (r_path r = path \<or> r_metadata_path r = Some path) \<and>
             \<not> excluded exR (r_id r)) (replicas d) \<noteq> None then True
      else if sql_first (\<lambda>u. up_staging_path u = path \<and> \<not> excluded exU (up_id u)) (uploads d) \<noteq> None
      then True
      else if sql_first (\<lambda>a. a_storage_source a = ''external'' \<and>
             canonical_storage_path e (a_original_path a) = canonical_storage_path e path) (assets d) \<noteq> None
      then True
      else if list_ex (\<lambda>a. \<not> excluded exA (a_id a) \<and> list_ex (is_alias e path) (asset_paths a)) (assets d)
      then True
      else if list_ex (\<lambda>r. \<not> excluded exR (r_id r) \<and> list_ex (is_alias e path) (replica_paths r)) (replicas d)
      then True
      else list_ex (\<lambda>u. \<not> excluded exU (up_id u) \<and> is_alias e path (up_staging_path u)) (uploads d))"

definition safely_unlink_catalog_path ::
  "env \<Rightarrow> db \<Rightarrow> fs \<Rightarrow> string \<Rightarrow> string option \<Rightarrow> bool \<Rightarrow> uuid option \<Rightarrow> uuid option \<Rightarrow> uuid option \<Rightarrow>
   exn + bool \<times> fs" where
  "safely_unlink_catalog_path e d f path rt replica_root exA exR exU =
     sbind (if replica_root then validated_replica_drive_path e f path
            else validated_storage_path e f path
              (case rt of Some r \<Rightarrow> r | None \<Rightarrow> staging_path (cfg e))) (\<lambda>resolved.
     if canonical_storage_path e resolved \<noteq> path then Inl (ValueError ''noncanonical_catalog_path'')
     else if physical_path_has_other_reference e d path exA exR exU then Inr (False, f)
     else sbind (require_storage_path e f resolved) (\<lambda>_.
          sbind (unlink_missing_ok e resolved f) (\<lambda>f'. Inr (True, f'))))"

text \<open>What the check decides: some row other than the excluded ones names the identity \<open>q\<close>.\<close>

definition references :: "env \<Rightarrow> db \<Rightarrow> uuid option \<Rightarrow> uuid option \<Rightarrow> uuid option \<Rightarrow> string \<Rightarrow> bool" where
  "references e d exA exR exU q \<longleftrightarrow>
     (\<exists>a \<in> set (assets d). a_storage_source a = ''external'' \<and> canonical e (a_original_path a) = q) \<or>
     (\<exists>a \<in> set (assets d). \<not> excluded exA (a_id a) \<and>
        (\<exists>p \<in> set (asset_paths a). \<not> prefix ''duplicate:'' p \<and> canonical e p = q)) \<or>
     (\<exists>r \<in> set (replicas d). \<not> excluded exR (r_id r) \<and>
        (\<exists>p \<in> set (replica_paths r). \<not> prefix ''duplicate:'' p \<and> canonical e p = q)) \<or>
     (\<exists>u \<in> set (uploads d). \<not> excluded exU (up_id u) \<and>
        \<not> prefix ''duplicate:'' (up_staging_path u) \<and> canonical e (up_staging_path u) = q)"

lemma set_asset_paths: "set (asset_paths a) =
    insert (a_original_path a) (set_option (a_thumbnail_path a) \<union> set_option (a_preview_path a))"
  by (auto simp: asset_paths_def split: option.splits)

lemma set_replica_paths: "set (replica_paths r) = insert (r_path r) (set_option (r_metadata_path r))"
  by (auto simp: replica_paths_def split: option.splits)

lemma has_other_reference_if:
  "references e d exA exR exU (canonical e path) \<Longrightarrow>
   physical_path_has_other_reference e d path exA exR exU"
  by (auto simp: references_def physical_path_has_other_reference_def is_alias_def
      canonical_storage_path_def list_ex_iff sql_first_not_None sql_first_None)

lemma has_other_reference_only_if:
  assumes "physical_path_has_other_reference e d path exA exR exU"
    "canonical e path = path" "\<not> prefix ''duplicate:'' path"
  shows "references e d exA exR exU (canonical e path)"
  using assms
  by (fastforce simp: references_def physical_path_has_other_reference_def is_alias_def
      canonical_storage_path_def list_ex_iff sql_first_not_None set_asset_paths set_replica_paths
      split: if_splits)

lemma unlink_cases:
  assumes "safely_unlink_catalog_path e d f path rt rr exA exR exU = Inr (b, f')"
  obtains (kept) "b = False" "f' = f" "physical_path_has_other_reference e d path exA exR exU"
  | (removed) "b = True" "canonical e (resolve e path) = path" "f' = remove_file e (resolve e path) f"
      "\<not> physical_path_has_other_reference e d path exA exR exU"
      "if rr then \<exists>r \<in> set (replica_root_list e). is_relative_to (resolve e path) r
       else is_relative_to (resolve e path) (resolve e (case rt of Some r \<Rightarrow> r | None \<Rightarrow> staging_path (cfg e)))"
  using assms
  by (auto simp: safely_unlink_catalog_path_def sbind_Inr_iff unlink_missing_ok_def
      canonical_storage_path_def split: if_splits)

lemma unlink_keeps_referenced:
  assumes "safely_unlink_catalog_path e d f path rt rr exA exR exU = Inr (b, f')"
    "references e d exA exR exU q" "host_paths e"
  shows "files f' q = files f q"
  using assms(1)
proof (cases rule: unlink_cases)
  case removed
  from removed(2) assms(3) have "canonical e path = path"
    by (metis canonical_resolve)
  with removed assms(2) have "q \<noteq> path" using has_other_reference_if by metis
  with removed show ?thesis by simp
qed simp

lemma unlink_dirs:
  "safely_unlink_catalog_path e d f path rt rr exA exR exU = Inr (b, f') \<Longrightarrow> dirs f' = dirs f"
  by (erule unlink_cases) auto

section \<open>Policy and audit\<close>

definition storage_policy :: "env \<Rightarrow> uuid \<Rightarrow> db \<Rightarrow> policy \<times> db" where
  "storage_policy e uid d =
     (case sql_first (\<lambda>p. p_user_id p = uid) (policies d) of
        Some p \<Rightarrow> (p, d)
      | None \<Rightarrow>
          (let p = \<lparr>p_user_id = uid, p_desired_replica_count = 1,
                    p_retention_days = lifecycle_retention_days (cfg e),
                    p_balance_threshold_percent = 12,
                    p_backup_retention_days = database_backup_retention_days (cfg e)\<rparr>
           in (p, d\<lparr>policies := sql_insert p (policies d)\<rparr>)))"

definition audit :: "uuid \<Rightarrow> string \<Rightarrow> (string \<times> json) list \<Rightarrow> db \<Rightarrow> db" where
  "audit uid event_type detail d = d\<lparr>audit_events := sql_insert
     \<lparr>au_user_id = Some uid, au_event_type = event_type, au_ip_address = None,
      au_user_agent = None, au_detail = JObj detail\<rparr> (audit_events d)\<rparr>"

definition juuid :: "uuid \<Rightarrow> json" where
  "juuid i = JStr (uuid_str i)"

definition update_asset :: "uuid \<Rightarrow> (asset \<Rightarrow> asset) \<Rightarrow> db \<Rightarrow> db" where
  "update_asset i f d = d\<lparr>assets := sql_update (\<lambda>a. a_id a = i) f (assets d)\<rparr>"

section \<open>Reversible transitions\<close>

definition trash_asset ::
  "env \<Rightarrow> time \<Rightarrow> uuid \<Rightarrow> string \<Rightarrow> int option \<Rightarrow> db \<Rightarrow> (exn + asset) \<times> db" where
  "trash_asset e now asset_id actor retention_days d =
     (case sql_first (\<lambda>a. a_id a = asset_id) (assets d) of
        None \<Rightarrow> (Inl (ValueError ''This asset no longer exists''), d)
      | Some a \<Rightarrow>
          if a_lifecycle_state a = Trashed then (Inr a, d)
          else if a_lifecycle_state a \<noteq> Active
          then (Inl (ValueError ''Only the active revision can be moved to trash''), d)
          else
            (let (pol, d) = storage_policy e (a_user_id a) d;
                 n = (case retention_days of Some n \<Rightarrow> n | None \<Rightarrow> p_retention_days pol)
             in if n < 1 then (Inl (ValueError ''Retention must be at least one day''), d)
                else
                  (let a' = a\<lparr>a_lifecycle_state := Trashed, a_trashed_at := Some now,
                              a_purge_after := Some (now + days n), a_deleted_by := Some (take 128 actor)\<rparr>
                   in (Inr a', audit (a_user_id a) ''asset.trashed''
                        [(''asset_id'', juuid asset_id), (''logical_id'', juuid (a_logical_id a)),
                         (''purge_after'', JStr (isoformat (now + days n))), (''actor'', JStr actor)]
                        (update_asset asset_id (\<lambda>_. a') d)))))"

definition active_user :: "db \<Rightarrow> uuid \<Rightarrow> user option" where
  "active_user d uid = sql_first (\<lambda>u. u_id u = uid \<and> u_disabled_at u = None) (users d)"

definition revisions_of :: "db \<Rightarrow> asset \<Rightarrow> asset list" where
  "revisions_of d a = sort_key a_id
     (filter (\<lambda>b. a_user_id b = a_user_id a \<and> a_logical_id b = a_logical_id a) (assets d))"

text \<open>The argument \<open>a\<close> is the row the caller read earlier; its identity columns select the
  current revisions.\<close>

definition restore_asset_from_trash :: "asset \<Rightarrow> string \<Rightarrow> db \<Rightarrow> (exn + asset) \<times> db" where
  "restore_asset_from_trash a actor d =
     (if active_user d (a_user_id a) = None then (Inl (ValueError ''Account is unavailable''), d)
      else case sql_first (\<lambda>b. a_id b = a_id a) (revisions_of d a) of
        None \<Rightarrow> (Inl (ValueError ''This asset no longer exists''), d)
      | Some b \<Rightarrow>
          if a_lifecycle_state b \<noteq> Trashed
          then (Inl (ValueError ''This revision is not in trash''), d)
          else if sql_first (\<lambda>c. a_lifecycle_state c = Active \<and> a_id c \<noteq> a_id b) (revisions_of d a) \<noteq> None
          then (Inl (ValueError ''A newer revision is active; roll back to this revision instead''), d)
          else
            (let b' = b\<lparr>a_lifecycle_state := Active, a_trashed_at := None, a_purge_after := None,
                        a_deleted_by := None\<rparr>
             in (Inr b', audit (a_user_id b) ''asset.restored_from_trash''
                   [(''asset_id'', juuid (a_id b)), (''logical_id'', juuid (a_logical_id b)), (''actor'', JStr actor)]
                   (update_asset (a_id b) (\<lambda>_. b') d))))"

definition supersede :: "time \<Rightarrow> asset \<Rightarrow> asset" where
  "supersede now a = a\<lparr>a_lifecycle_state := Superseded, a_superseded_at := Some now\<rparr>"

definition activate :: "asset \<Rightarrow> asset" where
  "activate a = a\<lparr>a_lifecycle_state := Active, a_superseded_at := None, a_trashed_at := None,
     a_purge_after := None, a_deleted_by := None\<rparr>"

definition rollback_asset ::
  "time \<Rightarrow> asset \<Rightarrow> asset \<Rightarrow> string \<Rightarrow> db \<Rightarrow> (exn + asset) \<times> db" where
  "rollback_asset now current target actor d =
     (if active_user d (a_user_id target) = None then (Inl (ValueError ''Account is unavailable''), d)
      else
        (let revisions = revisions_of d target
         in case (sql_first (\<lambda>b. a_id b = a_id current) revisions, sql_first (\<lambda>b. a_id b = a_id target) revisions) of
            (Some cur, Some tgt) \<Rightarrow>
              if a_user_id cur \<noteq> a_user_id tgt \<or> a_logical_id cur \<noteq> a_logical_id tgt
              then (Inl (ValueError ''That revision is not part of this file history''), d)
              else if a_lifecycle_state cur \<noteq> Active
              then (Inl (ValueError ''The current revision cannot be changed while permanent deletion is in progress''), d)
              else if a_lifecycle_state tgt = Trashed
              then (Inl (ValueError ''Restore a trashed revision before rolling back''), d)
              else if a_lifecycle_state tgt = Purging
              then (Inl (ValueError ''That revision cannot be activated while permanent deletion is in progress''), d)
              else
                (let previous = map a_id (filter (\<lambda>b. a_id b \<noteq> a_id tgt \<and> a_lifecycle_state b = Active) revisions)
                 in if a_lifecycle_state tgt = Active \<and> previous = [] then (Inr tgt, d)
                    else
                      (let d = d\<lparr>assets := sql_update (\<lambda>b. a_id b \<in> set previous) (supersede now) (assets d)\<rparr>;
                           d = update_asset (a_id tgt) (\<lambda>_. activate tgt) d
                       in (Inr (activate tgt), audit (a_user_id tgt) ''asset.rolled_back''
                             [(''from_asset_ids'', JList (map juuid previous)),
                              (''to_asset_id'', juuid (a_id tgt)), (''logical_id'', juuid (a_logical_id tgt)),
                              (''actor'', JStr actor)] d)))
          | _ \<Rightarrow> (Inl (ValueError ''That revision is not part of this file history''), d)))"

section \<open>Permanent deletion\<close>

text \<open>The purge state: the caller's list of retained noncanonical paths, if it passed one, the
  database and the file system.\<close>

type_synonym purge_state = "string list option \<times> db \<times> fs"

definition note_unlink ::
  "asset \<Rightarrow> string \<Rightarrow> exn + bool \<times> fs \<Rightarrow> purge_state \<Rightarrow> bool \<times> purge_state" where
  "note_unlink a kind res st =
     (let (retained, d, f) = st in
      case res of
        Inr (b, f') \<Rightarrow> (True, retained, d, f')
      | Inl x \<Rightarrow>
          if retained \<noteq> None \<and> exn_str x = ''noncanonical_catalog_path''
          then (False, Some (the retained @ [kind]),
                audit (a_user_id a) ''asset.path_retained''
                  [(''asset_id'', juuid (a_id a)), (''path_kind'', JStr kind),
                   (''reason'', JStr ''noncanonical_legacy_alias'')] d, f)
          else (False, retained,
                audit (a_user_id a) ''asset.purge_deferred''
                  [(''asset_id'', juuid (a_id a)), (''reason'', JStr (exn_name x)), (''path_kind'', JStr kind)] d, f))"

definition delete_replica :: "replica \<Rightarrow> purge_state \<Rightarrow> purge_state" where
  "delete_replica r st = (case st of (ret, d, f) \<Rightarrow>
     (ret, d\<lparr>replicas := sql_delete (\<lambda>x. r_id x = r_id r) (replicas d)\<rparr>, f))"

definition unlink_for :: "env \<Rightarrow> asset \<Rightarrow> string \<Rightarrow> string \<Rightarrow> string option \<Rightarrow> bool \<Rightarrow>
    uuid option \<Rightarrow> uuid option \<Rightarrow> purge_state \<Rightarrow> bool \<times> purge_state" where
  "unlink_for e a kind path rt replica_root exA exR st =
     (case st of (ret, d, f) \<Rightarrow>
        note_unlink a kind (safely_unlink_catalog_path e d f path rt replica_root exA exR None) st)"

fun purge_replicas :: "env \<Rightarrow> asset \<Rightarrow> replica list \<Rightarrow> purge_state \<Rightarrow> bool \<times> purge_state" where
  "purge_replicas e a [] st = (True, st)"
| "purge_replicas e a (r # rs) st =
     (let (ok, st) = unlink_for e a ''replica'' (r_path r) None True None (Some (r_id r)) st in
      if \<not> ok then (False, st)
      else
        (let (ok, st) =
           (case r_metadata_path r of
              None \<Rightarrow> (True, st)
            | Some m \<Rightarrow> if m = [] then (True, st)
                else unlink_for e a ''replica_metadata'' m None True None (Some (r_id r)) st)
         in if \<not> ok then (False, st) else purge_replicas e a rs (delete_replica r st)))"

fun purge_derivatives :: "env \<Rightarrow> asset \<Rightarrow> string list \<Rightarrow> purge_state \<Rightarrow> bool \<times> purge_state" where
  "purge_derivatives e a [] st = (True, st)"
| "purge_derivatives e a (p # ps) st =
     (let (ok, st) = unlink_for e a ''derivative'' p (Some (derivatives_path (cfg e))) False (Some (a_id a)) None st in
      if \<not> ok then (False, st) else purge_derivatives e a ps st)"

text \<open>Iteration over the Python set \<open>{thumbnail, preview} - {None}\<close>.\<close>

definition derivative_set :: "env \<Rightarrow> asset \<Rightarrow> string list" where
  "derivative_set e a =
     (case (a_thumbnail_path a, a_preview_path a) of
        (None, None) \<Rightarrow> []
      | (Some t, None) \<Rightarrow> [t]
      | (None, Some p) \<Rightarrow> [p]
      | (Some t, Some p) \<Rightarrow> if t = p then [t] else if set_before e t p then [t, p] else [p, t])"

definition purgeable :: "time \<Rightarrow> asset \<Rightarrow> bool" where
  "purgeable now a \<longleftrightarrow> a_lifecycle_state a \<in> {Trashed, Purging} \<and>
     (case a_purge_after a of None \<Rightarrow> False | Some t \<Rightarrow> t \<le> now)"

text \<open>Deleting the row, with the \<open>ON DELETE\<close> actions the models declare on its foreign keys.\<close>

definition delete_asset :: "uuid \<Rightarrow> db \<Rightarrow> db" where
  "delete_asset i d = d\<lparr>
     assets := sql_delete (\<lambda>a. a_id a = i) (assets d),
     replicas := sql_delete (\<lambda>r. r_asset_id r = i) (replicas d),
     sync_items := sql_update (\<lambda>s. si_asset_id s = Some i) (\<lambda>s. s\<lparr>si_asset_id := None\<rparr>) (sync_items d),
     shares := sql_delete (\<lambda>s. sh_asset_id s = i) (shares d),
     album_assets := sql_delete (\<lambda>x. aa_asset_id x = i) (album_assets d),
     monitoring_events := sql_delete (\<lambda>m. me_asset_id m = Some i) (monitoring_events d)\<rparr>"

definition safely_purge_asset ::
  "env \<Rightarrow> time \<Rightarrow> asset \<Rightarrow> purge_state \<Rightarrow> (exn + bool) \<times> purge_state" where
  "safely_purge_asset e now a st =
     (if \<not> purgeable now a then (Inr False, st)
      else case st of (ret, d, f) \<Rightarrow>
        (case require_storage e f [''originals'', ''derivatives'', ''staging'', ''replicas'', ''backups''] of
           Inl x \<Rightarrow> (Inl x, st)
         | Inr _ \<Rightarrow>
             (let d = update_asset (a_id a) (\<lambda>x. x\<lparr>a_lifecycle_state := Purging\<rparr>) d;
                  (ok, st) = purge_replicas e a (filter (\<lambda>r. r_asset_id r = a_id a) (replicas d)) (ret, d, f)
              in if \<not> ok then (Inr False, st)
                 else
                   (let (ok, st) =
                      (if a_storage_source a = ''managed''
                       then unlink_for e a ''managed_original'' (a_original_path a)
                              (Some (originals_path (cfg e))) False (Some (a_id a)) None st
                       else (True, st))
                    in if \<not> ok then (Inr False, st)
                       else
                         (let (ok, st) = purge_derivatives e a (derivative_set e a) st
                          in if \<not> ok then (Inr False, st)
                             else case st of (ret, d, f) \<Rightarrow>
                               (Inr True, ret,
                                (audit (a_user_id a) ''asset.purged''
                                   [(''asset_id'', juuid (a_id a)), (''logical_id'', juuid (a_logical_id a)),
                                    (''checksum'', JStr (a_checksum a))] (delete_asset (a_id a) d)), f))))))"

definition due_ids :: "time \<Rightarrow> nat \<Rightarrow> uuid option \<Rightarrow> db \<Rightarrow> uuid list" where
  "due_ids now limit only d = map a_id (take limit (sort_key (\<lambda>a. the (a_purge_after a))
     (filter (\<lambda>a. purgeable now a \<and> (case only of None \<Rightarrow> True | Some i \<Rightarrow> a_id a = i)) (assets d))))"

text \<open>Each tombstone is committed on its own; an exception rolls the database back to the last
  commit.\<close>

fun purge_loop :: "env \<Rightarrow> time \<Rightarrow> uuid list \<Rightarrow> nat \<Rightarrow> db \<Rightarrow> fs \<Rightarrow> (exn + nat) \<times> db \<times> fs" where
  "purge_loop e now [] n d f = (Inr n, d, f)"
| "purge_loop e now (i # is) n d f =
     (case sql_first (\<lambda>a. a_id a = i \<and> purgeable now a) (assets d) of
        None \<Rightarrow> purge_loop e now is n d f
      | Some a \<Rightarrow>
          (case safely_purge_asset e now a (None, d, f) of
             (Inl x, ret, d', f') \<Rightarrow> (Inl x, d, f')
           | (Inr b, ret, d', f') \<Rightarrow> purge_loop e now is (if b then n + 1 else n) d' f'))"

definition purge_due_assets ::
  "env \<Rightarrow> time \<Rightarrow> nat \<Rightarrow> uuid option \<Rightarrow> db \<Rightarrow> fs \<Rightarrow> (exn + nat) \<times> db \<times> fs" where
  "purge_due_assets e now limit only d f = purge_loop e now (due_ids now limit only d) 0 d f"

section \<open>The catalogue invariant\<close>

definition retention_ok :: "asset \<Rightarrow> bool" where
  "retention_ok a \<longleftrightarrow>
     (if a_lifecycle_state a \<in> {Trashed, Purging} then a_trashed_at a \<noteq> None \<and> a_purge_after a \<noteq> None
      else a_purge_after a = None)"

definition same_item :: "asset \<Rightarrow> asset \<Rightarrow> bool" where
  "same_item a b \<longleftrightarrow> a_user_id a = a_user_id b \<and> a_logical_id a = a_logical_id b"

text \<open>The constraints of the table \<open>assets\<close>: primary key, \<open>uq_assets_logical_version\<close>,
  \<open>ck_assets_version_positive\<close>, \<open>ck_assets_retention_state\<close> and the partial unique index
  \<open>uq_assets_active_logical\<close>.\<close>

definition assets_ok :: "asset list \<Rightarrow> bool" where
  "assets_ok t \<longleftrightarrow> distinct (map a_id t) \<and> (\<forall>a \<in> set t. retention_ok a \<and> 0 < a_version a) \<and>
     (\<forall>a \<in> set t. \<forall>b \<in> set t. same_item a b \<longrightarrow> a_version a = a_version b \<longrightarrow> a_id a = a_id b) \<and>
     (\<forall>a \<in> set t. \<forall>b \<in> set t. same_item a b \<longrightarrow> a_lifecycle_state a = Active \<longrightarrow>
        a_lifecycle_state b = Active \<longrightarrow> a_id a = a_id b)"

definition catalog_ok :: "db \<Rightarrow> bool" where
  "catalog_ok d \<longleftrightarrow> assets_ok (assets d) \<and> distinct (map r_id (replicas d))"

lemma assets_ok_distinct: "assets_ok t \<Longrightarrow> distinct (map a_id t)"
  unfolding assets_ok_def by blast

lemma assets_ok_active:
  "assets_ok t \<Longrightarrow> a \<in> set t \<Longrightarrow> b \<in> set t \<Longrightarrow> same_item a b \<Longrightarrow> a_lifecycle_state a = Active \<Longrightarrow>
   a_lifecycle_state b = Active \<Longrightarrow> a_id a = a_id b"
  unfolding assets_ok_def by blast

lemma assets_ok_row: "assets_ok t \<Longrightarrow> a \<in> set t \<Longrightarrow> retention_ok a \<and> 0 < a_version a"
  unfolding assets_ok_def by blast

lemma assets_ok_id: "assets_ok t \<Longrightarrow> a \<in> set t \<Longrightarrow> b \<in> set t \<Longrightarrow> a_id a = a_id b \<Longrightarrow> a = b"
  by (auto simp: assets_ok_def dest: key_unique)

lemma assets_ok_update:
  assumes ok: "assets_ok t"
    and f: "\<And>a. a \<in> set t \<Longrightarrow> P a \<Longrightarrow> a_id (f a) = a_id a \<and> same_item (f a) a \<and> a_version (f a) = a_version a \<and>
              retention_ok (f a) \<and>
              (a_lifecycle_state (f a) = Active \<longrightarrow>
                 (\<forall>b \<in> set t. same_item b a \<longrightarrow> a_lifecycle_state b = Active \<longrightarrow> \<not> P b \<longrightarrow> a_id b = a_id a) \<and>
                 (\<forall>b \<in> set t. P b \<longrightarrow> a_lifecycle_state (f b) = Active \<longrightarrow> same_item b a \<longrightarrow> a_id b = a_id a))"
  shows "assets_ok (sql_update P f t)"
proof -
  define g where "g a = (if P a then f a else a)" for a
  have id: "a_id (g a) = a_id a" if "a \<in> set t" for a using f [of a] that by (simp add: g_def)
  have item: "same_item (g a) (g b) = same_item a b" if "a \<in> set t" "b \<in> set t" for a b
    using f [of a] f [of b] that by (auto simp: same_item_def g_def)
  have ver: "a_version (g a) = a_version a" if "a \<in> set t" for a using f [of a] that by (simp add: g_def)
  have ids: "map a_id (sql_update P f t) = map a_id t"
    using id by (simp add: sql_update_def g_def)
  have act: "a_id a = a_id b" if ab: "a \<in> set t" "b \<in> set t" "same_item a b"
      "a_lifecycle_state (g a) = Active" "a_lifecycle_state (g b) = Active" for a b
  proof -
    have ba: "same_item b a" using ab(3) by (simp add: same_item_def)
    consider "P a" "P b" | "P a" "\<not> P b" | "\<not> P a" "P b" | "\<not> P a" "\<not> P b" by blast
    then show ?thesis
    proof cases
      case 1 with ab ba f [of a] show ?thesis by (auto simp: g_def)
    next
      case 2 with ab ba f [of a] show ?thesis by (auto simp: g_def)
    next
      case 3 with ab ba f [of b] show ?thesis by (auto simp: g_def)
    next
      case 4 with ab ok show ?thesis by (auto simp: assets_ok_def g_def)
    qed
  qed
  have ret: "retention_ok (g a)" if "a \<in> set t" for a
    using f [of a] that ok by (auto simp: assets_ok_def g_def)
  have img: "set (sql_update P f t) = g ` set t"
    by (auto simp: set_sql_update g_def)
  show ?thesis
    unfolding assets_ok_def ids img ball_simps
    using ok act id item ver ret by (simp add: assets_ok_def)
qed

lemma assets_ok_delete: "assets_ok t \<Longrightarrow> assets_ok (sql_delete P t)"
  by (auto simp: assets_ok_def sql)

lemma assets_ok_insert:
  assumes "assets_ok t" "a_id a \<notin> a_id ` set t" "retention_ok a" "0 < a_version a"
    "\<And>b. b \<in> set t \<Longrightarrow> same_item a b \<Longrightarrow> a_version a \<noteq> a_version b"
    "\<And>b. b \<in> set t \<Longrightarrow> same_item a b \<Longrightarrow> a_lifecycle_state a = Active \<Longrightarrow> a_lifecycle_state b \<noteq> Active"
  shows "assets_ok (sql_insert a t)"
proof -
  have "same_item x y = same_item y x" for x y by (auto simp: same_item_def)
  with assms show ?thesis
    unfolding assets_ok_def distinct_map_sql_insert set_sql_insert
    by (metis (no_types, lifting) insert_iff)
qed

lemma assets_ok_replace:
  assumes ok: "assets_ok t" and a: "a \<in> set t"
    and a': "a_id a' = a_id a" "same_item a' a" "a_version a' = a_version a" "retention_ok a'"
    and active: "a_lifecycle_state a' = Active \<Longrightarrow>
      \<forall>b \<in> set t. same_item b a \<longrightarrow> a_lifecycle_state b = Active \<longrightarrow> a_id b = a_id a"
  shows "assets_ok (sql_update (\<lambda>x. a_id x = a_id a) (\<lambda>_. a') t)"
proof (rule assets_ok_update [OF ok])
  fix x assume "x \<in> set t" "a_id x = a_id a"
  with a ok have "x = a" by (metis assets_ok_id)
  with a' active show "a_id a' = a_id x \<and> same_item a' x \<and> a_version a' = a_version x \<and> retention_ok a' \<and>
      (a_lifecycle_state a' = Active \<longrightarrow>
         (\<forall>b \<in> set t. same_item b x \<longrightarrow> a_lifecycle_state b = Active \<longrightarrow> \<not> a_id b = a_id a \<longrightarrow> a_id b = a_id x) \<and>
         (\<forall>b \<in> set t. a_id b = a_id a \<longrightarrow> a_lifecycle_state a' = Active \<longrightarrow> same_item b x \<longrightarrow> a_id b = a_id x))"
    by auto
qed

section \<open>What the transitions do\<close>

lemma storage_policy_frame [simp]:
  "users (snd (storage_policy e u d)) = users d" "assets (snd (storage_policy e u d)) = assets d"
  "replicas (snd (storage_policy e u d)) = replicas d"
  "uploads (snd (storage_policy e u d)) = uploads d"
  "drives (snd (storage_policy e u d)) = drives d"
  "archives (snd (storage_policy e u d)) = archives d" "jobs (snd (storage_policy e u d)) = jobs d"
  "sync_roots (snd (storage_policy e u d)) = sync_roots d"
  "sync_items (snd (storage_policy e u d)) = sync_items d"
  "sync_operations (snd (storage_policy e u d)) = sync_operations d"
  "sync_conflicts (snd (storage_policy e u d)) = sync_conflicts d"
  "auth_sessions (snd (storage_policy e u d)) = auth_sessions d"
  "account_tokens (snd (storage_policy e u d)) = account_tokens d"
  "recovery_codes (snd (storage_policy e u d)) = recovery_codes d"
  "audit_events (snd (storage_policy e u d)) = audit_events d"
  "identities (snd (storage_policy e u d)) = identities d"
  "passkeys (snd (storage_policy e u d)) = passkeys d"
  "challenges (snd (storage_policy e u d)) = challenges d"
  "devices (snd (storage_policy e u d)) = devices d"
  "pairing_codes (snd (storage_policy e u d)) = pairing_codes d"
  "nodes (snd (storage_policy e u d)) = nodes d"
  "libraries (snd (storage_policy e u d)) = libraries d"
  "shares (snd (storage_policy e u d)) = shares d" "albums (snd (storage_policy e u d)) = albums d"
  "album_assets (snd (storage_policy e u d)) = album_assets d"
  "album_members (snd (storage_policy e u d)) = album_members d"
  "album_invites (snd (storage_policy e u d)) = album_invites d"
  "monitoring_events (snd (storage_policy e u d)) = monitoring_events d"
  by (simp_all add: storage_policy_def Let_def split: option.split)

lemma audit_simps [simp]:
  "users (audit u t x d) = users d" "assets (audit u t x d) = assets d"
  "replicas (audit u t x d) = replicas d" "uploads (audit u t x d) = uploads d"
  "policies (audit u t x d) = policies d" "drives (audit u t x d) = drives d"
  "archives (audit u t x d) = archives d" "jobs (audit u t x d) = jobs d"
  "sync_roots (audit u t x d) = sync_roots d" "sync_items (audit u t x d) = sync_items d"
  "sync_operations (audit u t x d) = sync_operations d"
  "sync_conflicts (audit u t x d) = sync_conflicts d"
  "auth_sessions (audit u t x d) = auth_sessions d"
  "account_tokens (audit u t x d) = account_tokens d"
  "recovery_codes (audit u t x d) = recovery_codes d" "identities (audit u t x d) = identities d"
  "passkeys (audit u t x d) = passkeys d" "challenges (audit u t x d) = challenges d"
  "devices (audit u t x d) = devices d" "pairing_codes (audit u t x d) = pairing_codes d"
  "nodes (audit u t x d) = nodes d" "libraries (audit u t x d) = libraries d"
  "shares (audit u t x d) = shares d" "albums (audit u t x d) = albums d"
  "album_assets (audit u t x d) = album_assets d" "album_members (audit u t x d) = album_members d"
  "album_invites (audit u t x d) = album_invites d"
  "monitoring_events (audit u t x d) = monitoring_events d"
  by (simp_all add: audit_def)

lemma update_asset_simps [simp]:
  "assets (update_asset i f d) = sql_update (\<lambda>a. a_id a = i) f (assets d)"
  "users (update_asset i f d) = users d" "replicas (update_asset i f d) = replicas d"
  "uploads (update_asset i f d) = uploads d" "policies (update_asset i f d) = policies d"
  "drives (update_asset i f d) = drives d" "archives (update_asset i f d) = archives d"
  "jobs (update_asset i f d) = jobs d" "sync_roots (update_asset i f d) = sync_roots d"
  "sync_items (update_asset i f d) = sync_items d"
  "sync_operations (update_asset i f d) = sync_operations d"
  "sync_conflicts (update_asset i f d) = sync_conflicts d"
  "auth_sessions (update_asset i f d) = auth_sessions d"
  "account_tokens (update_asset i f d) = account_tokens d"
  "recovery_codes (update_asset i f d) = recovery_codes d"
  "audit_events (update_asset i f d) = audit_events d"
  "identities (update_asset i f d) = identities d" "passkeys (update_asset i f d) = passkeys d"
  "challenges (update_asset i f d) = challenges d" "devices (update_asset i f d) = devices d"
  "pairing_codes (update_asset i f d) = pairing_codes d" "nodes (update_asset i f d) = nodes d"
  "libraries (update_asset i f d) = libraries d" "shares (update_asset i f d) = shares d"
  "albums (update_asset i f d) = albums d" "album_assets (update_asset i f d) = album_assets d"
  "album_members (update_asset i f d) = album_members d"
  "album_invites (update_asset i f d) = album_invites d"
  "monitoring_events (update_asset i f d) = monitoring_events d"
  by (simp_all add: update_asset_def)

lemma delete_asset_simps [simp]:
  "assets (delete_asset i d) = sql_delete (\<lambda>a. a_id a = i) (assets d)"
  "replicas (delete_asset i d) = sql_delete (\<lambda>r. r_asset_id r = i) (replicas d)"
  "users (delete_asset i d) = users d" "uploads (delete_asset i d) = uploads d"
  "policies (delete_asset i d) = policies d" "drives (delete_asset i d) = drives d"
  "archives (delete_asset i d) = archives d" "jobs (delete_asset i d) = jobs d"
  "sync_roots (delete_asset i d) = sync_roots d"
  "sync_operations (delete_asset i d) = sync_operations d"
  "sync_conflicts (delete_asset i d) = sync_conflicts d"
  "auth_sessions (delete_asset i d) = auth_sessions d"
  "account_tokens (delete_asset i d) = account_tokens d"
  "recovery_codes (delete_asset i d) = recovery_codes d"
  "audit_events (delete_asset i d) = audit_events d" "identities (delete_asset i d) = identities d"
  "passkeys (delete_asset i d) = passkeys d" "challenges (delete_asset i d) = challenges d"
  "devices (delete_asset i d) = devices d" "pairing_codes (delete_asset i d) = pairing_codes d"
  "nodes (delete_asset i d) = nodes d" "libraries (delete_asset i d) = libraries d"
  "albums (delete_asset i d) = albums d" "album_members (delete_asset i d) = album_members d"
  "album_invites (delete_asset i d) = album_invites d"
  by (simp_all add: delete_asset_def)

definition trashed_row :: "time \<Rightarrow> int \<Rightarrow> string \<Rightarrow> asset \<Rightarrow> asset" where
  "trashed_row now n actor a = a\<lparr>a_lifecycle_state := Trashed, a_trashed_at := Some now,
     a_purge_after := Some (now + days n), a_deleted_by := Some (take 128 actor)\<rparr>"

lemma trash_asset_cases:
  assumes "trash_asset e now i actor rd d = (res, d')"
  obtains (same) "d' = d \<or> (\<exists>u. d' = snd (storage_policy e u d))"
      "\<And>a'. res = Inr a' \<Longrightarrow> a_lifecycle_state a' = Trashed \<and> a' \<in> set (assets d) \<and> a_id a' = i"
  | (trashed) a n x where "a \<in> set (assets d)" "a_id a = i" "a_lifecycle_state a = Active" "1 \<le> n"
      "\<And>m. rd = Some m \<Longrightarrow> n = m"
      "res = Inr (trashed_row now n actor a)"
      "d' = audit (a_user_id a) ''asset.trashed'' x
         (update_asset i (\<lambda>_. trashed_row now n actor a) (snd (storage_policy e (a_user_id a) d)))"
proof (cases "sql_first (\<lambda>a. a_id a = i) (assets d)")
  case None
  with assms same show ?thesis by (auto simp: trash_asset_def)
next
  case (Some a)
  then have a: "a \<in> set (assets d)" "a_id a = i" by auto
  show ?thesis
  proof (cases "a_lifecycle_state a = Active")
    case False
    with assms Some a same show ?thesis by (auto simp: trash_asset_def split: if_splits)
  next
    case True
    define n where "n = (case rd of Some n \<Rightarrow> n | None \<Rightarrow> p_retention_days (fst (storage_policy e (a_user_id a) d)))"
    have eq: "(res, d') = (if n < 1
        then (Inl (ValueError ''Retention must be at least one day''), snd (storage_policy e (a_user_id a) d))
        else (Inr (trashed_row now n actor a), audit (a_user_id a) ''asset.trashed''
           [(''asset_id'', juuid i), (''logical_id'', juuid (a_logical_id a)),
            (''purge_after'', JStr (isoformat (now + days n))), (''actor'', JStr actor)]
           (update_asset i (\<lambda>_. trashed_row now n actor a) (snd (storage_policy e (a_user_id a) d)))))"
      unfolding assms [symmetric]
      by (simp add: trash_asset_def Some True Let_def split_beta n_def trashed_row_def)
    show ?thesis
    proof (cases "n < 1")
      case True
      with eq same show ?thesis by auto
    next
      case False
      with eq have "res = Inr (trashed_row now n actor a)"
        and "d' = audit (a_user_id a) ''asset.trashed''
           [(''asset_id'', juuid i), (''logical_id'', juuid (a_logical_id a)),
            (''purge_after'', JStr (isoformat (now + days n))), (''actor'', JStr actor)]
           (update_asset i (\<lambda>_. trashed_row now n actor a) (snd (storage_policy e (a_user_id a) d)))"
        by simp_all
      with a True False show ?thesis by (intro trashed [of a n]) (auto simp: n_def)
    qed
  qed
qed

lemma set_revisions_of:
  "b \<in> set (revisions_of d a) \<longleftrightarrow> b \<in> set (assets d) \<and> same_item b a"
  by (auto simp: revisions_of_def same_item_def)

definition restored_row :: "asset \<Rightarrow> asset" where
  "restored_row b = b\<lparr>a_lifecycle_state := Active, a_trashed_at := None, a_purge_after := None,
     a_deleted_by := None\<rparr>"

lemma restore_cases:
  assumes "restore_asset_from_trash a actor d = (res, d')"
  obtains (error) x where "res = Inl x" "d' = d"
  | (restored) b where "b \<in> set (assets d)" "same_item b a" "a_id b = a_id a" "a_lifecycle_state b = Trashed"
      "\<forall>c \<in> set (assets d). same_item c a \<longrightarrow> a_lifecycle_state c = Active \<longrightarrow> a_id c = a_id b"
      "active_user d (a_user_id a) \<noteq> None" "res = Inr (restored_row b)"
      "\<exists>x. d' = audit (a_user_id b) ''asset.restored_from_trash'' x (update_asset (a_id b) (\<lambda>_. restored_row b) d)"
proof (cases "sql_first (\<lambda>b. a_id b = a_id a) (revisions_of d a)")
  case None
  with assms that show ?thesis
    by (auto simp: restore_asset_from_trash_def split: if_splits)
next
  case (Some b)
  then have "b \<in> set (assets d)" "same_item b a" "a_id b = a_id a" by (auto simp: set_revisions_of)
  with assms that Some show ?thesis
    by (auto simp: restore_asset_from_trash_def restored_row_def Let_def sql_first_None
        set_revisions_of split: if_splits)
qed

definition superseded_ids :: "db \<Rightarrow> asset \<Rightarrow> uuid list" where
  "superseded_ids d t = map a_id (filter (\<lambda>b. a_id b \<noteq> a_id t \<and> a_lifecycle_state b = Active) (revisions_of d t))"

lemma set_superseded_ids: "set (superseded_ids d t) =
    a_id ` {b \<in> set (assets d). same_item b t \<and> a_id b \<noteq> a_id t \<and> a_lifecycle_state b = Active}"
  by (auto simp: superseded_ids_def set_revisions_of)

lemma revisions_of_same: "same_item a b \<Longrightarrow> revisions_of d a = revisions_of d b"
  by (simp add: revisions_of_def same_item_def)

lemma rollback_cases:
  assumes "rollback_asset now current target actor d = (res, d')"
  obtains (error) x where "res = Inl x" "d' = d"
  | (noop) t where "res = Inr t" "d' = d" "t \<in> set (assets d)" "same_item t target" "a_id t = a_id target"
      "a_lifecycle_state t = Active" "superseded_ids d t = []"
  | (rolled) c t x where "c \<in> set (assets d)" "a_id c = a_id current" "a_lifecycle_state c = Active" "same_item c t"
      "t \<in> set (assets d)" "same_item t target" "a_id t = a_id target" "a_lifecycle_state t \<in> {Active, Superseded}"
      "res = Inr (activate t)"
      "d' = audit (a_user_id t) ''asset.rolled_back'' x (update_asset (a_id t) (\<lambda>_. activate t)
         (d\<lparr>assets := sql_update (\<lambda>b. a_id b \<in> set (superseded_ids d t)) (supersede now) (assets d)\<rparr>))"
proof -
  let ?R = "revisions_of d target"
  have err: ?thesis if "sql_first (\<lambda>b. a_id b = a_id current) ?R = None \<or> sql_first (\<lambda>b. a_id b = a_id target) ?R = None"
    using that assms error by (auto simp: rollback_asset_def Let_def split: if_splits option.splits)
  show ?thesis
  proof (cases "sql_first (\<lambda>b. a_id b = a_id current) ?R = None \<or> sql_first (\<lambda>b. a_id b = a_id target) ?R = None")
    case True
    then show ?thesis by (rule err)
  next
    case False
    then obtain c t where
      ct: "sql_first (\<lambda>b. a_id b = a_id current) ?R = Some c" "sql_first (\<lambda>b. a_id b = a_id target) ?R = Some t"
      by auto
    then have mem: "c \<in> set (assets d)" "same_item c target" "a_id c = a_id current"
        "t \<in> set (assets d)" "same_item t target" "a_id t = a_id target"
      by (auto simp: set_revisions_of)
    then have item: "same_item c t" and eqs: "a_user_id c = a_user_id t" "a_logical_id c = a_logical_id t"
      and R: "?R = revisions_of d t"
      by (auto simp: same_item_def revisions_of_def)
    note prev = superseded_ids_def [of d t, folded R, symmetric]
    have eq: "(res, d') =
       (if active_user d (a_user_id target) = None then (Inl (ValueError ''Account is unavailable''), d)
        else if a_lifecycle_state c \<noteq> Active
        then (Inl (ValueError ''The current revision cannot be changed while permanent deletion is in progress''), d)
        else if a_lifecycle_state t = Trashed
        then (Inl (ValueError ''Restore a trashed revision before rolling back''), d)
        else if a_lifecycle_state t = Purging
        then (Inl (ValueError ''That revision cannot be activated while permanent deletion is in progress''), d)
        else if a_lifecycle_state t = Active \<and> superseded_ids d t = [] then (Inr t, d)
        else (Inr (activate t), audit (a_user_id t) ''asset.rolled_back''
           [(''from_asset_ids'', JList (map juuid (superseded_ids d t))),
            (''to_asset_id'', juuid (a_id t)), (''logical_id'', juuid (a_logical_id t)), (''actor'', JStr actor)]
           (update_asset (a_id t) (\<lambda>_. activate t)
             (d\<lparr>assets := sql_update (\<lambda>b. a_id b \<in> set (superseded_ids d t)) (supersede now) (assets d)\<rparr>))))"
      unfolding assms [symmetric] rollback_asset_def Let_def ct option.case prod.case prev
      by (simp only: eqs simp_thms if_False)
    show ?thesis
    proof (cases "active_user d (a_user_id target) = None \<or> a_lifecycle_state c \<noteq> Active \<or>
        a_lifecycle_state t \<in> {Trashed, Purging}")
      case True
      with eq error show ?thesis by (auto split: if_splits)
    next
      case False
      then have st: "a_lifecycle_state c = Active" "a_lifecycle_state t \<in> {Active, Superseded}"
        by (cases "a_lifecycle_state t"; simp)+
      show ?thesis
      proof (cases "a_lifecycle_state t = Active \<and> superseded_ids d t = []")
        case True
        with eq st False have "res = Inr t" "d' = d" by auto
        with True mem show ?thesis by (intro noop [of t]) auto
      next
        case no: False
        have eq': "(res, d') = (Inr (activate t), audit (a_user_id t) ''asset.rolled_back''
           [(''from_asset_ids'', JList (map juuid (superseded_ids d t))),
            (''to_asset_id'', juuid (a_id t)), (''logical_id'', juuid (a_logical_id t)), (''actor'', JStr actor)]
           (update_asset (a_id t) (\<lambda>_. activate t)
             (d\<lparr>assets := sql_update (\<lambda>b. a_id b \<in> set (superseded_ids d t)) (supersede now) (assets d)\<rparr>)))"
          using eq st False no by auto
        show ?thesis
          by (rule rolled [OF mem(1,3) st(1) item mem(4-6) st(2)]) (use eq' in simp_all)
      qed
    qed
  qed
qed

section \<open>Invariant of the transitions\<close>

lemma retention_ok_rows [simp]:
  "1 \<le> n \<Longrightarrow> retention_ok (trashed_row now n actor a)" "retention_ok (restored_row a)" "retention_ok (activate a)"
  by (simp_all add: retention_ok_def trashed_row_def restored_row_def activate_def)

lemma row_columns [simp]:
  "a_id (trashed_row now n actor a) = a_id a" "a_version (trashed_row now n actor a) = a_version a"
  "same_item (trashed_row now n actor a) b = same_item a b" "a_lifecycle_state (trashed_row now n actor a) = Trashed"
  "a_id (restored_row a) = a_id a" "a_version (restored_row a) = a_version a"
  "same_item (restored_row a) b = same_item a b" "a_lifecycle_state (restored_row a) = Active"
  "a_id (activate a) = a_id a" "a_version (activate a) = a_version a"
  "same_item (activate a) b = same_item a b" "a_lifecycle_state (activate a) = Active"
  "a_id (supersede now a) = a_id a" "a_version (supersede now a) = a_version a"
  "same_item (supersede now a) b = same_item a b" "a_lifecycle_state (supersede now a) = Superseded"
  by (simp_all add: trashed_row_def restored_row_def activate_def supersede_def same_item_def)

lemma same_item_refl [simp]: "same_item a a"
  by (simp add: same_item_def)

lemma same_item_sym: "same_item a b \<Longrightarrow> same_item b a"
  by (simp add: same_item_def)

lemma same_item_trans: "same_item a b \<Longrightarrow> same_item b c \<Longrightarrow> same_item a c"
  by (simp add: same_item_def)

lemma trash_asset_ok:
  assumes "trash_asset e now i actor rd d = (res, d')" "catalog_ok d"
  shows "catalog_ok d'"
  using assms(1)
proof (cases rule: trash_asset_cases)
  case same
  with assms(2) show ?thesis by (auto simp: catalog_ok_def)
next
  case (trashed a n x)
  with assms(2) show ?thesis
    using assets_ok_replace [of "assets d" a "trashed_row now n actor a"]
    by (simp add: catalog_ok_def)
qed

lemma restore_asset_ok:
  assumes "restore_asset_from_trash a actor d = (res, d')" "catalog_ok d"
  shows "catalog_ok d'"
  using assms(1)
proof (cases rule: restore_cases)
  case (restored b)
  from restored(2,5) have "\<forall>c \<in> set (assets d). same_item c b \<longrightarrow> a_lifecycle_state c = Active \<longrightarrow> a_id c = a_id b"
    by (meson same_item_trans)
  with restored assms(2) show ?thesis
    using assets_ok_replace [of "assets d" b "restored_row b"] by (auto simp: catalog_ok_def)
qed (use assms in auto)

lemma supersede_ok:
  assumes "assets_ok t"
    and active: "\<And>b. b \<in> set t \<Longrightarrow> P b \<Longrightarrow> a_lifecycle_state b = Active"
  shows "assets_ok (sql_update P (supersede now) t)"
proof (rule assets_ok_update [OF assms(1)])
  fix b assume b: "b \<in> set t" "P b"
  with assms have "retention_ok b" "a_lifecycle_state b = Active" by (auto simp: assets_ok_def)
  then have "retention_ok (supersede now b)"
    by (auto simp: retention_ok_def supersede_def)
  then show "a_id (supersede now b) = a_id b \<and> same_item (supersede now b) b \<and>
      a_version (supersede now b) = a_version b \<and> retention_ok (supersede now b) \<and>
      (a_lifecycle_state (supersede now b) = Active \<longrightarrow>
       (\<forall>c \<in> set t. same_item c b \<longrightarrow> a_lifecycle_state c = Active \<longrightarrow> \<not> P c \<longrightarrow> a_id c = a_id b) \<and>
       (\<forall>c \<in> set t. P c \<longrightarrow> a_lifecycle_state (supersede now c) = Active \<longrightarrow> same_item c b \<longrightarrow> a_id c = a_id b))"
    by simp
qed

lemma superseded_id_iff:
  assumes "assets_ok (assets d)" "b \<in> set (assets d)"
  shows "a_id b \<in> set (superseded_ids d t) \<longleftrightarrow>
    same_item b t \<and> a_id b \<noteq> a_id t \<and> a_lifecycle_state b = Active"
  using assms by (auto simp: set_superseded_ids dest: assets_ok_id)

lemma rollback_assets:
  assumes ok: "assets_ok (assets d)" and t: "t \<in> set (assets d)"
  defines "mid \<equiv> \<lambda>now. sql_update (\<lambda>b. a_id b \<in> set (superseded_ids d t)) (supersede now) (assets d)"
  shows "assets_ok (mid now)" "t \<in> set (mid now)"
    "\<forall>b \<in> set (mid now). same_item b t \<longrightarrow> a_lifecycle_state b = Active \<longrightarrow> a_id b = a_id t"
proof -
  show "assets_ok (mid now)"
    unfolding mid_def by (rule supersede_ok [OF ok]) (simp add: superseded_id_iff [OF ok])
  show "t \<in> set (mid now)"
    using t superseded_id_iff [OF ok t] by (force simp: mid_def set_sql_update)
  show "\<forall>b \<in> set (mid now). same_item b t \<longrightarrow> a_lifecycle_state b = Active \<longrightarrow> a_id b = a_id t"
    using superseded_id_iff [OF ok] by (auto simp: mid_def set_sql_update)
qed

lemma rollback_asset_ok:
  assumes "rollback_asset now current target actor d = (res, d')" "catalog_ok d"
  shows "catalog_ok d'"
  using assms(1)
proof (cases rule: rollback_cases)
  case (rolled c t x)
  from assms(2) have ok: "assets_ok (assets d)" by (simp add: catalog_ok_def)
  note mid = rollback_assets [OF ok rolled(5)]
  have eq: "assets d' = sql_update (\<lambda>b. a_id b = a_id t) (\<lambda>_. activate t)
      (sql_update (\<lambda>b. a_id b \<in> set (superseded_ids d t)) (supersede now) (assets d))"
    unfolding rolled(10) by simp
  have "assets_ok (assets d')"
    unfolding eq by (rule assets_ok_replace [OF mid(1,2)]) (simp_all add: mid(3))
  moreover from rolled(10) have "replicas d' = replicas d" by simp
  ultimately show ?thesis using assms(2) by (simp add: catalog_ok_def)
qed (use assms in auto)

section \<open>What permanent deletion may touch\<close>

text \<open>The identities that deleting the asset \<open>a\<close> must not touch: those named by a row that does
  not belong to it, and every original of an external library.\<close>

definition protected :: "env \<Rightarrow> db \<Rightarrow> asset \<Rightarrow> string \<Rightarrow> bool" where
  "protected e d a q \<longleftrightarrow> references e
     (d\<lparr>replicas := sql_delete (\<lambda>r. r_asset_id r = a_id a) (replicas d)\<rparr>) (Some (a_id a)) None None q"

definition purge_inv :: "env \<Rightarrow> asset \<Rightarrow> db \<Rightarrow> fs \<Rightarrow> purge_state \<Rightarrow> bool" where
  "purge_inv e a d0 f0 st \<longleftrightarrow> (case st of (ret, d, f) \<Rightarrow>
     assets d = assets d0 \<and> uploads d = uploads d0 \<and> users d = users d0 \<and> jobs d = jobs d0 \<and>
     distinct (map r_id (replicas d)) \<and>
     set (replicas d) \<subseteq> set (replicas d0) \<and>
     (\<forall>r \<in> set (replicas d0). r_asset_id r \<noteq> a_id a \<longrightarrow> r \<in> set (replicas d)) \<and>
     (\<forall>q. protected e d0 a q \<longrightarrow> files f q = files f0 q))"

lemma protected_references:
  assumes "protected e d0 a q" "purge_inv e a d0 f0 (ret, d, f)"
    "exA = None \<or> exA = Some (a_id a)"
    "\<And>i r. exR = Some i \<Longrightarrow> r \<in> set (replicas d) \<Longrightarrow> r_id r = i \<Longrightarrow> r_asset_id r = a_id a"
  shows "references e d exA exR None q"
proof -
  from assms(2) have eq: "assets d = assets d0" "uploads d = uploads d0"
    and rep: "\<And>r. r \<in> set (replicas d0) \<Longrightarrow> r_asset_id r \<noteq> a_id a \<Longrightarrow> r \<in> set (replicas d)"
    by (auto simp: purge_inv_def)
  have R: "r \<in> set (replicas d) \<and> \<not> excluded exR (r_id r)"
    if "r \<in> set (replicas d0)" "r_asset_id r \<noteq> a_id a" for r
    using rep [OF that] assms(4) that by (auto simp: excluded_def)
  have A: "\<not> excluded exA (a_id b)" if "\<not> excluded (Some (a_id a)) (a_id b)" for b
    using that assms(3) by (auto simp: excluded_def)
  from assms(1) R A show ?thesis
    unfolding protected_def references_def
    by (simp add: set_sql_delete excluded_def [of None] eq) blast
qed

lemma unlink_for_inv:
  assumes inv: "purge_inv e a d0 f0 st" and hp: "host_paths e"
    and ex: "exA = None \<or> exA = Some (a_id a)"
      "\<And>i r. exR = Some i \<Longrightarrow> r \<in> set (replicas d0) \<Longrightarrow> r_id r = i \<Longrightarrow> r_asset_id r = a_id a"
    and run: "unlink_for e a kind path rt rr exA exR st = (ok, st')"
  shows "purge_inv e a d0 f0 st'"
proof -
  obtain ret d f where st: "st = (ret, d, f)" by (cases st)
  from inv st have sub: "set (replicas d) \<subseteq> set (replicas d0)" by (simp add: purge_inv_def)
  show ?thesis
  proof (cases "safely_unlink_catalog_path e d f path rt rr exA exR None")
    case (Inl x)
    with inv run st show ?thesis
      by (auto simp: unlink_for_def note_unlink_def purge_inv_def split: if_splits)
  next
    case (Inr y)
    then obtain b f' where y: "safely_unlink_catalog_path e d f path rt rr exA exR None = Inr (b, f')"
      by (cases y) auto
    have keep: "files f' q = files f q" if "protected e d0 a q" for q
    proof (rule unlink_keeps_referenced [OF y _ hp])
      show "references e d exA exR None q"
        using that inv st ex sub by (intro protected_references [of e d0 a q f0 ret d f]) auto
    qed
    from run st y have "st' = (ret, d, f')" by (simp add: unlink_for_def note_unlink_def)
    with inv st keep show ?thesis by (auto simp: purge_inv_def)
  qed
qed

lemma delete_replica_inv:
  assumes "purge_inv e a d0 f0 st" "r \<in> set (replicas d0)" "r_asset_id r = a_id a"
    "distinct (map r_id (replicas d0))"
  shows "purge_inv e a d0 f0 (delete_replica r st)"
proof -
  have "s \<in> set (replicas d0) \<Longrightarrow> r_id s = r_id r \<Longrightarrow> r_asset_id s = a_id a" for s
    using assms(2-4) key_unique by metis
  with assms(1) show ?thesis
    by (auto simp: purge_inv_def delete_replica_def sql split: prod.splits)
qed

lemma purge_replicas_inv:
  assumes "purge_inv e a d0 f0 st" "host_paths e" "distinct (map r_id (replicas d0))"
    "set rs \<subseteq> {r \<in> set (replicas d0). r_asset_id r = a_id a}"
    "purge_replicas e a rs st = (ok, st')"
  shows "purge_inv e a d0 f0 st'"
  using assms
proof (induction rs arbitrary: st)
  case (Cons r rs)
  from Cons.prems(3,4) have own: "\<And>i s. Some (r_id r) = Some i \<Longrightarrow> s \<in> set (replicas d0) \<Longrightarrow> r_id s = i \<Longrightarrow> r_asset_id s = a_id a"
    using key_unique by (metis (mono_tags, lifting) list.set_intros(1) mem_Collect_eq option.inject subset_code(1))
  obtain ok1 st1 where s1: "unlink_for e a ''replica'' (r_path r) None True None (Some (r_id r)) st = (ok1, st1)"
    by (rule prod.exhaust)
  obtain ok2 st2 where s2: "(case r_metadata_path r of None \<Rightarrow> (True, st1)
      | Some m \<Rightarrow> if m = [] then (True, st1)
          else unlink_for e a ''replica_metadata'' m None True None (Some (r_id r)) st1) = (ok2, st2)"
    by (rule prod.exhaust)
  have i1: "purge_inv e a d0 f0 st1"
    by (rule unlink_for_inv [OF Cons.prems(1,2) _ own s1]) simp_all
  have i2: "purge_inv e a d0 f0 st2"
  proof (cases "r_metadata_path r = None \<or> r_metadata_path r = Some []")
    case True
    with s2 i1 show ?thesis by auto
  next
    case False
    then obtain m where "unlink_for e a ''replica_metadata'' m None True None (Some (r_id r)) st1 = (ok2, st2)"
      using s2 by auto
    from unlink_for_inv [OF i1 Cons.prems(2) _ own this] show ?thesis by simp
  qed
  have i3: "purge_inv e a d0 f0 (delete_replica r st2)"
    using Cons.prems(3,4) by (intro delete_replica_inv [OF i2]) auto
  from Cons.prems(5) s1 s2 consider "st' = st1" | "st' = st2"
    | "purge_replicas e a rs (delete_replica r st2) = (ok, st')"
    by (auto simp: Let_def split: if_splits)
  then show ?case
    using i1 i2 Cons.IH [OF i3 Cons.prems(2,3)] Cons.prems(4) by cases auto
qed simp

lemma purge_derivatives_inv:
  assumes "purge_inv e a d0 f0 st" "host_paths e" "purge_derivatives e a ps st = (ok, st')"
  shows "purge_inv e a d0 f0 st'"
  using assms
proof (induction ps arbitrary: st)
  case (Cons p ps)
  obtain ok1 st1 where s1: "unlink_for e a ''derivative'' p (Some (derivatives_path (cfg e))) False
      (Some (a_id a)) None st = (ok1, st1)" by (rule prod.exhaust)
  have i1: "purge_inv e a d0 f0 st1"
    by (rule unlink_for_inv [OF Cons.prems(1,2) _ _ s1]) simp_all
  from Cons.prems(3) s1 consider "st' = st1" | "purge_derivatives e a ps st1 = (ok, st')"
    by (auto simp: Let_def split: if_splits)
  then show ?case using i1 Cons.IH [OF i1 Cons.prems(2)] by cases auto
qed simp

definition mark_purging :: "asset \<Rightarrow> db \<Rightarrow> db" where
  "mark_purging a d = update_asset (a_id a) (\<lambda>x. x\<lparr>a_lifecycle_state := Purging\<rparr>) d"

lemma purge_cases:
  assumes run: "safely_purge_asset e now a (ret, d, f) = (res, ret', d', f')"
    and ids: "distinct (map r_id (replicas d))" and hp: "host_paths e"
  obtains (unchanged) "d' = d" "f' = f" "res \<noteq> Inr True"
  | (deferred) "res = Inr False" "purgeable now a" "purge_inv e a (mark_purging a d) f (ret', d', f')"
  | (purged) d2 x where "res = Inr True" "purgeable now a" "purge_inv e a (mark_purging a d) f (ret', d2, f')"
      "d' = audit (a_user_id a) ''asset.purged'' x (delete_asset (a_id a) d2)"
proof (cases "purgeable now a \<and>
    require_storage e f [''originals'', ''derivatives'', ''staging'', ''replicas'', ''backups''] = Inr ()")
  case False
  then have "d' = d \<and> f' = f \<and> res \<noteq> Inr True"
    using run by (auto simp: safely_purge_asset_def split: if_splits sum.splits)
  with unchanged show ?thesis by blast
next
  case True
  let ?d0 = "mark_purging a d" and ?st0 = "(ret, mark_purging a d, f)"
  let ?rs = "filter (\<lambda>r. r_asset_id r = a_id a) (replicas ?d0)"
  have ids0: "distinct (map r_id (replicas ?d0))" using ids by (simp add: mark_purging_def)
  have inv0: "purge_inv e a ?d0 f ?st0" using ids0 by (simp add: purge_inv_def)
  obtain ok1 st1 where s1: "purge_replicas e a ?rs ?st0 = (ok1, st1)" by (rule prod.exhaust)
  obtain ok2 st2 where s2: "(if a_storage_source a = ''managed''
      then unlink_for e a ''managed_original'' (a_original_path a) (Some (originals_path (cfg e))) False
             (Some (a_id a)) None st1 else (True, st1)) = (ok2, st2)" by (rule prod.exhaust)
  obtain ok3 st3 where s3: "purge_derivatives e a (derivative_set e a) st2 = (ok3, st3)" by (rule prod.exhaust)
  have i1: "purge_inv e a ?d0 f st1" by (rule purge_replicas_inv [OF inv0 hp ids0 _ s1]) auto
  have i2: "purge_inv e a ?d0 f st2"
  proof (cases "a_storage_source a = ''managed''")
    case True
    with s2 have "unlink_for e a ''managed_original'' (a_original_path a) (Some (originals_path (cfg e))) False
        (Some (a_id a)) None st1 = (ok2, st2)" by simp
    from unlink_for_inv [OF i1 hp _ _ this] show ?thesis by simp
  next
    case False
    with s2 i1 show ?thesis by simp
  qed
  have i3: "purge_inv e a ?d0 f st3" by (rule purge_derivatives_inv [OF i2 hp s3])
  have eq: "(res, ret', d', f') =
     (if \<not> ok1 then (Inr False, st1) else if \<not> ok2 then (Inr False, st2)
      else if \<not> ok3 then (Inr False, st3)
      else case st3 of (ret, d, f) \<Rightarrow> (Inr True, ret, audit (a_user_id a) ''asset.purged''
         [(''asset_id'', juuid (a_id a)), (''logical_id'', juuid (a_logical_id a)),
          (''checksum'', JStr (a_checksum a))] (delete_asset (a_id a) d), f))"
    unfolding run [symmetric] safely_purge_asset_def using True s1 s2 s3
    by (auto simp: Let_def mark_purging_def)
  show ?thesis
  proof (cases "ok1 \<and> ok2 \<and> ok3")
    case False
    with eq consider "res = Inr False" "st1 = (ret', d', f')" | "res = Inr False" "st2 = (ret', d', f')"
      | "res = Inr False" "st3 = (ret', d', f')" by (auto split: if_splits)
    then show ?thesis using True i1 i2 i3 deferred by cases auto
  next
    case ok: True
    obtain r2 d2 f2 where "st3 = (r2, d2, f2)" by (cases st3)
    with eq ok have st3: "st3 = (ret', d2, f')" and "res = Inr True"
      and "d' = audit (a_user_id a) ''asset.purged''
         [(''asset_id'', juuid (a_id a)), (''logical_id'', juuid (a_logical_id a)),
          (''checksum'', JStr (a_checksum a))] (delete_asset (a_id a) d2)"
      by auto
    with i3 True show ?thesis by (intro purged [of d2]) auto
  qed
qed

lemma protected_mark_purging [simp]: "protected e (mark_purging a d) b q = protected e d b q"
proof -
  have paths: "asset_paths (x\<lparr>a_lifecycle_state := s\<rparr>) = asset_paths x" for x s
    by (simp add: asset_paths_def)
  show ?thesis
    by (simp add: protected_def mark_purging_def update_asset_def references_def bex_sql_update paths)
qed

section \<open>Properties\<close>

lemma purge_inv_protected:
  "purge_inv e a (mark_purging a d) f (r, d', f') \<Longrightarrow> protected e d a q \<Longrightarrow> files f' q = files f q"
  by (simp add: purge_inv_def)

lemma purge_keeps_protected:
  assumes "safely_purge_asset e now a (ret, d, f) = (res, ret', d', f')"
    "distinct (map r_id (replicas d))" "host_paths e" "protected e d a q"
  shows "files f' q = files f q"
  using assms(1-3)
proof (cases rule: purge_cases)
  case deferred
  with assms(4) show ?thesis by (auto intro: purge_inv_protected)
next
  case (purged d2 x)
  with assms(4) show ?thesis by (auto intro: purge_inv_protected)
qed simp

lemma purge_inv_ok:
  assumes "purge_inv e a (mark_purging a d) f (r, d', f')" "catalog_ok d" "a \<in> set (assets d)" "purgeable now a"
  shows "catalog_ok d'"
proof -
  let ?p = "a\<lparr>a_lifecycle_state := Purging\<rparr>"
  from assms(2) have ok: "assets_ok (assets d)" by (simp add: catalog_ok_def)
  have "retention_ok a" using ok assms(3) by (simp add: assets_ok_def)
  with assms(4) have "retention_ok ?p" by (auto simp: retention_ok_def purgeable_def split: option.splits)
  then have "assets_ok (sql_update (\<lambda>x. a_id x = a_id a) (\<lambda>_. ?p) (assets d))"
    by (intro assets_ok_replace [OF ok assms(3)]) (simp_all add: same_item_def)
  moreover have "sql_update (\<lambda>x. a_id x = a_id a) (\<lambda>_. ?p) (assets d) = assets (mark_purging a d)"
    using assets_ok_id [OF ok _ assms(3)] by (auto simp: mark_purging_def sql_update_def)
  ultimately show ?thesis using assms(1) by (simp add: catalog_ok_def purge_inv_def)
qed

lemma safely_purge_ok:
  assumes "safely_purge_asset e now a (ret, d, f) = (res, ret', d', f')"
    "catalog_ok d" "host_paths e" "a \<in> set (assets d)"
  shows "catalog_ok d'"
proof -
  from assms(2) have "distinct (map r_id (replicas d))" by (simp add: catalog_ok_def)
  from assms(1) this assms(3) show ?thesis
  proof (cases rule: purge_cases)
    case deferred
    with assms show ?thesis by (auto intro: purge_inv_ok)
  next
    case (purged d2 x)
    with assms have "catalog_ok d2" by (auto intro: purge_inv_ok)
    with purged show ?thesis by (simp add: catalog_ok_def assets_ok_delete sql)
  qed (use assms in simp)
qed

lemma paths_of_purging [simp]: "asset_paths (x\<lparr>a_lifecycle_state := s\<rparr>) = asset_paths x"
  by (simp add: asset_paths_def)

definition catalog_paths :: "db \<Rightarrow> string set" where
  "catalog_paths d = {p. \<not> prefix ''duplicate:'' p \<and>
     ((\<exists>a \<in> set (assets d). p \<in> set (asset_paths a)) \<or> (\<exists>r \<in> set (replicas d). p \<in> set (replica_paths r)) \<or>
      (\<exists>u \<in> set (uploads d). p = up_staging_path u))}"

lemma protectedI:
  "a \<in> set (assets d) \<Longrightarrow> a_storage_source a = ''external'' \<Longrightarrow> protected e d b (canonical e (a_original_path a))"
  "a \<in> set (assets d) \<Longrightarrow> a_id a \<noteq> a_id b \<Longrightarrow> p \<in> set (asset_paths a) \<Longrightarrow> \<not> prefix ''duplicate:'' p \<Longrightarrow>
     protected e d b (canonical e p)"
  "r \<in> set (replicas d) \<Longrightarrow> r_asset_id r \<noteq> a_id b \<Longrightarrow> p \<in> set (replica_paths r) \<Longrightarrow> \<not> prefix ''duplicate:'' p \<Longrightarrow>
     protected e d b (canonical e p)"
  "u \<in> set (uploads d) \<Longrightarrow> \<not> prefix ''duplicate:'' (up_staging_path u) \<Longrightarrow>
     protected e d b (canonical e (up_staging_path u))"
  unfolding protected_def references_def excluded_def by (simp_all add: set_sql_delete) metis+

lemma purged_protects_survivors:
  assumes "safely_purge_asset e now a (ret, d, f) = (Inr True, ret', d', f')"
    "distinct (map r_id (replicas d))" "host_paths e" "p \<in> catalog_paths d'"
  shows "protected e d a (canonical e p)"
  using assms(1-3)
proof (cases rule: purge_cases)
  case (purged d2 x)
  then have eq: "assets d2 = sql_update (\<lambda>b. a_id b = a_id a) (\<lambda>b. b\<lparr>a_lifecycle_state := Purging\<rparr>) (assets d)"
    "uploads d2 = uploads d" "set (replicas d2) \<subseteq> set (replicas d)"
    by (auto simp: purge_inv_def mark_purging_def)
  have A: "b \<in> set (assets d) \<and> a_id b \<noteq> a_id a" if "b \<in> set (assets d')" for b
    using that purged(4) eq(1) by (auto simp: set_sql_update set_sql_delete)
  have R: "r \<in> set (replicas d) \<and> r_asset_id r \<noteq> a_id a" if "r \<in> set (replicas d')" for r
    using that purged(4) eq(3) by (auto simp: set_sql_delete)
  have U: "uploads d' = uploads d" using purged(4) eq(2) by simp
  from assms(4) show ?thesis
    unfolding catalog_paths_def U using A R protectedI(2-4) by blast
qed simp_all

lemma safely_purge_keeps_row:
  assumes "safely_purge_asset e now b (ret, d, f) = (res, ret', d', f')"
    "distinct (map r_id (replicas d))" "host_paths e" "a \<in> set (assets d)" "a_id a \<noteq> a_id b"
  shows "a \<in> set (assets d')"
  using assms(1-3)
proof (cases rule: purge_cases)
  case deferred
  with assms(4,5) show ?thesis by (auto simp: purge_inv_def mark_purging_def set_sql_update)
next
  case (purged d2 x)
  with assms(4,5) show ?thesis by (auto simp: purge_inv_def mark_purging_def set_sql_update set_sql_delete)
qed (use assms in simp)

definition bytes_kept :: "env \<Rightarrow> asset \<Rightarrow> fs \<Rightarrow> fs \<Rightarrow> bool" where
  "bytes_kept e a f f' \<longleftrightarrow> (\<forall>p \<in> set (asset_paths a). \<not> prefix ''duplicate:'' p \<longrightarrow>
     files f' (canonical e p) = files f (canonical e p))"

lemma bytes_kept_trans: "bytes_kept e a f g \<Longrightarrow> bytes_kept e a g h \<Longrightarrow> bytes_kept e a f h"
  by (simp add: bytes_kept_def)

lemma purge_loop_keeps:
  assumes "purge_loop e now is n d f = (res, d', f')" "catalog_ok d" "host_paths e"
  shows "catalog_ok d' \<and>
    (\<forall>a \<in> set (assets d). \<not> purgeable now a \<longrightarrow> a \<in> set (assets d') \<and> bytes_kept e a f f')"
  using assms
proof (induction e now "is" n d f rule: purge_loop.induct)
  case (1 e now n d f)
  then show ?case by (simp add: bytes_kept_def)
next
  case (2 e now i "is" n d f)
  show ?case
  proof (cases "sql_first (\<lambda>a. a_id a = i \<and> purgeable now a) (assets d)")
    case None
    with 2 show ?thesis by simp
  next
    case (Some b)
    then have b: "b \<in> set (assets d)" "purgeable now b" by auto
    obtain r ret d1 f1 where run: "safely_purge_asset e now b (None, d, f) = (r, ret, d1, f1)"
      by (metis prod_cases4)
    from "2.prems"(2) have ids: "distinct (map r_id (replicas d))" by (simp add: catalog_ok_def)
    have other: "a_id a \<noteq> a_id b" if "a \<in> set (assets d)" "\<not> purgeable now a" for a
      using that b "2.prems"(2) assets_ok_id by (metis catalog_ok_def)
    have kept: "a \<in> set (assets d1) \<and> bytes_kept e a f f1"
      if "a \<in> set (assets d)" "\<not> purgeable now a" for a
      using safely_purge_keeps_row [OF run ids "2.prems"(3) that(1) other [OF that]]
        purge_keeps_protected [OF run ids "2.prems"(3)] protectedI(2) [OF that(1) other [OF that]]
      by (auto simp: bytes_kept_def)
    show ?thesis
    proof (cases r)
      case (Inl x)
      with 2 Some run kept show ?thesis by auto
    next
      case (Inr z)
      from safely_purge_ok [OF run "2.prems"(2,3) b(1)] have ok: "catalog_ok d1" .
      from Inr run Some "2.prems"(1) have "purge_loop e now is (if z then n + 1 else n) d1 f1 = (res, d', f')"
        by simp
      from "2.IH"(2) [OF Some run [symmetric] Inr refl refl this ok "2.prems"(3)]
      have IH: "catalog_ok d' \<and>
          (\<forall>a \<in> set (assets d1). \<not> purgeable now a \<longrightarrow> a \<in> set (assets d') \<and> bytes_kept e a f1 f')" .
      show ?thesis
      proof (intro conjI ballI impI)
        show "catalog_ok d'" using IH by simp
        fix a assume "a \<in> set (assets d)" "\<not> purgeable now a"
        with kept IH show "a \<in> set (assets d')" "bytes_kept e a f f'"
          using bytes_kept_trans by blast+
      qed
    qed
  qed
qed

section \<open>Interleavings\<close>

text \<open>The row locks make each transition atomic, so a run of concurrent requests and workers is a
  sequence of these steps, between which time passes.\<close>

inductive lifecycle_step :: "env \<Rightarrow> time \<times> db \<times> fs \<Rightarrow> time \<times> db \<times> fs \<Rightarrow> bool" for e where
  tick: "now \<le> now' \<Longrightarrow> lifecycle_step e (now, d, f) (now', d, f)"
| trash: "trash_asset e now i actor rd d = (res, d') \<Longrightarrow> lifecycle_step e (now, d, f) (now, d', f)"
| restore: "restore_asset_from_trash a actor d = (res, d') \<Longrightarrow> lifecycle_step e (now, d, f) (now, d', f)"
| rollback: "rollback_asset now cur target actor d = (res, d') \<Longrightarrow> lifecycle_step e (now, d, f) (now, d', f)"
| purge: "purge_due_assets e now limit only d f = (res, d', f') \<Longrightarrow>
    lifecycle_step e (now, d, f) (now, d', f')"

inductive_cases lifecycle_stepE [consumes 1, case_names tick trash restore rollback purge]:
  "lifecycle_step e (now, d, f) (now', d', f')"

lemma lifecycle_step_ok:
  assumes "lifecycle_step e (now, d, f) (now', d', f')" "catalog_ok d" "host_paths e"
  shows "catalog_ok d' \<and> now \<le> now'"
  using assms(1)
proof (cases rule: lifecycle_stepE)
  case (purge limit only res)
  then show ?thesis using purge_loop_keeps assms(2,3) by (auto simp: purge_due_assets_def)
qed (use assms trash_asset_ok restore_asset_ok rollback_asset_ok in auto)

text \<open>A revision that permanent deletion cannot reach before \<open>t\<close>.\<close>

definition held_until :: "time \<Rightarrow> asset \<Rightarrow> bool" where
  "held_until t a \<longleftrightarrow> a_lifecycle_state a \<in> {Active, Superseded} \<or>
     (case a_purge_after a of None \<Rightarrow> False | Some u \<Rightarrow> t \<le> u)"

lemma held_not_purgeable: "held_until t a \<Longrightarrow> now < t \<Longrightarrow> \<not> purgeable now a"
  by (auto simp: held_until_def purgeable_def split: option.splits)

definition same_files :: "asset \<Rightarrow> asset \<Rightarrow> bool" where
  "same_files a b \<longleftrightarrow> a_id a = a_id b \<and> asset_paths a = asset_paths b"

lemma same_files_rows [simp]:
  "same_files (trashed_row now n actor a) b = same_files a b" "same_files (restored_row a) b = same_files a b"
  "same_files (activate a) b = same_files a b" "same_files (supersede now a) b = same_files a b"
  by (simp_all add: same_files_def asset_paths_def trashed_row_def restored_row_def activate_def supersede_def)

lemma held_rows [simp]:
  "held_until t (restored_row a)" "held_until t (activate a)" "held_until t (supersede now a)"
  "t \<le> now + days 1 \<Longrightarrow> 1 \<le> n \<Longrightarrow> held_until t (trashed_row now n actor a)"
  by (simp_all add: held_until_def restored_row_def activate_def supersede_def trashed_row_def)

lemma replaced_row:
  assumes "assets_ok t" "b \<in> set t" "a \<in> set t" "a_id a' = a_id a" "same_files a' a" "Q b" "Q a'"
  shows "\<exists>b' \<in> set (sql_update (\<lambda>x. a_id x = a_id a) (\<lambda>_. a') t). same_files b' b \<and> Q b'"
proof (cases "a_id b = a_id a")
  case True
  with assms assets_ok_id have "b = a" by metis
  with assms show ?thesis by (auto simp: set_sql_update)
next
  case False
  with assms show ?thesis by (force simp: set_sql_update same_files_def)
qed

lemma superseded_row:
  assumes "b \<in> set t" "held_until u b"
  shows "\<exists>b' \<in> set (sql_update P (supersede now) t). same_files b' b \<and> held_until u b'"
proof -
  have "(if P b then supersede now b else b) \<in> set (sql_update P (supersede now) t)"
    using assms(1) by (auto simp: set_sql_update)
  then show ?thesis using assms(2) by (rule_tac bexI) (auto simp: same_files_def asset_paths_def supersede_def held_until_def)
qed

lemma same_files_trans: "same_files a b \<Longrightarrow> same_files b c \<Longrightarrow> same_files a c"
  by (simp add: same_files_def)

lemma lifecycle_step_held:
  assumes step: "lifecycle_step e (now, d, f) (now', d', f')" and ok: "catalog_ok d" and hp: "host_paths e"
    and b: "b \<in> set (assets d)" "held_until t b" and time: "now < t" "t \<le> now + days 1"
  shows "\<exists>b' \<in> set (assets d'). same_files b' b \<and> held_until t b' \<and> bytes_kept e b f f'"
proof -
  from ok have aok: "assets_ok (assets d)" by (simp add: catalog_ok_def)
  have unchanged: ?thesis if "assets d' = assets d" "f' = f"
    using that b by (auto simp: same_files_def bytes_kept_def)
  have kept: ?thesis if "f' = f" "\<exists>b' \<in> set (assets d'). same_files b' b \<and> held_until t b'"
    using that by (auto simp: bytes_kept_def)
  from step show ?thesis
  proof (cases rule: lifecycle_stepE)
    case tick
    then show ?thesis by (intro unchanged) auto
  next
    case (trash i actor rd res)
    from trash(3) show ?thesis
    proof (cases rule: trash_asset_cases)
      case same
      then have "assets d' = assets d" by auto
      with trash show ?thesis by (intro unchanged) auto
    next
      case (trashed a n x)
      show ?thesis
        by (rule kept) (use trash trashed replaced_row [OF aok b(1) trashed(1), of _ "held_until t"] b time in
            \<open>simp_all add: same_files_def asset_paths_def trashed_row_def held_until_def\<close>)
    qed
  next
    case (restore a actor res)
    from restore have "restore_asset_from_trash a actor d = (res, d')" by simp
    then show ?thesis
    proof (cases rule: restore_cases)
      case (restored r)
      then obtain x where d': "d' = audit (a_user_id r) ''asset.restored_from_trash'' x
          (update_asset (a_id r) (\<lambda>_. restored_row r) d)" by blast
      have "\<exists>b' \<in> set (assets d'). same_files b' b \<and> held_until t b'"
        unfolding d' audit_simps update_asset_simps
        by (rule replaced_row [OF aok b(1) restored(1)]) (simp_all add: b(2) same_files_def [of r r])
      with restore show ?thesis by (intro kept) auto
    qed (use restore unchanged in auto)
  next
    case (rollback cur target actor res)
    from rollback have "rollback_asset now cur target actor d = (res, d')" by simp
    then show ?thesis
    proof (cases rule: rollback_cases)
      case (rolled c r x)
      note mid = rollback_assets [OF aok rolled(5), of now]
      from superseded_row [OF b, of "\<lambda>z. a_id z \<in> set (superseded_ids d r)" now] obtain m where
        m: "m \<in> set (sql_update (\<lambda>z. a_id z \<in> set (superseded_ids d r)) (supersede now) (assets d))"
          "same_files m b" "held_until t m" by blast
      from replaced_row [OF mid(1) m(1) mid(2), of "activate r" "held_until t"] m(3)
      have "\<exists>b' \<in> set (assets d'). same_files b' m \<and> held_until t b'"
        unfolding rolled(10) by (simp add: same_files_def asset_paths_def activate_def held_until_def)
      with m(2) have "\<exists>b' \<in> set (assets d'). same_files b' b \<and> held_until t b'"
        using same_files_trans by blast
      with rollback show ?thesis by (intro kept) auto
    qed (use rollback unchanged in auto)
  next
    case (purge limit only res)
    then have "purge_loop e now (due_ids now limit only d) 0 d f = (res, d', f')"
      by (simp add: purge_due_assets_def)
    from purge_loop_keeps [OF this ok hp] b held_not_purgeable [OF b(2) time(1)] show ?thesis
      by (auto simp: same_files_def)
  qed
qed

text \<open>C3: Whatever sequence of trash, restore, roll-back and purge requests runs, and whenever they
  run, the catalogue keeps its constraints: row ids and versions stay unique, a logical item
  never has two active revisions, and exactly the trashed and purging revisions carry a
  retention deadline.  So no request can fail with an integrity error.\<close>

theorem lifecycle_invariant:
  assumes "(lifecycle_step e)\<^sup>*\<^sup>* (now, d, f) (now', d', f')" "catalog_ok d" "host_paths e"
  shows "catalog_ok d'"
proof -
  have "case s of (now', d', f') \<Rightarrow> catalog_ok d'" if "(lifecycle_step e)\<^sup>*\<^sup>* (now, d, f) s" for s
    using that
  proof (induction rule: rtranclp_induct)
    case base
    show ?case using assms(2) by simp
  next
    case (step s t)
    then show ?case
      using lifecycle_step_ok [of e "fst s" "fst (snd s)" "snd (snd s)" "fst t" "fst (snd t)" "snd (snd t)"] assms(3)
      by (auto simp: split_beta)
  qed
  from this [OF assms(1)] show ?thesis by simp
qed



text \<open>The scheduled purge removes a revision only after its retention deadline: every revision
  that is not trashed or purging with an expired deadline keeps its row and its bytes, also when
  the run is cut short by an unavailable drive.\<close>

theorem purge_due_respects_retention:
  assumes "purge_due_assets e now limit only d f = (res, d', f')" "catalog_ok d" "host_paths e"
    "a \<in> set (assets d)" "\<not> purgeable now a"
  shows "a \<in> set (assets d') \<and> bytes_kept e a f f'"
  using purge_loop_keeps assms unfolding purge_due_assets_def by blast

text \<open>The reference check that guards every unlink is exact: for a canonical path it answers yes
  iff a row other than the excluded ones, or any external original, names the same physical
  file.  In particular the exact-string queries are only a fast path.\<close>

theorem reference_check_exact:
  assumes "canonical e path = path" "\<not> prefix ''duplicate:'' path"
  shows "physical_path_has_other_reference e d path exA exR exU \<longleftrightarrow>
    references e d exA exR exU path"
  using has_other_reference_only_if has_other_reference_if assms by metis

text \<open>Moving an active revision to the trash and restoring it gives back the catalogue as it was,
  for a revision that carries no marks of an earlier deletion.\<close>

theorem trash_restore_roundtrip:
  assumes "catalog_ok d" "a \<in> set (assets d)" "a_lifecycle_state a = Active" "a_trashed_at a = None"
    "a_deleted_by a = None" "1 \<le> n" "active_user d (a_user_id a) \<noteq> None"
  shows "assets (snd (restore_asset_from_trash a actor2
    (snd (trash_asset e now (a_id a) actor1 (Some n) d)))) = assets d"
proof -
  have aok: "assets_ok (assets d)" using assms(1) by (simp add: catalog_ok_def)
  have first: "sql_first (\<lambda>b. a_id b = a_id a) (assets d) = Some a"
    by (rule sql_first_key [OF assets_ok_distinct [OF aok] assms(2)])
  let ?t = "trashed_row now n actor1 a"
  define d1 where "d1 = snd (trash_asset e now (a_id a) actor1 (Some n) d)"
  have d1: "assets d1 = sql_update (\<lambda>x. a_id x = a_id a) (\<lambda>_. ?t) (assets d)" "users d1 = users d"
    using assms(3,6) first by (simp_all add: d1_def trash_asset_def Let_def split_beta trashed_row_def)
  have mem: "?t \<in> set (assets d1)" using assms(2) by (auto simp: d1(1) set_sql_update)
  have "assets_ok (assets d1)"
    unfolding d1(1) using assms(2,6) by (intro assets_ok_replace [OF aok]) simp_all
  then have uniq: "b = ?t" if "b \<in> set (assets d1)" "a_id b = a_id a" for b
    using assets_ok_id mem that by (metis row_columns(1))
  have "sql_first (\<lambda>b. a_id b = a_id a) (revisions_of d1 a) \<noteq> None"
    unfolding sql_first_not_None using mem by (auto simp: set_revisions_of intro!: bexI [of _ ?t])
  then obtain y where y: "sql_first (\<lambda>b. a_id b = a_id a) (revisions_of d1 a) = Some y" by blast
  from sql_first_Some [OF y] have "y = ?t" using uniq by (simp add: set_revisions_of)
  with y have rev: "sql_first (\<lambda>b. a_id b = a_id a) (revisions_of d1 a) = Some ?t" by simp
  have "a_lifecycle_state c = Active \<longrightarrow> a_id c = a_id a" if c: "c \<in> set (revisions_of d1 a)" for c
  proof (cases "a_id c = a_id a")
    case False
    with c have "c \<in> set (assets d)" "same_item c a"
      by (auto simp: set_revisions_of d1(1) set_sql_update split: if_splits)
    with assets_ok_active [OF aok _ assms(2)] assms(3) show ?thesis by blast
  qed simp
  then have none: "sql_first (\<lambda>c. a_lifecycle_state c = Active \<and> a_id c \<noteq> a_id ?t) (revisions_of d1 a) = None"
    unfolding sql_first_None by simp
  obtain w where w: "active_user d1 (a_user_id a) = Some w"
    using assms(7) by (auto simp: active_user_def d1(2))
  have "assets (snd (restore_asset_from_trash a actor2 d1)) =
      sql_update (\<lambda>x. a_id x = a_id a) (\<lambda>_. restored_row ?t) (assets d1)"
    unfolding restore_asset_from_trash_def rev option.case none w
    by (simp add: Let_def restored_row_def)
  moreover have "a_purge_after a = None"
    using assets_ok_row [OF aok assms(2)] assms(3) by (simp add: retention_ok_def)
  then have "restored_row ?t = a"
    using assms(3-5) by (cases a) (simp add: restored_row_def trashed_row_def)
  moreover have "sql_update (\<lambda>x. a_id x = a_id a) (\<lambda>_. a) (assets d1) = assets d"
    unfolding d1(1) sql_update_def map_map
    by (rule map_idI) (use assets_ok_id [OF aok _ assms(2)] in auto)
  ultimately show ?thesis by (simp add: d1_def)
qed

text \<open>A successful roll-back leaves the requested revision as the one active revision of its
  item, and the revision that was active before as superseded at that moment.\<close>

theorem rollback_activates_target:
  assumes "rollback_asset now current target actor d = (Inr t, d')" "catalog_ok d"
  shows "t \<in> set (assets d') \<and> a_id t = a_id target \<and> a_lifecycle_state t = Active \<and>
    (\<forall>b \<in> set (assets d'). same_item b t \<longrightarrow> a_lifecycle_state b = Active \<longrightarrow> b = t) \<and>
    (\<forall>b \<in> set (assets d). same_item b t \<longrightarrow> a_lifecycle_state b = Active \<longrightarrow> a_id b \<noteq> a_id t \<longrightarrow>
       supersede now b \<in> set (assets d'))"
proof -
  from assms(2) have ok: "assets_ok (assets d)" by (simp add: catalog_ok_def)
  from rollback_asset_ok [OF assms] have ok': "assets_ok (assets d')" by (simp add: catalog_ok_def)
  have main: "t \<in> set (assets d') \<and> a_id t = a_id target \<and> a_lifecycle_state t = Active \<and>
      (\<forall>b \<in> set (assets d). same_item b t \<longrightarrow> a_lifecycle_state b = Active \<longrightarrow> a_id b \<noteq> a_id t \<longrightarrow>
         supersede now b \<in> set (assets d'))"
    using assms(1)
  proof (cases rule: rollback_cases)
    case (noop t')
    then have t: "t' = t" by simp
    have "b \<in> set (assets d) \<Longrightarrow> same_item b t \<Longrightarrow> a_lifecycle_state b = Active \<Longrightarrow> a_id b = a_id t" for b
      using superseded_id_iff [OF ok, of b t] noop(7) unfolding t by force
    with noop(2-6) show ?thesis unfolding t by blast
  next
    case (rolled c t' x)
    have mem: "supersede now b \<in> set (sql_update (\<lambda>b. a_id b \<in> set (superseded_ids d t')) (supersede now) (assets d))"
      if "b \<in> set (assets d)" "same_item b t'" "a_lifecycle_state b = Active" "a_id b \<noteq> a_id t'" for b
      using superseded_id_iff [OF ok that(1), of t'] that by (auto simp: set_sql_update)
    have eq: "assets d' = sql_update (\<lambda>b. a_id b = a_id t') (\<lambda>_. activate t')
      (sql_update (\<lambda>b. a_id b \<in> set (superseded_ids d t')) (supersede now) (assets d))"
      unfolding rolled(10) by simp
    from rolled(9) have t: "t = activate t'" by simp
    have "t \<in> set (assets d')"
      using rollback_assets(2) [OF ok rolled(5), of now] unfolding eq t by (force simp: set_sql_update)
    moreover have "supersede now b \<in> set (assets d')"
      if "b \<in> set (assets d)" "same_item b t'" "a_lifecycle_state b = Active" "a_id b \<noteq> a_id t'" for b
      using mem [OF that] that(4) unfolding eq by (force simp: set_sql_update [of _ "\<lambda>_. activate t'"])
    moreover have "same_item b t = same_item b t'" for b
      by (simp add: t same_item_def activate_def)
    ultimately show ?thesis using rolled(7) by (simp add: t)
  qed simp
  moreover have "b = t" if "b \<in> set (assets d')" "same_item b t" "a_lifecycle_state b = Active" for b
    using assets_ok_active [OF ok' that(1) _ that(2,3)] assets_ok_id [OF ok' that(1)] main by blast
  ultimately show ?thesis by blast
qed

section \<open>The properties on a concrete catalogue\<close>

definition sample_catalog :: db where
  "sample_catalog = empty_db\<lparr>users := [sample_user 1],
     assets := [sample_asset 10 1 ''/data/originals/a'',
       (sample_asset 11 1 ''/data/originals/b'')\<lparr>a_lifecycle_state := Trashed, a_trashed_at := Some 0,
          a_purge_after := Some 5\<rparr>,
       (sample_asset 12 1 ''/data/originals/c'')\<lparr>a_logical_id := 10, a_version := 2,
          a_lifecycle_state := Superseded, a_superseded_at := Some 1\<rparr>],
     replicas := [sample_replica 20 11 ''/data/replicas/b'', sample_replica 21 10 ''/data/replicas/a'']\<rparr>"

definition sample_files :: fs where
  "sample_files = sample_fs [(''/data/originals/a'', ''A''), (''/data/originals/b'', ''B''),
     (''/data/originals/c'', ''C''), (''/data/replicas/a'', ''A''), (''/data/replicas/b'', ''B'')]"

lemma sample_catalog_ok [simp]: "catalog_ok sample_catalog"
  by (simp add: catalog_ok_def assets_ok_def sample_catalog_def sample_defs same_item_def retention_ok_def)

theorem lifecycle_invariant_witness:
  "catalog_ok (snd (trash_asset sample_env 3 10 ''ann'' None sample_catalog))"
proof -
  have "lifecycle_step sample_env (3, sample_catalog, sample_files)
      (3, snd (trash_asset sample_env 3 10 ''ann'' None sample_catalog), sample_files)"
    by (rule lifecycle_step.trash) (rule prod.collapse [symmetric])
  from lifecycle_invariant [OF r_into_rtranclp [of "lifecycle_step sample_env", OF this]] show ?thesis by simp
qed

lemma sample_live: "sample_asset 10 1 ''/data/originals/a'' \<in> set (assets sample_catalog)"
    "a_lifecycle_state (sample_asset i u p) = Active" "a_id (sample_asset i u p) = i"
    "asset_paths (sample_asset i u p) = [p]" "a_trashed_at (sample_asset i u p) = None"
    "a_deleted_by (sample_asset i u p) = None" "a_user_id (sample_asset i u p) = u"
  by (simp_all add: sample_catalog_def sample_defs asset_paths_def)


abbreviation sample_due :: asset where "sample_due \<equiv> assets sample_catalog ! 1"

lemma sample_purge:
  "fst (safely_purge_asset sample_env 6 sample_due (None, sample_catalog, sample_files)) = Inr True"
  by code_simp


theorem purge_due_respects_retention_witness:
  "sample_asset 10 1 ''/data/originals/a'' \<in> set (assets (fst (snd (purge_due_assets sample_env 6 100 None sample_catalog sample_files))))"
proof -
  have "\<not> purgeable 6 (sample_asset 10 1 ''/data/originals/a'')"
    by (simp add: sample_live purgeable_def)
  from purge_due_respects_retention [OF _ sample_catalog_ok sample_host_paths sample_live(1) this, of 100 None sample_files]
  show ?thesis by (metis prod.exhaust_sel)
qed

theorem reference_check_exact_witness:
  "physical_path_has_other_reference sample_env sample_catalog ''/data/originals/a'' None None None \<longleftrightarrow>
     references sample_env sample_catalog None None None ''/data/originals/a''"
  by (rule reference_check_exact) (simp_all add: canonical_def sample_env_def)

lemma sample_active_user: "active_user sample_catalog 1 \<noteq> None"
  by (simp add: active_user_def sample_catalog_def sample_defs)

theorem trash_restore_roundtrip_witness:
  "assets (snd (restore_asset_from_trash (sample_asset 10 1 ''/data/originals/a'') ''ann''
     (snd (trash_asset sample_env 3 10 ''ann'' (Some 7) sample_catalog)))) = assets sample_catalog"
  using trash_restore_roundtrip [OF sample_catalog_ok sample_live(1), of 7 "''ann''" sample_env 3 "''ann''"]
    sample_active_user unfolding sample_live by simp

theorem rollback_activates_target_witness:
  "\<exists>t d'. rollback_asset 7 (assets sample_catalog ! 0) (assets sample_catalog ! 2) ''ann'' sample_catalog = (Inr t, d') \<and>
     a_id t = 12 \<and> t \<in> set (assets d')"
proof -
  have "\<not> isl (fst (rollback_asset 7 (assets sample_catalog ! 0) (assets sample_catalog ! 2) ''ann'' sample_catalog))"
    by code_simp
  then obtain t d' where run:
    "rollback_asset 7 (assets sample_catalog ! 0) (assets sample_catalog ! 2) ''ann'' sample_catalog = (Inr t, d')"
    by (metis prod.exhaust_sel isl_def sum.exhaust)
  have "a_id (assets sample_catalog ! 2) = 12" by (simp add: sample_catalog_def sample_defs)
  with rollback_activates_target [OF run sample_catalog_ok] run show ?thesis by auto
qed

end
