(* ===== verification/Sync.thy ===== *)
theory Sync
  imports Lifecycle
begin

text \<open>
  \<open>services/sync.py\<close>, the validator of \<open>schemas/sync.py\<close> and the endpoints of \<open>api/v1/sync.py\<close>:
  the server-side journal of a synchronised folder.  Each accepted operation takes the next
  cursor of its root; an operation whose base revision is stale becomes a conflict, which a
  client later resolves.  Fresh identifiers (\<open>uuid.uuid4()\<close>) are arguments.
\<close>

section \<open>Input\<close>

record sync_input =
  in_operation_id :: uuid
  in_client_sequence :: int
  in_kind :: sync_kind
  in_logical_id :: uuid
  in_base_revision :: "string option"
  in_relative_path :: "string option"
  in_asset_id :: "uuid option"

definition strip_char :: "char \<Rightarrow> string \<Rightarrow> string" where
  "strip_char c s = rev (dropWhile (\<lambda>x. x = c) (rev (dropWhile (\<lambda>x. x = c) s)))"

definition contains :: "string \<Rightarrow> string \<Rightarrow> bool" where
  "contains w s \<longleftrightarrow> list_ex (prefix w) (suffixes s)"

definition relative_path_only :: "string option \<Rightarrow> exn + string option" where
  "relative_path_only v = (case v of None \<Rightarrow> Inr None
     | Some s \<Rightarrow>
         (let n = strip_char (CHR ''/'') (map (\<lambda>c. if c = CHR 0x5C then CHR ''/'' else c) s) in
          if n = [] \<or> prefix ''../'' n \<or> contains ''/../'' n
          then Inl (ValueError ''relative_path must stay within the selected sync root'')
          else Inr (Some n)))"

section \<open>Services\<close>

definition kind_name :: "sync_kind \<Rightarrow> string" where
  "kind_name k = (case k of Upsert \<Rightarrow> ''upsert'' | Move \<Rightarrow> ''move'' | Delete \<Rightarrow> ''delete'')"

definition clone_asset_revision :: "time \<Rightarrow> uuid \<Rightarrow> asset \<Rightarrow> uuid \<Rightarrow> int \<Rightarrow> exn + asset" where
  "clone_asset_revision now new_id source logical_id version =
     (if a_lifecycle_state source \<notin> {Active, Superseded}
      then Inl (ValueError ''An asset being deleted cannot be cloned or reactivated'')
      else Inr (source\<lparr>a_id := new_id, a_logical_id := logical_id, a_version := version,
        a_lifecycle_state := Active, a_superseded_at := None, a_trashed_at := None,
        a_purge_after := None, a_deleted_by := None, a_protection_status := ''unprotected'',
        a_restore_status := ''not_requested'', a_restored_at := None, a_created_at := now\<rparr>))"

definition operation_payload :: "sync_input \<Rightarrow> asset option \<Rightarrow> json" where
  "operation_payload i a = JObj ((''relative_path'', json_opt_str (in_relative_path i)) #
     (case a of None \<Rightarrow> [] | Some a \<Rightarrow>
       [(''asset_id'', juuid (a_id a)),
        (''original_url'', JStr (''/api/v1/assets/'' @ uuid_str (a_id a) @ ''/original'')),
        (''filename'', json_opt_str (a_original_filename a)),
        (''checksum'', JStr (a_checksum a))]))"

definition next_revision :: "int \<Rightarrow> uuid \<Rightarrow> string" where
  "next_revision cursor operation_id = ''r'' @ show_int cursor @ ''-'' @ take 12 (uuid_hex operation_id)"

definition find_item :: "db \<Rightarrow> uuid \<Rightarrow> uuid \<Rightarrow> sync_item option" where
  "find_item d rid lid = sql_first (\<lambda>s. si_root_id s = rid \<and> si_logical_id s = lid) (sync_items d)"

definition update_item :: "uuid \<Rightarrow> uuid \<Rightarrow> (sync_item \<Rightarrow> sync_item) \<Rightarrow> db \<Rightarrow> db" where
  "update_item rid lid f d = d\<lparr>sync_items :=
     sql_update (\<lambda>s. si_root_id s = rid \<and> si_logical_id s = lid) f (sync_items d)\<rparr>"

definition active_asset :: "db \<Rightarrow> uuid \<Rightarrow> uuid \<Rightarrow> asset option" where
  "active_asset d uid aid =
     sql_first (\<lambda>a. a_id a = aid \<and> a_user_id a = uid \<and> a_lifecycle_state a = Active) (assets d)"

definition highest_version :: "db \<Rightarrow> uuid \<Rightarrow> uuid \<Rightarrow> int" where
  "highest_version d uid lid =
     foldr max (map a_version (filter (\<lambda>a. a_user_id a = uid \<and> a_logical_id a = lid) (assets d))) 0"

text \<open>Attaching the uploaded asset to the logical item: the previous active revision is
  superseded; an asset with other references or a history of its own is cloned.\<close>

definition attach_asset ::
  "time \<Rightarrow> uuid \<Rightarrow> uuid \<Rightarrow> uuid \<Rightarrow> sync_item option \<Rightarrow> asset \<Rightarrow> uuid \<Rightarrow> db \<Rightarrow> exn + asset \<times> db" where
  "attach_asset now rid uid lid item asset clone_id d =
     (let highest = highest_version d uid lid;
          target = sql_first (\<lambda>a. a_user_id a = uid \<and> a_logical_id a = lid \<and> a_lifecycle_state a = Active) (assets d);
          d = (case target of
                 Some t \<Rightarrow> if a_id t \<noteq> a_id asset then update_asset (a_id t) (supersede now) d else d
               | None \<Rightarrow> d)
      in sbind
        (if a_logical_id asset \<noteq> lid then
           (if sql_first (\<lambda>s. si_asset_id s = Some (a_id asset) \<and>
                  (si_root_id s \<noteq> rid \<or> si_logical_id s \<noteq> lid)) (sync_items d) \<noteq> None \<or>
               sql_first (\<lambda>b. a_user_id b = uid \<and> a_logical_id b = a_logical_id asset \<and>
                  a_id b \<noteq> a_id asset) (assets d) \<noteq> None
            then sbind (clone_asset_revision now clone_id asset lid (highest + 1))
                   (\<lambda>c. Inr (c, d\<lparr>assets := sql_insert c (assets d)\<rparr>))
            else (let a = asset\<lparr>a_logical_id := lid, a_version := highest + 1\<rparr>
                  in Inr (a, update_asset (a_id asset) (\<lambda>_. a) d)))
         else if (case item of None \<Rightarrow> False | Some i \<Rightarrow> si_asset_id i \<noteq> Some (a_id asset)) \<and>
                 (case target of None \<Rightarrow> True | Some t \<Rightarrow> a_id t \<noteq> a_id asset)
         then sbind (clone_asset_revision now clone_id asset lid (highest + 1))
                (\<lambda>c. Inr (c, d\<lparr>assets := sql_insert c (assets d)\<rparr>))
         else Inr (asset, d))
        (\<lambda>(a, d). let a = a\<lparr>a_lifecycle_state := Active, a_superseded_at := None,
                             a_trashed_at := None, a_purge_after := None\<rparr>
                  in Inr (a, update_asset (a_id a) (\<lambda>_. a) d)))"

text \<open>The payload of the operation, or the error, and the database after it; a failure keeps what
  was written before it, because the caller catches it inside the transaction.\<close>

definition apply_item_operation ::
  "env \<Rightarrow> time \<Rightarrow> sync_root \<Rightarrow> string \<Rightarrow> string \<Rightarrow> sync_input \<Rightarrow> sync_item option \<Rightarrow> uuid \<Rightarrow> db \<Rightarrow>
   (exn + json) \<times> db" where
  "apply_item_operation e now rt revision client_id i item clone_id d =
     (let rid = sr_id rt; uid = sr_user_id rt; lid = in_logical_id i in
      case in_kind i of
        Upsert \<Rightarrow>
          (case (in_asset_id i, in_relative_path i) of
             (Some aid, Some path) \<Rightarrow>
               (case active_asset d uid aid of
                  None \<Rightarrow> (Inl (ValueError ''The uploaded asset is unavailable''), d)
                | Some asset \<Rightarrow>
                    (case attach_asset now rid uid lid item asset clone_id d of
                       Inl x \<Rightarrow> (Inl x, d)
                     | Inr (a, d) \<Rightarrow>
                         (Inr (operation_payload i (Some a)),
                          (case item of
                             None \<Rightarrow> d\<lparr>sync_items := sql_insert
                               \<lparr>si_root_id = rid, si_logical_id = lid, si_asset_id = Some (a_id a),
                                si_relative_path = path, si_revision = revision, si_deleted_at = None\<rparr> (sync_items d)\<rparr>
                           | Some _ \<Rightarrow> update_item rid lid (\<lambda>s. s\<lparr>si_asset_id := Some (a_id a),
                               si_relative_path := path, si_revision := revision, si_deleted_at := None\<rparr>) d))))
           | _ \<Rightarrow> (Inl (ValueError ''An upsert needs an uploaded asset and relative path''), d))
      | Move \<Rightarrow>
          (case (item, in_relative_path i) of
             (Some it, Some path) \<Rightarrow>
               if si_deleted_at it \<noteq> None
               then (Inl (ValueError ''A move needs an existing, live sync item and relative path''), d)
               else
                 (let moved = update_item rid lid (\<lambda>s. s\<lparr>si_relative_path := path, si_revision := revision\<rparr>) d in
                  case si_asset_id it of
                    None \<Rightarrow> (Inr (operation_payload i None), moved)
                  | Some aid \<Rightarrow>
                      (case active_asset d uid aid of
                         None \<Rightarrow> (Inl (ValueError ''The synchronized asset is being deleted''), d)
                       | Some a \<Rightarrow> (Inr (operation_payload i (Some a)), moved)))
           | _ \<Rightarrow> (Inl (ValueError ''A move needs an existing, live sync item and relative path''), d))
      | Delete \<Rightarrow>
          (case item of
             None \<Rightarrow>
               (let path = (case in_relative_path i of None \<Rightarrow> [] | Some p \<Rightarrow> p) in
                (Inr (JObj [(''relative_path'', JStr path), (''deleted'', JBool True)]),
                 d\<lparr>sync_items := sql_insert
                   \<lparr>si_root_id = rid, si_logical_id = lid, si_asset_id = None, si_relative_path = path,
                    si_revision = revision, si_deleted_at = None\<rparr> (sync_items d)\<rparr>))
           | Some it \<Rightarrow>
               (let done = (\<lambda>d. (Inr (JObj [(''relative_path'', JStr (si_relative_path it)), (''deleted'', JBool True)]),
                      update_item rid lid (\<lambda>s. s\<lparr>si_deleted_at := Some now, si_revision := revision\<rparr>) d)) in
                case si_asset_id it of
                  None \<Rightarrow> done d
                | Some aid \<Rightarrow>
                    (case active_asset d uid aid of
                       None \<Rightarrow> (Inl (ValueError ''The synchronized asset is being deleted''), d)
                     | Some a \<Rightarrow>
                         (case trash_asset e now (a_id a) (''sync:'' @ client_id) None d of
                            (Inl x, d) \<Rightarrow> (Inl x, d)
                          | (Inr _, d) \<Rightarrow> done d)))))"

definition find_root :: "db \<Rightarrow> uuid \<Rightarrow> uuid \<Rightarrow> sync_root option" where
  "find_root d rid uid =
     sql_first (\<lambda>r. sr_id r = rid \<and> sr_user_id r = uid \<and> sr_status r = ''active'') (sync_roots d)"

definition set_root :: "uuid \<Rightarrow> (sync_root \<Rightarrow> sync_root) \<Rightarrow> db \<Rightarrow> db" where
  "set_root rid f d = d\<lparr>sync_roots := sql_update (\<lambda>r. sr_id r = rid) f (sync_roots d)\<rparr>"

definition set_operation :: "uuid \<Rightarrow> (sync_operation \<Rightarrow> sync_operation) \<Rightarrow> db \<Rightarrow> db" where
  "set_operation oid f d = d\<lparr>sync_operations := sql_update (\<lambda>r. so_id r = oid) f (sync_operations d)\<rparr>"

text \<open>The applied operation of the item with the highest cursor.\<close>

definition last_applied :: "db \<Rightarrow> uuid \<Rightarrow> uuid \<Rightarrow> sync_operation option" where
  "last_applied d rid lid =
     (case sort_key (\<lambda>x. - so_cursor x) (filter (\<lambda>x. so_root_id x = rid \<and> so_logical_id x = lid \<and>
         so_status x = ''applied'') (sync_operations d)) of [] \<Rightarrow> None | x # _ \<Rightarrow> Some x)"

record sync_ids =
  id_operation :: uuid
  id_clone :: uuid
  id_conflict :: uuid

definition conflict_kind_of :: "sync_input \<Rightarrow> sync_item option \<Rightarrow> string option" where
  "conflict_kind_of i item =
     (case item of None \<Rightarrow> None
      | Some it \<Rightarrow>
          if in_base_revision i \<noteq> Some (si_revision it)
          then Some (if in_kind i = Delete \<or> si_deleted_at it \<noteq> None then ''delete_vs_change'' else ''concurrent_change'')
          else None)"

text \<open>The journal row of a new operation, the recording of a conflict and of a success, and the
  processing of one input that is not a duplicate.\<close>

definition begin_operation :: "sync_root \<Rightarrow> string \<Rightarrow> sync_input \<Rightarrow> sync_ids \<Rightarrow> sync_operation" where
  "begin_operation rt client_id i ids =
     \<lparr>so_id = id_operation ids, so_root_id = sr_id rt, so_cursor = sr_cursor rt + 1, so_client_id = client_id,
      so_client_sequence = in_client_sequence i, so_operation_id = in_operation_id i, so_kind = in_kind i,
      so_logical_id = in_logical_id i, so_base_revision = in_base_revision i,
      so_revision = Some (next_revision (sr_cursor rt + 1) (in_operation_id i)),
      so_payload = JObj [], so_status = ''applied''\<rparr>"

definition record_conflict ::
  "sync_root \<Rightarrow> sync_input \<Rightarrow> sync_ids \<Rightarrow> string \<Rightarrow> sync_item option \<Rightarrow> sync_operation \<Rightarrow> db \<Rightarrow>
   sync_operation \<times> sync_conflict option \<times> db" where
  "record_conflict rt i ids kind item operation d =
     (let payload = JObj [(''relative_path'', json_opt_str (in_relative_path i)),
            (''asset_id'', case in_asset_id i of None \<Rightarrow> JNull | Some a \<Rightarrow> juuid a),
            (''requested_kind'', JStr (kind_name (in_kind i)))];
          mark = (\<lambda>x. x\<lparr>so_status := ''conflict'', so_payload := payload\<rparr>);
          d = set_operation (id_operation ids) mark d;
          conflict = \<lparr>sc_id = id_conflict ids, sc_root_id = sr_id rt, sc_logical_id = in_logical_id i,
            sc_local_operation_id = id_operation ids,
            sc_conflicting_operation_id = map_option so_id (last_applied d (sr_id rt) (in_logical_id i)),
            sc_kind = kind,
            sc_detail = JObj [(''expected_revision'', json_opt_str (in_base_revision i)),
              (''actual_revision'', case item of None \<Rightarrow> JNull | Some it \<Rightarrow> JStr (si_revision it))],
            sc_status = ''open'', sc_resolution = None, sc_resolved_at = None\<rparr>
      in (mark operation, Some conflict,
          audit (sr_user_id rt) ''sync.conflict_detected''
            [(''root_id'', juuid (sr_id rt)), (''operation_id'', juuid (in_operation_id i)), (''kind'', JStr kind),
             (''logical_id'', juuid (in_logical_id i))]
            (d\<lparr>sync_conflicts := sql_insert conflict (sync_conflicts d)\<rparr>)))"

definition record_applied ::
  "sync_root \<Rightarrow> sync_input \<Rightarrow> sync_ids \<Rightarrow> json \<Rightarrow> sync_operation \<Rightarrow> db \<Rightarrow>
   sync_operation \<times> sync_conflict option \<times> db" where
  "record_applied rt i ids payload operation d =
     (operation\<lparr>so_payload := payload\<rparr>, None,
      audit (sr_user_id rt) ''sync.operation_applied''
        [(''root_id'', juuid (sr_id rt)), (''operation_id'', juuid (in_operation_id i)),
         (''kind'', JStr (kind_name (in_kind i))), (''logical_id'', juuid (in_logical_id i)),
         (''cursor'', JInt (so_cursor operation))]
        (set_operation (id_operation ids) (\<lambda>x. x\<lparr>so_payload := payload\<rparr>) d))"

definition apply_one ::
  "env \<Rightarrow> time \<Rightarrow> sync_root \<Rightarrow> string \<Rightarrow> sync_input \<Rightarrow> sync_ids \<Rightarrow> db \<Rightarrow>
   sync_operation \<times> sync_conflict option \<times> db" where
  "apply_one e now rt client_id i ids d =
     (let cursor = sr_cursor rt + 1;
          d = set_root (sr_id rt) (\<lambda>r. r\<lparr>sr_cursor := cursor\<rparr>) d;
          item = find_item d (sr_id rt) (in_logical_id i);
          operation = begin_operation rt client_id i ids;
          d = d\<lparr>sync_operations := sql_insert operation (sync_operations d)\<rparr>
      in case conflict_kind_of i item of
           Some kind \<Rightarrow> record_conflict rt i ids kind item operation d
         | None \<Rightarrow>
             (case apply_item_operation e now rt (next_revision cursor (in_operation_id i)) client_id i item
                     (id_clone ids) d of
                (Inl x, d) \<Rightarrow> record_conflict rt i ids ''invalid_transition'' item operation d
              | (Inr payload, d) \<Rightarrow> record_applied rt i ids payload operation d))"

definition known_operation :: "db \<Rightarrow> uuid \<Rightarrow> string \<Rightarrow> sync_input \<Rightarrow> sync_operation option" where
  "known_operation d rid client_id i =
     (case sql_first (\<lambda>x. so_operation_id x = in_operation_id i) (sync_operations d) of
        Some x \<Rightarrow> Some x
      | None \<Rightarrow> sql_first (\<lambda>x. so_root_id x = rid \<and> so_client_id x = client_id \<and>
          so_client_sequence x = in_client_sequence i) (sync_operations d))"

fun apply_loop ::
  "env \<Rightarrow> time \<Rightarrow> sync_root \<Rightarrow> string \<Rightarrow> (sync_input \<times> sync_ids) list \<Rightarrow> db \<Rightarrow>
   sync_operation list \<times> sync_conflict list \<times> db" where
  "apply_loop e now rt client_id [] d = ([], [], d)"
| "apply_loop e now rt client_id ((i, ids) # rest) d =
     (case known_operation d (sr_id rt) client_id i of
        Some x \<Rightarrow>
          (let (os, cs, d) = apply_loop e now rt client_id rest d in (x # os, cs, d))
      | None \<Rightarrow>
          (let (x, c, d) = apply_one e now rt client_id i ids d;
               (os, cs, d) = apply_loop e now (rt\<lparr>sr_cursor := sr_cursor rt + 1\<rparr>) client_id rest d
           in (x # os, (case c of None \<Rightarrow> cs | Some c \<Rightarrow> c # cs), d)))"

definition apply_operations ::
  "env \<Rightarrow> time \<Rightarrow> sync_root \<Rightarrow> string \<Rightarrow> (sync_input \<times> sync_ids) list \<Rightarrow> db \<Rightarrow>
   exn + sync_operation list \<times> sync_conflict list \<times> db" where
  "apply_operations e now r client_id inputs d =
     (case active_user d (sr_user_id r) of
        None \<Rightarrow> Inl (ValueError ''Account is unavailable'')
      | Some u \<Rightarrow>
          (case find_root d (sr_id r) (u_id u) of
             None \<Rightarrow> Inl (ValueError ''Sync root is unavailable'')
           | Some rt \<Rightarrow>
               (let (os, cs, d) = apply_loop e now rt client_id inputs d in
                Inr (os, cs, set_root (sr_id rt) (\<lambda>x. x\<lparr>sr_last_seen_at := Some now\<rparr>) d))))"

definition payload_str :: "string \<Rightarrow> json \<Rightarrow> string option" where
  "payload_str k j = (case json_get k j of Some (JStr s) \<Rightarrow> Some s | _ \<Rightarrow> None)"

text \<open>The input rebuilt from a conflicted operation; \<open>uuid.UUID\<close> and the validator may reject it.\<close>

definition retry_input :: "sync_operation \<Rightarrow> exn + sync_input" where
  "retry_input x = sbind (relative_path_only (payload_str ''relative_path'' (so_payload x))) (\<lambda>path.
     sbind (case payload_str ''asset_id'' (so_payload x) of
              None \<Rightarrow> Inr None
            | Some s \<Rightarrow> if s = [] then Inr None
                else (case parse_uuid s of None \<Rightarrow> Inl (ValueError ''badly formed hexadecimal UUID string'')
                      | Some a \<Rightarrow> Inr (Some a))) (\<lambda>aid.
     Inr \<lparr>in_operation_id = so_operation_id x, in_client_sequence = so_client_sequence x, in_kind = so_kind x,
          in_logical_id = so_logical_id x, in_base_revision = None, in_relative_path = path, in_asset_id = aid\<rparr>))"

definition set_conflict :: "uuid \<Rightarrow> (sync_conflict \<Rightarrow> sync_conflict) \<Rightarrow> db \<Rightarrow> db" where
  "set_conflict cid f d = d\<lparr>sync_conflicts := sql_update (\<lambda>c. sc_id c = cid) f (sync_conflicts d)\<rparr>"

definition keep_local :: "env \<Rightarrow> time \<Rightarrow> sync_root \<Rightarrow> sync_operation \<Rightarrow> uuid \<Rightarrow> db \<Rightarrow> exn + db" where
  "keep_local e now rt x clone_id d =
     sbind (retry_input x) (\<lambda>i.
       case apply_item_operation e now rt (case so_revision x of None \<Rightarrow> [] | Some r \<Rightarrow> r)
              (so_client_id x) i (find_item d (sr_id rt) (so_logical_id x)) clone_id d of
         (Inl y, d) \<Rightarrow> Inl y
       | (Inr payload, d) \<Rightarrow>
           (let cursor = sr_cursor rt + 1;
                revision = next_revision cursor (so_operation_id x);
                d = set_root (sr_id rt) (\<lambda>r. r\<lparr>sr_cursor := cursor\<rparr>) d;
                d = set_operation (so_id x) (\<lambda>o'. o'\<lparr>so_payload := payload, so_cursor := cursor,
                      so_revision := Some revision, so_status := ''applied''\<rparr>) d
            in Inr (update_item (sr_id rt) (so_logical_id x) (\<lambda>s. s\<lparr>si_revision := revision\<rparr>) d)))"

definition resolve_conflict ::
  "env \<Rightarrow> time \<Rightarrow> sync_conflict \<Rightarrow> string \<Rightarrow> uuid \<Rightarrow> db \<Rightarrow> exn + sync_conflict \<times> db" where
  "resolve_conflict e now conflict choice clone_id d =
     (case sql_first (\<lambda>r. sr_id r = sc_root_id conflict) (sync_roots d) of
        None \<Rightarrow> Inl (ValueError ''Sync conflict is incomplete'')
      | Some owner \<Rightarrow>
     (case active_user d (sr_user_id owner) of
        None \<Rightarrow> Inl (ValueError ''Account is unavailable'')
      | Some u \<Rightarrow>
     (case find_root d (sc_root_id conflict) (u_id u) of
        None \<Rightarrow> Inl (ValueError ''Sync conflict is incomplete'')
      | Some rt \<Rightarrow>
     (case sql_first (\<lambda>c. sc_id c = sc_id conflict \<and> sc_root_id c = sr_id rt) (sync_conflicts d) of
        None \<Rightarrow> Inl (ValueError ''Sync conflict is incomplete'')
      | Some c \<Rightarrow>
          if sc_status c \<noteq> ''open'' then Inr (c, d)
          else
     (case sql_first (\<lambda>x. so_id x = sc_local_operation_id c \<and> so_root_id x = sr_id rt) (sync_operations d) of
        None \<Rightarrow> Inl (ValueError ''Sync conflict is incomplete'')
      | Some x \<Rightarrow>
          sbind (if choice = ''keep_local'' then keep_local e now rt x clone_id d
                 else Inr (set_operation (so_id x) (\<lambda>o'. o'\<lparr>so_status := ''rejected''\<rparr>) d))
            (\<lambda>d. let close = (\<lambda>c. c\<lparr>sc_status := ''resolved'', sc_resolution := Some choice,
                        sc_resolved_at := Some now\<rparr>)
                 in Inr (close c, audit (sr_user_id rt) ''sync.conflict_resolved''
                      [(''conflict_id'', juuid (sc_id c)), (''choice'', JStr choice),
                       (''operation_id'', juuid (so_operation_id x))]
                      (set_conflict (sc_id c) close d))))))))"

section \<open>Endpoints\<close>

text \<open>A handler returns its response and the committed database; on an exception the transaction
  is rolled back.\<close>

definition owned_root :: "db \<Rightarrow> user \<Rightarrow> uuid \<Rightarrow> exn + sync_root" where
  "owned_root d u rid =
     (case sql_first (\<lambda>r. sr_id r = rid \<and> sr_user_id r = u_id u) (sync_roots d) of
        None \<Rightarrow> Inl (HTTPException 404 ''Sync root not found'')
      | Some r \<Rightarrow> Inr r)"

definition register_root :: "time \<Rightarrow> user \<Rightarrow> string \<Rightarrow> string \<Rightarrow> uuid \<Rightarrow> db \<Rightarrow> (exn + sync_root) \<times> db" where
  "register_root now u name client_id new_id d =
     (case sql_first (\<lambda>r. sr_user_id r = u_id u \<and> sr_client_id r = client_id) (sync_roots d) of
        None \<Rightarrow>
          (let r = \<lparr>sr_id = new_id, sr_user_id = u_id u, sr_name = strip name, sr_client_id = client_id,
                    sr_cursor = 0, sr_status = ''active'', sr_last_seen_at = None, sr_created_at = now\<rparr>
           in (Inr r, d\<lparr>sync_roots := sql_insert r (sync_roots d)\<rparr>))
      | Some r \<Rightarrow> (Inr (r\<lparr>sr_name := strip name\<rparr>), set_root (sr_id r) (\<lambda>r. r\<lparr>sr_name := strip name\<rparr>) d))"

definition open_conflicts :: "db \<Rightarrow> uuid \<Rightarrow> uuid list" where
  "open_conflicts d rid = map sc_id (filter (\<lambda>c. sc_root_id c = rid \<and> sc_status c = ''open'') (sync_conflicts d))"

definition pull_operations ::
  "user \<Rightarrow> uuid \<Rightarrow> int \<Rightarrow> nat \<Rightarrow> db \<Rightarrow> exn + int \<times> sync_operation list \<times> uuid list" where
  "pull_operations u rid cursor limit d =
     sbind (owned_root d u rid) (\<lambda>r.
       Inr (sr_cursor r,
            take limit (sort_key so_cursor
              (filter (\<lambda>x. so_root_id x = sr_id r \<and> cursor < so_cursor x) (sync_operations d))),
            open_conflicts d (sr_id r)))"

definition as_http :: "int \<Rightarrow> exn + 'a \<Rightarrow> exn + 'a" where
  "as_http code m = (case m of Inl x \<Rightarrow> Inl (HTTPException code (exn_str x)) | Inr v \<Rightarrow> Inr v)"

definition push_operations ::
  "env \<Rightarrow> time \<Rightarrow> user \<Rightarrow> uuid \<Rightarrow> string \<Rightarrow> (sync_input \<times> sync_ids) list \<Rightarrow> db \<Rightarrow>
   (exn + int \<times> sync_operation list \<times> uuid list) \<times> db" where
  "push_operations e now u rid client_id inputs d =
     (case sbind (owned_root d u rid) (\<lambda>r. as_http 409 (apply_operations e now r client_id inputs d)) of
        Inl x \<Rightarrow> (Inl x, d)
      | Inr (os, cs, d') \<Rightarrow>
          (Inr (case sql_first (\<lambda>r. sr_id r = rid) (sync_roots d') of None \<Rightarrow> 0 | Some r \<Rightarrow> sr_cursor r,
                os, map sc_id cs), d'))"

definition list_conflicts :: "user \<Rightarrow> uuid \<Rightarrow> db \<Rightarrow> exn + sync_conflict list" where
  "list_conflicts u rid d = sbind (owned_root d u rid) (\<lambda>r.
     Inr (filter (\<lambda>c. sc_root_id c = sr_id r \<and> sc_status c = ''open'') (sync_conflicts d)))"

definition resolve_sync_conflict ::
  "env \<Rightarrow> time \<Rightarrow> user \<Rightarrow> uuid \<Rightarrow> string \<Rightarrow> uuid \<Rightarrow> db \<Rightarrow> (exn + sync_conflict) \<times> db" where
  "resolve_sync_conflict e now u cid choice clone_id d =
     (case sql_first (\<lambda>c. sc_id c = cid \<and>
             list_ex (\<lambda>r. sr_id r = sc_root_id c \<and> sr_user_id r = u_id u) (sync_roots d)) (sync_conflicts d) of
        None \<Rightarrow> (Inl (HTTPException 404 ''Sync conflict not found''), d)
      | Some c \<Rightarrow>
          (case as_http 409 (resolve_conflict e now c choice clone_id d) of
             Inl x \<Rightarrow> (Inl x, d) | Inr (c', d') \<Rightarrow> (Inr c', d')))"

section \<open>Frames\<close>

lemma update_item_simps [simp]:
  "users (update_item r l f d) = users d" "assets (update_item r l f d) = assets d"
  "replicas (update_item r l f d) = replicas d" "uploads (update_item r l f d) = uploads d"
  "policies (update_item r l f d) = policies d" "drives (update_item r l f d) = drives d"
  "archives (update_item r l f d) = archives d" "jobs (update_item r l f d) = jobs d"
  "sync_roots (update_item r l f d) = sync_roots d"
  "sync_operations (update_item r l f d) = sync_operations d"
  "sync_conflicts (update_item r l f d) = sync_conflicts d"
  "auth_sessions (update_item r l f d) = auth_sessions d"
  "account_tokens (update_item r l f d) = account_tokens d"
  "recovery_codes (update_item r l f d) = recovery_codes d"
  "audit_events (update_item r l f d) = audit_events d"
  "identities (update_item r l f d) = identities d" "passkeys (update_item r l f d) = passkeys d"
  "challenges (update_item r l f d) = challenges d" "devices (update_item r l f d) = devices d"
  "pairing_codes (update_item r l f d) = pairing_codes d" "nodes (update_item r l f d) = nodes d"
  "libraries (update_item r l f d) = libraries d" "shares (update_item r l f d) = shares d"
  "albums (update_item r l f d) = albums d" "album_assets (update_item r l f d) = album_assets d"
  "album_members (update_item r l f d) = album_members d"
  "album_invites (update_item r l f d) = album_invites d"
  "monitoring_events (update_item r l f d) = monitoring_events d"
  by (simp_all add: update_item_def)

lemma set_root_simps [simp]:
  "sync_roots (set_root i f d) = sql_update (\<lambda>r. sr_id r = i) f (sync_roots d)"
  "users (set_root i f d) = users d" "assets (set_root i f d) = assets d"
  "replicas (set_root i f d) = replicas d" "uploads (set_root i f d) = uploads d"
  "policies (set_root i f d) = policies d" "drives (set_root i f d) = drives d"
  "archives (set_root i f d) = archives d" "jobs (set_root i f d) = jobs d"
  "sync_items (set_root i f d) = sync_items d"
  "sync_operations (set_root i f d) = sync_operations d"
  "sync_conflicts (set_root i f d) = sync_conflicts d"
  "auth_sessions (set_root i f d) = auth_sessions d"
  "account_tokens (set_root i f d) = account_tokens d"
  "recovery_codes (set_root i f d) = recovery_codes d"
  "audit_events (set_root i f d) = audit_events d" "identities (set_root i f d) = identities d"
  "passkeys (set_root i f d) = passkeys d" "challenges (set_root i f d) = challenges d"
  "devices (set_root i f d) = devices d" "pairing_codes (set_root i f d) = pairing_codes d"
  "nodes (set_root i f d) = nodes d" "libraries (set_root i f d) = libraries d"
  "shares (set_root i f d) = shares d" "albums (set_root i f d) = albums d"
  "album_assets (set_root i f d) = album_assets d"
  "album_members (set_root i f d) = album_members d"
  "album_invites (set_root i f d) = album_invites d"
  "monitoring_events (set_root i f d) = monitoring_events d"
  by (simp_all add: set_root_def)

lemma set_operation_simps [simp]:
  "sync_operations (set_operation i f d) = sql_update (\<lambda>r. so_id r = i) f (sync_operations d)"
  "users (set_operation i f d) = users d" "assets (set_operation i f d) = assets d"
  "replicas (set_operation i f d) = replicas d" "uploads (set_operation i f d) = uploads d"
  "policies (set_operation i f d) = policies d" "drives (set_operation i f d) = drives d"
  "archives (set_operation i f d) = archives d" "jobs (set_operation i f d) = jobs d"
  "sync_roots (set_operation i f d) = sync_roots d"
  "sync_items (set_operation i f d) = sync_items d"
  "sync_conflicts (set_operation i f d) = sync_conflicts d"
  "auth_sessions (set_operation i f d) = auth_sessions d"
  "account_tokens (set_operation i f d) = account_tokens d"
  "recovery_codes (set_operation i f d) = recovery_codes d"
  "audit_events (set_operation i f d) = audit_events d"
  "identities (set_operation i f d) = identities d" "passkeys (set_operation i f d) = passkeys d"
  "challenges (set_operation i f d) = challenges d" "devices (set_operation i f d) = devices d"
  "pairing_codes (set_operation i f d) = pairing_codes d" "nodes (set_operation i f d) = nodes d"
  "libraries (set_operation i f d) = libraries d" "shares (set_operation i f d) = shares d"
  "albums (set_operation i f d) = albums d" "album_assets (set_operation i f d) = album_assets d"
  "album_members (set_operation i f d) = album_members d"
  "album_invites (set_operation i f d) = album_invites d"
  "monitoring_events (set_operation i f d) = monitoring_events d"
  by (simp_all add: set_operation_def)

lemma set_conflict_simps [simp]:
  "sync_conflicts (set_conflict i f d) = sql_update (\<lambda>r. sc_id r = i) f (sync_conflicts d)"
  "users (set_conflict i f d) = users d" "assets (set_conflict i f d) = assets d"
  "replicas (set_conflict i f d) = replicas d" "uploads (set_conflict i f d) = uploads d"
  "policies (set_conflict i f d) = policies d" "drives (set_conflict i f d) = drives d"
  "archives (set_conflict i f d) = archives d" "jobs (set_conflict i f d) = jobs d"
  "sync_roots (set_conflict i f d) = sync_roots d" "sync_items (set_conflict i f d) = sync_items d"
  "sync_operations (set_conflict i f d) = sync_operations d"
  "auth_sessions (set_conflict i f d) = auth_sessions d"
  "account_tokens (set_conflict i f d) = account_tokens d"
  "recovery_codes (set_conflict i f d) = recovery_codes d"
  "audit_events (set_conflict i f d) = audit_events d"
  "identities (set_conflict i f d) = identities d" "passkeys (set_conflict i f d) = passkeys d"
  "challenges (set_conflict i f d) = challenges d" "devices (set_conflict i f d) = devices d"
  "pairing_codes (set_conflict i f d) = pairing_codes d" "nodes (set_conflict i f d) = nodes d"
  "libraries (set_conflict i f d) = libraries d" "shares (set_conflict i f d) = shares d"
  "albums (set_conflict i f d) = albums d" "album_assets (set_conflict i f d) = album_assets d"
  "album_members (set_conflict i f d) = album_members d"
  "album_invites (set_conflict i f d) = album_invites d"
  "monitoring_events (set_conflict i f d) = monitoring_events d"
  by (simp_all add: set_conflict_def)

text \<open>The tables an item operation leaves alone.\<close>

definition same_journal :: "db \<Rightarrow> db \<Rightarrow> bool" where
  "same_journal d d' \<longleftrightarrow> sync_operations d' = sync_operations d \<and> sync_roots d' = sync_roots d \<and>
     sync_conflicts d' = sync_conflicts d \<and> users d' = users d \<and> replicas d' = replicas d"

lemma same_journal_refl [simp]: "same_journal d d"
  by (simp add: same_journal_def)

lemma same_journal_trans: "same_journal d d' \<Longrightarrow> same_journal d' d'' \<Longrightarrow> same_journal d d''"
  by (simp add: same_journal_def)

lemma trash_same_journal: "trash_asset e now i actor rd d = (res, d') \<Longrightarrow> same_journal d d' \<and> sync_items d' = sync_items d"
  by (erule trash_asset_cases) (auto simp: same_journal_def)

lemma attach_same_journal:
  "attach_asset now rid uid lid item asset clone_id d = Inr (a, d') \<Longrightarrow>
     same_journal d d' \<and> sync_items d' = sync_items d"
  by (auto simp: attach_asset_def Let_def sbind_Inr_iff same_journal_def split: option.splits if_splits)

lemma apply_item_same_journal:
  assumes "apply_item_operation e now rt rv cl i item cid d = (res, d')"
  shows "same_journal d d'"
proof (cases "in_kind i")
  case Upsert
  with assms show ?thesis
    by (auto simp: apply_item_operation_def Let_def dest!: attach_same_journal
        split: option.splits sum.splits) (auto simp: same_journal_def)
next
  case Move
  with assms show ?thesis
    by (auto simp: apply_item_operation_def Let_def same_journal_def split: option.splits if_splits)
next
  case Delete
  show ?thesis
  proof (cases item)
    case None
    with assms Delete show ?thesis by (auto simp: apply_item_operation_def Let_def same_journal_def)
  next
    case (Some it)
    show ?thesis
    proof (cases "Option.bind (si_asset_id it) (active_asset d (sr_user_id rt))")
      case None
      with Some assms Delete show ?thesis
        by (auto simp: apply_item_operation_def Let_def same_journal_def split: option.splits)
    next
      case (Some a)
      obtain r1 d1 where run: "trash_asset e now (a_id a) (''sync:'' @ cl) None d = (r1, d1)" by (rule prod.exhaust)
      from trash_same_journal [OF this] have j: "same_journal d d1" by simp
      from assms Delete \<open>item = Some it\<close> Some run have
        "d' = d1 \<or> d' = update_item (sr_id rt) (in_logical_id i) (\<lambda>s. s\<lparr>si_deleted_at := Some now, si_revision := rv\<rparr>) d1"
        by (auto simp: apply_item_operation_def Let_def bind_eq_Some_conv split: sum.splits)
      with j show ?thesis by (auto simp: same_journal_def)
    qed
  qed
qed

section \<open>The catalogue invariant\<close>

lemma assets_ok_rekey:
  assumes ok: "assets_ok t" and a: "a \<in> set t" and a': "a_id a' = a_id a" "retention_ok a'" "0 < a_version a'"
    and other: "\<And>b. b \<in> set t \<Longrightarrow> b \<noteq> a \<Longrightarrow> same_item a' b \<Longrightarrow>
       a_version a' \<noteq> a_version b \<and> (a_lifecycle_state a' = Active \<longrightarrow> a_lifecycle_state b \<noteq> Active)"
  shows "assets_ok (sql_update (\<lambda>x. a_id x = a_id a) (\<lambda>_. a') t)"
proof -
  let ?t = "sql_update (\<lambda>x. a_id x = a_id a) (\<lambda>_. a') t"
  have ids: "map a_id ?t = map a_id t" using a'(1) by (simp add: sql_update_def)
  have set: "x \<in> set ?t \<Longrightarrow> x = a' \<or> (x \<in> set t \<and> x \<noteq> a)" for x
    using assets_ok_id [OF ok _ a] by (auto simp: set_sql_update)
  have sym: "same_item x y \<Longrightarrow> same_item y x" for x y by (rule same_item_sym)
  have "retention_ok x \<and> 0 < a_version x" if "x \<in> set ?t" for x
    using set [OF that] a'(2,3) assets_ok_row [OF ok] by auto
  moreover have "a_id x = a_id y" if "x \<in> set ?t" "y \<in> set ?t" "same_item x y" "a_version x = a_version y" for x y
    using set [OF that(1)] set [OF that(2)] that(3,4) other sym [OF that(3)] ok unfolding assets_ok_def by metis
  moreover have "a_id x = a_id y" if "x \<in> set ?t" "y \<in> set ?t" "same_item x y" "a_lifecycle_state x = Active"
      "a_lifecycle_state y = Active" for x y
    using set [OF that(1)] set [OF that(2)] that(3-5) other sym [OF that(3)] assets_ok_active [OF ok] by metis
  ultimately show ?thesis
    unfolding assets_ok_def ids using assets_ok_distinct [OF ok] by blast
qed

lemma highest_version_ge:
  "a \<in> set (assets d) \<Longrightarrow> a_user_id a = uid \<Longrightarrow> a_logical_id a = lid \<Longrightarrow> a_version a \<le> highest_version d uid lid"
proof -
  have "x \<in> set xs \<Longrightarrow> x \<le> foldr max xs 0" for x :: int and xs by (induction xs) auto
  then show "a \<in> set (assets d) \<Longrightarrow> a_user_id a = uid \<Longrightarrow> a_logical_id a = lid \<Longrightarrow>
      a_version a \<le> highest_version d uid lid"
    by (simp add: highest_version_def)
qed

lemma highest_version_nonneg: "0 \<le> highest_version d uid lid"
proof -
  have "0 \<le> foldr max xs (0::int)" for xs by (induction xs) auto
  then show ?thesis by (simp add: highest_version_def)
qed

text \<open>Superseding the active revision of the item, unless it is the asset itself.\<close>

definition retire_target :: "time \<Rightarrow> uuid \<Rightarrow> uuid \<Rightarrow> asset \<Rightarrow> db \<Rightarrow> db" where
  "retire_target now uid lid asset d =
     (case sql_first (\<lambda>a. a_user_id a = uid \<and> a_logical_id a = lid \<and> a_lifecycle_state a = Active) (assets d) of
        Some t \<Rightarrow> if a_id t \<noteq> a_id asset then update_asset (a_id t) (supersede now) d else d
      | None \<Rightarrow> d)"

lemma retire_target:
  assumes ok: "assets_ok (assets d)" and a: "asset \<in> set (assets d)"
  defines "t \<equiv> \<lambda>now lid. assets (retire_target now (a_user_id asset) lid asset d)"
  shows "assets_ok (t now lid)" "asset \<in> set (t now lid)" "a_id ` set (t now lid) = a_id ` set (assets d)"
    "\<And>b. b \<in> set (t now lid) \<Longrightarrow> \<exists>b0 \<in> set (assets d). same_item b0 b \<and> a_version b0 = a_version b"
    "\<And>b. b \<in> set (t now lid) \<Longrightarrow> a_user_id b = a_user_id asset \<Longrightarrow> a_logical_id b = lid \<Longrightarrow>
       a_lifecycle_state b = Active \<Longrightarrow> a_id b = a_id asset"
proof -
  let ?u = "a_user_id asset"
  let ?P = "\<lambda>a. a_user_id a = ?u \<and> a_logical_id a = lid \<and> a_lifecycle_state a = Active"
  have all: "assets_ok (t now lid) \<and> asset \<in> set (t now lid) \<and> a_id ` set (t now lid) = a_id ` set (assets d) \<and>
    (\<forall>b \<in> set (t now lid). \<exists>b0 \<in> set (assets d). same_item b0 b \<and> a_version b0 = a_version b) \<and>
    (\<forall>b \<in> set (t now lid). ?P b \<longrightarrow> a_id b = a_id asset)"
  proof (cases "sql_first ?P (assets d)")
    case None
    then have "t now lid = assets d" by (simp add: t_def retire_target_def)
    moreover from None have "\<forall>b \<in> set (assets d). \<not> ?P b" by (simp add: sql_first_None)
    ultimately show ?thesis using ok a by force
  next
    case (Some x)
    from sql_first_Some [OF Some] have x: "x \<in> set (assets d)" "?P x" by blast+
    have only: "b = x" if "b \<in> set (assets d)" "?P b" for b
      using assets_ok_active [OF ok that(1) x(1)] assets_ok_id [OF ok that(1) x(1)] that(2) x(2)
      by (simp add: same_item_def)
    show ?thesis
    proof (cases "a_id x = a_id asset")
      case True
      then have "t now lid = assets d" using Some by (simp add: t_def retire_target_def)
      with ok a only True show ?thesis by force
    next
      case False
      then have eq: "t now lid = sql_update (\<lambda>a. a_id a = a_id x) (supersede now) (assets d)"
        using Some by (simp add: t_def retire_target_def)
      have "a_lifecycle_state b = Active" if "b \<in> set (assets d)" "a_id b = a_id x" for b
        using assets_ok_id [OF ok that(1) x(1) that(2)] x(2) by simp
      then have "assets_ok (t now lid)" unfolding eq by (intro supersede_ok [OF ok]) auto
      moreover have "asset \<in> set (t now lid)" using a False by (force simp: eq set_sql_update)
      moreover have "map a_id (t now lid) = map a_id (assets d)" by (simp add: eq map_sql_update)
      then have "a_id ` set (t now lid) = a_id ` set (assets d)" by (metis set_map)
      moreover have "\<forall>b \<in> set (t now lid). \<exists>b0 \<in> set (assets d). same_item b0 b \<and> a_version b0 = a_version b"
        by (auto simp: eq set_sql_update same_item_def supersede_def)
      moreover have "\<forall>b \<in> set (t now lid). \<not> ?P b"
        unfolding eq set_sql_update using only False by (auto simp: supersede_def)
      ultimately show ?thesis by blast
    qed
  qed
  then show "assets_ok (t now lid)" "asset \<in> set (t now lid)" "a_id ` set (t now lid) = a_id ` set (assets d)"
    "\<And>b. b \<in> set (t now lid) \<Longrightarrow> \<exists>b0 \<in> set (assets d). same_item b0 b \<and> a_version b0 = a_version b"
    "\<And>b. b \<in> set (t now lid) \<Longrightarrow> a_user_id b = ?u \<Longrightarrow> a_logical_id b = lid \<Longrightarrow>
       a_lifecycle_state b = Active \<Longrightarrow> a_id b = a_id asset" by blast+
qed

definition revive :: "asset \<Rightarrow> asset" where
  "revive a = a\<lparr>a_lifecycle_state := Active, a_superseded_at := None, a_trashed_at := None, a_purge_after := None\<rparr>"

lemma attach_cases:
  assumes "attach_asset now rid uid lid item asset cid d = Inr (a, d')"
  obtains (clone) d1 c where "d1 = retire_target now uid lid asset d"
      "clone_asset_revision now cid asset lid (highest_version d uid lid + 1) = Inr c"
      "a_logical_id asset \<noteq> lid \<or> (case sql_first (\<lambda>a. a_user_id a = uid \<and> a_logical_id a = lid \<and>
         a_lifecycle_state a = Active) (assets d) of None \<Rightarrow> True | Some t \<Rightarrow> a_id t \<noteq> a_id asset)"
      "a = revive c" "assets d' = sql_update (\<lambda>x. a_id x = a_id c) (\<lambda>_. revive c) (sql_insert c (assets d1))"
  | (move) d1 m where "d1 = retire_target now uid lid asset d" "a_logical_id asset \<noteq> lid"
      "m = asset\<lparr>a_logical_id := lid, a_version := highest_version d uid lid + 1\<rparr>" "a = revive m"
      "assets d' = sql_update (\<lambda>x. a_id x = a_id asset) (\<lambda>_. revive m)
         (sql_update (\<lambda>x. a_id x = a_id asset) (\<lambda>_. m) (assets d1))"
  | (keep) d1 where "d1 = retire_target now uid lid asset d" "a_logical_id asset = lid" "a = revive asset"
      "assets d' = sql_update (\<lambda>x. a_id x = a_id asset) (\<lambda>_. revive asset) (assets d1)"
proof -
  let ?h = "highest_version d uid lid + 1"
  let ?P = "\<lambda>a. a_user_id a = uid \<and> a_logical_id a = lid \<and> a_lifecycle_state a = Active"
  define d1 where "d1 = retire_target now uid lid asset d"
  have fold: "(case sql_first ?P (assets d) of
      Some t \<Rightarrow> if a_id t \<noteq> a_id asset then update_asset (a_id t) (supersede now) d else d | None \<Rightarrow> d) = d1"
    by (simp add: d1_def retire_target_def)
  define B where "B = (if a_logical_id asset \<noteq> lid then
     sql_first (\<lambda>s. si_asset_id s = Some (a_id asset) \<and> (si_root_id s \<noteq> rid \<or> si_logical_id s \<noteq> lid)) (sync_items d1) \<noteq> None \<or>
     sql_first (\<lambda>b. a_user_id b = uid \<and> a_logical_id b = a_logical_id asset \<and> a_id b \<noteq> a_id asset) (assets d1) \<noteq> None
     else (case item of None \<Rightarrow> False | Some i \<Rightarrow> si_asset_id i \<noteq> Some (a_id asset)) \<and>
        (case sql_first ?P (assets d) of None \<Rightarrow> True | Some t \<Rightarrow> a_id t \<noteq> a_id asset))"
  note run = assms [unfolded attach_asset_def Let_def fold, folded revive_def]
  show ?thesis
  proof (cases B)
    case True
    with run obtain c where c: "clone_asset_revision now cid asset lid ?h = Inr c" "a = revive c"
      "d' = update_asset (a_id c) (\<lambda>_. revive c) (d1\<lparr>assets := sql_insert c (assets d1)\<rparr>)"
      by (auto simp: B_def sbind_Inr_iff revive_def split: if_splits)
    from True have "a_logical_id asset \<noteq> lid \<or>
        (case sql_first ?P (assets d) of None \<Rightarrow> True | Some t \<Rightarrow> a_id t \<noteq> a_id asset)"
      by (simp add: B_def split: if_splits)
    with c show ?thesis by (intro clone [OF d1_def]) simp_all
  next
    case False
    with run that(2) [OF d1_def] that(3) [OF d1_def] show ?thesis
      by (auto simp: B_def revive_def split: if_splits)
  qed
qed

lemma revive_columns [simp]:
  "a_id (revive a) = a_id a" "a_version (revive a) = a_version a" "same_item (revive a) b = same_item a b"
  "a_user_id (revive a) = a_user_id a" "a_logical_id (revive a) = a_logical_id a"
  "same_item b (revive a) = same_item b a" "a_lifecycle_state (revive a) = Active" "retention_ok (revive a)"
  by (simp_all add: revive_def same_item_def retention_ok_def)

lemma attach_ok:
  assumes run: "attach_asset now rid (a_user_id asset) lid item asset cid d = Inr (a, d')"
    and ok: "assets_ok (assets d)" and mem: "asset \<in> set (assets d)"
    and act: "a_lifecycle_state asset = Active" and new: "cid \<notin> a_id ` set (assets d)"
  shows "assets_ok (assets d')" "a_id ` set (assets d') \<subseteq> insert cid (a_id ` set (assets d))"
proof -
  let ?u = "a_user_id asset" and ?h = "highest_version d (a_user_id asset) lid + 1"
  let ?t = "assets (retire_target now ?u lid asset d)"
  note T = retire_target [OF ok mem, where now = now and lid = lid]
  have low: "a_version b \<noteq> ?h" if b: "b \<in> set ?t" "a_user_id b = ?u" "a_logical_id b = lid" for b
  proof -
    from T(4) [OF b(1)] obtain b0 where "b0 \<in> set (assets d)" "same_item b0 b" "a_version b0 = a_version b" by blast
    with b(2,3) highest_version_ge [of b0 d ?u lid] show ?thesis by (simp add: same_item_def)
  qed
  have sole: "b = asset" if "b \<in> set ?t" "a_user_id b = ?u" "a_logical_id b = lid" "a_lifecycle_state b = Active" for b
    using T(5) [OF that] assets_ok_id [OF T(1) that(1) T(2)] by simp
  have main: "assets_ok (assets d') \<and> a_id ` set (assets d') \<subseteq> insert cid (a_id ` set (assets d))"
    using run
  proof (cases rule: attach_cases)
    case (clone d1 c)
    from clone(2) have c: "a_id c = cid" "a_user_id c = ?u" "a_logical_id c = lid" "a_version c = ?h"
      "a_lifecycle_state c = Active" "a_purge_after c = None"
      by (auto simp: clone_asset_revision_def split: if_splits)
    have lid: "a_logical_id asset \<noteq> lid"
    proof
      assume eq: "a_logical_id asset = lid"
      with act mem have "sql_first (\<lambda>a. a_user_id a = ?u \<and> a_logical_id a = lid \<and> a_lifecycle_state a = Active) (assets d) \<noteq> None"
        by (auto simp: sql_first_None)
      then obtain x where x: "sql_first (\<lambda>a. a_user_id a = ?u \<and> a_logical_id a = lid \<and> a_lifecycle_state a = Active) (assets d) = Some x"
        by blast
      from sql_first_Some [OF x] assets_ok_active [OF ok _ mem] act eq have "a_id x = a_id asset"
        by (simp add: same_item_def)
      with clone(3) eq x show False by simp
    qed
    have fresh: "a_id c \<notin> a_id ` set ?t" using new c(1) T(3) by simp
    have ins: "assets_ok (sql_insert c ?t)"
    proof (rule assets_ok_insert [OF T(1) fresh])
      show "retention_ok c" using c by (simp add: retention_ok_def)
      show "0 < a_version c" using c(4) highest_version_nonneg [of d ?u lid] by simp
      fix b assume b: "b \<in> set ?t" "same_item c b"
      then have b': "a_user_id b = ?u" "a_logical_id b = lid" using c by (auto simp: same_item_def)
      from low [OF b(1) b'] c(4) show "a_version c \<noteq> a_version b" by simp
      from sole [OF b(1) b'] lid b' show "a_lifecycle_state b \<noteq> Active" by auto
    qed
    have "assets_ok (assets d')"
      unfolding clone(5) clone(1)
    proof (rule assets_ok_replace [OF ins])
      show "c \<in> set (sql_insert c ?t)" by (simp add: set_sql_insert)
      show "\<forall>b \<in> set (sql_insert c ?t). same_item b c \<longrightarrow> a_lifecycle_state b = Active \<longrightarrow> a_id b = a_id c"
        by (intro ballI impI, rule assets_ok_active [OF ins]) (simp_all add: c set_sql_insert)
    qed simp_all
    moreover have "map a_id (assets d') = map a_id (sql_insert c ?t)"
      unfolding clone(5) clone(1) by (simp add: sql_update_def)
    then have "a_id ` set (assets d') = insert cid (a_id ` set (assets d))"
      using c(1) T(3) by (metis image_insert set_map set_sql_insert)
    ultimately show ?thesis by simp
  next
    case (move d1 m)
    have upd: "sql_update (\<lambda>x. a_id x = a_id asset) (\<lambda>_. revive m) (sql_update (\<lambda>x. a_id x = a_id asset) (\<lambda>_. m) t) =
        sql_update (\<lambda>x. a_id x = a_id asset) (\<lambda>_. revive m) t" for t
      using move(3) by (simp add: sql_update_def)
    have "assets_ok (assets d')"
      unfolding move(5) move(1) upd
    proof (rule assets_ok_rekey [OF T(1,2)])
      show "a_id (revive m) = a_id asset" using move(3) by simp
      show "0 < a_version (revive m)" using move(3) highest_version_nonneg [of d ?u lid] by simp
      fix b assume b: "b \<in> set ?t" "b \<noteq> asset" "same_item (revive m) b"
      then have b': "a_user_id b = ?u" "a_logical_id b = lid" using move(3) by (auto simp: same_item_def)
      from low [OF b(1) b'] sole [OF b(1) b'] b(2) move(3)
      show "a_version (revive m) \<noteq> a_version b \<and> (a_lifecycle_state (revive m) = Active \<longrightarrow> a_lifecycle_state b \<noteq> Active)"
        by auto
    qed simp
    moreover have "map a_id (assets d') = map a_id ?t"
      unfolding move(5) move(1) upd using move(3) by (simp add: sql_update_def)
    then have "a_id ` set (assets d') = a_id ` set (assets d)" using T(3) by (metis set_map)
    ultimately show ?thesis by auto
  next
    case (keep d1)
    have "assets_ok (assets d')"
      unfolding keep(4) keep(1)
      by (rule assets_ok_replace [OF T(1,2)]) (use T(5) keep(2) in \<open>auto simp: same_item_def\<close>)
    moreover have "map a_id (assets d') = map a_id ?t"
      unfolding keep(4) keep(1) by (simp add: sql_update_def)
    then have "a_id ` set (assets d') = a_id ` set (assets d)" using T(3) by (metis set_map)
    ultimately show ?thesis by auto
  qed
  then show "assets_ok (assets d')" "a_id ` set (assets d') \<subseteq> insert cid (a_id ` set (assets d))" by blast+
qed

lemma trash_ids:
  assumes "trash_asset e now i actor rd d = (res, d')"
  shows "a_id ` set (assets d') = a_id ` set (assets d)"
  using assms
proof (cases rule: trash_asset_cases)
  case same
  then show ?thesis by auto
next
  case (trashed a n x)
  have "map a_id (assets d') = map a_id (assets d)"
    unfolding trashed(7) using trashed(2) by (simp add: sql_update_def)
  then show ?thesis by (metis set_map)
qed

text \<open>An item operation either keeps the assets, or attaches an active asset, or trashes one.\<close>

lemma apply_item_assets:
  assumes "apply_item_operation e now rt rv cl i item cid d = (res, d')"
  obtains (same) "assets d' = assets d"
  | (attach) a0 a d1 where "a0 \<in> set (assets d)" "a_lifecycle_state a0 = Active" "a_user_id a0 = sr_user_id rt"
      "attach_asset now (sr_id rt) (sr_user_id rt) (in_logical_id i) item a0 cid d = Inr (a, d1)" "assets d' = assets d1"
  | (trash) k actor r d1 where "trash_asset e now k actor None d = (r, d1)" "assets d' = assets d1"
proof (cases "in_kind i")
  case Upsert
  show ?thesis
  proof (cases "Option.bind (in_asset_id i) (active_asset d (sr_user_id rt))")
    case None
    with Upsert assms same show ?thesis
      by (auto simp: apply_item_operation_def Let_def split: option.splits)
  next
    case (Some a0)
    then have a0: "a0 \<in> set (assets d)" "a_lifecycle_state a0 = Active" "a_user_id a0 = sr_user_id rt"
      by (auto simp: bind_eq_Some_conv active_asset_def)
    show ?thesis
    proof (cases "attach_asset now (sr_id rt) (sr_user_id rt) (in_logical_id i) item a0 cid d")
      case (Inl x)
      with Some Upsert assms same show ?thesis
        by (auto simp: apply_item_operation_def Let_def bind_eq_Some_conv split: option.splits)
    next
      case (Inr y)
      obtain a d1 where y: "y = (a, d1)" by (cases y)
      with Inr Some Upsert assms have "assets d' = assets d1 \<or> assets d' = assets d"
        by (auto simp: apply_item_operation_def Let_def bind_eq_Some_conv split: option.splits)
      with a0 Inr y attach same show ?thesis by blast
    qed
  qed
next
  case Move
  with assms same show ?thesis
    by (auto simp: apply_item_operation_def Let_def split: option.splits if_splits)
next
  case Delete
  show ?thesis
  proof (cases "Option.bind (Option.bind item si_asset_id) (active_asset d (sr_user_id rt))")
    case None
    with Delete assms same show ?thesis
      by (auto simp: apply_item_operation_def Let_def split: option.splits)
  next
    case (Some a)
    obtain r1 d1 where run: "trash_asset e now (a_id a) (''sync:'' @ cl) None d = (r1, d1)" by (rule prod.exhaust)
    from assms Delete Some run have "assets d' = assets d1"
      by (auto simp: apply_item_operation_def Let_def bind_eq_Some_conv split: sum.splits)
    with run trash show ?thesis by blast
  qed
qed

lemma apply_item_ok:
  assumes "apply_item_operation e now rt rv cl i item cid d = (res, d')" "catalog_ok d"
    "cid \<notin> a_id ` set (assets d)"
  shows "catalog_ok d' \<and> a_id ` set (assets d') \<subseteq> insert cid (a_id ` set (assets d))"
proof -
  from apply_item_same_journal [OF assms(1)] have rep: "replicas d' = replicas d" by (simp add: same_journal_def)
  from assms(1) show ?thesis
  proof (cases rule: apply_item_assets)
    case same
    with rep assms(2) show ?thesis by (auto simp: catalog_ok_def)
  next
    case (attach a0 a d1)
    from assms(2) have ok: "assets_ok (assets d)" by (simp add: catalog_ok_def)
    from attach_ok [OF attach(4) [folded attach(3)] ok attach(1,2) assms(3)] attach(5) rep assms(2)
    show ?thesis by (simp add: catalog_ok_def)
  next
    case (trash k actor r d1)
    from trash_asset_ok [OF trash(1) assms(2)] trash_ids [OF trash(1)] trash(2) rep assms(2)
    show ?thesis by (auto simp: catalog_ok_def)
  qed
qed

section \<open>One operation\<close>

definition after_begin :: "sync_root \<Rightarrow> string \<Rightarrow> sync_input \<Rightarrow> sync_ids \<Rightarrow> db \<Rightarrow> db" where
  "after_begin rt client_id i ids d =
     (set_root (sr_id rt) (\<lambda>r. r\<lparr>sr_cursor := sr_cursor rt + 1\<rparr>) d)
       \<lparr>sync_operations := sql_insert (begin_operation rt client_id i ids) (sync_operations d)\<rparr>"

lemma after_begin_simps [simp]:
  "sync_operations (after_begin rt cl i ids d) = sql_insert (begin_operation rt cl i ids) (sync_operations d)"
  "sync_roots (after_begin rt cl i ids d) =
     sql_update (\<lambda>r. sr_id r = sr_id rt) (\<lambda>r. r\<lparr>sr_cursor := sr_cursor rt + 1\<rparr>) (sync_roots d)"
  "assets (after_begin rt cl i ids d) = assets d" "replicas (after_begin rt cl i ids d) = replicas d"
  "users (after_begin rt cl i ids d) = users d" "sync_items (after_begin rt cl i ids d) = sync_items d"
  "sync_conflicts (after_begin rt cl i ids d) = sync_conflicts d"
  by (simp_all add: after_begin_def)

lemma record_conflict_result:
  assumes "record_conflict rt i ids kind item op d2 = (x, c, d')"
  shows "\<exists>p. x = op\<lparr>so_status := ''conflict'', so_payload := p\<rparr> \<and>
      sync_operations d' = sql_update (\<lambda>y. so_id y = id_operation ids)
        (\<lambda>y. y\<lparr>so_status := ''conflict'', so_payload := p\<rparr>) (sync_operations d2)"
    and "\<exists>cf. c = Some cf \<and> sc_id cf = id_conflict ids \<and> sc_root_id cf = sr_id rt \<and> sc_kind cf = kind \<and>
       sc_status cf = ''open'' \<and> sc_local_operation_id cf = id_operation ids \<and>
       sync_conflicts d' = sync_conflicts d2 @ [cf]"
    and "sync_roots d' = sync_roots d2" "assets d' = assets d2" "replicas d' = replicas d2"
      "users d' = users d2" "sync_items d' = sync_items d2"
proof -
  note r = assms [unfolded record_conflict_def Let_def, unfolded prod.inject]
  from r [THEN conjunct1, symmetric] r [THEN conjunct2, THEN conjunct1, symmetric]
    r [THEN conjunct2, THEN conjunct2, symmetric]
  show "\<exists>p. x = op\<lparr>so_status := ''conflict'', so_payload := p\<rparr> \<and>
      sync_operations d' = sql_update (\<lambda>y. so_id y = id_operation ids)
        (\<lambda>y. y\<lparr>so_status := ''conflict'', so_payload := p\<rparr>) (sync_operations d2)"
    "\<exists>cf. c = Some cf \<and> sc_id cf = id_conflict ids \<and> sc_root_id cf = sr_id rt \<and> sc_kind cf = kind \<and>
       sc_status cf = ''open'' \<and> sc_local_operation_id cf = id_operation ids \<and>
       sync_conflicts d' = sync_conflicts d2 @ [cf]"
    "sync_roots d' = sync_roots d2" "assets d' = assets d2" "replicas d' = replicas d2"
    "users d' = users d2" "sync_items d' = sync_items d2"
    by (simp_all add: sql_insert_def) blast
qed

lemma record_applied_result:
  assumes "record_applied rt i ids payload op d2 = (x, c, d')"
  shows "x = op\<lparr>so_payload := payload\<rparr>" "c = None"
    "sync_operations d' = sql_update (\<lambda>y. so_id y = id_operation ids) (\<lambda>y. y\<lparr>so_payload := payload\<rparr>) (sync_operations d2)"
    "sync_conflicts d' = sync_conflicts d2" "sync_roots d' = sync_roots d2" "assets d' = assets d2"
    "replicas d' = replicas d2" "users d' = users d2" "sync_items d' = sync_items d2"
  using assms [unfolded record_applied_def prod.inject, THEN conjunct1, symmetric]
    assms [unfolded record_applied_def prod.inject, THEN conjunct2, THEN conjunct1, symmetric]
    assms [unfolded record_applied_def prod.inject, THEN conjunct2, THEN conjunct2, symmetric]
  by simp_all

lemma find_item_set_root [simp]: "find_item (set_root k f d) rid lid = find_item d rid lid"
  by (simp add: find_item_def)

lemma apply_one_cases:
  assumes run: "apply_one e now rt cl i ids d = (x, c, d')"
  obtains (stale) k where "conflict_kind_of i (find_item d (sr_id rt) (in_logical_id i)) = Some k"
      "record_conflict rt i ids k (find_item d (sr_id rt) (in_logical_id i)) (begin_operation rt cl i ids)
         (after_begin rt cl i ids d) = (x, c, d')"
  | (invalid) y d2 where "conflict_kind_of i (find_item d (sr_id rt) (in_logical_id i)) = None"
      "apply_item_operation e now rt (next_revision (sr_cursor rt + 1) (in_operation_id i)) cl i
         (find_item d (sr_id rt) (in_logical_id i)) (id_clone ids) (after_begin rt cl i ids d) = (Inl y, d2)"
      "record_conflict rt i ids ''invalid_transition'' (find_item d (sr_id rt) (in_logical_id i))
         (begin_operation rt cl i ids) d2 = (x, c, d')"
  | (applied) p d2 where "conflict_kind_of i (find_item d (sr_id rt) (in_logical_id i)) = None"
      "apply_item_operation e now rt (next_revision (sr_cursor rt + 1) (in_operation_id i)) cl i
         (find_item d (sr_id rt) (in_logical_id i)) (id_clone ids) (after_begin rt cl i ids d) = (Inr p, d2)"
      "record_applied rt i ids p (begin_operation rt cl i ids) d2 = (x, c, d')"
proof -
  have d1: "(set_root (sr_id rt) (\<lambda>r. r\<lparr>sr_cursor := sr_cursor rt + 1\<rparr>) d)\<lparr>sync_operations :=
      sql_insert (begin_operation rt cl i ids) (sync_operations (set_root (sr_id rt) (\<lambda>r. r\<lparr>sr_cursor := sr_cursor rt + 1\<rparr>) d))\<rparr> =
      after_begin rt cl i ids d"
    by (simp add: after_begin_def)
  note run' = run [unfolded apply_one_def Let_def find_item_set_root d1]
  show ?thesis
  proof (cases "conflict_kind_of i (find_item d (sr_id rt) (in_logical_id i))")
    case (Some k)
    from run' [unfolded Some option.case] show ?thesis by (rule stale [OF Some])
  next
    case None
    obtain r d2 where op: "apply_item_operation e now rt (next_revision (sr_cursor rt + 1) (in_operation_id i)) cl i
         (find_item d (sr_id rt) (in_logical_id i)) (id_clone ids) (after_begin rt cl i ids d) = (r, d2)"
      by (rule prod.exhaust)
    note run'' = run' [unfolded None option.case op prod.case]
    show ?thesis
    proof (cases r)
      case (Inl y)
      from run'' [unfolded Inl sum.case] show ?thesis by (rule invalid [OF None op [unfolded Inl]])
    next
      case (Inr p)
      from run'' [unfolded Inr sum.case] show ?thesis by (rule applied [OF None op [unfolded Inr]])
    qed
  qed
qed

text \<open>What every new operation adds to the journal.\<close>

lemma apply_one_journal:
  assumes run: "apply_one e now rt cl i ids d = (x, c, d')" and new: "id_operation ids \<notin> so_id ` set (sync_operations d)"
  shows "sync_operations d' = sync_operations d @ [x]"
    "sync_roots d' = sql_update (\<lambda>r. sr_id r = sr_id rt) (\<lambda>r. r\<lparr>sr_cursor := sr_cursor rt + 1\<rparr>) (sync_roots d)"
    "users d' = users d"
    "so_id x = id_operation ids" "so_root_id x = sr_id rt" "so_cursor x = sr_cursor rt + 1" "so_client_id x = cl"
    "so_client_sequence x = in_client_sequence i" "so_operation_id x = in_operation_id i"
    "so_revision x = Some (next_revision (sr_cursor rt + 1) (in_operation_id i))"
proof -
  let ?op = "begin_operation rt cl i ids"
  have app: "sql_update (\<lambda>y. so_id y = id_operation ids) f (sql_insert ?op (sync_operations d)) = sync_operations d @ [f ?op]" for f
  proof -
    have "sql_update (\<lambda>y. so_id y = id_operation ids) f (sync_operations d) = sync_operations d"
      using new by (intro sql_update_noop) (metis imageI)
    then show ?thesis by (simp add: sql_insert_def sql_update_def begin_operation_def)
  qed
  have main: "sync_operations d' = sync_operations d @ [x] \<and>
     sync_roots d' = sql_update (\<lambda>r. sr_id r = sr_id rt) (\<lambda>r. r\<lparr>sr_cursor := sr_cursor rt + 1\<rparr>) (sync_roots d) \<and>
     users d' = users d \<and> (\<exists>s p. x = ?op\<lparr>so_status := s, so_payload := p\<rparr>)"
    using run
  proof (cases rule: apply_one_cases)
    case (stale k)
    note R = record_conflict_result [OF stale(2)]
    from R(1) obtain p where "x = ?op\<lparr>so_status := ''conflict'', so_payload := p\<rparr>"
      "sync_operations d' = sync_operations d @ [x]" using app by auto
    with R show ?thesis by auto
  next
    case (invalid y d2)
    note R = record_conflict_result [OF invalid(3)]
    from apply_item_same_journal [OF invalid(2)] have "sync_operations d2 = sql_insert ?op (sync_operations d)"
      "sync_roots d2 = sync_roots (after_begin rt cl i ids d)" "users d2 = users d" by (simp_all add: same_journal_def)
    moreover from this R(1) obtain p where "x = ?op\<lparr>so_status := ''conflict'', so_payload := p\<rparr>"
      "sync_operations d' = sync_operations d @ [x]" using app by auto
    ultimately show ?thesis using R by auto
  next
    case (applied p d2)
    note R = record_applied_result [OF applied(3)]
    from apply_item_same_journal [OF applied(2)] have "sync_operations d2 = sql_insert ?op (sync_operations d)"
      "sync_roots d2 = sync_roots (after_begin rt cl i ids d)" "users d2 = users d" by (simp_all add: same_journal_def)
    moreover have "x = ?op\<lparr>so_status := ''applied'', so_payload := p\<rparr>"
      using R(1) by (simp add: begin_operation_def)
    ultimately show ?thesis using R app by auto
  qed
  then show "sync_operations d' = sync_operations d @ [x]"
    "sync_roots d' = sql_update (\<lambda>r. sr_id r = sr_id rt) (\<lambda>r. r\<lparr>sr_cursor := sr_cursor rt + 1\<rparr>) (sync_roots d)"
    "users d' = users d"
    "so_id x = id_operation ids" "so_root_id x = sr_id rt" "so_cursor x = sr_cursor rt + 1" "so_client_id x = cl"
    "so_client_sequence x = in_client_sequence i" "so_operation_id x = in_operation_id i"
    "so_revision x = Some (next_revision (sr_cursor rt + 1) (in_operation_id i))"
    by (auto simp: begin_operation_def)
qed

section \<open>The journal invariant\<close>

definition si_key :: "sync_item \<Rightarrow> uuid \<times> uuid" where
  "si_key s = (si_root_id s, si_logical_id s)"

definition journal_ok :: "db \<Rightarrow> bool" where
  "journal_ok d \<longleftrightarrow> distinct (map sr_id (sync_roots d)) \<and>
     distinct (map so_id (sync_operations d)) \<and> distinct (map so_operation_id (sync_operations d)) \<and>
     distinct (map (\<lambda>x. (so_root_id x, so_client_id x, so_client_sequence x)) (sync_operations d)) \<and>
     distinct (map (\<lambda>x. (so_root_id x, so_cursor x)) (sync_operations d)) \<and>
     (\<forall>x \<in> set (sync_operations d). \<exists>r \<in> set (sync_roots d). sr_id r = so_root_id x \<and> so_cursor x \<le> sr_cursor r) \<and>
     distinct (map si_key (sync_items d))"

definition sync_ok :: "db \<Rightarrow> bool" where
  "sync_ok d \<longleftrightarrow> journal_ok d \<and> catalog_ok d"

definition fresh_inputs :: "(sync_input \<times> sync_ids) list \<Rightarrow> db \<Rightarrow> bool" where
  "fresh_inputs inputs d \<longleftrightarrow>
     distinct (map (id_operation \<circ> snd) inputs) \<and> distinct (map (id_clone \<circ> snd) inputs) \<and>
     (\<forall>p \<in> set inputs. id_operation (snd p) \<notin> so_id ` set (sync_operations d) \<and>
        id_clone (snd p) \<notin> a_id ` set (assets d))"

lemma update_item_keys: "(\<And>s. si_key (f s) = si_key s) \<Longrightarrow> map si_key (sync_items (update_item r l f d)) = map si_key (sync_items d)"
  by (simp add: update_item_def map_sql_update)

lemma find_item_None: "find_item d r l = None \<Longrightarrow> (r, l) \<notin> si_key ` set (sync_items d)"
  by (auto simp: find_item_def sql_first_None si_key_def)

lemma find_item_Some: "find_item d r l = Some s \<Longrightarrow> s \<in> set (sync_items d) \<and> si_root_id s = r \<and> si_logical_id s = l"
  by (auto simp: find_item_def)

lemma apply_item_keys:
  assumes run: "apply_item_operation e now rt rv cl i item cid d = (res, d')"
  shows "map si_key (sync_items d') = map si_key (sync_items d) \<or>
    item = None \<and> map si_key (sync_items d') = map si_key (sync_items d) @ [(sr_id rt, in_logical_id i)]"
proof (cases "in_kind i")
  case Upsert
  show ?thesis
  proof (cases "Option.bind (in_asset_id i) (active_asset d (sr_user_id rt))")
    case None
    with Upsert run show ?thesis by (auto simp: apply_item_operation_def Let_def split: option.splits)
  next
    case (Some a0)
    show ?thesis
    proof (cases "attach_asset now (sr_id rt) (sr_user_id rt) (in_logical_id i) item a0 cid d")
      case (Inl x)
      with Some Upsert run show ?thesis
        by (auto simp: apply_item_operation_def Let_def bind_eq_Some_conv split: option.splits)
    next
      case (Inr y)
      obtain a d1 where y: "y = (a, d1)" by (cases y)
      have items: "sync_items d1 = sync_items d" using attach_same_journal Inr y by blast
      have "map si_key (sync_items (update_item (sr_id rt) (in_logical_id i) (\<lambda>s. s\<lparr>si_asset_id := Some (a_id a),
          si_relative_path := path, si_revision := rv, si_deleted_at := None\<rparr>) d1)) = map si_key (sync_items d1)" for path
        by (rule update_item_keys) (simp add: si_key_def)
      with items Inr y Some Upsert run show ?thesis
        by (auto simp: apply_item_operation_def Let_def bind_eq_Some_conv sql_insert_def si_key_def split: option.splits)
    qed
  qed
next
  case Move
  have "map si_key (sync_items (update_item (sr_id rt) (in_logical_id i)
      (\<lambda>s. s\<lparr>si_relative_path := path, si_revision := rv\<rparr>) d)) = map si_key (sync_items d)" for path
    by (rule update_item_keys) (simp add: si_key_def)
  with Move run show ?thesis
    by (auto simp: apply_item_operation_def Let_def split: option.splits if_splits)
next
  case Delete
  have upd: "map si_key (sync_items (update_item (sr_id rt) (in_logical_id i)
      (\<lambda>s. s\<lparr>si_deleted_at := Some now, si_revision := rv\<rparr>) d1)) = map si_key (sync_items d1)" for d1
    by (rule update_item_keys) (simp add: si_key_def)
  show ?thesis
  proof (cases "Option.bind (Option.bind item si_asset_id) (active_asset d (sr_user_id rt))")
    case None
    with upd Delete run show ?thesis
      by (auto simp: apply_item_operation_def Let_def sql_insert_def si_key_def split: option.splits)
  next
    case (Some a)
    obtain r1 d1 where t: "trash_asset e now (a_id a) (''sync:'' @ cl) None d = (r1, d1)" by (rule prod.exhaust)
    from trash_same_journal [OF t] have "sync_items d1 = sync_items d" by simp
    with upd [of d1] Delete Some run t show ?thesis
      by (auto simp: apply_item_operation_def Let_def bind_eq_Some_conv split: sum.splits)
  qed
qed

lemma apply_one_items:
  assumes run: "apply_one e now rt cl i ids d = (x, c, d')" and "distinct (map si_key (sync_items d))"
  shows "distinct (map si_key (sync_items d'))"
proof -
  let ?item = "find_item d (sr_id rt) (in_logical_id i)"
  have step: "distinct (map si_key (sync_items d2))"
    if "apply_item_operation e now rt rv cl i ?item cid (after_begin rt cl i ids d) = (r, d2)" for rv cid r d2
    using apply_item_keys [OF that] find_item_None [of d "sr_id rt" "in_logical_id i"] assms(2)
    by auto
  from run show ?thesis
  proof (cases rule: apply_one_cases)
    case (stale k)
    from record_conflict_result(7) [OF stale(2)] assms(2) show ?thesis by simp
  next
    case (invalid y d2)
    from record_conflict_result(7) [OF invalid(3)] step [OF invalid(2)] show ?thesis by simp
  next
    case (applied p d2)
    from record_applied_result(9) [OF applied(3)] step [OF applied(2)] show ?thesis by simp
  qed
qed

lemma apply_one_catalog:
  assumes run: "apply_one e now rt cl i ids d = (x, c, d')" and ok: "catalog_ok d"
    and new: "id_clone ids \<notin> a_id ` set (assets d)"
  shows "catalog_ok d' \<and> a_id ` set (assets d') \<subseteq> insert (id_clone ids) (a_id ` set (assets d))"
proof -
  have ok1: "catalog_ok (after_begin rt cl i ids d)" using ok by (simp add: catalog_ok_def)
  have step: "catalog_ok d2 \<and> a_id ` set (assets d2) \<subseteq> insert (id_clone ids) (a_id ` set (assets d))"
    if "apply_item_operation e now rt rv cl i item (id_clone ids) (after_begin rt cl i ids d) = (r, d2)" for rv item r d2
    using apply_item_ok [OF that ok1] new by simp
  from run show ?thesis
  proof (cases rule: apply_one_cases)
    case (stale k)
    from record_conflict_result(4,5) [OF stale(2)] ok show ?thesis by (auto simp: catalog_ok_def)
  next
    case (invalid y d2)
    from record_conflict_result(4,5) [OF invalid(3)] step [OF invalid(2)] show ?thesis by (simp add: catalog_ok_def)
  next
    case (applied p d2)
    from record_applied_result(6,7) [OF applied(3)] step [OF applied(2)] show ?thesis by (simp add: catalog_ok_def)
  qed
qed

definition root_synced :: "db \<Rightarrow> sync_root \<Rightarrow> bool" where
  "root_synced d rt \<longleftrightarrow> (\<exists>r \<in> set (sync_roots d). sr_id r = sr_id rt \<and> sr_cursor r = sr_cursor rt)"

lemma cursor_below:
  assumes "journal_ok d" "root_synced d rt" "x \<in> set (sync_operations d)" "so_root_id x = sr_id rt"
  shows "so_cursor x \<le> sr_cursor rt"
proof -
  from assms obtain r r' where "r \<in> set (sync_roots d)" "sr_id r = sr_id rt" "so_cursor x \<le> sr_cursor r"
    "r' \<in> set (sync_roots d)" "sr_id r' = sr_id rt" "sr_cursor r' = sr_cursor rt"
    unfolding journal_ok_def root_synced_def by metis
  moreover have "distinct (map sr_id (sync_roots d))" using assms(1) by (simp add: journal_ok_def)
  ultimately show ?thesis using key_unique by metis
qed

lemma known_operation_None:
  assumes "known_operation d rid cl i = None"
  shows "in_operation_id i \<notin> so_operation_id ` set (sync_operations d)"
    "(rid, cl, in_client_sequence i) \<notin> (\<lambda>x. (so_root_id x, so_client_id x, so_client_sequence x)) ` set (sync_operations d)"
  using assms by (auto simp: known_operation_def sql_first_None split: option.splits)

lemma apply_one_ok:
  assumes run: "apply_one e now rt cl i ids d = (x, c, d')" and ok: "sync_ok d" and syn: "root_synced d rt"
    and fresh: "id_operation ids \<notin> so_id ` set (sync_operations d)" "id_clone ids \<notin> a_id ` set (assets d)"
    and unknown: "known_operation d (sr_id rt) cl i = None"
  shows "sync_ok d'" "root_synced d' (rt\<lparr>sr_cursor := sr_cursor rt + 1\<rparr>)"
proof -
  from ok have j: "journal_ok d" and c: "catalog_ok d" by (simp_all add: sync_ok_def)
  note J = apply_one_journal [OF run fresh(1)] and K = known_operation_None [OF unknown]
  from j have dist: "distinct (map sr_id (sync_roots d))" "distinct (map so_id (sync_operations d))"
    "distinct (map so_operation_id (sync_operations d))"
    "distinct (map (\<lambda>x. (so_root_id x, so_client_id x, so_client_sequence x)) (sync_operations d))"
    "distinct (map (\<lambda>x. (so_root_id x, so_cursor x)) (sync_operations d))"
    "distinct (map si_key (sync_items d))" by (simp_all add: journal_ok_def)
  have roots: "map sr_id (sync_roots d') = map sr_id (sync_roots d)" by (simp add: J(2) map_sql_update)
  have cur: "(sr_id rt, sr_cursor rt + 1) \<notin> (\<lambda>x. (so_root_id x, so_cursor x)) ` set (sync_operations d)"
    using cursor_below [OF j syn] by fastforce
  have bumped: "r\<lparr>sr_cursor := sr_cursor rt + 1\<rparr> \<in> set (sync_roots d')" if "r \<in> set (sync_roots d)" "sr_id r = sr_id rt" for r
    using that by (auto simp: J(2) set_sql_update)
  have others: "r \<in> set (sync_roots d')" if "r \<in> set (sync_roots d)" "sr_id r \<noteq> sr_id rt" for r
    using that by (auto simp: J(2) set_sql_update)
  from syn obtain r0 where r0: "r0 \<in> set (sync_roots d)" "sr_id r0 = sr_id rt" by (auto simp: root_synced_def)
  have bound: "\<exists>r \<in> set (sync_roots d'). sr_id r = so_root_id y \<and> so_cursor y \<le> sr_cursor r"
    if y: "y \<in> set (sync_operations d')" for y
  proof (cases "so_root_id y = sr_id rt")
    case True
    have "so_cursor y \<le> sr_cursor rt + 1"
      using y J(1,6) cursor_below [OF j syn _ True] by fastforce
    with bumped [OF r0] r0(2) True show ?thesis by (intro bexI) auto
  next
    case False
    with y J(1,5) have "y \<in> set (sync_operations d)" by auto
    with j obtain r where "r \<in> set (sync_roots d)" "sr_id r = so_root_id y" "so_cursor y \<le> sr_cursor r"
      by (auto simp: journal_ok_def)
    with others False show ?thesis by auto
  qed
  have "journal_ok d'"
    unfolding journal_ok_def roots using dist bound apply_one_items [OF run dist(6)] J K cur fresh(1) by simp
  moreover from apply_one_catalog [OF run c fresh(2)] have "catalog_ok d'" by simp
  ultimately show "sync_ok d'" by (simp add: sync_ok_def)
  from bumped [OF r0] r0(2) show "root_synced d' (rt\<lparr>sr_cursor := sr_cursor rt + 1\<rparr>)"
    unfolding root_synced_def by (intro bexI) auto
qed

lemma apply_one_fresh:
  assumes one: "apply_one e now rt cl i ids d = (x, c, d1)" and ok: "sync_ok d" and fresh: "fresh_inputs ((i, ids) # inputs) d"
  shows "fresh_inputs inputs d1"
proof -
  from fresh have new: "id_operation ids \<notin> so_id ` set (sync_operations d)" "id_clone ids \<notin> a_id ` set (assets d)"
    and tail: "fresh_inputs inputs d" by (simp_all add: fresh_inputs_def)
  note J = apply_one_journal [OF one new(1)]
  have "a_id ` set (assets d1) \<subseteq> insert (id_clone ids) (a_id ` set (assets d))"
    using apply_one_catalog [OF one _ new(2)] ok by (simp add: sync_ok_def)
  moreover have "so_id ` set (sync_operations d1) = insert (id_operation ids) (so_id ` set (sync_operations d))"
    using J(1,4) by simp
  moreover have "id_operation (snd q) \<noteq> id_operation ids \<and> id_clone (snd q) \<noteq> id_clone ids" if "q \<in> set inputs" for q
    using fresh that by (simp add: fresh_inputs_def image_iff) metis
  ultimately show ?thesis
    using tail unfolding fresh_inputs_def by blast
qed

lemma apply_loop_ok:
  assumes "apply_loop e now rt cl inputs d = (os, cs, d')" "sync_ok d" "root_synced d rt" "fresh_inputs inputs d"
  shows "sync_ok d' \<and> users d' = users d \<and> (\<exists>new. sync_operations d' = sync_operations d @ new \<and>
      (\<forall>x \<in> set new. so_root_id x = sr_id rt \<and> sr_cursor rt < so_cursor x) \<and>
      (\<exists>n \<ge> sr_cursor rt. sync_roots d' = sql_update (\<lambda>r. sr_id r = sr_id rt) (\<lambda>r. r\<lparr>sr_cursor := n\<rparr>) (sync_roots d)))"
  using assms
proof (induction inputs arbitrary: rt d os cs d')
  case Nil
  from Nil.prems(3) obtain r where r: "r \<in> set (sync_roots d)" "sr_id r = sr_id rt" "sr_cursor r = sr_cursor rt"
    by (auto simp: root_synced_def)
  have "distinct (map sr_id (sync_roots d))" using Nil.prems(2) by (simp add: sync_ok_def journal_ok_def)
  then have "x = r" if "x \<in> set (sync_roots d)" "sr_id x = sr_id rt" for x
    using key_unique that r by metis
  then have "sql_update (\<lambda>r. sr_id r = sr_id rt) (\<lambda>r. r\<lparr>sr_cursor := sr_cursor rt\<rparr>) (sync_roots d) = sync_roots d"
    unfolding sql_update_def using r(3) by (intro map_idI) auto
  with Nil.prems show ?case by auto
next
  case (Cons p inputs)
  obtain i ids where p: "p = (i, ids)" by (cases p)
  from Cons.prems(4) have tail: "fresh_inputs inputs d" by (simp add: fresh_inputs_def)
  show ?case
  proof (cases "known_operation d (sr_id rt) cl i")
    case (Some x)
    obtain os1 cs1 d1 where rec: "apply_loop e now rt cl inputs d = (os1, cs1, d1)" by (metis prod_cases3)
    with Cons.prems(1) p Some have "d' = d1" by simp
    with Cons.IH [OF rec Cons.prems(2,3) tail] show ?thesis by simp
  next
    case None
    obtain x c d1 where one: "apply_one e now rt cl i ids d = (x, c, d1)" by (metis prod_cases3)
    let ?rt = "rt\<lparr>sr_cursor := sr_cursor rt + 1\<rparr>"
    obtain os1 cs1 d2 where rec: "apply_loop e now ?rt cl inputs d1 = (os1, cs1, d2)" by (metis prod_cases3)
    from Cons.prems(1) p None one rec have d': "d' = d2" by simp
    from Cons.prems(4) p have new: "id_operation ids \<notin> so_id ` set (sync_operations d)" "id_clone ids \<notin> a_id ` set (assets d)"
      by (simp_all add: fresh_inputs_def)
    note J = apply_one_journal [OF one new(1)]
    note OK = apply_one_ok [OF one Cons.prems(2,3) new None]
    have "fresh_inputs inputs d1" by (rule apply_one_fresh [OF one Cons.prems(2) Cons.prems(4) [unfolded p]])
    from Cons.IH [OF rec OK this] obtain new n where IH: "sync_ok d2" "users d2 = users d1"
      "sync_operations d2 = sync_operations d1 @ new"
      "\<forall>x \<in> set new. so_root_id x = sr_id rt \<and> sr_cursor rt + 1 < so_cursor x" "sr_cursor rt + 1 \<le> n"
      "sync_roots d2 = sql_update (\<lambda>r. sr_id r = sr_id rt) (\<lambda>r. r\<lparr>sr_cursor := n\<rparr>) (sync_roots d1)" by auto
    have "sync_roots d2 = sql_update (\<lambda>r. sr_id r = sr_id rt) (\<lambda>r. r\<lparr>sr_cursor := n\<rparr>) (sync_roots d)"
      unfolding IH(6) J(2) by (simp add: sql_update_def)
    moreover have "sync_operations d2 = sync_operations d @ (x # new)" by (simp add: IH(3) J(1))
    moreover have "\<forall>y \<in> set (x # new). so_root_id y = sr_id rt \<and> sr_cursor rt < so_cursor y"
      using IH(4) J(5,6) by auto
    moreover have "users d2 = users d" using IH(2) J(3) by simp
    moreover have "sr_cursor rt \<le> n" using IH(5) by simp
    ultimately show ?thesis using IH(1) unfolding d' by blast
  qed
qed

text \<open>A transaction on one root: the operations it adds or changes are, unless they are rejected,
  beyond the cursor the root had before.\<close>

definition journal_grows :: "db \<Rightarrow> db \<Rightarrow> bool" where
  "journal_grows d d' \<longleftrightarrow>
     (\<forall>r \<in> set (sync_roots d). \<exists>r' \<in> set (sync_roots d'). sr_id r' = sr_id r \<and> sr_cursor r \<le> sr_cursor r') \<and>
     (\<forall>x \<in> set (sync_operations d'). x \<in> set (sync_operations d) \<or> so_status x = ''rejected'' \<or>
        (\<forall>r \<in> set (sync_roots d). sr_id r = so_root_id x \<longrightarrow> sr_cursor r < so_cursor x))"

lemma journal_grows_refl [simp]: "journal_grows d d"
  by (auto simp: journal_grows_def)

lemma journal_grows_trans:
  assumes "journal_grows d d1" "journal_grows d1 d2" "distinct (map sr_id (sync_roots d1))"
  shows "journal_grows d d2"
  unfolding journal_grows_def
proof (intro conjI ballI)
  fix r assume "r \<in> set (sync_roots d)"
  with assms(1) obtain r1 where "r1 \<in> set (sync_roots d1)" "sr_id r1 = sr_id r" "sr_cursor r \<le> sr_cursor r1"
    by (auto simp: journal_grows_def)
  moreover from this assms(2) obtain r2 where "r2 \<in> set (sync_roots d2)" "sr_id r2 = sr_id r1" "sr_cursor r1 \<le> sr_cursor r2"
    unfolding journal_grows_def by blast
  ultimately show "\<exists>r' \<in> set (sync_roots d2). sr_id r' = sr_id r \<and> sr_cursor r \<le> sr_cursor r'" by force
next
  fix x assume x: "x \<in> set (sync_operations d2)"
  show "x \<in> set (sync_operations d) \<or> so_status x = ''rejected'' \<or>
      (\<forall>r \<in> set (sync_roots d). sr_id r = so_root_id x \<longrightarrow> sr_cursor r < so_cursor x)"
  proof (cases "x \<in> set (sync_operations d1) \<or> so_status x = ''rejected''")
    case True
    with assms(1) show ?thesis unfolding journal_grows_def by blast
  next
    case False
    with assms(2) x have up: "\<And>r. r \<in> set (sync_roots d1) \<Longrightarrow> sr_id r = so_root_id x \<Longrightarrow> sr_cursor r < so_cursor x"
      unfolding journal_grows_def by blast
    have "sr_cursor r < so_cursor x" if r: "r \<in> set (sync_roots d)" "sr_id r = so_root_id x" for r
    proof -
      from assms(1) r(1) obtain r1 where "r1 \<in> set (sync_roots d1)" "sr_id r1 = sr_id r" "sr_cursor r \<le> sr_cursor r1"
        unfolding journal_grows_def by blast
      with up [of r1] r(2) show ?thesis by simp
    qed
    then show ?thesis by blast
  qed
qed

lemma set_root_other:
  assumes "\<And>r. sr_id (f r) = sr_id r \<and> sr_cursor (f r) = sr_cursor r" "sync_ok d"
  shows "sync_ok (set_root i f d)" "journal_grows d (set_root i f d)"
proof -
  have "\<exists>r' \<in> set (sync_roots (set_root i f d)). sr_id r' = sr_id r \<and> sr_cursor r \<le> sr_cursor r'"
    if "r \<in> set (sync_roots d)" for r
  proof -
    have "(if sr_id r = i then f r else r) \<in> set (sync_roots (set_root i f d))"
      using that by (auto simp: set_sql_update)
    then show ?thesis by (rule rev_bexI) (simp add: assms(1))
  qed
  then show "journal_grows d (set_root i f d)" by (simp add: journal_grows_def)
  have "map sr_id (sync_roots (set_root i f d)) = map sr_id (sync_roots d)"
    using assms(1) by (simp add: map_sql_update)
  moreover have "(\<exists>r \<in> set (sync_roots (set_root i f d)). sr_id r = k \<and> n \<le> sr_cursor r) =
      (\<exists>r \<in> set (sync_roots d). sr_id r = k \<and> n \<le> sr_cursor r)" for k n
    using assms(1) by (simp add: bex_sql_update)
  ultimately show "sync_ok (set_root i f d)"
    using assms(2) by (simp add: sync_ok_def journal_ok_def catalog_ok_def del: set_root_simps(1))
qed

lemma apply_operations_cases:
  assumes "apply_operations e now r cl inputs d = Inr (os, cs, d')"
  obtains rt d1 where "rt \<in> set (sync_roots d)" "sr_id rt = sr_id r" "sr_status rt = ''active''"
    "apply_loop e now rt cl inputs d = (os, cs, d1)"
    "d' = set_root (sr_id rt) (\<lambda>x. x\<lparr>sr_last_seen_at := Some now\<rparr>) d1"
proof -
  from assms obtain u rt where "active_user d (sr_user_id r) = Some u" and rt: "find_root d (sr_id r) (u_id u) = Some rt"
    by (auto simp: apply_operations_def split: option.splits)
  moreover obtain os1 cs1 d1 where loop: "apply_loop e now rt cl inputs d = (os1, cs1, d1)" by (metis prod_cases3)
  ultimately have "os = os1" "cs = cs1" "d' = set_root (sr_id rt) (\<lambda>x. x\<lparr>sr_last_seen_at := Some now\<rparr>) d1"
    using assms by (auto simp: apply_operations_def)
  with loop that [of rt d1] sql_first_Some [OF rt [unfolded find_root_def]] show ?thesis by simp
qed

lemma apply_operations_ok:
  assumes run: "apply_operations e now r cl inputs d = Inr (os, cs, d')" and ok: "sync_ok d" and fresh: "fresh_inputs inputs d"
  shows "sync_ok d' \<and> journal_grows d d'"
  using run
proof (cases rule: apply_operations_cases)
  case (1 rt d1)
  from 1(1) have syn: "root_synced d rt" by (auto simp: root_synced_def)
  from apply_loop_ok [OF 1(4) ok syn fresh] obtain new n where L: "sync_ok d1" "sync_operations d1 = sync_operations d @ new"
    "\<forall>x \<in> set new. so_root_id x = sr_id rt \<and> sr_cursor rt < so_cursor x" "sr_cursor rt \<le> n"
    "sync_roots d1 = sql_update (\<lambda>r. sr_id r = sr_id rt) (\<lambda>r. r\<lparr>sr_cursor := n\<rparr>) (sync_roots d)" by blast
  have "sync_ok d'" unfolding 1(5) by (rule set_root_other(1) [OF _ L(1)]) simp
  moreover have same: "z = rt" if "z \<in> set (sync_roots d)" "sr_id z = sr_id rt" for z
    using ok that 1(1) key_unique unfolding sync_ok_def journal_ok_def by metis
  have "\<exists>r' \<in> set (sync_roots d'). sr_id r' = sr_id z \<and> sr_cursor z \<le> sr_cursor r'" if z: "z \<in> set (sync_roots d)" for z
  proof -
    have "(if sr_id z = sr_id rt then z\<lparr>sr_cursor := n, sr_last_seen_at := Some now\<rparr> else z) \<in> set (sync_roots d')"
      using z by (auto simp: 1(5) L(5) sql_update_def)
    then show ?thesis by (rule rev_bexI) (use same [OF z] L(4) in auto)
  qed
  moreover have "x \<in> set (sync_operations d) \<or> so_status x = ''rejected'' \<or>
      (\<forall>r \<in> set (sync_roots d). sr_id r = so_root_id x \<longrightarrow> sr_cursor r < so_cursor x)" if "x \<in> set (sync_operations d')" for x
  proof (cases "x \<in> set (sync_operations d)")
    case False
    with that L(2) have "x \<in> set new" by (simp add: 1(5))
    with L(3) have "so_root_id x = sr_id rt" "sr_cursor rt < so_cursor x" by simp_all
    with same show ?thesis by metis
  qed simp
  ultimately show ?thesis by (simp add: journal_grows_def)
qed

section \<open>Conflict resolution\<close>

lemma keep_local_cases:
  assumes "keep_local e now rt x cid d = Inr d'"
  obtains i d1 payload where "retry_input x = Inr i"
    "apply_item_operation e now rt (case so_revision x of None \<Rightarrow> [] | Some r \<Rightarrow> r) (so_client_id x) i
       (find_item d (sr_id rt) (so_logical_id x)) cid d = (Inr payload, d1)"
    "d' = update_item (sr_id rt) (so_logical_id x)
       (\<lambda>s. s\<lparr>si_revision := next_revision (sr_cursor rt + 1) (so_operation_id x)\<rparr>)
       (set_operation (so_id x) (\<lambda>y. y\<lparr>so_payload := payload, so_cursor := sr_cursor rt + 1,
          so_revision := Some (next_revision (sr_cursor rt + 1) (so_operation_id x)), so_status := ''applied''\<rparr>)
       (set_root (sr_id rt) (\<lambda>r. r\<lparr>sr_cursor := sr_cursor rt + 1\<rparr>) d1))"
proof -
  from assms obtain i where i: "retry_input x = Inr i" by (auto simp: keep_local_def sbind_Inr_iff)
  obtain r d1 where op: "apply_item_operation e now rt (case so_revision x of None \<Rightarrow> [] | Some r \<Rightarrow> r) (so_client_id x) i
       (find_item d (sr_id rt) (so_logical_id x)) cid d = (r, d1)" by (rule prod.exhaust)
  note run = assms [unfolded keep_local_def i sbind_simps op prod.case Let_def]
  show ?thesis
  proof (cases r)
    case (Inl y)
    with run show ?thesis by simp
  next
    case (Inr p)
    from run [unfolded Inr sum.case] that [OF i op [unfolded Inr]] show ?thesis by simp
  qed
qed

lemma retry_input_logical: "retry_input x = Inr i \<Longrightarrow> in_logical_id i = so_logical_id x"
  by (auto simp: retry_input_def sbind_Inr_iff)

lemma keep_local_ok:
  assumes run: "keep_local e now rt x cid d = Inr d'" and ok: "sync_ok d" and rt: "rt \<in> set (sync_roots d)"
    and x: "x \<in> set (sync_operations d)" "so_root_id x = sr_id rt" and new: "cid \<notin> a_id ` set (assets d)"
  shows "sync_ok d' \<and> journal_grows d d'"
proof -
  from run obtain i d1 payload where i: "retry_input x = Inr i"
    and op: "apply_item_operation e now rt (case so_revision x of None \<Rightarrow> [] | Some r \<Rightarrow> r) (so_client_id x) i
       (find_item d (sr_id rt) (so_logical_id x)) cid d = (Inr payload, d1)"
    and d': "d' = update_item (sr_id rt) (so_logical_id x)
       (\<lambda>s. s\<lparr>si_revision := next_revision (sr_cursor rt + 1) (so_operation_id x)\<rparr>)
       (set_operation (so_id x) (\<lambda>y. y\<lparr>so_payload := payload, so_cursor := sr_cursor rt + 1,
          so_revision := Some (next_revision (sr_cursor rt + 1) (so_operation_id x)), so_status := ''applied''\<rparr>)
       (set_root (sr_id rt) (\<lambda>r. r\<lparr>sr_cursor := sr_cursor rt + 1\<rparr>) d1))"
    by (rule keep_local_cases)
  from ok have j: "journal_ok d" and c: "catalog_ok d" by (simp_all add: sync_ok_def)
  from apply_item_same_journal [OF op] have same: "sync_operations d1 = sync_operations d" "sync_roots d1 = sync_roots d"
    by (simp_all add: same_journal_def)
  define f where "f y = y\<lparr>so_payload := payload, so_cursor := sr_cursor rt + 1,
     so_revision := Some (next_revision (sr_cursor rt + 1) (so_operation_id x)), so_status := ''applied''\<rparr>" for y :: sync_operation
  have ops: "sync_operations d' = sql_update (\<lambda>y. so_id y = so_id x) f (sync_operations d)"
    and roots: "sync_roots d' = sql_update (\<lambda>r. sr_id r = sr_id rt) (\<lambda>r. r\<lparr>sr_cursor := sr_cursor rt + 1\<rparr>) (sync_roots d)"
    by (simp_all add: d' same f_def [abs_def])
  have ids: "distinct (map so_id (sync_operations d))" "distinct (map sr_id (sync_roots d))"
    using j by (simp_all add: journal_ok_def)
  have only: "y = x" if "y \<in> set (sync_operations d)" "so_id y = so_id x" for y
    using key_unique [OF ids(1) that(1) x(1) that(2)] .
  have onlyr: "r = rt" if "r \<in> set (sync_roots d)" "sr_id r = sr_id rt" for r
    using key_unique [OF ids(2) that(1) rt that(2)] .
  have low: "so_cursor y \<le> sr_cursor rt" if "y \<in> set (sync_operations d)" "so_root_id y = sr_id rt" for y
    using cursor_below [OF j _ that] rt by (auto simp: root_synced_def)
  have mem: "y = f x \<or> y \<in> set (sync_operations d) \<and> y \<noteq> x" if "y \<in> set (sync_operations d')" for y
  proof -
    from that obtain z where z: "z \<in> set (sync_operations d)" "y = (if so_id z = so_id x then f z else z)"
      by (auto simp: ops set_sql_update)
    with only [OF z(1)] show ?thesis by (cases "so_id z = so_id x") auto
  qed
  have keep: "map k (sync_operations d') = map k (sync_operations d)" if "\<And>y. k (f y) = k y" for k :: "sync_operation \<Rightarrow> 'b"
    unfolding ops using that by (rule map_sql_update)
  have m: "map so_id (sync_operations d') = map so_id (sync_operations d)"
    "map so_operation_id (sync_operations d') = map so_operation_id (sync_operations d)"
    "map (\<lambda>x. (so_root_id x, so_client_id x, so_client_sequence x)) (sync_operations d') =
       map (\<lambda>x. (so_root_id x, so_client_id x, so_client_sequence x)) (sync_operations d)"
    "map sr_id (sync_roots d') = map sr_id (sync_roots d)"
    by (simp_all add: keep f_def roots map_sql_update)
  have did': "distinct (map so_id (sync_operations d'))" using m(1) ids(1) by simp
  have cur: "distinct (map (\<lambda>x. (so_root_id x, so_cursor x)) (sync_operations d'))"
    unfolding distinct_map
  proof (intro conjI inj_onI)
    show "distinct (sync_operations d')" using did' by (simp add: distinct_map)
    have old: "y = z" if "y \<in> set (sync_operations d)" "z \<in> set (sync_operations d)"
        "(so_root_id y, so_cursor y) = (so_root_id z, so_cursor z)" for y z
      using j key_unique [of "\<lambda>x. (so_root_id x, so_cursor x)"] that unfolding journal_ok_def by blast
    have fx: "so_root_id (f x) = sr_id rt" "so_cursor (f x) = sr_cursor rt + 1" using x(2) by (simp_all add: f_def)
    fix y z assume yz: "y \<in> set (sync_operations d')" "z \<in> set (sync_operations d')"
      "(so_root_id y, so_cursor y) = (so_root_id z, so_cursor z)"
    have no: False if "w \<in> set (sync_operations d)" "(so_root_id w, so_cursor w) = (sr_id rt, sr_cursor rt + 1)" for w
      using low [OF that(1)] that(2) by simp
    show "y = z"
    proof (cases "y = f x \<or> z = f x")
      case True
      then have "(so_root_id y, so_cursor y) = (sr_id rt, sr_cursor rt + 1)" using yz(3) fx by auto
      with yz(3) no mem [OF yz(1)] mem [OF yz(2)] show ?thesis by metis
    next
      case False
      with mem [OF yz(1)] mem [OF yz(2)] old yz(3) show ?thesis by blast
    qed
  qed
  have bumped: "rt\<lparr>sr_cursor := sr_cursor rt + 1\<rparr> \<in> set (sync_roots d')"
    using rt by (auto simp: roots set_sql_update)
  have others: "r \<in> set (sync_roots d')" if "r \<in> set (sync_roots d)" "sr_id r \<noteq> sr_id rt" for r
    using that by (auto simp: roots set_sql_update)
  have bound: "\<exists>r \<in> set (sync_roots d'). sr_id r = so_root_id y \<and> so_cursor y \<le> sr_cursor r"
    if y: "y \<in> set (sync_operations d')" for y
  proof (cases "so_root_id y = sr_id rt")
    case True
    have "so_cursor y \<le> sr_cursor rt + 1" using mem [OF y] low True by (fastforce simp: f_def)
    with bumped True show ?thesis by (intro bexI) auto
  next
    case False
    with mem [OF y] x(2) have "y \<in> set (sync_operations d)" by (auto simp: f_def)
    with j obtain r where "r \<in> set (sync_roots d)" "sr_id r = so_root_id y" "so_cursor y \<le> sr_cursor r"
      by (auto simp: journal_ok_def)
    with others False show ?thesis by auto
  qed
  have "map si_key (sync_items d') = map si_key (sync_items d1)"
    unfolding d' by (simp add: si_key_def update_item_keys)
  moreover have "distinct (map si_key (sync_items d1))"
    using apply_item_keys [OF op] find_item_None [of d "sr_id rt" "so_logical_id x"] j retry_input_logical [OF i]
    by (auto simp: journal_ok_def)
  ultimately have "distinct (map si_key (sync_items d'))" by simp
  with j m cur bound have jo: "journal_ok d'" by (simp add: journal_ok_def)
  have "catalog_ok d1" using apply_item_ok [OF op c new] by simp
  then have "catalog_ok d'" by (simp add: d' catalog_ok_def)
  moreover have "\<exists>r' \<in> set (sync_roots d'). sr_id r' = sr_id z \<and> sr_cursor z \<le> sr_cursor r'" if z: "z \<in> set (sync_roots d)" for z
    using bumped others [OF z] onlyr [OF z] by (cases "sr_id z = sr_id rt") (auto intro: rev_bexI)
  moreover have "y \<in> set (sync_operations d) \<or> so_status y = ''rejected'' \<or>
      (\<forall>r \<in> set (sync_roots d). sr_id r = so_root_id y \<longrightarrow> sr_cursor r < so_cursor y)" if "y \<in> set (sync_operations d')" for y
  proof -
    have "sr_cursor r \<le> sr_cursor rt" if "r \<in> set (sync_roots d)" "sr_id r = sr_id rt" for r
      using onlyr [OF that] by simp
    with mem [OF that] x(2) show ?thesis by (auto simp: f_def)
  qed
  ultimately show ?thesis using jo by (simp add: sync_ok_def journal_grows_def)
qed

lemma resolve_cases:
  assumes "resolve_conflict e now conflict choice cid d = Inr (c', d')"
  obtains (closed) "d' = d" "sc_status c' \<noteq> ''open''"
  | (resolved) rt c x d1 t where "rt \<in> set (sync_roots d)" "c \<in> set (sync_conflicts d)" "sc_id c = sc_id conflict"
      "sc_status c = ''open''" "x \<in> set (sync_operations d)" "so_root_id x = sr_id rt" "so_id x = sc_local_operation_id c"
      "(if choice = ''keep_local'' then keep_local e now rt x cid d
        else Inr (set_operation (so_id x) (\<lambda>y. y\<lparr>so_status := ''rejected''\<rparr>) d)) = Inr d1"
      "c' = c\<lparr>sc_status := ''resolved'', sc_resolution := Some choice, sc_resolved_at := Some now\<rparr>"
      "d' = audit (sr_user_id rt) ''sync.conflict_resolved'' t
         (set_conflict (sc_id c) (\<lambda>c. c\<lparr>sc_status := ''resolved'', sc_resolution := Some choice,
            sc_resolved_at := Some now\<rparr>) d1)"
proof -
  from assms obtain owner u rt c where o: "sql_first (\<lambda>r. sr_id r = sc_root_id conflict) (sync_roots d) = Some owner"
      "active_user d (sr_user_id owner) = Some u"
    and rt: "find_root d (sc_root_id conflict) (u_id u) = Some rt"
    and c: "sql_first (\<lambda>c. sc_id c = sc_id conflict \<and> sc_root_id c = sr_id rt) (sync_conflicts d) = Some c"
    by (auto simp: resolve_conflict_def split: option.splits)
  note run = assms [unfolded resolve_conflict_def o option.case rt c Let_def]
  from sql_first_Some [OF rt [unfolded find_root_def]] sql_first_Some [OF c]
  have mem: "rt \<in> set (sync_roots d)" "c \<in> set (sync_conflicts d)" "sc_id c = sc_id conflict" by simp_all
  show ?thesis
  proof (cases "sc_status c = ''open''")
    case False
    with run closed show ?thesis by simp
  next
    case True
    with run obtain x where x: "sql_first (\<lambda>x. so_id x = sc_local_operation_id c \<and> so_root_id x = sr_id rt) (sync_operations d) = Some x"
      by (auto split: option.splits)
    note run = run [unfolded x option.case sbind_Inr_iff]
    from run True obtain d1 where d1: "(if choice = ''keep_local'' then keep_local e now rt x cid d
        else Inr (set_operation (so_id x) (\<lambda>y. y\<lparr>so_status := ''rejected''\<rparr>) d)) = Inr d1"
      and eqs: "c\<lparr>sc_status := ''resolved'', sc_resolution := Some choice, sc_resolved_at := Some now\<rparr> = c'"
        "audit (sr_user_id rt) ''sync.conflict_resolved'' [(''conflict_id'', juuid (sc_id c)), (''choice'', JStr choice),
           (''operation_id'', juuid (so_operation_id x))] (set_conflict (sc_id c) (\<lambda>c. c\<lparr>sc_status := ''resolved'',
            sc_resolution := Some choice, sc_resolved_at := Some now\<rparr>) d1) = d'"
      by (auto simp: sbind_Inr_iff)
    from sql_first_Some [OF x] show ?thesis
      using resolved [OF mem True _ _ _ d1 eqs(1) [symmetric] eqs(2) [symmetric]] by simp
  qed
qed

lemma set_status_ok:
  assumes "sync_ok d"
  shows "sync_ok (set_operation i (\<lambda>y. y\<lparr>so_status := ''rejected''\<rparr>) d)"
    "journal_grows d (set_operation i (\<lambda>y. y\<lparr>so_status := ''rejected''\<rparr>) d)"
proof -
  let ?d = "set_operation i (\<lambda>y. y\<lparr>so_status := ''rejected''\<rparr>) d"
  have keep: "map k (sync_operations ?d) = map k (sync_operations d)" if "\<And>y. k (y\<lparr>so_status := ''rejected''\<rparr>) = k y"
    for k :: "sync_operation \<Rightarrow> 'b"
    using that by (simp add: map_sql_update)
  have "(\<forall>x \<in> set (sync_operations ?d). Q x) = (\<forall>x \<in> set (sync_operations d). Q x)"
    if "\<And>y. Q (y\<lparr>so_status := ''rejected''\<rparr>) = Q y" for Q
    using that by (simp add: ball_sql_update)
  with assms show "sync_ok ?d"
    by (simp add: sync_ok_def journal_ok_def catalog_ok_def keep del: set_operation_simps(1))
  show "journal_grows d ?d"
    by (auto simp: journal_grows_def set_sql_update)
qed

lemma resolve_ok:
  assumes run: "resolve_conflict e now conflict choice cid d = Inr (c', d')" and ok: "sync_ok d"
    and new: "cid \<notin> a_id ` set (assets d)"
  shows "sync_ok d' \<and> journal_grows d d'"
  using run
proof (cases rule: resolve_cases)
  case (resolved rt c x d1 t)
  have "sync_ok d1 \<and> journal_grows d d1"
  proof (cases "choice = ''keep_local''")
    case True
    with resolved(8) have "keep_local e now rt x cid d = Inr d1" by simp
    from keep_local_ok [OF this ok resolved(1,5,6) new] show ?thesis .
  next
    case False
    with resolved(8) set_status_ok [OF ok] show ?thesis by auto
  qed
  then show ?thesis
    unfolding resolved(10) by (simp add: sync_ok_def journal_ok_def catalog_ok_def journal_grows_def)
qed (use ok in simp)

section \<open>Interleavings of clients\<close>

text \<open>Each request is one transaction; the root row is locked by the pushes and resolutions of
  that root, so requests of any number of clients are a sequence of these steps.  The premises
  on identifiers say that \<open>uuid4\<close> returns unused values.\<close>

inductive sync_step :: "env \<Rightarrow> db \<Rightarrow> db \<Rightarrow> bool" for e where
  push: "push_operations e now u rid cl inputs d = (res, d') \<Longrightarrow> fresh_inputs inputs d \<Longrightarrow> sync_step e d d'"
| resolve: "resolve_sync_conflict e now u cid choice clone_id d = (res, d') \<Longrightarrow>
    clone_id \<notin> a_id ` set (assets d) \<Longrightarrow> sync_step e d d'"
| register: "register_root now u name cl new_id d = (res, d') \<Longrightarrow> new_id \<notin> sr_id ` set (sync_roots d) \<Longrightarrow>
    sync_step e d d'"

lemma as_http_Inr [simp]: "as_http n m = Inr v \<longleftrightarrow> m = Inr v"
  by (cases m) (simp_all add: as_http_def)

lemma sync_step_ok:
  assumes "sync_step e d d'" "sync_ok d"
  shows "sync_ok d' \<and> journal_grows d d'"
  using assms(1)
proof cases
  case (push now u rid cl inputs res)
  show ?thesis
  proof (cases "sbind (owned_root d u rid) (\<lambda>r. as_http 409 (apply_operations e now r cl inputs d))")
    case (Inl x)
    with push(1) assms(2) show ?thesis by (simp add: push_operations_def)
  next
    case (Inr y)
    obtain os cs d1 where y: "y = (os, cs, d1)" by (metis prod_cases3)
    with Inr obtain r where "apply_operations e now r cl inputs d = Inr (os, cs, d1)"
      by (auto simp: sbind_Inr_iff)
    from apply_operations_ok [OF this assms(2) push(2)] push(1) Inr y show ?thesis
      by (simp add: push_operations_def)
  qed
next
  case (resolve now u cid choice clone_id res)
  then consider "d' = d" | c c' where "resolve_conflict e now c choice clone_id d = Inr (c', d')"
    by (auto simp: resolve_sync_conflict_def as_http_def split: option.splits sum.splits)
  then show ?thesis
    by cases (use assms(2) resolve_ok [OF _ assms(2) resolve(2)] in auto)
next
  case (register now u name cl new_id res)
  show ?thesis
  proof (cases "sql_first (\<lambda>r. sr_user_id r = u_id u \<and> sr_client_id r = cl) (sync_roots d)")
    case (Some r)
    with register(1) have d': "d' = set_root (sr_id r) (\<lambda>r. r\<lparr>sr_name := strip name\<rparr>) d"
      by (simp add: register_root_def)
    show ?thesis unfolding d' by (intro conjI set_root_other [OF _ assms(2)]) simp_all
  next
    case None
    define r where "r = \<lparr>sr_id = new_id, sr_user_id = u_id u, sr_name = strip name, sr_client_id = cl,
      sr_cursor = 0, sr_status = ''active'', sr_last_seen_at = None, sr_created_at = now\<rparr>"
    have r: "sr_id r = new_id" "d' = d\<lparr>sync_roots := sql_insert r (sync_roots d)\<rparr>"
      using register(1) None by (simp_all add: register_root_def Let_def r_def)
    with register(2) assms(2) show ?thesis
      by (auto simp: sync_ok_def journal_ok_def catalog_ok_def journal_grows_def distinct_map_sql_insert set_sql_insert)
  qed
qed

lemma sync_steps_ok:
  assumes "(sync_step e)\<^sup>*\<^sup>* d d'" "sync_ok d"
  shows "sync_ok d' \<and> journal_grows d d'"
  using assms(1)
proof (induction rule: rtranclp_induct)
  case base
  then show ?case using assms(2) by simp
next
  case (step d1 d2)
  from sync_step_ok [OF step.hyps(2)] step.IH
  have "sync_ok d2" "journal_grows d1 d2" by simp_all
  moreover have "distinct (map sr_id (sync_roots d1))" using step.IH by (simp add: sync_ok_def journal_ok_def)
  ultimately show ?case using step.IH journal_grows_trans by blast
qed

section \<open>Properties\<close>

text \<open>C10: Journal and catalogue stay consistent under any interleaving of pushes, conflict
  resolutions and registrations by any clients: operation ids, client sequence numbers and the
  cursors of a root are unique, no cursor exceeds its root's, each item of a root is unique,
  and a logical item keeps at most one active asset with unique version numbers.\<close>

theorem sync_invariant:
  assumes "(sync_step e)\<^sup>*\<^sup>* d d'" "sync_ok d"
  shows "sync_ok d'"
  using sync_steps_ok [OF assms] by simp


text \<open>An operation whose base revision is not the item's current one changes no item and no
  asset: it is journalled as a conflict and an open conflict record is returned.\<close>

theorem stale_operation_is_conflict:
  assumes "apply_one e now rt client_id i ids d = (x, c, d')"
    "find_item d (sr_id rt) (in_logical_id i) = Some it" "in_base_revision i \<noteq> Some (si_revision it)"
  shows "so_status x = ''conflict'' \<and> (\<exists>cf. c = Some cf \<and> sc_status cf = ''open'' \<and> cf \<in> set (sync_conflicts d')) \<and>
    assets d' = assets d \<and> sync_items d' = sync_items d"
proof -
  obtain k where k: "conflict_kind_of i (find_item d (sr_id rt) (in_logical_id i)) = Some k"
    using assms(2,3) by (simp add: conflict_kind_of_def)
  from assms(1) show ?thesis
  proof (cases rule: apply_one_cases)
    case (stale k')
    note R = record_conflict_result [OF stale(2)]
    from R(1,2,4,7) show ?thesis by auto
  qed (simp_all add: k)
qed

lemma known_operation_iff: "known_operation d rid cl i \<noteq> None \<longleftrightarrow>
    (\<exists>x \<in> set (sync_operations d). so_operation_id x = in_operation_id i \<or>
       so_root_id x = rid \<and> so_client_id x = cl \<and> so_client_sequence x = in_client_sequence i)"
proof (cases "sql_first (\<lambda>x. so_operation_id x = in_operation_id i) (sync_operations d)")
  case None
  then have "\<forall>x \<in> set (sync_operations d). so_operation_id x \<noteq> in_operation_id i" by (simp add: sql_first_None)
  then show ?thesis unfolding known_operation_def None option.case sql_first_not_None by blast
next
  case (Some x)
  then show ?thesis by (auto simp: known_operation_def)
qed

lemma known_operation_mono:
  "known_operation d rid cl i \<noteq> None \<Longrightarrow> set (sync_operations d) \<subseteq> set (sync_operations d') \<Longrightarrow>
   known_operation d' rid cl i \<noteq> None"
  unfolding known_operation_iff by blast

lemma apply_loop_known:
  assumes "apply_loop e now rt cl inputs d = (os, cs, d')" "sync_ok d" "root_synced d rt" "fresh_inputs inputs d"
  shows "\<forall>p \<in> set inputs. known_operation d' (sr_id rt) cl (fst p) \<noteq> None"
  using assms
proof (induction inputs arbitrary: rt d os cs d')
  case (Cons p inputs)
  obtain i ids where p: "p = (i, ids)" by (cases p)
  from Cons.prems(4) have tail: "fresh_inputs inputs d" by (simp add: fresh_inputs_def)
  show ?case
  proof (cases "known_operation d (sr_id rt) cl i")
    case (Some x)
    obtain os1 cs1 d1 where rec: "apply_loop e now rt cl inputs d = (os1, cs1, d1)" by (metis prod_cases3)
    with Cons.prems(1) p Some have d1: "d' = d1" by simp
    from apply_loop_ok [OF rec Cons.prems(2,3) tail] have "set (sync_operations d) \<subseteq> set (sync_operations d1)" by auto
    with Cons.IH [OF rec Cons.prems(2,3) tail] known_operation_mono [of d "sr_id rt" cl i d1] Some p d1
    show ?thesis by simp
  next
    case None
    obtain x c d1 where one: "apply_one e now rt cl i ids d = (x, c, d1)" by (metis prod_cases3)
    let ?rt = "rt\<lparr>sr_cursor := sr_cursor rt + 1\<rparr>"
    obtain os1 cs1 d2 where rec: "apply_loop e now ?rt cl inputs d1 = (os1, cs1, d2)" by (metis prod_cases3)
    from Cons.prems(1) p None one rec have d': "d' = d2" by simp
    from Cons.prems(4) p have new: "id_operation ids \<notin> so_id ` set (sync_operations d)" "id_clone ids \<notin> a_id ` set (assets d)"
      by (simp_all add: fresh_inputs_def)
    note J = apply_one_journal [OF one new(1)]
    note OK = apply_one_ok [OF one Cons.prems(2,3) new None]
    have fresh: "fresh_inputs inputs d1" by (rule apply_one_fresh [OF one Cons.prems(2) Cons.prems(4) [unfolded p]])
    have "known_operation d1 (sr_id rt) cl i \<noteq> None"
      using J(1,9) by (auto simp: known_operation_def sql_first_None split: option.splits)
    moreover from apply_loop_ok [OF rec OK fresh] have "set (sync_operations d1) \<subseteq> set (sync_operations d2)" by auto
    ultimately show ?thesis
      using Cons.IH [OF rec OK fresh] known_operation_mono p d' by auto
  qed
qed simp

lemma apply_loop_all_known:
  "\<forall>p \<in> set inputs. known_operation d (sr_id rt) cl (fst p) \<noteq> None \<Longrightarrow>
   \<exists>os. apply_loop e now rt cl inputs d = (os, [], d)"
proof (induction inputs)
  case (Cons p inputs)
  then show ?case by (cases p) (auto split: option.split)
qed simp

text \<open>Replaying a batch that was already processed, as a client does after losing the response,
  applies nothing again: no operation, conflict, item or asset changes and no cursor moves; only
  the time the root was last seen.\<close>

theorem replay_is_idempotent:
  assumes run: "apply_operations e now r cl inputs d = Inr (os, cs, d1)" and ok: "sync_ok d" and fresh: "fresh_inputs inputs d"
    and same: "map fst inputs' = map fst inputs"
  shows "\<exists>os'. apply_operations e now' r cl inputs' d1 =
    Inr (os', [], set_root (sr_id r) (\<lambda>x. x\<lparr>sr_last_seen_at := Some now'\<rparr>) d1)"
proof -
  from run obtain u rt where u: "active_user d (sr_user_id r) = Some u" and rt: "find_root d (sr_id r) (u_id u) = Some rt"
    by (auto simp: apply_operations_def split: option.splits)
  obtain os0 cs0 d0 where loop: "apply_loop e now rt cl inputs d = (os0, cs0, d0)" by (metis prod_cases3)
  have d1: "d1 = set_root (sr_id rt) (\<lambda>x. x\<lparr>sr_last_seen_at := Some now\<rparr>) d0"
    using run u rt loop by (simp add: apply_operations_def)
  from sql_first_Some [OF rt [unfolded find_root_def]] have mem: "rt \<in> set (sync_roots d)" "sr_id rt = sr_id r"
    "sr_user_id rt = u_id u" "sr_status rt = ''active''" by simp_all
  have syn: "root_synced d rt" using mem(1) by (auto simp: root_synced_def)
  from apply_loop_ok [OF loop ok syn fresh] obtain n where L: "users d0 = users d"
    "sync_roots d0 = sql_update (\<lambda>x. sr_id x = sr_id rt) (\<lambda>x. x\<lparr>sr_cursor := n\<rparr>) (sync_roots d)" by blast
  have u1: "active_user d1 (sr_user_id r) = Some u" using u by (simp add: active_user_def d1 L)
  have "find_root d1 (sr_id r) (u_id u) \<noteq> None"
  proof -
    have "rt\<lparr>sr_cursor := n, sr_last_seen_at := Some now\<rparr> \<in> set (sync_roots d1)"
      using mem(1) by (auto simp: d1 L(2) sql_update_def)
    with mem show ?thesis unfolding find_root_def sql_first_not_None by (intro bexI) auto
  qed
  then obtain rt1 where rt1: "find_root d1 (sr_id r) (u_id u) = Some rt1" by blast
  from sql_first_Some [OF rt1 [unfolded find_root_def]] have id1: "sr_id rt1 = sr_id r" by simp
  have "\<forall>p \<in> set inputs. known_operation d0 (sr_id rt) cl (fst p) \<noteq> None"
    by (rule apply_loop_known [OF loop ok syn fresh])
  moreover have kn: "known_operation d1 k cl i = known_operation d0 k cl i" for k i
  proof -
    have "sync_operations d1 = sync_operations d0" by (simp add: d1)
    then show ?thesis by (simp only: known_operation_def)
  qed
  ultimately have "\<forall>i \<in> set (map fst inputs'). known_operation d1 (sr_id rt1) cl i \<noteq> None"
    unfolding same using mem(2) id1 kn by simp
  then have "\<forall>p \<in> set inputs'. known_operation d1 (sr_id rt1) cl (fst p) \<noteq> None" by simp
  from apply_loop_all_known [OF this] obtain os' where "apply_loop e now' rt1 cl inputs' d1 = (os', [], d1)" by blast
  with u1 show ?thesis using rt1 id1 by (auto simp: apply_operations_def)
qed

lemma show_int_nonneg: "0 \<le> i \<Longrightarrow> show_int i = dec (nat i)"
  by (simp add: show_int_def)

text \<open>Revisions identify cursors: two operations of a root never carry the same revision
  string, whatever their operation ids, so that a base revision names one state of an item.\<close>

theorem next_revision_inj:
  assumes "next_revision c i = next_revision c' i'" "0 \<le> c" "0 \<le> c'"
  shows "c = c' \<and> take 12 (uuid_hex i) = take 12 (uuid_hex i')"
proof -
  have "CHR ''-'' \<notin> set (dec n)" for n using dec_digits [of n] by auto
  from split_at_unique [OF this this] assms have "dec (nat c) = dec (nat c')" "take 12 (uuid_hex i) = take 12 (uuid_hex i')"
    by (simp_all add: next_revision_def show_int_nonneg)
  with dec_inj [of "nat c" "nat c'"] assms(2,3) show ?thesis by simp
qed

text \<open>Resolving a conflict in favour of the local change re-issues the conflicted operation as the
  newest one of its root, and the item carries its revision: a client that has pulled it can go
  on from there without a conflict.\<close>

theorem keep_local_becomes_newest:
  assumes run: "keep_local e now rt x cid d = Inr d'" and ok: "sync_ok d" and rt: "rt \<in> set (sync_roots d)"
    and x: "x \<in> set (sync_operations d)" "so_root_id x = sr_id rt" and new: "cid \<notin> a_id ` set (assets d)"
  shows "\<exists>y \<in> set (sync_operations d'). so_id y = so_id x \<and> so_status y = ''applied'' \<and>
    (\<forall>z \<in> set (sync_operations d'). so_root_id z = sr_id rt \<longrightarrow> so_cursor z \<le> so_cursor y) \<and>
    (\<forall>it. find_item d' (sr_id rt) (so_logical_id x) = Some it \<longrightarrow> so_revision y = Some (si_revision it))"
proof -
  let ?rv = "next_revision (sr_cursor rt + 1) (so_operation_id x)"
  from run obtain i d1 payload where
    op: "apply_item_operation e now rt (case so_revision x of None \<Rightarrow> [] | Some r \<Rightarrow> r) (so_client_id x) i
       (find_item d (sr_id rt) (so_logical_id x)) cid d = (Inr payload, d1)"
    and d': "d' = update_item (sr_id rt) (so_logical_id x) (\<lambda>s. s\<lparr>si_revision := ?rv\<rparr>)
       (set_operation (so_id x) (\<lambda>y. y\<lparr>so_payload := payload, so_cursor := sr_cursor rt + 1,
          so_revision := Some ?rv, so_status := ''applied''\<rparr>)
       (set_root (sr_id rt) (\<lambda>r. r\<lparr>sr_cursor := sr_cursor rt + 1\<rparr>) d1))"
    by (rule keep_local_cases)
  let ?y = "x\<lparr>so_payload := payload, so_cursor := sr_cursor rt + 1, so_revision := Some ?rv, so_status := ''applied''\<rparr>"
  from apply_item_same_journal [OF op] have same: "sync_operations d1 = sync_operations d" "sync_roots d1 = sync_roots d"
    by (simp_all add: same_journal_def)
  from keep_local_ok [OF run ok rt x new] have ok': "journal_ok d'" by (simp add: sync_ok_def)
  have y: "?y \<in> set (sync_operations d')" using x(1) by (auto simp: d' same set_sql_update)
  have "rt\<lparr>sr_cursor := sr_cursor rt + 1\<rparr> \<in> set (sync_roots d')"
    using rt by (auto simp: d' same set_sql_update)
  then have syn: "root_synced d' (rt\<lparr>sr_cursor := sr_cursor rt + 1\<rparr>)"
    unfolding root_synced_def by (rule rev_bexI) simp
  have items: "sync_items d' = sql_update (\<lambda>s. si_root_id s = sr_id rt \<and> si_logical_id s = so_logical_id x)
      (\<lambda>s. s\<lparr>si_revision := ?rv\<rparr>) (sync_items d1)"
    by (simp add: d' update_item_def)
  have "si_revision it = ?rv" if "find_item d' (sr_id rt) (so_logical_id x) = Some it" for it
    using find_item_Some [OF that] unfolding items set_sql_update by auto
  with y cursor_below [OF ok' syn] show ?thesis by (intro bexI [OF _ y]) auto
qed

section \<open>Observations\<close>

text \<open>The lookup of an operation that was seen before is by operation id alone: it also returns an
  operation of another root, whoever owns that root, and the handler sends it, payload
  included, to the caller.\<close>

lemma duplicate_lookup_ignores_owner:
  assumes "x \<in> set (sync_operations d)" "distinct (map so_operation_id (sync_operations d))"
    "so_operation_id x = in_operation_id i"
  shows "known_operation d rid client_id i = Some x"
  using sql_first_key [OF assms(2,1)] assms(3) by (simp add: known_operation_def)

text \<open>The validator of \<open>relative_path\<close> rejects a parent reference at the start or in the middle of a
  path, and accepts the path \<open>..\<close> itself and a parent reference at the end.\<close>

lemma relative_path_only_examples:
  "relative_path_only (Some ''../a'') = Inl (ValueError ''relative_path must stay within the selected sync root'')"
  "relative_path_only (Some ''a/../b'') = Inl (ValueError ''relative_path must stay within the selected sync root'')"
  "relative_path_only (Some ''/a/b/'') = Inr (Some ''a/b'')"
  "relative_path_only (Some ''..'') = Inr (Some ''..'')"
  "relative_path_only (Some ''a/..'') = Inr (Some ''a/..'')"
  by code_simp+

text \<open>A delete of an item the root does not know records an item row that is not deleted.\<close>

lemma delete_unknown_item_is_live:
  assumes "in_kind i = Delete"
  shows "\<exists>s \<in> set (sync_items (snd (apply_item_operation e now rt rv cl i None cid d))).
    si_logical_id s = in_logical_id i \<and> si_deleted_at s = None"
  using assms by (simp add: apply_item_operation_def Let_def set_sql_insert)

section \<open>The properties on a concrete journal\<close>

definition sample_root :: sync_root where
  "sample_root = \<lparr>sr_id = 5, sr_user_id = 1, sr_name = ''Photos'', sr_client_id = ''laptop-1'', sr_cursor = 0,
     sr_status = ''active'', sr_last_seen_at = None, sr_created_at = 0\<rparr>"

definition sample_sync :: db where
  "sample_sync = empty_db\<lparr>users := [sample_user 1], assets := [sample_asset 10 1 ''/data/originals/a''],
     sync_roots := [sample_root]\<rparr>"

definition sample_input :: "sync_input \<times> sync_ids" where
  "sample_input = (\<lparr>in_operation_id = 40, in_client_sequence = 1, in_kind = Upsert, in_logical_id = 30,
      in_base_revision = None, in_relative_path = Some ''x.jpg'', in_asset_id = Some 10\<rparr>,
     \<lparr>id_operation = 41, id_clone = 42, id_conflict = 43\<rparr>)"

lemmas sample_sync_defs = sample_root_def sample_sync_def sample_input_def sample_defs

lemma sample_sync_ok [simp]: "sync_ok sample_sync" "fresh_inputs [sample_input] sample_sync"
  by (simp_all add: sync_ok_def journal_ok_def catalog_ok_def assets_ok_def fresh_inputs_def retention_ok_def sample_sync_defs)

abbreviation sample_pushed :: db where
  "sample_pushed \<equiv> snd (push_operations sample_env 100 (sample_user 1) 5 ''laptop-1'' [sample_input] sample_sync)"

lemma sample_push_step: "(sync_step sample_env)\<^sup>*\<^sup>* sample_sync sample_pushed"
  by (rule r_into_rtranclp, rule sync_step.push [OF prod.collapse [symmetric]]) simp

theorem sync_invariant_witness: "sync_ok sample_pushed"
  using sync_invariant [OF sample_push_step] by simp

lemma sample_pushed_facts:
  "length (sync_operations sample_pushed) = 1" "so_root_id (hd (sync_operations sample_pushed)) = 5"
  "so_status (hd (sync_operations sample_pushed)) = ''applied''"
  "\<not> isl (pull_operations (sample_user 1) 5 0 10 sample_pushed)"
  "length (fst (snd (projr (pull_operations (sample_user 1) 5 0 10 sample_pushed)))) = 1"
  by code_simp+


theorem stale_operation_is_conflict_witness:
  "\<exists>x c d'. apply_one sample_env 200 (sample_root\<lparr>sr_cursor := 1\<rparr>) ''laptop-2''
       ((fst sample_input)\<lparr>in_operation_id := 50\<rparr>) \<lparr>id_operation = 51, id_clone = 52, id_conflict = 53\<rparr> sample_pushed
       = (x, c, d') \<and> so_status x = ''conflict'' \<and> assets d' = assets sample_pushed"
proof -
  have "find_item sample_pushed 5 30 \<noteq> None"
    by code_simp
  then obtain it where it: "find_item sample_pushed (sr_id (sample_root\<lparr>sr_cursor := 1\<rparr>))
      (in_logical_id ((fst sample_input)\<lparr>in_operation_id := 50\<rparr>)) = Some it"
    by (auto simp: sample_root_def sample_input_def)
  obtain x c d' where run: "apply_one sample_env 200 (sample_root\<lparr>sr_cursor := 1\<rparr>) ''laptop-2''
       ((fst sample_input)\<lparr>in_operation_id := 50\<rparr>) \<lparr>id_operation = 51, id_clone = 52, id_conflict = 53\<rparr> sample_pushed
       = (x, c, d')" by (metis prod_cases3)
  have "in_base_revision ((fst sample_input)\<lparr>in_operation_id := 50\<rparr>) \<noteq> Some (si_revision it)"
    by (simp add: sample_input_def)
  from stale_operation_is_conflict [OF run it this] run show ?thesis by blast
qed

theorem replay_is_idempotent_witness:
  "\<exists>d1 os'. apply_operations sample_env 300 sample_root ''laptop-1'' [sample_input] d1 =
     Inr (os', [], set_root 5 (\<lambda>x. x\<lparr>sr_last_seen_at := Some 300\<rparr>) d1)"
proof -
  have "\<not> isl (apply_operations sample_env 100 sample_root ''laptop-1'' [sample_input] sample_sync)" by code_simp
  then obtain os cs d1 where
    "apply_operations sample_env 100 sample_root ''laptop-1'' [sample_input] sample_sync = Inr (os, cs, d1)"
    by (metis isl_def prod_cases3 sum.exhaust)
  from replay_is_idempotent [OF this sample_sync_ok refl, of 300] show ?thesis by (auto simp: sample_root_def)
qed

theorem next_revision_inj_witness: "next_revision 4 7 \<noteq> next_revision 5 7"
  using next_revision_inj [of 4 7 5 7] by auto

definition sample_conflicted :: db where
  "sample_conflicted = sample_sync\<lparr>sync_roots := [sample_root\<lparr>sr_cursor := 1\<rparr>],
     sync_operations := [(begin_operation sample_root ''laptop-1'' (fst sample_input) (snd sample_input))
       \<lparr>so_status := ''conflict'', so_payload := JObj [(''relative_path'', JStr ''x.jpg''), (''asset_id'', juuid 10)]\<rparr>]\<rparr>"

theorem keep_local_becomes_newest_witness:
  "\<exists>d'. keep_local sample_env 9 (sample_root\<lparr>sr_cursor := 1\<rparr>) (hd (sync_operations sample_conflicted)) 60 sample_conflicted = Inr d' \<and>
     (\<exists>y \<in> set (sync_operations d'). so_status y = ''applied'')"
proof -
  let ?x = "hd (sync_operations sample_conflicted)" and ?r = "sample_root\<lparr>sr_cursor := 1\<rparr>"
  have "\<not> isl (keep_local sample_env 9 ?r ?x 60 sample_conflicted)" by code_simp
  then obtain d' where run: "keep_local sample_env 9 ?r ?x 60 sample_conflicted = Inr d'"
    by (metis isl_def sum.exhaust)
  have ok: "sync_ok sample_conflicted" "?r \<in> set (sync_roots sample_conflicted)" "?x \<in> set (sync_operations sample_conflicted)"
    "so_root_id ?x = sr_id ?r" "60 \<notin> a_id ` set (assets sample_conflicted)"
    by (simp_all add: sample_conflicted_def begin_operation_def sync_ok_def journal_ok_def catalog_ok_def assets_ok_def
        retention_ok_def sample_sync_defs)
  from keep_local_becomes_newest [OF run ok] run show ?thesis by blast
qed

end
