(* ===== verification/Ledger.thy ===== *)
theory Ledger
  imports StoragePaths Sample
begin

text \<open>
  The suppression ledger of \<open>services/account_deletion.py\<close>: the markers that record accepted
  deletion requests outside the database, and the check \<open>reject_suppressed_account\<close> of
  \<open>core/security.py\<close> that every authentication makes against them.  A ledger directory is its
  list of files; the content of a file the process cannot read is \<open>None\<close>.
\<close>

section \<open>The ledger directory\<close>

datatype ledger = Missing | NotADirectory | Directory bool "(string \<times> bytes option) list"

text \<open>The first component of \<open>Directory\<close> tells whether the directory can be listed.\<close>

definition ledger_files :: "ledger \<Rightarrow> (string \<times> bytes option) list" where
  "ledger_files l = (case l of Directory b fs \<Rightarrow> fs | _ \<Rightarrow> [])"

definition ensure_suppression_ledger_ready ::
  "env \<Rightarrow> fs \<Rightarrow> bool option \<Rightarrow> ledger \<Rightarrow> exn + ledger" where
  "ensure_suppression_ledger_ready e f require_existing l =
     sbind (require_storage e f [''backups'']) (\<lambda>_.
       let required = (case require_existing of
              None \<Rightarrow> remote_access_enabled (cfg e) \<or> production_like e | Some b \<Rightarrow> b)
       in case l of
            Directory b fs \<Rightarrow> Inr l
          | NotADirectory \<Rightarrow> Inl (RuntimeError ''Account-deletion suppression ledger path is not a directory'')
          | Missing \<Rightarrow> if required
              then Inl (RuntimeError ''Account-deletion suppression ledger directory is missing'')
              else Inr (Directory True []))"

section \<open>Markers\<close>

definition suppression_key :: "env \<Rightarrow> string" where
  "suppression_key e = sha256 e (master_key e @ '':account-deletion:v1'')"

definition suppression_fingerprint :: "env \<Rightarrow> uuid \<Rightarrow> string" where
  "suppression_fingerprint e u = hmac e (suppression_key e) (uuid_bytes u)"

definition marker_tag :: "env \<Rightarrow> json \<Rightarrow> string" where
  "marker_tag e document = hmac e (suppression_key e) (dumps document)"

definition marker_name :: "uuid \<Rightarrow> string" where
  "marker_name job = uuid_str job @ ''.json''"

definition suppression_marker_path :: "env \<Rightarrow> uuid \<Rightarrow> string" where
  "suppression_marker_path e job = path_join (account_deletion_ledger_path e) (marker_name job)"

definition marker_body :: "env \<Rightarrow> uuid \<Rightarrow> uuid \<Rightarrow> time \<Rightarrow> (string \<times> json) list" where
  "marker_body e job subject requested_at =
     [(''job_id'', JStr (uuid_str job)), (''requested_at'', JStr (isoformat requested_at)),
      (''schema'', JInt 1), (''subject_fingerprint'', JStr (suppression_fingerprint e subject))]"

definition marker_document :: "env \<Rightarrow> uuid \<Rightarrow> uuid \<Rightarrow> time \<Rightarrow> json" where
  "marker_document e job subject requested_at =
     (let body = marker_body e job subject requested_at
      in JObj ((''authentication_tag'', JStr (marker_tag e (JObj body))) # body))"

definition marker_text :: "env \<Rightarrow> uuid \<Rightarrow> uuid \<Rightarrow> time \<Rightarrow> bytes" where
  "marker_text e job subject requested_at = dumps (marker_document e job subject requested_at) @ [CHR 0x0A]"

text \<open>The temporary file is removed on every path, so only the rename is visible; the last
  step, the synchronisation of the directory, may still fail after it.\<close>

definition write_suppression_marker ::
  "env \<Rightarrow> fs \<Rightarrow> uuid \<Rightarrow> uuid \<Rightarrow> time \<Rightarrow> ledger \<Rightarrow> (exn + unit) \<times> ledger" where
  "write_suppression_marker e f job subject requested_at l =
     (case ensure_suppression_ledger_ready e f None l of
        Inl x \<Rightarrow> (Inl x, l)
      | Inr (Directory b fs) \<Rightarrow>
          (case map_of fs (marker_name job) of
             Some None \<Rightarrow> (Inl (OSError ''read''), Directory b fs)
           | Some (Some old) \<Rightarrow>
               if old \<noteq> marker_text e job subject requested_at
               then (Inl (RuntimeError ''Account-deletion suppression marker conflicts with durable evidence''),
                     Directory b fs)
               else (Inr (), Directory b fs)
           | None \<Rightarrow>
               if write_fails e (suppression_marker_path e job)
               then (Inl (OSError ''write''), Directory b fs)
               else
                 (let l' = Directory b (fs @ [(marker_name job, Some (marker_text e job subject requested_at))])
                  in if write_fails e (account_deletion_ledger_path e) then (Inl (OSError ''fsync''), l')
                     else (Inr (), l')))
      | Inr l' \<Rightarrow> (Inl (RuntimeError ''unreachable''), l'))"

section \<open>Reading the evidence\<close>

record deletion_marker =
  mk_job_id :: string
  mk_fingerprint :: string
  mk_requested_at :: string

text \<open>The checks on one file: it parses, its job id is a UUID and its date a date, the
  fingerprint is a digest and the authentication tag fits the rest of the document.  Every
  exception these steps raise is handled alike.\<close>

definition authentic_fields :: "env \<Rightarrow> (string \<times> json) list \<Rightarrow> deletion_marker option" where
  "authentic_fields e kvs =
     (case (map_of kvs ''job_id'', map_of kvs ''requested_at'', map_of kvs ''subject_fingerprint'',
            map_of kvs ''authentication_tag'') of
        (Some j, Some r, Some fp, Some tag) \<Rightarrow>
          if parse_uuid (py_str j) \<noteq> None \<and> parse_iso e (py_str r) \<noteq> None \<and>
             map_of kvs ''schema'' \<in> {Some (JInt 1), Some (JBool True), Some (JFloat ''1.0'')} \<and> length (py_str fp) = 64 \<and>
             py_str tag = marker_tag e (JObj (filter (\<lambda>kv. fst kv \<noteq> ''authentication_tag'') kvs))
          then Some \<lparr>mk_job_id = py_str j, mk_fingerprint = py_str fp, mk_requested_at = py_str r\<rparr>
          else None
      | _ \<Rightarrow> None)"

definition authentic_marker :: "env \<Rightarrow> bytes option \<Rightarrow> deletion_marker option" where
  "authentic_marker e content =
     (case content of None \<Rightarrow> None
      | Some raw \<Rightarrow>
          (case decode_text e raw of None \<Rightarrow> None
           | Some text \<Rightarrow>
               (case json_loads e text of
                  Some (JObj kvs) \<Rightarrow> authentic_fields e kvs
                | _ \<Rightarrow> None)))"

fun collect_markers :: "env \<Rightarrow> (string \<times> bytes option) list \<Rightarrow> (string \<times> string) list \<Rightarrow>
    exn + deletion_marker list" where
  "collect_markers e [] seen = Inr []"
| "collect_markers e ((name, content) # fs) seen =
     (case authentic_marker e content of
        None \<Rightarrow> Inl (RuntimeError ''Account-deletion suppression ledger is invalid'')
      | Some m \<Rightarrow>
          (case map_of seen (mk_fingerprint m) of
             Some j \<Rightarrow>
               if j \<noteq> mk_job_id m
               then Inl (RuntimeError ''Account-deletion suppression ledger is invalid'')
               else sbind (collect_markers e fs seen) (\<lambda>ms. Inr (m # ms))
           | None \<Rightarrow> sbind (collect_markers e fs ((mk_fingerprint m, mk_job_id m) # seen))
                       (\<lambda>ms. Inr (m # ms))))"

definition read_suppression_markers :: "env \<Rightarrow> ledger \<Rightarrow> exn + deletion_marker list" where
  "read_suppression_markers e l =
     (case l of
        Missing \<Rightarrow>
          if remote_access_enabled (cfg e) \<or> production_like e
          then Inl (RuntimeError ''Account-deletion suppression ledger directory is missing'')
          else Inr []
      | NotADirectory \<Rightarrow> Inl (RuntimeError ''Account-deletion suppression ledger path is not a directory'')
      | Directory listable fs \<Rightarrow>
          if \<not> listable then Inl (RuntimeError ''Account-deletion suppression ledger cannot be read'')
          else collect_markers e (sort_key fst (filter (\<lambda>nc. suffix ''.json'' (fst nc)) fs)) [])"

definition suppression_subject_is_denied :: "env \<Rightarrow> ledger \<Rightarrow> uuid \<Rightarrow> exn + bool" where
  "suppression_subject_is_denied e l subject =
     sbind (read_suppression_markers e l) (\<lambda>ms.
       Inr (list_ex (\<lambda>m. mk_fingerprint m = suppression_fingerprint e subject) ms))"

definition reject_suppressed_account :: "env \<Rightarrow> ledger \<Rightarrow> uuid \<Rightarrow> exn + unit" where
  "reject_suppressed_account e l user_id =
     (case suppression_subject_is_denied e l user_id of
        Inl (RuntimeError m) \<Rightarrow>
          Inl (HTTPException 503 ''Account authorization is temporarily unavailable'')
      | Inl x \<Rightarrow> Inl x
      | Inr suppressed \<Rightarrow> require (\<not> suppressed) (HTTPException 401 ''Account is unavailable''))"

section \<open>Reading is all or nothing\<close>

lemma collect_markers_Inr:
  "collect_markers e fs seen = Inr ms \<Longrightarrow> map Some ms = map (authentic_marker e \<circ> snd) fs"
  by (induction e fs seen arbitrary: ms rule: collect_markers.induct)
    (auto simp: sbind_Inr_iff split: option.splits if_splits)

lemma collect_markers_Inl:
  "collect_markers e fs seen = Inl x \<Longrightarrow> x = RuntimeError ''Account-deletion suppression ledger is invalid''"
  by (induction e fs seen arbitrary: x rule: collect_markers.induct)
    (auto simp: sbind_Inl_iff split: option.splits if_splits)

lemma read_Inl: "read_suppression_markers e l = Inl x \<Longrightarrow> \<exists>m. x = RuntimeError m"
  by (auto simp: read_suppression_markers_def dest: collect_markers_Inl split: ledger.splits if_splits)

lemma reject_cases:
  obtains (unreadable) x where "read_suppression_markers e l = Inl x"
      "reject_suppressed_account e l u = Inl (HTTPException 503 ''Account authorization is temporarily unavailable'')"
  | (denied) ms m where "read_suppression_markers e l = Inr ms" "m \<in> set ms"
      "mk_fingerprint m = suppression_fingerprint e u"
      "reject_suppressed_account e l u = Inl (HTTPException 401 ''Account is unavailable'')"
  | (granted) ms where "read_suppression_markers e l = Inr ms"
      "\<forall>m \<in> set ms. mk_fingerprint m \<noteq> suppression_fingerprint e u"
      "reject_suppressed_account e l u = Inr ()"
proof (cases "read_suppression_markers e l")
  case (Inl x)
  then obtain m where "x = RuntimeError m" using read_Inl by blast
  with Inl unreadable show ?thesis
    by (auto simp: reject_suppressed_account_def suppression_subject_is_denied_def)
next
  case (Inr ms)
  show ?thesis
  proof (cases "list_ex (\<lambda>m. mk_fingerprint m = suppression_fingerprint e u) ms")
    case True
    with Inr show ?thesis
      by (auto simp: list_ex_iff reject_suppressed_account_def suppression_subject_is_denied_def intro!: denied)
  next
    case False
    with Inr show ?thesis
      by (auto simp: list_ex_iff reject_suppressed_account_def suppression_subject_is_denied_def intro!: granted)
  qed
qed

text \<open>The markers a readable ledger yields are exactly those of its files.\<close>

lemma read_markers_set:
  assumes "read_suppression_markers e l = Inr ms" "l \<noteq> Missing"
  shows "Some ` set ms = (authentic_marker e \<circ> snd) ` {nc \<in> set (ledger_files l). suffix ''.json'' (fst nc)}"
proof -
  from assms obtain fs where l: "l = Directory True fs"
    and run: "collect_markers e (sort_key fst (filter (\<lambda>nc. suffix ''.json'' (fst nc)) fs)) [] = Inr ms"
    by (auto simp: read_suppression_markers_def split: ledger.splits if_splits)
  from arg_cong [OF collect_markers_Inr [OF run], of set] show ?thesis
    by (simp add: l ledger_files_def)
qed

section \<open>A written marker is read back\<close>

text \<open>Documented behaviour of the codecs at one marker: the text decodes, \<open>json.loads\<close> inverts
  \<open>json.dumps\<close>, \<open>datetime.fromisoformat\<close> accepts what \<open>isoformat\<close> prints and a SHA-256
  hexdigest has 64 characters.\<close>

definition codec_ok :: "env \<Rightarrow> uuid \<Rightarrow> uuid \<Rightarrow> time \<Rightarrow> bool" where
  "codec_ok e job subject t \<longleftrightarrow>
     decode_text e (marker_text e job subject t) = Some (marker_text e job subject t) \<and>
     json_loads e (marker_text e job subject t) = Some (marker_document e job subject t) \<and>
     parse_iso e (isoformat t) \<noteq> None \<and> length (suppression_fingerprint e subject) = 64"

lemma authentic_written:
  assumes "codec_ok e job subject t"
  shows "authentic_marker e (Some (marker_text e job subject t)) =
    Some \<lparr>mk_job_id = uuid_str job, mk_fingerprint = suppression_fingerprint e subject,
          mk_requested_at = isoformat t\<rparr>"
  using assms
  by (simp add: codec_ok_def authentic_marker_def authentic_fields_def marker_document_def marker_body_def
      Let_def py_str_def parse_uuid_str)

definition holds_marker :: "env \<Rightarrow> uuid \<Rightarrow> uuid \<Rightarrow> time \<Rightarrow> ledger \<Rightarrow> bool" where
  "holds_marker e job subject t l \<longleftrightarrow>
     l \<noteq> Missing \<and> map_of (ledger_files l) (marker_name job) = Some (Some (marker_text e job subject t))"

lemma holds_marker_denied:
  assumes "holds_marker e job subject t l" "codec_ok e job subject t"
  shows "reject_suppressed_account e l subject \<noteq> Inr ()"
proof (cases rule: reject_cases [where e = e and l = l and u = subject])
  case (granted ms)
  let ?m = "\<lparr>mk_job_id = uuid_str job, mk_fingerprint = suppression_fingerprint e subject,
          mk_requested_at = isoformat t\<rparr>"
  from assms(1) have "(marker_name job, Some (marker_text e job subject t)) \<in> set (ledger_files l)"
    and l: "l \<noteq> Missing" by (auto simp: holds_marker_def dest: map_of_SomeD)
  moreover have "suffix ''.json'' (marker_name job)" by (simp add: marker_name_def suffix_def)
  ultimately have "Some ?m \<in> (authentic_marker e \<circ> snd) ` {nc \<in> set (ledger_files l). suffix ''.json'' (fst nc)}"
    using authentic_written [OF assms(2)] by force
  then have "Some ?m \<in> Some ` set ms" using read_markers_set [OF granted(1) l] by simp
  then have "?m \<in> set ms" by auto
  with granted(2) show ?thesis by auto
qed simp_all

text \<open>A write request, as any process of the installation may make it.\<close>

type_synonym marker_request = "fs \<times> uuid \<times> uuid \<times> time"

definition marker_write :: "env \<Rightarrow> marker_request \<Rightarrow> ledger \<Rightarrow> ledger" where
  "marker_write e q l = (case q of (f, job, subject, t) \<Rightarrow> snd (write_suppression_marker e f job subject t l))"

lemma ensure_ready_Inr:
  "ensure_suppression_ledger_ready e f x l = Inr l' \<Longrightarrow>
     (\<exists>b fs. l' = Directory b fs) \<and> (l \<noteq> Missing \<longrightarrow> l' = l)"
  by (auto simp: ensure_suppression_ledger_ready_def sbind_Inr_iff Let_def split: ledger.splits if_splits)

lemma write_Inr_holds:
  assumes "write_suppression_marker e f job subject t l = (Inr (), l')"
  shows "holds_marker e job subject t l'"
proof (cases "ensure_suppression_ledger_ready e f None l")
  case (Inl x)
  with assms show ?thesis by (simp add: write_suppression_marker_def)
next
  case (Inr r)
  then obtain b fs where "r = Directory b fs" using ensure_ready_Inr by blast
  with assms Inr show ?thesis
    by (auto simp: write_suppression_marker_def holds_marker_def ledger_files_def Let_def map_add_Some_iff
        split: option.splits if_splits)
qed

lemma marker_write_holds:
  assumes "holds_marker e job subject t l"
  shows "holds_marker e job subject t (marker_write e q l)"
proof -
  obtain f job' subject' t' where q: "q = (f, job', subject', t')" by (cases q)
  from assms have l: "l \<noteq> Missing" by (simp add: holds_marker_def)
  show ?thesis
  proof (cases "ensure_suppression_ledger_ready e f None l")
    case (Inl x)
    with assms q show ?thesis by (simp add: marker_write_def write_suppression_marker_def)
  next
    case (Inr r)
    with ensure_ready_Inr l obtain b fs where "r = Directory b fs" "l = Directory b fs" by blast
    with assms Inr q show ?thesis
      by (auto simp: marker_write_def write_suppression_marker_def holds_marker_def ledger_files_def Let_def
          map_add_Some_iff split: option.splits)
  qed
qed

interpretation marker_writes: invariant_steps "holds_marker e job subject t" "marker_write e"
  for e job subject t
  by unfold_locales (rule marker_write_holds)

definition one_job_each :: "deletion_marker list \<Rightarrow> bool" where
  "one_job_each ms \<longleftrightarrow>
     (\<forall>m \<in> set ms. \<forall>m' \<in> set ms. mk_fingerprint m = mk_fingerprint m' \<longrightarrow> mk_job_id m = mk_job_id m')"

lemma one_job_each_Cons:
  assumes "one_job_each ms" "\<And>x. x \<in> set ms \<Longrightarrow> mk_fingerprint x = mk_fingerprint m \<Longrightarrow> mk_job_id x = mk_job_id m"
  shows "one_job_each (m # ms)"
  unfolding one_job_each_def
proof (intro ballI impI)
  fix x y assume xy: "x \<in> set (m # ms)" "y \<in> set (m # ms)" "mk_fingerprint x = mk_fingerprint y"
  then consider "x = m" "y = m" | "x = m" "y \<in> set ms" | "x \<in> set ms" "y = m" | "x \<in> set ms" "y \<in> set ms"
    by auto
  then show "mk_job_id x = mk_job_id y"
  proof cases
    case 2 with assms(2) [of y] xy(3) show ?thesis by simp
  next
    case 3 with assms(2) [of x] xy(3) show ?thesis by simp
  next
    case 4 with assms(1) xy(3) show ?thesis unfolding one_job_each_def by blast
  qed simp
qed

lemma collect_consistent:
  "collect_markers e fs seen = Inr ms \<Longrightarrow>
     (\<forall>m j. m \<in> set ms \<longrightarrow> map_of seen (mk_fingerprint m) = Some j \<longrightarrow> mk_job_id m = j) \<and> one_job_each ms"
proof (induction e fs seen arbitrary: ms rule: collect_markers.induct)
  case (1 e seen)
  then show ?case by (simp add: one_job_each_def)
next
  case (2 e name content fs seen)
  from "2.prems" obtain m where m: "authentic_marker e content = Some m" by (auto split: option.splits)
  show ?case
  proof (cases "map_of seen (mk_fingerprint m)")
    case None
    with "2.prems" m obtain rest where rest: "ms = m # rest"
      "collect_markers e fs ((mk_fingerprint m, mk_job_id m) # seen) = Inr rest"
      by (auto simp: sbind_Inr_iff)
    note IH = "2.IH"(1) [OF m None rest(2)]
    have head: "mk_job_id x = mk_job_id m" if "x \<in> set rest" "mk_fingerprint x = mk_fingerprint m" for x
      using conjunct1 [OF IH, rule_format, of x "mk_job_id m"] that by simp
    have tail: "mk_job_id x = j" if x: "x \<in> set rest" and j: "map_of seen (mk_fingerprint x) = Some j" for x j
    proof -
      have "mk_fingerprint x \<noteq> mk_fingerprint m" using j None by auto
      with j have "map_of ((mk_fingerprint m, mk_job_id m) # seen) (mk_fingerprint x) = Some j" by simp
      with conjunct1 [OF IH] x show ?thesis by blast
    qed
    from one_job_each_Cons [OF conjunct2 [OF IH] head] tail None show ?thesis
      unfolding rest(1) by (metis option.distinct(1) set_ConsD)
  next
    case (Some j)
    with "2.prems" m obtain rest where rest: "ms = m # rest" "mk_job_id m = j"
      "collect_markers e fs seen = Inr rest"
      by (auto simp: sbind_Inr_iff split: if_splits)
    have IH: "(\<forall>m j. m \<in> set rest \<longrightarrow> map_of seen (mk_fingerprint m) = Some j \<longrightarrow> mk_job_id m = j) \<and> one_job_each rest"
      using "2.IH"(2) [OF m Some _ rest(3)] rest(2) by simp
    have head: "mk_job_id x = mk_job_id m" if "x \<in> set rest" "mk_fingerprint x = mk_fingerprint m" for x
      using conjunct1 [OF IH, rule_format, of x j] that Some rest(2) by simp
    from one_job_each_Cons [OF conjunct2 [OF IH] head] conjunct1 [OF IH] Some rest(2) show ?thesis
      unfolding rest(1) by (metis option.inject set_ConsD)
  qed
qed

lemma read_consistent:
  assumes "read_suppression_markers e l = Inr ms" "m \<in> set ms" "m' \<in> set ms"
    "mk_fingerprint m = mk_fingerprint m'"
  shows "mk_job_id m = mk_job_id m'"
proof (cases l)
  case (Directory b fs)
  with assms(1) have "collect_markers e (sort_key fst (filter (\<lambda>nc. suffix ''.json'' (fst nc)) fs)) [] = Inr ms"
    by (simp add: read_suppression_markers_def split: if_splits)
  from conjunct2 [OF collect_consistent [OF this]] assms(2-4) show ?thesis unfolding one_job_each_def by blast
qed (use assms in \<open>simp_all add: read_suppression_markers_def split: if_splits\<close>)

lemma held_marker_read:
  assumes "holds_marker e job subject t l" "codec_ok e job subject t" "read_suppression_markers e l = Inr ms"
  shows "\<lparr>mk_job_id = uuid_str job, mk_fingerprint = suppression_fingerprint e subject,
     mk_requested_at = isoformat t\<rparr> \<in> set ms" (is "?m \<in> _")
proof -
  from assms(1) have "(marker_name job, Some (marker_text e job subject t)) \<in> set (ledger_files l)"
    and l: "l \<noteq> Missing" by (auto simp: holds_marker_def dest: map_of_SomeD)
  moreover have "suffix ''.json'' (marker_name job)" by (simp add: marker_name_def suffix_def)
  ultimately have "Some ?m \<in> (authentic_marker e \<circ> snd) ` {nc \<in> set (ledger_files l). suffix ''.json'' (fst nc)}"
    using authentic_written [OF assms(2)] by force
  then have "Some ?m \<in> Some ` set ms" using read_markers_set [OF assms(3) l] by simp
  then show ?thesis by auto
qed

section \<open>Properties\<close>

text \<open>Once a deletion marker has been written successfully, no later marker write by any
  process, successful or not, lets the subject authenticate again.\<close>

theorem published_deletion_is_permanent:
  assumes "fst (write_suppression_marker e f job subject t l) = Inr ()" "codec_ok e job subject t"
  shows "reject_suppressed_account e
           (fold (marker_write e) later (snd (write_suppression_marker e f job subject t l))) subject \<noteq> Inr ()"
proof -
  from assms(1) have "holds_marker e job subject t (snd (write_suppression_marker e f job subject t l))"
    by (intro write_Inr_holds [of e f]) (auto simp: prod_eq_iff)
  then have "holds_marker e job subject t
      (fold (marker_write e) later (snd (write_suppression_marker e f job subject t l)))"
    by (rule marker_writes.fold_inv)
  then show ?thesis by (rule holds_marker_denied [OF _ assms(2)])
qed

text \<open>The check decides exactly: when it answers, every marker file of an existing ledger is
  authentic, and the account is denied if and only if one of them carries its fingerprint.\<close>

theorem suppression_check_exact:
  assumes "suppression_subject_is_denied e l subject = Inr b" "l \<noteq> Missing"
  shows "(b \<longleftrightarrow> (\<exists>(n, c) \<in> set (ledger_files l). suffix ''.json'' n \<and>
            (\<exists>m. authentic_marker e c = Some m \<and> mk_fingerprint m = suppression_fingerprint e subject))) \<and>
         (\<forall>(n, c) \<in> set (ledger_files l). suffix ''.json'' n \<longrightarrow> authentic_marker e c \<noteq> None)"
proof (intro conjI)
  from assms(1) obtain ms where ms: "read_suppression_markers e l = Inr ms"
    and b: "b = list_ex (\<lambda>m. mk_fingerprint m = suppression_fingerprint e subject) ms"
    by (auto simp: suppression_subject_is_denied_def sbind_Inr_iff)
  note eq = read_markers_set [OF ms assms(2)]
  have all: "\<exists>m \<in> set ms. authentic_marker e c = Some m"
    if "(n, c) \<in> set (ledger_files l)" "suffix ''.json'' n" for n c
  proof -
    have "authentic_marker e c \<in> Some ` set ms" unfolding eq using that by force
    then show ?thesis by auto
  qed
  then show "\<forall>(n, c) \<in> set (ledger_files l). suffix ''.json'' n \<longrightarrow> authentic_marker e c \<noteq> None"
    by fastforce
  have origin: "\<exists>(n, c) \<in> set (ledger_files l). suffix ''.json'' n \<and> authentic_marker e c = Some m" if "m \<in> set ms" for m
  proof -
    have "Some m \<in> (authentic_marker e \<circ> snd) ` {nc \<in> set (ledger_files l). suffix ''.json'' (fst nc)}"
      unfolding eq [symmetric] using that by simp
    then show ?thesis by force
  qed
  show "b \<longleftrightarrow> (\<exists>(n, c) \<in> set (ledger_files l). suffix ''.json'' n \<and>
      (\<exists>m. authentic_marker e c = Some m \<and> mk_fingerprint m = suppression_fingerprint e subject))"
    unfolding b list_ex_iff using all origin by fastforce
qed


text \<open>Two accepted requests for one account under different job ids leave a ledger that refuses
  every account of the installation.\<close>

lemma second_job_denies_everyone:
  assumes "write_suppression_marker e f job subject t l = (Inr (), l1)"
    "write_suppression_marker e f' job' subject t' l1 = (Inr (), l2)"
    "codec_ok e job subject t" "codec_ok e job' subject t'" "job \<noteq> job'"
  shows "reject_suppressed_account e l2 anyone =
     Inl (HTTPException 503 ''Account authorization is temporarily unavailable'')"
proof -
  have h1: "holds_marker e job subject t l2"
    using marker_write_holds [OF write_Inr_holds [OF assms(1)], of "(f', job', subject, t')"] assms(2)
    by (simp add: marker_write_def)
  have h2: "holds_marker e job' subject t' l2" by (rule write_Inr_holds [OF assms(2)])
  have False if "read_suppression_markers e l2 = Inr ms" for ms
  proof -
    from read_consistent [OF that held_marker_read [OF h1 assms(3) that] held_marker_read [OF h2 assms(4) that]]
    have "uuid_str job = uuid_str job'" by simp
    then have "Some job = Some job'" by (metis parse_uuid_str)
    with assms(5) show False by simp
  qed
  then show ?thesis by (cases rule: reject_cases [where e = e and l = l2 and u = anyone]) blast+
qed

section \<open>On a concrete ledger\<close>

definition ledger_codec :: env where
  "ledger_codec = sample_env\<lparr>hmac := (\<lambda>k m. take 64 (m @ replicate 64 (CHR ''0'')))\<rparr>"

definition ledger_env :: env where
  "ledger_env = ledger_codec\<lparr>json_loads := (\<lambda>s.
     if s = marker_text ledger_codec 100 1 0 then Some (marker_document ledger_codec 100 1 0)
     else None)\<rparr>"

lemma ledger_env_text [simp]:
  "marker_document ledger_env j u t = marker_document ledger_codec j u t"
  "marker_text ledger_env j u t = marker_text ledger_codec j u t"
  by (simp_all add: ledger_env_def marker_text_def marker_document_def marker_body_def marker_tag_def
      suppression_fingerprint_def suppression_key_def)

lemma sample_codec_ok: "codec_ok ledger_env 100 1 0"
  unfolding codec_ok_def ledger_env_text
  by (simp add: ledger_env_def ledger_codec_def sample_env_def suppression_fingerprint_def)

lemma sample_write:
  "write_suppression_marker ledger_env (sample_fs []) 100 1 0 Missing =
     (Inr (), Directory True [(marker_name 100, Some (marker_text ledger_env 100 1 0))])"
  by code_simp

theorem published_deletion_is_permanent_witness:
  "reject_suppressed_account ledger_env (fold (marker_write ledger_env) [(sample_fs [], 101, 2, 5)]
     (snd (write_suppression_marker ledger_env (sample_fs []) 100 1 0 Missing))) 1 \<noteq> Inr ()"
  by (rule published_deletion_is_permanent [OF _ sample_codec_ok]) (simp add: sample_write)

lemma sample_denied:
  "suppression_subject_is_denied ledger_env
     (Directory True [(marker_name 100, Some (marker_text ledger_env 100 1 0))]) 1 = Inr True"
  by code_simp

theorem suppression_check_exact_witness:
  "\<exists>(n, c) \<in> set (ledger_files (Directory True [(marker_name 100, Some (marker_text ledger_env 100 1 0))])).
     suffix ''.json'' n \<and> (\<exists>m. authentic_marker ledger_env c = Some m \<and>
       mk_fingerprint m = suppression_fingerprint ledger_env 1)"
  using suppression_check_exact [OF sample_denied] by simp


text \<open>A failing synchronisation of the directory is reported as a failed request although the
  marker is already in force.\<close>

lemma failed_request_is_in_force:
  "\<not> isl (suppression_subject_is_denied ledger_env
     (snd (write_suppression_marker (ledger_env\<lparr>write_fails := (\<lambda>p. p = account_deletion_ledger_path ledger_env)\<rparr>)
        (sample_fs []) 100 1 0 Missing)) 1) \<and>
   fst (write_suppression_marker (ledger_env\<lparr>write_fails := (\<lambda>p. p = account_deletion_ledger_path ledger_env)\<rparr>)
        (sample_fs []) 100 1 0 Missing) = Inl (OSError ''fsync'')"
  by code_simp

end
