(* ===== verification/Deletion.thy ===== *)
theory Deletion
  imports Lifecycle Ledger
begin

text \<open>
  The deletion jobs of \<open>services/account_deletion.py\<close>: staging a deletion with its lockout,
  replaying the suppression ledger, the leased job queue, one batch of the cleanup worker and
  the sweep of the account's directories, with the \<open>ON DELETE\<close> actions of the foreign keys.
  A rollback restores the database of the last commit but not the file system.
\<close>

section \<open>Staging a deletion\<close>

definition retry_delay :: "settings \<Rightarrow> int \<Rightarrow> int" where
  "retry_delay c attempt =
     min (account_deletion_retry_base_seconds c * 2 ^ nat (min (max (attempt - 1) 0) 10))
         (account_deletion_retry_max_seconds c)"

definition new_job :: "env \<Rightarrow> uuid \<Rightarrow> uuid \<Rightarrow> time \<Rightarrow> job" where
  "new_job e job_id subject now = \<lparr>j_id = job_id, j_subject_id = Some subject, j_status = JPending,
     j_attempt_count = 0, j_failure_count = 0, j_assets_purged = 0, j_uploads_purged = 0,
     j_retained_legacy_paths = 0, j_requested_at = now,
     j_not_before = now + account_deletion_quiescence_seconds (cfg e) * second,
     j_next_attempt_at = now, j_lease_token = None, j_lease_expires_at = None,
     j_last_error_code = None, j_last_error_at = None,
     j_suppression_review_after = now + days (database_backup_retention_days (cfg e)) +
        hours (database_backup_interval_hours (cfg e) + 1),
     j_completed_at = None\<rparr>"

text \<open>\<open>DELETE FROM albums\<close>, with the cascades to its associations, members and invites.\<close>

definition delete_albums :: "uuid \<Rightarrow> db \<Rightarrow> db" where
  "delete_albums u d =
     (let gone = map al_id (filter (\<lambda>a. al_user_id a = u) (albums d))
      in d\<lparr>albums := sql_delete (\<lambda>a. al_user_id a = u) (albums d),
           album_assets := sql_delete (\<lambda>x. aa_album_id x \<in> set gone) (album_assets d),
           album_members := sql_delete (\<lambda>x. am_album_id x \<in> set gone) (album_members d),
           album_invites := sql_delete (\<lambda>x. ai_album_id x \<in> set gone) (album_invites d)\<rparr>)"

definition revoke_sharing :: "uuid \<Rightarrow> string \<Rightarrow> db \<Rightarrow> db" where
  "revoke_sharing u email d =
     (let d = delete_albums u (d\<lparr>shares := sql_delete (\<lambda>s. sh_user_id s = u) (shares d)\<rparr>)
      in d\<lparr>album_invites := sql_delete (\<lambda>i. ai_invited_by i = u \<or> lower (ai_email i) = lower email)
             (album_invites d),
           album_members := sql_delete (\<lambda>m. am_user_id m = u) (album_members d)\<rparr>)"

text \<open>The nine credential tables; a deleted device or session also acts on the rows that refer
  to it.\<close>

definition destroy_credentials :: "uuid \<Rightarrow> db \<Rightarrow> db" where
  "destroy_credentials u d =
     (let gone_devices = map de_id (filter (\<lambda>x. de_user_id x = u) (devices d));
          gone_sessions = map as_id (filter (\<lambda>x. as_user_id x = u) (auth_sessions d));
          orphan = (\<lambda>s. case s of None \<Rightarrow> False | Some i \<Rightarrow> i \<in> set gone_sessions)
      in d\<lparr>account_tokens := sql_delete (\<lambda>x. at_user_id x = u \<or> orphan (at_session_id x)) (account_tokens d),
           challenges := sql_delete (\<lambda>x. ch_user_id x = Some u \<or> orphan (ch_session_id x)) (challenges d),
           passkeys := sql_delete (\<lambda>x. pk_user_id x = u) (passkeys d),
           recovery_codes := sql_delete (\<lambda>x. rc_user_id x = u) (recovery_codes d),
           identities := sql_delete (\<lambda>x. ei_user_id x = u) (identities d),
           devices := sql_delete (\<lambda>x. de_user_id x = u) (devices d),
           uploads := sql_update (\<lambda>x. case up_device_id x of None \<Rightarrow> False | Some i \<Rightarrow> i \<in> set gone_devices)
             (\<lambda>x. x\<lparr>up_device_id := None\<rparr>) (uploads d),
           pairing_codes := sql_delete (\<lambda>x. pc_user_id x = u) (pairing_codes d),
           nodes := sql_delete (\<lambda>x. nd_user_id x = u) (nodes d),
           auth_sessions := sql_delete (\<lambda>x. as_user_id x = u) (auth_sessions d)\<rparr>)"

definition redact_audit :: "uuid \<Rightarrow> db \<Rightarrow> db" where
  "redact_audit u d = d\<lparr>audit_events := sql_update (\<lambda>x. au_user_id x = Some u)
     (\<lambda>x. x\<lparr>au_ip_address := None, au_user_agent := None, au_detail := JNull\<rparr>) (audit_events d)\<rparr>"

definition lock_out :: "time \<Rightarrow> string \<Rightarrow> user \<Rightarrow> user" where
  "lock_out now nonce x = x\<lparr>u_disabled_at := Some now,
     u_email := ''deleted-'' @ uuid_hex (u_id x) @ ''@invalid.drivebound'',
     u_password_hash := ''!deleted!'' @ nonce, u_password_enabled := False, u_password_set_at := None,
     u_display_name := None, u_onboarding_completed_at := None, u_email_verified_at := None,
     u_totp_secret := None, u_totp_enabled_at := None, u_totp_last_used_step := None,
     u_pending_totp_secret := None, u_pending_totp_expires_at := None,
     u_pending_totp_session_id := None, u_media_key := None,
     u_media_key_version := u_media_key_version x + 1\<rparr>"

definition condemn :: "time \<Rightarrow> asset \<Rightarrow> asset" where
  "condemn now a = a\<lparr>a_lifecycle_state := Purging,
     a_trashed_at := (case a_trashed_at a of None \<Rightarrow> Some now | Some t \<Rightarrow> Some t),
     a_purge_after := Some now, a_deleted_by := Some ''account-deletion''\<rparr>"

definition prepare_account_deletion :: "env \<Rightarrow> time \<Rightarrow> uuid \<Rightarrow> string \<Rightarrow> user \<Rightarrow> db \<Rightarrow> job \<times> db" where
  "prepare_account_deletion e now job_id nonce u d =
     (case sql_first (\<lambda>j. j_subject_id j = Some (u_id u)) (jobs d) of
        Some j \<Rightarrow> (j, d)
      | None \<Rightarrow>
          (let j = new_job e job_id (u_id u) now;
               d = d\<lparr>jobs := sql_insert j (jobs d)\<rparr>;
               d = revoke_sharing (u_id u) (u_email u) d;
               d = destroy_credentials (u_id u) d;
               d = redact_audit (u_id u) d;
               d = audit (u_id u) ''account_deletion_requested''
                     [(''job_id'', juuid job_id), (''credentials_destroyed'', JBool True)] d
           in (j, d\<lparr>users := sql_update (\<lambda>x. u_id x = u_id u) (lock_out now nonce) (users d),
                    assets := sql_update (\<lambda>a. a_user_id a = u_id u) (condemn now) (assets d)\<rparr>)))"

text \<open>The ledger replay.  The dictionary of users by fingerprint keeps the last of equal keys.\<close>

fun reconcile_records :: "env \<Rightarrow> (uuid \<Rightarrow> string) \<Rightarrow> (string \<rightharpoonup> user) \<Rightarrow> deletion_marker list \<Rightarrow> db \<Rightarrow>
    (exn + uuid list) \<times> db" where
  "reconcile_records e nonce by_fp [] d = (Inr [], d)"
| "reconcile_records e nonce by_fp (m # ms) d =
     (case by_fp (mk_fingerprint m) of
        None \<Rightarrow> reconcile_records e nonce by_fp ms d
      | Some u \<Rightarrow>
          (case sql_first (\<lambda>x. u_id x = u_id u) (users d) of
             None \<Rightarrow> reconcile_records e nonce by_fp ms d
           | Some locked \<Rightarrow>
               (case (parse_uuid (mk_job_id m), parse_iso e (mk_requested_at m)) of
                  (Some job_id, Some requested_at) \<Rightarrow>
                    (case reconcile_records e nonce by_fp ms
                            (snd (prepare_account_deletion e requested_at job_id (nonce job_id) locked d)) of
                       (Inl x, d') \<Rightarrow> (Inl x, d')
                     | (Inr created, d') \<Rightarrow> (Inr (job_id # created), d'))
                | _ \<Rightarrow> (Inl (ValueError ''invalid marker''), d))))"

definition users_by_fingerprint :: "env \<Rightarrow> db \<Rightarrow> string \<rightharpoonup> user" where
  "users_by_fingerprint e d = map_of (rev (map (\<lambda>u. (suppression_fingerprint e (u_id u), u)) (users d)))"

definition missing_markers :: "db \<Rightarrow> deletion_marker list \<Rightarrow> deletion_marker list" where
  "missing_markers d ms = filter (\<lambda>m. parse_uuid (mk_job_id m) \<notin> Some ` set (map j_id (jobs d))) ms"

definition reconcile_suppression_ledger ::
  "env \<Rightarrow> ledger \<Rightarrow> (uuid \<Rightarrow> string) \<Rightarrow> db \<Rightarrow> (exn + uuid list) \<times> db" where
  "reconcile_suppression_ledger e l nonce d =
     (case read_suppression_markers e l of
        Inl x \<Rightarrow> (Inl x, d)
      | Inr ms \<Rightarrow> reconcile_records e nonce (users_by_fingerprint e d) (missing_markers d ms) d)"

section \<open>The job queue\<close>

definition set_job :: "uuid \<Rightarrow> (job \<Rightarrow> job) \<Rightarrow> db \<Rightarrow> db" where
  "set_job i g d = d\<lparr>jobs := sql_update (\<lambda>j. j_id j = i) g (jobs d)\<rparr>"

definition open_status :: "job_status \<Rightarrow> bool" where
  "open_status s \<longleftrightarrow> s \<in> {JPending, JQueued, JRetry, JRunning}"

definition claim_account_deletion_job ::
  "env \<Rightarrow> time \<Rightarrow> uuid \<Rightarrow> uuid \<Rightarrow> db \<Rightarrow> uuid option \<times> db" where
  "claim_account_deletion_job e now token job_id d =
     (case sql_first (\<lambda>j. j_id j = job_id) (jobs d) of
        None \<Rightarrow> (None, d)
      | Some j \<Rightarrow>
          if \<not> open_status (j_status j) \<or> j_not_before j > now \<or>
             (j_status j \<noteq> JQueued \<and> j_next_attempt_at j > now)
          then (None, d)
          else if j_status j = JRunning \<and>
                  (case j_lease_expires_at j of None \<Rightarrow> False | Some t \<Rightarrow> t > now)
          then (None, d)
          else (Some token, set_job job_id (\<lambda>j. j\<lparr>j_status := JRunning, j_lease_token := Some token,
                  j_lease_expires_at := Some (now + account_deletion_lease_seconds (cfg e) * second),
                  j_attempt_count := j_attempt_count j + 1, j_last_error_code := None\<rparr>) d))"

definition due_account_deletion_job_ids :: "time \<Rightarrow> nat \<Rightarrow> db \<Rightarrow> uuid list" where
  "due_account_deletion_job_ids now limit d =
     map j_id (take limit (sort_key j_next_attempt_at (sort_key j_requested_at
       (filter (\<lambda>j. open_status (j_status j) \<and> j_not_before j \<le> now \<and> j_next_attempt_at j \<le> now \<and>
          (j_status j \<noteq> JRunning \<or> (case j_lease_expires_at j of None \<Rightarrow> True | Some t \<Rightarrow> t \<le> now)))
         (jobs d)))))"

definition record_account_deletion_publish :: "env \<Rightarrow> time \<Rightarrow> uuid \<Rightarrow> bool \<Rightarrow> db \<Rightarrow> db" where
  "record_account_deletion_publish e now job_id published d =
     (case sql_first (\<lambda>j. j_id j = job_id) (jobs d) of
        None \<Rightarrow> d
      | Some j \<Rightarrow>
          if j_status j \<notin> {JPending, JQueued, JRetry} then d
          else if published
          then set_job job_id (\<lambda>j. j\<lparr>j_lease_token := None, j_lease_expires_at := None, j_status := JQueued,
                 j_next_attempt_at := now + account_deletion_lease_seconds (cfg e) * second,
                 j_last_error_code := None\<rparr>) d
          else set_job job_id (\<lambda>j. j\<lparr>j_lease_token := None, j_lease_expires_at := None, j_status := JRetry,
                 j_failure_count := j_failure_count j + 1, j_last_error_code := Some ''broker_publish_failed'',
                 j_last_error_at := Some now,
                 j_next_attempt_at := now + retry_delay (cfg e) (j_failure_count j + 1) * second\<rparr>) d)"

section \<open>Directories of the account\<close>

text \<open>What the operating system reports while a batch runs: the names in a directory, all paths
  below one, which paths are links or reparse points and which directories can be removed.\<close>

record scan =
  sc_list :: "string \<Rightarrow> string list"
  sc_tree :: "string \<Rightarrow> string list"
  sc_link :: "string \<Rightarrow> bool"
  sc_rmdir :: "string \<Rightarrow> bool"

definition owned_staging_paths_for_asset :: "env \<Rightarrow> fs \<Rightarrow> scan \<Rightarrow> uuid \<Rightarrow> uuid \<Rightarrow> string list" where
  "owned_staging_paths_for_asset e f sc asset_id user_id =
     (let account_root = path_join (resolve e (staging_path (cfg e))) (uuid_str user_id)
      in if \<not> is_dir e f account_root then []
         else filter (is_file e f) (map (path_join account_root)
                (filter (prefix (uuid_str asset_id @ ''.'')) (sc_list sc account_root))))"

definition live_values :: "db \<Rightarrow> string list" where
  "live_values d = concat (map (filter (\<lambda>p. p \<noteq> []) \<circ> asset_paths) (assets d)) @
     concat (map (filter (\<lambda>p. p \<noteq> []) \<circ> replica_paths) (replicas d)) @ map up_staging_path (uploads d)"

definition canonical_live_paths :: "env \<Rightarrow> db \<Rightarrow> string list" where
  "canonical_live_paths e d =
     map (canonical_storage_path e) (filter (\<lambda>v. \<not> prefix ''duplicate:'' v) (live_values d))"

definition rmdir :: "env \<Rightarrow> scan \<Rightarrow> string \<Rightarrow> fs \<Rightarrow> fs" where
  "rmdir e sc p f = (if sc_rmdir sc p then f\<lparr>dirs := (dirs f)(canonical e p := False)\<rparr> else f)"

text \<open>One candidate below a namespace: the count of retained paths grows; an exception leaves
  what was already removed.\<close>

definition sweep_candidate :: "env \<Rightarrow> db \<Rightarrow> scan \<Rightarrow> string \<Rightarrow> string \<Rightarrow> bool \<Rightarrow> string \<Rightarrow> nat \<Rightarrow> fs \<Rightarrow>
    (exn + nat) \<times> fs" where
  "sweep_candidate e d sc lexical rt replica_root c n f =
     (if sc_link sc c \<or> \<not> is_relative_to (canonical e c) lexical then (Inr (n + 1), f)
      else if is_file e f c
      then (if canonical_storage_path e c \<in> set (canonical_live_paths e d) then (Inr (n + 1), f)
            else (case safely_unlink_catalog_path e d f (canonical_storage_path e c) (Some rt) replica_root
                         None None None of
                    Inl x \<Rightarrow> (Inl x, f)
                  | Inr (removed, f') \<Rightarrow> (Inr (if removed then n else n + 1), f')))
      else if is_dir e f c
      then (case require_storage_path e f c of
              Inl x \<Rightarrow> (Inl x, f)
            | Inr _ \<Rightarrow> (Inr n, rmdir e sc c f))
      else (Inr n, f))"

fun sweep_candidates :: "env \<Rightarrow> db \<Rightarrow> scan \<Rightarrow> string \<Rightarrow> string \<Rightarrow> bool \<Rightarrow> string list \<Rightarrow> nat \<Rightarrow> fs \<Rightarrow>
    (exn + nat) \<times> fs" where
  "sweep_candidates e d sc lexical rt replica_root [] n f = (Inr n, f)"
| "sweep_candidates e d sc lexical rt replica_root (c # cs) n f =
     (case sweep_candidate e d sc lexical rt replica_root c n f of
        (Inl x, f) \<Rightarrow> (Inl x, f)
      | (Inr n, f) \<Rightarrow> sweep_candidates e d sc lexical rt replica_root cs n f)"

definition sweep_namespace :: "env \<Rightarrow> db \<Rightarrow> scan \<Rightarrow> string \<times> string \<times> bool \<Rightarrow> nat \<Rightarrow> fs \<Rightarrow> (exn + nat) \<times> fs" where
  "sweep_namespace e d sc ns n f =
     (case ns of (namespace, rt, replica_root) \<Rightarrow>
        (case require_storage_path e f namespace of
           Inl x \<Rightarrow> (Inl x, f)
         | Inr _ \<Rightarrow>
             if \<not> is_file e f namespace \<and> \<not> is_dir e f namespace then (Inr n, f)
             else if \<not> is_dir e f namespace then (Inr (n + 1), f)
             else if sc_link sc namespace \<or> canonical e namespace \<noteq> normcase e namespace
             then (Inr (n + 1), f)
             else (case sweep_candidates e d sc (normcase e namespace) rt replica_root
                          (sort_key (\<lambda>p. - int (length (path_parts p))) (sc_tree sc namespace)) n f of
                     (Inl x, f) \<Rightarrow> (Inl x, f)
                   | (Inr n, f) \<Rightarrow>
                       (case require_storage_path e f namespace of
                          Inl x \<Rightarrow> (Inl x, f)
                        | Inr _ \<Rightarrow> (Inr n, rmdir e sc namespace f)))))"

fun sweep_all :: "env \<Rightarrow> db \<Rightarrow> scan \<Rightarrow> (string \<times> string \<times> bool) list \<Rightarrow> nat \<Rightarrow> fs \<Rightarrow> (exn + nat) \<times> fs" where
  "sweep_all e d sc [] n f = (Inr n, f)"
| "sweep_all e d sc (ns # nss) n f =
     (case sweep_namespace e d sc ns n f of
        (Inl x, f) \<Rightarrow> (Inl x, f)
      | (Inr n, f) \<Rightarrow> sweep_all e d sc nss n f)"

definition account_namespaces :: "env \<Rightarrow> fs \<Rightarrow> scan \<Rightarrow> uuid \<Rightarrow> (string \<times> string \<times> bool) list" where
  "account_namespaces e f sc subject =
     (let sub = (\<lambda>rt p replica. (path_join p (uuid_str subject), rt, replica));
          originals = resolve e (originals_path (cfg e));
          derivatives = resolve e (derivatives_path (cfg e));
          staging = resolve e (staging_path (cfg e));
          kinds = (if is_dir e f derivatives
                   then filter (\<lambda>k. is_dir e f k \<and> \<not> sc_link sc k)
                          (map (path_join derivatives) (sc_list sc derivatives)) else [])
      in [sub originals originals False] @ map (\<lambda>k. sub derivatives k False) kinds @
         [sub staging staging False] @
         map (\<lambda>r. sub (resolve e r) (resolve e r) True) (replica_root_list e))"

definition linked_kinds :: "env \<Rightarrow> fs \<Rightarrow> scan \<Rightarrow> nat" where
  "linked_kinds e f sc =
     (let derivatives = resolve e (derivatives_path (cfg e))
      in if is_dir e f derivatives
         then length (filter (\<lambda>k. is_dir e f k \<and> sc_link sc k)
                (map (path_join derivatives) (sc_list sc derivatives))) else 0)"

definition MANAGED_ROLES :: "string list" where
  "MANAGED_ROLES = [''originals'', ''derivatives'', ''staging'', ''replicas'', ''backups'']"

definition sweep_account_namespaces :: "env \<Rightarrow> db \<Rightarrow> scan \<Rightarrow> uuid \<Rightarrow> fs \<Rightarrow> (exn + nat) \<times> fs" where
  "sweep_account_namespaces e d sc subject f =
     (case require_storage e f MANAGED_ROLES of
        Inl x \<Rightarrow> (Inl x, f)
      | Inr _ \<Rightarrow> sweep_all e d sc (account_namespaces e f sc subject) (linked_kinds e f sc) f)"

section \<open>Deleting the user row\<close>

definition delete_user_assets :: "uuid \<Rightarrow> db \<Rightarrow> db" where
  "delete_user_assets u d = fold delete_asset (map a_id (filter (\<lambda>a. a_user_id a = u) (assets d))) d"

definition delete_user_sync :: "uuid \<Rightarrow> db \<Rightarrow> db" where
  "delete_user_sync u d =
     (let roots = map sr_id (filter (\<lambda>r. sr_user_id r = u) (sync_roots d));
          ops = map so_id (filter (\<lambda>x. so_root_id x \<in> set roots) (sync_operations d))
      in d\<lparr>sync_roots := sql_delete (\<lambda>r. sr_user_id r = u) (sync_roots d),
           sync_items := sql_delete (\<lambda>x. si_root_id x \<in> set roots) (sync_items d),
           sync_operations := sql_delete (\<lambda>x. so_root_id x \<in> set roots) (sync_operations d),
           sync_conflicts := sql_update (\<lambda>x. case sc_conflicting_operation_id x of None \<Rightarrow> False | Some i \<Rightarrow> i \<in> set ops)
             (\<lambda>x. x\<lparr>sc_conflicting_operation_id := None\<rparr>)
             (sql_delete (\<lambda>x. sc_root_id x \<in> set roots \<or> sc_local_operation_id x \<in> set ops) (sync_conflicts d))\<rparr>)"

definition delete_user_storage :: "uuid \<Rightarrow> db \<Rightarrow> db" where
  "delete_user_storage u d =
     (let gone_drives = map dr_id (filter (\<lambda>x. dr_user_id x = u) (drives d));
          gone_libraries = map li_id (filter (\<lambda>x. li_user_id x = u) (libraries d))
      in d\<lparr>policies := sql_delete (\<lambda>p. p_user_id p = u) (policies d),
           drives := sql_delete (\<lambda>x. dr_user_id x = u) (drives d),
           replicas := sql_update (\<lambda>r. case r_drive_id r of None \<Rightarrow> False | Some i \<Rightarrow> i \<in> set gone_drives)
             (\<lambda>r. r\<lparr>r_drive_id := None\<rparr>) (replicas d),
           libraries := sql_delete (\<lambda>x. li_user_id x = u) (libraries d),
           assets := sql_update (\<lambda>a. case a_external_library_id a of None \<Rightarrow> False | Some i \<Rightarrow> i \<in> set gone_libraries)
             (\<lambda>a. a\<lparr>a_external_library_id := None\<rparr>) (assets d),
           uploads := sql_delete (\<lambda>x. up_user_id x = u) (uploads d),
           monitoring_events := sql_delete (\<lambda>m. me_user_id m = Some u) (monitoring_events d)\<rparr>)"

definition delete_user :: "uuid \<Rightarrow> db \<Rightarrow> db" where
  "delete_user u d =
     (let d = delete_user_assets u d;
          d = delete_user_sync u d;
          d = delete_user_storage u d;
          d = delete_albums u d;
          d = destroy_credentials u d
      in d\<lparr>shares := sql_delete (\<lambda>s. sh_user_id s = u) (shares d),
           album_invites := sql_delete (\<lambda>i. ai_invited_by i = u) (album_invites d),
           album_members := sql_update (\<lambda>m. am_invited_by m = Some u) (\<lambda>m. m\<lparr>am_invited_by := None\<rparr>)
             (sql_delete (\<lambda>m. am_user_id m = u) (album_members d)),
           audit_events := sql_update (\<lambda>x. au_user_id x = Some u) (\<lambda>x. x\<lparr>au_user_id := None\<rparr>) (audit_events d),
           users := sql_delete (\<lambda>x. u_id x = u) (users d)\<rparr>)"

definition delete_found_user :: "uuid \<Rightarrow> db \<Rightarrow> db" where
  "delete_found_user u d = (if sql_first (\<lambda>x. u_id x = u) (users d) = None then d else delete_user u d)"

section \<open>One batch of the worker\<close>

datatype outcome = Stale | Retry | ManualReview | Completed | StillPending

text \<open>An iteration of the loop either continues or ends the batch with an outcome.\<close>

type_synonym step_result = "outcome option \<times> db \<times> fs"

definition running_job :: "uuid \<Rightarrow> uuid \<Rightarrow> db \<Rightarrow> job option" where
  "running_job job_id token d = sql_first (\<lambda>j. j_id j = job_id \<and> j_status j = JRunning \<and> j_lease_token j = Some token) (jobs d)"

definition renew :: "env \<Rightarrow> time \<Rightarrow> job \<Rightarrow> job" where
  "renew e now j = j\<lparr>j_failure_count := 0,
     j_lease_expires_at := Some (now + account_deletion_lease_seconds (cfg e) * second)\<rparr>"

definition give_up :: "time \<Rightarrow> string \<Rightarrow> nat \<Rightarrow> job \<Rightarrow> job" where
  "give_up now code n j = j\<lparr>j_status := JManualReview,
     j_retained_legacy_paths := j_retained_legacy_paths j + int n, j_lease_token := None,
     j_lease_expires_at := None, j_last_error_code := Some code, j_last_error_at := Some now\<rparr>"

definition error_code :: "exn \<Rightarrow> string" where
  "error_code x = (if exn_str x = ''asset_cleanup_deferred'' then take 64 (exn_str x) else take 64 (exn_name x))"

text \<open>The \<open>except\<close> clause, on the database of the last commit.\<close>

definition on_failure :: "env \<Rightarrow> time \<Rightarrow> uuid \<Rightarrow> uuid \<Rightarrow> exn \<Rightarrow> db \<Rightarrow> fs \<Rightarrow> step_result" where
  "on_failure e now job_id token x d f =
     (case running_job job_id token d of
        None \<Rightarrow> (Some Stale, d, f)
      | Some j \<Rightarrow> (Some Retry, set_job job_id (\<lambda>j. j\<lparr>j_status := JRetry, j_lease_token := None,
           j_lease_expires_at := None, j_last_error_code := Some (error_code x), j_last_error_at := Some now,
           j_failure_count := j_failure_count j + 1,
           j_next_attempt_at := now + retry_delay (cfg e) (j_failure_count j + 1) * second\<rparr>) d, f))"

fun unlink_staged :: "env \<Rightarrow> db \<Rightarrow> string list \<Rightarrow> fs \<Rightarrow> (exn + unit) \<times> fs" where
  "unlink_staged e d [] f = (Inr (), f)"
| "unlink_staged e d (p # ps) f =
     (case safely_unlink_catalog_path e d f (resolve e p) (Some (staging_path (cfg e))) False None None None of
        Inl x \<Rightarrow> (Inl x, f)
      | Inr (b, f) \<Rightarrow> unlink_staged e d ps f)"

text \<open>The first row in insertion order of those not locked by another transaction.\<close>

definition next_upload :: "(uuid \<Rightarrow> bool) \<Rightarrow> uuid \<Rightarrow> db \<Rightarrow> upload option" where
  "next_upload held u d = (case sort_key up_created_at (sort_key up_id
     (filter (\<lambda>x. up_user_id x = u \<and> \<not> held (up_id x)) (uploads d))) of [] \<Rightarrow> None | x # xs \<Rightarrow> Some x)"

definition next_asset :: "(uuid \<Rightarrow> bool) \<Rightarrow> uuid \<Rightarrow> db \<Rightarrow> asset option" where
  "next_asset held u d = (case sort_key a_created_at (sort_key a_id
     (filter (\<lambda>x. a_user_id x = u \<and> \<not> held (a_id x)) (assets d))) of [] \<Rightarrow> None | x # xs \<Rightarrow> Some x)"

definition process_upload :: "env \<Rightarrow> time \<Rightarrow> uuid \<Rightarrow> uuid \<Rightarrow> upload \<Rightarrow> db \<Rightarrow> fs \<Rightarrow> step_result" where
  "process_upload e now job_id token u d f =
     (let removed = (if prefix ''duplicate:'' (up_staging_path u) then Inr (True, f)
            else safely_unlink_catalog_path e d f (up_staging_path u) (Some (staging_path (cfg e))) False
                   None None (Some (up_id u)))
      in case removed of
           Inl x \<Rightarrow> on_failure e now job_id token x d f
         | Inr (b, f) \<Rightarrow>
             (None, set_job job_id (\<lambda>j. renew e now (j\<lparr>j_uploads_purged := j_uploads_purged j + 1\<rparr>))
                (d\<lparr>uploads := sql_delete (\<lambda>x. up_id x = up_id u) (uploads d)\<rparr>), f))"

definition erase_asset :: "env \<Rightarrow> time \<Rightarrow> scan \<Rightarrow> uuid \<Rightarrow> uuid \<Rightarrow> asset \<Rightarrow> db \<Rightarrow> fs \<Rightarrow> step_result" where
  "erase_asset e now sc job_id token a d f =
     (case unlink_staged e d (owned_staging_paths_for_asset e f sc (a_id a) (a_user_id a)) f of
        (Inl x, f) \<Rightarrow> on_failure e now job_id token x d f
      | (Inr _, f) \<Rightarrow>
          (case safely_purge_asset e now a (Some [], d, f) of
             (Inl x, ret, d', f) \<Rightarrow> on_failure e now job_id token x d f
           | (Inr True, ret, d', f) \<Rightarrow>
               (None, set_job job_id (\<lambda>j. renew e now (j\<lparr>j_assets_purged := j_assets_purged j + 1,
                  j_retained_legacy_paths := j_retained_legacy_paths j + int (length (the ret))\<rparr>)) d', f)
           | (Inr False, ret, d', f) \<Rightarrow>
               if ret = Some [] then on_failure e now job_id token (RuntimeError ''asset_cleanup_deferred'') d f
               else (case running_job job_id token d of
                       None \<Rightarrow> (Some Stale, d, f)
                     | Some j \<Rightarrow> (Some ManualReview,
                         set_job job_id (give_up now ''noncanonical_legacy_path'' (length (the ret))) d, f))))"

definition complete_job :: "time \<Rightarrow> job \<Rightarrow> job" where
  "complete_job now j = j\<lparr>j_status := JCompleted, j_completed_at := Some now, j_subject_id := None,
     j_lease_token := None, j_lease_expires_at := None, j_next_attempt_at := now\<rparr>"

definition audit_anonymous :: "string \<Rightarrow> (string \<times> json) list \<Rightarrow> db \<Rightarrow> db" where
  "audit_anonymous event_type detail d = d\<lparr>audit_events := sql_insert
     \<lparr>au_user_id = None, au_event_type = event_type, au_ip_address = None, au_user_agent = None,
      au_detail = JObj detail\<rparr> (audit_events d)\<rparr>"

definition finalise :: "env \<Rightarrow> time \<Rightarrow> scan \<Rightarrow> uuid \<Rightarrow> uuid \<Rightarrow> uuid \<Rightarrow> db \<Rightarrow> fs \<Rightarrow> step_result" where
  "finalise e now sc job_id token user_id d f =
     (case sql_first (\<lambda>j. j_id j = job_id \<and> j_lease_token j = Some token) (jobs d) of
        None \<Rightarrow> (Some Stale, d, f)
      | Some j \<Rightarrow>
          if sql_first (\<lambda>a. a_user_id a = user_id) (assets d) \<noteq> None \<or>
             sql_first (\<lambda>u. up_user_id u = user_id) (uploads d) \<noteq> None
          then (None, d, f)
          else (case sweep_account_namespaces e d sc user_id f of
                  (Inl x, f) \<Rightarrow> on_failure e now job_id token x d f
                | (Inr retained, f) \<Rightarrow>
                    if retained \<noteq> 0
                    then (Some ManualReview, redact_audit user_id
                            (set_job job_id (give_up now ''account_namespace_requires_review'' retained) d), f)
                    else (Some Completed, audit_anonymous ''account_deletion_completed''
                            [(''job_id'', juuid job_id), (''assets_purged'', JInt (j_assets_purged j)),
                             (''uploads_purged'', JInt (j_uploads_purged j))]
                            (set_job job_id (complete_job now) (delete_found_user user_id (redact_audit user_id d))), f)))"

definition process_item ::
  "env \<Rightarrow> time \<Rightarrow> scan \<Rightarrow> (uuid \<Rightarrow> bool) \<Rightarrow> uuid \<Rightarrow> uuid \<Rightarrow> db \<Rightarrow> fs \<Rightarrow> step_result" where
  "process_item e now sc held job_id token d f =
     (case sql_first (\<lambda>j. j_id j = job_id \<and> j_lease_token j = Some token) (jobs d) of
        None \<Rightarrow> (Some Stale, d, f)
      | Some j \<Rightarrow>
          (case j_subject_id j of
             None \<Rightarrow> (Some Stale, d, f)
           | Some user_id \<Rightarrow>
               (case require_storage e f MANAGED_ROLES of
                  Inl x \<Rightarrow> on_failure e now job_id token x d f
                | Inr _ \<Rightarrow>
                    (case next_upload held user_id d of
                       Some u \<Rightarrow> process_upload e now job_id token u d f
                     | None \<Rightarrow>
                         (case next_asset held user_id d of
                            Some a \<Rightarrow> erase_asset e now sc job_id token a d f
                          | None \<Rightarrow> finalise e now sc job_id token user_id d f)))))"

text \<open>The time, the reports of the operating system and the rows other transactions hold are
  those of the iteration.\<close>

fun process_account_deletion_batch ::
  "env \<Rightarrow> (nat \<Rightarrow> time \<times> scan \<times> (uuid \<Rightarrow> bool)) \<Rightarrow> nat \<Rightarrow> uuid \<Rightarrow> uuid \<Rightarrow> db \<Rightarrow> fs \<Rightarrow> outcome \<times> db \<times> fs" where
  "process_account_deletion_batch e world 0 job_id token d f =
     (StillPending,
      (case running_job job_id token d of
         None \<Rightarrow> d
       | Some j \<Rightarrow> set_job job_id (\<lambda>j. j\<lparr>j_status := JPending, j_lease_token := None, j_lease_expires_at := None,
           j_next_attempt_at := fst (world 0)\<rparr>) d), f)"
| "process_account_deletion_batch e world (Suc n) job_id token d f =
     (case world (Suc n) of (now, sc, held) \<Rightarrow>
        (case process_item e now sc held job_id token d f of
           (Some r, d, f) \<Rightarrow> (r, d, f)
         | (None, d, f) \<Rightarrow> process_account_deletion_batch e world n job_id token d f))"

text \<open>The worker task: claim, then a batch of the configured size.\<close>

definition cleanup_account_deletion ::
  "env \<Rightarrow> time \<Rightarrow> uuid \<Rightarrow> (nat \<Rightarrow> time \<times> scan \<times> (uuid \<Rightarrow> bool)) \<Rightarrow> uuid \<Rightarrow> db \<Rightarrow> fs \<Rightarrow>
   outcome option \<times> db \<times> fs" where
  "cleanup_account_deletion e now token world job_id d f =
     (case claim_account_deletion_job e now token job_id d of
        (None, d) \<Rightarrow> (None, d, f)
      | (Some token, d) \<Rightarrow>
          (case process_account_deletion_batch e world (account_deletion_batch_size (cfg e)) job_id token d f of
             (r, d, f) \<Rightarrow> (Some r, d, f)))"

section \<open>Frames\<close>

lemma set_job_frame [simp]:
  "users (set_job i g d) = users d" "assets (set_job i g d) = assets d"
  "replicas (set_job i g d) = replicas d" "uploads (set_job i g d) = uploads d"
  "policies (set_job i g d) = policies d" "drives (set_job i g d) = drives d"
  "archives (set_job i g d) = archives d" "sync_roots (set_job i g d) = sync_roots d"
  "sync_items (set_job i g d) = sync_items d" "sync_operations (set_job i g d) = sync_operations d"
  "sync_conflicts (set_job i g d) = sync_conflicts d"
  "auth_sessions (set_job i g d) = auth_sessions d"
  "account_tokens (set_job i g d) = account_tokens d"
  "recovery_codes (set_job i g d) = recovery_codes d"
  "audit_events (set_job i g d) = audit_events d" "identities (set_job i g d) = identities d"
  "passkeys (set_job i g d) = passkeys d" "challenges (set_job i g d) = challenges d"
  "devices (set_job i g d) = devices d" "pairing_codes (set_job i g d) = pairing_codes d"
  "nodes (set_job i g d) = nodes d" "libraries (set_job i g d) = libraries d"
  "shares (set_job i g d) = shares d" "albums (set_job i g d) = albums d"
  "album_assets (set_job i g d) = album_assets d" "album_members (set_job i g d) = album_members d"
  "album_invites (set_job i g d) = album_invites d"
  "monitoring_events (set_job i g d) = monitoring_events d"
  by (simp_all add: set_job_def)

lemma set_job_jobs [simp]: "jobs (set_job i g d) = sql_update (\<lambda>j. j_id j = i) g (jobs d)"
  by (simp add: set_job_def)

lemma redact_audit_frame [simp]:
  "users (redact_audit u d) = users d" "assets (redact_audit u d) = assets d"
  "replicas (redact_audit u d) = replicas d" "uploads (redact_audit u d) = uploads d"
  "policies (redact_audit u d) = policies d" "drives (redact_audit u d) = drives d"
  "archives (redact_audit u d) = archives d" "jobs (redact_audit u d) = jobs d"
  "sync_roots (redact_audit u d) = sync_roots d" "sync_items (redact_audit u d) = sync_items d"
  "sync_operations (redact_audit u d) = sync_operations d"
  "sync_conflicts (redact_audit u d) = sync_conflicts d"
  "auth_sessions (redact_audit u d) = auth_sessions d"
  "account_tokens (redact_audit u d) = account_tokens d"
  "recovery_codes (redact_audit u d) = recovery_codes d"
  "identities (redact_audit u d) = identities d" "passkeys (redact_audit u d) = passkeys d"
  "challenges (redact_audit u d) = challenges d" "devices (redact_audit u d) = devices d"
  "pairing_codes (redact_audit u d) = pairing_codes d" "nodes (redact_audit u d) = nodes d"
  "libraries (redact_audit u d) = libraries d" "shares (redact_audit u d) = shares d"
  "albums (redact_audit u d) = albums d" "album_assets (redact_audit u d) = album_assets d"
  "album_members (redact_audit u d) = album_members d"
  "album_invites (redact_audit u d) = album_invites d"
  "monitoring_events (redact_audit u d) = monitoring_events d"
  by (simp_all add: redact_audit_def)

lemma audit_anonymous_frame [simp]:
  "users (audit_anonymous t x d) = users d" "assets (audit_anonymous t x d) = assets d"
  "replicas (audit_anonymous t x d) = replicas d" "uploads (audit_anonymous t x d) = uploads d"
  "policies (audit_anonymous t x d) = policies d" "drives (audit_anonymous t x d) = drives d"
  "archives (audit_anonymous t x d) = archives d" "jobs (audit_anonymous t x d) = jobs d"
  "sync_roots (audit_anonymous t x d) = sync_roots d"
  "sync_items (audit_anonymous t x d) = sync_items d"
  "sync_operations (audit_anonymous t x d) = sync_operations d"
  "sync_conflicts (audit_anonymous t x d) = sync_conflicts d"
  "auth_sessions (audit_anonymous t x d) = auth_sessions d"
  "account_tokens (audit_anonymous t x d) = account_tokens d"
  "recovery_codes (audit_anonymous t x d) = recovery_codes d"
  "identities (audit_anonymous t x d) = identities d"
  "passkeys (audit_anonymous t x d) = passkeys d"
  "challenges (audit_anonymous t x d) = challenges d" "devices (audit_anonymous t x d) = devices d"
  "pairing_codes (audit_anonymous t x d) = pairing_codes d"
  "nodes (audit_anonymous t x d) = nodes d" "libraries (audit_anonymous t x d) = libraries d"
  "shares (audit_anonymous t x d) = shares d" "albums (audit_anonymous t x d) = albums d"
  "album_assets (audit_anonymous t x d) = album_assets d"
  "album_members (audit_anonymous t x d) = album_members d"
  "album_invites (audit_anonymous t x d) = album_invites d"
  "monitoring_events (audit_anonymous t x d) = monitoring_events d"
  by (simp_all add: audit_anonymous_def)

lemma delete_albums_frame [simp]:
  "users (delete_albums u d) = users d" "assets (delete_albums u d) = assets d"
  "replicas (delete_albums u d) = replicas d" "uploads (delete_albums u d) = uploads d"
  "policies (delete_albums u d) = policies d" "drives (delete_albums u d) = drives d"
  "archives (delete_albums u d) = archives d" "jobs (delete_albums u d) = jobs d"
  "sync_roots (delete_albums u d) = sync_roots d" "sync_items (delete_albums u d) = sync_items d"
  "sync_operations (delete_albums u d) = sync_operations d"
  "sync_conflicts (delete_albums u d) = sync_conflicts d"
  "auth_sessions (delete_albums u d) = auth_sessions d"
  "account_tokens (delete_albums u d) = account_tokens d"
  "recovery_codes (delete_albums u d) = recovery_codes d"
  "audit_events (delete_albums u d) = audit_events d"
  "identities (delete_albums u d) = identities d" "passkeys (delete_albums u d) = passkeys d"
  "challenges (delete_albums u d) = challenges d" "devices (delete_albums u d) = devices d"
  "pairing_codes (delete_albums u d) = pairing_codes d" "nodes (delete_albums u d) = nodes d"
  "libraries (delete_albums u d) = libraries d" "shares (delete_albums u d) = shares d"
  "monitoring_events (delete_albums u d) = monitoring_events d"
  by (simp_all add: delete_albums_def Let_def)

lemma revoke_sharing_frame [simp]:
  "users (revoke_sharing u m d) = users d" "assets (revoke_sharing u m d) = assets d"
  "replicas (revoke_sharing u m d) = replicas d" "uploads (revoke_sharing u m d) = uploads d"
  "policies (revoke_sharing u m d) = policies d" "drives (revoke_sharing u m d) = drives d"
  "archives (revoke_sharing u m d) = archives d" "jobs (revoke_sharing u m d) = jobs d"
  "sync_roots (revoke_sharing u m d) = sync_roots d"
  "sync_items (revoke_sharing u m d) = sync_items d"
  "sync_operations (revoke_sharing u m d) = sync_operations d"
  "sync_conflicts (revoke_sharing u m d) = sync_conflicts d"
  "auth_sessions (revoke_sharing u m d) = auth_sessions d"
  "account_tokens (revoke_sharing u m d) = account_tokens d"
  "recovery_codes (revoke_sharing u m d) = recovery_codes d"
  "audit_events (revoke_sharing u m d) = audit_events d"
  "identities (revoke_sharing u m d) = identities d" "passkeys (revoke_sharing u m d) = passkeys d"
  "challenges (revoke_sharing u m d) = challenges d" "devices (revoke_sharing u m d) = devices d"
  "pairing_codes (revoke_sharing u m d) = pairing_codes d" "nodes (revoke_sharing u m d) = nodes d"
  "libraries (revoke_sharing u m d) = libraries d"
  "monitoring_events (revoke_sharing u m d) = monitoring_events d"
  by (simp_all add: revoke_sharing_def Let_def)

lemma destroy_credentials_frame [simp]:
  "users (destroy_credentials u d) = users d" "assets (destroy_credentials u d) = assets d"
  "replicas (destroy_credentials u d) = replicas d"
  "policies (destroy_credentials u d) = policies d" "drives (destroy_credentials u d) = drives d"
  "archives (destroy_credentials u d) = archives d" "jobs (destroy_credentials u d) = jobs d"
  "sync_roots (destroy_credentials u d) = sync_roots d"
  "sync_items (destroy_credentials u d) = sync_items d"
  "sync_operations (destroy_credentials u d) = sync_operations d"
  "sync_conflicts (destroy_credentials u d) = sync_conflicts d"
  "audit_events (destroy_credentials u d) = audit_events d"
  "libraries (destroy_credentials u d) = libraries d" "shares (destroy_credentials u d) = shares d"
  "albums (destroy_credentials u d) = albums d"
  "album_assets (destroy_credentials u d) = album_assets d"
  "album_members (destroy_credentials u d) = album_members d"
  "album_invites (destroy_credentials u d) = album_invites d"
  "monitoring_events (destroy_credentials u d) = monitoring_events d"
  by (simp_all add: destroy_credentials_def Let_def)

lemma delete_user_sync_frame [simp]:
  "users (delete_user_sync u d) = users d" "assets (delete_user_sync u d) = assets d"
  "replicas (delete_user_sync u d) = replicas d" "uploads (delete_user_sync u d) = uploads d"
  "policies (delete_user_sync u d) = policies d" "drives (delete_user_sync u d) = drives d"
  "archives (delete_user_sync u d) = archives d" "jobs (delete_user_sync u d) = jobs d"
  "auth_sessions (delete_user_sync u d) = auth_sessions d"
  "account_tokens (delete_user_sync u d) = account_tokens d"
  "recovery_codes (delete_user_sync u d) = recovery_codes d"
  "audit_events (delete_user_sync u d) = audit_events d"
  "identities (delete_user_sync u d) = identities d" "passkeys (delete_user_sync u d) = passkeys d"
  "challenges (delete_user_sync u d) = challenges d" "devices (delete_user_sync u d) = devices d"
  "pairing_codes (delete_user_sync u d) = pairing_codes d" "nodes (delete_user_sync u d) = nodes d"
  "libraries (delete_user_sync u d) = libraries d" "shares (delete_user_sync u d) = shares d"
  "albums (delete_user_sync u d) = albums d" "album_assets (delete_user_sync u d) = album_assets d"
  "album_members (delete_user_sync u d) = album_members d"
  "album_invites (delete_user_sync u d) = album_invites d"
  "monitoring_events (delete_user_sync u d) = monitoring_events d"
  by (simp_all add: delete_user_sync_def Let_def)

lemma delete_user_storage_frame [simp]:
  "users (delete_user_storage u d) = users d" "archives (delete_user_storage u d) = archives d"
  "jobs (delete_user_storage u d) = jobs d" "sync_roots (delete_user_storage u d) = sync_roots d"
  "sync_items (delete_user_storage u d) = sync_items d"
  "sync_operations (delete_user_storage u d) = sync_operations d"
  "sync_conflicts (delete_user_storage u d) = sync_conflicts d"
  "auth_sessions (delete_user_storage u d) = auth_sessions d"
  "account_tokens (delete_user_storage u d) = account_tokens d"
  "recovery_codes (delete_user_storage u d) = recovery_codes d"
  "audit_events (delete_user_storage u d) = audit_events d"
  "identities (delete_user_storage u d) = identities d"
  "passkeys (delete_user_storage u d) = passkeys d"
  "challenges (delete_user_storage u d) = challenges d"
  "devices (delete_user_storage u d) = devices d"
  "pairing_codes (delete_user_storage u d) = pairing_codes d"
  "nodes (delete_user_storage u d) = nodes d" "shares (delete_user_storage u d) = shares d"
  "albums (delete_user_storage u d) = albums d"
  "album_assets (delete_user_storage u d) = album_assets d"
  "album_members (delete_user_storage u d) = album_members d"
  "album_invites (delete_user_storage u d) = album_invites d"
  by (simp_all add: delete_user_storage_def Let_def)

end
