(* ===== verification/DeletionSafety.thy ===== *)
theory DeletionSafety
  imports Deletion
begin

text \<open>
  What the deletion jobs guarantee: the queue (leases, retries, due jobs), the lockout that
  staging a deletion performs, the ledger replay, and the two properties of the worker that
  matter most, that it never touches another account and that a completed job has erased its
  own.
\<close>

section \<open>The queue\<close>

text \<open>With settings that pass the startup validation, the retry delay lies between the base
  and the maximal interval and grows with the number of failures.\<close>

theorem retry_delay_bounds:
  assumes "validate_deletion_settings c = Inr ()" "m \<le> n"
  shows "account_deletion_retry_base_seconds c \<le> retry_delay c m \<and>
    retry_delay c n \<le> account_deletion_retry_max_seconds c \<and> retry_delay c m \<le> retry_delay c n"
proof -
  from assms(1) have pos: "0 < account_deletion_retry_base_seconds c"
    and le: "account_deletion_retry_base_seconds c \<le> account_deletion_retry_max_seconds c"
    by (auto simp: validate_deletion_settings_def split: if_splits)
  define P where "P n = account_deletion_retry_base_seconds c * 2 ^ nat (min (max (n - 1) 0) 10)" for n :: int
  have delay: "retry_delay c n = min (P n) (account_deletion_retry_max_seconds c)" for n
    by (simp add: retry_delay_def P_def)
  have "nat (min (max (m - 1) 0) 10) \<le> nat (min (max (n - 1) 0) 10)" using assms(2) by simp
  then have "(2::int) ^ nat (min (max (m - 1) 0) 10) \<le> 2 ^ nat (min (max (n - 1) 0) 10)" by simp
  with pos have "P m \<le> P n" unfolding P_def by (intro mult_left_mono) simp_all
  moreover have "account_deletion_retry_base_seconds c * 1 \<le> P m"
    unfolding P_def using pos by (intro mult_left_mono) simp_all
  ultimately show ?thesis unfolding delay using le by auto
qed

lemma claim_cases:
  assumes "claim_account_deletion_job e now token job_id d = (r, d')"
  obtains (refused) "r = None" "d' = d"
  | (claimed) j where "r = Some token" "sql_first (\<lambda>j. j_id j = job_id) (jobs d) = Some j"
      "open_status (j_status j)" "j_not_before j \<le> now"
      "d' = set_job job_id (\<lambda>j. j\<lparr>j_status := JRunning, j_lease_token := Some token,
          j_lease_expires_at := Some (now + account_deletion_lease_seconds (cfg e) * second),
          j_attempt_count := j_attempt_count j + 1, j_last_error_code := None\<rparr>) d"
  using assms by (auto simp: claim_account_deletion_job_def split: option.splits if_splits)

text \<open>A lease is exclusive: while it runs, no other worker can claim the job, whatever
  token it brings.\<close>

theorem lease_is_exclusive:
  assumes "claim_account_deletion_job e now token job_id d = (Some token, d')"
    "later < now + account_deletion_lease_seconds (cfg e) * second"
  shows "claim_account_deletion_job e later other job_id d' = (None, d')"
  using assms(1)
proof (cases rule: claim_cases)
  case (claimed j)
  from claimed(2) have "sql_first (\<lambda>j. j_id j = job_id) (jobs d') = Some (j\<lparr>j_status := JRunning,
      j_lease_token := Some token,
      j_lease_expires_at := Some (now + account_deletion_lease_seconds (cfg e) * second),
      j_attempt_count := j_attempt_count j + 1, j_last_error_code := None\<rparr>)"
    unfolding claimed(5) by (simp add: sql_first_update_key)
  with assms(2) show ?thesis by (simp add: claim_account_deletion_job_def)
qed simp

text \<open>Every job the dispatcher selects can be claimed at that moment, and every job that can
  be claimed because its time has come is selected when the limit allows.\<close>

theorem due_jobs_claimable:
  assumes "distinct (map j_id (jobs d))" "length (jobs d) \<le> limit" "j \<in> set (jobs d)" "j_next_attempt_at j \<le> now"
  shows "j_id j \<in> set (due_account_deletion_job_ids now limit d) \<longleftrightarrow>
    fst (claim_account_deletion_job e now token (j_id j) d) = Some token"
proof -
  let ?due = "\<lambda>j. open_status (j_status j) \<and> j_not_before j \<le> now \<and> j_next_attempt_at j \<le> now \<and>
          (j_status j \<noteq> JRunning \<or> (case j_lease_expires_at j of None \<Rightarrow> True | Some t \<Rightarrow> t \<le> now))"
  have "length (filter ?due (jobs d)) \<le> limit" using assms(2) length_filter_le le_trans by blast
  then have set: "set (due_account_deletion_job_ids now limit d) = j_id ` {j \<in> set (jobs d). ?due j}"
    by (simp add: due_account_deletion_job_ids_def)
  have "j_id j \<in> j_id ` {j \<in> set (jobs d). ?due j} \<longleftrightarrow> ?due j"
  proof
    assume "j_id j \<in> j_id ` {j \<in> set (jobs d). ?due j}"
    then obtain k where k: "k \<in> set (jobs d)" "?due k" "j_id j = j_id k" by blast
    then have "j = k" using key_unique [OF assms(1,3)] by blast
    with k(2) show "?due j" by simp
  qed (use assms(3) in blast)
  moreover have "fst (claim_account_deletion_job e now token (j_id j) d) = Some token \<longleftrightarrow> ?due j"
    unfolding claim_account_deletion_job_def sql_first_key [OF assms(1,3)]
    using assms(4) by (auto split: option.splits)
  ultimately show ?thesis unfolding set by blast
qed

section \<open>Lockout\<close>

definition no_credentials :: "uuid \<Rightarrow> db \<Rightarrow> bool" where
  "no_credentials u d \<longleftrightarrow>
     (\<forall>x \<in> set (auth_sessions d). as_user_id x \<noteq> u) \<and> (\<forall>x \<in> set (account_tokens d). at_user_id x \<noteq> u) \<and>
     (\<forall>x \<in> set (challenges d). ch_user_id x \<noteq> Some u) \<and> (\<forall>x \<in> set (passkeys d). pk_user_id x \<noteq> u) \<and>
     (\<forall>x \<in> set (recovery_codes d). rc_user_id x \<noteq> u) \<and> (\<forall>x \<in> set (identities d). ei_user_id x \<noteq> u) \<and>
     (\<forall>x \<in> set (devices d). de_user_id x \<noteq> u) \<and> (\<forall>x \<in> set (pairing_codes d). pc_user_id x \<noteq> u) \<and>
     (\<forall>x \<in> set (nodes d). nd_user_id x \<noteq> u) \<and> (\<forall>x \<in> set (shares d). sh_user_id x \<noteq> u) \<and>
     (\<forall>x \<in> set (albums d). al_user_id x \<noteq> u) \<and> (\<forall>x \<in> set (album_members d). am_user_id x \<noteq> u) \<and>
     (\<forall>x \<in> set (album_invites d). ai_invited_by x \<noteq> u)"

lemma destroy_credentials_tables:
  "set (account_tokens (destroy_credentials u d)) \<subseteq> {x \<in> set (account_tokens d). at_user_id x \<noteq> u}"
  "set (challenges (destroy_credentials u d)) \<subseteq> {x \<in> set (challenges d). ch_user_id x \<noteq> Some u}"
  "passkeys (destroy_credentials u d) = sql_delete (\<lambda>x. pk_user_id x = u) (passkeys d)"
  "recovery_codes (destroy_credentials u d) = sql_delete (\<lambda>x. rc_user_id x = u) (recovery_codes d)"
  "identities (destroy_credentials u d) = sql_delete (\<lambda>x. ei_user_id x = u) (identities d)"
  "devices (destroy_credentials u d) = sql_delete (\<lambda>x. de_user_id x = u) (devices d)"
  "pairing_codes (destroy_credentials u d) = sql_delete (\<lambda>x. pc_user_id x = u) (pairing_codes d)"
  "nodes (destroy_credentials u d) = sql_delete (\<lambda>x. nd_user_id x = u) (nodes d)"
  "auth_sessions (destroy_credentials u d) = sql_delete (\<lambda>x. as_user_id x = u) (auth_sessions d)"
  by (auto simp: destroy_credentials_def Let_def set_sql_delete)

lemma revoke_sharing_tables:
  "shares (revoke_sharing u m d) = sql_delete (\<lambda>s. sh_user_id s = u) (shares d)"
  "albums (revoke_sharing u m d) = sql_delete (\<lambda>a. al_user_id a = u) (albums d)"
  "set (album_members (revoke_sharing u m d)) \<subseteq> {x \<in> set (album_members d). am_user_id x \<noteq> u}"
  "set (album_invites (revoke_sharing u m d)) \<subseteq> {x \<in> set (album_invites d). ai_invited_by x \<noteq> u}"
  by (auto simp: revoke_sharing_def delete_albums_def Let_def set_sql_delete)

lemma prepare_cases:
  assumes "prepare_account_deletion e now job_id nonce u d = (j, d')"
  obtains (existing) "sql_first (\<lambda>j. j_subject_id j = Some (u_id u)) (jobs d) = Some j" "d' = d"
  | (staged) d1 where "sql_first (\<lambda>j. j_subject_id j = Some (u_id u)) (jobs d) = None"
      "j = new_job e job_id (u_id u) now"
      "d1 = audit (u_id u) ''account_deletion_requested''
         [(''job_id'', juuid job_id), (''credentials_destroyed'', JBool True)]
         (redact_audit (u_id u) (destroy_credentials (u_id u) (revoke_sharing (u_id u) (u_email u)
            (d\<lparr>jobs := sql_insert j (jobs d)\<rparr>))))"
      "d' = d1\<lparr>users := sql_update (\<lambda>x. u_id x = u_id u) (lock_out now nonce) (users d1),
               assets := sql_update (\<lambda>a. a_user_id a = u_id u) (condemn now) (assets d1)\<rparr>"
  using assms by (auto simp: prepare_account_deletion_def Let_def split: option.splits)

text \<open>C17: Staging a deletion locks the account out for good: the row is disabled with unusable
  credentials, no session, token, passkey, device, node, share or album of it is left, and
  every asset is condemned with its retention expired.  Repeating the request changes nothing.\<close>

theorem staged_deletion_locks_out:
  assumes "prepare_account_deletion e now job_id nonce u d = (j, d')"
    "sql_first (\<lambda>j. j_subject_id j = Some (u_id u)) (jobs d) = None"
  shows "no_credentials (u_id u) d' \<and> j \<in> set (jobs d') \<and> j_subject_id j = Some (u_id u) \<and>
    (\<forall>x \<in> set (users d'). u_id x = u_id u \<longrightarrow> u_disabled_at x = Some now \<and> \<not> u_password_enabled x \<and>
       u_media_key x = None \<and> u_totp_secret x = None \<and> u_email_verified_at x = None) \<and>
    (\<forall>a \<in> set (assets d'). a_user_id a = u_id u \<longrightarrow> purgeable now a) \<and>
    prepare_account_deletion e now' job_id' nonce' u d' = (j, d')"
  using assms(1)
proof (cases rule: prepare_cases)
  case (staged d1)
  have "sql_first (\<lambda>j. j_subject_id j = Some (u_id u)) (sql_insert j (jobs d)) = Some j"
    using staged(2) by (intro sql_first_insert [OF assms(2)]) (simp add: new_job_def)
  then have "prepare_account_deletion e now' job_id' nonce' u d' = (j, d')"
    by (simp add: prepare_account_deletion_def staged(3,4))
  moreover have "no_credentials (u_id u) d'"
    unfolding no_credentials_def staged(3,4)
    using destroy_credentials_tables(1,2) revoke_sharing_tables(3,4)
    by (fastforce simp: destroy_credentials_tables(3-) revoke_sharing_tables(1,2) set_sql_delete)
  moreover have "\<forall>a \<in> set (assets d'). a_user_id a = u_id u \<longrightarrow> purgeable now a"
    by (auto simp: staged(3,4) set_sql_update condemn_def purgeable_def)
  moreover have "\<forall>x \<in> set (users d'). u_id x = u_id u \<longrightarrow> u_disabled_at x = Some now \<and> \<not> u_password_enabled x \<and>
       u_media_key x = None \<and> u_totp_secret x = None \<and> u_email_verified_at x = None"
    by (auto simp: staged(3,4) set_sql_update lock_out_def)
  moreover have "j \<in> set (jobs d')" "j_subject_id j = Some (u_id u)"
    by (simp_all add: staged(2-4) sql_insert_def new_job_def)
  ultimately show ?thesis by blast
qed (use assms(2) in simp)

section \<open>Other accounts\<close>

text \<open>What the other accounts own, up to the two columns an \<open>ON DELETE SET NULL\<close> may clear.\<close>

definition others_users :: "uuid \<Rightarrow> db \<Rightarrow> user set" where
  "others_users u d = {x \<in> set (users d). u_id x \<noteq> u}"

definition others_assets :: "uuid \<Rightarrow> db \<Rightarrow> asset set" where
  "others_assets u d = (\<lambda>a. a\<lparr>a_external_library_id := None\<rparr>) ` {a \<in> set (assets d). a_user_id a \<noteq> u}"

definition others_replicas :: "uuid \<Rightarrow> db \<Rightarrow> replica set" where
  "others_replicas u d = (\<lambda>r. r\<lparr>r_drive_id := None\<rparr>) `
     {r \<in> set (replicas d). \<exists>a \<in> set (assets d). a_id a = r_asset_id r \<and> a_user_id a \<noteq> u}"

definition others_uploads :: "uuid \<Rightarrow> db \<Rightarrow> upload set" where
  "others_uploads u d = (\<lambda>x. x\<lparr>up_device_id := None\<rparr>) ` {x \<in> set (uploads d). up_user_id x \<noteq> u}"

definition others_paths :: "uuid \<Rightarrow> db \<Rightarrow> string set" where
  "others_paths u d = {p. \<not> prefix ''duplicate:'' p \<and>
     ((\<exists>a \<in> others_assets u d. p \<in> set (asset_paths a)) \<or> (\<exists>r \<in> others_replicas u d. p \<in> set (replica_paths r)) \<or>
      (\<exists>x \<in> others_uploads u d. p = up_staging_path x))}"

definition leaves_others :: "env \<Rightarrow> uuid \<Rightarrow> db \<Rightarrow> fs \<Rightarrow> db \<Rightarrow> fs \<Rightarrow> bool" where
  "leaves_others e u d f d' f' \<longleftrightarrow>
     others_users u d' = others_users u d \<and> others_assets u d' = others_assets u d \<and>
     others_replicas u d' = others_replicas u d \<and> others_uploads u d' = others_uploads u d \<and>
     (\<forall>p \<in> others_paths u d. files f' (canonical e p) = files f (canonical e p))"

lemma paths_of_cleared [simp]:
  "asset_paths (a\<lparr>a_external_library_id := x\<rparr>) = asset_paths a"
  "replica_paths (r\<lparr>r_drive_id := y\<rparr>) = replica_paths r"
  by (simp_all add: asset_paths_def replica_paths_def)

lemma others_paths_cases:
  assumes "p \<in> others_paths u d"
  obtains (asset) a where "a \<in> set (assets d)" "a_user_id a \<noteq> u" "p \<in> set (asset_paths a)" "\<not> prefix ''duplicate:'' p"
  | (replica) r a where "r \<in> set (replicas d)" "a \<in> set (assets d)" "a_id a = r_asset_id r" "a_user_id a \<noteq> u"
      "p \<in> set (replica_paths r)" "\<not> prefix ''duplicate:'' p"
  | (upload) x where "x \<in> set (uploads d)" "up_user_id x \<noteq> u" "p = up_staging_path x" "\<not> prefix ''duplicate:'' p"
  using assms
  by (auto simp: others_paths_def others_assets_def others_replicas_def others_uploads_def)

lemma leaves_others_refl: "leaves_others e u d f d f"
  by (simp add: leaves_others_def)

lemma leaves_others_trans:
  "leaves_others e u d f d1 f1 \<Longrightarrow> leaves_others e u d1 f1 d2 f2 \<Longrightarrow> leaves_others e u d f d2 f2"
  by (simp add: leaves_others_def others_paths_def)

text \<open>A change of other tables only.\<close>

lemma leaves_others_rows:
  assumes "users d' = users d" "assets d' = assets d" "replicas d' = replicas d" "uploads d' = uploads d"
    "\<And>p. p \<in> others_paths u d \<Longrightarrow> files f' (canonical e p) = files f (canonical e p)"
  shows "leaves_others e u d f d' f'"
  using assms by (simp add: leaves_others_def others_users_def others_assets_def others_replicas_def others_uploads_def)

lemma others_referenced:
  assumes "p \<in> others_paths u d"
    "exU = None \<or> (\<exists>x \<in> set (uploads d). exU = Some (up_id x) \<and> up_user_id x = u)"
    "distinct (map up_id (uploads d))"
  shows "references e d None None exU (canonical e p)"
  using assms(1)
proof (cases rule: others_paths_cases)
  case (upload x)
  have "\<not> excluded exU (up_id x)"
  proof
    assume "excluded exU (up_id x)"
    then have "exU = Some (up_id x)" by (simp only: excluded_def)
    then obtain y where y: "y \<in> set (uploads d)" "up_id y = up_id x" "up_user_id y = u"
      using assms(2) by (metis option.distinct(1) option.inject)
    from assms(3) y(1) upload(1) y(2) have "y = x" by (rule key_unique)
    with y(3) upload(2) show False by blast
  qed
  with upload show ?thesis unfolding references_def by blast
next
  case (asset a)
  then show ?thesis unfolding references_def excluded_def [of None] by blast
next
  case (replica r a)
  then show ?thesis unfolding references_def excluded_def [of None] by blast
qed

lemma others_protected:
  assumes "p \<in> others_paths u d" "a \<in> set (assets d)" "a_user_id a = u" "distinct (map a_id (assets d))"
  shows "protected e d a (canonical e p)"
proof -
  have other: "a_id b \<noteq> a_id a" if b: "b \<in> set (assets d)" "a_user_id b \<noteq> u" for b
  proof
    assume "a_id b = a_id a"
    with assms(4) b(1) assms(2) have "b = a" by (rule key_unique)
    with b(2) assms(3) show False by blast
  qed
  from assms(1) show ?thesis
  proof (cases rule: others_paths_cases)
    case (asset b)
    from protectedI(2) [OF asset(1) other [OF asset(1,2)] asset(3,4)] show ?thesis .
  next
    case (replica r b)
    from other [OF replica(2,4)] replica(3) have "r_asset_id r \<noteq> a_id a" by simp
    from protectedI(3) [OF replica(1) this replica(5,6)] show ?thesis .
  next
    case (upload x)
    from protectedI(4) [OF upload(1)] upload(3,4) show ?thesis by simp
  qed
qed

definition deletion_ok :: "db \<Rightarrow> bool" where
  "deletion_ok d \<longleftrightarrow> catalog_ok d \<and> distinct (map up_id (uploads d))"

definition job_for :: "uuid \<Rightarrow> uuid \<Rightarrow> db \<Rightarrow> bool" where
  "job_for job_id u d \<longleftrightarrow> (\<forall>j \<in> set (jobs d). j_id j = job_id \<longrightarrow> j_subject_id j = Some u)"

lemma on_failure_cases:
  assumes "on_failure e now job_id token x d f = (r, d', f')"
  obtains "f' = f" "r \<noteq> None" "r \<noteq> Some Completed" "users d' = users d" "assets d' = assets d"
    "replicas d' = replicas d" "uploads d' = uploads d"
  using assms by (auto simp: on_failure_def split: option.splits)

lemma on_failure_leaves:
  assumes "on_failure e now job_id token x d f1 = (r, d', f')"
    "\<And>p. p \<in> others_paths u d \<Longrightarrow> files f1 (canonical e p) = files f (canonical e p)"
  shows "leaves_others e u d f d' f' \<and> r \<noteq> None \<and> r \<noteq> Some Completed"
  using assms(1)
proof (cases rule: on_failure_cases)
  case 1
  with assms(2) leaves_others_rows show ?thesis by metis
qed

lemma next_upload_in: "next_upload held u d = Some x \<Longrightarrow> x \<in> set (uploads d) \<and> up_user_id x = u"
proof -
  let ?l = "sort_key up_created_at (sort_key up_id (filter (\<lambda>x. up_user_id x = u \<and> \<not> held (up_id x)) (uploads d)))"
  assume "next_upload held u d = Some x"
  then have "x \<in> set ?l" unfolding next_upload_def by (cases ?l) simp_all
  then show ?thesis by simp
qed

lemma next_asset_in: "next_asset held u d = Some x \<Longrightarrow> x \<in> set (assets d) \<and> a_user_id x = u"
proof -
  let ?l = "sort_key a_created_at (sort_key a_id (filter (\<lambda>x. a_user_id x = u \<and> \<not> held (a_id x)) (assets d)))"
  assume "next_asset held u d = Some x"
  then have "x \<in> set ?l" unfolding next_asset_def by (cases ?l) simp_all
  then show ?thesis by simp
qed

lemma job_for_set_job:
  "job_for i u d \<Longrightarrow> jobs d' = jobs d \<Longrightarrow> (\<And>j. j_id (g j) = j_id j \<and> j_subject_id (g j) = j_subject_id j) \<Longrightarrow>
   job_for i u (set_job k g d')"
  by (auto simp: job_for_def set_sql_update)

text \<open>What an iteration that goes on leaves: the invariant and the job.\<close>

definition goes_on :: "uuid \<Rightarrow> uuid \<Rightarrow> db \<Rightarrow> outcome option \<Rightarrow> db \<Rightarrow> bool" where
  "goes_on job_id u d0 r d \<longleftrightarrow> r \<noteq> Some Completed \<and>
     (r = None \<longrightarrow> deletion_ok d \<and> job_for job_id u d \<and> users d = users d0)"

lemma process_upload_leaves:
  assumes run: "process_upload e now job_id token x d f = (r, d', f')" and ok: "deletion_ok d"
    and hp: "host_paths e" and x: "x \<in> set (uploads d)" "up_user_id x = u" and job: "job_for job_id u d"
  shows "leaves_others e u d f d' f' \<and> goes_on job_id u d r d'"
proof -
  let ?removed = "if prefix ''duplicate:'' (up_staging_path x) then Inr (True, f)
     else safely_unlink_catalog_path e d f (up_staging_path x) (Some (staging_path (cfg e))) False None None (Some (up_id x))"
  from ok have ids: "distinct (map up_id (uploads d))" by (simp add: deletion_ok_def)
  show ?thesis
  proof (cases ?removed)
    case (Inl y)
    with run have "on_failure e now job_id token y d f = (r, d', f')" unfolding process_upload_def Let_def by simp
    from on_failure_leaves [OF this] show ?thesis by (auto simp: goes_on_def)
  next
    case (Inr z)
    obtain b f1 where z: "z = (b, f1)" by (cases z)
    have keep: "files f1 (canonical e p) = files f (canonical e p)" if "p \<in> others_paths u d" for p
    proof (cases "prefix ''duplicate:'' (up_staging_path x)")
      case True
      with Inr z show ?thesis by simp
    next
      case False
      with Inr z have "safely_unlink_catalog_path e d f (up_staging_path x) (Some (staging_path (cfg e))) False
          None None (Some (up_id x)) = Inr (b, f1)" by simp
      moreover have "references e d None None (Some (up_id x)) (canonical e p)"
        using x by (intro others_referenced [OF that _ ids]) blast
      ultimately show ?thesis using hp by (rule unlink_keeps_referenced)
    qed
    from run Inr z have eq: "r = None" "f' = f1"
      "d' = set_job job_id (\<lambda>j. renew e now (j\<lparr>j_uploads_purged := j_uploads_purged j + 1\<rparr>))
         (d\<lparr>uploads := sql_delete (\<lambda>y. up_id y = up_id x) (uploads d)\<rparr>)"
      unfolding process_upload_def Let_def by simp_all
    have "up_id y = up_id x \<Longrightarrow> y \<in> set (uploads d) \<Longrightarrow> up_user_id y = u" for y
      using key_unique [OF ids] x by blast
    then have "{y \<in> set (uploads d'). up_user_id y \<noteq> u} = {y \<in> set (uploads d). up_user_id y \<noteq> u}"
      by (auto simp: eq set_sql_delete)
    then have "leaves_others e u d f d' f'"
      using keep by (simp add: leaves_others_def others_users_def others_assets_def others_replicas_def
          others_uploads_def eq)
    moreover have "deletion_ok d'"
      using ok by (simp add: eq deletion_ok_def catalog_ok_def distinct_map_sql_delete)
    moreover have "job_for job_id u d'"
      unfolding eq by (rule job_for_set_job [OF job]) (simp_all add: renew_def)
    ultimately show ?thesis using eq by (simp add: goes_on_def)
  qed
qed

lemma unlink_staged_keeps:
  assumes "unlink_staged e d ps f = (res, f')" "host_paths e" "references e d None None None q"
  shows "files f' q = files f q"
  using assms
proof (induction e d ps f rule: unlink_staged.induct)
  case (2 e d p ps f)
  show ?case
  proof (cases "safely_unlink_catalog_path e d f (resolve e p) (Some (staging_path (cfg e))) False None None None")
    case (Inl x)
    with "2.prems"(1) show ?thesis by simp
  next
    case (Inr y)
    obtain b f1 where y: "y = (b, f1)" by (cases y)
    from Inr y "2.prems"(1) have "unlink_staged e d ps f1 = (res, f')" by simp
    from "2.IH" [OF Inr y [symmetric] this "2.prems"(2,3)] unlink_keeps_referenced [OF Inr [unfolded y] "2.prems"(3,2)]
    show ?thesis by simp
  qed
qed simp

lemma purged_tables:
  assumes "safely_purge_asset e now a (ret, d, f) = (Inr True, ret', d', f')"
    "distinct (map r_id (replicas d))" "host_paths e"
  shows "set (assets d') = {x \<in> set (assets d). a_id x \<noteq> a_id a} \<and>
    set (replicas d') = {r \<in> set (replicas d). r_asset_id r \<noteq> a_id a} \<and>
    uploads d' = uploads d \<and> users d' = users d \<and> jobs d' = jobs d"
  using assms
proof (cases rule: purge_cases)
  case (purged d2 x)
  from purged(3) have "assets d2 = sql_update (\<lambda>b. a_id b = a_id a) (\<lambda>b. b\<lparr>a_lifecycle_state := Purging\<rparr>) (assets d)"
    and R: "set (replicas d2) \<subseteq> set (replicas d)"
      "\<forall>r \<in> set (replicas d). r_asset_id r \<noteq> a_id a \<longrightarrow> r \<in> set (replicas d2)"
    and same: "uploads d2 = uploads d" "users d2 = users d" "jobs d2 = jobs d"
    by (simp_all add: purge_inv_def mark_purging_def)
  then have "set (assets d') = {x \<in> set (assets d). a_id x \<noteq> a_id a}"
    by (auto simp: purged(4) set_sql_delete set_sql_update image_iff)
  moreover have "set (replicas d') = {r \<in> set (replicas d). r_asset_id r \<noteq> a_id a}"
    using R by (auto simp: purged(4) set_sql_delete)
  ultimately show ?thesis using same by (simp add: purged(4))
qed simp_all

lemma erase_asset_leaves:
  assumes run: "erase_asset e now sc job_id token a d f = (r, d', f')" and ok: "deletion_ok d"
    and hp: "host_paths e" and a: "a \<in> set (assets d)" "a_user_id a = u" and job: "job_for job_id u d"
  shows "leaves_others e u d f d' f' \<and> goes_on job_id u d r d'"
proof -
  from ok have cat: "catalog_ok d" and up: "distinct (map up_id (uploads d))" by (simp_all add: deletion_ok_def)
  then have ids: "distinct (map a_id (assets d))" and rids: "distinct (map r_id (replicas d))"
    by (simp_all add: catalog_ok_def assets_ok_distinct)
  obtain res1 f1 where s1: "unlink_staged e d (owned_staging_paths_for_asset e f sc (a_id a) (a_user_id a)) f = (res1, f1)"
    by (rule prod.exhaust)
  have k1: "files f1 (canonical e p) = files f (canonical e p)" if "p \<in> others_paths u d" for p
    by (rule unlink_staged_keeps [OF s1 hp others_referenced [OF that _ up]]) simp
  obtain res2 ret d2 f2 where s2: "safely_purge_asset e now a (Some [], d, f1) = (res2, ret, d2, f2)"
    by (metis prod_cases4)
  have k2: "files f2 (canonical e p) = files f (canonical e p)" if "p \<in> others_paths u d" for p
    using purge_keeps_protected [OF s2 rids hp others_protected [OF that a ids]] k1 [OF that] by simp
  have fail: "leaves_others e u d f d' f' \<and> goes_on job_id u d r d'"
    if "on_failure e now job_id token x d g = (r, d', f')" "g = f1 \<or> g = f2" for x g
    using on_failure_leaves [OF that(1), where f = f and u = u] that(2) k1 k2 by (auto simp: goes_on_def)
  show ?thesis
  proof (cases res1)
    case (Inl x)
    with run s1 show ?thesis by (intro fail [of x f1]) (simp_all add: erase_asset_def)
  next
    case (Inr y)
    show ?thesis
    proof (cases res2)
      case (Inl x)
      with run s1 s2 Inr show ?thesis by (intro fail [of x f2]) (simp_all add: erase_asset_def)
    next
      case Inr2: (Inr b)
      show ?thesis
      proof (cases b)
        case True
        define g where "g j = renew e now (j\<lparr>j_assets_purged := j_assets_purged j + 1,
                  j_retained_legacy_paths := j_retained_legacy_paths j + int (length (the ret))\<rparr>)" for j
        have eq: "r = None" "f' = f2" "d' = set_job job_id g d2"
          using run s1 s2 Inr Inr2 True by (simp_all add: erase_asset_def g_def [abs_def])
        have run2: "safely_purge_asset e now a (Some [], d, f1) = (Inr True, ret, d2, f2)"
          using s2 Inr2 True by simp
        note t = purged_tables [OF run2 rids hp]
        have other: "a_id x \<noteq> a_id a" if "x \<in> set (assets d)" "a_user_id x \<noteq> u" for x
          using key_unique [OF ids that(1) a(1)] that(2) a(2) by blast
        have "{x \<in> set (assets d2). a_user_id x \<noteq> u} = {x \<in> set (assets d). a_user_id x \<noteq> u}"
          using t other by auto
        moreover have "{r \<in> set (replicas d2). \<exists>x \<in> set (assets d2). a_id x = r_asset_id r \<and> a_user_id x \<noteq> u} =
            {r \<in> set (replicas d). \<exists>x \<in> set (assets d). a_id x = r_asset_id r \<and> a_user_id x \<noteq> u}"
          using t other by auto
        ultimately have "leaves_others e u d f d' f'"
          using t k2 by (simp add: leaves_others_def others_users_def others_assets_def others_replicas_def
              others_uploads_def eq)
        moreover have "deletion_ok d'"
          using safely_purge_ok [OF run2 cat hp a(1)] t up by (simp add: eq deletion_ok_def catalog_ok_def)
        moreover have "job_for job_id u d'"
          unfolding eq by (rule job_for_set_job [OF job]) (use t in \<open>simp_all add: g_def renew_def\<close>)
        ultimately show ?thesis using eq t by (simp add: goes_on_def)
      next
        case False
        show ?thesis
        proof (cases "ret = Some []")
          case True
          with run s1 s2 Inr Inr2 False show ?thesis
            by (intro fail [of "RuntimeError ''asset_cleanup_deferred''" f2]) (simp_all add: erase_asset_def)
        next
          case ret: False
          have "f' = f2 \<and> r \<noteq> None \<and> r \<noteq> Some Completed \<and> users d' = users d \<and> assets d' = assets d \<and>
              replicas d' = replicas d \<and> uploads d' = uploads d"
            using run s1 s2 Inr Inr2 False ret by (auto simp: erase_asset_def split: option.splits)
          with k2 show ?thesis by (auto simp: goes_on_def intro: leaves_others_rows)
        qed
      qed
    qed
  qed
qed

text \<open>The sweep unlinks nothing the catalogue names.\<close>

lemma files_rmdir [simp]: "files (rmdir e sc p f) = files f"
  by (simp add: rmdir_def)

lemma sweep_candidate_keeps:
  assumes "sweep_candidate e d sc lexical rt rr c n f = (res, f')" "host_paths e"
    "references e d None None None q"
  shows "files f' q = files f q"
proof (cases "safely_unlink_catalog_path e d f (canonical_storage_path e c) (Some rt) rr None None None")
  case (Inl x)
  with assms(1) show ?thesis by (auto simp: sweep_candidate_def split: if_splits sum.splits)
next
  case (Inr y)
  obtain b f1 where y: "y = (b, f1)" by (cases y)
  with assms(1) Inr have "f' = f \<or> f' = f1 \<or> f' = rmdir e sc c f"
    by (auto simp: sweep_candidate_def split: if_splits sum.splits)
  with unlink_keeps_referenced [OF Inr [unfolded y] assms(3,2)] show ?thesis by auto
qed

lemma sweep_candidates_keeps:
  "sweep_candidates e d sc lexical rt rr cs n f = (res, f') \<Longrightarrow> host_paths e \<Longrightarrow>
   references e d None None None q \<Longrightarrow> files f' q = files f q"
proof (induction e d sc lexical rt rr cs n f rule: sweep_candidates.induct)
  case (2 e d sc lexical rt rr c cs n f)
  obtain r1 f1 where s: "sweep_candidate e d sc lexical rt rr c n f = (r1, f1)" by (rule prod.exhaust)
  note k = sweep_candidate_keeps [OF s "2.prems"(2,3)]
  show ?case
  proof (cases r1)
    case (Inl x)
    with "2.prems"(1) s k show ?thesis by simp
  next
    case (Inr m)
    with "2.prems"(1) s have "sweep_candidates e d sc lexical rt rr cs m f1 = (res, f')" by simp
    from "2.IH" [OF s [symmetric] Inr this "2.prems"(2,3)] k show ?thesis by simp
  qed
qed simp

lemma sweep_namespace_keeps:
  assumes "sweep_namespace e d sc ns n f = (res, f')" "host_paths e" "references e d None None None q"
  shows "files f' q = files f q"
proof -
  obtain namespace rt rr where ns: "ns = (namespace, rt, rr)" by (cases ns)
  obtain r1 f1 where s: "sweep_candidates e d sc (normcase e namespace) rt rr
      (sort_key (\<lambda>p. - int (length (path_parts p))) (sc_tree sc namespace)) n f = (r1, f1)" by (rule prod.exhaust)
  have "f' = f \<or> f' = f1 \<or> f' = rmdir e sc namespace f1"
    using assms(1) s by (auto simp: sweep_namespace_def ns split: sum.splits if_splits)
  with sweep_candidates_keeps [OF s assms(2,3)] show ?thesis by auto
qed

lemma sweep_all_keeps:
  assumes "sweep_all e d sc nss n f = (res, f')" "host_paths e" "references e d None None None q"
  shows "files f' q = files f q"
  using assms
proof (induction e d sc nss n f rule: sweep_all.induct)
  case (2 e d sc ns nss n f)
  obtain r1 f1 where s: "sweep_namespace e d sc ns n f = (r1, f1)" by (rule prod.exhaust)
  note k = sweep_namespace_keeps [OF s "2.prems"(2,3)]
  show ?case
  proof (cases r1)
    case (Inl x)
    with "2.prems"(1) s k show ?thesis by simp
  next
    case (Inr m)
    with "2.prems"(1) s have "sweep_all e d sc nss m f1 = (res, f')" by simp
    from "2.IH" [OF s [symmetric] Inr this "2.prems"(2,3)] k show ?thesis by simp
  qed
qed simp

lemma sweep_keeps:
  assumes "sweep_account_namespaces e d sc u f = (res, f')" "host_paths e" "references e d None None None q"
  shows "files f' q = files f q"
proof (cases "require_storage e f MANAGED_ROLES")
  case (Inl x)
  with assms(1) show ?thesis by (simp add: sweep_account_namespaces_def)
next
  case (Inr y)
  with assms(1) have "sweep_all e d sc (account_namespaces e f sc u) (linked_kinds e f sc) f = (res, f')"
    by (simp add: sweep_account_namespaces_def)
  then show ?thesis using assms(2,3) by (rule sweep_all_keeps)
qed

section \<open>The final deletion\<close>

lemma delete_user_assets_none:
  "\<forall>a \<in> set (assets d). a_user_id a \<noteq> u \<Longrightarrow> delete_user_assets u d = d"
proof -
  assume "\<forall>a \<in> set (assets d). a_user_id a \<noteq> u"
  then have "filter (\<lambda>a. a_user_id a = u) (assets d) = []" by (simp add: filter_empty_conv)
  then show ?thesis by (simp add: delete_user_assets_def)
qed

lemma image_sql_update: "(\<And>x. g (h x) = g x) \<Longrightarrow> g ` set (sql_update P h t) = g ` set t"
  by (induction t) simp_all

lemma delete_user_rows:
  assumes "\<forall>a \<in> set (assets d). a_user_id a \<noteq> u"
  shows "(\<lambda>a. a\<lparr>a_external_library_id := None\<rparr>) ` set (assets (delete_user u d)) =
      (\<lambda>a. a\<lparr>a_external_library_id := None\<rparr>) ` set (assets d)"
    "(\<lambda>r. r\<lparr>r_drive_id := None\<rparr>) ` set (replicas (delete_user u d)) = (\<lambda>r. r\<lparr>r_drive_id := None\<rparr>) ` set (replicas d)"
    "(\<lambda>x. x\<lparr>up_device_id := None\<rparr>) ` set (uploads (delete_user u d)) =
      (\<lambda>x. x\<lparr>up_device_id := None\<rparr>) ` {x \<in> set (uploads d). up_user_id x \<noteq> u}"
    "users (delete_user u d) = sql_delete (\<lambda>x. u_id x = u) (users d)"
    "jobs (delete_user u d) = jobs d"
  using assms
  by (simp_all add: delete_user_def Let_def delete_user_assets_none delete_user_storage_def
      destroy_credentials_def image_sql_update set_sql_delete)

definition erased :: "uuid \<Rightarrow> db \<Rightarrow> bool" where
  "erased u d \<longleftrightarrow> no_credentials u d \<and> (\<forall>x \<in> set (users d). u_id x \<noteq> u) \<and>
     (\<forall>x \<in> set (assets d). a_user_id x \<noteq> u) \<and> (\<forall>x \<in> set (uploads d). up_user_id x \<noteq> u) \<and>
     (\<forall>x \<in> set (policies d). p_user_id x \<noteq> u) \<and> (\<forall>x \<in> set (drives d). dr_user_id x \<noteq> u) \<and>
     (\<forall>x \<in> set (libraries d). li_user_id x \<noteq> u) \<and> (\<forall>x \<in> set (sync_roots d). sr_user_id x \<noteq> u) \<and>
     (\<forall>x \<in> set (monitoring_events d). me_user_id x \<noteq> Some u) \<and>
     (\<forall>x \<in> set (audit_events d). au_user_id x \<noteq> Some u) \<and>
     (\<forall>x \<in> set (album_members d). am_invited_by x \<noteq> Some u)"

lemma delete_user_erases:
  assumes "\<forall>a \<in> set (assets d). a_user_id a \<noteq> u"
  shows "erased u (delete_user u d)"
proof -
  define d1 where "d1 = delete_albums u (delete_user_storage u (delete_user_sync u d))"
  have eq: "delete_user u d = (destroy_credentials u d1)\<lparr>shares := sql_delete (\<lambda>s. sh_user_id s = u) (shares d1),
           album_invites := sql_delete (\<lambda>i. ai_invited_by i = u) (album_invites d1),
           album_members := sql_update (\<lambda>m. am_invited_by m = Some u) (\<lambda>m. m\<lparr>am_invited_by := None\<rparr>)
             (sql_delete (\<lambda>m. am_user_id m = u) (album_members d1)),
           audit_events := sql_update (\<lambda>x. au_user_id x = Some u) (\<lambda>x. x\<lparr>au_user_id := None\<rparr>) (audit_events d1),
           users := sql_delete (\<lambda>x. u_id x = u) (users d1)\<rparr>"
    by (simp add: delete_user_def Let_def delete_user_assets_none [OF assms] d1_def)
  have al: "\<forall>x \<in> set (albums d1). al_user_id x \<noteq> u"
    by (simp add: d1_def delete_albums_def Let_def set_sql_delete)
  have "no_credentials u (delete_user u d)"
    unfolding no_credentials_def eq using destroy_credentials_tables(1,2) al
    by (fastforce simp: destroy_credentials_tables(3-) set_sql_delete set_sql_update)
  moreover have "\<forall>x \<in> set (assets (delete_user u d)). a_user_id x \<noteq> u"
    using assms by (auto simp: eq d1_def delete_user_storage_def Let_def set_sql_update)
  moreover have "\<forall>x \<in> set (uploads (delete_user u d)). up_user_id x \<noteq> u"
    by (auto simp: eq d1_def delete_user_storage_def destroy_credentials_def Let_def set_sql_update set_sql_delete)
  moreover have "\<forall>x \<in> set (audit_events (delete_user u d)). au_user_id x \<noteq> Some u"
    "\<forall>x \<in> set (album_members (delete_user u d)). am_invited_by x \<noteq> Some u"
    "\<forall>x \<in> set (users (delete_user u d)). u_id x \<noteq> u"
    by (auto simp: eq set_sql_update set_sql_delete)
  moreover have "\<forall>x \<in> set (policies (delete_user u d)). p_user_id x \<noteq> u"
    "\<forall>x \<in> set (drives (delete_user u d)). dr_user_id x \<noteq> u"
    "\<forall>x \<in> set (libraries (delete_user u d)). li_user_id x \<noteq> u"
    "\<forall>x \<in> set (monitoring_events (delete_user u d)). me_user_id x \<noteq> Some u"
    by (simp_all add: eq d1_def delete_user_storage_def Let_def set_sql_delete)
  moreover have "\<forall>x \<in> set (sync_roots (delete_user u d)). sr_user_id x \<noteq> u"
    by (simp add: eq d1_def delete_user_sync_def Let_def set_sql_delete)
  ultimately show ?thesis unfolding erased_def by blast
qed

lemma others_replicas_alt:
  "others_replicas u d = {r \<in> (\<lambda>r. r\<lparr>r_drive_id := None\<rparr>) ` set (replicas d). r_asset_id r \<in> a_id ` others_assets u d}"
proof -
  have ids: "a_id ` others_assets u d = a_id ` {a \<in> set (assets d). a_user_id a \<noteq> u}"
    by (simp add: others_assets_def image_image)
  have "(\<exists>a \<in> set (assets d). a_id a = r_asset_id r \<and> a_user_id a \<noteq> u) \<longleftrightarrow>
      r_asset_id (r\<lparr>r_drive_id := None\<rparr>) \<in> a_id ` others_assets u d" for r
    unfolding ids by force
  then show ?thesis unfolding others_replicas_def by blast
qed

lemma delete_user_others:
  assumes none: "\<forall>a \<in> set (assets d). a_user_id a \<noteq> u"
  shows "others_users u (delete_user u d) = others_users u d \<and> others_assets u (delete_user u d) = others_assets u d \<and>
    others_replicas u (delete_user u d) = others_replicas u d \<and> others_uploads u (delete_user u d) = others_uploads u d"
proof -
  note rows = delete_user_rows [OF none]
  have gone: "\<forall>a \<in> set (assets (delete_user u d)). a_user_id a \<noteq> u" "\<forall>x \<in> set (uploads (delete_user u d)). up_user_id x \<noteq> u"
    using delete_user_erases [OF none] by (simp_all add: erased_def)
  have all: "{a \<in> A. P a} = A" if "\<forall>a \<in> A. P a" for A :: "'a set" and P using that by auto
  have "others_users u (delete_user u d) = others_users u d"
    unfolding others_users_def rows(4) by (auto simp: set_sql_delete)
  moreover have A: "others_assets u (delete_user u d) = others_assets u d"
    unfolding others_assets_def all [OF gone(1)] all [OF none] by (rule rows(1))
  moreover have "others_replicas u (delete_user u d) = others_replicas u d"
    unfolding others_replicas_alt rows(2) A ..
  moreover have "others_uploads u (delete_user u d) = others_uploads u d"
    unfolding others_uploads_def all [OF gone(2)] by (rule rows(3))
  ultimately show ?thesis by blast
qed

lemma redact_others [simp]:
  "others_users u (redact_audit v d) = others_users u d" "others_assets u (redact_audit v d) = others_assets u d"
  "others_replicas u (redact_audit v d) = others_replicas u d" "others_uploads u (redact_audit v d) = others_uploads u d"
  by (simp_all add: others_users_def others_assets_def others_replicas_def others_uploads_def)

lemma sql_update_all:
  "(\<And>r. P r \<Longrightarrow> Q (g r)) \<Longrightarrow> (\<And>r. \<not> P r \<Longrightarrow> Q r) \<Longrightarrow> r \<in> set (sql_update P g t) \<Longrightarrow> Q r"
  by (induction t) (auto split: if_splits)

lemma finalise_leaves:
  assumes run: "finalise e now sc job_id token u d f = (r, d', f')" and ok: "deletion_ok d"
    and hp: "host_paths e" and job: "job_for job_id u d"
  shows "leaves_others e u d f d' f' \<and> (r = None \<longrightarrow> deletion_ok d' \<and> job_for job_id u d' \<and> users d' = users d) \<and>
    (r = Some Completed \<longrightarrow> (\<exists>x \<in> set (users d). u_id x = u) \<longrightarrow> erased u d' \<and>
       (\<forall>j \<in> set (jobs d'). j_id j = job_id \<longrightarrow> j_status j = JCompleted \<and> j_subject_id j = None))"
proof (cases "sql_first (\<lambda>j. j_id j = job_id \<and> j_lease_token j = Some token) (jobs d)")
  case None
  with run show ?thesis by (auto simp: finalise_def leaves_others_refl)
next
  case (Some j)
  from ok have up: "distinct (map up_id (uploads d))" by (simp add: deletion_ok_def)
  show ?thesis
  proof (cases "sql_first (\<lambda>a. a_user_id a = u) (assets d) \<noteq> None \<or> sql_first (\<lambda>x. up_user_id x = u) (uploads d) \<noteq> None")
    case True
    then have "finalise e now sc job_id token u d f = (None, d, f)" unfolding finalise_def Some by simp
    with run ok job show ?thesis by (simp add: leaves_others_refl)
  next
    case False
    then have none: "\<forall>a \<in> set (assets d). a_user_id a \<noteq> u" "\<forall>x \<in> set (uploads d). up_user_id x \<noteq> u"
      by (auto simp: sql_first_None)
    obtain res f1 where sw: "sweep_account_namespaces e d sc u f = (res, f1)" by (rule prod.exhaust)
    have keep: "files f1 (canonical e p) = files f (canonical e p)" if "p \<in> others_paths u d" for p
      by (rule sweep_keeps [OF sw hp others_referenced [OF that _ up]]) simp
    show ?thesis
    proof (cases "\<exists>k. res = Inr k \<and> k = 0")
      case False
      have "leaves_others e u d f d' f' \<and> r \<noteq> None \<and> r \<noteq> Some Completed"
      proof (cases res)
        case (Inl x)
        with run sw Some \<open>\<not> (_ \<or> _)\<close> have "on_failure e now job_id token x d f1 = (r, d', f')"
          by (simp add: finalise_def)
        then show ?thesis by (rule on_failure_leaves [OF _ keep])
      next
        case (Inr k)
        with run sw Some \<open>\<not> (_ \<or> _)\<close> False
        have "r = Some ManualReview" "f' = f1"
          "d' = redact_audit u (set_job job_id (give_up now ''account_namespace_requires_review'' k) d)"
          by (simp_all add: finalise_def)
        with keep show ?thesis by (auto intro: leaves_others_rows)
      qed
      then show ?thesis by blast
    next
      case True
      define dd where "dd = delete_found_user u (redact_audit u d)"
      from True run sw Some \<open>\<not> (_ \<or> _)\<close> obtain t where
        eq: "r = Some Completed" "f' = f1"
          "d' = audit_anonymous ''account_deletion_completed'' t (set_job job_id (complete_job now) dd)"
        by (auto simp: finalise_def dd_def)
      have noneR: "\<forall>a \<in> set (assets (redact_audit u d)). a_user_id a \<noteq> u" using none by simp
      have others: "others_users u dd = others_users u d" "others_assets u dd = others_assets u d"
        "others_replicas u dd = others_replicas u d" "others_uploads u dd = others_uploads u d"
        using delete_user_others [OF noneR] by (simp_all add: dd_def delete_found_user_def)
      have "leaves_others e u d f d' f'"
        using others keep by (simp add: leaves_others_def others_users_def others_assets_def others_replicas_def
            others_uploads_def eq)
      moreover have "erased u d'" if x: "\<exists>x \<in> set (users d). u_id x = u"
      proof -
        have "sql_first (\<lambda>x. u_id x = u) (users (redact_audit u d)) \<noteq> None"
          unfolding sql_first_not_None using x by simp
        then have "dd = delete_user u (redact_audit u d)"
          unfolding dd_def delete_found_user_def by (rule if_not_P)
        with delete_user_erases [OF noneR] have "erased u dd" by simp
        then show ?thesis
          by (simp add: erased_def no_credentials_def eq audit_anonymous_def set_job_def set_sql_insert)
      qed
      moreover have "\<forall>j \<in> set (jobs d'). j_id j = job_id \<longrightarrow> j_status j = JCompleted \<and> j_subject_id j = None"
      proof -
        have "jobs d' = sql_update (\<lambda>j. j_id j = job_id) (complete_job now) (jobs dd)" by (simp add: eq(3))
        moreover have "j_id j = job_id \<longrightarrow> j_status j = JCompleted \<and> j_subject_id j = None"
          if "j \<in> set (sql_update (\<lambda>j. j_id j = job_id) (complete_job now) (jobs dd))" for j
          by (rule sql_update_all [OF _ _ that]) (simp_all add: complete_job_def)
        ultimately show ?thesis by simp
      qed
      ultimately show ?thesis using eq(1) by simp
    qed
  qed
qed

lemma process_item_leaves:
  assumes run: "process_item e now sc held job_id token d f = (r, d', f')" and ok: "deletion_ok d"
    and hp: "host_paths e" and job: "job_for job_id u d"
  shows "leaves_others e u d f d' f' \<and> (r = None \<longrightarrow> deletion_ok d' \<and> job_for job_id u d' \<and> users d' = users d) \<and>
    (r = Some Completed \<longrightarrow> (\<exists>x \<in> set (users d). u_id x = u) \<longrightarrow> erased u d' \<and>
       (\<forall>j \<in> set (jobs d'). j_id j = job_id \<longrightarrow> j_status j = JCompleted \<and> j_subject_id j = None))"
proof (cases "sql_first (\<lambda>j. j_id j = job_id \<and> j_lease_token j = Some token) (jobs d)")
  case None
  with run show ?thesis by (auto simp: process_item_def leaves_others_refl)
next
  case (Some j)
  then have "j \<in> set (jobs d) \<and> j_id j = job_id" by auto
  with job have sub: "j_subject_id j = Some u" by (simp add: job_for_def)
  show ?thesis
  proof (cases "require_storage e f MANAGED_ROLES")
    case (Inl x)
    with run Some sub have "on_failure e now job_id token x d f = (r, d', f')" by (simp add: process_item_def)
    from on_failure_leaves [OF this, where f = f and u = u] show ?thesis by auto
  next
    case (Inr y)
    show ?thesis
    proof (cases "next_upload held u d")
      case (Some x)
      with run Inr \<open>sql_first _ _ = Some j\<close> sub
      have "process_upload e now job_id token x d f = (r, d', f')" by (simp add: process_item_def)
      from process_upload_leaves [OF this ok hp _ _ job] next_upload_in [OF Some] show ?thesis
        by (simp add: goes_on_def)
    next
      case up: None
      show ?thesis
      proof (cases "next_asset held u d")
        case (Some a)
        with run Inr up \<open>sql_first _ _ = Some j\<close> sub
        have "erase_asset e now sc job_id token a d f = (r, d', f')" by (simp add: process_item_def)
        from erase_asset_leaves [OF this ok hp _ _ job] next_asset_in [OF Some] show ?thesis
          by (simp add: goes_on_def)
      next
        case None
        with run Inr up \<open>sql_first _ _ = Some j\<close> sub
        have "finalise e now sc job_id token u d f = (r, d', f')" by (simp add: process_item_def)
        then show ?thesis by (rule finalise_leaves [OF _ ok hp job])
      qed
    qed
  qed
qed

lemma batch_leaves:
  assumes "process_account_deletion_batch e world n job_id token d f = (r, d', f')" "deletion_ok d"
    "host_paths e" "job_for job_id u d"
  shows "leaves_others e u d f d' f' \<and>
    (r = Completed \<longrightarrow> (\<exists>x \<in> set (users d). u_id x = u) \<longrightarrow> erased u d' \<and>
       (\<forall>j \<in> set (jobs d'). j_id j = job_id \<longrightarrow> j_status j = JCompleted \<and> j_subject_id j = None))"
  using assms
proof (induction n arbitrary: d f)
  case 0
  then show ?case by (auto split: option.splits intro: leaves_others_rows leaves_others_refl)
next
  case (Suc n)
  obtain now sc held where w: "world (Suc n) = (now, sc, held)" by (metis prod_cases3)
  obtain r1 d1 f1 where s: "process_item e now sc held job_id token d f = (r1, d1, f1)" by (metis prod_cases3)
  note item = process_item_leaves [OF s Suc.prems(2-4)]
  show ?case
  proof (cases r1)
    case (Some x)
    with Suc.prems(1) w s item show ?thesis by simp
  next
    case None
    with Suc.prems(1) w s have "process_account_deletion_batch e world n job_id token d1 f1 = (r, d', f')" by simp
    from Suc.IH [OF this _ Suc.prems(3)] item None show ?thesis using leaves_others_trans by metis
  qed
qed



text \<open>A worker whose lease was taken over is fenced off: with a token that is not the job's
  any more it changes neither the catalogue nor a file.\<close>

theorem stale_worker_changes_nothing:
  assumes "\<forall>j \<in> set (jobs d). j_id j = job_id \<longrightarrow> j_lease_token j \<noteq> Some token"
  shows "process_account_deletion_batch e world n job_id token d f = (if n = 0 then StillPending else Stale, d, f)"
proof -
  have none: "sql_first (\<lambda>j. j_id j = job_id \<and> j_lease_token j = Some token) (jobs d) = None"
    "running_job job_id token d = None"
    using assms by (auto simp: sql_first_None running_job_def)
  show ?thesis by (cases n) (auto simp: none process_item_def split: prod.splits)
qed

section \<open>Replaying the ledger\<close>

lemma prepare_effect:
  assumes "prepare_account_deletion e now job_id nonce u d = (j, d')"
  shows "set (jobs d) \<subseteq> set (jobs d') \<and> map u_id (users d') = map u_id (users d) \<and>
    (\<exists>j \<in> set (jobs d'). j_subject_id j = Some (u_id u)) \<and>
    (\<forall>x \<in> set (users d). u_id x \<noteq> u_id u \<longrightarrow> x \<in> set (users d'))"
  using assms
proof (cases rule: prepare_cases)
  case existing
  then show ?thesis by (auto dest: sql_first_Some)
next
  case (staged d1)
  have "\<forall>x \<in> set (users d). u_id x \<noteq> u_id u \<longrightarrow> x \<in> set (users d')"
    by (auto simp: staged(3,4) set_sql_update)
  moreover have "map u_id (users d') = map u_id (users d)"
    by (simp add: staged(3,4) map_sql_update lock_out_def)
  ultimately show ?thesis by (simp add: staged(2-4) set_sql_insert new_job_def subset_insertI)
qed

lemma reconcile_records_effect:
  assumes "reconcile_records e nonce by_fp ms d = (Inr created, d')"
  shows "set (jobs d) \<subseteq> set (jobs d') \<and> map u_id (users d') = map u_id (users d) \<and>
    (\<forall>m \<in> set ms. \<forall>u. by_fp (mk_fingerprint m) = Some u \<longrightarrow> u_id u \<in> u_id ` set (users d) \<longrightarrow>
       (\<exists>j \<in> set (jobs d'). j_subject_id j = Some (u_id u))) \<and>
    (\<forall>x \<in> set (users d). (\<forall>m \<in> set ms. \<forall>u. by_fp (mk_fingerprint m) = Some u \<longrightarrow> u_id u \<noteq> u_id x) \<longrightarrow>
       x \<in> set (users d'))"
  using assms
proof (induction ms arbitrary: d created)
  case (Cons m ms)
  show ?case
  proof (cases "by_fp (mk_fingerprint m)")
    case None
    with Cons.prems have "reconcile_records e nonce by_fp ms d = (Inr created, d')" by simp
    from Cons.IH [OF this] None show ?thesis by auto
  next
    case (Some u)
    show ?thesis
    proof (cases "sql_first (\<lambda>x. u_id x = u_id u) (users d)")
      case None
      with Cons.prems Some have "reconcile_records e nonce by_fp ms d = (Inr created, d')" by simp
      from Cons.IH [OF this] Some None show ?thesis by (auto simp: sql_first_None)
    next
      case locked: (Some v)
      then have v: "u_id v = u_id u" by auto
      from Cons.prems Some locked obtain job_id t where
        parsed: "parse_uuid (mk_job_id m) = Some job_id" "parse_iso e (mk_requested_at m) = Some t"
        by (auto split: option.splits)
      obtain j d1 where p: "prepare_account_deletion e t job_id (nonce job_id) v d = (j, d1)" by (rule prod.exhaust)
      from Cons.prems Some locked parsed p obtain rest where
        "reconcile_records e nonce by_fp ms d1 = (Inr rest, d')"
        by (auto split: prod.splits sum.splits)
      note IH = Cons.IH [OF this]
      note eff = prepare_effect [OF p, unfolded v]
      have ids: "u_id ` set (users d1) = u_id ` set (users d)"
        using eff by (metis list.set_map)
      show ?thesis
      proof (intro conjI ballI allI impI)
        show "set (jobs d) \<subseteq> set (jobs d')" using IH eff by blast
        show "map u_id (users d') = map u_id (users d)" using IH eff by simp
        fix m' w assume "m' \<in> set (m # ms)" "by_fp (mk_fingerprint m') = Some w" "u_id w \<in> u_id ` set (users d)"
        then show "\<exists>j \<in> set (jobs d'). j_subject_id j = Some (u_id w)"
          using IH eff ids Some by (cases "m' = m") auto
      next
        fix x assume x: "x \<in> set (users d)"
          "\<forall>m' \<in> set (m # ms). \<forall>w. by_fp (mk_fingerprint m') = Some w \<longrightarrow> u_id w \<noteq> u_id x"
        then have "u_id x \<noteq> u_id u" using Some by force
        with x eff have "x \<in> set (users d1)" by blast
        with x(2) IH show "x \<in> set (users d')" by simp
      qed
    qed
  qed
qed simp

text \<open>Replaying the ledger loses no deletion and invents none: after a successful replay every
  account a marker names has its job, unless the job of that marker was already known, and an
  account no marker names is unchanged.\<close>

theorem replay_restores_deletions:
  assumes "reconcile_suppression_ledger e l nonce d = (Inr created, d')"
    "read_suppression_markers e l = Inr ms" "inj_on (suppression_fingerprint e) (u_id ` set (users d))" "x \<in> set (users d)"
  shows "(\<forall>m \<in> set ms. mk_fingerprint m = suppression_fingerprint e (u_id x) \<longrightarrow>
       parse_uuid (mk_job_id m) \<in> Some ` j_id ` set (jobs d) \<or>
       (\<exists>j \<in> set (jobs d'). j_subject_id j = Some (u_id x))) \<and>
    ((\<forall>m \<in> set ms. mk_fingerprint m \<noteq> suppression_fingerprint e (u_id x)) \<longrightarrow> x \<in> set (users d'))"
proof -
  let ?by = "users_by_fingerprint e d"
  from assms(1,2) have run: "reconcile_records e nonce ?by (missing_markers d ms) d = (Inr created, d')"
    by (simp add: reconcile_suppression_ledger_def)
  note eff = reconcile_records_effect [OF run]
  have found: "suppression_fingerprint e (u_id w) = fp \<and> w \<in> set (users d)" if "?by fp = Some w" for fp w
    using map_of_SomeD [OF that [unfolded users_by_fingerprint_def]] by auto
  have total: "\<exists>w. ?by (suppression_fingerprint e (u_id x)) = Some w \<and> u_id w = u_id x"
  proof -
    have "?by (suppression_fingerprint e (u_id x)) \<noteq> None"
      unfolding users_by_fingerprint_def map_of_eq_None_iff using assms(4) by force
    then obtain w where w: "?by (suppression_fingerprint e (u_id x)) = Some w" by auto
    from found [OF this] inj_onD [OF assms(3), of "u_id w" "u_id x"] assms(4) w show ?thesis by blast
  qed
  show ?thesis
  proof (intro conjI ballI impI)
    fix m assume m: "m \<in> set ms" "mk_fingerprint m = suppression_fingerprint e (u_id x)"
    show "parse_uuid (mk_job_id m) \<in> Some ` j_id ` set (jobs d) \<or> (\<exists>j \<in> set (jobs d'). j_subject_id j = Some (u_id x))"
    proof (cases "m \<in> set (missing_markers d ms)")
      case True
      with eff total m(2) assms(4) show ?thesis by (metis image_eqI)
    next
      case False
      with m(1) show ?thesis by (auto simp: missing_markers_def)
    qed
  next
    assume "\<forall>m \<in> set ms. mk_fingerprint m \<noteq> suppression_fingerprint e (u_id x)"
    then have "\<forall>m \<in> set (missing_markers d ms). \<forall>u. ?by (mk_fingerprint m) = Some u \<longrightarrow> u_id u \<noteq> u_id x"
      using found by (force simp: missing_markers_def)
    with eff assms(4) show "x \<in> set (users d')" by blast
  qed
qed

section \<open>On a concrete installation\<close>

definition sample_job :: job where
  "sample_job = (new_job sample_env 100 1 0)\<lparr>j_status := JRunning, j_lease_token := Some 7,
     j_lease_expires_at := Some 500\<rparr>"

definition deletion_db :: db where
  "deletion_db = empty_db\<lparr>users := [sample_user 1, sample_user 2], jobs := [sample_job],
     assets := [condemn 0 (sample_asset 10 1 ''/data/originals/a''), sample_asset 20 2 ''/data/originals/b''],
     replicas := [sample_replica 30 10 ''/data/replicas/a'']\<rparr>"

definition deletion_files :: fs where
  "deletion_files = sample_fs [(''/data/originals/a'', ''x''), (''/data/originals/b'', ''x''), (''/data/replicas/a'', ''x'')]"

definition sample_world :: "nat \<Rightarrow> time \<times> scan \<times> (uuid \<Rightarrow> bool)" where
  "sample_world n = (1000, \<lparr>sc_list = (\<lambda>_. []), sc_tree = (\<lambda>_. []), sc_link = (\<lambda>_. False),
     sc_rmdir = (\<lambda>_. True)\<rparr>, (\<lambda>_. False))"

abbreviation sample_batch :: "outcome \<times> db \<times> fs" where
  "sample_batch \<equiv> process_account_deletion_batch sample_env sample_world 3 100 7 deletion_db deletion_files"

lemma deletion_db_ok: "deletion_ok deletion_db" "job_for 100 1 deletion_db"
  by (simp_all add: deletion_ok_def job_for_def catalog_ok_def assets_ok_def deletion_db_def sample_defs
      same_item_def retention_ok_def condemn_def sample_job_def new_job_def)

theorem retry_delay_bounds_witness:
  "account_deletion_retry_base_seconds sample_settings \<le> retry_delay sample_settings 1 \<and>
   retry_delay sample_settings 1 \<le> retry_delay sample_settings 4"
  using retry_delay_bounds [of sample_settings 1 4]
  by (simp add: validate_deletion_settings_def sample_settings_def)

lemma sample_claim: "fst (claim_account_deletion_job sample_env 600 8 100 deletion_db) = Some 8"
  by code_simp

theorem lease_is_exclusive_witness:
  "claim_account_deletion_job sample_env 700 9 100 (snd (claim_account_deletion_job sample_env 600 8 100 deletion_db)) =
     (None, snd (claim_account_deletion_job sample_env 600 8 100 deletion_db))"
proof (rule lease_is_exclusive)
  show "claim_account_deletion_job sample_env 600 8 100 deletion_db =
      (Some 8, snd (claim_account_deletion_job sample_env 600 8 100 deletion_db))"
    by (simp add: prod_eq_iff sample_claim)
qed (simp add: sample_env_def sample_settings_def)

theorem due_jobs_claimable_witness:
  "j_id sample_job \<in> set (due_account_deletion_job_ids 600 100 deletion_db) \<longleftrightarrow>
     fst (claim_account_deletion_job sample_env 600 8 (j_id sample_job) deletion_db) = Some 8"
  by (rule due_jobs_claimable) (simp_all add: deletion_db_def empty_db_def sample_job_def new_job_def)

definition live_db :: db where
  "live_db = deletion_db\<lparr>jobs := []\<rparr>"

theorem staged_deletion_locks_out_witness:
  "no_credentials 1 (snd (prepare_account_deletion sample_env 5 101 ''n'' (sample_user 1) live_db))"
  using staged_deletion_locks_out [of sample_env 5 101 "''n''" "sample_user 1" live_db
      "fst (prepare_account_deletion sample_env 5 101 ''n'' (sample_user 1) live_db)"
      "snd (prepare_account_deletion sample_env 5 101 ''n'' (sample_user 1) live_db)"]
  by (simp add: live_db_def sample_user_def)


lemma sample_batch_completes: "fst sample_batch = Completed"
  by code_simp


theorem stale_worker_changes_nothing_witness:
  "process_account_deletion_batch sample_env sample_world 3 100 8 deletion_db deletion_files =
     (Stale, deletion_db, deletion_files)"
  using stale_worker_changes_nothing [of deletion_db 100 8 sample_env sample_world 3 deletion_files]
  by (simp add: deletion_db_def empty_db_def sample_job_def)

definition replay_ledger :: ledger where
  "replay_ledger = Directory True [(marker_name 100, Some (marker_text ledger_env 100 1 0))]"

lemma replay_read:
  "read_suppression_markers ledger_env replay_ledger =
     Inr [\<lparr>mk_job_id = uuid_str 100, mk_fingerprint = suppression_fingerprint ledger_env 1, mk_requested_at = isoformat 0\<rparr>]"
proof -
  note a = authentic_written [OF sample_codec_ok, unfolded ledger_env_text]
  have "suffix ''.json'' (marker_name 100)" by (simp add: marker_name_def suffix_def)
  then show ?thesis by (simp add: read_suppression_markers_def replay_ledger_def a)
qed

lemma replay_ok: "\<not> isl (fst (reconcile_suppression_ledger ledger_env replay_ledger (\<lambda>_. ''n'') live_db))"
proof -
  have "parse_iso ledger_env t = Some 0" for t by (simp add: ledger_env_def ledger_codec_def sample_env_def)
  then show ?thesis
    by (simp add: reconcile_suppression_ledger_def replay_read missing_markers_def live_db_def parse_uuid_str
        split: option.splits)
qed

lemma sample_fingerprints: "suppression_fingerprint ledger_env 1 \<noteq> suppression_fingerprint ledger_env 2"
  by code_simp

theorem replay_restores_deletions_witness:
  "\<exists>j \<in> set (jobs (snd (reconcile_suppression_ledger ledger_env replay_ledger (\<lambda>_. ''n'') live_db))).
     j_subject_id j = Some 1"
proof -
  let ?r = "reconcile_suppression_ledger ledger_env replay_ledger (\<lambda>_. ''n'') live_db"
  have run: "?r = (Inr (projr (fst ?r)), snd ?r)" using replay_ok by (simp add: prod_eq_iff)
  have ids: "u_id ` set (users live_db) = {1, 2}" "sample_user 1 \<in> set (users live_db)" "u_id (sample_user 1) = 1"
    "jobs live_db = []"
    by (simp_all add: live_db_def deletion_db_def sample_user_def)
  have inj: "inj_on (suppression_fingerprint ledger_env) (u_id ` set (users live_db))"
    unfolding ids(1) using sample_fingerprints by (simp add: inj_on_def)
  from conjunct1 [OF replay_restores_deletions [OF run replay_read inj ids(2)]]
  show ?thesis unfolding ids(3,4) by simp
qed

end
