(* ===== verification/Encryption.thy ===== *)
theory Encryption
  imports StoragePaths Sample
begin

text \<open>
  \<open>services/encryption.py\<close> and the operations of \<open>services/storage.py\<close> that move bytes: the
  format of an encrypted object (marker, nonce, ciphertext, tag), writing and reading it in
  chunks, publication that never overwrites, and the staging of a direct upload.  AES-GCM is a
  parameter: \<open>gcm_stream\<close> is the key stream applied from an offset on, \<open>gcm_tag\<close> the tag of a
  ciphertext.  A temporary file is private to the call and removed on every path, so it is not
  a part of the state.
\<close>

section \<open>The encrypted object\<close>

definition FORMAT_MAGIC :: bytes where
  "FORMAT_MAGIC = ''DRIVEBOUND-ENC-V1'' @ [CHR 0x00]"

definition NONCE_SIZE :: nat where "NONCE_SIZE = 12"
definition TAG_SIZE :: nat where "TAG_SIZE = 16"
definition CHUNK_SIZE :: nat where "CHUNK_SIZE = 4 * 1024 * 1024"

lemma length_MAGIC [simp]: "length FORMAT_MAGIC = 18"
  by (simp add: FORMAT_MAGIC_def)

text \<open>Reading a file by \<open>read(n)\<close> until nothing is left.\<close>

function pieces :: "nat \<Rightarrow> bytes \<Rightarrow> bytes list" where
  "pieces n xs = (if xs = [] then [] else if n = 0 then [xs] else take n xs # pieces n (drop n xs))"
  by pat_completeness auto
termination by (relation "measure (\<lambda>(n, xs). length xs)") auto

declare pieces.simps [simp del]

text \<open>One cipher context: \<open>update\<close> is called on each chunk in turn.\<close>

fun update_chunks :: "env \<Rightarrow> bytes \<Rightarrow> bytes \<Rightarrow> nat \<Rightarrow> bytes list \<Rightarrow> bytes list" where
  "update_chunks e key nonce off [] = []"
| "update_chunks e key nonce off (c # cs) =
     gcm_stream e key nonce off c # update_chunks e key nonce (off + length c) cs"

definition sealed_object :: "env \<Rightarrow> bytes \<Rightarrow> bytes \<Rightarrow> bytes \<Rightarrow> bytes" where
  "sealed_object e key nonce plain =
     (let ct = concat (update_chunks e key nonce 0 (pieces CHUNK_SIZE plain))
      in FORMAT_MAGIC @ nonce @ ct @ gcm_tag e key nonce ct)"

text \<open>The header checks: nonce, ciphertext and tag of a stored object.\<close>

definition parse_object :: "bytes \<Rightarrow> exn + bytes \<times> bytes \<times> bytes" where
  "parse_object stored =
     (let header = take (18 + NONCE_SIZE) stored in
      if length header \<noteq> 18 + NONCE_SIZE \<or> \<not> prefix FORMAT_MAGIC header
      then Inl (MediaEncryptionError ''Stored media has an unknown encryption format'')
      else if length stored < 18 + NONCE_SIZE + TAG_SIZE
      then Inl (MediaEncryptionError ''Stored media is truncated'')
      else Inr (drop 18 header, take (length stored - TAG_SIZE - (18 + NONCE_SIZE)) (drop (18 + NONCE_SIZE) stored),
                drop (length stored - TAG_SIZE) stored))"

text \<open>The chunks a reader yields, and how the iteration ends: authentication comes last.\<close>

definition decrypted_chunks :: "env \<Rightarrow> bytes \<Rightarrow> bytes \<Rightarrow> bytes list \<times> (exn + unit)" where
  "decrypted_chunks e key stored =
     (case parse_object stored of
        Inl x \<Rightarrow> ([], Inl x)
      | Inr (nonce, ct, tag) \<Rightarrow>
          (filter (\<lambda>c. c \<noteq> []) (update_chunks e key nonce 0 (pieces CHUNK_SIZE ct)),
           require (tag = gcm_tag e key nonce ct) (MediaEncryptionError ''Stored media failed authentication'')))"

section \<open>Keys\<close>

definition unwrap_user_media_key :: "env \<Rightarrow> string \<Rightarrow> exn + bytes" where
  "unwrap_user_media_key e wrapped =
     (case unwrap_key e wrapped of
        None \<Rightarrow> Inl (MediaEncryptionError ''User media key cannot be unwrapped'')
      | Some key \<Rightarrow> if length key \<noteq> 32 then Inl (MediaEncryptionError ''User media key has an invalid length'')
          else Inr key)"

section \<open>Files\<close>

definition parent_dir :: "string \<Rightarrow> string" where
  "parent_dir p = (let d = rev (dropWhile (\<lambda>c. c \<noteq> CHR ''/'') (rev p)) in if length d > 1 then butlast d else d)"

text \<open>Publication of a complete temporary file by an exclusive hard link.\<close>

definition publish :: "env \<Rightarrow> string \<Rightarrow> bytes \<Rightarrow> fs \<Rightarrow> (exn + unit) \<times> fs" where
  "publish e destination content f =
     (if write_fails e destination then (Inl (OSError ''write''), f)
      else case require_storage_path e f destination of
        Inl x \<Rightarrow> (Inl x, f)
      | Inr _ \<Rightarrow>
          if files f (canonical e destination) \<noteq> None then (Inl FileExistsError, f)
          else (Inr (), write_file e destination content f))"

definition encrypt_file :: "env \<Rightarrow> string \<Rightarrow> string \<Rightarrow> bytes \<Rightarrow> bytes \<Rightarrow> fs \<Rightarrow> (exn + unit) \<times> fs" where
  "encrypt_file e source destination key nonce f =
     (case sbind (require_storage_path e f source) (\<lambda>_. require_storage_path e f destination) of
        Inl x \<Rightarrow> (Inl x, f)
      | Inr _ \<Rightarrow>
          (let f = mkdirs e (parent_dir destination) f
           in case read_bytes e f source of
                Inl x \<Rightarrow> (Inl x, f)
              | Inr plain \<Rightarrow> publish e destination (sealed_object e key nonce plain) f))"

definition decrypt_file :: "env \<Rightarrow> string \<Rightarrow> string \<Rightarrow> bytes \<Rightarrow> fs \<Rightarrow> (exn + unit) \<times> fs" where
  "decrypt_file e source destination key f =
     (case sbind (require_storage_path e f source) (\<lambda>_. require_storage_path e f destination) of
        Inl x \<Rightarrow> (Inl x, f)
      | Inr _ \<Rightarrow>
          (let f = mkdirs e (parent_dir destination) f
           in case read_bytes e f source of
                Inl x \<Rightarrow> (Inl x, f)
              | Inr stored \<Rightarrow>
                  (case parse_object stored of
                     Inl x \<Rightarrow> (Inl x, f)
                   | Inr (nonce, ct, tag) \<Rightarrow>
                       (let plain = concat (update_chunks e key nonce 0 (pieces CHUNK_SIZE ct))
                        in if tag \<noteq> gcm_tag e key nonce ct
                           then (Inl (MediaEncryptionError ''Stored media failed authentication''), f)
                           else publish e destination plain f))))"

definition iter_decrypted_chunks :: "env \<Rightarrow> string \<Rightarrow> bytes \<Rightarrow> fs \<Rightarrow> bytes list \<times> (exn + unit)" where
  "iter_decrypted_chunks e source key f =
     (case require_storage_path e f source of
        Inl x \<Rightarrow> ([], Inl x)
      | Inr _ \<Rightarrow>
          (case read_bytes e f source of
             Inl x \<Rightarrow> ([], Inl x)
           | Inr stored \<Rightarrow> decrypted_chunks e key stored))"

section \<open>Publication of originals and derivatives\<close>

definition unlink_checked :: "env \<Rightarrow> string \<Rightarrow> fs \<Rightarrow> exn + fs" where
  "unlink_checked e p f = sbind (require_storage_path e f p) (\<lambda>_. unlink_missing_ok e p f)"

definition commit_original :: "env \<Rightarrow> string \<Rightarrow> string \<Rightarrow> fs \<Rightarrow> (exn + bool) \<times> fs" where
  "commit_original e staged final_path f =
     (case sbind (require_storage_path e f staged) (\<lambda>_. require_storage_path e f final_path) of
        Inl x \<Rightarrow> (Inl x, f)
      | Inr _ \<Rightarrow>
          (let f = mkdirs e (parent_dir final_path) f
           in case read_bytes e f staged of
                Inl x \<Rightarrow> (Inl x, f)
              | Inr content \<Rightarrow>
                  (let exists = (files f (canonical e final_path) \<noteq> None) in
                   if \<not> exists \<and> write_fails e final_path
                   then (case unlink_checked e final_path (write_file e final_path [] f) of
                           Inl x \<Rightarrow> (Inl x, write_file e final_path [] f)
                         | Inr f' \<Rightarrow> (Inl (OSError ''write''), f'))
                   else
                     (let f = (if exists then f else write_file e final_path content f)
                      in case unlink_checked e staged f of
                           Inl x \<Rightarrow> (Inl x, f)
                         | Inr f' \<Rightarrow> (Inr (\<not> exists), f')))))"

definition commit_encrypted_original ::
  "env \<Rightarrow> string \<Rightarrow> string \<Rightarrow> bytes \<Rightarrow> bytes \<Rightarrow> fs \<Rightarrow> (exn + bool) \<times> fs" where
  "commit_encrypted_original e staged final_path key nonce f =
     (case sbind (require_storage_path e f staged) (\<lambda>_. require_storage_path e f final_path) of
        Inl x \<Rightarrow> (Inl x, f)
      | Inr _ \<Rightarrow>
          (case encrypt_file e staged final_path key nonce f of
             (Inl FileExistsError, f) \<Rightarrow> (Inr False, f)
           | (Inl x, f) \<Rightarrow> (Inl x, f)
           | (Inr _, f) \<Rightarrow>
               (case unlink_checked e staged f of
                  Inl x \<Rightarrow> (Inl x, f)
                | Inr f' \<Rightarrow> (Inr True, f'))))"

definition commit_encrypted_derivative ::
  "env \<Rightarrow> string \<Rightarrow> string \<Rightarrow> bytes \<Rightarrow> bytes \<Rightarrow> fs \<Rightarrow> (exn + bool) \<times> fs" where
  "commit_encrypted_derivative e staged final_path key nonce f =
     (case sbind (require_storage_path e f staged) (\<lambda>_. require_storage_path e f final_path) of
        Inl x \<Rightarrow> (Inl x, f)
      | Inr _ \<Rightarrow>
          (let (res, f) = encrypt_file e staged final_path key nonce f
           in case unlink_checked e staged f of
                Inl x \<Rightarrow> (Inl x, f)
              | Inr f' \<Rightarrow>
                  ((case res of Inr _ \<Rightarrow> Inr True | Inl FileExistsError \<Rightarrow> Inr False | Inl x \<Rightarrow> Inl x), f')))"

text \<open>The request body arrives as a list of chunks; an empty read ends it.\<close>

fun stage_chunks :: "env \<Rightarrow> bytes list \<Rightarrow> bytes \<Rightarrow> exn + bytes" where
  "stage_chunks e [] acc = Inr acc"
| "stage_chunks e (c # cs) acc =
     (if c = [] then Inr acc
      else if int (length acc + length c) > max_upload_size (cfg e)
      then Inl (HTTPException 413 ''Upload exceeds the configured size limit'')
      else stage_chunks e cs (acc @ c))"

definition stage_upload ::
  "env \<Rightarrow> uuid option \<Rightarrow> uuid \<Rightarrow> bytes list \<Rightarrow> fs \<Rightarrow> (exn + string \<times> string \<times> int) \<times> fs" where
  "stage_upload e user_id fresh chunks f =
     (let dir = (case user_id of Some u \<Rightarrow> path_join (staging_path (cfg e)) (uuid_str u)
                 | None \<Rightarrow> staging_path (cfg e));
          path = path_join dir (uuid_str fresh @ ''.upload'')
      in case require_storage_path e f dir of
           Inl x \<Rightarrow> (Inl x, f)
         | Inr _ \<Rightarrow>
             (let f = mkdirs e dir f in
              if files f (canonical e path) \<noteq> None then
                (case unlink_missing_ok e path f of Inl x \<Rightarrow> (Inl x, f) | Inr f' \<Rightarrow> (Inl FileExistsError, f'))
              else case stage_chunks e chunks [] of
                     Inl x \<Rightarrow> (Inl x, f)
                   | Inr content \<Rightarrow>
                       if write_fails e path then (Inl (OSError ''write''), f)
                       else if content = [] then (Inl (HTTPException 400 ''Empty files are not accepted''), f)
                       else (Inr (path, sha256 e content, int (length content)), write_file e path content f)))"

section \<open>Chunks\<close>

lemma concat_pieces [simp]: "concat (pieces n xs) = xs"
proof (induction n xs rule: pieces.induct)
  case (1 n xs)
  show ?case
  proof (cases "xs = [] \<or> n = 0")
    case True
    then show ?thesis by (subst pieces.simps) auto
  next
    case False
    with 1 show ?thesis by (subst pieces.simps) simp
  qed
qed

text \<open>Documented behaviour of AES-GCM: the key stream is applied position by position, applying it
  twice gives back the text, and a tag has sixteen bytes.\<close>

definition aead_ok :: "env \<Rightarrow> bool" where
  "aead_ok e \<longleftrightarrow>
     (\<forall>k n i x y. gcm_stream e k n i (x @ y) = gcm_stream e k n i x @ gcm_stream e k n (i + length x) y) \<and>
     (\<forall>k n i x. length (gcm_stream e k n i x) = length x) \<and>
     (\<forall>k n i x. gcm_stream e k n i (gcm_stream e k n i x) = x) \<and>
     (\<forall>k n c. length (gcm_tag e k n c) = 16)"

lemma aead_okD:
  assumes "aead_ok e"
  shows "gcm_stream e k n i (x @ y) = gcm_stream e k n i x @ gcm_stream e k n (i + length x) y"
    "length (gcm_stream e k n i x) = length x" "gcm_stream e k n i (gcm_stream e k n i x) = x"
    "length (gcm_tag e k n c) = 16" "gcm_stream e k n i [] = []"
  using assms unfolding aead_ok_def by (blast, blast, blast, blast, metis length_0_conv list.size(3))

lemma concat_update_chunks:
  assumes "aead_ok e"
  shows "concat (update_chunks e k n off cs) = gcm_stream e k n off (concat cs)"
  by (induction cs arbitrary: off) (simp_all add: aead_okD [OF assms])

lemma concat_nonempty [simp]: "concat (filter (\<lambda>c. c \<noteq> []) cs) = concat cs"
  by (induction cs) auto

lemma sealed_object_alt:
  "aead_ok e \<Longrightarrow> sealed_object e key nonce plain =
     FORMAT_MAGIC @ nonce @ gcm_stream e key nonce 0 plain @ gcm_tag e key nonce (gcm_stream e key nonce 0 plain)"
  by (simp add: sealed_object_def Let_def concat_update_chunks)

lemma parse_sealed:
  assumes "aead_ok e" "length nonce = NONCE_SIZE"
  shows "parse_object (sealed_object e key nonce plain) =
     Inr (nonce, gcm_stream e key nonce 0 plain, gcm_tag e key nonce (gcm_stream e key nonce 0 plain))"
  using assms
  by (simp add: parse_object_def sealed_object_alt Let_def NONCE_SIZE_def TAG_SIZE_def aead_okD)

lemma parse_object_Inr:
  assumes "parse_object stored = Inr (nonce, ct, tag)"
  shows "stored = FORMAT_MAGIC @ nonce @ ct @ tag \<and> length nonce = NONCE_SIZE \<and> length tag = TAG_SIZE"
proof -
  let ?h = "18 + NONCE_SIZE" and ?n = "length stored - TAG_SIZE - (18 + NONCE_SIZE)"
  from assms have len: "?h + TAG_SIZE \<le> length stored" and pre: "prefix FORMAT_MAGIC (take ?h stored)"
    and eq: "nonce = drop 18 (take ?h stored)" "ct = take ?n (drop ?h stored)" "tag = drop (length stored - TAG_SIZE) stored"
    by (auto simp: parse_object_def Let_def split: if_splits)
  from pre obtain rest where "take ?h stored = FORMAT_MAGIC @ rest" by (auto simp: prefix_def)
  then have hd: "take ?h stored = FORMAT_MAGIC @ nonce" by (simp add: eq(1))
  have idx: "?n + ?h = length stored - TAG_SIZE" using len by simp
  have "drop ?h stored = take ?n (drop ?h stored) @ drop ?n (drop ?h stored)" by (rule append_take_drop_id [symmetric])
  also have "drop ?n (drop ?h stored) = tag" unfolding drop_drop idx eq(3) ..
  finally have rest: "drop ?h stored = ct @ tag" unfolding eq(2) .
  have "stored = take ?h stored @ drop ?h stored" by (rule append_take_drop_id [symmetric])
  then have "stored = FORMAT_MAGIC @ nonce @ ct @ tag" unfolding hd rest by simp
  moreover have "length nonce = NONCE_SIZE" "length tag = TAG_SIZE" using len by (simp_all add: eq)
  ultimately show ?thesis by simp
qed

lemma decrypted_chunks_Inr:
  assumes "aead_ok e"
  shows "decrypted_chunks e key stored = (cs, Inr ()) \<Longrightarrow>
    \<exists>nonce. length nonce = NONCE_SIZE \<and> stored = sealed_object e key nonce (concat cs)"
proof -
  assume run: "decrypted_chunks e key stored = (cs, Inr ())"
  then obtain nonce ct tag where p: "parse_object stored = Inr (nonce, ct, tag)"
    by (auto simp: decrypted_chunks_def split: sum.splits)
  with run have "tag = gcm_tag e key nonce ct" "concat cs = gcm_stream e key nonce 0 ct"
    by (auto simp: decrypted_chunks_def concat_update_chunks [OF assms])
  then have "stored = sealed_object e key nonce (concat cs)"
    using parse_object_Inr [OF p] by (simp add: sealed_object_alt [OF assms] aead_okD [OF assms])
  with parse_object_Inr [OF p] show ?thesis by blast
qed

lemma decrypted_chunks_sealed:
  assumes "aead_ok e" "length nonce = NONCE_SIZE"
  shows "\<exists>cs. decrypted_chunks e key (sealed_object e key nonce plain) = (cs, Inr ()) \<and> concat cs = plain"
  by (simp add: decrypted_chunks_def parse_sealed [OF assms] concat_update_chunks [OF assms(1)] aead_okD [OF assms(1)])

section \<open>Which files change\<close>

lemma load_manifest_files: "files f = files g \<Longrightarrow> load_storage_manifest e f = load_storage_manifest e g"
proof -
  assume same: "files f = files g"
  show ?thesis unfolding load_storage_manifest_def same ..
qed

lemma verify_binding_mkdirs: "verify_binding e f b = Inr u \<Longrightarrow> verify_binding e (mkdirs e p f) b = Inr u"
  by (auto simp: verify_binding_Inr is_dir_def mkdirs_def)

lemma require_path_mkdirs:
  assumes "require_storage_path e f p = Inr u"
  shows "require_storage_path e (mkdirs e q f) p = Inr u"
proof -
  have load: "load_storage_manifest e (mkdirs e q f) = load_storage_manifest e f"
    by (rule load_manifest_files) simp
  show ?thesis
  proof (cases "load_storage_manifest e f")
    case (Inl x)
    with assms show ?thesis by (simp add: require_storage_path_def)
  next
    case (Inr m)
    show ?thesis
    proof (cases m)
      case None
      with Inr load show ?thesis by (simp add: require_storage_path_def)
    next
      case (Some b)
      with Inr assms load show ?thesis
        by (simp add: require_storage_path_def Let_def verify_binding_mkdirs split: if_splits)
    qed
  qed
qed

lemma read_bytes_mkdirs [simp]: "read_bytes e (mkdirs e q f) p = read_bytes e f p"
  by (simp add: read_bytes_def)

lemma publish_cases:
  assumes "publish e dst content f = (r, f')"
  obtains (failed) x where "r = Inl x" "f' = f"
  | (published) "r = Inr ()" "f' = write_file e dst content f" "files f (canonical e dst) = None"
proof (cases "require_storage_path e f dst")
  case (Inl x)
  then have "publish e dst content f = (Inl (if write_fails e dst then OSError ''write'' else x), f)"
    by (simp add: publish_def)
  with assms have "r = Inl (if write_fails e dst then OSError ''write'' else x)" "f' = f" by simp_all
  then show ?thesis by (rule failed)
next
  case (Inr u)
  with assms show ?thesis by (auto simp: publish_def split: if_splits intro: failed published)
qed

lemma encrypt_cases:
  assumes "encrypt_file e src dst key nonce f = (r, f')"
  obtains (failed) x where "r = Inl x" "files f' = files f"
  | (published) plain where "r = Inr ()" "read_bytes e f src = Inr plain"
      "files f' = (files f)(canonical e dst \<mapsto> sealed_object e key nonce plain)" "files f (canonical e dst) = None"
proof (cases "sbind (require_storage_path e f src) (\<lambda>_. require_storage_path e f dst)")
  case (Inl x)
  with assms have "r = Inl x" "files f' = files f" by (simp_all add: encrypt_file_def)
  then show ?thesis by (rule failed)
next
  case (Inr u)
  show ?thesis
  proof (cases "read_bytes e f src")
    case (Inl x)
    with assms Inr have "r = Inl x" "files f' = files f" by (auto simp: encrypt_file_def Let_def)
    then show ?thesis by (rule failed)
  next
    case plain: (Inr plain)
    with assms Inr have "publish e dst (sealed_object e key nonce plain) (mkdirs e (parent_dir dst) f) = (r, f')"
      by (simp add: encrypt_file_def Let_def)
    then show ?thesis by (cases rule: publish_cases) (use plain in \<open>auto intro: failed published\<close>)
  qed
qed

lemma decrypt_cases:
  assumes "decrypt_file e src dst key f = (r, f')"
  obtains (failed) x where "r = Inl x" "files f' = files f"
  | (published) cs where "r = Inr ()" "iter_decrypted_chunks e src key f = (cs, Inr ())"
      "files f' = (files f)(canonical e dst \<mapsto> concat cs)" "files f (canonical e dst) = None"
proof (cases "sbind (require_storage_path e f src) (\<lambda>_. require_storage_path e f dst)")
  case (Inl x)
  with assms have "r = Inl x" "files f' = files f" by (simp_all add: decrypt_file_def)
  then show ?thesis by (rule failed)
next
  case (Inr u)
  then have req: "require_storage_path e f src = Inr ()" by (auto simp: sbind_Inr_iff)
  show ?thesis
  proof (cases "read_bytes e f src")
    case (Inl x)
    with assms Inr have "r = Inl x" "files f' = files f" by (auto simp: decrypt_file_def Let_def)
    then show ?thesis by (rule failed)
  next
    case stored: (Inr stored)
    show ?thesis
    proof (cases "parse_object stored")
      case (Inl x)
      with assms Inr stored have "r = Inl x" "files f' = files f" by (auto simp: decrypt_file_def Let_def)
      then show ?thesis by (rule failed)
    next
      case p: (Inr y)
      obtain nonce ct tag where y: "y = (nonce, ct, tag)" by (cases y)
      show ?thesis
      proof (cases "tag = gcm_tag e key nonce ct")
        case False
        with assms Inr stored p y
        have "r = Inl (MediaEncryptionError ''Stored media failed authentication'')" "files f' = files f"
          by (auto simp: decrypt_file_def Let_def)
        then show ?thesis by (rule failed)
      next
        case True
        let ?plain = "concat (update_chunks e key nonce 0 (pieces CHUNK_SIZE ct))"
        from assms Inr stored p y True have "publish e dst ?plain (mkdirs e (parent_dir dst) f) = (r, f')"
          by (simp add: decrypt_file_def Let_def)
        then show ?thesis
        proof (cases rule: publish_cases)
          case 2: published
          have "iter_decrypted_chunks e src key f =
              (filter (\<lambda>c. c \<noteq> []) (update_chunks e key nonce 0 (pieces CHUNK_SIZE ct)), Inr ())"
            using req stored p y True by (simp add: iter_decrypted_chunks_def decrypted_chunks_def)
          from published [OF 2(1) this] 2 show ?thesis by simp
        qed (auto intro: failed)
      qed
    qed
  qed
qed

lemma unlink_checked_Inr:
  "unlink_checked e p f = Inr f' \<Longrightarrow> f' = remove_file e p f"
  by (auto simp: unlink_checked_def sbind_Inr_iff unlink_missing_ok_def split: if_splits)

section \<open>Properties\<close>

text \<open>C7: What was encrypted is read back: after a successful encryption, decrypting the object
  under the same key to a free name of a usable volume succeeds and gives exactly the source.\<close>

theorem decrypt_encrypt_roundtrip:
  assumes "aead_ok e" "length nonce = NONCE_SIZE" "encrypt_file e src dst key nonce f = (Inr (), f1)"
    "read_bytes e f src = Inr plain" "require_storage_path e f1 dst = Inr ()" "require_storage_path e f1 out = Inr ()"
    "\<not> write_fails e out" "files f1 (canonical e out) = None"
  shows "fst (decrypt_file e dst out key f1) = Inr () \<and>
    files (snd (decrypt_file e dst out key f1)) (canonical e out) = Some plain"
  using assms(3)
proof (cases rule: encrypt_cases)
  case (published plain')
  with assms(4) have "read_bytes e f1 dst = Inr (sealed_object e key nonce plain)"
    by (simp add: read_bytes_def)
  moreover have "require_storage_path e (mkdirs e (parent_dir out) f1) out = Inr ()"
    using assms(6) by (rule require_path_mkdirs)
  ultimately show ?thesis using assms(5-8)
    by (simp add: decrypt_file_def Let_def parse_sealed [OF assms(1,2)] concat_update_chunks [OF assms(1)]
        aead_okD [OF assms(1)] publish_def)
qed simp

text \<open>Streaming and whole-file decryption agree: the stream ends without an error exactly on
  the objects that were sealed under the key, its chunks then concatenate to their plaintext,
  and decryption to a file writes that plaintext or leaves every file as it was.\<close>

theorem streaming_matches_decryption:
  assumes "aead_ok e" "read_bytes e f src = Inr stored" "require_storage_path e f src = Inr ()"
  shows "(snd (iter_decrypted_chunks e src key f) = Inr () \<longleftrightarrow>
       (\<exists>nonce plain. length nonce = NONCE_SIZE \<and> stored = sealed_object e key nonce plain)) \<and>
    (\<forall>nonce plain. length nonce = NONCE_SIZE \<longrightarrow> stored = sealed_object e key nonce plain \<longrightarrow>
       concat (fst (iter_decrypted_chunks e src key f)) = plain) \<and>
    (case decrypt_file e src dst key f of
       (Inl x, f') \<Rightarrow> files f' = files f
     | (Inr _, f') \<Rightarrow> snd (iter_decrypted_chunks e src key f) = Inr () \<and>
         files f' = (files f)(canonical e dst \<mapsto> concat (fst (iter_decrypted_chunks e src key f))))"
proof -
  have it: "iter_decrypted_chunks e src key f = decrypted_chunks e key stored"
    using assms(2,3) by (simp add: iter_decrypted_chunks_def)
  obtain cs r where dc: "decrypted_chunks e key stored = (cs, r)" by (rule prod.exhaust)
  have sealed: "r = Inr () \<and> concat cs = plain"
    if "length nonce = NONCE_SIZE" "stored = sealed_object e key nonce plain" for nonce plain
    using decrypted_chunks_sealed [OF assms(1) that(1), of key plain] dc that(2) by auto
  have ok: "r = Inr () \<Longrightarrow> \<exists>nonce. length nonce = NONCE_SIZE \<and> stored = sealed_object e key nonce (concat cs)"
    using decrypted_chunks_Inr [OF assms(1)] dc by simp
  have "case decrypt_file e src dst key f of
       (Inl x, f') \<Rightarrow> files f' = files f
     | (Inr _, f') \<Rightarrow> snd (iter_decrypted_chunks e src key f) = Inr () \<and>
         files f' = (files f)(canonical e dst \<mapsto> concat (fst (iter_decrypted_chunks e src key f)))"
  proof -
    obtain q f' where run: "decrypt_file e src dst key f = (q, f')" by (rule prod.exhaust)
    then show ?thesis by (cases rule: decrypt_cases) (simp_all add: run)
  qed
  then show ?thesis using sealed ok unfolding it dc by auto
qed

text \<open>Publishing an original never overwrites: whatever the outcome, every file that existed
  keeps its content, except the staged upload, which a successful publication consumes.\<close>

theorem publication_never_overwrites:
  assumes "files f q = Some b" "q \<noteq> canonical e staged"
  shows "files (snd (commit_original e staged final_path f)) q = Some b \<and>
    files (snd (commit_encrypted_original e staged final_path key nonce f)) q = Some b"
proof
  let ?req = "sbind (require_storage_path e f staged) (\<lambda>_. require_storage_path e f final_path)"
  show "files (snd (commit_original e staged final_path f)) q = Some b"
  proof (cases "files f (canonical e final_path)")
    case None
    with assms have "q \<noteq> canonical e final_path" by auto
    with assms None show ?thesis
      by (auto simp: commit_original_def Let_def dest!: unlink_checked_Inr split: sum.splits)
  next
    case (Some c)
    with assms show ?thesis
      by (auto simp: commit_original_def Let_def dest!: unlink_checked_Inr split: sum.splits)
  qed
  obtain r f1 where s: "encrypt_file e staged final_path key nonce f = (r, f1)" by (rule prod.exhaust)
  then have "files f1 q = Some b"
    by (cases rule: encrypt_cases) (use assms in auto)
  then show "files (snd (commit_encrypted_original e staged final_path key nonce f)) q = Some b"
    using assms s by (auto simp: commit_encrypted_original_def dest!: unlink_checked_Inr split: sum.splits exn.splits)
qed

section \<open>On a concrete volume\<close>

lemma sample_aead: "aead_ok sample_env"
  by (auto simp: aead_ok_def sample_env_def intro!: map_idI)

lemma sample_require [simp]: "require_storage_path sample_env f p = Inr ()" "require_storage sample_env f rs = Inr ()"
  by (simp_all add: require_storage_path_def require_storage_def load_storage_manifest_def sample_env_def sample_settings_def)

lemma sample_canonical [simp]: "canonical sample_env p = p" "resolve sample_env p = p"
  by (simp_all add: canonical_def sample_env_def)

definition sample_nonce :: bytes where "sample_nonce = replicate 12 (CHR ''n'')"

lemma sample_encrypt: "fst (encrypt_file sample_env ''/s/a'' ''/o/a'' ''k'' sample_nonce (sample_fs [(''/s/a'', ''abc'')])) = Inr ()"
  by (simp add: encrypt_file_def Let_def read_bytes_def sample_fs_def publish_def) (simp add: sample_env_def)

theorem decrypt_encrypt_roundtrip_witness:
  "files (snd (decrypt_file sample_env ''/o/a'' ''/t/a'' ''k''
     (snd (encrypt_file sample_env ''/s/a'' ''/o/a'' ''k'' sample_nonce (sample_fs [(''/s/a'', ''abc'')])))))
     ''/t/a'' = Some ''abc''"
proof -
  let ?f = "sample_fs [(''/s/a'', ''abc'')]"
  let ?r = "encrypt_file sample_env ''/s/a'' ''/o/a'' ''k'' sample_nonce ?f"
  have run: "?r = (Inr (), snd ?r)" using sample_encrypt by (simp add: prod_eq_iff)
  have "files (snd ?r) ''/t/a'' = None"
    using run by (cases rule: encrypt_cases) (simp_all add: sample_fs_def)
  with decrypt_encrypt_roundtrip [OF sample_aead _ run, of "''abc''" "''/t/a''"] show ?thesis
    by (simp add: sample_nonce_def NONCE_SIZE_def read_bytes_def sample_fs_def) (simp add: sample_env_def)
qed

theorem streaming_matches_decryption_witness:
  "concat (fst (iter_decrypted_chunks sample_env ''/o/a'' ''k''
     (sample_fs [(''/o/a'', sealed_object sample_env ''k'' sample_nonce ''abc'')]))) = ''abc''"
  using streaming_matches_decryption [OF sample_aead, of "sample_fs [(''/o/a'', sealed_object sample_env ''k'' sample_nonce ''abc'')]"
      "''/o/a''" "sealed_object sample_env ''k'' sample_nonce ''abc''" "''k''" "''/t/a''"]
  by (simp add: read_bytes_def sample_fs_def sample_nonce_def NONCE_SIZE_def)

theorem publication_never_overwrites_witness:
  "files (snd (commit_original sample_env ''/s/a'' ''/o/a'' (sample_fs [(''/s/a'', ''x''), (''/o/a'', ''y'')]))) ''/o/a'' = Some ''y''"
  using publication_never_overwrites [of "sample_fs [(''/s/a'', ''x''), (''/o/a'', ''y'')]" "''/o/a''" "''y''" sample_env "''/s/a''" "''/o/a''"]
  by (simp add: sample_fs_def)

end
