(* ===== verification/Ingestion.thy ===== *)
theory Ingestion
  imports Lifecycle Encryption
begin

text \<open>
  \<open>services/ingestion.py\<close>: the per-account media key and \<open>persist_managed_asset\<close>, the one way
  content enters the managed store, with the direct upload handler of \<open>api/v1/assets.py\<close>.
  Values the code draws at random, and the time of the insertion, are inputs.  The advisory and
  row locks make the function one step, so they have no effect of their own in the model.
\<close>

record ingest_request =
  iq_user_id :: uuid
  iq_staged_path :: string
  iq_checksum :: string
  iq_file_size :: int
  iq_mime_type :: string
  iq_filename :: string
  iq_file_created_at :: "time option"
  iq_file_modified_at :: "time option"
  iq_logical_id :: "uuid option"
  iq_force_new_version :: bool

record fresh_values =
  fv_wrapped_key :: string
  fv_nonce :: bytes
  fv_asset_id :: uuid
  fv_item_id :: uuid
  fv_now :: time

section \<open>Media keys\<close>

definition initialize_user_media_key :: "env \<Rightarrow> string \<Rightarrow> user \<Rightarrow> exn + user" where
  "initialize_user_media_key e fresh u =
     (if u_disabled_at u \<noteq> None then Inl (ValueError ''Cannot initialize a media key for a disabled account'')
      else
        (let u = (case u_media_key u of
               None \<Rightarrow> u\<lparr>u_media_key := Some fresh, u_media_key_version := 1\<rparr> | Some _ \<Rightarrow> u)
         in sbind (unwrap_user_media_key e (the (u_media_key u))) (\<lambda>_. Inr u)))"

definition user_media_key :: "env \<Rightarrow> user \<Rightarrow> exn + bytes" where
  "user_media_key e u =
     (if u_disabled_at u \<noteq> None then Inl (ValueError ''Cannot unwrap a media key for a disabled account'')
      else case u_media_key u of
        None \<Rightarrow> Inl (ValueError ''Account media key has not been initialized'')
      | Some w \<Rightarrow> unwrap_user_media_key e w)"

definition ingestion_lock_key :: "env \<Rightarrow> uuid \<Rightarrow> string \<Rightarrow> int" where
  "ingestion_lock_key e user_id checksum =
     sint (word_of_nat (hex_value (take 16 (sha256 e
       (uuid_bytes user_id @ checksum)))) :: 64 word)"

definition encrypted_plaintext_checksum :: "env \<Rightarrow> string \<Rightarrow> bytes \<Rightarrow> int option \<Rightarrow> fs \<Rightarrow> exn + string" where
  "encrypted_plaintext_checksum e path key expected_size f =
     (case iter_decrypted_chunks e path key f of
        (cs, Inl x) \<Rightarrow> Inl x
      | (cs, Inr _) \<Rightarrow>
          if expected_size \<noteq> None \<and> expected_size \<noteq> Some (int (length (concat cs)))
          then Inl (ValueError ''Existing encrypted object has an unexpected plaintext size'')
          else Inr (sha256 e (concat cs)))"

section \<open>Persisting a staged file\<close>

definition set_user :: "uuid \<Rightarrow> (user \<Rightarrow> user) \<Rightarrow> db \<Rightarrow> db" where
  "set_user i g d = d\<lparr>users := sql_update (\<lambda>u. u_id u = i) g (users d)\<rparr>"

definition active_with_checksum :: "db \<Rightarrow> uuid \<Rightarrow> string \<Rightarrow> asset option" where
  "active_with_checksum d user_id checksum =
     sql_first (\<lambda>a. a_user_id a = user_id \<and> a_checksum a = checksum \<and> a_lifecycle_state a = Active) (assets d)"

definition next_version :: "db \<Rightarrow> uuid \<Rightarrow> uuid option \<Rightarrow> int" where
  "next_version d user_id logical_id =
     (case logical_id of None \<Rightarrow> 1
      | Some l \<Rightarrow> fold max (map a_version (filter (\<lambda>a. a_user_id a = user_id \<and> a_logical_id a = l) (assets d))) 0 + 1)"

text \<open>The keys of the table that a commit of the new row can violate.\<close>

definition insert_conflict :: "asset \<Rightarrow> asset list \<Rightarrow> bool" where
  "insert_conflict a t \<longleftrightarrow> list_ex (\<lambda>b. a_id b = a_id a \<or>
     (same_item a b \<and> (a_version b = a_version a \<or> (a_lifecycle_state b = Active \<and> a_lifecycle_state a = Active)))) t"

definition publish_original ::
  "env \<Rightarrow> ingest_request \<Rightarrow> user \<Rightarrow> string \<Rightarrow> bytes \<Rightarrow> fs \<Rightarrow> (exn + unit) \<times> fs" where
  "publish_original e q u final_path nonce f =
     (if media_encryption_enabled (cfg e)
      then (case user_media_key e u of
              Inl x \<Rightarrow> (Inl x, f)
            | Inr key \<Rightarrow>
                (case commit_encrypted_original e (iq_staged_path q) final_path key nonce f of
                   (Inl x, f) \<Rightarrow> (Inl x, f)
                 | (Inr True, f) \<Rightarrow> (Inr (), f)
                 | (Inr False, f) \<Rightarrow>
                     (case encrypted_plaintext_checksum e final_path key (Some (iq_file_size q)) f of
                        Inl x \<Rightarrow> (Inl x, f)
                      | Inr c \<Rightarrow>
                          if c \<noteq> iq_checksum q
                          then (Inl (ValueError ''Existing encrypted original does not authenticate as the uploaded content''), f)
                          else (case unlink_checked e (iq_staged_path q) f of
                                  Inl x \<Rightarrow> (Inl x, f)
                                | Inr f' \<Rightarrow> (Inr (), f')))))
      else (case commit_original e (iq_staged_path q) final_path f of
              (Inl x, f) \<Rightarrow> (Inl x, f)
            | (Inr _, f) \<Rightarrow> (Inr (), f)))"

definition new_asset :: "env \<Rightarrow> ingest_request \<Rightarrow> fresh_values \<Rightarrow> int \<Rightarrow> string \<Rightarrow> string \<Rightarrow> asset" where
  "new_asset e q fv version final_path storage_checksum =
     \<lparr>a_id = fv_asset_id fv, a_user_id = iq_user_id q,
      a_logical_id = (case iq_logical_id q of None \<Rightarrow> fv_item_id fv | Some l \<Rightarrow> l), a_version = version,
      a_lifecycle_state = Active, a_superseded_at = None, a_trashed_at = None, a_purge_after = None,
      a_deleted_by = None, a_original_path = canonical_storage_path e final_path, a_checksum = iq_checksum q,
      a_storage_checksum = storage_checksum,
      a_encryption_version = (if media_encryption_enabled (cfg e) then 1 else 0),
      a_file_size = iq_file_size q, a_mime_type = iq_mime_type q, a_taken_at = None,
      a_file_created_at = iq_file_created_at q, a_file_modified_at = iq_file_modified_at q, a_media = no_media,
      a_thumbnail_path = None, a_preview_path = None, a_processing_status = ''pending'',
      a_processing_error = None, a_storage_source = ''managed'', a_external_library_id = None,
      a_original_filename = Some (iq_filename q), a_relative_path = None,
      a_protection_status = ''unprotected'', a_restore_status = ''not_requested'', a_restored_at = None,
      a_created_at = fv_now fv\<rparr>"

definition insert_original ::
  "env \<Rightarrow> ingest_request \<Rightarrow> fresh_values \<Rightarrow> string \<Rightarrow> db \<Rightarrow> fs \<Rightarrow> (exn + asset \<times> bool) \<times> db" where
  "insert_original e q fv final_path d f =
     (case sha256_file e f final_path of
        Inl x \<Rightarrow> (Inl x, d)
      | Inr stored_sum \<Rightarrow>
          (let a = new_asset e q fv (next_version d (iq_user_id q) (iq_logical_id q)) final_path stored_sum
           in if \<not> insert_conflict a (assets d)
              then (Inr (a, False), d\<lparr>assets := sql_insert a (assets d)\<rparr>)
              else if iq_force_new_version q then (Inl IntegrityError, d)
              else (case active_with_checksum d (iq_user_id q) (iq_checksum q) of
                      None \<Rightarrow> (Inl IntegrityError, d)
                    | Some b \<Rightarrow> (Inr (b, True), d))))"

text \<open>The part after the media key is durable.\<close>

definition persist_content ::
  "env \<Rightarrow> ingest_request \<Rightarrow> fresh_values \<Rightarrow> user \<Rightarrow> db \<Rightarrow> fs \<Rightarrow> (exn + asset \<times> bool) \<times> db \<times> fs" where
  "persist_content e q fv u d f =
     (case (if iq_force_new_version q then None else active_with_checksum d (iq_user_id q) (iq_checksum q)) of
        Some b \<Rightarrow>
          (case unlink_missing_ok e (iq_staged_path q) f of
             Inl x \<Rightarrow> (Inl x, d, f)
           | Inr f' \<Rightarrow> (Inr (b, True), d, f'))
      | None \<Rightarrow>
          (let final_path = resolve e (original_path_for e (iq_checksum q)
                 (if media_encryption_enabled (cfg e) then Some (iq_user_id q) else None))
           in case publish_original e q u final_path (fv_nonce fv) f of
                (Inl x, f) \<Rightarrow> (Inl x, d, f)
              | (Inr _, f) \<Rightarrow>
                  (case insert_original e q fv final_path d f of (res, d) \<Rightarrow> (res, d, f))))"

definition persist_managed_asset ::
  "env \<Rightarrow> ingest_request \<Rightarrow> fresh_values \<Rightarrow> db \<Rightarrow> fs \<Rightarrow> (exn + asset \<times> bool) \<times> db \<times> fs" where
  "persist_managed_asset e q fv d f =
     (case sbind (require_storage e f [''originals'', ''staging'']) (\<lambda>_. require_storage_path e f (iq_staged_path q)) of
        Inl x \<Rightarrow> (Inl x, d, f)
      | Inr _ \<Rightarrow>
          (case active_user d (iq_user_id q) of
             None \<Rightarrow>
               (case unlink_missing_ok e (iq_staged_path q) f of
                  Inl x \<Rightarrow> (Inl x, d, f)
                | Inr f' \<Rightarrow> (Inl (ValueError ''Cannot store media for a missing or disabled account''), d, f'))
           | Some u \<Rightarrow>
               if media_encryption_enabled (cfg e) \<and> u_media_key u = None
               then (case initialize_user_media_key e (fv_wrapped_key fv) u of
                       Inl x \<Rightarrow> (Inl x, d, f)
                     | Inr u' \<Rightarrow> persist_content e q fv u' (set_user (u_id u) (\<lambda>_. u') d) f)
               else persist_content e q fv u d f))"

section \<open>The direct upload\<close>

definition upload_asset ::
  "env \<Rightarrow> user \<Rightarrow> uuid \<Rightarrow> bytes list \<Rightarrow> string option \<Rightarrow> string option \<Rightarrow> time option \<Rightarrow> time option \<Rightarrow>
   string option \<Rightarrow> fresh_values \<Rightarrow> db \<Rightarrow> fs \<Rightarrow> (exn + asset \<times> bool) \<times> db \<times> fs" where
  "upload_asset e u fresh chunks content_type filename created modified enqueue_error fv d f =
     (case stage_upload e (Some (u_id u)) fresh chunks f of
        (Inl x, f) \<Rightarrow> (Inl x, d, f)
      | (Inr (staged, checksum, n_bytes), f) \<Rightarrow>
          (case persist_managed_asset e
             \<lparr>iq_user_id = u_id u, iq_staged_path = staged, iq_checksum = checksum, iq_file_size = n_bytes,
              iq_mime_type = (case content_type of None \<Rightarrow> ''application/octet-stream''
                | Some t \<Rightarrow> if t = [] then ''application/octet-stream'' else t),
              iq_filename = (case filename of None \<Rightarrow> ''upload'' | Some n \<Rightarrow> if n = [] then ''upload'' else n),
              iq_file_created_at = created, iq_file_modified_at = modified, iq_logical_id = None,
              iq_force_new_version = False\<rparr> fv d f of
             (Inl x, d, f) \<Rightarrow> (Inl x, d, f)
           | (Inr (a, True), d, f) \<Rightarrow> (Inr (a, True), d, f)
           | (Inr (a, False), d, f) \<Rightarrow>
               (case enqueue_error of
                  None \<Rightarrow> (Inr (a, False), d, f)
                | Some m \<Rightarrow>
                    (let a' = a\<lparr>a_processing_error := Some (take 2000 (''Could not enqueue processing: '' @ m))\<rparr>
                     in (Inr (a', False), update_asset (a_id a) (\<lambda>_. a') d, f)))))"

section \<open>The catalogue after ingestion\<close>

lemma le_fold_max: "m \<le> fold max xs (m::int)"
proof (induction xs arbitrary: m)
  case (Cons x xs)
  from Cons [of "max x m"] show ?case by simp
qed simp

lemma mem_le_fold_max: "x \<in> set xs \<Longrightarrow> x \<le> fold max xs (m::int)"
proof (induction xs arbitrary: m)
  case (Cons y xs)
  with le_fold_max [of "max y m" xs] show ?case by auto
qed simp

lemma next_version_max:
  assumes "a \<in> set (assets d)" "a_user_id a = u" "a_logical_id a = l"
  shows "a_version a < next_version d u (Some l)"
  using mem_le_fold_max [of "a_version a" "map a_version (filter (\<lambda>a. a_user_id a = u \<and> a_logical_id a = l) (assets d))" 0]
    assms by (force simp: next_version_def)

lemma next_version_pos: "0 < next_version d u l"
  using le_fold_max [of 0] by (cases l) (simp_all add: next_version_def add_nonneg_pos)

lemma active_with_checksum_Some:
  "active_with_checksum d u c = Some b \<Longrightarrow>
     b \<in> set (assets d) \<and> a_user_id b = u \<and> a_checksum b = c \<and> a_lifecycle_state b = Active"
  by (auto simp: active_with_checksum_def dest: sql_first_Some)

definition ingested :: "ingest_request \<Rightarrow> asset \<Rightarrow> db \<Rightarrow> bool" where
  "ingested q a d \<longleftrightarrow> a \<in> set (assets d) \<and> a_user_id a = iq_user_id q \<and> a_checksum a = iq_checksum q \<and>
     a_lifecycle_state a = Active"

lemma insert_original_cases:
  assumes "insert_original e q fv p d f = (res, d')"
  obtains (failed) x where "res = Inl x" "d' = d"
  | (duplicate) b where "res = Inr (b, True)" "d' = d" "ingested q b d"
  | (inserted) a stored where "res = Inr (a, False)" "d' = d\<lparr>assets := sql_insert a (assets d)\<rparr>"
      "a = new_asset e q fv (next_version d (iq_user_id q) (iq_logical_id q)) p (sha256 e stored)"
      "\<not> insert_conflict a (assets d)" "read_bytes e f p = Inr stored"
proof (cases "read_bytes e f p")
  case (Inl x)
  with assms have "res = Inl x" "d' = d" by (simp_all add: insert_original_def sha256_file_def)
  then show ?thesis by (rule failed)
next
  case (Inr stored)
  let ?a = "new_asset e q fv (next_version d (iq_user_id q) (iq_logical_id q)) p (sha256 e stored)"
  show ?thesis
  proof (cases "insert_conflict ?a (assets d)")
    case False
    with assms Inr show ?thesis
      by (intro inserted [of ?a stored]) (simp_all add: insert_original_def sha256_file_def Let_def)
  next
    case True
    show ?thesis
    proof (cases "iq_force_new_version q \<or> active_with_checksum d (iq_user_id q) (iq_checksum q) = None")
      case no: True
      with assms Inr True have "res = Inl IntegrityError" "d' = d"
        by (cases "iq_force_new_version q"; simp add: insert_original_def sha256_file_def Let_def)+
      then show ?thesis by (rule failed)
    next
      case False
      then obtain b where b: "active_with_checksum d (iq_user_id q) (iq_checksum q) = Some b" by auto
      with assms Inr True False show ?thesis
        using active_with_checksum_Some [OF b]
        by (intro duplicate [of b]) (simp_all add: insert_original_def sha256_file_def Let_def ingested_def)
    qed
  qed
qed

lemma persist_content_cases:
  assumes "persist_content e q fv u d f = (res, d', f')"
  obtains (failed) x where "res = Inl x" "d' = d"
  | (duplicate) b where "res = Inr (b, True)" "d' = d" "ingested q b d"
  | (inserted) a stored p where "res = Inr (a, False)" "d' = d\<lparr>assets := sql_insert a (assets d)\<rparr>"
      "a = new_asset e q fv (next_version d (iq_user_id q) (iq_logical_id q)) p (sha256 e stored)"
      "\<not> insert_conflict a (assets d)" "read_bytes e f' p = Inr stored"
      "p = resolve e (original_path_for e (iq_checksum q)
                 (if media_encryption_enabled (cfg e) then Some (iq_user_id q) else None))"
      "publish_original e q u p (fv_nonce fv) f = (Inr (), f')"
proof (cases "if iq_force_new_version q then None else active_with_checksum d (iq_user_id q) (iq_checksum q)")
  case (Some b)
  then have "ingested q b d" by (auto simp: ingested_def dest: active_with_checksum_Some split: if_splits)
  with assms Some show ?thesis
    by (cases "unlink_missing_ok e (iq_staged_path q) f") (auto simp: persist_content_def intro: failed duplicate)
next
  case None
  let ?p = "resolve e (original_path_for e (iq_checksum q)
                 (if media_encryption_enabled (cfg e) then Some (iq_user_id q) else None))"
  obtain r f1 where pub: "publish_original e q u ?p (fv_nonce fv) f = (r, f1)" by (rule prod.exhaust)
  show ?thesis
  proof (cases r)
    case (Inl x)
    with assms None pub have "res = Inl x" "d' = d" unfolding persist_content_def Let_def by simp_all
    then show ?thesis by (rule failed)
  next
    case (Inr y)
    obtain r2 d2 where ins: "insert_original e q fv ?p d f1 = (r2, d2)" by (rule prod.exhaust)
    with assms None pub Inr have eq: "res = r2" "d' = d2" "f' = f1"
      unfolding persist_content_def Let_def by simp_all
    from ins show ?thesis
    proof (cases rule: insert_original_cases)
      case 3: (inserted a stored)
      with pub Inr eq show ?thesis by (intro inserted [of a ?p stored]) simp_all
    qed (use eq failed duplicate in auto)
  qed
qed

lemma insert_keeps_catalog:
  assumes "catalog_ok d" "\<not> insert_conflict a (assets d)" "0 < a_version a" "retention_ok a"
  shows "catalog_ok (d\<lparr>assets := sql_insert a (assets d)\<rparr>)"
proof -
  have no: "b \<in> set (assets d) \<Longrightarrow> a_id b \<noteq> a_id a"
    "b \<in> set (assets d) \<Longrightarrow> same_item a b \<Longrightarrow> a_version b \<noteq> a_version a"
    "b \<in> set (assets d) \<Longrightarrow> same_item a b \<Longrightarrow> a_lifecycle_state a = Active \<Longrightarrow> a_lifecycle_state b \<noteq> Active" for b
    using assms(2) by (auto simp: insert_conflict_def list_ex_iff)
  have "assets_ok (sql_insert a (assets d))"
  proof (rule assets_ok_insert)
    show "assets_ok (assets d)" using assms(1) by (simp add: catalog_ok_def)
    from no(1) show "a_id a \<notin> a_id ` set (assets d)" by fastforce
    show "a_version a \<noteq> a_version b" if "b \<in> set (assets d)" "same_item a b" for b
      using no(2) [OF that] by simp
  qed (use assms(3,4) no(3) in auto)
  with assms(1) show ?thesis by (simp add: catalog_ok_def)
qed

lemma new_asset_columns [simp]:
  "retention_ok (new_asset e q fv v p c)" "a_version (new_asset e q fv v p c) = v"
  "a_user_id (new_asset e q fv v p c) = iq_user_id q" "a_checksum (new_asset e q fv v p c) = iq_checksum q"
  "a_lifecycle_state (new_asset e q fv v p c) = Active" "a_original_path (new_asset e q fv v p c) = canonical_storage_path e p"
  "a_storage_checksum (new_asset e q fv v p c) = c" "a_id (new_asset e q fv v p c) = fv_asset_id fv"
  by (simp_all add: new_asset_def retention_ok_def)

lemma set_user_simps [simp]:
  "assets (set_user i g d) = assets d" "replicas (set_user i g d) = replicas d" "uploads (set_user i g d) = uploads d"
  "users (set_user i g d) = sql_update (\<lambda>u. u_id u = i) g (users d)" "devices (set_user i g d) = devices d"
  by (simp_all add: set_user_def)

text \<open>The database on which the content is persisted: the media key is in place.\<close>

lemma persist_cases:
  assumes "persist_managed_asset e q fv d f = (res, d', f')"
  obtains (refused) x where "res = Inl x" "d' = d"
  | (content) u d1 where "persist_content e q fv u d1 f = (res, d', f')" "u \<in> set (users d1)" "u_id u = iq_user_id q"
      "assets d1 = assets d" "replicas d1 = replicas d" "uploads d1 = uploads d" "devices d1 = devices d"
proof (cases "sbind (require_storage e f [''originals'', ''staging'']) (\<lambda>_. require_storage_path e f (iq_staged_path q))")
  case (Inl x)
  with assms have "res = Inl x" "d' = d" by (simp_all add: persist_managed_asset_def)
  then show ?thesis by (rule refused)
next
  case ok: (Inr y)
  show ?thesis
  proof (cases "active_user d (iq_user_id q)")
    case None
    with assms ok have "isl res \<and> d' = d"
      by (cases "unlink_missing_ok e (iq_staged_path q) f") (auto simp: persist_managed_asset_def)
    then show ?thesis using refused by (cases res) auto
  next
    case (Some u)
    then have u: "u \<in> set (users d)" "u_id u = iq_user_id q" by (auto simp: active_user_def dest: sql_first_Some)
    show ?thesis
    proof (cases "media_encryption_enabled (cfg e) \<and> u_media_key u = None")
      case False
      with assms ok Some have "persist_content e q fv u d f = (res, d', f')"
        by (auto simp: persist_managed_asset_def)
      then show ?thesis using u by (rule content) simp_all
    next
      case True
      show ?thesis
      proof (cases "initialize_user_media_key e (fv_wrapped_key fv) u")
        case (Inl x)
        with assms ok Some True have "res = Inl x" "d' = d" by (simp_all add: persist_managed_asset_def)
        then show ?thesis by (rule refused)
      next
        case (Inr v)
        with assms ok Some True have run: "persist_content e q fv v (set_user (u_id u) (\<lambda>_. v) d) f = (res, d', f')"
          by (simp add: persist_managed_asset_def)
        have "u_id v = u_id u"
          using Inr by (auto simp: initialize_user_media_key_def Let_def sbind_Inr_iff split: if_splits option.splits)
        with u show ?thesis by (intro content [OF run]) (auto simp: set_sql_update image_iff)
      qed
    qed
  qed
qed

definition holds_content :: "env \<Rightarrow> bytes \<Rightarrow> string \<Rightarrow> string \<Rightarrow> fs \<Rightarrow> bool" where
  "holds_content e key checksum path f \<longleftrightarrow>
     (\<exists>stored cs. files f (canonical e path) = Some stored \<and> decrypted_chunks e key stored = (cs, Inr ()) \<and>
        sha256 e (concat cs) = checksum)"

lemma checksum_holds_content:
  assumes "encrypted_plaintext_checksum e path key n f = Inr c"
  shows "holds_content e key c path f"
proof -
  obtain cs r where it: "iter_decrypted_chunks e path key f = (cs, r)" by (rule prod.exhaust)
  with assms have ok: "r = Inr ()" "sha256 e (concat cs) = c"
    by (auto simp: encrypted_plaintext_checksum_def split: sum.splits if_splits)
  then obtain stored where "read_bytes e f path = Inr stored" "decrypted_chunks e key stored = (cs, Inr ())"
    using it by (auto simp: iter_decrypted_chunks_def split: sum.splits)
  with ok show ?thesis by (auto simp: holds_content_def read_bytes_def split: option.splits)
qed

lemma publish_original_holds:
  assumes run: "publish_original e q u p nonce f = (Inr (), f')" and enc: "media_encryption_enabled (cfg e)"
    and aead: "aead_ok e" and len: "length nonce = NONCE_SIZE" and apart: "canonical e (iq_staged_path q) \<noteq> canonical e p"
    and sum: "\<And>c. read_bytes e f (iq_staged_path q) = Inr c \<Longrightarrow> sha256 e c = iq_checksum q"
  shows "\<exists>key. user_media_key e u = Inr key \<and> holds_content e key (iq_checksum q) p f'"
proof (cases "user_media_key e u")
  case (Inl x)
  with run enc show ?thesis by (simp add: publish_original_def)
next
  case (Inr key)
  obtain r f1 where c: "commit_encrypted_original e (iq_staged_path q) p key nonce f = (r, f1)" by (rule prod.exhaust)
  show ?thesis
  proof (cases "r = Inr True")
    case True
    obtain r2 f2 where s: "encrypt_file e (iq_staged_path q) p key nonce f = (r2, f2)" by (rule prod.exhaust)
    from c True s obtain "r2 = Inr ()" and rm: "f1 = remove_file e (iq_staged_path q) f2"
      by (auto simp: commit_encrypted_original_def split: sum.splits exn.splits dest: unlink_checked_Inr)
    with s obtain plain where plain: "read_bytes e f (iq_staged_path q) = Inr plain"
      "files f2 = (files f)(canonical e p \<mapsto> sealed_object e key nonce plain)"
      by (auto elim: encrypt_cases)
    obtain cs where "decrypted_chunks e key (sealed_object e key nonce plain) = (cs, Inr ())" "concat cs = plain"
      using decrypted_chunks_sealed [OF aead len] by blast
    moreover from run c Inr enc True have "f' = f1" by (simp add: publish_original_def)
    ultimately have "holds_content e key (iq_checksum q) p f'"
      unfolding holds_content_def using plain sum apart rm by auto
    with Inr show ?thesis by simp
  next
    case False
    with run c Inr enc have "r = Inr False"
      by (cases r) (auto simp: publish_original_def)
    with run c Inr enc have sumok: "encrypted_plaintext_checksum e p key (Some (iq_file_size q)) f1 = Inr (iq_checksum q)"
      and f': "f' = remove_file e (iq_staged_path q) f1"
      by (auto simp: publish_original_def split: sum.splits if_splits dest: unlink_checked_Inr)
    from checksum_holds_content [OF sumok] f' apart have "holds_content e key (iq_checksum q) p f'"
      by (auto simp: holds_content_def)
    with Inr show ?thesis by simp
  qed
qed

lemma holds_content_canonical:
  "host_paths e \<Longrightarrow> holds_content e key c (canonical e p) f = holds_content e key c p f"
  by (simp add: holds_content_def host_paths_def)

section \<open>Properties\<close>

lemma ingestion_facts:
  assumes "persist_managed_asset e q fv d f = (res, d', f')" "catalog_ok d"
  shows "catalog_ok d' \<and> (case res of
      Inl x \<Rightarrow> assets d' = assets d
    | Inr (a, duplicate) \<Rightarrow> ingested q a d' \<and> assets d' = (if duplicate then assets d else sql_insert a (assets d)))"
  using assms(1)
proof (cases rule: persist_cases)
  case (refused x)
  with assms(2) show ?thesis by simp
next
  case (content u d1)
  with assms(2) have ok: "catalog_ok d1" by (simp add: catalog_ok_def)
  from content(1) show ?thesis
  proof (cases rule: persist_content_cases)
    case (inserted a stored p)
    have "catalog_ok d'" unfolding inserted(2)
      by (rule insert_keeps_catalog [OF ok inserted(4)]) (simp_all add: inserted(3) next_version_pos)
    moreover have "ingested q a d'"
      using inserted(3) by (simp add: ingested_def inserted(2) set_sql_insert)
    ultimately show ?thesis using inserted(1,2) content(4) by simp
  qed (use ok content(4) in simp_all)
qed

text \<open>Ingestion keeps the constraints of the catalogue, and its answer is an active revision of
  the requesting account with the submitted checksum: a duplicate answer leaves the revisions
  as they were, any other adds exactly the answered one.\<close>

theorem ingestion_keeps_catalogue:
  assumes "persist_managed_asset e q fv d f = (res, d', f')" "catalog_ok d"
  shows "catalog_ok d' \<and> (case res of
      Inl x \<Rightarrow> assets d' = assets d
    | Inr (a, duplicate) \<Rightarrow> ingested q a d' \<and> assets d' = (if duplicate then assets d else sql_insert a (assets d)))"
  by (rule ingestion_facts [OF assms])

lemma ingested_content:
  assumes "persist_managed_asset e q fv d f = (Inr (a, False), d', f')" "media_encryption_enabled (cfg e)"
    "aead_ok e" "length (fv_nonce fv) = NONCE_SIZE" "host_paths e"
    "read_bytes e f (iq_staged_path q) = Inr content" "sha256 e content = iq_checksum q"
    "canonical e (iq_staged_path q) \<noteq> canonical e (original_path_for e (iq_checksum q) (Some (iq_user_id q)))"
  shows "\<exists>u key. u \<in> set (users d') \<and> u_id u = a_user_id a \<and> user_media_key e u = Inr key \<and>
    holds_content e key (a_checksum a) (a_original_path a) f' \<and> a_encryption_version a \<noteq> 0"
  using assms(1)
proof (cases rule: persist_cases)
  case (content u d1)
  from content(1) show ?thesis
  proof (cases rule: persist_content_cases)
    case (inserted b stored p)
    have p: "p = resolve e (original_path_for e (iq_checksum q) (Some (iq_user_id q)))"
      using inserted(6) assms(2) by simp
    have apart: "canonical e (iq_staged_path q) \<noteq> canonical e p"
      using assms(8) canonical_resolve [OF assms(5)] by (simp add: p)
    have sums: "\<And>c. read_bytes e f (iq_staged_path q) = Inr c \<Longrightarrow> sha256 e c = iq_checksum q"
      using assms(6,7) by simp
    obtain key where key: "user_media_key e u = Inr key" "holds_content e key (iq_checksum q) p f'"
      using publish_original_holds [OF inserted(7) assms(2-4) apart sums] by blast
    from inserted(1) have a: "a = b" by simp
    with inserted(3) have "a_original_path a = canonical e p" "a_checksum a = iq_checksum q" "a_user_id a = iq_user_id q"
      "a_encryption_version a \<noteq> 0"
      using assms(2) by (simp_all add: canonical_storage_path_def, simp add: new_asset_def)
    moreover have "u \<in> set (users d')" using content(2) inserted(2) by simp
    ultimately show ?thesis using key content(3) holds_content_canonical [OF assms(5)] by metis
  qed simp_all
qed simp

text \<open>What was ingested can be recovered: when encryption is enabled, a new revision names a
  file that decrypts under the key of its owner, as the catalogue now holds it, to content with
  the revision's checksum; this includes the case that an existing file was adopted.\<close>

theorem ingested_content_recoverable:
  assumes "persist_managed_asset e q fv d f = (Inr (a, False), d', f')" "media_encryption_enabled (cfg e)"
    "aead_ok e" "length (fv_nonce fv) = NONCE_SIZE" "host_paths e"
    "read_bytes e f (iq_staged_path q) = Inr content" "sha256 e content = iq_checksum q"
    "canonical e (iq_staged_path q) \<noteq> canonical e (original_path_for e (iq_checksum q) (Some (iq_user_id q)))"
  shows "\<exists>u key. u \<in> set (users d') \<and> u_id u = a_user_id a \<and> user_media_key e u = Inr key \<and>
    holds_content e key (a_checksum a) (a_original_path a) f'"
  using ingested_content [OF assms] by blast

text \<open>Without encryption an existing file at the content address is adopted unread, whatever it
  holds, and the staged upload is consumed.\<close>

lemma plain_original_adopted_unread:
  assumes "files f (canonical e final_path) = Some junk" "read_bytes e f staged = Inr content"
    "require_storage_path e f staged = Inr ()" "require_storage_path e f final_path = Inr ()"
    "\<not> unlink_fails e (canonical e staged)"
  shows "\<exists>f'. commit_original e staged final_path f = (Inr False, f') \<and> files f' = (files f)(canonical e staged := None)"
  using assms by (simp add: commit_original_def Let_def unlink_checked_def require_path_mkdirs unlink_missing_ok_def)

section \<open>On a concrete upload\<close>

definition ingest_db :: db where
  "ingest_db = empty_db\<lparr>users := [sample_user 1]\<rparr>"

definition ingest_query :: ingest_request where
  "ingest_query = \<lparr>iq_user_id = 1, iq_staged_path = ''/data/staging/a'', iq_checksum = sample_digest ''abc'',
     iq_file_size = 3, iq_mime_type = ''image/jpeg'', iq_filename = ''a.jpg'', iq_file_created_at = None,
     iq_file_modified_at = None, iq_logical_id = None, iq_force_new_version = False\<rparr>"

definition ingest_fresh :: fresh_values where
  "ingest_fresh = \<lparr>fv_wrapped_key = ''w'', fv_nonce = sample_nonce, fv_asset_id = 50, fv_item_id = 51, fv_now = 9\<rparr>"

definition ingest_files :: fs where
  "ingest_files = sample_fs [(''/data/staging/a'', ''abc'')]"

abbreviation sample_ingest :: "(exn + asset \<times> bool) \<times> db \<times> fs" where
  "sample_ingest \<equiv> persist_managed_asset sample_env ingest_query ingest_fresh ingest_db ingest_files"

lemma sample_active_key:
  "active_user ingest_db 1 = Some (sample_user 1)" "u_media_key (sample_user 1) = None"
  "media_encryption_enabled (cfg sample_env)"
  "initialize_user_media_key sample_env ''w'' (sample_user 1) = Inr ((sample_user 1)\<lparr>u_media_key := Some ''w'', u_media_key_version := 1\<rparr>)"
  "user_media_key sample_env ((sample_user 1)\<lparr>u_media_key := Some ''w'', u_media_key_version := 1\<rparr>) = Inr (replicate 32 (CHR ''k''))"
  by (simp_all add: active_user_def ingest_db_def sample_user_def initialize_user_media_key_def user_media_key_def
      unwrap_user_media_key_def sample_env_def sample_settings_def)

theorem ingestion_keeps_catalogue_witness:
  "catalog_ok (fst (snd sample_ingest))"
proof -
  have "catalog_ok ingest_db" by (simp add: ingest_db_def empty_db_def catalog_ok_def assets_ok_def)
  from ingestion_keeps_catalogue [OF _ this, of sample_env ingest_query ingest_fresh ingest_files "fst sample_ingest"
      "fst (snd sample_ingest)" "snd (snd sample_ingest)"]
  show ?thesis by simp
qed

lemma sample_target: "original_path_for sample_env (sample_digest ''abc'') (Some 1) \<noteq> ''/data/staging/a''"
  by code_simp

lemma sample_commit:
  "p \<noteq> ''/data/staging/a'' \<Longrightarrow>
   fst (commit_encrypted_original sample_env ''/data/staging/a'' p key sample_nonce ingest_files) = Inr True \<and>
   files (snd (commit_encrypted_original sample_env ''/data/staging/a'' p key sample_nonce ingest_files)) p \<noteq> None"
proof -
  assume p: "p \<noteq> ''/data/staging/a''"
  have nf: "\<not> write_fails sample_env x" "\<not> unlink_fails sample_env x" for x by (simp_all add: sample_env_def)
  from p show ?thesis
    by (simp add: commit_encrypted_original_def encrypt_file_def Let_def read_bytes_def ingest_files_def sample_fs_def
        publish_def nf unlink_checked_def unlink_missing_ok_def)
qed

lemma sample_ingest_row:
  "\<exists>a. fst sample_ingest = Inr (a, False) \<and> assets (fst (snd sample_ingest)) = [a] \<and> a_user_id a = 1 \<and>
     a_lifecycle_state a = Active \<and> a_storage_source a = ''managed'' \<and>
     a_original_path a = original_path_for sample_env (sample_digest ''abc'') (Some 1) \<and>
     users (fst (snd sample_ingest)) = [(sample_user 1)\<lparr>u_media_key := Some ''w'', u_media_key_version := 1\<rparr>]"
proof -
  define p where "p = original_path_for sample_env (sample_digest ''abc'') (Some 1)"
  define c where "c = commit_encrypted_original sample_env ''/data/staging/a'' p (replicate 32 (CHR ''k'')) sample_nonce ingest_files"
  obtain g where c: "c = (Inr True, g)" "files g p \<noteq> None"
    using sample_commit [of p "replicate 32 (CHR ''k'')"] sample_target unfolding c_def p_def by (metis prod.collapse)
  have "publish_original sample_env ingest_query ((sample_user 1)\<lparr>u_media_key := Some ''w'', u_media_key_version := 1\<rparr>)
      p sample_nonce ingest_files = (Inr (), g)"
    using c(1) unfolding publish_original_def sample_active_key(5)
    by (simp add: sample_active_key(3) ingest_query_def c_def [symmetric])
  moreover have "assets ingest_db = []" "users ingest_db = [sample_user 1]" "u_id (sample_user 1) = 1"
    by (simp_all add: ingest_db_def empty_db_def sample_user_def)
  ultimately show ?thesis using c(2)
    by (auto simp: persist_managed_asset_def persist_content_def sample_active_key(1-4) Let_def ingest_query_def
        ingest_fresh_def p_def [symmetric] insert_original_def sha256_file_def read_bytes_def insert_conflict_def
        active_with_checksum_def new_asset_def canonical_storage_path_def set_user_def sql_insert_def)
qed

lemma sample_ingest_new: "\<exists>a. fst sample_ingest = Inr (a, False)"
  using sample_ingest_row by blast

theorem ingested_content_recoverable_witness:
  "\<exists>a u key. fst sample_ingest = Inr (a, False) \<and> u \<in> set (users (fst (snd sample_ingest))) \<and>
     user_media_key sample_env u = Inr key \<and>
     holds_content sample_env key (a_checksum a) (a_original_path a) (snd (snd sample_ingest))"
proof -
  obtain a where a: "fst sample_ingest = Inr (a, False)" using sample_ingest_new by blast
  then have run: "sample_ingest = (Inr (a, False), fst (snd sample_ingest), snd (snd sample_ingest))"
    by (simp add: prod_eq_iff)
  have "read_bytes sample_env ingest_files (iq_staged_path ingest_query) = Inr ''abc''"
    "sha256 sample_env ''abc'' = iq_checksum ingest_query" "length (fv_nonce ingest_fresh) = NONCE_SIZE"
    by (simp_all add: read_bytes_def ingest_files_def sample_fs_def ingest_query_def sample_env_def ingest_fresh_def
        sample_nonce_def NONCE_SIZE_def canonical_def)
  moreover have "canonical sample_env (iq_staged_path ingest_query) \<noteq>
      canonical sample_env (original_path_for sample_env (iq_checksum ingest_query) (Some (iq_user_id ingest_query)))"
    using sample_target by (simp add: ingest_query_def)
  ultimately show ?thesis
    using ingested_content_recoverable [OF run sample_active_key(3) sample_aead _ sample_host_paths] a by blast
qed

end
