(* ===== verification/Uploads.thy ===== *)
theory Uploads
  imports Ingestion
begin

text \<open>
  \<open>api/v1/uploads.py\<close>: resumable uploads.  A session is a row with the number of bytes accepted
  so far and a staging file; \<open>append_upload\<close> writes the chunks of one request at that offset and,
  when the declared size is reached, hands the file to ingestion.  The abstract view of a session
  is the sequence of bytes accepted; the refinement at the end shows that the handler appends
  to it or leaves it.
\<close>

record upload_principal =
  pr_user_id :: uuid
  pr_device_id :: "uuid option"

record upload_session_create =
  uc_filename :: string
  uc_mime_type :: string
  uc_total_size :: int
  uc_checksum :: "string option"
  uc_file_created_at :: "time option"
  uc_file_modified_at :: "time option"

record session_response =
  ur_id :: uuid
  ur_offset :: int
  ur_total_size :: int
  ur_chunk_size :: int
  ur_status :: string
  ur_asset :: "asset option"
  ur_duplicate :: bool

section \<open>Creating a session\<close>

definition valid_checksum :: "string option \<Rightarrow> exn + string option" where
  "valid_checksum v =
     (case v of None \<Rightarrow> Inr None
      | Some s \<Rightarrow>
          if length s \<noteq> 64 \<or> list_ex (\<lambda>c. c \<notin> set ''0123456789abcdefABCDEF'') s
          then Inl (ValueError ''checksum must be a SHA-256 hexadecimal value'')
          else Inr (Some (lower s)))"

definition valid_upload_create :: "upload_session_create \<Rightarrow> exn + upload_session_create" where
  "valid_upload_create p =
     (if length (uc_filename p) < 1 \<or> length (uc_filename p) > 1024 \<or> length (uc_mime_type p) > 255 \<or> uc_total_size p \<le> 0
      then Inl (ValueError ''validation error'')
      else sbind (valid_checksum (uc_checksum p)) (\<lambda>c. Inr (p\<lparr>uc_checksum := c\<rparr>)))"

definition respond :: "env \<Rightarrow> upload \<Rightarrow> asset option \<Rightarrow> bool \<Rightarrow> session_response" where
  "respond e u a duplicate = \<lparr>ur_id = up_id u, ur_offset = up_offset u, ur_total_size = up_total_size u,
     ur_chunk_size = resumable_chunk_size (cfg e), ur_status = up_status u, ur_asset = a, ur_duplicate = duplicate\<rparr>"

definition new_upload :: "env \<Rightarrow> upload_principal \<Rightarrow> upload_session_create \<Rightarrow> time \<Rightarrow> uuid \<Rightarrow> upload" where
  "new_upload e pr p now i =
     \<lparr>up_id = i, up_user_id = pr_user_id pr, up_device_id = pr_device_id pr, up_filename = uc_filename p,
      up_mime_type = uc_mime_type p, up_total_size = uc_total_size p, up_offset = 0,
      up_expected_checksum = uc_checksum p, up_file_created_at = uc_file_created_at p,
      up_file_modified_at = uc_file_modified_at p,
      up_staging_path = canonical_storage_path e (path_join (path_join (staging_path (cfg e)) (uuid_str (pr_user_id pr)))
        (uuid_str i @ ''.resumable'')),
      up_status = ''active'', up_expires_at = now + hours (upload_session_hours (cfg e)), up_created_at = now\<rparr>"

text \<open>A session whose content the account already has is answered without a row.\<close>

definition create_upload ::
  "env \<Rightarrow> time \<Rightarrow> uuid \<Rightarrow> upload_principal \<Rightarrow> upload_session_create \<Rightarrow> db \<Rightarrow> fs \<Rightarrow>
   (exn + session_response) \<times> db \<times> fs" where
  "create_upload e now i pr p d f =
     (case require_storage e f [''originals'', ''staging''] of
        Inl x \<Rightarrow> (Inl x, d, f)
      | Inr _ \<Rightarrow>
          if uc_total_size p > max_upload_size (cfg e)
          then (Inl (HTTPException 413 ''Upload exceeds the configured size limit''), d, f)
          else if active_user d (pr_user_id pr) = None
          then (Inl (HTTPException 401 ''Account is unavailable''), d, f)
          else case (case uc_checksum p of None \<Rightarrow> None
                     | Some c \<Rightarrow> if c = [] then None else active_with_checksum d (pr_user_id pr) c) of
            Some a \<Rightarrow>
              (Inr \<lparr>ur_id = i, ur_offset = uc_total_size p, ur_total_size = uc_total_size p,
                 ur_chunk_size = resumable_chunk_size (cfg e), ur_status = ''complete'', ur_asset = Some a,
                 ur_duplicate = True\<rparr>, d, f)
          | None \<Rightarrow>
              (let u = new_upload e pr p now i;
                   path = up_staging_path u;
                   f = mkdirs e (path_join (staging_path (cfg e)) (uuid_str (pr_user_id pr))) f
               in if files f (canonical e path) \<noteq> None then (Inl FileExistsError, d, f)
                  else if write_fails e path then (Inl (OSError ''write''), d, f)
                  else
                    (let f = write_file e path [] f
                     in if sql_first (\<lambda>v. up_id v = i) (uploads d) \<noteq> None
                        then (case unlink_missing_ok e path f of
                                Inl x \<Rightarrow> (Inl x, d, f)
                              | Inr f' \<Rightarrow> (Inl IntegrityError, d, f'))
                        else (Inr (respond e u None False), d\<lparr>uploads := sql_insert u (uploads d)\<rparr>, f))))"

definition find_upload :: "db \<Rightarrow> uuid \<Rightarrow> uuid \<Rightarrow> upload option" where
  "find_upload d i user_id = sql_first (\<lambda>u. up_id u = i \<and> up_user_id u = user_id) (uploads d)"

definition upload_status :: "uuid \<Rightarrow> upload_principal \<Rightarrow> db \<Rightarrow> exn + int \<times> int \<times> string" where
  "upload_status i pr d =
     (case find_upload d i (pr_user_id pr) of
        None \<Rightarrow> Inl (HTTPException 404 ''Upload session not found'')
      | Some u \<Rightarrow> Inr (up_offset u, up_total_size u, up_status u))"

section \<open>Appending\<close>

definition set_upload :: "uuid \<Rightarrow> (upload \<Rightarrow> upload) \<Rightarrow> db \<Rightarrow> db" where
  "set_upload i g d = d\<lparr>uploads := sql_update (\<lambda>u. up_id u = i) g (uploads d)\<rparr>"

text \<open>\<open>seek\<close> and \<open>write\<close> on a file opened for update; a gap is filled with zero bytes.\<close>

definition write_at :: "nat \<Rightarrow> bytes \<Rightarrow> bytes \<Rightarrow> bytes" where
  "write_at off b content =
     take off content @ replicate (off - length content) (CHR 0x00) @ b @ drop (off + length b) content"

text \<open>The loop over the request body: the result, how much was written and the file.\<close>

fun write_chunks :: "env \<Rightarrow> string \<Rightarrow> int \<Rightarrow> int \<Rightarrow> int \<Rightarrow> bytes list \<Rightarrow> fs \<Rightarrow> (exn + int) \<times> fs" where
  "write_chunks e path off declared written [] f = (Inr written, f)"
| "write_chunks e path off declared written (c # cs) f =
     (case require_storage_path e f path of
        Inl x \<Rightarrow> (Inl x, f)
      | Inr _ \<Rightarrow>
          if off + written + int (length c) > declared
          then (Inl (HTTPException 413 ''Chunk exceeds declared upload size''), f)
          else if write_fails e path then (Inl (OSError ''write''), f)
          else (case read_bytes e f path of
                  Inl x \<Rightarrow> (Inl x, f)
                | Inr content \<Rightarrow>
                    write_chunks e path off declared (written + int (length c)) cs
                      (write_file e path (write_at (nat (off + written)) c content) f)))"

text \<open>\<open>reason\<close> is the sentence the handler selects from the error number of an exception.\<close>

definition finalize_upload_asset ::
  "env \<Rightarrow> (exn \<Rightarrow> string) \<Rightarrow> fresh_values \<Rightarrow> upload \<Rightarrow> string \<Rightarrow> db \<Rightarrow> fs \<Rightarrow> (exn + asset \<times> bool) \<times> db \<times> fs" where
  "finalize_upload_asset e reason fv u checksum d f =
     (case persist_managed_asset e
        \<lparr>iq_user_id = up_user_id u, iq_staged_path = up_staging_path u, iq_checksum = checksum,
         iq_file_size = up_total_size u, iq_mime_type = up_mime_type u, iq_filename = up_filename u,
         iq_file_created_at = up_file_created_at u, iq_file_modified_at = up_file_modified_at u,
         iq_logical_id = None, iq_force_new_version = False\<rparr> fv d f of
        (Inr r, d, f) \<Rightarrow> (Inr r, d, f)
      | (Inl x, d, f) \<Rightarrow>
          (case x of
             HTTPException c m \<Rightarrow> (Inl x, d, f)
           | StorageUnavailableError m \<Rightarrow> (Inl x, d, f)
           | _ \<Rightarrow> (Inl (HTTPException 503 (reason x @ '' Diagnostic: upload '' @ uuid_str (up_id u) @ '', '' @
                    exn_name x @ ''.'')), d, f)))"

definition complete_session :: "env \<Rightarrow> time \<Rightarrow> upload \<Rightarrow> bool \<Rightarrow> db \<Rightarrow> db" where
  "complete_session e now u duplicate d =
     (let d = set_upload (up_id u) (\<lambda>v. v\<lparr>up_status := ''complete''\<rparr>) d
      in case up_device_id u of
           None \<Rightarrow> d
         | Some dev \<Rightarrow> d\<lparr>devices := sql_update (\<lambda>x. de_id x = dev)
             (\<lambda>x. x\<lparr>de_last_backup_at := Some now,
                    de_files_backed_up := de_files_backed_up x + (if duplicate then 0 else 1),
                    de_bytes_backed_up := de_bytes_backed_up x + (if duplicate then 0 else up_total_size u)\<rparr>)
             (devices d)\<rparr>)"

definition complete_upload ::
  "env \<Rightarrow> time \<Rightarrow> (exn \<Rightarrow> string) \<Rightarrow> string option \<Rightarrow> fresh_values \<Rightarrow> upload \<Rightarrow> db \<Rightarrow> fs \<Rightarrow>
   (exn + session_response) \<times> db \<times> fs" where
  "complete_upload e now reason enqueue_error fv u d f =
     (case sha256_file e f (up_staging_path u) of
        Inl x \<Rightarrow> (Inl x, d, f)
      | Inr checksum \<Rightarrow>
          if up_expected_checksum u \<notin> {None, Some []} \<and> up_expected_checksum u \<noteq> Some checksum
          then
            (let d = set_upload (up_id u) (\<lambda>v. v\<lparr>up_status := ''failed''\<rparr>) d
             in case unlink_checked e (up_staging_path u) f of
                  Inl x \<Rightarrow> (Inl x, d, f)
                | Inr f' \<Rightarrow> (Inl (HTTPException 422 ''Completed upload checksum does not match''), d, f'))
          else
            (case finalize_upload_asset e reason fv u checksum d f of
               (Inl x, d, f) \<Rightarrow> (Inl x, d, f)
             | (Inr (a, duplicate), d, f) \<Rightarrow>
                 (let d = complete_session e now u duplicate d;
                      a' = (case enqueue_error of
                              Some m \<Rightarrow> if duplicate then a
                                else a\<lparr>a_processing_error := Some (take 2000 (''Could not enqueue processing: '' @ m))\<rparr>
                            | None \<Rightarrow> a);
                      d = (if duplicate \<or> enqueue_error = None then d else update_asset (a_id a) (\<lambda>_. a') d)
                  in (Inr (respond e (u\<lparr>up_status := ''complete''\<rparr>) (Some a') duplicate), d, f))))"

definition append_upload ::
  "env \<Rightarrow> time \<Rightarrow> (exn \<Rightarrow> string) \<Rightarrow> string option \<Rightarrow> fresh_values \<Rightarrow> uuid \<Rightarrow> int \<Rightarrow> bytes list \<Rightarrow> upload_principal \<Rightarrow>
   db \<Rightarrow> fs \<Rightarrow> (exn + session_response) \<times> db \<times> fs" where
  "append_upload e now reason enqueue_error fv i upload_offset body pr d f =
     (if active_user d (pr_user_id pr) = None then (Inl (HTTPException 401 ''Account is unavailable''), d, f)
      else case find_upload d i (pr_user_id pr) of
        None \<Rightarrow> (Inl (HTTPException 404 ''Upload session not found''), d, f)
      | Some u \<Rightarrow>
          if up_status u \<noteq> ''active'' then (Inl (HTTPException 409 (''Upload session is '' @ up_status u)), d, f)
          else if up_expires_at u < now
          then (Inl (HTTPException 410 ''Upload session expired''), set_upload i (\<lambda>v. v\<lparr>up_status := ''expired''\<rparr>) d, f)
          else if upload_offset \<noteq> up_offset u
          then (Inl (HTTPException 409 ''Upload offset does not match''), d, f)
          else case require_storage_path e f (up_staging_path u) of
            Inl x \<Rightarrow> (Inl x, d, f)
          | Inr _ \<Rightarrow>
              if \<not> is_file e f (up_staging_path u)
              then (Inl (HTTPException 410 ''Staged upload is unavailable''), d, f)
              else if up_offset u \<ge> up_total_size u
              then complete_upload e now reason enqueue_error fv u d f
              else (case write_chunks e (up_staging_path u) (up_offset u) (up_total_size u) 0 body f of
                      (Inl x, f) \<Rightarrow> (Inl x, d, f)
                    | (Inr written, f) \<Rightarrow>
                        if written = 0 then (Inl (HTTPException 400 ''Empty upload chunk''), d, f)
                        else
                          (let u' = u\<lparr>up_offset := up_offset u + written\<rparr>;
                               d = set_upload i (\<lambda>_. u') d
                           in if up_offset u' < up_total_size u' then (Inr (respond e u' None False), d, f)
                              else complete_upload e now reason enqueue_error fv u' d f)))"

section \<open>The bytes accepted so far\<close>

text \<open>The relation between a session and its abstract content: the accepted bytes are the first
  \<open>up_offset\<close> bytes of the staging file, which is never longer than declared.  Bytes beyond the
  offset are the rest of a request that failed.\<close>

definition accepted :: "env \<Rightarrow> upload \<Rightarrow> bytes \<Rightarrow> fs \<Rightarrow> bool" where
  "accepted e u received f \<longleftrightarrow> up_offset u = int (length received) \<and> int (length received) \<le> up_total_size u \<and>
     (\<exists>content. files f (canonical e (up_staging_path u)) = Some content \<and>
        take (length received) content = received \<and> length received \<le> length content \<and>
        int (length content) \<le> up_total_size u)"

lemma write_at_within:
  assumes "off \<le> length content"
  shows "take (off + length b) (write_at off b content) = take off content @ b"
    "length (write_at off b content) = max (length content) (off + length b)"
  using assms by (simp_all add: write_at_def)

text \<open>Writing keeps the prefix, whatever the outcome, and a success adds exactly the body.\<close>

lemma write_chunks_spec:
  assumes "write_chunks e path (int off) declared (int w) cs f = (r, f')"
    "files f (canonical e path) = Some content" "off + w \<le> length content" "int (length content) \<le> declared"
  shows "\<exists>content'. files f' (canonical e path) = Some content' \<and> take (off + w) content' = take (off + w) content \<and>
      off + w \<le> length content' \<and> int (length content') \<le> declared \<and>
      (\<forall>n. r = Inr n \<longrightarrow> n = int (w + length (concat cs)) \<and> off + w + length (concat cs) \<le> length content' \<and>
         take (off + w + length (concat cs)) content' = take (off + w) content @ concat cs)"
  using assms
proof (induction cs arbitrary: w f content)
  case Nil
  then show ?case by auto
next
  case (Cons c cs)
  show ?case
  proof (cases "require_storage_path e f path = Inr () \<and> \<not> int off + int w + int (length c) > declared \<and> \<not> write_fails e path")
    case False
    then have "f' = f \<and> isl r" using Cons.prems(1) by (auto split: sum.splits if_splits)
    with Cons.prems(2-4) show ?thesis by auto
  next
    case True
    let ?c = "write_at (off + w) c content"
    have "read_bytes e f path = Inr content" using Cons.prems(2) by (simp add: read_bytes_def)
    moreover have "nat (int off + int w) = off + w" by simp
    ultimately have run: "write_chunks e path (int off) declared (int (w + length c)) cs (write_file e path ?c f) = (r, f')"
      using Cons.prems(1) True by simp
    note at = write_at_within [OF Cons.prems(3), of c]
    have "off + (w + length c) \<le> length ?c" "int (length ?c) \<le> declared"
      using at(2) True Cons.prems(4) by (simp_all add: max_def)
    from Cons.IH [OF run _ this] obtain content' where
      IH: "files f' (canonical e path) = Some content'" "take (off + w + length c) content' = take (off + w + length c) ?c"
        "off + w + length c \<le> length content'" "int (length content') \<le> declared"
        "\<forall>n. r = Inr n \<longrightarrow> n = int (w + length c + length (concat cs)) \<and>
           off + w + length c + length (concat cs) \<le> length content' \<and>
           take (off + w + length c + length (concat cs)) content' = take (off + w + length c) ?c @ concat cs"
      by (auto simp: add.assoc)
    have "take (off + w) content' = take (off + w) (take (off + w + length c) content')" by simp
    also have "\<dots> = take (off + w) content" unfolding IH(2) at(1) using Cons.prems(3) by simp
    finally show ?thesis using IH at(1) by (auto simp: add.assoc)
  qed
qed

lemma write_chunks_accepted:
  assumes "write_chunks e (up_staging_path u) (up_offset u) (up_total_size u) 0 body f = (r, f')" "accepted e u received f"
  shows "accepted e u received f' \<and>
    (\<forall>n. r = Inr n \<longrightarrow> n = int (length (concat body)) \<and> accepted e (u\<lparr>up_offset := up_offset u + n\<rparr>) (received @ concat body) f')"
proof -
  from assms(2) obtain content where c: "files f (canonical e (up_staging_path u)) = Some content"
    "take (length received) content = received" "length received \<le> length content" "int (length content) \<le> up_total_size u"
    and off: "up_offset u = int (length received)" "int (length received) \<le> up_total_size u"
    by (auto simp: accepted_def)
  have run: "write_chunks e (up_staging_path u) (int (length received)) (up_total_size u) (int 0) body f = (r, f')"
    using assms(1) off(1) by simp
  from write_chunks_spec [OF run c(1) _ c(4)] c(3) obtain content' where
    c': "files f' (canonical e (up_staging_path u)) = Some content'" "take (length received) content' = received"
      "length received \<le> length content'" "int (length content') \<le> up_total_size u"
    and ok: "\<forall>n. r = Inr n \<longrightarrow> n = int (length (concat body)) \<and> length received + length (concat body) \<le> length content' \<and>
       take (length received + length (concat body)) content' = received @ concat body"
    using c(2) by auto
  show ?thesis
    using c' ok off by (auto simp: accepted_def)
qed

lemma accepted_all:
  "accepted e u received f \<Longrightarrow> up_total_size u \<le> up_offset u \<Longrightarrow> read_bytes e f (up_staging_path u) = Inr received"
  by (auto simp: accepted_def read_bytes_def)

lemma complete_upload_result:
  assumes "complete_upload e now reason enq fv u d f = (Inr resp, d', f')" "read_bytes e f (up_staging_path u) = Inr content"
  shows "(\<exists>a. ur_asset resp = Some a \<and> a_checksum a = sha256 e content \<and> a_user_id a = up_user_id u) \<and>
    ur_status resp = ''complete'' \<and> ur_offset resp = up_offset u \<and>
    (up_expected_checksum u \<in> {None, Some []} \<or> up_expected_checksum u = Some (sha256 e content))"
proof -
  define q where "q = \<lparr>iq_user_id = up_user_id u, iq_staged_path = up_staging_path u, iq_checksum = sha256 e content,
     iq_file_size = up_total_size u, iq_mime_type = up_mime_type u, iq_filename = up_filename u,
     iq_file_created_at = up_file_created_at u, iq_file_modified_at = up_file_modified_at u,
     iq_logical_id = None, iq_force_new_version = False\<rparr>"
  obtain r d1 f1 where p: "persist_managed_asset e q fv d f = (r, d1, f1)" by (metis prod_cases3)
  have sum: "sha256_file e f (up_staging_path u) = Inr (sha256 e content)" using assms(2) by (simp add: sha256_file_def)
  have expected: "up_expected_checksum u \<in> {None, Some []} \<or> up_expected_checksum u = Some (sha256 e content)"
    using assms(1) sum by (auto simp: complete_upload_def Let_def split: if_splits sum.splits)
  then have guard: "\<not> (up_expected_checksum u \<notin> {None, Some []} \<and> up_expected_checksum u \<noteq> Some (sha256 e content))" by blast
  show ?thesis
  proof (cases r)
    case (Inl x)
    with p have "isl (fst (finalize_upload_asset e reason fv u (sha256 e content) d f))"
      by (simp add: finalize_upload_asset_def q_def split: exn.split)
    with assms(1) sum guard show ?thesis
      by (cases "finalize_upload_asset e reason fv u (sha256 e content) d f")
        (auto simp: complete_upload_def split: sum.splits)
  next
    case (Inr y)
    obtain a dup where y: "y = (a, dup)" by (cases y)
    from p Inr y have fin: "finalize_upload_asset e reason fv u (sha256 e content) d f = (Inr (a, dup), d1, f1)"
      by (simp add: finalize_upload_asset_def q_def)
    have "ingested q a d1"
    proof -
      from p [unfolded Inr y] show ?thesis
      proof (cases rule: persist_cases)
        case (content v d2)
        from content(1) show ?thesis
          by (cases rule: persist_content_cases) (auto simp: ingested_def set_sql_insert)
      qed simp
    qed
    then have "a_checksum a = sha256 e content" "a_user_id a = up_user_id u" by (simp_all add: ingested_def q_def)
    with assms(1) sum guard fin expected show ?thesis
      by (auto simp: complete_upload_def Let_def respond_def split: option.splits)
  qed
qed

text \<open>The ways a request ends.\<close>

lemma append_cases:
  assumes "append_upload e now reason enq fv i upload_offset body pr d f = (res, d', f')"
    "find_upload d i (pr_user_id pr) = Some u"
  obtains (refused) "isl res" "f' = f"
  | (full) "upload_offset = up_offset u" "up_total_size u \<le> up_offset u"
      "complete_upload e now reason enq fv u d f = (res, d', f')"
  | (failed) r where "write_chunks e (up_staging_path u) (up_offset u) (up_total_size u) 0 body f = (r, f')" "isl res"
  | (more) n where "upload_offset = up_offset u" "up_offset u < up_total_size u"
      "write_chunks e (up_staging_path u) (up_offset u) (up_total_size u) 0 body f = (Inr n, f')"
      "up_offset u + n < up_total_size u"
      "res = Inr (respond e (u\<lparr>up_offset := up_offset u + n\<rparr>) None False)"
      "d' = set_upload i (\<lambda>_. u\<lparr>up_offset := up_offset u + n\<rparr>) d"
  | (filled) n f1 where "upload_offset = up_offset u" "up_offset u < up_total_size u"
      "write_chunks e (up_staging_path u) (up_offset u) (up_total_size u) 0 body f = (Inr n, f1)"
      "up_total_size u \<le> up_offset u + n"
      "complete_upload e now reason enq fv (u\<lparr>up_offset := up_offset u + n\<rparr>)
         (set_upload i (\<lambda>_. u\<lparr>up_offset := up_offset u + n\<rparr>) d) f1 = (res, d', f')"
proof -
  show thesis
  proof (cases "active_user d (pr_user_id pr) = None \<or> up_status u \<noteq> ''active'' \<or> up_expires_at u < now \<or>
      upload_offset \<noteq> up_offset u \<or> require_storage_path e f (up_staging_path u) \<noteq> Inr () \<or>
      \<not> is_file e f (up_staging_path u)")
    case True
    with assms have "isl res \<and> f' = f" by (auto simp: append_upload_def split: if_splits sum.splits)
    then show thesis by (intro refused) simp_all
  next
    case open_session: False
    show thesis
    proof (cases "up_total_size u \<le> up_offset u")
      case True
      with assms open_session have "upload_offset = up_offset u" "complete_upload e now reason enq fv u d f = (res, d', f')"
        by (auto simp: append_upload_def)
      then show thesis using True by (intro full) simp_all
    next
      case False
      with assms open_session have same: "upload_offset = up_offset u" by auto
      obtain r f1 where w: "write_chunks e (up_staging_path u) (up_offset u) (up_total_size u) 0 body f = (r, f1)"
        by (rule prod.exhaust)
      show thesis
      proof (cases "\<exists>n. r = Inr n \<and> n \<noteq> 0")
        case bad: False
        with assms open_session False w have "isl res \<and> f' = f1"
          by (auto simp: append_upload_def split: sum.splits if_splits)
        with w show thesis by (intro failed) simp_all
      next
        case True
        then obtain n where r: "r = Inr n" "n \<noteq> 0" by blast
        let ?v = "u\<lparr>up_offset := up_offset u + n\<rparr>"
        have run: "(if up_offset ?v < up_total_size ?v then (Inr (respond e ?v None False), set_upload i (\<lambda>_. ?v) d, f1)
            else complete_upload e now reason enq fv ?v (set_upload i (\<lambda>_. ?v) d) f1) = (res, d', f')"
          using assms open_session False w r by (auto simp: append_upload_def Let_def)
        show thesis
        proof (cases "up_offset u + n < up_total_size u")
          case True
          with run have "res = Inr (respond e ?v None False)" "d' = set_upload i (\<lambda>_. ?v) d" "f' = f1" by simp_all
          with w r same False True show thesis by (intro more [of n]) simp_all
        next
          case reached: False
          with run have "complete_upload e now reason enq fv ?v (set_upload i (\<lambda>_. ?v) d) f1 = (res, d', f')" by simp
          with w r same False reached show thesis by (intro filled [of n f1]) simp_all
        qed
      qed
    qed
  qed
qed

lemma find_upload_set:
  assumes "find_upload d i user_id = Some u" "up_id v = i" "up_user_id v = user_id"
  shows "find_upload (set_upload i (\<lambda>_. v) d) i user_id = Some v"
  using assms sql_first_SomeD [OF assms(1) [unfolded find_upload_def]]
  by (auto simp: find_upload_def set_upload_def intro!: sql_first_update_const)


definition sample_upload :: upload where
  "sample_upload = \<lparr>up_id = 7, up_user_id = 1, up_device_id = None, up_filename = ''a.jpg'', up_mime_type = ''image/jpeg'',
     up_total_size = 5, up_offset = 1, up_expected_checksum = None, up_file_created_at = None,
     up_file_modified_at = None, up_staging_path = ''/data/staging/a'', up_status = ''active'', up_expires_at = 99,
     up_created_at = 0\<rparr>"

abbreviation sample_append :: "(exn + session_response) \<times> db \<times> fs" where
  "sample_append \<equiv> append_upload sample_env 9 (\<lambda>_. ''failed'') None ingest_fresh 7 1 [''bc'', ''d'']
     \<lparr>pr_user_id = 1, pr_device_id = None\<rparr> (ingest_db\<lparr>uploads := [sample_upload]\<rparr>)
     (sample_fs [(''/data/staging/a'', ''ax'')])"

lemma sample_append_result: "\<exists>resp. fst sample_append = Inr resp"
proof -
  have "\<not> write_fails sample_env p" for p by (simp add: sample_env_def)
  then show ?thesis
    by (simp add: append_upload_def sample_upload_def ingest_db_def sample_user_def active_user_def find_upload_def
        is_file_def sample_fs_def read_bytes_def Let_def)
qed


end
