(* ===== verification/Access.thy ===== *)
theory Access
  imports Ledger
begin

text \<open>
  Who makes a request: \<open>core/security.py\<close> (access tokens, sessions, recent authentication, device
  credentials, the second factor's constant-time comparison) with the parts of
  \<open>services/accounts.py\<close> every authentication uses (the address of the client, the audit trail,
  the attempt counters in Redis, links sent by mail) and \<open>verify_second_factor\<close> of
  \<open>api/v1/auth.py\<close>.  The token codec and the time-based codes are parameters.
\<close>

section \<open>Requests\<close>

text \<open>\<open>rq_rates_up\<close> tells whether Redis answers during the request.\<close>

record request =
  rq_peer :: "string option"
  rq_bearer :: "string option"
  rq_headers :: "string \<rightharpoonup> string"
  rq_cookies :: "string \<rightharpoonup> string"
  rq_rates_up :: bool

definition truthy :: "string option \<Rightarrow> bool" where
  "truthy x \<longleftrightarrow> x \<notin> {None, Some []}"

definition request_context :: "env \<Rightarrow> request \<Rightarrow> string option \<times> string option" where
  "request_context e rq =
     (let peer = rq_peer rq;
          trusted = (case peer of None \<Rightarrow> False
            | Some p \<Rightarrow> p \<noteq> [] \<and> (case parse_ip e p of None \<Rightarrow> False | Some ip \<Rightarrow> trusted_proxy e ip));
          forwarded = (case rq_headers rq ''x-forwarded-for'' of None \<Rightarrow> [] | Some s \<Rightarrow> s);
          candidate = strip (takeWhile (\<lambda>c. c \<noteq> CHR '','') forwarded);
          client = (if trusted \<and> candidate \<noteq> []
                    then (case parse_ip e candidate of None \<Rightarrow> peer | Some ip \<Rightarrow> Some ip) else peer);
          agent = take 512 (case rq_headers rq ''user-agent'' of None \<Rightarrow> [] | Some s \<Rightarrow> s)
      in (client, if agent = [] then None else Some agent))"

definition record_event :: "env \<Rightarrow> request \<Rightarrow> string \<Rightarrow> uuid option \<Rightarrow> json \<Rightarrow> db \<Rightarrow> db" where
  "record_event e rq event user_id detail d =
     (let (ip, agent) = request_context e rq in
      d\<lparr>audit_events := sql_insert \<lparr>au_user_id = user_id, au_event_type = event, au_ip_address = ip,
          au_user_agent = agent, au_detail = detail\<rparr> (audit_events d)\<rparr>)"

section \<open>Attempt counters\<close>

text \<open>The counters Redis holds: a count and the moment the key expires.  The script increments each
  key and gives a key without an expiry the window.\<close>

type_synonym rate_store = "string \<rightharpoonup> int \<times> time"

definition incr :: "env \<Rightarrow> time \<Rightarrow> string \<Rightarrow> rate_store \<Rightarrow> int \<times> rate_store" where
  "incr e now key r =
     (case r key of
        Some (c, until) \<Rightarrow>
          if now < until then (c + 1, r(key \<mapsto> (c + 1, until)))
          else (1, r(key \<mapsto> (1, now + auth_rate_limit_window_seconds (cfg e) * second)))
      | None \<Rightarrow> (1, r(key \<mapsto> (1, now + auth_rate_limit_window_seconds (cfg e) * second))))"

fun incr_all :: "env \<Rightarrow> time \<Rightarrow> string list \<Rightarrow> rate_store \<Rightarrow> int list \<times> rate_store" where
  "incr_all e now [] r = ([], r)"
| "incr_all e now (k # ks) r =
     (let (c, r) = incr e now k r; (cs, r) = incr_all e now ks r in (c # cs, r))"

definition shown_ip :: "string option \<Rightarrow> string" where
  "shown_ip ip = (case ip of None \<Rightarrow> ''None'' | Some s \<Rightarrow> s)"

definition ip_key :: "env \<Rightarrow> request \<Rightarrow> string" where
  "ip_key e rq = ''auth-rate:'' @ sha256 e (jwt_secret (cfg e) @ '':ip:'' @ shown_ip (fst (request_context e rq)))"

definition pair_key :: "env \<Rightarrow> request \<Rightarrow> string \<Rightarrow> string" where
  "pair_key e rq i = ''auth-rate:'' @ sha256 e
     (jwt_secret (cfg e) @ '':pair:'' @ lower i @ '':'' @ shown_ip (fst (request_context e rq)))"

definition identity_key :: "env \<Rightarrow> string \<Rightarrow> string" where
  "identity_key e i = ''auth-rate:'' @ sha256 e (jwt_secret (cfg e) @ '':identity:'' @ lower i)"

definition enforce_rate_limit ::
  "env \<Rightarrow> time \<Rightarrow> request \<Rightarrow> string option \<Rightarrow> rate_store \<Rightarrow> (exn + unit) \<times> rate_store" where
  "enforce_rate_limit e now rq i r =
     (if rq_rates_up rq
      then
        (let keys = (case i of None \<Rightarrow> [ip_key e rq] | Some s \<Rightarrow> [pair_key e rq s, identity_key e s, ip_key e rq]);
             (counts, r) = incr_all e now keys r;
             attempts = auth_rate_limit_attempts (cfg e);
             exceeded = (if i = None then counts ! 0 > attempts * 10
                         else counts ! 0 > attempts \<or> counts ! 1 > attempts \<or> counts ! 2 > attempts * 10)
         in (require (\<not> exceeded) (HTTPException 429 ''Too many attempts. Please wait and try again.''), r))
      else if remote_access_enabled (cfg e) \<or> production_like e
      then (Inl (HTTPException 503 ''Authentication protection is temporarily unavailable. Please try again.''), r)
      else (Inr (), r))"

definition reset_rate_limit :: "env \<Rightarrow> request \<Rightarrow> string option \<Rightarrow> rate_store \<Rightarrow> rate_store" where
  "reset_rate_limit e rq i r =
     (case i of
        None \<Rightarrow> r
      | Some s \<Rightarrow> if rq_rates_up rq then r(pair_key e rq s := None, identity_key e s := None) else r)"

section \<open>Tokens\<close>

definition token_digest :: "env \<Rightarrow> string \<Rightarrow> string" where
  "token_digest e t = sha256 e t"

definition create_access_token :: "env \<Rightarrow> time \<Rightarrow> uuid \<Rightarrow> uuid \<Rightarrow> string" where
  "create_access_token e now user_id session_id =
     jwt_encode e (jwt_secret (cfg e)) (uuid_str user_id) now (now + minutes (access_token_minutes (cfg e)))
       (uuid_str session_id)"

definition decode_access_claims :: "env \<Rightarrow> time \<Rightarrow> string \<Rightarrow> exn + uuid \<times> uuid option" where
  "decode_access_claims e now token =
     (let bad = Inl (HTTPException 401 ''Invalid or expired access token'') in
      case jwt_claims e (jwt_secret (cfg e)) token now of
        None \<Rightarrow> bad
      | Some (sub, sid) \<Rightarrow>
          (case parse_uuid sub of
             None \<Rightarrow> bad
           | Some user_id \<Rightarrow>
               (case sid of
                  None \<Rightarrow> Inr (user_id, None)
                | Some s \<Rightarrow>
                    if s = [] then Inr (user_id, None)
                    else (case parse_uuid s of None \<Rightarrow> bad | Some i \<Rightarrow> Inr (user_id, Some i)))))"

text \<open>A link: superseding the outstanding ones of the same purpose, then adding the new one.\<close>

definition insert_token :: "account_token \<Rightarrow> db \<Rightarrow> exn + db" where
  "insert_token t d =
     (if list_ex (\<lambda>x. at_id x = at_id t \<or> at_token_hash x = at_token_hash t) (account_tokens d)
      then Inl IntegrityError else Inr (d\<lparr>account_tokens := sql_insert t (account_tokens d)\<rparr>))"

definition create_account_token ::
  "env \<Rightarrow> time \<Rightarrow> uuid \<Rightarrow> string \<Rightarrow> time \<Rightarrow> uuid option \<Rightarrow> uuid \<times> string \<Rightarrow> db \<Rightarrow> exn + db" where
  "create_account_token e now user_id purpose lifetime session_id fresh d =
     insert_token \<lparr>at_id = fst fresh, at_user_id = user_id, at_session_id = session_id, at_purpose = purpose,
         at_token_hash = token_digest e (snd fresh), at_expires_at = now + lifetime, at_used_at = None,
         at_created_at = now\<rparr>
       (d\<lparr>account_tokens := sql_update (\<lambda>t. at_user_id t = user_id \<and> at_purpose t = purpose \<and> at_used_at t = None)
          (\<lambda>t. t\<lparr>at_used_at := Some now\<rparr>) (account_tokens d)\<rparr>)"

definition valid_account_token :: "env \<Rightarrow> time \<Rightarrow> string \<Rightarrow> string \<Rightarrow> db \<Rightarrow> exn + account_token" where
  "valid_account_token e now raw purpose d =
     (let bad = Inl (HTTPException 400 ''This link is invalid or has expired'') in
      case sql_first (\<lambda>t. at_token_hash t = token_digest e raw \<and> at_purpose t = purpose) (account_tokens d) of
        None \<Rightarrow> bad
      | Some c \<Rightarrow>
          if sql_first (\<lambda>u. u_id u = at_user_id c) (users d) = None then bad
          else (case sql_first (\<lambda>t. at_token_hash t = token_digest e raw \<and> at_purpose t = purpose \<and>
                       at_used_at t = None \<and> at_expires_at t > now) (account_tokens d) of
                  None \<Rightarrow> bad
                | Some t \<Rightarrow> Inr t))"

definition use_token :: "time \<Rightarrow> account_token \<Rightarrow> db \<Rightarrow> db" where
  "use_token now t d =
     d\<lparr>account_tokens := sql_update (\<lambda>x. at_id x = at_id t) (\<lambda>x. x\<lparr>at_used_at := Some now\<rparr>) (account_tokens d)\<rparr>"

section \<open>Sessions\<close>

definition find_user :: "db \<Rightarrow> uuid \<Rightarrow> user option" where
  "find_user d i = sql_first (\<lambda>u. u_id u = i) (users d)"

definition live_session :: "time \<Rightarrow> uuid \<Rightarrow> uuid \<Rightarrow> auth_session \<Rightarrow> bool" where
  "live_session now sid user_id s \<longleftrightarrow>
     as_id s = sid \<and> as_user_id s = user_id \<and> as_revoked_at s = None \<and> as_expires_at s > now"

definition touch_session :: "time \<Rightarrow> auth_session \<Rightarrow> uuid \<Rightarrow> db \<Rightarrow> db" where
  "touch_session now s user_id d =
     (if as_last_seen_at s < now - minutes 5
      then d\<lparr>auth_sessions := sql_update (\<lambda>x. live_session now (as_id s) user_id x \<and> as_last_seen_at x < now - minutes 5 \<and>
               list_ex (\<lambda>u. u_id u = user_id \<and> u_disabled_at u = None) (users d))
             (\<lambda>x. x\<lparr>as_last_seen_at := now\<rparr>) (auth_sessions d)\<rparr>
      else d)"

definition presented_token :: "env \<Rightarrow> request \<Rightarrow> string option" where
  "presented_token e rq = (if truthy (rq_bearer rq) then rq_bearer rq else rq_cookies rq (auth_cookie_name (cfg e)))"

definition current_auth :: "env \<Rightarrow> time \<Rightarrow> request \<Rightarrow> ledger \<Rightarrow> db \<Rightarrow> (exn + user \<times> auth_session) \<times> db" where
  "current_auth e now rq l d =
     (case presented_token e rq of
        None \<Rightarrow> (Inl (HTTPException 401 ''Authentication required''), d)
      | Some token \<Rightarrow>
          if token = [] then (Inl (HTTPException 401 ''Authentication required''), d)
          else case decode_access_claims e now token of
            Inl x \<Rightarrow> (Inl x, d)
          | Inr (user_id, session_id) \<Rightarrow>
              (case reject_suppressed_account e l user_id of
                 Inl x \<Rightarrow> (Inl x, d)
               | Inr _ \<Rightarrow>
                   (case session_id of
                      None \<Rightarrow> (Inl (HTTPException 401 ''Session is no longer valid''), d)
                    | Some sid \<Rightarrow>
                        (case sql_first (live_session now sid user_id) (auth_sessions d) of
                           None \<Rightarrow> (Inl (HTTPException 401 ''Session is no longer valid''), d)
                         | Some s \<Rightarrow>
                             (case find_user d user_id of
                                None \<Rightarrow> (Inl (HTTPException 401 ''Account is unavailable''), d)
                              | Some u \<Rightarrow>
                                  if u_disabled_at u \<noteq> None
                                  then (Inl (HTTPException 401 ''Account is unavailable''), d)
                                  else (Inr (u, s), touch_session now s user_id d))))))"

definition session_has_recent_auth :: "env \<Rightarrow> time \<Rightarrow> auth_session \<Rightarrow> bool" where
  "session_has_recent_auth e now s \<longleftrightarrow>
     (case as_reauthenticated_at s of
        None \<Rightarrow> False
      | Some v \<Rightarrow> now - minutes (recent_auth_minutes (cfg e)) \<le> v \<and> v \<le> now + minutes 1)"

abbreviation recent_auth_required :: exn where
  "recent_auth_required \<equiv> HTTPException 428 ''recent_auth_required''"

definition require_recent_auth :: "env \<Rightarrow> time \<Rightarrow> request \<Rightarrow> ledger \<Rightarrow> db \<Rightarrow> (exn + user \<times> auth_session) \<times> db" where
  "require_recent_auth e now rq l d =
     (case current_auth e now rq l d of
        (Inl x, d) \<Rightarrow> (Inl x, d)
      | (Inr (u, s), d) \<Rightarrow> (if session_has_recent_auth e now s then (Inr (u, s), d) else (Inl recent_auth_required, d)))"

definition current_user_or_device :: "env \<Rightarrow> time \<Rightarrow> request \<Rightarrow> ledger \<Rightarrow> db \<Rightarrow> (exn + user) \<times> db" where
  "current_user_or_device e now rq l d =
     (if truthy (rq_bearer rq) \<or> truthy (rq_cookies rq (auth_cookie_name (cfg e)))
      then (case current_auth e now rq l d of (Inl x, d) \<Rightarrow> (Inl x, d) | (Inr (u, s), d) \<Rightarrow> (Inr u, d))
      else
        (let no = (Inl (HTTPException 401 ''Authentication required''), d) in
         case rq_headers rq ''x-device-token'' of
           None \<Rightarrow> no
         | Some token \<Rightarrow>
             if token = [] then no
             else (case sql_first (\<lambda>x. de_token_hash x = token_digest e token) (devices d) of
                     None \<Rightarrow> no
                   | Some dev \<Rightarrow>
                       (case reject_suppressed_account e l (de_user_id dev) of
                          Inl x \<Rightarrow> (Inl x, d)
                        | Inr _ \<Rightarrow>
                            (case find_user d (de_user_id dev) of
                               None \<Rightarrow> no
                             | Some u \<Rightarrow>
                                 if u_disabled_at u \<noteq> None then no
                                 else (Inr u, d\<lparr>devices := sql_update (\<lambda>x. de_id x = de_id dev)
                                               (\<lambda>x. x\<lparr>de_last_seen_at := Some now\<rparr>) (devices d)\<rparr>))))))"

section \<open>The second factor\<close>

text \<open>\<open>secrets.compare_digest\<close> of two strings refuses characters outside ASCII; \<open>str.isdigit\<close> accepts
  the superscript digits.\<close>

definition compare_digest :: "string \<Rightarrow> string \<Rightarrow> exn + bool" where
  "compare_digest a b =
     (if list_all (\<lambda>c. of_char c < (128 :: nat)) (a @ b) then Inr (a = b)
      else Inl (TypeError ''comparing strings with non-ASCII characters is not supported''))"

definition isdigit :: "string \<Rightarrow> bool" where
  "isdigit s \<longleftrightarrow> s \<noteq> [] \<and> list_all (\<lambda>c. c \<in> set ''0123456789'' \<or> of_char c \<in> {0xB2, 0xB3, 0xB9 :: nat}) s"

fun first_step :: "env \<Rightarrow> string \<Rightarrow> string \<Rightarrow> int list \<Rightarrow> exn + int option" where
  "first_step e secret code [] = Inr None"
| "first_step e secret code (n # ns) =
     sbind (compare_digest (totp_code e secret n) code) (\<lambda>same. if same then Inr (Some n) else first_step e secret code ns)"

definition matching_totp_step :: "env \<Rightarrow> time \<Rightarrow> string \<Rightarrow> string \<Rightarrow> exn + int option" where
  "matching_totp_step e now secret code =
     (let current = now div (30 * second) in first_step e secret code [current - 1, current, current + 1])"

definition use_recovery_code :: "env \<Rightarrow> time \<Rightarrow> uuid \<Rightarrow> string \<Rightarrow> db \<Rightarrow> bool \<times> db" where
  "use_recovery_code e now user_id normalized d =
     (case sql_first (\<lambda>c. rc_user_id c = user_id \<and> rc_code_hash c = token_digest e normalized \<and> rc_used_at c = None)
             (recovery_codes d) of
        None \<Rightarrow> (False, d)
      | Some c \<Rightarrow> (True, d\<lparr>recovery_codes := sql_update (\<lambda>x. rc_id x = rc_id c)
                      (\<lambda>x. x\<lparr>rc_used_at := Some now\<rparr>) (recovery_codes d)\<rparr>))"

definition set_account :: "uuid \<Rightarrow> (user \<Rightarrow> user) \<Rightarrow> db \<Rightarrow> db" where
  "set_account i g d = d\<lparr>users := sql_update (\<lambda>u. u_id u = i) g (users d)\<rparr>"

text \<open>The proof itself, once both the account and its sealed secret are at hand.\<close>

definition use_totp_step :: "user \<Rightarrow> int \<Rightarrow> db \<Rightarrow> bool \<times> db" where
  "use_totp_step v n d =
     (case u_totp_last_used_step v of
        Some used \<Rightarrow>
          if n \<le> used then (False, d) else (True, set_account (u_id v) (\<lambda>x. x\<lparr>u_totp_last_used_step := Some n\<rparr>) d)
      | None \<Rightarrow> (True, set_account (u_id v) (\<lambda>x. x\<lparr>u_totp_last_used_step := Some n\<rparr>) d))"

definition check_factor :: "env \<Rightarrow> time \<Rightarrow> user \<Rightarrow> string \<Rightarrow> string \<Rightarrow> db \<Rightarrow> exn + bool \<times> db" where
  "check_factor e now v sealed normalized d =
     (if isdigit normalized
      then (case open_secret e sealed of
              None \<Rightarrow> Inl (HTTPException 500 ''MFA secret cannot be decrypted'')
            | Some secret \<Rightarrow>
                (case matching_totp_step e now secret normalized of
                   Inl x \<Rightarrow> Inl x
                 | Inr None \<Rightarrow> Inr (use_recovery_code e now (u_id v) normalized d)
                 | Inr (Some n) \<Rightarrow> Inr (use_totp_step v n d)))
      else Inr (use_recovery_code e now (u_id v) normalized d))"

definition verify_second_factor :: "env \<Rightarrow> time \<Rightarrow> user \<Rightarrow> string option \<Rightarrow> db \<Rightarrow> exn + bool \<times> db" where
  "verify_second_factor e now u code d =
     (if u_totp_enabled_at u = None \<and> u_totp_secret u = None then Inr (True, d)
      else if u_totp_enabled_at u = None \<or> u_totp_secret u = None then Inr (False, d)
      else case code of
        None \<Rightarrow> Inr (False, d)
      | Some text \<Rightarrow>
          if text = [] then Inr (False, d)
          else case find_user d (u_id u) of
            None \<Rightarrow> Inr (False, d)
          | Some v \<Rightarrow>
              (case (u_totp_enabled_at v, u_totp_secret v) of
                 (Some _, Some sealed) \<Rightarrow>
                   check_factor e now v sealed (upper (filter (\<lambda>c. c \<noteq> CHR ''-'' \<and> c \<noteq> CHR '' '') text)) d
               | _ \<Rightarrow> Inr (False, d)))"

section \<open>The counters bound the attempts\<close>

text \<open>How many of the attempts on one identity are admitted.\<close>

fun admitted :: "env \<Rightarrow> string \<Rightarrow> (time \<times> request) list \<Rightarrow> rate_store \<Rightarrow> nat" where
  "admitted e i [] r = 0"
| "admitted e i ((now, rq) # xs) r =
     (case enforce_rate_limit e now rq (Some i) r of
        (Inl _, r) \<Rightarrow> admitted e i xs r
      | (Inr _, r) \<Rightarrow> Suc (admitted e i xs r))"

definition level :: "time \<Rightarrow> string \<Rightarrow> rate_store \<Rightarrow> int" where
  "level now k r = (case r k of None \<Rightarrow> 0 | Some (c, u) \<Rightarrow> if now < u then c else 0)"

definition expiry :: "env \<Rightarrow> time \<Rightarrow> string \<Rightarrow> rate_store \<Rightarrow> time" where
  "expiry e now k r = (case r k of
     Some (c, u) \<Rightarrow> if now < u then u else now + auth_rate_limit_window_seconds (cfg e) * second
   | None \<Rightarrow> now + auth_rate_limit_window_seconds (cfg e) * second)"

text \<open>What an increment does to any key: its own grows by one, and none loses its expiry.\<close>

lemma incr_key:
  "incr e now k r = (c, r') \<Longrightarrow> c = level now k r + 1 \<and> r' = r(k \<mapsto> (c, expiry e now k r))"
  by (auto simp: incr_def level_def expiry_def split: option.splits if_splits)

lemma incr_levels:
  assumes "incr e now k r = (c, r')" "0 < auth_rate_limit_window_seconds (cfg e)"
  shows "level now k' r \<le> level now k' r'" "expiry e now k' r' = expiry e now k' r"
    "k' = k \<Longrightarrow> level now k' r' = level now k' r + 1 \<and> now < expiry e now k r"
  using incr_key [OF assms(1)] assms(2)
  by (auto simp: level_def expiry_def split: option.splits if_splits)

lemma enforce_identity:
  assumes "enforce_rate_limit e now rq (Some i) r = (res, r')" "rq_rates_up rq"
    "0 < auth_rate_limit_window_seconds (cfg e)"
  shows "level now (identity_key e i) r + 1 \<le> level now (identity_key e i) r'"
    "expiry e now (identity_key e i) r' = expiry e now (identity_key e i) r"
    "r' (identity_key e i) = Some (level now (identity_key e i) r', expiry e now (identity_key e i) r)"
    "isl res \<or> level now (identity_key e i) r + 1 \<le> auth_rate_limit_attempts (cfg e)"
proof -
  let ?k = "identity_key e i"
  obtain c1 r1 where 1: "incr e now (pair_key e rq i) r = (c1, r1)" by (rule prod.exhaust)
  obtain c2 r2 where 2: "incr e now ?k r1 = (c2, r2)" by (rule prod.exhaust)
  obtain c3 r3 where 3: "incr e now (ip_key e rq) r2 = (c3, r3)" by (rule prod.exhaust)
  from assms(1,2) 1 2 3 have r': "r' = r3" and res: "isl res \<or> c2 \<le> auth_rate_limit_attempts (cfg e)"
    by (auto simp: enforce_rate_limit_def Let_def require_def)
  note s1 = incr_levels [OF 1 assms(3), of ?k] and s2 = incr_levels [OF 2 assms(3), of ?k]
    and s3 = incr_levels [OF 3 assms(3), of ?k]
  show "level now ?k r + 1 \<le> level now ?k r'" "expiry e now ?k r' = expiry e now ?k r"
    using s1 s2 s3 unfolding r' by auto
  show "isl res \<or> level now ?k r + 1 \<le> auth_rate_limit_attempts (cfg e)"
    using res incr_key [OF 2] s1(1) by auto
  have "now < expiry e now ?k r" using s2(3) s1(2) by simp
  then show "r' ?k = Some (level now ?k r', expiry e now ?k r)"
    using incr_key [OF 2] incr_key [OF 3] s1(2) s2(2) unfolding r'
    by (auto simp: level_def)
qed

text \<open>What is left of the budget of a key until \<open>tend\<close>: the rest of the running window and, when it
  ends before, a whole window.\<close>

definition allowance :: "env \<Rightarrow> time \<Rightarrow> time \<Rightarrow> string \<Rightarrow> rate_store \<Rightarrow> nat" where
  "allowance e tend now k r =
     (let a = auth_rate_limit_attempts (cfg e) in
      case r k of
        None \<Rightarrow> nat a
      | Some (c, u) \<Rightarrow> if now < u then nat (a - c) + (if u < tend then nat a else 0) else nat a)"

lemma allowance_later:
  "now \<le> later \<Longrightarrow> later < tend \<Longrightarrow> allowance e tend later k r \<le> allowance e tend now k r"
  by (auto simp: allowance_def Let_def split: option.splits)

lemma allowance_step:
  assumes "enforce_rate_limit e now rq (Some i) r = (res, r')" "rq_rates_up rq"
    "0 < auth_rate_limit_window_seconds (cfg e)" "tend \<le> now + auth_rate_limit_window_seconds (cfg e) * second"
  shows "(if isl res then 0 else 1) + allowance e tend now (identity_key e i) r' \<le> allowance e tend now (identity_key e i) r"
proof -
  note step = enforce_identity [OF assms(1-3)]
  let ?k = "identity_key e i"
  have new: "allowance e tend now ?k r' = nat (auth_rate_limit_attempts (cfg e) - level now ?k r') +
      (if expiry e now ?k r < tend then nat (auth_rate_limit_attempts (cfg e)) else 0)"
    using step(3) assms(3) unfolding allowance_def Let_def
    by (auto simp: expiry_def split: option.splits if_splits)
  show ?thesis
  proof (cases "level now ?k r = 0 \<and> (\<forall>c u. r ?k = Some (c, u) \<longrightarrow> u \<le> now)")
    case True
    then have "expiry e now ?k r = now + auth_rate_limit_window_seconds (cfg e) * second"
      "allowance e tend now ?k r = nat (auth_rate_limit_attempts (cfg e))"
      by (auto simp: expiry_def allowance_def Let_def split: option.splits)
    with new step(1,4) True assms(4) show ?thesis by auto
  next
    case False
    then obtain c u where "r ?k = Some (c, u)" "now < u"
      by (force simp: level_def split: option.splits)
    then have "level now ?k r = c" "expiry e now ?k r = u" "allowance e tend now ?k r =
        nat (auth_rate_limit_attempts (cfg e) - c) + (if u < tend then nat (auth_rate_limit_attempts (cfg e)) else 0)"
      by (auto simp: level_def expiry_def allowance_def Let_def)
    with new step(1,4) show ?thesis by auto
  qed
qed

lemma admitted_allowance:
  assumes "sorted (now # map fst xs)" "\<forall>(t, rq) \<in> set xs. t < tend \<and> rq_rates_up rq"
    "0 < auth_rate_limit_window_seconds (cfg e)" "tend \<le> now + auth_rate_limit_window_seconds (cfg e) * second"
  shows "admitted e i xs r \<le> allowance e tend now (identity_key e i) r"
  using assms
proof (induction xs arbitrary: now r)
  case (Cons x xs)
  obtain t rq where x: "x = (t, rq)" by (rule prod.exhaust)
  obtain res r' where run: "enforce_rate_limit e t rq (Some i) r = (res, r')" by (rule prod.exhaust)
  from Cons.prems x have t: "now \<le> t" "t < tend" "rq_rates_up rq" by simp_all
  have "admitted e i xs r' \<le> allowance e tend t (identity_key e i) r'"
    using Cons.prems x by (intro Cons.IH) auto
  moreover have "(if isl res then 0 else 1) + allowance e tend t (identity_key e i) r' \<le>
      allowance e tend t (identity_key e i) r"
    using Cons.prems(3,4) t by (intro allowance_step [OF run]) auto
  moreover have "allowance e tend t (identity_key e i) r \<le> allowance e tend now (identity_key e i) r"
    by (rule allowance_later [OF t(1,2)])
  ultimately show ?case using run x by (cases res) auto
qed simp

text \<open>A key exists only since an increment.\<close>

definition counters_ok :: "rate_store \<Rightarrow> bool" where
  "counters_ok r \<longleftrightarrow> (\<forall>k c u. r k = Some (c, u) \<longrightarrow> 1 \<le> c)"

text \<open>Guessing is bounded whatever addresses the attempts come from: of any requests about one
  identity within the length of a window, at most the configured number is admitted when no count
  was running at the start, and at most twice that number in any case, as long as no success resets
  the counter.\<close>

theorem rate_limit_bounds:
  assumes "sorted (map fst xs)" "\<forall>(t, rq) \<in> set xs. start \<le> t \<and>
      t < start + auth_rate_limit_window_seconds (cfg e) * second \<and> rq_rates_up rq"
    "0 < auth_rate_limit_window_seconds (cfg e)" "0 \<le> auth_rate_limit_attempts (cfg e)" "counters_ok r"
  shows "int (admitted e i xs r) \<le>
    (if level start (identity_key e i) r = 0 then 1 else 2) * auth_rate_limit_attempts (cfg e)"
proof -
  let ?tend = "start + auth_rate_limit_window_seconds (cfg e) * second"
  have "admitted e i xs r \<le> allowance e ?tend start (identity_key e i) r"
    using assms by (intro admitted_allowance) auto
  moreover have "\<forall>c u. r (identity_key e i) = Some (c, u) \<longrightarrow> 1 \<le> c" using assms(5) by (simp add: counters_ok_def)
  ultimately show ?thesis
    using assms(4) by (auto simp: allowance_def level_def Let_def split: option.splits if_splits)
qed

theorem rate_limit_bounds_witness:
  "admitted sample_env ''login:ann'' (map (\<lambda>t. (t, \<lparr>rq_peer = Some (show_int t), rq_bearer = None,
       rq_headers = Map.empty, rq_cookies = Map.empty, rq_rates_up = True\<rparr>)) [1, 2, 3, 4, 5, 6, 7, 8, 9, 10]) Map.empty \<le> 8"
proof -
  let ?xs = "map (\<lambda>t. (t, \<lparr>rq_peer = Some (show_int t), rq_bearer = None,
       rq_headers = Map.empty, rq_cookies = Map.empty, rq_rates_up = True\<rparr>)) [1, 2, 3, 4, 5, 6, 7, 8, 9, 10 :: int]"
  have "int (admitted sample_env ''login:ann'' ?xs Map.empty) \<le>
      (if level 1 (identity_key sample_env ''login:ann'') Map.empty = 0 then 1 else 2) *
        auth_rate_limit_attempts (cfg sample_env)"
    by (rule rate_limit_bounds) (simp_all add: sample_env_def sample_settings_def counters_ok_def)
  then show ?thesis by (simp add: level_def sample_env_def sample_settings_def)
qed

section \<open>One use of each factor\<close>

text \<open>How many of the attempts of one account are accepted; a session starts each from the row of the
  account.\<close>

fun accepted_factors :: "env \<Rightarrow> uuid \<Rightarrow> (time \<times> string option) list \<Rightarrow> db \<Rightarrow> nat" where
  "accepted_factors e i [] d = 0"
| "accepted_factors e i ((now, code) # xs) d =
     (case find_user d i of
        None \<Rightarrow> 0
      | Some u \<Rightarrow>
          (case verify_second_factor e now u code d of
             Inr (True, d) \<Rightarrow> Suc (accepted_factors e i xs d)
           | _ \<Rightarrow> accepted_factors e i xs d))"

definition unused_codes :: "uuid \<Rightarrow> db \<Rightarrow> recovery_code list" where
  "unused_codes i d = filter (\<lambda>c. rc_user_id c = i \<and> rc_used_at c = None) (recovery_codes d)"

definition totp_step :: "time \<Rightarrow> int" where
  "totp_step now = now div (30 * second)"

text \<open>The steps up to \<open>hi\<close> the account can still use, from \<open>lo\<close> on.\<close>

definition steps_left :: "int \<Rightarrow> int \<Rightarrow> user \<Rightarrow> nat" where
  "steps_left lo hi u = nat (case u_totp_last_used_step u of None \<Rightarrow> hi - lo + 1 | Some l \<Rightarrow> min (hi - l) (hi - lo + 1))"

lemma first_step_Some:
  "first_step e secret code ns = Inr (Some n) \<Longrightarrow> n \<in> set ns \<and> totp_code e secret n = code"
  by (induction ns) (auto simp: sbind_Inr_iff compare_digest_def split: if_splits)

lemma matching_step_Some:
  "matching_totp_step e now secret code = Inr (Some n) \<Longrightarrow>
   \<bar>n - totp_step now\<bar> \<le> 1 \<and> totp_code e secret n = code"
  unfolding matching_totp_step_def totp_step_def Let_def by (drule first_step_Some) auto

lemma use_recovery_cases:
  assumes "use_recovery_code e now i normalized d = (ok, d')"
  obtains (refused) "\<not> ok" "d' = d"
  | (spent) c where "ok" "c \<in> set (unused_codes i d)" "rc_code_hash c = token_digest e normalized"
      "d' = d\<lparr>recovery_codes := sql_update (\<lambda>x. rc_id x = rc_id c) (\<lambda>x. x\<lparr>rc_used_at := Some now\<rparr>) (recovery_codes d)\<rparr>"
proof (cases "sql_first (\<lambda>c. rc_user_id c = i \<and> rc_code_hash c = token_digest e normalized \<and> rc_used_at c = None)
    (recovery_codes d)")
  case None
  with assms refused show thesis by (simp add: use_recovery_code_def)
next
  case (Some c)
  from sql_first_SomeD [OF Some] assms Some show thesis
    by (intro spent [of c]) (simp_all add: use_recovery_code_def unused_codes_def)
qed

lemma check_factor_cases:
  assumes "check_factor e now v sealed normalized d = Inr (True, d')"
  obtains (totp) n where "\<bar>n - totp_step now\<bar> \<le> 1" "\<forall>l. u_totp_last_used_step v = Some l \<longrightarrow> l < n"
      "d' = set_account (u_id v) (\<lambda>x. x\<lparr>u_totp_last_used_step := Some n\<rparr>) d"
  | (recovery) "use_recovery_code e now (u_id v) normalized d = (True, d')"
proof (cases "use_recovery_code e now (u_id v) normalized d = (True, d')")
  case False
  with assms obtain secret n where m: "matching_totp_step e now secret normalized = Inr (Some n)"
    and u: "use_totp_step v n d = (True, d')"
    by (auto simp: check_factor_def split: if_splits option.splits sum.splits)
  from u show thesis
    using conjunct1 [OF matching_step_Some [OF m]]
    by (intro totp [of n]) (auto simp: use_totp_step_def split: option.splits if_splits)
qed (rule recovery)

lemma second_factor_cases:
  assumes "verify_second_factor e now u code d = Inr (True, d')" "find_user d (u_id u) = Some u"
    "u_totp_enabled_at u \<noteq> None"
  obtains (totp) n where "\<bar>n - totp_step now\<bar> \<le> 1" "\<forall>l. u_totp_last_used_step u = Some l \<longrightarrow> l < n"
      "d' = set_account (u_id u) (\<lambda>x. x\<lparr>u_totp_last_used_step := Some n\<rparr>) d"
  | (recovery) c where "c \<in> set (unused_codes (u_id u) d)"
      "d' = d\<lparr>recovery_codes := sql_update (\<lambda>x. rc_id x = rc_id c) (\<lambda>x. x\<lparr>rc_used_at := Some now\<rparr>) (recovery_codes d)\<rparr>"
proof -
  from assms obtain sealed normalized where "check_factor e now u sealed normalized d = Inr (True, d')"
    by (auto simp: verify_second_factor_def split: if_splits option.splits)
  then show thesis
  proof (cases rule: check_factor_cases)
    case recovery
    then show thesis by (cases rule: use_recovery_cases) (auto intro: that(2))
  qed (rule that(1))
qed

lemma length_filter_update:
  assumes "c \<in> set (filter P t)" "Q c" "\<And>x. \<not> P (g x)"
  shows "length (filter P (sql_update Q g t)) < length (filter P t)"
proof -
  have "length (filter P (sql_update Q g t)) = length (filter (\<lambda>x. P x \<and> \<not> Q x) t)"
    using assms(3) by (induction t) auto
  also have "\<dots> = length (filter (\<lambda>x. \<not> Q x) (filter P t))" by (simp add: conj_commute)
  also have "\<dots> < length (filter P t)" using assms(1,2) by (intro length_filter_less) auto
  finally show ?thesis .
qed

lemma find_user_set:
  "(\<And>x. u_id (g x) = u_id x) \<Longrightarrow> find_user (set_account i g d) i = map_option g (find_user d i)"
  unfolding find_user_def set_account_def by (simp add: sql_first_update_key [where k = u_id])

lemma accepted_factor_step:
  assumes "verify_second_factor e now u code d = Inr (True, d')" "find_user d i = Some u" "u_totp_enabled_at u \<noteq> None"
    "lo < totp_step now" "totp_step now < hi"
  shows "\<exists>u'. find_user d' i = Some u' \<and> u_totp_enabled_at u' \<noteq> None \<and>
    steps_left lo hi u' + length (unused_codes i d') < steps_left lo hi u + length (unused_codes i d)"
proof -
  have i: "u_id u = i" using assms(2) by (auto simp: find_user_def dest: sql_first_SomeD)
  have "find_user d (u_id u) = Some u" using assms(2) i by simp
  from assms(1) this assms(3) show ?thesis
  proof (cases rule: second_factor_cases)
    case (totp n)
    let ?u = "u\<lparr>u_totp_last_used_step := Some n\<rparr>"
    have "find_user d' i = Some ?u" using totp(3) assms(2) i by (simp add: find_user_set)
    moreover have "steps_left lo hi ?u < steps_left lo hi u"
      using totp(1,2) assms(4,5) by (auto simp: steps_left_def split: option.splits)
    moreover have "unused_codes i d' = unused_codes i d" using totp(3) by (simp add: unused_codes_def set_account_def)
    ultimately show ?thesis using assms(3) by auto
  next
    case (recovery c)
    have "length (unused_codes i d') < length (unused_codes i d)"
      using recovery(1) i unfolding recovery(2) unused_codes_def by (auto intro!: length_filter_update)
    moreover have "find_user d' i = Some u" using recovery(2) assms(2) by (simp add: find_user_def)
    ultimately show ?thesis using assms(3) by auto
  qed
qed

lemma accepted_factors_left:
  assumes "find_user d i = Some u" "u_totp_enabled_at u \<noteq> None"
    "\<forall>(t, c) \<in> set xs. lo < totp_step t \<and> totp_step t < hi"
  shows "accepted_factors e i xs d \<le> steps_left lo hi u + length (unused_codes i d)"
  using assms
proof (induction xs arbitrary: u d)
  case (Cons x xs)
  obtain now code where x: "x = (now, code)" by (rule prod.exhaust)
  show ?case
  proof (cases "\<exists>d'. verify_second_factor e now u code d = Inr (True, d')")
    case True
    then obtain d' where run: "verify_second_factor e now u code d = Inr (True, d')" by blast
    from accepted_factor_step [OF run Cons.prems(1,2)] Cons.prems(3) x obtain u' where
      "find_user d' i = Some u'" "u_totp_enabled_at u' \<noteq> None"
      "steps_left lo hi u' + length (unused_codes i d') < steps_left lo hi u + length (unused_codes i d)" by force
    with Cons.IH [of d' u'] Cons.prems x run show ?thesis by (simp add: Suc_le_eq)
  next
    case False
    then have "accepted_factors e i (x # xs) d = accepted_factors e i xs d"
      using Cons.prems(1) x by (auto split: sum.splits bool.splits)
    with Cons.IH [OF Cons.prems(1,2)] Cons.prems(3) show ?thesis by simp
  qed
qed simp


definition factor_user :: user where
  "factor_user = (sample_user 1)\<lparr>u_totp_secret := Some ''k'', u_totp_enabled_at := Some 0\<rparr>"

definition factor_db :: db where
  "factor_db = empty_db\<lparr>users := [factor_user],
     recovery_codes := [\<lparr>rc_id = 5, rc_user_id = 1, rc_code_hash = sample_digest ''ABC'', rc_used_at = None\<rparr>]\<rparr>"


text \<open>A digit outside ASCII passes \<open>str.isdigit\<close> and makes the constant-time comparison raise a
  \<open>TypeError\<close>, which no handler catches: the request ends in a server error and its failure is not
  recorded in the audit trail.\<close>

lemma superscript_code_crashes:
  assumes "u_totp_enabled_at u = Some t" "u_totp_secret u = Some sealed" "find_user d (u_id u) = Some u"
    "open_secret e sealed = Some secret"
  shows "\<exists>m. verify_second_factor e now u (Some (replicate 6 (CHR 0xB2))) d = Inl (TypeError m)"
  using assms
  by (simp add: verify_second_factor_def check_factor_def isdigit_def matching_totp_step_def compare_digest_def
      upper_def upper_char_def numeral_eq_Suc)

section \<open>Access tokens\<close>

text \<open>Documented behaviour of the token codec: the claims come back until the expiry, which the
  token states in whole seconds, and not after it.\<close>

definition jwt_ok :: "env \<Rightarrow> bool" where
  "jwt_ok e \<longleftrightarrow> (\<forall>key sub issued expires sid now.
     jwt_claims e key (jwt_encode e key sub issued expires sid) now =
       (if now < expires div second * second then Some (sub, Some sid) else None) \<and>
     jwt_encode e key sub issued expires sid \<noteq> [])"

lemma decode_issued:
  assumes "jwt_ok e"
  shows "decode_access_claims e now (create_access_token e issued user_id sid) =
    (if now < (issued + minutes (access_token_minutes (cfg e))) div second * second then Inr (user_id, Some sid)
     else Inl (HTTPException 401 ''Invalid or expired access token''))"
proof -
  have "uuid_str sid \<noteq> []" by (simp add: uuid_str_def Let_def)
  then show ?thesis
    using assms by (simp add: decode_access_claims_def create_access_token_def jwt_ok_def parse_uuid_str)
qed

text \<open>An access token authenticates exactly while it has not expired, its session is neither
  revoked nor past its end, the account exists and is enabled, and the ledger does not deny the
  account; the request then runs as that account and session.  Revoking the session or disabling the
  account therefore ends every token already issued.\<close>

theorem issued_token_authenticates:
  assumes "jwt_ok e" "distinct (map as_id (auth_sessions d))" "distinct (map u_id (users d))"
    "rq_bearer rq = Some (create_access_token e issued user_id sid)"
  shows "(\<exists>d'. current_auth e now rq l d = (Inr (u, s), d')) \<longleftrightarrow>
    now < (issued + minutes (access_token_minutes (cfg e))) div second * second \<and>
    s \<in> set (auth_sessions d) \<and> as_id s = sid \<and> as_user_id s = user_id \<and> as_revoked_at s = None \<and> now < as_expires_at s \<and>
    u \<in> set (users d) \<and> u_id u = user_id \<and> u_disabled_at u = None \<and> reject_suppressed_account e l user_id = Inr ()"
proof -
  let ?token = "create_access_token e issued user_id sid"
  have ne: "?token \<noteq> []" using assms(1) by (simp add: create_access_token_def jwt_ok_def)
  have session: "sql_first (live_session now sid user_id) (auth_sessions d) = Some s \<longleftrightarrow>
      s \<in> set (auth_sessions d) \<and> live_session now sid user_id s"
  proof
    assume s: "s \<in> set (auth_sessions d) \<and> live_session now sid user_id s"
    then obtain t where t: "sql_first (live_session now sid user_id) (auth_sessions d) = Some t"
      using sql_first_not_None by (metis option.exhaust)
    from sql_first_SomeD [OF t] s have "t = s"
      by (intro key_unique [OF assms(2)]) (auto simp: live_session_def)
    with t show "sql_first (live_session now sid user_id) (auth_sessions d) = Some s" by simp
  qed (blast dest: sql_first_SomeD)
  have user: "find_user d user_id = Some u \<longleftrightarrow> u \<in> set (users d) \<and> u_id u = user_id"
    using sql_first_key [OF assms(3)] by (auto simp: find_user_def dest: sql_first_SomeD)
  have "(\<exists>d'. current_auth e now rq l d = (Inr (u, s), d')) \<longleftrightarrow>
      now < (issued + minutes (access_token_minutes (cfg e))) div second * second \<and>
      reject_suppressed_account e l user_id = Inr () \<and>
      sql_first (live_session now sid user_id) (auth_sessions d) = Some s \<and>
      find_user d user_id = Some u \<and> u_disabled_at u = None"
    using assms(4) ne
    by (auto simp: current_auth_def presented_token_def truthy_def decode_issued [OF assms(1)]
        split: sum.splits option.splits if_splits)
  then show ?thesis unfolding session user by (auto simp: live_session_def)
qed

text \<open>A codec with the documented behaviour, for the witness: length-prefixed claims.\<close>

definition jwt_block :: "string \<Rightarrow> string" where
  "jwt_block s = replicate (length s) (CHR ''1'') @ CHR ''0'' # s"

definition read_block :: "string \<Rightarrow> string \<times> string" where
  "read_block t = (let n = length (takeWhile (\<lambda>c. c = CHR ''1'') t) in (take n (drop (n + 1) t), drop (2 * n + 1) t))"

lemma read_block [simp]: "read_block (jwt_block s @ r) = (s, r)"
proof -
  have "takeWhile (\<lambda>c. c = CHR ''1'') (jwt_block s @ r) = replicate (length s) (CHR ''1'')"
    by (simp add: jwt_block_def takeWhile_append)
  then show ?thesis by (simp add: read_block_def Let_def jwt_block_def mult_2)
qed

definition jwt_env :: env where
  "jwt_env = sample_env\<lparr>
     jwt_encode := (\<lambda>_ sub _ expires sid. jwt_block sub @ jwt_block sid @
       (if expires < 0 then CHR ''-'' else CHR ''+'') # replicate (nat \<bar>expires\<bar>) (CHR ''1'')),
     jwt_claims := (\<lambda>_ token now.
       (let (sub, r) = read_block token; (sid, r) = read_block r;
            expires = (if hd r = CHR ''-'' then - int (length (tl r)) else int (length (tl r)))
        in if now < expires div second * second then Some (sub, Some sid) else None))\<rparr>"

lemma jwt_env_ok: "jwt_ok jwt_env"
  by (simp add: jwt_ok_def jwt_env_def)

definition session_db :: db where
  "session_db = empty_db\<lparr>users := [sample_user 1], auth_sessions := [\<lparr>as_id = 9, as_user_id = 1,
     as_refresh_token_hash = sample_digest ''r'', as_ip_address = None, as_user_agent = None, as_last_seen_at = 0,
     as_expires_at = days 1, as_revoked_at = None, as_reauthenticated_at = None, as_created_at = 0\<rparr>]\<rparr>"

definition token_request :: "string \<Rightarrow> request" where
  "token_request t = \<lparr>rq_peer = None, rq_bearer = Some t, rq_headers = Map.empty, rq_cookies = Map.empty, rq_rates_up = True\<rparr>"

lemma empty_ledger_grants: "reject_suppressed_account e (Directory True []) i = Inr ()"
  by (simp add: reject_suppressed_account_def suppression_subject_is_denied_def read_suppression_markers_def)

theorem issued_token_authenticates_witness:
  "\<exists>d'. current_auth jwt_env (minutes 1) (token_request (create_access_token jwt_env 0 1 9)) (Directory True []) session_db
     = (Inr (sample_user 1, hd (auth_sessions session_db)), d')"
  using issued_token_authenticates [OF jwt_env_ok, of session_db
      "token_request (create_access_token jwt_env 0 1 9)" 0 1 9 "minutes 1" "Directory True []" "sample_user 1"
      "hd (auth_sessions session_db)"]
  by (simp add: token_request_def session_db_def sample_user_def empty_ledger_grants jwt_env_def sample_env_def sample_settings_def)

end
