(* ===== verification/Accounts.thy ===== *)
theory Accounts
  imports Access DeletionSafety
begin

text \<open>
  The account handlers of \<open>api/v1/auth.py\<close>: registration, mail links, password and Google sign-in,
  the refresh of a session, passwords, two-factor enrolment, sessions, deletion and logout.  A
  handler takes the state the server keeps between requests and returns its answer, the cookies it
  sets and the next state; an exception discards what the handler has not committed.  Random
  values are arguments.
\<close>

record site =
  s_db :: db
  s_rates :: rate_store
  s_ledger :: ledger
  s_files :: fs
  s_outbox :: "(string \<times> string \<times> string) list"

datatype cookie =
    SetCookie string string int string
  | DeleteCookie string string

type_synonym 'a answer = "(exn + 'a) \<times> cookie list \<times> site"

text \<open>Where a redirect leads.\<close>

datatype redirect =
    GoogleAuthorize string string bool
  | AuthPage "string option"
  | SecurityPage "string option" "string option"
  | GoogleMfaPage string
  | LibraryPage

abbreviation commit :: "site \<Rightarrow> db \<Rightarrow> site" where
  "commit s d \<equiv> s\<lparr>s_db := d\<rparr>"

definition fail :: "exn \<Rightarrow> site \<Rightarrow> 'a answer" where
  "fail x s = (Inl x, [], s)"

definition reply :: "'a \<Rightarrow> site \<Rightarrow> 'a answer" where
  "reply v s = (Inr v, [], s)"

section \<open>Guards shared by the handlers\<close>

definition limited :: "env \<Rightarrow> time \<Rightarrow> request \<Rightarrow> string option \<Rightarrow> site \<Rightarrow> (site \<Rightarrow> 'a answer) \<Rightarrow> 'a answer" where
  "limited e now rq i s k =
     (case enforce_rate_limit e now rq i (s_rates s) of
        (Inl x, r) \<Rightarrow> fail x (s\<lparr>s_rates := r\<rparr>)
      | (Inr _, r) \<Rightarrow> k (s\<lparr>s_rates := r\<rparr>))"

definition authed :: "env \<Rightarrow> time \<Rightarrow> request \<Rightarrow> site \<Rightarrow> (user \<Rightarrow> auth_session \<Rightarrow> site \<Rightarrow> 'a answer) \<Rightarrow> 'a answer" where
  "authed e now rq s k =
     (case current_auth e now rq (s_ledger s) (s_db s) of
        (Inl x, d) \<Rightarrow> fail x (commit s d)
      | (Inr (u, c), d) \<Rightarrow> k u c (commit s d))"

definition recently_authed ::
  "env \<Rightarrow> time \<Rightarrow> request \<Rightarrow> site \<Rightarrow> (user \<Rightarrow> auth_session \<Rightarrow> site \<Rightarrow> 'a answer) \<Rightarrow> 'a answer" where
  "recently_authed e now rq s k =
     (case require_recent_auth e now rq (s_ledger s) (s_db s) of
        (Inl x, d) \<Rightarrow> fail x (commit s d)
      | (Inr (u, c), d) \<Rightarrow> k u c (commit s d))"

text \<open>The row of the account, read again under a lock.\<close>

definition locked_user :: "user \<Rightarrow> site \<Rightarrow> (user \<Rightarrow> 'a answer) \<Rightarrow> 'a answer" where
  "locked_user u s k =
     (case find_user (s_db s) (u_id u) of
        None \<Rightarrow> fail (HTTPException 401 ''Account is unavailable'') s
      | Some v \<Rightarrow> k v)"

definition reset_after :: "env \<Rightarrow> request \<Rightarrow> string option \<Rightarrow> 'a answer \<Rightarrow> 'a answer" where
  "reset_after e rq i a =
     (case a of
        (Inl x, cs, s) \<Rightarrow> (Inl x, cs, s)
      | (Inr v, cs, s) \<Rightarrow> (Inr v, cs, s\<lparr>s_rates := reset_rate_limit e rq i (s_rates s)\<rparr>))"

definition on_success :: "('a \<Rightarrow> 'b) \<Rightarrow> (cookie list \<Rightarrow> cookie list) \<Rightarrow> 'a answer \<Rightarrow> 'b answer" where
  "on_success f g a = (case a of (Inl x, cs, s) \<Rightarrow> (Inl x, cs, s) | (Inr v, cs, s) \<Rightarrow> (Inr (f v), g cs, s))"

definition sensitive_proof :: "uuid \<Rightarrow> string option" where
  "sensitive_proof i = Some (''sensitive-proof:'' @ uuid_str i)"

definition require_browser_origin :: "env \<Rightarrow> request \<Rightarrow> exn + unit" where
  "require_browser_origin e rq =
     (if \<not> (remote_access_enabled (cfg e) \<or> production_like e) then Inr ()
      else
        (let sent = rstrip_slash (case rq_headers rq ''Origin'' of None \<Rightarrow> [] | Some s \<Rightarrow> s);
             allowed = rstrip_slash (url_origin (app_url (cfg e))) # map rstrip_slash (cors_origin_list e)
         in require (sent \<noteq> [] \<and> sent \<in> set allowed) (HTTPException 403 ''Request origin is not allowed'')))"

definition from_browser :: "env \<Rightarrow> request \<Rightarrow> site \<Rightarrow> 'a answer \<Rightarrow> 'a answer" where
  "from_browser e rq s a = (case require_browser_origin e rq of Inl x \<Rightarrow> fail x s | Inr _ \<Rightarrow> a)"

section \<open>Cookies and views\<close>

definition set_access_cookie :: "env \<Rightarrow> string \<Rightarrow> cookie" where
  "set_access_cookie e token = SetCookie (auth_cookie_name (cfg e)) token (access_token_minutes (cfg e) * 60) ''strict''"

definition set_refresh_cookie :: "env \<Rightarrow> string \<Rightarrow> cookie" where
  "set_refresh_cookie e token = SetCookie (refresh_cookie_name (cfg e)) token (refresh_session_days (cfg e) * 86400) ''strict''"

definition clear_cookies :: "env \<Rightarrow> cookie list" where
  "clear_cookies e = [DeleteCookie (auth_cookie_name (cfg e)) ''strict'', DeleteCookie (refresh_cookie_name (cfg e)) ''strict'']"

definition host_cookie :: "env \<Rightarrow> string \<Rightarrow> string" where
  "host_cookie e n = (if auth_cookie_secure (cfg e) then ''__Host-'' @ n else n)"

definition google_state_cookie_name :: "env \<Rightarrow> string" where
  "google_state_cookie_name e = host_cookie e ''drivebound_google_state''"

definition google_nonce_cookie_name :: "env \<Rightarrow> string" where
  "google_nonce_cookie_name e = host_cookie e ''drivebound_google_nonce''"

definition google_mfa_cookie_name :: "env \<Rightarrow> string" where
  "google_mfa_cookie_name e = host_cookie e ''drivebound_google_mfa''"

definition google_authorization_response :: "env \<Rightarrow> string \<Rightarrow> string \<Rightarrow> bool \<Rightarrow> redirect \<times> cookie list" where
  "google_authorization_response e state nonce reauthenticate =
     (GoogleAuthorize state nonce reauthenticate,
      [SetCookie (google_state_cookie_name e) state 600 ''lax'', SetCookie (google_nonce_cookie_name e) nonce 600 ''lax''])"

definition google_mfa_redirect :: "env \<Rightarrow> string \<Rightarrow> string \<Rightarrow> redirect \<times> cookie list" where
  "google_mfa_redirect e token mode = (GoogleMfaPage mode, [SetCookie (google_mfa_cookie_name e) token 300 ''strict''])"

definition clear_google_mfa_cookie :: "env \<Rightarrow> cookie list" where
  "clear_google_mfa_cookie e = [DeleteCookie (google_mfa_cookie_name e) ''strict'']"

definition clear_google_cookies :: "env \<Rightarrow> cookie list" where
  "clear_google_cookies e = [DeleteCookie (google_state_cookie_name e) ''lax'', DeleteCookie (google_nonce_cookie_name e) ''lax'']"

definition reauthentication_methods :: "env \<Rightarrow> db \<Rightarrow> user \<Rightarrow> string list" where
  "reauthentication_methods e d u =
     (if u_password_enabled u then [''password''] else []) @
     (if google_auth_enabled e \<and> list_ex (\<lambda>i. ei_user_id i = u_id u \<and> ei_provider i = ''google'') (identities d)
      then [''google''] else []) @
     (if list_ex (\<lambda>p. pk_user_id p = u_id u) (passkeys d) then [''passkey''] else [])"

record user_view =
  uv_id :: uuid
  uv_email :: string
  uv_display_name :: "string option"
  uv_onboarding_completed_at :: "time option"
  uv_email_verified_at :: "time option"
  uv_two_factor_enabled :: bool
  uv_has_password :: bool
  uv_reauth_methods :: "string list"

definition user_response :: "env \<Rightarrow> db \<Rightarrow> user \<Rightarrow> user_view" where
  "user_response e d u = \<lparr>uv_id = u_id u, uv_email = u_email u, uv_display_name = u_display_name u,
     uv_onboarding_completed_at = u_onboarding_completed_at u, uv_email_verified_at = u_email_verified_at u,
     uv_two_factor_enabled = (u_totp_enabled_at u \<noteq> None), uv_has_password = u_password_enabled u,
     uv_reauth_methods = reauthentication_methods e d u\<rparr>"

record token_response =
  tr_access_token :: string
  tr_user :: user_view

section \<open>Issuing a session\<close>

definition set_session :: "uuid \<Rightarrow> (auth_session \<Rightarrow> auth_session) \<Rightarrow> db \<Rightarrow> db" where
  "set_session i g d = d\<lparr>auth_sessions := sql_update (\<lambda>x. as_id x = i) g (auth_sessions d)\<rparr>"

definition insert_session :: "auth_session \<Rightarrow> db \<Rightarrow> exn + db" where
  "insert_session x d =
     (if list_ex (\<lambda>y. as_id y = as_id x \<or> as_refresh_token_hash y = as_refresh_token_hash x) (auth_sessions d)
      then Inl IntegrityError else Inr (d\<lparr>auth_sessions := sql_insert x (auth_sessions d)\<rparr>))"

definition new_session :: "env \<Rightarrow> time \<Rightarrow> request \<Rightarrow> uuid \<times> string \<Rightarrow> uuid \<Rightarrow> bool \<Rightarrow> bool \<Rightarrow> auth_session" where
  "new_session e now rq fresh user_id set_browser_cookies establish_recent_auth =
     \<lparr>as_id = fst fresh, as_user_id = user_id, as_refresh_token_hash = token_digest e (snd fresh),
      as_ip_address = fst (request_context e rq), as_user_agent = snd (request_context e rq), as_last_seen_at = now,
      as_expires_at = (if set_browser_cookies then now + days (refresh_session_days (cfg e))
                       else now + minutes (access_token_minutes (cfg e))),
      as_revoked_at = None, as_reauthenticated_at = (if establish_recent_auth then Some now else None),
      as_created_at = now\<rparr>"

text \<open>\<open>u\<close> is the row of the account in the working transaction \<open>d\<close>; \<open>fresh\<close> is the identifier of the
  session and its refresh token.\<close>

definition issue_session ::
  "env \<Rightarrow> time \<Rightarrow> request \<Rightarrow> uuid \<times> string \<Rightarrow> user \<Rightarrow> string \<Rightarrow> bool \<Rightarrow> bool \<Rightarrow> db \<Rightarrow> site \<Rightarrow> token_response answer" where
  "issue_session e now rq fresh u authentication_method set_browser_cookies establish_recent_auth d s =
     (case reject_suppressed_account e (s_ledger s) (u_id u) of
        Inl x \<Rightarrow> fail x s
      | Inr _ \<Rightarrow>
          (case insert_session (new_session e now rq fresh (u_id u) set_browser_cookies establish_recent_auth) d of
             Inl x \<Rightarrow> fail x s
           | Inr d \<Rightarrow>
               (let access = create_access_token e now (u_id u) (fst fresh);
                    d = record_event e rq ''login_succeeded'' (Some (u_id u))
                      (JObj [(''session_id'', JStr (uuid_str (fst fresh))),
                             (''authentication_method'', JStr authentication_method),
                             (''recent_auth_established'', JBool establish_recent_auth)]) d;
                    cookies = (if set_browser_cookies then [set_access_cookie e access, set_refresh_cookie e (snd fresh)] else [])
                in (Inr \<lparr>tr_access_token = access, tr_user = user_response e d u\<rparr>, cookies, commit s d))))"

section \<open>Registration and mail links\<close>

definition find_email :: "db \<Rightarrow> string \<Rightarrow> user option" where
  "find_email d m = sql_first (\<lambda>u. u_email u = m) (users d)"

definition new_user :: "uuid \<Rightarrow> string \<Rightarrow> string \<Rightarrow> bool \<Rightarrow> time option \<Rightarrow> string \<Rightarrow> time option \<Rightarrow> time \<Rightarrow> user" where
  "new_user i email hash enabled set_at name verified now =
     \<lparr>u_id = i, u_email = email, u_password_hash = hash, u_password_enabled = enabled, u_password_set_at = set_at,
      u_display_name = Some name, u_onboarding_completed_at = None, u_email_verified_at = verified,
      u_totp_secret = None, u_totp_enabled_at = None, u_totp_last_used_step = None, u_pending_totp_secret = None,
      u_pending_totp_expires_at = None, u_pending_totp_session_id = None, u_media_key = None,
      u_media_key_version = 1, u_disabled_at = None, u_created_at = now\<rparr>"

definition insert_user :: "user \<Rightarrow> db \<Rightarrow> exn + db" where
  "insert_user u d =
     (if list_ex (\<lambda>v. u_id v = u_id u \<or> u_email v = u_email u) (users d)
      then Inl IntegrityError else Inr (d\<lparr>users := sql_insert u (users d)\<rparr>))"

text \<open>Mail leaves after the answer, when the installation delivers by SMTP.\<close>

definition deliver_account_email :: "env \<Rightarrow> string \<Rightarrow> string \<Rightarrow> string \<Rightarrow> site \<Rightarrow> site" where
  "deliver_account_email e to subject body s =
     (if email_delivery_mode (cfg e) = ''smtp'' then s\<lparr>s_outbox := s_outbox s @ [(to, subject, body)]\<rparr> else s)"

definition link_url :: "env \<Rightarrow> string \<Rightarrow> string \<Rightarrow> string" where
  "link_url e page raw = rstrip_slash (app_url (cfg e)) @ page @ ''#token='' @ raw"

definition shown_url :: "env \<Rightarrow> string \<Rightarrow> string option" where
  "shown_url e url = (if development_email_urls_enabled e then Some url else None)"

definition register ::
  "env \<Rightarrow> time \<Rightarrow> request \<Rightarrow> string \<Rightarrow> string \<Rightarrow> string \<Rightarrow> string \<Rightarrow> uuid \<Rightarrow> uuid \<times> string \<Rightarrow> site \<Rightarrow> string option answer" where
  "register e now rq email password display_name salt i fresh s =
     limited e now rq (Some (''register:'' @ email)) s (\<lambda>s.
       let address = lower (strip email) in
       if find_email (s_db s) address \<noteq> None then fail (HTTPException 409 ''Email is already registered'') s
       else case sbind (insert_user (new_user i address (kdf e salt password) True (Some now) (strip display_name) None now)
                          (s_db s))
                   (create_account_token e now i ''verify_email'' (hours 24) None fresh) of
           Inl x \<Rightarrow> fail x s
         | Inr d \<Rightarrow>
             (let url = link_url e ''/verify-email'' (snd fresh) in
              reply (shown_url e url)
                (deliver_account_email e address ''Verify your Drivebound email'' (''Verify your account: '' @ url)
                   (commit s (record_event e rq ''account_registered'' (Some i) JNull d)))))"

definition verify_email :: "env \<Rightarrow> time \<Rightarrow> request \<Rightarrow> string \<Rightarrow> site \<Rightarrow> unit answer" where
  "verify_email e now rq raw s =
     (case valid_account_token e now raw ''verify_email'' (s_db s) of
        Inl x \<Rightarrow> fail x s
      | Inr t \<Rightarrow>
          (case find_user (s_db s) (at_user_id t) of
             None \<Rightarrow> fail (HTTPException 400 ''Account no longer exists'') s
           | Some u \<Rightarrow>
               reply () (commit s (record_event e rq ''email_verified'' (Some (u_id u)) JNull
                 (use_token now t (set_account (u_id u) (\<lambda>u. u\<lparr>u_email_verified_at := Some now\<rparr>) (s_db s)))))))"

definition resend_verification :: "env \<Rightarrow> time \<Rightarrow> request \<Rightarrow> string \<Rightarrow> uuid \<times> string \<Rightarrow> site \<Rightarrow> string option answer" where
  "resend_verification e now rq email fresh s =
     limited e now rq (Some (''verify:'' @ email)) s (\<lambda>s.
       case find_email (s_db s) (lower email) of
         None \<Rightarrow> reply None s
       | Some u \<Rightarrow>
           if u_email_verified_at u \<noteq> None then reply None s
           else (case create_account_token e now (u_id u) ''verify_email'' (hours 24) None fresh (s_db s) of
                   Inl x \<Rightarrow> fail x s
                 | Inr d \<Rightarrow>
                     (let url = link_url e ''/verify-email'' (snd fresh) in
                      reply (shown_url e url)
                        (deliver_account_email e (u_email u) ''Verify your Drivebound email''
                           (''Verify your account: '' @ url) (commit s d)))))"

definition forgot_password :: "env \<Rightarrow> time \<Rightarrow> request \<Rightarrow> string \<Rightarrow> uuid \<times> string \<Rightarrow> site \<Rightarrow> string option answer" where
  "forgot_password e now rq email fresh s =
     limited e now rq (Some (''reset:'' @ email)) s (\<lambda>s.
       case find_email (s_db s) (lower email) of
         None \<Rightarrow> reply None s
       | Some u \<Rightarrow>
           if u_disabled_at u \<noteq> None then reply None s
           else (case create_account_token e now (u_id u) ''password_reset'' (minutes 30) None fresh (s_db s) of
                   Inl x \<Rightarrow> fail x s
                 | Inr d \<Rightarrow>
                     (let url = link_url e ''/reset-password'' (snd fresh) in
                      reply (shown_url e url)
                        (deliver_account_email e (u_email u) ''Reset your Drivebound password''
                           (''Reset your password: '' @ url)
                           (commit s (record_event e rq ''password_reset_requested'' (Some (u_id u)) JNull d))))))"

definition set_password :: "env \<Rightarrow> time \<Rightarrow> string \<Rightarrow> string \<Rightarrow> user \<Rightarrow> user" where
  "set_password e now salt password u =
     u\<lparr>u_password_hash := kdf e salt password, u_password_enabled := True, u_password_set_at := Some now\<rparr>"

definition revoke_sessions :: "time \<Rightarrow> uuid \<Rightarrow> uuid option \<Rightarrow> db \<Rightarrow> db" where
  "revoke_sessions now user_id kept d =
     d\<lparr>auth_sessions := sql_update (\<lambda>x. as_user_id x = user_id \<and> Some (as_id x) \<noteq> kept \<and> as_revoked_at x = None)
        (\<lambda>x. x\<lparr>as_revoked_at := Some now\<rparr>) (auth_sessions d)\<rparr>"

definition reset_password :: "env \<Rightarrow> time \<Rightarrow> request \<Rightarrow> string \<Rightarrow> string \<Rightarrow> string \<Rightarrow> site \<Rightarrow> unit answer" where
  "reset_password e now rq raw new_password salt s =
     (case valid_account_token e now raw ''password_reset'' (s_db s) of
        Inl x \<Rightarrow> fail x s
      | Inr t \<Rightarrow>
          (case find_user (s_db s) (at_user_id t) of
             None \<Rightarrow> fail (HTTPException 400 ''Account no longer exists'') s
           | Some u \<Rightarrow>
               (let d = set_account (u_id u) (set_password e now salt new_password) (s_db s);
                    d = use_token now t d;
                    d = d\<lparr>account_tokens := sql_update (\<lambda>x. at_user_id x = u_id u \<and> at_purpose x = ''password_reset'' \<and>
                            at_used_at x = None) (\<lambda>x. x\<lparr>at_used_at := Some now\<rparr>) (account_tokens d)\<rparr>;
                    d = revoke_sessions now (u_id u) None d;
                    d = record_event e rq ''password_reset_completed'' (Some (u_id u)) JNull d
                in reply () (deliver_account_email e (u_email u) ''Drivebound password changed''
                     ''Your Drivebound password was reset. If this was not you, contact your administrator.'' (commit s d)))))"

section \<open>Password sign-in and refresh\<close>

definition DUMMY_PASSWORD_HASH :: "env \<Rightarrow> string" where
  "DUMMY_PASSWORD_HASH e = kdf e [] ''drivebound-dummy-password-proof''"

definition password_login ::
  "env \<Rightarrow> time \<Rightarrow> request \<Rightarrow> bool \<Rightarrow> string \<Rightarrow> string \<Rightarrow> string option \<Rightarrow> uuid \<times> string \<Rightarrow> site \<Rightarrow>
   token_response answer" where
  "password_login e now rq set_browser_cookies email password otp fresh s =
     limited e now rq (Some (''login:'' @ email)) s (\<lambda>s.
       let user = find_email (s_db s) (lower email);
           password_valid = check_password e password
             (case user of Some u \<Rightarrow> u_password_hash u | None \<Rightarrow> DUMMY_PASSWORD_HASH e);
           refused = fail (HTTPException 401 ''Incorrect email or password'')
             (commit s (record_event e rq ''login_failed'' (map_option u_id user) JNull (s_db s)))
       in case user of
            None \<Rightarrow> refused
          | Some u \<Rightarrow>
              if u_disabled_at u \<noteq> None \<or> \<not> password_valid then refused
              else if u_email_verified_at u = None
              then fail (HTTPException 403 ''Verify your email before signing in'') s
              else case verify_second_factor e now u otp (s_db s) of
                Inl x \<Rightarrow> fail x s
              | Inr (False, d) \<Rightarrow>
                  fail (HTTPException 403 ''Two-factor code required'')
                    (commit s (record_event e rq ''mfa_failed'' (Some (u_id u)) JNull d))
              | Inr (True, d) \<Rightarrow>
                  (let d = (if u_password_enabled u then d
                            else set_account (u_id u) (\<lambda>u. u\<lparr>u_password_enabled := True, u_password_set_at := Some now\<rparr>) d);
                       u = u\<lparr>u_password_enabled := True\<rparr>
                   in reset_after e rq (Some (''login:'' @ email))
                        (issue_session e now rq fresh u ''password'' set_browser_cookies True d s)))"

definition browser_login ::
  "env \<Rightarrow> time \<Rightarrow> request \<Rightarrow> string \<Rightarrow> string \<Rightarrow> string option \<Rightarrow> uuid \<times> string \<Rightarrow> site \<Rightarrow> token_response answer" where
  "browser_login e now rq email password otp fresh s =
     from_browser e rq s (password_login e now rq True email password otp fresh s)"

definition token_login ::
  "env \<Rightarrow> time \<Rightarrow> request \<Rightarrow> string \<Rightarrow> string \<Rightarrow> string option \<Rightarrow> uuid \<times> string \<Rightarrow> site \<Rightarrow> token_response answer" where
  "token_login e now rq username password otp fresh s = password_login e now rq False username password otp fresh s"

text \<open>An answer that is a problem document keeps the connection's rollback but carries cookies.\<close>

definition problem :: "exn \<Rightarrow> cookie list \<Rightarrow> site \<Rightarrow> 'a answer" where
  "problem x cookies s = (Inl x, cookies, s)"

text \<open>The session a refresh cookie names and its account; a failure says which cookies its answer clears.\<close>

definition refresh_subject :: "env \<Rightarrow> time \<Rightarrow> request \<Rightarrow> site \<Rightarrow> (exn \<times> cookie list) + auth_session \<times> user" where
  "refresh_subject e now rq s =
     (let unavailable = Inl (HTTPException 401 ''Account is unavailable'', clear_cookies e) in
      case rq_cookies rq (refresh_cookie_name (cfg e)) of
        None \<Rightarrow> Inl (HTTPException 401 ''Refresh session required'', [])
      | Some raw \<Rightarrow>
          if raw = [] then Inl (HTTPException 401 ''Refresh session required'', [])
          else case sql_first (\<lambda>x. as_refresh_token_hash x = token_digest e raw \<and> as_revoked_at x = None \<and>
                       as_expires_at x > now) (auth_sessions (s_db s)) of
            None \<Rightarrow> Inl (HTTPException 401 ''Refresh session is invalid'', clear_cookies e)
          | Some c \<Rightarrow>
              (case find_user (s_db s) (as_user_id c) of
                 None \<Rightarrow> unavailable
               | Some u \<Rightarrow>
                   if u_disabled_at u \<noteq> None \<or> reject_suppressed_account e (s_ledger s) (u_id u) \<noteq> Inr ()
                   then unavailable else Inr (c, u)))"

definition refresh_session :: "env \<Rightarrow> time \<Rightarrow> request \<Rightarrow> string \<Rightarrow> site \<Rightarrow> token_response answer" where
  "refresh_session e now rq replacement s =
     (case refresh_subject e now rq s of
        Inl (x, cookies) \<Rightarrow> problem x cookies s
      | Inr (c, u) \<Rightarrow>
          if list_ex (\<lambda>x. as_id x \<noteq> as_id c \<and> as_refresh_token_hash x = token_digest e replacement) (auth_sessions (s_db s))
          then fail IntegrityError s
          else
            (let d = set_session (as_id c) (\<lambda>x. x\<lparr>as_refresh_token_hash := token_digest e replacement,
                       as_last_seen_at := now\<rparr>) (s_db s);
                 access = create_access_token e now (u_id u) (as_id c)
             in (Inr \<lparr>tr_access_token = access, tr_user = user_response e d u\<rparr>,
                 [set_access_cookie e access, set_refresh_cookie e replacement], commit s d)))"

definition logout :: "env \<Rightarrow> time \<Rightarrow> request \<Rightarrow> site \<Rightarrow> unit answer" where
  "logout e now rq s =
     (let s' = (case rq_cookies rq (refresh_cookie_name (cfg e)) of
              None \<Rightarrow> s
            | Some raw \<Rightarrow>
                if raw = [] then s
                else (case sql_first (\<lambda>x. as_refresh_token_hash x = token_digest e raw) (auth_sessions (s_db s)) of
                        None \<Rightarrow> s
                      | Some c \<Rightarrow> commit s (set_session (as_id c) (\<lambda>x. x\<lparr>as_revoked_at := Some now\<rparr>) (s_db s))))
      in (Inr (), clear_cookies e, s'))"

section \<open>Profile\<close>

definition me :: "env \<Rightarrow> time \<Rightarrow> request \<Rightarrow> site \<Rightarrow> user_view answer" where
  "me e now rq s = authed e now rq s (\<lambda>u c s. reply (user_response e (s_db s) u) s)"

definition update_profile :: "env \<Rightarrow> time \<Rightarrow> request \<Rightarrow> string \<Rightarrow> site \<Rightarrow> user_view answer" where
  "update_profile e now rq display_name s = authed e now rq s (\<lambda>u c s.
     let g = (\<lambda>u. u\<lparr>u_display_name := Some (strip display_name)\<rparr>);
         d = record_event e rq ''profile_updated'' (Some (u_id u)) JNull (set_account (u_id u) g (s_db s))
     in reply (user_response e d (g u)) (commit s d))"

definition complete_onboarding :: "env \<Rightarrow> time \<Rightarrow> request \<Rightarrow> string \<Rightarrow> site \<Rightarrow> user_view answer" where
  "complete_onboarding e now rq display_name s = authed e now rq s (\<lambda>u c s.
     let g = (\<lambda>u. u\<lparr>u_display_name := Some (strip display_name), u_onboarding_completed_at := Some now\<rparr>);
         d = record_event e rq ''onboarding_completed'' (Some (u_id u)) JNull (set_account (u_id u) g (s_db s))
     in reply (user_response e d (g u)) (commit s d))"

section \<open>Passwords and recent authentication\<close>

text \<open>The proof the sensitive handlers ask for: the password, then the second factor.\<close>

definition password_and_factor :: "env \<Rightarrow> time \<Rightarrow> user \<Rightarrow> string option \<Rightarrow> string option \<Rightarrow> db \<Rightarrow> exn + bool \<times> db" where
  "password_and_factor e now u password otp d =
     (case password of
        None \<Rightarrow> Inr (False, d)
      | Some p \<Rightarrow> if p = [] \<or> \<not> check_password e p (u_password_hash u) then Inr (False, d)
                  else verify_second_factor e now u otp d)"

definition store_password :: "env \<Rightarrow> time \<Rightarrow> request \<Rightarrow> user \<Rightarrow> auth_session \<Rightarrow> string \<Rightarrow> string \<Rightarrow> db \<Rightarrow> db" where
  "store_password e now rq u c new_password salt d =
     record_event e rq ''password_changed'' (Some (u_id u)) JNull
       (revoke_sessions now (u_id u) (Some (as_id c))
         (set_session (as_id c) (\<lambda>x. x\<lparr>as_reauthenticated_at := Some now\<rparr>)
           (set_account (u_id u) (set_password e now salt new_password) d)))"

definition change_password ::
  "env \<Rightarrow> time \<Rightarrow> request \<Rightarrow> string option \<Rightarrow> string \<Rightarrow> string option \<Rightarrow> string \<Rightarrow> site \<Rightarrow> string answer" where
  "change_password e now rq current_password new_password otp salt s =
     authed e now rq s (\<lambda>auth_user c s. locked_user auth_user s (\<lambda>u.
       if u_password_enabled u
       then limited e now rq (sensitive_proof (u_id u)) s (\<lambda>s.
         case password_and_factor e now u current_password otp (s_db s) of
           Inl x \<Rightarrow> fail x s
         | Inr (False, d) \<Rightarrow>
             fail (HTTPException 400 ''Current password or two-factor code is incorrect'')
               (commit s (record_event e rq ''password_change_failed'' (Some (u_id u)) JNull d))
         | Inr (True, d) \<Rightarrow>
             reset_after e rq (sensitive_proof (u_id u))
               (reply ''Password changed. Other sessions were signed out.''
                  (commit s (store_password e now rq u c new_password salt d))))
       else if \<not> session_has_recent_auth e now c then fail recent_auth_required s
       else reply ''Password set. Other sessions were signed out.''
              (commit s (store_password e now rq u c new_password salt (s_db s)))))"

definition reauthenticate_password ::
  "env \<Rightarrow> time \<Rightarrow> request \<Rightarrow> string \<Rightarrow> string option \<Rightarrow> site \<Rightarrow> unit answer" where
  "reauthenticate_password e now rq password otp s =
     authed e now rq s (\<lambda>auth_user c s. locked_user auth_user s (\<lambda>u.
       if \<not> u_password_enabled u
       then fail (HTTPException 409 ''This account does not have a password. Use Google or a passkey.'') s
       else limited e now rq (sensitive_proof (u_id u)) s (\<lambda>s.
         case password_and_factor e now u (Some password) otp (s_db s) of
           Inl x \<Rightarrow> fail x s
         | Inr (False, d) \<Rightarrow>
             fail (HTTPException 401 ''Password or two-factor code is incorrect'')
               (commit s (record_event e rq ''reauthentication_failed'' (Some (u_id u))
                  (JObj [(''method'', JStr ''password'')]) d))
         | Inr (True, d) \<Rightarrow>
             reset_after e rq (sensitive_proof (u_id u))
               (reply () (commit s (record_event e rq ''reauthentication_succeeded'' (Some (u_id u))
                  (JObj [(''method'', JStr ''password'')])
                  (set_session (as_id c) (\<lambda>x. x\<lparr>as_reauthenticated_at := Some now\<rparr>) d)))))))"

section \<open>Sessions of the account\<close>

definition list_sessions :: "env \<Rightarrow> time \<Rightarrow> request \<Rightarrow> site \<Rightarrow> (auth_session \<times> bool) list answer" where
  "list_sessions e now rq s = authed e now rq s (\<lambda>u c s.
     reply (map (\<lambda>x. (x, as_id x = as_id c)) (sort_key (\<lambda>x. - as_last_seen_at x)
       (filter (\<lambda>x. as_user_id x = u_id u \<and> as_revoked_at x = None \<and> as_expires_at x > now) (auth_sessions (s_db s))))) s)"

definition revoke_session :: "env \<Rightarrow> time \<Rightarrow> request \<Rightarrow> uuid \<Rightarrow> site \<Rightarrow> unit answer" where
  "revoke_session e now rq session_id s = recently_authed e now rq s (\<lambda>u c s.
     case sql_first (\<lambda>x. as_id x = session_id \<and> as_user_id x = u_id u) (auth_sessions (s_db s)) of
       None \<Rightarrow> fail (HTTPException 404 ''Session not found'') s
     | Some x \<Rightarrow> reply () (commit s (record_event e rq ''session_revoked'' (Some (u_id u))
                   (JObj [(''session_id'', JStr (uuid_str session_id))])
                   (set_session session_id (\<lambda>x. x\<lparr>as_revoked_at := Some now\<rparr>) (s_db s)))))"

section \<open>Two-factor enrolment\<close>

definition setup_mfa :: "env \<Rightarrow> time \<Rightarrow> request \<Rightarrow> string \<Rightarrow> site \<Rightarrow> string answer" where
  "setup_mfa e now rq secret s = recently_authed e now rq s (\<lambda>auth_user c s. locked_user auth_user s (\<lambda>u.
     reply secret (commit s (set_account (u_id u) (\<lambda>u. u\<lparr>u_pending_totp_secret := Some (seal_secret e secret),
       u_pending_totp_expires_at := Some (now + minutes 10), u_pending_totp_session_id := Some (as_id c)\<rparr>) (s_db s)))))"

text \<open>All codes of the account are spent, and the new ones replace them; \<open>codes\<close> pairs the identifiers of the
  new rows with the codes.\<close>

definition spend_codes :: "time \<Rightarrow> uuid \<Rightarrow> db \<Rightarrow> db" where
  "spend_codes now i d =
     d\<lparr>recovery_codes := sql_update (\<lambda>c. rc_user_id c = i) (\<lambda>c. c\<lparr>rc_used_at := Some now\<rparr>) (recovery_codes d)\<rparr>"

definition add_codes :: "env \<Rightarrow> uuid \<Rightarrow> (uuid \<times> string) list \<Rightarrow> db \<Rightarrow> db" where
  "add_codes e i codes d = d\<lparr>recovery_codes := recovery_codes d @
     map (\<lambda>(k, code). \<lparr>rc_id = k, rc_user_id = i, rc_code_hash = token_digest e code, rc_used_at = None\<rparr>) codes\<rparr>"

definition pending_step :: "env \<Rightarrow> time \<Rightarrow> user \<Rightarrow> string \<Rightarrow> exn + int option" where
  "pending_step e now u code =
     (case u_pending_totp_secret u of
        None \<Rightarrow> Inr None
      | Some sealed \<Rightarrow>
          if sealed = [] then Inr None
          else (case open_secret e sealed of
                  None \<Rightarrow> Inl (HTTPException 500 ''MFA secret cannot be decrypted'')
                | Some secret \<Rightarrow> matching_totp_step e now secret code))"

definition confirm_mfa ::
  "env \<Rightarrow> time \<Rightarrow> request \<Rightarrow> string \<Rightarrow> (uuid \<times> string) list \<Rightarrow> site \<Rightarrow> string list answer" where
  "confirm_mfa e now rq code codes s = recently_authed e now rq s (\<lambda>auth_user c s. locked_user auth_user s (\<lambda>u.
     limited e now rq (sensitive_proof (u_id u)) s (\<lambda>s.
       case pending_step e now u code of
         Inl x \<Rightarrow> fail x s
       | Inr m \<Rightarrow>
           if \<not> truthy (u_pending_totp_secret u) \<or>
              (case u_pending_totp_expires_at u of None \<Rightarrow> True | Some t \<Rightarrow> t \<le> now) \<or>
              u_pending_totp_session_id u \<noteq> Some (as_id c) \<or> m = None
           then fail (HTTPException 400 ''The authentication code is incorrect'')
                  (commit s (record_event e rq ''mfa_confirmation_failed'' (Some (u_id u)) JNull (s_db s)))
           else
             (let d = set_account (u_id u) (\<lambda>u. u\<lparr>u_totp_secret := u_pending_totp_secret u, u_pending_totp_secret := None,
                        u_pending_totp_expires_at := None, u_pending_totp_session_id := None,
                        u_totp_enabled_at := Some now, u_totp_last_used_step := m\<rparr>) (s_db s);
                  d = add_codes e (u_id u) codes (spend_codes now (u_id u) d);
                  d = set_session (as_id c) (\<lambda>x. x\<lparr>as_reauthenticated_at := Some now\<rparr>) d;
                  d = record_event e rq ''mfa_enabled'' (Some (u_id u)) JNull d
              in reset_after e rq (sensitive_proof (u_id u)) (reply (map snd codes) (commit s d))))))"

definition drop_mfa :: "env \<Rightarrow> time \<Rightarrow> request \<Rightarrow> user \<Rightarrow> auth_session \<Rightarrow> db \<Rightarrow> db" where
  "drop_mfa e now rq u c d =
     record_event e rq ''mfa_disabled'' (Some (u_id u)) JNull
       (spend_codes now (u_id u)
         (set_session (as_id c) (\<lambda>x. x\<lparr>as_reauthenticated_at := Some now\<rparr>)
           (set_account (u_id u) (\<lambda>u. u\<lparr>u_totp_enabled_at := None, u_totp_secret := None, u_totp_last_used_step := None,
              u_pending_totp_secret := None, u_pending_totp_expires_at := None, u_pending_totp_session_id := None\<rparr>) d)))"

definition disable_mfa :: "env \<Rightarrow> time \<Rightarrow> request \<Rightarrow> string option \<Rightarrow> string option \<Rightarrow> site \<Rightarrow> unit answer" where
  "disable_mfa e now rq password code s = authed e now rq s (\<lambda>auth_user c s. locked_user auth_user s (\<lambda>u.
     if \<not> u_password_enabled u \<and> \<not> session_has_recent_auth e now c then fail recent_auth_required s
     else if u_password_enabled u
     then limited e now rq (sensitive_proof (u_id u)) s (\<lambda>s.
       case password_and_factor e now u password code (s_db s) of
         Inl x \<Rightarrow> fail x s
       | Inr (False, d) \<Rightarrow>
           fail (HTTPException 400 ''Password or two-factor code is incorrect'')
             (commit s (record_event e rq ''mfa_disable_failed'' (Some (u_id u)) JNull d))
       | Inr (True, d) \<Rightarrow>
           reset_after e rq (sensitive_proof (u_id u)) (reply () (commit s (drop_mfa e now rq u c d))))
     else reply () (commit s (drop_mfa e now rq u c (s_db s)))))"

section \<open>Google sign-in\<close>

text \<open>What the exchange of the code for a verified identity token yields; \<open>None\<close> when it fails.\<close>

record google_claims =
  gc_nonce :: "string option"
  gc_email_verified :: bool
  gc_auth_time :: "int option"
  gc_sub :: "string option"
  gc_email :: "string option"
  gc_name :: "string option"

definition google_start :: "env \<Rightarrow> string \<Rightarrow> string \<Rightarrow> site \<Rightarrow> redirect answer" where
  "google_start e state nonce s =
     (if \<not> google_auth_enabled e then fail (HTTPException 503 ''Google sign-in is not configured'') s
      else (let (r, cs) = google_authorization_response e state nonce False in (Inr r, cs, s)))"

definition google_reauthentication_start ::
  "env \<Rightarrow> time \<Rightarrow> request \<Rightarrow> uuid \<times> string \<Rightarrow> string \<Rightarrow> site \<Rightarrow> redirect answer" where
  "google_reauthentication_start e now rq fresh nonce s = authed e now rq s (\<lambda>u c s.
     if \<not> google_auth_enabled e then fail (HTTPException 503 ''Google sign-in is not configured'') s
     else if \<not> list_ex (\<lambda>i. ei_user_id i = u_id u \<and> ei_provider i = ''google'') (identities (s_db s))
     then reply (SecurityPage None (Some ''google_not_linked'')) s
     else
       (let state = ''reauth.'' @ snd fresh in
        case insert_token \<lparr>at_id = fst fresh, at_user_id = u_id u, at_session_id = Some (as_id c),
            at_purpose = ''google_reauth'', at_token_hash = token_digest e state, at_expires_at = now + minutes 10,
            at_used_at = None, at_created_at = now\<rparr> (s_db s) of
          Inl x \<Rightarrow> fail x s
        | Inr d \<Rightarrow>
            (let (r, cs) = google_authorization_response e state nonce True in
             (Inr r, cs, commit s (record_event e rq ''google_reauthentication_started'' (Some (u_id u)) JNull d)))))"

definition require_fresh_google_authentication :: "time \<Rightarrow> google_claims \<Rightarrow> bool" where
  "require_fresh_google_authentication now claims =
     (case gc_auth_time claims of
        None \<Rightarrow> False
      | Some t \<Rightarrow> now div second - 300 \<le> t \<and> t \<le> now div second + 60)"

definition redirected :: "env \<Rightarrow> redirect \<Rightarrow> site \<Rightarrow> redirect answer" where
  "redirected e r s = (Inr r, clear_google_cookies e, s)"

definition reauth_error :: "env \<Rightarrow> string \<Rightarrow> site \<Rightarrow> redirect answer" where
  "reauth_error e code s = redirected e (SecurityPage None (Some code)) s"

text \<open>The second step of a sign-in by Google is a local transaction when the account has two factors.\<close>

definition google_mfa_required ::
  "env \<Rightarrow> time \<Rightarrow> request \<Rightarrow> user \<Rightarrow> string \<Rightarrow> string \<Rightarrow> uuid option \<Rightarrow> uuid \<times> string \<Rightarrow> db \<Rightarrow> site \<Rightarrow> redirect answer" where
  "google_mfa_required e now rq u purpose mode session_id fresh d s =
     (case create_account_token e now (u_id u) purpose (minutes 5) session_id fresh d of
        Inl x \<Rightarrow> fail x s
      | Inr d \<Rightarrow>
          (let (r, cs) = google_mfa_redirect e (snd fresh) mode in
           (Inr r, cs @ clear_google_cookies e,
            commit s (record_event e rq ''google_mfa_required'' (Some (u_id u)) (JObj [(''mode'', JStr mode)]) d))))"

definition google_reauthenticate ::
  "env \<Rightarrow> time \<Rightarrow> request \<Rightarrow> account_token \<Rightarrow> string \<Rightarrow> uuid \<times> string \<Rightarrow> site \<Rightarrow> redirect answer" where
  "google_reauthenticate e now rq t subject fresh s =
     (let d = s_db s in
      if at_used_at t \<noteq> None \<or> at_expires_at t \<le> now then reauth_error e ''google_reauth_expired'' s
      else if \<not> list_ex (\<lambda>i. ei_provider i = ''google'' \<and> ei_subject i = subject \<and> ei_user_id i = at_user_id t) (identities d)
      then reauth_error e ''google_reauth_failed'' s
      else case sql_first (\<lambda>x. Some (as_id x) = at_session_id t \<and> as_user_id x = at_user_id t \<and> as_revoked_at x = None \<and>
                   as_expires_at x > now) (auth_sessions d) of
        None \<Rightarrow> reauth_error e ''google_reauth_expired'' s
      | Some c \<Rightarrow>
          (case find_user d (at_user_id t) of
             None \<Rightarrow> reauth_error e ''google_reauth_failed'' s
           | Some u \<Rightarrow>
               if u_disabled_at u \<noteq> None then reauth_error e ''google_reauth_failed'' s
               else if u_totp_enabled_at u \<noteq> None
               then google_mfa_required e now rq u ''google_mfa_reauth'' ''reauthenticate'' (Some (as_id c)) fresh
                      (use_token now t d) s
               else redirected e (SecurityPage (Some ''google'') None)
                 (commit s (record_event e rq ''google_reauthentication_succeeded'' (Some (at_user_id t)) JNull
                   (use_token now t (set_session (as_id c) (\<lambda>x. x\<lparr>as_reauthenticated_at := Some now\<rparr>) d))))))"

text \<open>Linking: the account of the identity, or the one with the same address, or a new one.\<close>

definition link_identity :: "uuid \<Rightarrow> string \<Rightarrow> string \<Rightarrow> db \<Rightarrow> exn + db" where
  "link_identity i subject email d =
     (if list_ex (\<lambda>x. ei_provider x = ''google'' \<and> ei_subject x = subject) (identities d) then Inl IntegrityError
      else Inr (d\<lparr>identities := sql_insert \<lparr>ei_user_id = i, ei_provider = ''google'', ei_subject = subject,
                 ei_email_at_link = email\<rparr> (identities d)\<rparr>))"

definition google_account ::
  "env \<Rightarrow> time \<Rightarrow> string \<Rightarrow> string \<Rightarrow> string option \<Rightarrow> uuid \<Rightarrow> string \<Rightarrow> string \<Rightarrow> db \<Rightarrow> exn + user \<times> db" where
  "google_account e now subject email name i salt password d =
     (case (case sql_first (\<lambda>x. ei_provider x = ''google'' \<and> ei_subject x = subject) (identities d) of
              None \<Rightarrow> None | Some x \<Rightarrow> find_user d (ei_user_id x)) of
        Some u \<Rightarrow> Inr (u, d)
      | None \<Rightarrow>
          (case find_email d email of
             None \<Rightarrow>
               (let shown = take 120 (if truthy name then the name else takeWhile (\<lambda>c. c \<noteq> CHR ''@'') email);
                    u = new_user i email (kdf e salt password) False None shown (Some now) now
                in sbind (insert_user u d) (\<lambda>d. sbind (link_identity i subject email d) (\<lambda>d. Inr (u, d))))
           | Some u \<Rightarrow>
               (let g = (\<lambda>u. if u_email_verified_at u = None then u\<lparr>u_email_verified_at := Some now\<rparr> else u)
                in sbind (link_identity (u_id u) subject email (set_account (u_id u) g d)) (\<lambda>d. Inr (g u, d)))))"

record google_fresh =
  gf_user_id :: uuid
  gf_salt :: string
  gf_password :: string
  gf_token :: "uuid \<times> string"
  gf_session :: "uuid \<times> string"

definition google_sign_in ::
  "env \<Rightarrow> time \<Rightarrow> request \<Rightarrow> string \<Rightarrow> string \<Rightarrow> string option \<Rightarrow> google_fresh \<Rightarrow> site \<Rightarrow> redirect answer" where
  "google_sign_in e now rq subject email name fresh s =
     (case google_account e now subject email name (gf_user_id fresh) (gf_salt fresh) (gf_password fresh) (s_db s) of
        Inl x \<Rightarrow> fail x s
      | Inr (u, d) \<Rightarrow>
          if u_disabled_at u \<noteq> None then redirected e (AuthPage (Some ''This Drivebound account is unavailable.'')) s
          else if u_totp_enabled_at u \<noteq> None
          then google_mfa_required e now rq u ''google_mfa_login'' ''login'' None (gf_token fresh) d s
          else on_success (\<lambda>_. LibraryPage) (\<lambda>cs. cs @ clear_google_cookies e)
                 (issue_session e now rq (gf_session fresh) u ''google'' True False
                    (record_event e rq ''google_login_succeeded'' (Some (u_id u)) JNull d) s))"

definition reauth_state :: "string option \<Rightarrow> bool" where
  "reauth_state state = (case state of None \<Rightarrow> False | Some t \<Rightarrow> take 7 t = ''reauth.'')"

definition google_refusal :: "string option \<Rightarrow> string \<Rightarrow> string \<Rightarrow> redirect" where
  "google_refusal state code message =
     (if reauth_state state then SecurityPage None (Some code) else AuthPage (Some message))"

text \<open>The checks before the database is read: a refusal, or the subject and the address Google vouches for.\<close>

definition google_subject ::
  "env \<Rightarrow> time \<Rightarrow> request \<Rightarrow> string option \<Rightarrow> string option \<Rightarrow> string option \<Rightarrow> google_claims option \<Rightarrow>
   (exn + redirect) + string \<times> string" where
  "google_subject e now rq code state error exchange =
     (let unverified = Inl (Inr (google_refusal state ''google_reauth_failed''
            ''Google sign-in could not be verified. Please try again.''));
          failed = Inl (Inr (google_refusal state ''google_reauth_failed'' ''Google sign-in failed. Please try again.''));
          expected = (case rq_cookies rq (google_state_cookie_name e) of None \<Rightarrow> [] | Some t \<Rightarrow> t)
      in if truthy error
         then Inl (Inr (google_refusal state ''google_reauth_cancelled'' ''Google sign-in was cancelled.''))
         else if \<not> google_auth_enabled e \<or> \<not> truthy code \<or> \<not> truthy state then unverified
         else case compare_digest (the state) expected of
           Inl x \<Rightarrow> Inl (Inl x)
         | Inr same \<Rightarrow>
             if \<not> same then unverified
             else (case exchange of
                None \<Rightarrow> failed
              | Some claims \<Rightarrow>
                  if gc_nonce claims \<noteq> rq_cookies rq (google_nonce_cookie_name e) \<or> \<not> gc_email_verified claims then failed
                  else if reauth_state state \<and> \<not> require_fresh_google_authentication now claims
                  then Inl (Inr (SecurityPage None (Some ''google_reauth_failed'')))
                  else (case (gc_sub claims, gc_email claims) of
                          (Some subject, Some email) \<Rightarrow> Inr (subject, lower (strip email))
                        | _ \<Rightarrow> failed)))"

definition google_callback ::
  "env \<Rightarrow> time \<Rightarrow> request \<Rightarrow> string option \<Rightarrow> string option \<Rightarrow> string option \<Rightarrow> google_claims option \<Rightarrow> google_fresh \<Rightarrow>
   site \<Rightarrow> redirect answer" where
  "google_callback e now rq code state error exchange fresh s =
     (case google_subject e now rq code state error exchange of
        Inl (Inl x) \<Rightarrow> fail x s
      | Inl (Inr dest) \<Rightarrow> redirected e dest s
      | Inr (subject, email) \<Rightarrow>
          (case sql_first (\<lambda>t. at_token_hash t = token_digest e (the state) \<and> at_purpose t = ''google_reauth'')
                  (account_tokens (s_db s)) of
             Some t \<Rightarrow> google_reauthenticate e now rq t subject (gf_token fresh) s
           | None \<Rightarrow>
               if reauth_state state then reauth_error e ''google_reauth_expired'' s
               else google_sign_in e now rq subject email (gc_name (the exchange)) fresh s))"

section \<open>The second factor after Google\<close>

text \<open>The transaction the cookie names is used by this very request, whatever becomes of it; the first
  component is the working transaction, when the request may go on.\<close>

definition consume_google_mfa_transaction ::
  "env \<Rightarrow> time \<Rightarrow> request \<Rightarrow> string \<Rightarrow> site \<Rightarrow> (user \<times> auth_session option \<times> db) option \<times> site" where
  "consume_google_mfa_transaction e now rq purpose s =
     (let d = s_db s in
      case rq_cookies rq (google_mfa_cookie_name e) of
        None \<Rightarrow> (None, s)
      | Some raw \<Rightarrow>
          if raw = [] then (None, s)
          else case sql_first (\<lambda>t. at_token_hash t = token_digest e raw \<and> at_purpose t = purpose) (account_tokens d) of
            None \<Rightarrow> (None, s)
          | Some t \<Rightarrow>
              if at_used_at t \<noteq> None then (None, s)
              else
                (let d' = use_token now t d;
                     session = (case at_session_id t of None \<Rightarrow> None
                       | Some i \<Rightarrow> sql_first (live_session now i (at_user_id t)) (auth_sessions d))
                 in if at_expires_at t \<le> now then (None, commit s d')
                    else case find_user d (at_user_id t) of
                      None \<Rightarrow> (None, commit s d')
                    | Some u \<Rightarrow>
                        if u_disabled_at u \<noteq> None \<or> u_totp_enabled_at u = None \<or>
                           (at_session_id t \<noteq> None \<and> session = None)
                        then (None, commit s d') else (Some (u, session, d'), s)))"

definition google_mfa_problem :: "env \<Rightarrow> exn \<Rightarrow> site \<Rightarrow> 'a answer" where
  "google_mfa_problem e x s = problem x (clear_google_mfa_cookie e) s"

definition complete_google_mfa_login :: "env \<Rightarrow> time \<Rightarrow> request \<Rightarrow> string \<Rightarrow> uuid \<times> string \<Rightarrow> site \<Rightarrow> token_response answer" where
  "complete_google_mfa_login e now rq code fresh s = from_browser e rq s
     (case consume_google_mfa_transaction e now rq ''google_mfa_login'' s of
        (None, s) \<Rightarrow> google_mfa_problem e (HTTPException 400 ''google_mfa_transaction_invalid'') s
      | (Some (u, _, d), s) \<Rightarrow>
          limited e now rq (sensitive_proof (u_id u)) s (\<lambda>s.
            case verify_second_factor e now u (Some code) d of
              Inl x \<Rightarrow> fail x s
            | Inr (False, d) \<Rightarrow>
                google_mfa_problem e (HTTPException 401 ''google_mfa_code_invalid'')
                  (commit s (record_event e rq ''google_mfa_failed'' (Some (u_id u)) (JObj [(''mode'', JStr ''login'')]) d))
            | Inr (True, d) \<Rightarrow>
                on_success id (\<lambda>cs. clear_google_mfa_cookie e @ cs)
                  (reset_after e rq (sensitive_proof (u_id u))
                    (issue_session e now rq fresh u ''google+totp'' True True
                      (record_event e rq ''google_mfa_succeeded'' (Some (u_id u)) (JObj [(''mode'', JStr ''login'')]) d) s))))"

definition complete_google_mfa_reauthentication :: "env \<Rightarrow> time \<Rightarrow> request \<Rightarrow> string \<Rightarrow> site \<Rightarrow> unit answer" where
  "complete_google_mfa_reauthentication e now rq code s = from_browser e rq s
     (case consume_google_mfa_transaction e now rq ''google_mfa_reauth'' s of
        (None, s) \<Rightarrow> google_mfa_problem e (HTTPException 400 ''google_mfa_transaction_invalid'') s
      | (Some (u, session, d), s) \<Rightarrow>
          limited e now rq (sensitive_proof (u_id u)) s (\<lambda>s.
            case verify_second_factor e now u (Some code) d of
              Inl x \<Rightarrow> fail x s
            | Inr (False, d) \<Rightarrow>
                google_mfa_problem e (HTTPException 401 ''google_mfa_code_invalid'')
                  (commit s (record_event e rq ''google_mfa_failed'' (Some (u_id u))
                    (JObj [(''mode'', JStr ''reauthenticate'')]) d))
            | Inr (True, d) \<Rightarrow>
                (case session of
                   None \<Rightarrow> google_mfa_problem e (HTTPException 400 ''google_mfa_transaction_invalid'') (commit s d)
                 | Some c \<Rightarrow>
                     (let d = record_event e rq ''google_mfa_succeeded'' (Some (u_id u)) (JObj [(''mode'', JStr ''reauthenticate'')])
                            (set_session (as_id c) (\<lambda>x. x\<lparr>as_reauthenticated_at := Some now\<rparr>) d)
                      in reset_after e rq (sensitive_proof (u_id u)) (Inr (), clear_google_mfa_cookie e, commit s d)))))"

section \<open>Deleting the account\<close>

text \<open>\<open>commits\<close> tells whether the commit after the marker succeeds, \<open>replays\<close> whether the replay on a fresh
  connection can be committed when it does not, and \<open>published\<close> whether the broker took the task
  (\<open>None\<close> when recording that fails).\<close>

record deletion_run =
  dl_job_id :: uuid
  dl_nonce :: string
  dl_commits :: bool
  dl_replays :: bool
  dl_replay_nonce :: "uuid \<Rightarrow> string"
  dl_published :: "bool option"

definition store_deletion :: "env \<Rightarrow> time \<Rightarrow> deletion_run \<Rightarrow> user \<Rightarrow> db \<Rightarrow> site \<Rightarrow> string answer" where
  "store_deletion e now run u d s =
     (let (j, d) = prepare_account_deletion e now (dl_job_id run) (dl_nonce run) u d in
      case write_suppression_marker e (s_files s) (j_id j) (u_id u) (j_requested_at j) (s_ledger s) of
        (Inl x, l) \<Rightarrow>
          fail (HTTPException 503 ''Account deletion could not be durably recorded. Please try again.'') (s\<lparr>s_ledger := l\<rparr>)
      | (Inr _, l) \<Rightarrow>
          (let s = s\<lparr>s_ledger := l\<rparr> in
           if \<not> dl_commits run
           then (Inr ''Account deletion was durably accepted and will resume automatically.'', clear_cookies e,
                 (case reconcile_suppression_ledger e l (dl_replay_nonce run) (s_db s) of
                    (Inl _, _) \<Rightarrow> s
                  | (Inr _, d') \<Rightarrow> if dl_replays run then commit s d' else s))
           else (Inr ''Account access and the live media-encryption key were destroyed.'', clear_cookies e,
                 commit s (case dl_published run of
                    None \<Rightarrow> d
                  | Some b \<Rightarrow> record_account_deletion_publish e now (j_id j) b d))))"

text \<open>The proof an account with a password owes: an error that ends the request, a refusal that is recorded, or
  the transaction to go on with.\<close>

definition deletion_proof :: "env \<Rightarrow> time \<Rightarrow> user \<Rightarrow> string option \<Rightarrow> string option \<Rightarrow> db \<Rightarrow> (exn + exn) + db" where
  "deletion_proof e now u password code d =
     (if \<not> truthy password \<or> \<not> check_password e (the password) (u_password_hash u)
      then Inl (Inr (HTTPException 400 ''Password is incorrect''))
      else if u_totp_enabled_at u = None then Inr d
      else case verify_second_factor e now u code d of
        Inl x \<Rightarrow> Inl (Inl x)
      | Inr (ok, d) \<Rightarrow> if ok then Inr d else Inl (Inr (HTTPException 400 ''A valid two-factor code is required'')))"

definition delete_account ::
  "env \<Rightarrow> time \<Rightarrow> request \<Rightarrow> string option \<Rightarrow> string option \<Rightarrow> string \<Rightarrow> deletion_run \<Rightarrow> site \<Rightarrow> string answer" where
  "delete_account e now rq password code confirmation run s = authed e now rq s (\<lambda>auth_user c s. locked_user auth_user s (\<lambda>u.
     if confirmation \<noteq> ''DELETE MY ACCOUNT'' then fail (HTTPException 400 ''Confirmation is incorrect'') s
     else if list_ex (\<lambda>j. j_subject_id j = Some (u_id u)) (jobs (s_db s)) \<and> u_disabled_at u \<noteq> None
     then (Inr ''Account deletion is already in progress.'', clear_cookies e, s)
     else if u_password_enabled u
     then limited e now rq (sensitive_proof (u_id u)) s (\<lambda>s.
       case deletion_proof e now u password code (s_db s) of
         Inl (Inl x) \<Rightarrow> fail x s
       | Inl (Inr x) \<Rightarrow> fail x (commit s (record_event e rq ''account_delete_failed'' (Some (u_id u)) JNull (s_db s)))
       | Inr d \<Rightarrow>
           store_deletion e now run u d (s\<lparr>s_rates := reset_rate_limit e rq (sensitive_proof (u_id u)) (s_rates s)\<rparr>))
     else if \<not> session_has_recent_auth e now c then fail recent_auth_required s
     else store_deletion e now run u (s_db s) s))"

end
