(* ===== verification/Passkeys.thy ===== *)
theory Passkeys
  imports Accounts
begin

text \<open>
  Passkeys: the ceremonies of \<open>services/passkeys.py\<close> (challenges that are created, superseded, cleaned
  up and consumed, options and verification) and the handlers of \<open>api/v1/passkeys.py\<close> (sign-in,
  registration, renaming, deletion, reauthentication).  The WebAuthn library is the field
  \<open>webauthn\<close> of the environment: how it reads the two kinds of credential document and what it verifies.
\<close>

definition from_library :: "'a option \<Rightarrow> exn + 'a" where
  "from_library x = (case x of None \<Rightarrow> Inl (WebAuthnException '''') | Some v \<Rightarrow> Inr v)"

text \<open>What the options handed to the browser contain.\<close>

datatype public_key_options =
    RegistrationOptions string string bytes string string bytes int "bytes list"
  | AuthenticationOptions string bytes int "bytes list option"

section \<open>Encodings\<close>

definition uuid_bytes :: "uuid \<Rightarrow> bytes" where
  "uuid_bytes w = map (\<lambda>k. char_of (unat w div 256 ^ (15 - k) mod 256)) [0..<16]"

section \<open>Challenges\<close>

definition MAX_PASSKEYS_PER_ACCOUNT :: nat where "MAX_PASSKEYS_PER_ACCOUNT = 10"

definition MAX_CHALLENGE_CLEANUP :: nat where "MAX_CHALLENGE_CLEANUP = 100"

definition credential_id_matches :: "string \<Rightarrow> bytes \<Rightarrow> exn + bool" where
  "credential_id_matches i raw = compare_digest i (encode_base64url raw)"

definition mismatch :: exn where
  "mismatch = PasskeyCeremonyError ''Credential id and rawId do not match''"

definition parse_assertion_credential :: "env \<Rightarrow> json \<Rightarrow> exn + assertion" where
  "parse_assertion_credential e document =
     sbind (from_library (wa_parse_authentication (webauthn e) document)) (\<lambda>parsed.
     sbind (credential_id_matches (ac_id parsed) (ac_raw_id parsed)) (\<lambda>same.
     if same then Inr parsed else Inl mismatch))"

definition stale_challenge :: "time \<Rightarrow> challenge \<Rightarrow> bool" where
  "stale_challenge now c \<longleftrightarrow> ch_expires_at c < now - hours 1 \<or> (ch_used_at c \<noteq> None \<and> ch_created_at c < now - days 1)"

definition cleanup_challenges :: "time \<Rightarrow> db \<Rightarrow> nat \<times> db" where
  "cleanup_challenges now d =
     (let ids = map ch_id (take MAX_CHALLENGE_CLEANUP (sort_key ch_created_at (filter (stale_challenge now) (challenges d))))
      in (length ids,
          if ids = [] then d else d\<lparr>challenges := sql_delete (\<lambda>c. ch_id c \<in> set ids) (challenges d)\<rparr>))"

definition insert_challenge :: "challenge \<Rightarrow> db \<Rightarrow> exn + db" where
  "insert_challenge c d =
     (if list_ex (\<lambda>x. ch_id x = ch_id c \<or> ch_challenge x = ch_challenge c) (challenges d)
      then Inl IntegrityError else Inr (d\<lparr>challenges := sql_insert c (challenges d)\<rparr>))"

text \<open>Within one session only the last ceremony of a protected purpose stays usable.\<close>

definition supersede_challenges :: "time \<Rightarrow> challenge_purpose \<Rightarrow> uuid option \<Rightarrow> db \<Rightarrow> db" where
  "supersede_challenges now purpose session_id d =
     (if session_id = None then d
      else d\<lparr>challenges := sql_update (\<lambda>c. ch_session_id c = session_id \<and> ch_purpose c = purpose \<and> ch_used_at c = None)
              (\<lambda>c. c\<lparr>ch_used_at := Some now\<rparr>) (challenges d)\<rparr>)"

text \<open>\<open>fresh\<close> is the identifier and the random challenge.\<close>

definition create_challenge ::
  "env \<Rightarrow> time \<Rightarrow> challenge_purpose \<Rightarrow> uuid option \<Rightarrow> uuid option \<Rightarrow> bool \<Rightarrow> uuid \<times> bytes \<Rightarrow> db \<Rightarrow> exn + challenge \<times> db" where
  "create_challenge e now purpose user_id session_id discoverable fresh d =
     (if purpose = PasskeyAuthentication \<and> session_id \<noteq> None
      then Inl (ValueError ''Login challenges cannot be session-bound'')
      else if purpose \<noteq> PasskeyAuthentication \<and> (user_id = None \<or> session_id = None)
      then Inl (ValueError ''Registration and reauthentication challenges require user and session bindings'')
      else
        (let c = \<lparr>ch_id = fst fresh, ch_user_id = user_id, ch_session_id = session_id, ch_purpose = purpose,
                 ch_challenge = snd fresh, ch_discoverable = (purpose = PasskeyAuthentication \<and> discoverable),
                 ch_expires_at = now + minutes (webauthn_challenge_minutes (cfg e)), ch_used_at = None,
                 ch_created_at = now\<rparr>
         in sbind (insert_challenge c (supersede_challenges now purpose session_id (snd (cleanup_challenges now d))))
              (\<lambda>d. Inr (c, d))))"

text \<open>The use of a challenge stays in the transaction whatever follows.\<close>

definition consume_challenge ::
  "time \<Rightarrow> uuid \<Rightarrow> challenge_purpose \<Rightarrow> uuid option \<Rightarrow> uuid option \<Rightarrow> db \<Rightarrow> (exn + challenge) \<times> db" where
  "consume_challenge now challenge_id purpose user_id session_id d =
     (let bad = (Inl (PasskeyCeremonyError ''Passkey challenge is invalid or expired''), d) in
      case sql_first (\<lambda>c. ch_id c = challenge_id \<and> ch_purpose c = purpose) (challenges d) of
        None \<Rightarrow> bad
      | Some c \<Rightarrow>
          if ch_used_at c \<noteq> None \<or> ch_expires_at c \<le> now \<or> (user_id \<noteq> None \<and> ch_user_id c \<noteq> user_id) \<or>
             (session_id \<noteq> None \<and> ch_session_id c \<noteq> session_id)
          then bad
          else (Inr (c\<lparr>ch_used_at := Some now\<rparr>),
                d\<lparr>challenges := sql_update (\<lambda>x. ch_id x = ch_id c) (\<lambda>x. x\<lparr>ch_used_at := Some now\<rparr>) (challenges d)\<rparr>))"

section \<open>Options and verification\<close>

definition passkeys_of :: "uuid \<Rightarrow> db \<Rightarrow> passkey list" where
  "passkeys_of i d = sort_key pk_created_at (filter (\<lambda>p. pk_user_id p = i) (passkeys d))"

definition ceremony_timeout :: "env \<Rightarrow> int" where
  "ceremony_timeout e = webauthn_challenge_minutes (cfg e) * 60 * 1000"

definition at_most_ten :: string where
  "at_most_ten = ''An account may have at most '' @ dec MAX_PASSKEYS_PER_ACCOUNT @ '' passkeys''"

definition registration_options ::
  "env \<Rightarrow> time \<Rightarrow> user \<Rightarrow> uuid \<Rightarrow> uuid \<times> bytes \<Rightarrow> db \<Rightarrow> exn + (challenge \<times> public_key_options) \<times> db" where
  "registration_options e now u session_id fresh d =
     (let credentials = passkeys_of (u_id u) d in
      if length credentials \<ge> MAX_PASSKEYS_PER_ACCOUNT then Inl (PasskeyCeremonyError at_most_ten)
      else sbind (create_challenge e now PasskeyRegistration (Some (u_id u)) (Some session_id) False fresh d) (\<lambda>(c, d).
        Inr ((c, RegistrationOptions (webauthn_effective_rp_id e) (webauthn_rp_name (cfg e)) (uuid_bytes (u_id u)) (u_email u)
                   (if truthy (u_display_name u) then the (u_display_name u) else u_email u) (ch_challenge c)
                   (ceremony_timeout e) (map pk_credential_id credentials)), d)))"

definition authentication_options ::
  "env \<Rightarrow> time \<Rightarrow> user option \<Rightarrow> bool \<Rightarrow> uuid \<times> bytes \<Rightarrow> db \<Rightarrow> exn + (challenge \<times> public_key_options) \<times> db" where
  "authentication_options e now u discoverable fresh d =
     sbind (create_challenge e now PasskeyAuthentication (if discoverable then None else map_option u_id u) None discoverable
              fresh d) (\<lambda>(c, d).
       Inr ((c, AuthenticationOptions (webauthn_effective_rp_id e) (ch_challenge c) (ceremony_timeout e) None), d))"

definition reauthentication_options ::
  "env \<Rightarrow> time \<Rightarrow> user \<Rightarrow> uuid \<Rightarrow> uuid \<times> bytes \<Rightarrow> db \<Rightarrow> exn + (challenge \<times> public_key_options) \<times> db" where
  "reauthentication_options e now u session_id fresh d =
     (let credentials = passkeys_of (u_id u) d in
      if credentials = [] then Inl (PasskeyCeremonyError ''This account does not have a passkey'')
      else sbind (create_challenge e now PasskeyReauthentication (Some (u_id u)) (Some session_id) False fresh d) (\<lambda>(c, d).
        Inr ((c, AuthenticationOptions (webauthn_effective_rp_id e) (ch_challenge c) (ceremony_timeout e)
                   (Some (map pk_credential_id credentials))), d)))"

definition verify_registration :: "env \<Rightarrow> json \<Rightarrow> challenge \<Rightarrow> exn + attestation \<times> verified_registration" where
  "verify_registration e credential c =
     sbind (from_library (wa_parse_registration (webauthn e) credential)) (\<lambda>parsed.
     sbind (credential_id_matches (rg_id parsed) (rg_raw_id parsed)) (\<lambda>same.
     if \<not> same then Inl mismatch
     else sbind (from_library (wa_verify_registration (webauthn e) parsed (ch_challenge c) (webauthn_effective_rp_id e)
                   (webauthn_origin_list e))) (\<lambda>v. Inr (parsed, v))))"

definition credential_for_assertion :: "env \<Rightarrow> json \<Rightarrow> db \<Rightarrow> exn + assertion \<times> passkey option" where
  "credential_for_assertion e document d =
     sbind (parse_assertion_credential e document) (\<lambda>parsed.
     Inr (parsed, sql_first (\<lambda>p. pk_credential_id p = ac_raw_id parsed) (passkeys d)))"

definition verify_assertion :: "env \<Rightarrow> assertion \<Rightarrow> passkey \<Rightarrow> challenge \<Rightarrow> exn + verified_assertion" where
  "verify_assertion e parsed stored c =
     from_library (wa_verify_authentication (webauthn e) parsed (ch_challenge c) (webauthn_effective_rp_id e) (webauthn_origin_list e)
       (pk_public_key stored) (pk_sign_count stored))"

section \<open>Shared parts of the handlers\<close>

definition user_handle_matches :: "assertion \<Rightarrow> uuid \<Rightarrow> bool \<Rightarrow> bool" where
  "user_handle_matches parsed user_id required =
     (case ac_user_handle parsed of None \<Rightarrow> \<not> required | Some handle \<Rightarrow> handle = uuid_bytes user_id)"

text \<open>\<open>except (PasskeyCeremonyError, WebAuthnException, ValueError, TypeError)\<close>: a failed ceremony is
  recorded and committed with what it consumed.\<close>

definition ceremony_failure :: "exn \<Rightarrow> bool" where
  "ceremony_failure x \<longleftrightarrow>
     exn_name x \<in> {''PasskeyCeremonyError'', ''WebAuthnException'', ''ValueError'', ''TypeError'', ''MediaEncryptionError'',
       ''NodeAttestationError''}"

definition reject_ceremony :: "env \<Rightarrow> request \<Rightarrow> string \<Rightarrow> uuid option \<Rightarrow> int \<Rightarrow> db \<Rightarrow> site \<Rightarrow> 'a answer" where
  "reject_ceremony e rq event user_id code d s =
     fail (HTTPException code ''Passkey verification failed'') (commit s (record_event e rq event user_id JNull d))"

definition ceremony_failed :: "env \<Rightarrow> request \<Rightarrow> string \<Rightarrow> uuid option \<Rightarrow> int \<Rightarrow> exn \<Rightarrow> db \<Rightarrow> site \<Rightarrow> 'a answer" where
  "ceremony_failed e rq event user_id code x d s =
     (if ceremony_failure x then reject_ceremony e rq event user_id code d s else fail x s)"

record passkey_view =
  pv_id :: uuid
  pv_name :: string
  pv_transports :: "string list"
  pv_device_type :: string
  pv_backed_up :: bool
  pv_created_at :: time
  pv_last_used_at :: "time option"

definition passkey_response :: "passkey \<Rightarrow> passkey_view" where
  "passkey_response p = \<lparr>pv_id = pk_id p, pv_name = pk_name p, pv_transports = pk_transports p,
     pv_device_type = pk_device_type p, pv_backed_up = pk_backed_up p, pv_created_at = pk_created_at p,
     pv_last_used_at = pk_last_used_at p\<rparr>"

definition set_passkey :: "uuid \<Rightarrow> (passkey \<Rightarrow> passkey) \<Rightarrow> db \<Rightarrow> db" where
  "set_passkey i g d = d\<lparr>passkeys := sql_update (\<lambda>p. pk_id p = i) g (passkeys d)\<rparr>"

definition use_passkey :: "time \<Rightarrow> passkey \<Rightarrow> verified_assertion \<Rightarrow> db \<Rightarrow> db" where
  "use_passkey now stored v d = set_passkey (pk_id stored)
     (\<lambda>p. p\<lparr>pk_sign_count := int (va_new_sign_count v), pk_device_type := va_device_type v, pk_backed_up := va_backed_up v,
           pk_last_used_at := Some now\<rparr>) d"

definition passkey_detail :: "uuid \<Rightarrow> json" where
  "passkey_detail i = JObj [(''passkey_id'', JStr (uuid_str i))]"

section \<open>Signing in\<close>

definition passkey_login_options ::
  "env \<Rightarrow> time \<Rightarrow> request \<Rightarrow> string option \<Rightarrow> uuid \<times> bytes \<Rightarrow> site \<Rightarrow> (uuid \<times> public_key_options) answer" where
  "passkey_login_options e now rq address fresh s =
     (let email = (if truthy address then Some (lower (strip (the address))) else None);
          identity = (if truthy email then Some (''passkey-email:'' @ the email) else None)
      in limited e now rq identity s (\<lambda>s.
        let candidate = (if truthy email then find_email (s_db s) (the email) else None);
            user = (case candidate of
              Some u \<Rightarrow> if u_disabled_at u = None \<and> u_email_verified_at u \<noteq> None then Some u else None
            | None \<Rightarrow> None)
        in case authentication_options e now user (email = None) fresh (s_db s) of
             Inl x \<Rightarrow> fail x s
           | Inr ((c, options), d) \<Rightarrow> reply (ch_id c, options) (commit s d)))"

text \<open>The checks on an assertion once its challenge is consumed.\<close>

definition check_login ::
  "env \<Rightarrow> assertion \<Rightarrow> passkey \<Rightarrow> user option \<Rightarrow> challenge \<Rightarrow> db \<Rightarrow> exn + user \<times> passkey \<times> verified_assertion" where
  "check_login e parsed candidate u c d =
     (case sql_first (\<lambda>p. pk_id p = pk_id candidate \<and> pk_credential_id p = ac_raw_id parsed \<and>
              pk_user_id p = pk_user_id candidate) (passkeys d) of
        None \<Rightarrow> Inl (PasskeyCeremonyError ''Unknown credential'')
      | Some stored \<Rightarrow>
          if ch_user_id c \<noteq> None \<and> ch_user_id c \<noteq> Some (pk_user_id stored)
          then Inl (PasskeyCeremonyError ''Credential owner does not match email-first challenge'')
          else if ch_user_id c = None \<and> \<not> ch_discoverable c
          then Inl (PasskeyCeremonyError ''Unknown email-first subject'')
          else if \<not> user_handle_matches parsed (pk_user_id stored) (ch_discoverable c)
          then Inl (PasskeyCeremonyError ''Credential user handle is invalid'')
          else (case u of
              None \<Rightarrow> Inl (PasskeyCeremonyError ''Account is unavailable'')
            | Some u \<Rightarrow>
                if u_disabled_at u \<noteq> None \<or> u_email_verified_at u = None
                then Inl (PasskeyCeremonyError ''Account is unavailable'')
                else sbind (verify_assertion e parsed stored c) (\<lambda>v. Inr (u, stored, v))))"

definition passkey_signed_in ::
  "env \<Rightarrow> time \<Rightarrow> request \<Rightarrow> user \<Rightarrow> passkey \<Rightarrow> verified_assertion \<Rightarrow> uuid \<times> string \<Rightarrow> db \<Rightarrow> site \<Rightarrow> token_response answer" where
  "passkey_signed_in e now rq u stored v fresh d s =
     reset_after e rq (Some (''passkey-email:'' @ lower (u_email u)))
       (reset_after e rq (Some (''passkey-account:'' @ uuid_str (u_id u)))
         (issue_session e now rq fresh u ''passkey'' True True
           (record_event e rq ''passkey_login_succeeded'' (Some (u_id u)) (passkey_detail (pk_id stored))
             (use_passkey now stored v d)) s))"

definition passkey_login_verify ::
  "env \<Rightarrow> time \<Rightarrow> request \<Rightarrow> uuid \<Rightarrow> json \<Rightarrow> uuid \<times> string \<Rightarrow> site \<Rightarrow> token_response answer" where
  "passkey_login_verify e now rq challenge_id credential fresh s = from_browser e rq s (limited e now rq None s (\<lambda>s.
     let consume = consume_challenge now challenge_id PasskeyAuthentication None None;
         failed = ceremony_failed e rq ''passkey_login_failed''
     in case parse_assertion_credential e credential of
          Inl x \<Rightarrow> failed None 401 x (snd (consume (s_db s))) s
        | Inr parsed \<Rightarrow>
            (case sql_first (\<lambda>p. pk_credential_id p = ac_raw_id parsed) (passkeys (s_db s)) of
               None \<Rightarrow> failed None 401 (PasskeyCeremonyError ''Unknown credential'') (snd (consume (s_db s))) s
             | Some candidate \<Rightarrow>
                 limited e now rq (Some (''passkey-account:'' @ uuid_str (pk_user_id candidate))) s (\<lambda>s.
                   let u = find_user (s_db s) (pk_user_id candidate) in
                   case consume (s_db s) of
                     (Inl x, d) \<Rightarrow> failed (Some (pk_user_id candidate)) 401 x d s
                   | (Inr c, d) \<Rightarrow>
                       (case check_login e parsed candidate u c d of
                          Inl x \<Rightarrow> failed (Some (pk_user_id candidate)) 401 x d s
                        | Inr (u, stored, v) \<Rightarrow> passkey_signed_in e now rq u stored v fresh d s)))))"

section \<open>Managing passkeys\<close>

definition list_passkeys :: "env \<Rightarrow> time \<Rightarrow> request \<Rightarrow> site \<Rightarrow> passkey_view list answer" where
  "list_passkeys e now rq s = authed e now rq s (\<lambda>u c s. reply (map passkey_response (passkeys_of (u_id u) (s_db s))) s)"

text \<open>A handler that answers with the options of a new challenge.\<close>

definition answer_options :: "exn + (challenge \<times> public_key_options) \<times> db \<Rightarrow> site \<Rightarrow> (uuid \<times> public_key_options) answer" where
  "answer_options r s =
     (case r of
        Inl x \<Rightarrow> fail (case x of PasskeyCeremonyError m \<Rightarrow> HTTPException 409 m | _ \<Rightarrow> x) s
      | Inr ((c, options), d) \<Rightarrow> reply (ch_id c, options) (commit s d))"

definition passkey_registration_options ::
  "env \<Rightarrow> time \<Rightarrow> request \<Rightarrow> uuid \<times> bytes \<Rightarrow> site \<Rightarrow> (uuid \<times> public_key_options) answer" where
  "passkey_registration_options e now rq fresh s = recently_authed e now rq s (\<lambda>auth_user c s. locked_user auth_user s (\<lambda>u.
     limited e now rq (Some (''passkey-registration-options:'' @ uuid_str (u_id u))) s (\<lambda>s.
       answer_options (registration_options e now u (as_id c) fresh (s_db s)) s)))"

definition new_passkey :: "uuid \<Rightarrow> time \<Rightarrow> uuid \<Rightarrow> string \<Rightarrow> attestation \<Rightarrow> verified_registration \<Rightarrow> passkey" where
  "new_passkey i now user_id name parsed v =
     \<lparr>pk_id = i, pk_user_id = user_id, pk_credential_id = vr_credential_id v, pk_public_key = vr_public_key v,
      pk_sign_count = int (vr_sign_count v), pk_name = strip name,
      pk_transports = (case rg_transports parsed of None \<Rightarrow> [] | Some ts \<Rightarrow> ts), pk_aaguid = Some (vr_aaguid v),
      pk_device_type = vr_device_type v, pk_backed_up = vr_backed_up v, pk_last_used_at = None, pk_created_at = now\<rparr>"

definition insert_passkey :: "passkey \<Rightarrow> db \<Rightarrow> exn + db" where
  "insert_passkey p d =
     (if list_ex (\<lambda>q. pk_id q = pk_id p \<or> pk_credential_id q = pk_credential_id p) (passkeys d)
      then Inl IntegrityError else Inr (d\<lparr>passkeys := sql_insert p (passkeys d)\<rparr>))"

text \<open>A verified credential is stored unless it is known or the account has its ten; a refusal is recorded.\<close>

definition store_passkey ::
  "env \<Rightarrow> time \<Rightarrow> request \<Rightarrow> user \<Rightarrow> string \<Rightarrow> uuid \<Rightarrow> attestation \<times> verified_registration \<Rightarrow> db \<Rightarrow> site \<Rightarrow> passkey_view answer" where
  "store_passkey e now rq u name i checked d s =
     (let (parsed, v) = checked;
          refuse = (\<lambda>reason x. fail x (commit s (record_event e rq ''passkey_registration_failed'' (Some (u_id u))
                      (JObj [(''reason'', JStr reason)]) d)));
          known = HTTPException 409 ''Passkey credential is already registered''
      in if sql_first (\<lambda>p. pk_credential_id p = vr_credential_id v) (passkeys d) \<noteq> None then refuse ''duplicate'' known
         else if length (filter (\<lambda>p. pk_user_id p = u_id u) (passkeys d)) \<ge> MAX_PASSKEYS_PER_ACCOUNT
         then refuse ''limit'' (HTTPException 409 at_most_ten)
         else case insert_passkey (new_passkey i now (u_id u) name parsed v) d of
           Inl x \<Rightarrow> refuse ''duplicate'' known
         | Inr d \<Rightarrow>
             reply (passkey_response (new_passkey i now (u_id u) name parsed v))
               (commit s (record_event e rq ''passkey_registered'' (Some (u_id u)) (passkey_detail i) d)))"

definition passkey_registration_verify ::
  "env \<Rightarrow> time \<Rightarrow> request \<Rightarrow> uuid \<Rightarrow> json \<Rightarrow> string \<Rightarrow> uuid \<Rightarrow> site \<Rightarrow> passkey_view answer" where
  "passkey_registration_verify e now rq challenge_id credential name i s =
     recently_authed e now rq s (\<lambda>auth_user current s. locked_user auth_user s (\<lambda>u.
       let identity = Some (''passkey-registration-verify:'' @ uuid_str (u_id u));
           failed = ceremony_failed e rq ''passkey_registration_failed'' (Some (u_id u)) 400
       in limited e now rq identity s (\<lambda>s.
         case consume_challenge now challenge_id PasskeyRegistration (Some (u_id u)) (Some (as_id current)) (s_db s) of
           (Inl x, d) \<Rightarrow> failed x d s
         | (Inr c, d) \<Rightarrow>
             (case verify_registration e credential c of
                Inl x \<Rightarrow> failed x d s
              | Inr checked \<Rightarrow> reset_after e rq identity (store_passkey e now rq u name i checked d s)))))"

definition own_passkey :: "uuid \<Rightarrow> user \<Rightarrow> site \<Rightarrow> (passkey \<Rightarrow> 'a answer) \<Rightarrow> 'a answer" where
  "own_passkey i u s k =
     (case sql_first (\<lambda>p. pk_id p = i \<and> pk_user_id p = u_id u) (passkeys (s_db s)) of
        None \<Rightarrow> fail (HTTPException 404 ''Passkey not found'') s
      | Some p \<Rightarrow> k p)"

definition rename_passkey :: "env \<Rightarrow> time \<Rightarrow> request \<Rightarrow> uuid \<Rightarrow> string \<Rightarrow> site \<Rightarrow> passkey_view answer" where
  "rename_passkey e now rq i name s = recently_authed e now rq s (\<lambda>auth_user c s. locked_user auth_user s (\<lambda>u.
     own_passkey i u s (\<lambda>p.
       reply (passkey_response (p\<lparr>pk_name := strip name\<rparr>))
         (commit s (record_event e rq ''passkey_renamed'' (Some (u_id u)) (passkey_detail (pk_id p))
           (set_passkey (pk_id p) (\<lambda>x. x\<lparr>pk_name := strip name\<rparr>) (s_db s)))))))"

text \<open>Whether the account could still sign in without the passkey.\<close>

definition another_method :: "env \<Rightarrow> user \<Rightarrow> passkey \<Rightarrow> db \<Rightarrow> bool" where
  "another_method e u p d \<longleftrightarrow>
     filter (\<lambda>x. pk_user_id x = u_id u \<and> pk_id x \<noteq> pk_id p) (passkeys d) \<noteq> [] \<or> u_password_enabled u \<or>
     (google_auth_enabled e \<and>
      sql_first (\<lambda>x. ei_user_id x = u_id u \<and> ei_provider x = ''google'') (identities d) \<noteq> None)"

definition delete_passkey :: "env \<Rightarrow> time \<Rightarrow> request \<Rightarrow> uuid \<Rightarrow> site \<Rightarrow> unit answer" where
  "delete_passkey e now rq i s = recently_authed e now rq s (\<lambda>auth_user c s. locked_user auth_user s (\<lambda>u.
     own_passkey i u s (\<lambda>p.
       if \<not> another_method e u p (s_db s)
       then fail (HTTPException 409 ''Add another sign-in method before deleting this passkey'') s
       else
         (let d = record_event e rq ''passkey_deleted'' (Some (u_id u)) (passkey_detail (pk_id p)) (s_db s)
          in reply () (commit s (d\<lparr>passkeys := sql_delete (\<lambda>x. pk_id x = pk_id p) (passkeys d)\<rparr>))))))"

section \<open>Reauthentication\<close>

definition passkey_reauthentication_options ::
  "env \<Rightarrow> time \<Rightarrow> request \<Rightarrow> uuid \<times> bytes \<Rightarrow> site \<Rightarrow> (uuid \<times> public_key_options) answer" where
  "passkey_reauthentication_options e now rq fresh s = authed e now rq s (\<lambda>auth_user c s. locked_user auth_user s (\<lambda>u.
     limited e now rq (Some (''passkey-reauthentication-options:'' @ uuid_str (u_id u))) s (\<lambda>s.
       answer_options (reauthentication_options e now u (as_id c) fresh (s_db s)) s)))"

definition check_reauthentication ::
  "env \<Rightarrow> json \<Rightarrow> user \<Rightarrow> challenge \<Rightarrow> db \<Rightarrow> exn + passkey \<times> verified_assertion" where
  "check_reauthentication e credential u c d =
     sbind (credential_for_assertion e credential d) (\<lambda>(parsed, found).
       case found of
         None \<Rightarrow> Inl (PasskeyCeremonyError ''Credential owner mismatch'')
       | Some stored \<Rightarrow>
           if pk_user_id stored \<noteq> u_id u then Inl (PasskeyCeremonyError ''Credential owner mismatch'')
           else if \<not> user_handle_matches parsed (u_id u) False
           then Inl (PasskeyCeremonyError ''Credential user handle is invalid'')
           else sbind (verify_assertion e parsed stored c) (\<lambda>v. Inr (stored, v)))"

definition passkey_reauthentication_verify ::
  "env \<Rightarrow> time \<Rightarrow> request \<Rightarrow> uuid \<Rightarrow> json \<Rightarrow> site \<Rightarrow> unit answer" where
  "passkey_reauthentication_verify e now rq challenge_id credential s =
     authed e now rq s (\<lambda>auth_user current s. locked_user auth_user s (\<lambda>u.
       let failed = ceremony_failed e rq ''passkey_reauthentication_failed'' (Some (u_id u)) 400
       in limited e now rq (sensitive_proof (u_id u)) s (\<lambda>s.
         case consume_challenge now challenge_id PasskeyReauthentication (Some (u_id u)) (Some (as_id current)) (s_db s) of
           (Inl x, d) \<Rightarrow> failed x d s
         | (Inr c, d) \<Rightarrow>
             (case check_reauthentication e credential u c d of
                Inl x \<Rightarrow> failed x d s
              | Inr (stored, v) \<Rightarrow>
                  reset_after e rq (sensitive_proof (u_id u))
                    (reply () (commit s
                      (record_event e rq ''passkey_reauthentication_succeeded'' (Some (u_id u)) (passkey_detail (pk_id stored))
                        (set_session (as_id current) (\<lambda>x. x\<lparr>as_reauthenticated_at := Some now\<rparr>)
                          (use_passkey now stored v d)))))))))"

end
