(* ===== verification/AccountCalls.thy ===== *)
theory AccountCalls
  imports Passkeys
begin

text \<open>
  The calls of the account interface and what they all keep.  \<open>account_call\<close> names every handler of
  \<open>api/v1/auth.py\<close> and \<open>api/v1/passkeys.py\<close> that changes the state, with its input, and \<open>perform\<close> runs
  one call.  The locale \<open>account_relation\<close> states what the writes of the handlers have to respect; inside
  it every handler, hence every call, is shown to respect it.
\<close>

datatype account_call =
    Register string string string string uuid "uuid \<times> string"
  | VerifyEmail string
  | ResendVerification string "uuid \<times> string"
  | ForgotPassword string "uuid \<times> string"
  | ResetPassword string string string
  | Login bool string string "string option" "uuid \<times> string"
  | Refresh string
  | Logout
  | UpdateProfile string
  | CompleteOnboarding string
  | ChangePassword "string option" string "string option" string
  | ReauthenticatePassword string "string option"
  | RevokeSession uuid
  | SetupMfa string
  | ConfirmMfa string "(uuid \<times> string) list"
  | DisableMfa "string option" "string option"
  | GoogleReauthenticationStart "uuid \<times> string" string
  | GoogleCallback "string option" "string option" "string option" "google_claims option" google_fresh
  | GoogleMfaLogin string "uuid \<times> string"
  | GoogleMfaReauthentication string
  | DeleteAccount "string option" "string option" string deletion_run
  | PasskeyLoginOptions "string option" "uuid \<times> bytes"
  | PasskeyLogin uuid json "uuid \<times> string"
  | PasskeyRegistrationOptions "uuid \<times> bytes"
  | RegisterPasskey uuid json string uuid
  | RenamePasskey uuid string
  | DeletePasskey uuid
  | PasskeyReauthenticationOptions "uuid \<times> bytes"
  | ReauthenticatePasskey uuid json

type_synonym timed_call = "time \<times> request \<times> account_call"

definition outcome :: "'a answer \<Rightarrow> (exn + unit) \<times> site" where
  "outcome a = (case a of (r, _, s) \<Rightarrow> (map_sum id (\<lambda>_. ()) r, s))"

fun perform :: "env \<Rightarrow> timed_call \<Rightarrow> site \<Rightarrow> (exn + unit) \<times> site" where
  "perform e (now, rq, Register email password name salt i fresh) s = outcome (register e now rq email password name salt i fresh s)"
| "perform e (now, rq, VerifyEmail raw) s = outcome (verify_email e now rq raw s)"
| "perform e (now, rq, ResendVerification email fresh) s = outcome (resend_verification e now rq email fresh s)"
| "perform e (now, rq, ForgotPassword email fresh) s = outcome (forgot_password e now rq email fresh s)"
| "perform e (now, rq, ResetPassword raw password salt) s = outcome (reset_password e now rq raw password salt s)"
| "perform e (now, rq, Login browser email password otp fresh) s =
     outcome ((if browser then browser_login else token_login) e now rq email password otp fresh s)"
| "perform e (now, rq, Refresh replacement) s = outcome (refresh_session e now rq replacement s)"
| "perform e (now, rq, Logout) s = outcome (logout e now rq s)"
| "perform e (now, rq, UpdateProfile name) s = outcome (update_profile e now rq name s)"
| "perform e (now, rq, CompleteOnboarding name) s = outcome (complete_onboarding e now rq name s)"
| "perform e (now, rq, ChangePassword current password otp salt) s = outcome (change_password e now rq current password otp salt s)"
| "perform e (now, rq, ReauthenticatePassword password otp) s = outcome (reauthenticate_password e now rq password otp s)"
| "perform e (now, rq, RevokeSession i) s = outcome (revoke_session e now rq i s)"
| "perform e (now, rq, SetupMfa secret) s = outcome (setup_mfa e now rq secret s)"
| "perform e (now, rq, ConfirmMfa code codes) s = outcome (confirm_mfa e now rq code codes s)"
| "perform e (now, rq, DisableMfa password code) s = outcome (disable_mfa e now rq password code s)"
| "perform e (now, rq, GoogleReauthenticationStart fresh nonce) s = outcome (google_reauthentication_start e now rq fresh nonce s)"
| "perform e (now, rq, GoogleCallback code state error exchange fresh) s =
     outcome (google_callback e now rq code state error exchange fresh s)"
| "perform e (now, rq, GoogleMfaLogin code fresh) s = outcome (complete_google_mfa_login e now rq code fresh s)"
| "perform e (now, rq, GoogleMfaReauthentication code) s = outcome (complete_google_mfa_reauthentication e now rq code s)"
| "perform e (now, rq, DeleteAccount password code confirmation run) s =
     outcome (delete_account e now rq password code confirmation run s)"
| "perform e (now, rq, PasskeyLoginOptions address fresh) s = outcome (passkey_login_options e now rq address fresh s)"
| "perform e (now, rq, PasskeyLogin i credential fresh) s = outcome (passkey_login_verify e now rq i credential fresh s)"
| "perform e (now, rq, PasskeyRegistrationOptions fresh) s = outcome (passkey_registration_options e now rq fresh s)"
| "perform e (now, rq, RegisterPasskey i credential name new) s =
     outcome (passkey_registration_verify e now rq i credential name new s)"
| "perform e (now, rq, RenamePasskey i name) s = outcome (rename_passkey e now rq i name s)"
| "perform e (now, rq, DeletePasskey i) s = outcome (delete_passkey e now rq i s)"
| "perform e (now, rq, PasskeyReauthenticationOptions fresh) s = outcome (passkey_reauthentication_options e now rq fresh s)"
| "perform e (now, rq, ReauthenticatePasskey i credential) s = outcome (passkey_reauthentication_verify e now rq i credential s)"

text \<open>The digests of the links a call may insert, the sessions it may open and the challenges it may create.\<close>

fun minted_by :: "env \<Rightarrow> account_call \<Rightarrow> string list" where
  "minted_by e (Register email password name salt i fresh) = [token_digest e (snd fresh)]"
| "minted_by e (ResendVerification email fresh) = [token_digest e (snd fresh)]"
| "minted_by e (ForgotPassword email fresh) = [token_digest e (snd fresh)]"
| "minted_by e (GoogleReauthenticationStart fresh nonce) = [token_digest e (''reauth.'' @ snd fresh)]"
| "minted_by e (GoogleCallback code state error exchange fresh) = [token_digest e (snd (gf_token fresh))]"
| "minted_by e _ = []"

fun opened_by :: "account_call \<Rightarrow> uuid list" where
  "opened_by (Login browser email password otp fresh) = [fst fresh]"
| "opened_by (GoogleCallback code state error exchange fresh) = [fst (gf_session fresh)]"
| "opened_by (GoogleMfaLogin code fresh) = [fst fresh]"
| "opened_by (PasskeyLogin i credential fresh) = [fst fresh]"
| "opened_by _ = []"

fun asked_by :: "account_call \<Rightarrow> uuid list" where
  "asked_by (PasskeyLoginOptions address fresh) = [fst fresh]"
| "asked_by (PasskeyRegistrationOptions fresh) = [fst fresh]"
| "asked_by (PasskeyReauthenticationOptions fresh) = [fst fresh]"
| "asked_by _ = []"

section \<open>What an answer leaves\<close>

text \<open>The site an answer leaves, and rules for the guards: a relation between the database before and
  after holds of a guarded handler if it holds of its body, of its failures and of the activity a
  session records.\<close>

definition after :: "'a answer \<Rightarrow> site" where
  "after a = snd (snd a)"

lemma outcome_simps [simp]:
  "snd (outcome a) = after a" "fst (outcome a) = Inl x \<longleftrightarrow> fst a = Inl x" "fst (outcome a) = Inr v \<longleftrightarrow> (\<exists>w. fst a = Inr w)"
  by (cases a; cases "fst a"; simp add: outcome_def after_def)+

lemma after_simps [simp]:
  "after (fail x s) = s" "after (reply v s) = s" "after (problem x cs s) = s" "after (r, cs, s) = s"
  "s_db (after (reset_after e rq i a)) = s_db (after a)" "after (google_mfa_problem e x s) = s"
  by (auto simp: after_def fail_def reply_def problem_def reset_after_def google_mfa_problem_def
      split: prod.splits sum.splits)

lemma after_on_success [simp]: "after (on_success f g a) = after a" "fst (on_success f g a) = map_sum id f (fst a)"
  by (auto simp: after_def on_success_def split: prod.splits sum.splits)

lemma after_redirect [simp]: "after (redirected e dest s) = s" "after (reauth_error e code s) = s"
  by (simp_all add: redirected_def reauth_error_def)

lemma mail_simps [simp]:
  "s_db (deliver_account_email e to subject body s) = s_db s" "s_ledger (deliver_account_email e to subject body s) = s_ledger s"
  by (simp_all add: deliver_account_email_def)

section \<open>What every call keeps\<close>

text \<open>A challenge bound the way its purpose requires, as the check constraint of its table states it.\<close>

definition bound_challenge :: "challenge \<Rightarrow> bool" where
  "bound_challenge c \<longleftrightarrow> (if ch_purpose c = PasskeyAuthentication then ch_session_id c = None
     else ch_session_id c \<noteq> None \<and> ch_user_id c \<noteq> None)"

text \<open>What no write does to the row of an account: change its identifier, enable or disable it, or take its
  password away.\<close>

definition same_account :: "user \<Rightarrow> user \<Rightarrow> bool" where
  "same_account u v \<longleftrightarrow> u_id v = u_id u \<and> u_disabled_at v = u_disabled_at u \<and> (u_password_enabled u \<longrightarrow> u_password_enabled v)"

definition same_passkey :: "passkey \<Rightarrow> passkey \<Rightarrow> bool" where
  "same_passkey p q \<longleftrightarrow> pk_id q = pk_id p \<and> pk_user_id q = pk_user_id p \<and> pk_credential_id q = pk_credential_id p \<and>
     (0 \<le> pk_sign_count p \<longrightarrow> 0 \<le> pk_sign_count q)"

lemmas same_row_defs [simp] = same_account_def same_passkey_def

lemma password_rows [simp]:
  "u_id (set_password e now salt password u) = u_id u" "u_disabled_at (set_password e now salt password u) = u_disabled_at u"
  "u_password_enabled (set_password e now salt password u)"
  "u_password_enabled (new_user i email hash enabled set_at name verified now) = enabled"
  "u_id (new_user i email hash enabled set_at name verified now) = i"
  by (simp_all add: set_password_def new_user_def)

text \<open>A relation between the database before and after that all the writes of the handlers respect: those
  that insert a link whose digest is \<open>mintable\<close>, open a session whose identifier is \<open>openable\<close>, create a
  challenge whose identifier is \<open>askable\<close>, or write in place.  Every handler then respects it.\<close>

locale account_relation =
  fixes R :: "db \<Rightarrow> db \<Rightarrow> bool"
    and mintable :: "string \<Rightarrow> bool"
    and openable :: "uuid \<Rightarrow> bool"
    and askable :: "uuid \<Rightarrow> bool"
  assumes same: "R d d"
    and chain: "R a b \<Longrightarrow> R b c \<Longrightarrow> R a c"
    and accounts: "(\<And>u. same_account u (g u)) \<Longrightarrow> R d (set_account i g d)"
    and sessions: "(\<And>x. as_id (h x) = as_id x) \<Longrightarrow> R d (d\<lparr>auth_sessions := sql_update P h (auth_sessions d)\<rparr>)"
    and spent: "R d (d\<lparr>account_tokens := sql_update Q (\<lambda>t. t\<lparr>at_used_at := Some now\<rparr>) (account_tokens d)\<rparr>)"
    and events: "R d (record_event e rq event user_id detail d)"
    and codes: "R d (d\<lparr>recovery_codes := rs\<rparr>)"
    and minted: "insert_token t d = Inr d' \<Longrightarrow> mintable (at_token_hash t) \<Longrightarrow> R d d'"
    and opened: "insert_session x d = Inr d' \<Longrightarrow> openable (as_id x) \<Longrightarrow> R d d'"
    and registered: "insert_user u d = Inr d' \<Longrightarrow> u_password_enabled u \<Longrightarrow> R d d'"
    and linked: "link_identity j subject email d = Inr d' \<Longrightarrow> R d d'"
    and adopted: "insert_user u d = Inr a \<Longrightarrow> link_identity (u_id u) subject email a = Inr d' \<Longrightarrow> R d d'"
    and staged: "R d (snd (prepare_account_deletion e now job nonce u d))"
    and published: "R d (record_account_deletion_publish e now job ok d)"
    and challenged: "insert_challenge ch d = Inr d' \<Longrightarrow> askable (ch_id ch) \<Longrightarrow> bound_challenge ch \<Longrightarrow> R d d'"
    and answered: "R d (d\<lparr>challenges := sql_update F (\<lambda>ch. ch\<lparr>ch_used_at := Some now\<rparr>) (challenges d)\<rparr>)"
    and cleaned: "R d (d\<lparr>challenges := sql_delete F (challenges d)\<rparr>)"
    and used_passkey: "(\<And>p. same_passkey p (k p)) \<Longrightarrow> R d (set_passkey i k d)"
    and added_passkey: "insert_passkey p d = Inr d' \<Longrightarrow> 0 \<le> pk_sign_count p \<Longrightarrow>
      length (filter (\<lambda>q. pk_user_id q = pk_user_id p) (passkeys d)) < MAX_PASSKEYS_PER_ACCOUNT \<Longrightarrow> R d d'"
    and removed_passkey: "find_user d (u_id u) = Some u \<Longrightarrow> p \<in> set (passkeys d) \<Longrightarrow> pk_user_id p = u_id u \<Longrightarrow>
      another_method e u p d \<Longrightarrow> R d (d\<lparr>passkeys := sql_delete (\<lambda>x. pk_id x = pk_id p) (passkeys d)\<rparr>)"
begin

lemma factor: "verify_second_factor e now u code d = Inr (b, d') \<Longrightarrow> R d d'"
  by (auto simp: verify_second_factor_def check_factor_def use_totp_step_def use_recovery_code_def same accounts codes
      split: if_splits option.splits sum.splits)

lemma proof_of_password: "password_and_factor e now u password otp d = Inr (b, d') \<Longrightarrow> R d d'"
  by (auto simp: password_and_factor_def same factor split: option.splits if_splits)

lemma replayed: "reconcile_suppression_ledger e l nonce d = (r, d') \<Longrightarrow> R d d'"
proof -
  have "reconcile_records e nonce fp ms d = (r, d') \<Longrightarrow> R d d'" for fp ms
  proof (induction e nonce fp ms d arbitrary: r d' rule: reconcile_records.induct)
    case (2 e nonce fp m ms d)
    then show ?case
      by (auto simp: same split: option.splits prod.splits sum.splits) (meson chain staged)+
  qed (simp add: same)
  then show "reconcile_suppression_ledger e l nonce d = (r, d') \<Longrightarrow> R d d'"
    by (auto simp: reconcile_suppression_ledger_def same split: sum.splits)
qed

lemma touched: "R d (touch_session now x i d)"
  by (simp add: touch_session_def same sessions)

lemma token_created:
  "create_account_token e now i purpose lifetime sid fresh d = Inr d' \<Longrightarrow> mintable (token_digest e (snd fresh)) \<Longrightarrow> R d d'"
  unfolding create_account_token_def by (rule chain [OF spent minted], assumption, simp)

lemma current: "current_auth e now rq l d = (r, d') \<Longrightarrow> R d d'"
  by (auto simp: current_auth_def same touched split: option.splits if_splits sum.splits prod.splits)

text \<open>The rules for the guards.\<close>

definition keeps :: "site \<Rightarrow> 'a answer \<Rightarrow> bool" where
  "keeps s a \<longleftrightarrow> R (s_db s) (s_db (after a))"

lemma keeps_here: "R (s_db s) (s_db (after a)) \<Longrightarrow> keeps s a"
  by (simp add: keeps_def)

lemma keeps_limited: "(\<And>r. keeps s (k (s\<lparr>s_rates := r\<rparr>))) \<Longrightarrow> keeps s (limited e now rq i s k)"
  by (auto simp: limited_def keeps_def same split: prod.splits sum.splits)

lemma keeps_authed: "(\<And>u c d. keeps (commit s d) (k u c (commit s d))) \<Longrightarrow> keeps s (authed e now rq s k)"
  by (auto simp: authed_def keeps_def split: prod.splits sum.splits intro: chain [OF current] dest: current)

lemma keeps_recently_authed:
  "(\<And>u c d. keeps (commit s d) (k u c (commit s d))) \<Longrightarrow> keeps s (recently_authed e now rq s k)"
  by (auto simp: recently_authed_def require_recent_auth_def keeps_def split: prod.splits sum.splits if_splits
      intro: chain [OF current] dest: current)

lemma keeps_locked: "(\<And>v. keeps s (k v)) \<Longrightarrow> keeps s (locked_user u s k)"
  by (auto simp: locked_user_def keeps_def same split: option.splits)

lemma keeps_from_browser: "keeps s a \<Longrightarrow> keeps s (from_browser e rq s a)"
  by (auto simp: from_browser_def keeps_def same split: sum.splits)

lemma keeps_reset: "keeps s a \<Longrightarrow> keeps s (reset_after e rq i a)"
  by (simp add: keeps_def)

lemma keeps_issued:
  assumes "R (s_db s) d" "openable (fst fresh)"
  shows "keeps s (issue_session e now rq fresh u authentication_method cookies recent d s)"
proof (cases "reject_suppressed_account e (s_ledger s) (u_id u)")
  case (Inr v)
  show ?thesis
  proof (cases "insert_session (new_session e now rq fresh (u_id u) cookies recent) d")
    case (Inr d1)
    then have "R d d1" using opened [OF Inr] assms(2) by (simp add: new_session_def)
    with assms(1) have "R (s_db s) d1" by (rule chain)
    then show ?thesis
      using Inr \<open>reject_suppressed_account e (s_ledger s) (u_id u) = Inr v\<close>
      by (auto simp: keeps_def issue_session_def Let_def intro: chain [OF _ events])
  qed (use Inr in \<open>simp add: keeps_def issue_session_def same\<close>)
qed (simp add: keeps_def issue_session_def same)

lemma issued:
  "s_db s = d0 \<Longrightarrow> R d0 d \<Longrightarrow> openable (fst fresh) \<Longrightarrow>
   R d0 (s_db (after (issue_session e now rq fresh u authentication_method cookies recent d s)))"
  by (metis keeps_issued keeps_def)

lemma set_session_kept: "(\<And>x. as_id (h x) = as_id x) \<Longrightarrow> R d (set_session i h d)"
  by (simp add: set_session_def sessions)

lemma revoked_kept: "R d (revoke_sessions now i kept d)"
  by (simp add: revoke_sessions_def sessions)

lemma used_kept: "R d (use_token now t d)"
  by (simp add: use_token_def spent)

lemma codes_kept: "R d (spend_codes now i d)" "R d (add_codes e i cs d)"
  by (simp_all add: spend_codes_def add_codes_def codes)

lemmas guards = keeps_limited keeps_authed keeps_recently_authed keeps_locked keeps_from_browser keeps_reset

lemmas writes = accounts events set_session_kept revoked_kept used_kept codes_kept

text \<open>The handlers, one by one.\<close>

lemma keeps_register:
  "mintable (token_digest e (snd fresh)) \<Longrightarrow> keeps s (register e now rq email password name salt i fresh s)"
  unfolding register_def Let_def
  by (intro guards keeps_here)
    (auto simp: same sbind_Inr_iff split: sum.splits intro: chain [OF registered chain [OF token_created events]])

lemma keeps_verify_email: "keeps s (verify_email e now rq raw s)"
  by (auto simp: verify_email_def keeps_def same split: sum.splits option.splits
      intro: chain [OF accounts chain [OF used_kept events]])

lemma keeps_resend:
  "mintable (token_digest e (snd fresh)) \<Longrightarrow> keeps s (resend_verification e now rq email fresh s)"
  unfolding resend_verification_def Let_def
  by (intro guards keeps_here) (auto simp: same split: option.splits sum.splits intro: token_created)

lemma keeps_forgot:
  "mintable (token_digest e (snd fresh)) \<Longrightarrow> keeps s (forgot_password e now rq email fresh s)"
  unfolding forgot_password_def Let_def
  by (intro guards keeps_here) (auto simp: same split: option.splits sum.splits intro: chain [OF token_created events])

lemma keeps_reset_password: "keeps s (reset_password e now rq raw password salt s)"
  by (auto simp: reset_password_def keeps_def same Let_def split: sum.splits option.splits
      intro: chain [OF accounts chain [OF used_kept chain [OF spent chain [OF revoked_kept events]]]])

lemma keeps_login:
  "openable (fst fresh) \<Longrightarrow> keeps s (password_login e now rq browser email password otp fresh s)"
  unfolding password_login_def Let_def
  by (intro guards keeps_here)
    (auto simp: same events split: option.splits sum.splits bool.splits
      intro!: issued intro: factor chain [OF factor events] chain [OF factor accounts])

lemma keeps_refresh: "keeps s (refresh_session e now rq replacement s)"
  unfolding refresh_session_def keeps_def Let_def
  by (simp add: same set_session_kept split: option.split sum.split)

lemma keeps_logout: "keeps s (logout e now rq s)"
  unfolding logout_def keeps_def Let_def by (simp add: same set_session_kept split: option.split)

lemma keeps_profile: "keeps s (update_profile e now rq name s)" "keeps s (complete_onboarding e now rq name s)"
  unfolding update_profile_def complete_onboarding_def Let_def
  by (intro guards keeps_here; auto intro: chain [OF accounts events])+

lemma stored_password: "R d (store_password e now rq u c new_password salt d)"
  unfolding store_password_def
  by (rule chain [OF accounts chain [OF set_session_kept chain [OF revoked_kept events]]]) simp_all

lemma keeps_change_password: "keeps s (change_password e now rq current_password new_password otp salt s)"
  unfolding change_password_def
  by (intro guards keeps_here)
    (auto simp: limited_def same stored_password split: sum.splits prod.splits bool.splits
      intro: chain [OF proof_of_password events] chain [OF proof_of_password stored_password])

lemma keeps_reauthenticate: "keeps s (reauthenticate_password e now rq password otp s)"
  unfolding reauthenticate_password_def
  by (intro guards keeps_here)
    (auto simp: limited_def same split: sum.splits prod.splits bool.splits
      intro: chain [OF proof_of_password events] chain [OF proof_of_password chain [OF set_session_kept events]])

lemma keeps_revoke: "keeps s (revoke_session e now rq i s)"
  unfolding revoke_session_def
  by (intro guards keeps_here) (auto simp: same split: option.splits intro: chain [OF set_session_kept events])

lemma keeps_setup: "keeps s (setup_mfa e now rq secret s)"
  unfolding setup_mfa_def by (intro guards keeps_here) (simp add: accounts)

lemma keeps_confirm: "keeps s (confirm_mfa e now rq code cs s)"
  unfolding confirm_mfa_def Let_def
  by (intro guards keeps_here)
    (auto simp: same events split: sum.splits
      intro!: chain [OF accounts chain [OF codes_kept(1) chain [OF codes_kept(2) chain [OF set_session_kept events]]]])

lemma dropped_mfa: "R d (drop_mfa e now rq u c d)"
  unfolding drop_mfa_def by (rule chain [OF accounts chain [OF set_session_kept chain [OF codes_kept(1) events]]]) simp_all

lemma keeps_disable: "keeps s (disable_mfa e now rq password code s)"
  unfolding disable_mfa_def
  by (intro guards keeps_here)
    (auto simp: limited_def same dropped_mfa split: sum.splits prod.splits bool.splits
      intro: chain [OF proof_of_password events] chain [OF proof_of_password dropped_mfa])

lemma keeps_google_start:
  "mintable (token_digest e (''reauth.'' @ snd fresh)) \<Longrightarrow> keeps s (google_reauthentication_start e now rq fresh nonce s)"
  unfolding google_reauthentication_start_def Let_def
  by (intro guards keeps_here)
    (auto simp: same split: sum.splits prod.splits intro: chain [OF minted events])

lemma keeps_mfa_required:
  "R (s_db s) d \<Longrightarrow> mintable (token_digest e (snd fresh)) \<Longrightarrow>
   keeps s (google_mfa_required e now rq u purpose mode sid fresh d s)"
  by (auto simp: google_mfa_required_def keeps_def same split: sum.splits prod.splits
      intro: chain [OF _ chain [OF token_created events]])

lemma keeps_google_reauthenticate:
  assumes "mintable (token_digest e (snd fresh))"
  shows "keeps s (google_reauthenticate e now rq t subject fresh s)"
proof -
  have "R d (record_event e rq event i detail (use_token now t (set_session c (\<lambda>x. x\<lparr>as_reauthenticated_at := Some now\<rparr>) d)))"
    for d event i detail c
    by (rule chain [OF set_session_kept chain [OF used_kept events]]) simp
  then show ?thesis
    using keeps_mfa_required [OF used_kept assms]
    by (auto simp: google_reauthenticate_def Let_def keeps_def same split: option.splits)
qed

lemma google_account_kept:
  assumes "google_account e now subject email name i salt password d = Inr (u, d')"
  shows "R d d'"
proof -
  consider (old) "d' = d" | (added) v :: user and a where "insert_user v d = Inr a" "link_identity (u_id v) subject email a = Inr d'"
    | (joined) v :: user where "link_identity (u_id v) subject email
        (set_account (u_id v) (\<lambda>u. if u_email_verified_at u = None then u\<lparr>u_email_verified_at := Some now\<rparr> else u) d) = Inr d'"
    using assms by (auto simp: google_account_def Let_def sbind_Inr_iff split: option.splits)
  then show ?thesis
  proof cases
    case added
    then show ?thesis by (rule adopted)
  next
    case joined
    then show ?thesis by (rule chain [OF accounts linked, rotated]) simp
  qed (simp add: same)
qed

lemma keeps_google_sign_in:
  assumes "mintable (token_digest e (snd (gf_token fresh)))" "openable (fst (gf_session fresh))"
  shows "keeps s (google_sign_in e now rq subject email name fresh s)"
proof (cases "google_account e now subject email name (gf_user_id fresh) (gf_salt fresh) (gf_password fresh) (s_db s)")
  case (Inr r)
  obtain u d where r: "r = (u, d)" by (rule prod.exhaust)
  have d: "R (s_db s) d" using google_account_kept Inr r by blast
  have "R (s_db s) (s_db (after (issue_session e now rq (gf_session fresh) u ''google'' True False
      (record_event e rq ''google_login_succeeded'' (Some (u_id u)) JNull d) s)))"
    by (rule issued [OF refl chain [OF d events] assms(2)])
  then show ?thesis
    using Inr r keeps_mfa_required [OF d assms(1)] by (simp add: google_sign_in_def keeps_def same)
qed (simp add: google_sign_in_def keeps_def same)

lemma keeps_google_callback:
  assumes "mintable (token_digest e (snd (gf_token fresh)))" "openable (fst (gf_session fresh))"
  shows "keeps s (google_callback e now rq code state error exchange fresh s)"
proof -
  have here: "keeps s (fail x s)" "keeps s (redirected e dest s)" "keeps s (reauth_error e m s)" for x dest m
    by (simp_all add: keeps_def same)
  show ?thesis
    unfolding google_callback_def
    using keeps_google_sign_in [OF assms] keeps_google_reauthenticate [OF assms(1)] here
    by (auto split: option.split sum.split prod.split)
qed

lemma consumed:
  "consume_google_mfa_transaction e now rq purpose s = (r, s') \<Longrightarrow>
   R (s_db s) (s_db s') \<and> (\<forall>u c d. r = Some (u, c, d) \<longrightarrow> R (s_db s) d \<and> s' = s)"
  by (auto simp: consume_google_mfa_transaction_def Let_def same used_kept split: option.splits if_splits)

lemma keeps_consumed:
  assumes "\<And>u c d. R (s_db s) d \<Longrightarrow> keeps s (k u c d s)" "\<And>s'. keeps s' (no s')"
  shows "keeps s (case consume_google_mfa_transaction e now rq purpose s of
      (None, s) \<Rightarrow> no s | (Some (u, c, d), s) \<Rightarrow> k u c d s)"
proof (cases "consume_google_mfa_transaction e now rq purpose s")
  case (Pair r s')
  from consumed [OF Pair] assms show ?thesis
    unfolding Pair by (auto simp: keeps_def split: option.split intro: chain)
qed

lemma keeps_google_mfa_login:
  assumes "openable (fst fresh)"
  shows "keeps s (complete_google_mfa_login e now rq code fresh s)"
  unfolding complete_google_mfa_login_def
  by (intro keeps_from_browser keeps_consumed [where k = "\<lambda>u c d s. limited e now rq (sensitive_proof (u_id u)) s (K u d)" for K]
      keeps_limited keeps_here)
    (auto simp: same split: sum.splits prod.splits bool.splits intro!: issued assms
      intro: chain [OF _ chain [OF factor events]])

lemma keeps_google_mfa_reauthentication: "keeps s (complete_google_mfa_reauthentication e now rq code s)"
  unfolding complete_google_mfa_reauthentication_def
  by (intro keeps_from_browser keeps_consumed [where k = "\<lambda>u c d s. limited e now rq (sensitive_proof (u_id u)) s (K u c d)" for K]
      keeps_limited keeps_here)
    (auto simp: same split: sum.splits prod.splits bool.splits option.splits
      intro: chain [OF _ factor] chain [OF _ chain [OF factor events]]
        chain [OF _ chain [OF factor chain [OF set_session_kept events]]])

lemma keeps_deletion:
  assumes "R (s_db s) d"
  shows "keeps s (store_deletion e now run u d s)"
proof -
  obtain j d1 where p: "prepare_account_deletion e now (dl_job_id run) (dl_nonce run) u d = (j, d1)" by (rule prod.exhaust)
  have d1: "R (s_db s) d1" using chain [OF assms staged] p by (metis snd_conv)
  obtain r l where w: "write_suppression_marker e (s_files s) (j_id j) (u_id u) (j_requested_at j) (s_ledger s) = (r, l)"
    by (rule prod.exhaust)
  obtain q d2 where c: "reconcile_suppression_ledger e l (dl_replay_nonce run) (s_db s) = (q, d2)" by (rule prod.exhaust)
  have "R (s_db s) d2" using replayed [OF c] .
  then show ?thesis
    using chain [OF d1 published] d1
    by (auto simp: store_deletion_def p w c Let_def keeps_def same split: sum.split option.split)
qed

lemma deletion_proved: "deletion_proof e now u password code d = Inr d' \<Longrightarrow> R d d'"
  by (auto simp: deletion_proof_def same factor split: if_splits sum.splits)

lemma keeps_if: "keeps s x \<Longrightarrow> keeps s y \<Longrightarrow> keeps s (if c then x else y)"
  by simp

lemma keeps_delete_account: "keeps s (delete_account e now rq password code confirmation run s)"
proof -
  have stored: "s_db s = d0 \<Longrightarrow> R d0 d \<Longrightarrow> R d0 (s_db (after (store_deletion e now run u d s)))" for s d0 u d
    using keeps_deletion by (metis keeps_def)
  show ?thesis
    unfolding delete_account_def
    by (intro keeps_authed keeps_locked keeps_if keeps_limited keeps_deletion keeps_here)
      (auto simp: same events split: sum.split intro!: stored intro: deletion_proved)
qed

text \<open>The passkey ceremonies.\<close>

lemma challenge_created:
  assumes "create_challenge e now purpose i sid discoverable fresh d = Inr (c, d')" "askable (fst fresh)"
  shows "R d d'"
proof -
  have "R d (snd (cleanup_challenges now d))" for d by (simp add: cleanup_challenges_def Let_def same cleaned)
  moreover have "R d (supersede_challenges now purpose sid d)" for d by (simp add: supersede_challenges_def same answered)
  ultimately have "R d (supersede_challenges now purpose sid (snd (cleanup_challenges now d)))" by (rule chain)
  moreover have "insert_challenge c (supersede_challenges now purpose sid (snd (cleanup_challenges now d))) = Inr d'"
    "ch_id c = fst fresh" "bound_challenge c"
    using assms(1) by (auto simp: create_challenge_def Let_def sbind_Inr_iff bound_challenge_def split: if_splits)
  ultimately show ?thesis using challenged assms(2) chain by metis
qed

lemma challenge_consumed: "consume_challenge now i purpose u sid d = (r, d') \<Longrightarrow> R d d'"
  by (auto simp: consume_challenge_def Let_def same answered split: option.splits if_splits)

lemma consumption: "R d (snd (consume_challenge now i purpose u sid d))"
  by (metis challenge_consumed prod.collapse)

lemma options_asked:
  "registration_options e now u sid fresh d = Inr (c, d') \<Longrightarrow> askable (fst fresh) \<Longrightarrow> R d d'"
  "authentication_options e now v discoverable fresh d = Inr (c, d') \<Longrightarrow> askable (fst fresh) \<Longrightarrow> R d d'"
  "reauthentication_options e now u sid fresh d = Inr (c, d') \<Longrightarrow> askable (fst fresh) \<Longrightarrow> R d d'"
  by (auto simp: registration_options_def authentication_options_def reauthentication_options_def Let_def sbind_Inr_iff
      split: if_splits intro: challenge_created)

lemma keeps_ceremony_failed: "R (s_db s) d \<Longrightarrow> keeps s (ceremony_failed e rq event i code x d s)"
  by (auto simp: ceremony_failed_def reject_ceremony_def keeps_def same intro: chain [OF _ events])

lemma keeps_limited_site: "(\<And>r. keeps (s\<lparr>s_rates := r\<rparr>) (k (s\<lparr>s_rates := r\<rparr>))) \<Longrightarrow> keeps s (limited e now rq i s k)"
  by (rule keeps_limited) (simp add: keeps_def)

lemma keeps_locked_row:
  assumes "\<And>v. find_user (s_db s) (u_id v) = Some v \<Longrightarrow> keeps s (k v)"
  shows "keeps s (locked_user u s k)"
proof (cases "find_user (s_db s) (u_id u)")
  case (Some v)
  then have "u_id v = u_id u" by (auto simp: find_user_def dest: sql_first_SomeD)
  with Some assms show ?thesis by (simp add: locked_user_def)
qed (simp add: locked_user_def keeps_def same)

lemma keeps_own:
  "(\<And>p. p \<in> set (passkeys (s_db s)) \<Longrightarrow> pk_user_id p = u_id u \<Longrightarrow> keeps s (k p)) \<Longrightarrow> keeps s (own_passkey i u s k)"
  by (auto simp: own_passkey_def keeps_def same split: option.split dest: sql_first_SomeD)

lemma keeps_answer: "(\<And>c d. r = Inr (c, d) \<Longrightarrow> R (s_db s) d) \<Longrightarrow> keeps s (answer_options r s)"
  by (auto simp: answer_options_def keeps_def same split: sum.split)

lemma keeps_passkey_login_options: "askable (fst fresh) \<Longrightarrow> keeps s (passkey_login_options e now rq address fresh s)"
  unfolding passkey_login_options_def Let_def
  by (intro keeps_limited keeps_here) (auto simp: same split: sum.split prod.split intro: options_asked)

lemma keeps_passkey_login:
  assumes "openable (fst fresh)"
  shows "keeps s (passkey_login_verify e now rq i credential fresh s)"
proof -
  have signed: "keeps s (passkey_signed_in e now rq u stored v fresh d s)" if "R (s_db s) d" for s u stored v d
    unfolding passkey_signed_in_def
    by (intro keeps_reset keeps_issued assms chain [OF chain [OF that] events]) (simp add: use_passkey_def used_passkey)
  show ?thesis
    unfolding passkey_login_verify_def Let_def
    by (intro keeps_from_browser keeps_limited_site; auto split: sum.split option.split prod.split
      intro!: keeps_ceremony_failed keeps_limited_site signed consumption; rule challenge_consumed; assumption)
qed

lemma keeps_registration_options: "askable (fst fresh) \<Longrightarrow> keeps s (passkey_registration_options e now rq fresh s)"
  unfolding passkey_registration_options_def
  by (intro keeps_recently_authed keeps_locked keeps_limited_site keeps_answer) (auto intro: options_asked)

lemma keeps_store_passkey: "R (s_db s) d \<Longrightarrow> keeps s (store_passkey e now rq u name i checked d s)"
  by (cases checked)
    (auto simp: store_passkey_def Let_def keeps_def new_passkey_def not_le split: sum.split
      intro: chain [OF _ events] chain [OF _ chain [OF added_passkey events]])

lemma keeps_register_passkey: "keeps s (passkey_registration_verify e now rq i credential name new s)"
  unfolding passkey_registration_verify_def Let_def
  by (intro keeps_recently_authed keeps_locked keeps_limited_site)
    (auto split: sum.split prod.split intro!: keeps_ceremony_failed keeps_reset keeps_store_passkey intro: challenge_consumed)

lemma keeps_rename_passkey: "keeps s (rename_passkey e now rq i name s)"
  unfolding rename_passkey_def
  by (intro keeps_recently_authed keeps_locked keeps_own keeps_here) (auto intro!: chain [OF used_passkey events])

lemma event_passkeys: "passkeys (record_event e rq event j detail d) = passkeys d"
  by (simp add: record_event_def split: prod.split)

lemma keeps_delete_passkey: "keeps s (delete_passkey e now rq i s)"
proof -
  have removed: "R d (record_event e rq event j detail d\<lparr>passkeys := sql_delete (\<lambda>x. pk_id x = pk_id p) (passkeys d)\<rparr>)"
    if "find_user d (u_id u) = Some u" "p \<in> set (passkeys d)" "pk_user_id p = u_id u" "another_method e u p d"
    for d event j detail and p :: passkey and u :: user
  proof -
    let ?d = "record_event e rq event j detail d"
    have "find_user ?d (u_id u) = Some u" "p \<in> set (passkeys ?d)" "another_method e u p ?d" "passkeys ?d = passkeys d"
      using that by (simp_all add: record_event_def find_user_def another_method_def split: prod.split)
    with that removed_passkey [of ?d u p e] show ?thesis by (auto intro: chain [OF events])
  qed
  have "keeps s (if \<not> another_method e u p (s_db s) then fail x s
      else let d = record_event e rq event j detail (s_db s)
           in reply () (commit s (d\<lparr>passkeys := sql_delete (\<lambda>x. pk_id x = pk_id p) (passkeys d)\<rparr>)))"
    if "find_user (s_db s) (u_id u) = Some u" "p \<in> set (passkeys (s_db s))" "pk_user_id p = u_id u"
    for s x event j detail and p :: passkey and u :: user
    using removed [OF that] by (simp add: keeps_def same Let_def event_passkeys)
  then show ?thesis
    unfolding delete_passkey_def by (intro keeps_recently_authed keeps_locked_row keeps_own) blast
qed

lemma keeps_reauthentication_options: "askable (fst fresh) \<Longrightarrow> keeps s (passkey_reauthentication_options e now rq fresh s)"
  unfolding passkey_reauthentication_options_def
  by (intro keeps_authed keeps_locked keeps_limited_site keeps_answer) (auto intro: options_asked)

lemma keeps_reauthenticate_passkey: "keeps s (passkey_reauthentication_verify e now rq i credential s)"
proof -
  have "R d (record_event e rq event j detail (set_session c (\<lambda>x. x\<lparr>as_reauthenticated_at := Some now\<rparr>) (use_passkey now p v d)))"
    for d event j detail c p v
    unfolding use_passkey_def by (rule chain [OF chain [OF used_passkey set_session_kept] events]) simp_all
  then have recorded: "keeps s (reset_after e rq k (reply () (commit s' (record_event e rq event j detail
      (set_session c (\<lambda>x. x\<lparr>as_reauthenticated_at := Some now\<rparr>) (use_passkey now p v d))))))" if "R (s_db s) d"
    for s s' d event j detail c k p v
    using that chain by (auto simp: keeps_def)
  show ?thesis
    unfolding passkey_reauthentication_verify_def Let_def
    by (intro keeps_authed keeps_locked keeps_limited_site; auto split: sum.split prod.split
      intro!: keeps_ceremony_failed recorded; rule challenge_consumed; assumption)
qed

text \<open>Any call.\<close>

lemma performed:
  assumes "\<forall>h \<in> set (minted_by e q). mintable h" "\<forall>i \<in> set (opened_by q). openable i"
    "\<forall>i \<in> set (asked_by q). askable i"
  shows "R (s_db s) (s_db (snd (perform e (now, rq, q) s)))"
proof -
  have "keeps s (browser_login e now rq email password otp fresh s)" "keeps s (token_login e now rq email password otp fresh s)"
    if "openable (fst fresh)" for email password otp fresh
    using keeps_login [OF that] by (simp_all add: browser_login_def token_login_def keeps_from_browser)
  moreover note keeps_register keeps_verify_email keeps_resend keeps_forgot keeps_reset_password keeps_refresh keeps_logout
    keeps_profile keeps_change_password keeps_reauthenticate keeps_revoke keeps_setup keeps_confirm keeps_disable
    keeps_google_start keeps_google_callback keeps_google_mfa_login keeps_google_mfa_reauthentication keeps_delete_account
    keeps_passkey_login_options keeps_passkey_login keeps_registration_options keeps_register_passkey keeps_rename_passkey
    keeps_delete_passkey keeps_reauthentication_options keeps_reauthenticate_passkey
  ultimately show ?thesis using assms by (cases q) (simp_all add: keeps_def)
qed

end

end
