(* ===== verification/AccountSafety.thy ===== *)
theory AccountSafety
  imports AccountCalls
begin

text \<open>
  What the account handlers guarantee together, over any sequence of calls by any clients: mail links
  work once, new sessions come only from a proof of identity, a password reset ends every session and
  an accepted deletion locks the account out for good.
\<close>

section \<open>Mail links\<close>

text \<open>A link is live while its row is unused.\<close>

abbreviation live_link :: "string \<Rightarrow> account_token list \<Rightarrow> bool" where
  "live_link \<equiv> live_row at_token_hash (\<lambda>t. at_used_at t = None)"

abbreviation links_evolve :: "string \<Rightarrow> account_token list \<Rightarrow> account_token list \<Rightarrow> bool" where
  "links_evolve \<equiv> rows_evolve at_token_hash (\<lambda>t. at_used_at t = None)"

lemma session_frames [simp]:
  "account_tokens (set_account i g d) = account_tokens d" "auth_sessions (set_account i g d) = auth_sessions d"
  "account_tokens (record_event e rq event user_id detail d) = account_tokens d"
  "auth_sessions (record_event e rq event user_id detail d) = auth_sessions d"
  "users (record_event e rq event user_id detail d) = users d"
  "account_tokens (set_session c h d) = account_tokens d" "account_tokens (revoke_sessions now j kept d) = account_tokens d"
  "users (set_session c h d) = users d" "users (revoke_sessions now j kept d) = users d"
  "auth_sessions (use_token now t d) = auth_sessions d" "users (use_token now t d) = users d"
  by (simp_all add: set_account_def record_event_def set_session_def revoke_sessions_def use_token_def
      split: prod.split)

lemma insert_token_Inr:
  "insert_token t d = Inr d' \<Longrightarrow> d' = d\<lparr>account_tokens := sql_insert t (account_tokens d)\<rparr> \<and>
     at_token_hash t \<notin> at_token_hash ` set (account_tokens d)"
  by (auto simp: insert_token_def list_ex_iff split: if_splits)

lemma insert_rows:
  "insert_session x d = Inr d' \<Longrightarrow> d' = d\<lparr>auth_sessions := sql_insert x (auth_sessions d)\<rparr>"
  "insert_user u d = Inr d' \<Longrightarrow> d' = d\<lparr>users := sql_insert u (users d)\<rparr>"
  "link_identity j subject email d = Inr d' \<Longrightarrow> account_tokens d' = account_tokens d \<and> auth_sessions d' = auth_sessions d \<and>
     users d' = users d \<and> identities d' = sql_insert \<lparr>ei_user_id = j, ei_provider = ''google'', ei_subject = subject,
       ei_email_at_link = email\<rparr> (identities d)"
  by (auto simp: insert_session_def insert_user_def link_identity_def split: if_splits)

lemma ceremony_tables:
  "insert_challenge c d = Inr d' \<Longrightarrow> d' = d\<lparr>challenges := sql_insert c (challenges d)\<rparr> \<and>
     ch_id c \<notin> ch_id ` set (challenges d) \<and> ch_challenge c \<notin> ch_challenge ` set (challenges d)"
  "insert_passkey p d = Inr d' \<Longrightarrow> d' = d\<lparr>passkeys := sql_insert p (passkeys d)\<rparr> \<and>
     pk_id p \<notin> pk_id ` set (passkeys d) \<and> pk_credential_id p \<notin> pk_credential_id ` set (passkeys d)"
  "account_tokens (set_passkey i g d) = account_tokens d" "auth_sessions (set_passkey i g d) = auth_sessions d"
  by (auto simp: insert_challenge_def insert_passkey_def set_passkey_def list_ex_iff split: if_splits)

lemma staged_tables:
  "links_evolve k (account_tokens d) (account_tokens (snd (prepare_account_deletion e now job nonce u d)))"
  "set (auth_sessions (snd (prepare_account_deletion e now job nonce u d))) \<subseteq> set (auth_sessions d)"
proof -
  obtain j d' where run: "prepare_account_deletion e now job nonce u d = (j, d')" by (rule prod.exhaust)
  then have "account_tokens d' = account_tokens d \<and> auth_sessions d' = auth_sessions d \<or>
      (\<exists>P Q. account_tokens d' = sql_delete P (account_tokens d) \<and> auth_sessions d' = sql_delete Q (auth_sessions d))"
    by (cases rule: prepare_cases) (auto simp: destroy_credentials_def Let_def)
  then show "links_evolve k (account_tokens d) (account_tokens (snd (prepare_account_deletion e now job nonce u d)))"
    "set (auth_sessions (snd (prepare_account_deletion e now job nonce u d))) \<subseteq> set (auth_sessions d)"
    using run by (auto simp: rows_evolve_delete set_sql_delete)
qed

lemma publish_tables:
  "account_tokens (record_account_deletion_publish e now job ok d) = account_tokens d"
  "auth_sessions (record_account_deletion_publish e now job ok d) = auth_sessions d"
  by (simp_all add: record_account_deletion_publish_def set_job_def split: option.split)

interpretation links: account_relation
  "\<lambda>d d'. links_evolve k (account_tokens d) (account_tokens d')" "\<lambda>h. h \<noteq> k" "\<lambda>_. True" "\<lambda>_. True" for k
proof (unfold_locales, goal_cases)
  case (2 a b c)
  then show ?case by (rule rows_evolve_trans)
next
  case (5 d Q now)
  then show ?case by (auto intro: rows_evolve_update)
next
  case (8 t d d')
  then show ?case by (auto dest!: insert_token_Inr intro: rows_evolve_insert)
next
  case (12 u d a subject email d')
  from insert_rows(2) [OF 12(1)] insert_rows(3) [OF 12(2)] show ?case by (simp)
qed (auto dest: insert_rows ceremony_tables(1,2) simp: staged_tables(1) publish_tables ceremony_tables(3,4))

text \<open>The rows of sessions after a call: the old ones, and those the call may open.\<close>

definition sessions_within :: "uuid set \<Rightarrow> db \<Rightarrow> db \<Rightarrow> bool" where
  "sessions_within S d d' \<longleftrightarrow> as_id ` set (auth_sessions d') \<subseteq> as_id ` set (auth_sessions d) \<union> S"

lemma ids_sql_update:
  assumes "\<And>x. as_id (h x) = as_id x"
  shows "as_id ` set (sql_update P h t) = as_id ` set t"
proof -
  have "map as_id (sql_update P h t) = map as_id t" using assms by (rule map_sql_update [where k = as_id])
  then show ?thesis by (metis list.set_map)
qed

interpretation openings: account_relation "sessions_within S" "\<lambda>_. True" "\<lambda>i. i \<in> S" "\<lambda>_. True" for S
proof (unfold_locales, goal_cases)
  case (2 a b c)
  then show ?case unfolding sessions_within_def by blast
next
  case (4 h d P)
  then show ?case by (simp add: sessions_within_def ids_sql_update)
next
  case (9 x d d')
  then show ?case by (auto dest!: insert_rows(1) simp: sessions_within_def set_sql_insert)
next
  case (13 d e now job nonce u)
  show ?case using staged_tables(2) by (fastforce simp: sessions_within_def)
next
  case (12 u d a subject email d')
  from insert_rows(2) [OF 12(1)] insert_rows(3) [OF 12(2)] show ?case by (simp add: sessions_within_def)
qed (auto simp: sessions_within_def publish_tables ceremony_tables(3,4) dest: insert_rows insert_token_Inr ceremony_tables(1,2))

section \<open>A mail link works once\<close>

fun mints :: "env \<Rightarrow> timed_call \<Rightarrow> string option" where
  "mints e (now, rq, q) = (case minted_by e q of [] \<Rightarrow> None | h # _ \<Rightarrow> Some h)"

fun spends_link :: "env \<Rightarrow> timed_call \<Rightarrow> string option" where
  "spends_link e (now, rq, VerifyEmail raw) = Some (token_digest e raw)"
| "spends_link e (now, rq, ResetPassword raw password salt) = Some (token_digest e raw)"
| "spends_link e _ = None"

lemma spends_link_cases:
  assumes "spends_link e q = Some k"
  obtains (verify) now rq raw where "q = (now, rq, VerifyEmail raw)" "k = token_digest e raw"
  | (reset) now rq raw password salt where "q = (now, rq, ResetPassword raw password salt)" "k = token_digest e raw"
proof -
  obtain now rq c where q: "q = (now, rq, c)" by (rule prod_cases3)
  with assms show thesis by (cases c) (auto intro: verify reset)
qed

lemma valid_token_Inr:
  assumes "valid_account_token e now raw purpose d = Inr t"
  shows "t \<in> set (account_tokens d)" "at_token_hash t = token_digest e raw" "at_purpose t = purpose"
    "at_used_at t = None" "now < at_expires_at t"
proof -
  have t: "sql_first (\<lambda>t. at_token_hash t = token_digest e raw \<and> at_purpose t = purpose \<and> at_used_at t = None \<and>
      at_expires_at t > now) (account_tokens d) = Some t"
    using assms unfolding valid_account_token_def Let_def
    by (cases "sql_first (\<lambda>t. at_token_hash t = token_digest e raw \<and> at_purpose t = purpose \<and> at_used_at t = None \<and>
      at_expires_at t > now) (account_tokens d)") (simp_all split: option.splits if_splits)
  from sql_first_SomeD [OF t] show "t \<in> set (account_tokens d)" "at_token_hash t = token_digest e raw"
    "at_purpose t = purpose" "at_used_at t = None" "now < at_expires_at t" by blast+
qed

lemma used_link_dead:
  assumes "distinct (map at_token_hash ts)" "t \<in> set ts" "at_token_hash t = k"
  shows "\<not> live_link k (sql_update (\<lambda>x. at_id x = at_id t) (\<lambda>x. x\<lparr>at_used_at := Some now\<rparr>) ts)"
  by (rule used_row_dead [OF assms]) simp_all

lemma verify_email_Inr:
  assumes "fst (verify_email e now rq raw s) = Inr v"
  obtains t where "valid_account_token e now raw ''verify_email'' (s_db s) = Inr t"
    "account_tokens (s_db (after (verify_email e now rq raw s))) = account_tokens (use_token now t (s_db s))"
proof (cases "valid_account_token e now raw ''verify_email'' (s_db s)")
  case (Inr t)
  with assms that show thesis
    by (cases "find_user (s_db s) (at_user_id t)")
      (auto simp: verify_email_def fail_def use_token_def set_account_def)
qed (use assms in \<open>simp add: verify_email_def fail_def\<close>)

lemma reset_password_Inr:
  assumes "fst (reset_password e now rq raw password salt s) = Inr v"
  obtains t u where "valid_account_token e now raw ''password_reset'' (s_db s) = Inr t"
    "find_user (s_db s) (at_user_id t) = Some u"
    "account_tokens (s_db (after (reset_password e now rq raw password salt s))) =
       sql_update (\<lambda>x. at_user_id x = u_id u \<and> at_purpose x = ''password_reset'' \<and> at_used_at x = None)
         (\<lambda>x. x\<lparr>at_used_at := Some now\<rparr>) (account_tokens (use_token now t (s_db s)))"
    "auth_sessions (s_db (after (reset_password e now rq raw password salt s))) =
       auth_sessions (revoke_sessions now (u_id u) None (s_db s))"
    "users (s_db (after (reset_password e now rq raw password salt s))) =
       sql_update (\<lambda>x. u_id x = u_id u) (set_password e now salt password) (users (s_db s))"
proof (cases "valid_account_token e now raw ''password_reset'' (s_db s)")
  case (Inr t)
  show thesis
  proof (cases "find_user (s_db s) (at_user_id t)")
    case None
    with assms Inr show thesis by (simp add: reset_password_def fail_def)
  next
    case (Some u)
    with Inr show thesis
      by (intro that [of t u]) (simp_all add: reset_password_def Let_def use_token_def set_account_def revoke_sessions_def
          record_event_def split: prod.split)
  qed
qed (use assms in \<open>simp add: reset_password_def fail_def\<close>)

lemma links_kept:
  "mints e q \<noteq> Some k \<Longrightarrow> links_evolve k (account_tokens (s_db s)) (account_tokens (s_db (snd (perform e q s))))"
proof -
  obtain now rq c where q: "q = (now, rq, c)" by (rule prod_cases3)
  show "mints e q \<noteq> Some k \<Longrightarrow> links_evolve k (account_tokens (s_db s)) (account_tokens (s_db (snd (perform e q s))))"
    unfolding q by (rule links.performed) (cases c, auto)
qed

interpretation mail_links: single_use "perform e" "spends_link e" "\<lambda>q k. mints e q = Some k"
  "\<lambda>k s. live_link k (account_tokens (s_db s))" "\<lambda>s. distinct (map at_token_hash (account_tokens (s_db s)))" for e
proof (unfold_locales, goal_cases)
  case (1 s q k v)
  from 1(2) show ?case
  proof (cases rule: spends_link_cases)
    case (verify now rq raw)
    with 1(3) obtain w where "fst (verify_email e now rq raw s) = Inr w" by auto
    then obtain t where "valid_account_token e now raw ''verify_email'' (s_db s) = Inr t" by (rule verify_email_Inr)
    from valid_token_Inr [OF this] verify show ?thesis by (auto simp: live_row_def)
  next
    case (reset now rq raw password salt)
    with 1(3) obtain w where "fst (reset_password e now rq raw password salt s) = Inr w" by auto
    then obtain t where "valid_account_token e now raw ''password_reset'' (s_db s) = Inr t" by (rule reset_password_Inr)
    from valid_token_Inr [OF this] reset show ?thesis by (auto simp: live_row_def)
  qed
next
  case (2 s q k v)
  from 2(2) show ?case
  proof (cases rule: spends_link_cases)
    case (verify now rq raw)
    with 2(3) obtain w where "fst (verify_email e now rq raw s) = Inr w" by auto
    then obtain t where t: "valid_account_token e now raw ''verify_email'' (s_db s) = Inr t"
      and ts: "account_tokens (s_db (after (verify_email e now rq raw s))) = account_tokens (use_token now t (s_db s))"
      by (rule verify_email_Inr)
    from used_link_dead [OF 2(1) valid_token_Inr(1,2) [OF t]] ts verify show ?thesis by (simp add: use_token_def)
  next
    case (reset now rq raw password salt)
    with 2(3) obtain w where "fst (reset_password e now rq raw password salt s) = Inr w" by auto
    then obtain t and u :: user where t: "valid_account_token e now raw ''password_reset'' (s_db s) = Inr t"
      and ts: "account_tokens (s_db (after (reset_password e now rq raw password salt s))) =
        sql_update (\<lambda>x. at_user_id x = u_id u \<and> at_purpose x = ''password_reset'' \<and> at_used_at x = None)
          (\<lambda>x. x\<lparr>at_used_at := Some now\<rparr>) (account_tokens (use_token now t (s_db s)))"
      by (rule reset_password_Inr) blast
    have "links_evolve k (account_tokens (use_token now t (s_db s)))
        (account_tokens (s_db (after (reset_password e now rq raw password salt s))))"
      unfolding ts by (rule rows_evolve_update) simp_all
    with used_link_dead [OF 2(1) valid_token_Inr(1,2) [OF t]] reset show ?thesis
      by (auto simp: use_token_def rows_evolve_def)
  qed
next
  case (3 s k q)
  with links_kept show ?case unfolding rows_evolve_def by blast
next
  case (4 s q)
  obtain k where "mints e q \<noteq> Some k" by (metis list.distinct(1) option.inject)
  from links_kept [OF this, of s] 4 show ?case by (simp add: rows_evolve_def)
qed

fun history :: "env \<Rightarrow> timed_call list \<Rightarrow> site \<Rightarrow> (timed_call \<times> (exn + unit)) list" where
  "history e [] s = []"
| "history e (q # qs) s = (q, fst (perform e q s)) # history e qs (snd (perform e q s))"

lemma history_outcomes: "history e qs s = mail_links.outcomes e qs s"
  by (induction qs arbitrary: s) simp_all

text \<open>C18: A link sent by mail works at most once.  Whatever calls any clients make, in whatever order,
  at most one of them is answered that redeems a given token, to verify an address or to reset a
  password; only minting the very same random token again could revive it.\<close>

theorem mail_link_works_once:
  assumes "distinct (map at_token_hash (account_tokens (s_db s)))" "\<forall>q \<in> set qs. mints e q \<noteq> Some k"
  shows "length (filter (\<lambda>(q, r). spends_link e q = Some k \<and> \<not> isl r) (history e qs s)) \<le> 1"
  unfolding history_outcomes using assms by (rule mail_links.at_most_once)

section \<open>Who holds a session\<close>

lemma current_auth_Inr:
  assumes "fst (current_auth e now rq l d) = Inr (w, c)"
  shows "c \<in> set (auth_sessions d)" "as_user_id c = u_id w" "as_revoked_at c = None" "w \<in> set (users d)"
    "u_disabled_at w = None" "reject_suppressed_account e l (u_id w) = Inr ()"
proof -
  from assms obtain user_id sid where s: "sql_first (live_session now sid user_id) (auth_sessions d) = Some c"
    and u: "find_user d user_id = Some w" and rest: "u_disabled_at w = None" "reject_suppressed_account e l user_id = Inr ()"
    by (auto simp: current_auth_def split: option.splits if_splits sum.splits prod.splits)
  from sql_first_SomeD [OF s] sql_first_SomeD [OF u [unfolded find_user_def]] rest
  show "c \<in> set (auth_sessions d)" "as_user_id c = u_id w" "as_revoked_at c = None" "w \<in> set (users d)"
    "u_disabled_at w = None" "reject_suppressed_account e l (u_id w) = Inr ()"
    by (auto simp: live_session_def)
qed

lemma refresh_subject_Inr:
  assumes "refresh_subject e now rq s = Inr (c, w)"
  shows "c \<in> set (auth_sessions (s_db s))" "as_user_id c = u_id w" "as_revoked_at c = None"
    "reject_suppressed_account e (s_ledger s) (u_id w) = Inr ()"
proof -
  from assms obtain raw where c: "sql_first (\<lambda>x. as_refresh_token_hash x = token_digest e raw \<and> as_revoked_at x = None \<and>
      as_expires_at x > now) (auth_sessions (s_db s)) = Some c"
    and u: "find_user (s_db s) (as_user_id c) = Some w"
    and l: "reject_suppressed_account e (s_ledger s) (u_id w) = Inr ()"
    by (auto simp: refresh_subject_def Let_def split: option.splits if_splits)
  from sql_first_SomeD [OF c] sql_first_SomeD [OF u [unfolded find_user_def]] l
  show "c \<in> set (auth_sessions (s_db s))" "as_user_id c = u_id w" "as_revoked_at c = None"
    "reject_suppressed_account e (s_ledger s) (u_id w) = Inr ()" by auto
qed

text \<open>Resetting a password ends every session of the account: afterwards the stored hash is that of
  the new password, and neither an access token nor a refresh cookie issued before authenticates the
  account, at any later time.\<close>

theorem password_reset_ends_sessions:
  assumes "fst (reset_password e now rq raw password salt s) = Inr v"
  shows "\<exists>u \<in> set (users (s_db s)). (\<exists>t \<in> set (account_tokens (s_db s)). at_user_id t = u_id u \<and>
      at_token_hash t = token_digest e raw \<and> at_purpose t = ''password_reset'' \<and> at_used_at t = None \<and> now < at_expires_at t) \<and>
    (let s' = after (reset_password e now rq raw password salt s) in
     (\<forall>w \<in> set (users (s_db s')). u_id w = u_id u \<longrightarrow> u_password_hash w = kdf e salt password \<and> u_password_enabled w) \<and>
     (\<forall>now' rq' l w c. fst (current_auth e now' rq' l (s_db s')) = Inr (w, c) \<longrightarrow> u_id w \<noteq> u_id u) \<and>
     (\<forall>now' rq' w c. refresh_subject e now' rq' s' = Inr (c, w) \<longrightarrow> u_id w \<noteq> u_id u))"
proof -
  let ?s = "after (reset_password e now rq raw password salt s)"
  from assms obtain t u where t: "valid_account_token e now raw ''password_reset'' (s_db s) = Inr t"
    and u: "find_user (s_db s) (at_user_id t) = Some u"
    and ss: "auth_sessions (s_db ?s) = auth_sessions (revoke_sessions now (u_id u) None (s_db s))"
    and us: "users (s_db ?s) = sql_update (\<lambda>x. u_id x = u_id u) (set_password e now salt password) (users (s_db s))"
    by (rule reset_password_Inr) blast
  note tok = valid_token_Inr [OF t] and row = sql_first_SomeD [OF u [unfolded find_user_def]]
  have dead: "as_revoked_at c \<noteq> None" if "c \<in> set (auth_sessions (s_db ?s))" "as_user_id c = u_id u" for c
    using that unfolding ss by (auto simp: revoke_sessions_def set_sql_update)
  have "\<forall>w \<in> set (users (s_db ?s)). u_id w = u_id u \<longrightarrow> u_password_hash w = kdf e salt password \<and> u_password_enabled w"
    unfolding us by (auto simp: set_sql_update set_password_def)
  moreover have "u_id w \<noteq> u_id u" if "fst (current_auth e now' rq' l (s_db ?s)) = Inr (w, c)" for now' rq' l w c
    using current_auth_Inr [OF that] dead by metis
  moreover have "u_id w \<noteq> u_id u" if "refresh_subject e now' rq' ?s = Inr (c, w)" for now' rq' w c
    using refresh_subject_Inr [OF that] dead by metis
  ultimately show ?thesis using tok row by (intro bexI [of _ u]) (auto simp: Let_def)
qed

lemma factor_jobs: "verify_second_factor e now u code d = Inr (b, d') \<Longrightarrow> jobs d' = jobs d"
  by (auto simp: verify_second_factor_def check_factor_def use_totp_step_def use_recovery_code_def set_account_def
      split: if_splits option.splits sum.splits)

lemma proof_jobs: "deletion_proof e now u password code d = Inr d' \<Longrightarrow> jobs d' = jobs d"
  by (auto simp: deletion_proof_def factor_jobs split: if_splits sum.splits)

lemma stored_deletion_holds:
  assumes "fst (store_deletion e now run u d s) = Inr m" "sql_first (\<lambda>j. j_subject_id j = Some (u_id u)) (jobs d) = None"
  shows "holds_marker e (dl_job_id run) (u_id u) now (s_ledger (after (store_deletion e now run u d s)))"
proof -
  obtain j d1 where p: "prepare_account_deletion e now (dl_job_id run) (dl_nonce run) u d = (j, d1)" by (rule prod.exhaust)
  obtain r l where w: "write_suppression_marker e (s_files s) (j_id j) (u_id u) (j_requested_at j) (s_ledger s) = (r, l)"
    by (rule prod.exhaust)
  from p assms(2) have j: "j_id j = dl_job_id run" "j_requested_at j = now"
    by (auto elim!: prepare_cases simp: new_job_def)
  from assms(1) w p have "r = Inr ()" by (cases r) (simp_all add: store_deletion_def fail_def)
  with w j have "holds_marker e (dl_job_id run) (u_id u) now l" by (auto intro: write_Inr_holds)
  moreover have "s_ledger (after (store_deletion e now run u d s)) = l"
    using w p \<open>r = Inr ()\<close> by (auto simp: store_deletion_def Let_def split: prod.split sum.split)
  ultimately show ?thesis by simp
qed

lemma deletion_answer:
  assumes "current_auth e now rq (s_ledger s) (s_db s) = (Inr (u, c), d)"
    "fst (delete_account e now rq password code confirmation run s) = Inr m"
    "\<forall>j \<in> set (jobs (s_db s)). j_subject_id j \<noteq> Some (u_id u)"
  shows "holds_marker e (dl_job_id run) (u_id u) now (s_ledger (after (delete_account e now rq password code confirmation run s)))"
proof -
  have jobs: "jobs d = jobs (s_db s)"
    using assms(1) by (auto simp: current_auth_def touch_session_def split: option.splits if_splits sum.splits prod.splits)
  from assms(1,2) obtain v where v: "find_user d (u_id u) = Some v"
    by (auto simp: delete_account_def authed_def locked_user_def fail_def split: option.splits)
  then have id: "u_id v = u_id u" by (auto simp: find_user_def dest: sql_first_SomeD)
  have new: "sql_first (\<lambda>j. j_subject_id j = Some (u_id v)) (jobs d) = None"
    using assms(3) jobs id by (simp add: sql_first_None)
  have fresh: "\<not> list_ex (\<lambda>j. j_subject_id j = Some (u_id v)) (jobs d)"
    using assms(3) jobs id by (auto simp: list_ex_iff)
  from assms(1,2) v fresh consider (plain) "delete_account e now rq password code confirmation run s =
      store_deletion e now run v d (commit s d)"
    | (proved) r d1 where "deletion_proof e now v password code d = Inr d1"
      "delete_account e now rq password code confirmation run s = store_deletion e now run v d1 (commit s d\<lparr>s_rates := r\<rparr>)"
    by (auto simp: delete_account_def authed_def locked_user_def fail_def limited_def
        split: if_splits sum.splits prod.splits)
  then show ?thesis
  proof cases
    case plain
    with assms(2) stored_deletion_holds [OF _ new] id show ?thesis by simp
  next
    case (proved r d1)
    from new proof_jobs [OF proved(1)] have "sql_first (\<lambda>j. j_subject_id j = Some (u_id v)) (jobs d1) = None" by simp
    with assms(2) proved(2) stored_deletion_holds [OF _ this] id show ?thesis by simp
  qed
qed


section \<open>Where a session comes from\<close>

lemma factor_sessions: "verify_second_factor e now u code d = Inr (b, d') \<Longrightarrow> auth_sessions d' = auth_sessions d"
  by (auto simp: verify_second_factor_def check_factor_def use_totp_step_def use_recovery_code_def
      split: if_splits option.splits sum.splits)

lemma issued_session:
  assumes "c \<in> set (auth_sessions (s_db (after (issue_session e now rq fresh u authentication_method cookies recent d s))))"
    "as_id c \<notin> as_id ` set (auth_sessions (s_db s))" "auth_sessions d = auth_sessions (s_db s)"
  shows "as_user_id c = u_id u \<and> reject_suppressed_account e (s_ledger s) (u_id u) = Inr () \<and>
    as_reauthenticated_at c = (if recent then Some now else None)"
proof (cases "reject_suppressed_account e (s_ledger s) (u_id u)")
  case (Inr v)
  show ?thesis
  proof (cases "insert_session (new_session e now rq fresh (u_id u) cookies recent) d")
    case (Inr d1)
    with assms \<open>reject_suppressed_account e (s_ledger s) (u_id u) = Inr v\<close> have "c = new_session e now rq fresh (u_id u) cookies recent"
      by (auto simp: issue_session_def Let_def set_sql_insert dest!: insert_rows(1))
    with \<open>reject_suppressed_account e (s_ledger s) (u_id u) = Inr v\<close> show ?thesis by (simp add: new_session_def)
  qed (use assms Inr in \<open>auto simp: issue_session_def\<close>)
qed (use assms in \<open>auto simp: issue_session_def\<close>)

text \<open>What the four calls that open a session have established about the account \<open>u\<close> they open it for.\<close>

definition password_proved :: "env \<Rightarrow> time \<Rightarrow> string \<Rightarrow> string \<Rightarrow> string option \<Rightarrow> db \<Rightarrow> user \<Rightarrow> bool" where
  "password_proved e now email password otp d u \<longleftrightarrow>
     find_email d (lower email) = Some u \<and> u_disabled_at u = None \<and> u_email_verified_at u \<noteq> None \<and>
     check_password e password (u_password_hash u) \<and> (\<exists>d'. verify_second_factor e now u otp d = Inr (True, d'))"

definition google_mfa_proved :: "env \<Rightarrow> time \<Rightarrow> request \<Rightarrow> string \<Rightarrow> db \<Rightarrow> user \<Rightarrow> bool" where
  "google_mfa_proved e now rq code d u \<longleftrightarrow>
     find_user d (u_id u) = Some u \<and> u_disabled_at u = None \<and> u_totp_enabled_at u \<noteq> None \<and>
     (\<exists>t \<in> set (account_tokens d). at_purpose t = ''google_mfa_login'' \<and> at_user_id t = u_id u \<and> at_used_at t = None \<and>
        now < at_expires_at t \<and> rq_cookies rq (google_mfa_cookie_name e) \<noteq> None \<and>
        at_token_hash t = token_digest e (the (rq_cookies rq (google_mfa_cookie_name e))) \<and>
        (\<exists>d'. verify_second_factor e now u (Some code) (use_token now t d) = Inr (True, d')))"

definition passkey_proved :: "env \<Rightarrow> time \<Rightarrow> uuid \<Rightarrow> json \<Rightarrow> db \<Rightarrow> user \<Rightarrow> bool" where
  "passkey_proved e now i credential d u \<longleftrightarrow>
     find_user d (u_id u) = Some u \<and> u_disabled_at u = None \<and> u_email_verified_at u \<noteq> None \<and>
     (\<exists>ch \<in> set (challenges d). ch_id ch = i \<and> ch_purpose ch = PasskeyAuthentication \<and> ch_used_at ch = None \<and>
        now < ch_expires_at ch \<and> ch_user_id ch \<in> {None, Some (u_id u)} \<and>
        (\<exists>p \<in> set (passkeys d). pk_user_id p = u_id u \<and>
          (\<exists>parsed v. wa_parse_authentication (webauthn e) credential = Some parsed \<and>
             wa_verify_authentication (webauthn e) parsed (ch_challenge ch) (webauthn_effective_rp_id e)
               (webauthn_origin_list e) (pk_public_key p) (pk_sign_count p) = Some v)))"

text \<open>A passkey sign-in either leaves the sessions alone or has got through every check.\<close>

lemma failed_ceremony_frame:
  "auth_sessions d = auth_sessions (s_db s) \<Longrightarrow>
   auth_sessions (s_db (after (ceremony_failed e rq event i code x d s))) = auth_sessions (s_db s)"
  "fst (ceremony_failed e rq event i code x d s) \<noteq> Inr v"
  by (auto simp: ceremony_failed_def reject_ceremony_def fail_def)

lemma consume_frame:
  "auth_sessions (snd (consume_challenge now i purpose u sid d)) = auth_sessions d"
  "passkeys (snd (consume_challenge now i purpose u sid d)) = passkeys d"
  "users (snd (consume_challenge now i purpose u sid d)) = users d"
  by (auto simp: consume_challenge_def Let_def split: option.split)

lemma consume_Inr:
  assumes "consume_challenge now i purpose u sid d = (Inr c, d')"
  obtains ch where "ch \<in> set (challenges d)" "ch_id ch = i" "ch_purpose ch = purpose" "ch_used_at ch = None" "now < ch_expires_at ch"
    "u \<noteq> None \<Longrightarrow> ch_user_id ch = u" "sid \<noteq> None \<Longrightarrow> ch_session_id ch = sid" "c = ch\<lparr>ch_used_at := Some now\<rparr>"
    "d' = d\<lparr>challenges := sql_update (\<lambda>x. ch_id x = i) (\<lambda>x. x\<lparr>ch_used_at := Some now\<rparr>) (challenges d)\<rparr>"
proof -
  obtain ch where ch: "sql_first (\<lambda>c. ch_id c = i \<and> ch_purpose c = purpose) (challenges d) = Some ch"
    using assms by (cases "sql_first (\<lambda>c. ch_id c = i \<and> ch_purpose c = purpose) (challenges d)") (simp_all add: consume_challenge_def)
  from sql_first_SomeD [OF ch] ch assms show thesis
    by (intro that [of ch]) (auto simp: consume_challenge_def Let_def split: if_splits)
qed

lemma passkey_login_cases:
  obtains (kept) "auth_sessions (s_db (after (passkey_login_verify e now rq i credential fresh s))) = auth_sessions (s_db s)"
      "\<And>v. fst (passkey_login_verify e now rq i credential fresh s) \<noteq> Inr v"
  | (signed) parsed candidate c d u stored v r where "parse_assertion_credential e credential = Inr parsed"
      "sql_first (\<lambda>p. pk_credential_id p = ac_raw_id parsed) (passkeys (s_db s)) = Some candidate"
      "consume_challenge now i PasskeyAuthentication None None (s_db s) = (Inr c, d)"
      "check_login e parsed candidate (find_user (s_db s) (pk_user_id candidate)) c d = Inr (u, stored, v)"
      "passkey_login_verify e now rq i credential fresh s = passkey_signed_in e now rq u stored v fresh d (s\<lparr>s_rates := r\<rparr>)"
proof -
  let ?limit = "enforce_rate_limit e now rq"
  note defs = passkey_login_verify_def from_browser_def limited_def Let_def failed_ceremony_frame consume_frame
  obtain x1 r1 where l1: "?limit None (s_rates s) = (x1, r1)" by (rule prod.exhaust)
  show thesis
  proof (cases "require_browser_origin e rq = Inr () \<and> x1 = Inr ()")
    case False
    then show thesis using l1 by (intro kept) (auto simp: defs fail_def split: sum.split)
  next
    case True
    note pre = this l1
    show thesis
    proof (cases "parse_assertion_credential e credential")
      case (Inl x)
      with pre show thesis by (intro kept) (simp_all add: defs)
    next
      case (Inr parsed)
      note pre = pre Inr
      show thesis
      proof (cases "sql_first (\<lambda>p. pk_credential_id p = ac_raw_id parsed) (passkeys (s_db s))")
        case None
        with pre show thesis by (intro kept) (simp_all add: defs)
      next
        case (Some candidate)
        note pre = pre Some
        obtain x2 r2 where l2: "?limit (Some (''passkey-account:'' @ uuid_str (pk_user_id candidate))) r1 = (x2, r2)" by (rule prod.exhaust)
        obtain y d where con: "consume_challenge now i PasskeyAuthentication None None (s_db s) = (y, d)" by (rule prod.exhaust)
        have d: "auth_sessions d = auth_sessions (s_db s)" using con consume_frame(1) by (metis snd_conv)
        show thesis
        proof (cases x2)
          case (Inl x)
          with pre l2 show thesis by (intro kept) (simp_all add: defs fail_def)
        next
          case x2: (Inr _)
          show thesis
          proof (cases "\<exists>c u stored v. y = Inr c \<and>
              check_login e parsed candidate (find_user (s_db s) (pk_user_id candidate)) c d = Inr (u, stored, v)")
            case True
            then obtain c u stored v where "y = Inr c"
              "check_login e parsed candidate (find_user (s_db s) (pk_user_id candidate)) c d = Inr (u, stored, v)" by blast
            with pre l2 x2 con show thesis by (intro signed [of parsed candidate c d u stored v r2]) (simp_all add: defs)
          next
            case False
            with pre l2 x2 con d show thesis
              by (intro kept) (auto simp: defs split: sum.split prod.split)
          qed
        qed
      qed
    qed
  qed
qed

lemma check_login_Inr:
  assumes "check_login e parsed candidate (find_user d0 (pk_user_id candidate)) c d = Inr (u, stored, v)"
  shows "stored \<in> set (passkeys d)" "pk_user_id stored = u_id u" "find_user d0 (u_id u) = Some u" "u_disabled_at u = None"
    "u_email_verified_at u \<noteq> None" "ch_user_id c \<in> {None, Some (u_id u)}" "verify_assertion e parsed stored c = Inr v"
    "user_handle_matches parsed (u_id u) (ch_discoverable c)"
proof -
  let ?P = "\<lambda>p. pk_id p = pk_id candidate \<and> pk_credential_id p = ac_raw_id parsed \<and> pk_user_id p = pk_user_id candidate"
  obtain p where p: "sql_first ?P (passkeys d) = Some p"
    using assms by (cases "sql_first ?P (passkeys d)") (simp_all add: check_login_def)
  obtain w where w: "find_user d0 (pk_user_id candidate) = Some w"
    using assms p by (cases "find_user d0 (pk_user_id candidate)") (simp_all add: check_login_def split: if_splits)
  have "u_id w = pk_user_id candidate" using w by (auto simp: find_user_def dest: sql_first_SomeD)
  with assms p w sql_first_SomeD [OF p] show "stored \<in> set (passkeys d)" "pk_user_id stored = u_id u"
    "find_user d0 (u_id u) = Some u" "u_disabled_at u = None"
    "u_email_verified_at u \<noteq> None" "ch_user_id c \<in> {None, Some (u_id u)}" "verify_assertion e parsed stored c = Inr v"
    "user_handle_matches parsed (u_id u) (ch_discoverable c)"
    by (auto simp: check_login_def sbind_Inr_iff split: if_splits)
qed

lemma passkey_login_opens:
  assumes "c \<in> set (auth_sessions (s_db (after (passkey_login_verify e now rq i credential fresh s))))"
    "as_id c \<notin> as_id ` set (auth_sessions (s_db s))"
  shows "\<exists>u. passkey_proved e now i credential (s_db s) u \<and> as_user_id c = u_id u \<and>
    reject_suppressed_account e (s_ledger s) (u_id u) = Inr ()"
proof (cases e now rq i credential fresh s rule: passkey_login_cases)
  case kept
  with assms show ?thesis by auto
next
  case (signed parsed candidate ch d u stored v r)
  let ?d = "record_event e rq ''passkey_login_succeeded'' (Some (u_id u)) (passkey_detail (pk_id stored)) (use_passkey now stored v d)"
  have "auth_sessions ?d = auth_sessions (s_db s)" using consume_frame(1) signed(3)
    by (metis snd_conv ceremony_tables(4) session_frames(4) use_passkey_def)
  then have ok: "as_user_id c = u_id u" "reject_suppressed_account e (s_ledger s) (u_id u) = Inr ()"
    using issued_session [of c e now rq fresh u "''passkey''" True True ?d "s\<lparr>s_rates := r\<rparr>"] assms
    unfolding signed(5) passkey_signed_in_def by simp_all
  note checked = check_login_Inr [OF signed(4)]
  from signed(3) obtain ch0 where ch0: "ch0 \<in> set (challenges (s_db s))" "ch_id ch0 = i" "ch_purpose ch0 = PasskeyAuthentication"
    "ch_used_at ch0 = None" "now < ch_expires_at ch0" "ch = ch0\<lparr>ch_used_at := Some now\<rparr>" by (rule consume_Inr) blast
  have "stored \<in> set (passkeys (s_db s))" using checked(1) consume_frame(2) signed(3) by (metis snd_conv)
  moreover have "wa_parse_authentication (webauthn e) credential = Some parsed"
    using signed(1) by (auto simp: parse_assertion_credential_def from_library_def sbind_Inr_iff split: option.splits if_splits)
  moreover have "wa_verify_authentication (webauthn e) parsed (ch_challenge ch0) (webauthn_effective_rp_id e)
      (webauthn_origin_list e) (pk_public_key stored) (pk_sign_count stored) = Some v"
    using checked(7) ch0(6) by (auto simp: verify_assertion_def from_library_def split: option.splits)
  ultimately have "passkey_proved e now i credential (s_db s) u"
    using checked(2-6) ch0 unfolding passkey_proved_def by auto
  with ok show ?thesis by blast
qed

lemma password_login_opens:
  assumes "c \<in> set (auth_sessions (s_db (after (password_login e now rq browser email password otp fresh s))))"
    "as_id c \<notin> as_id ` set (auth_sessions (s_db s))"
  shows "\<exists>u. password_proved e now email password otp (s_db s) u \<and> as_user_id c = u_id u \<and>
    reject_suppressed_account e (s_ledger s) (u_id u) = Inr ()"
proof -
  obtain x r where lim: "enforce_rate_limit e now rq (Some (''login:'' @ email)) (s_rates s) = (x, r)" by (rule prod.exhaust)
  let ?s = "s\<lparr>s_rates := r\<rparr>"
  show ?thesis
  proof (cases "\<exists>u d. x = Inr () \<and> find_email (s_db s) (lower email) = Some u \<and> u_disabled_at u = None \<and>
      u_email_verified_at u \<noteq> None \<and> check_password e password (u_password_hash u) \<and>
      verify_second_factor e now u otp (s_db s) = Inr (True, d)")
    case False
    then have "auth_sessions (s_db (after (password_login e now rq browser email password otp fresh s))) = auth_sessions (s_db s)"
      using lim by (auto simp: password_login_def limited_def Let_def dest: factor_sessions
          split: option.split sum.split bool.split prod.split)
    with assms show ?thesis by auto
  next
    case True
    then obtain u d where ok: "x = Inr ()" "find_email (s_db s) (lower email) = Some u" "u_disabled_at u = None"
      "u_email_verified_at u \<noteq> None" "check_password e password (u_password_hash u)"
      "verify_second_factor e now u otp (s_db s) = Inr (True, d)" by blast
    define d1 where "d1 = (if u_password_enabled u then d
      else set_account (u_id u) (\<lambda>u. u\<lparr>u_password_enabled := True, u_password_set_at := Some now\<rparr>) d)"
    have "auth_sessions d1 = auth_sessions (s_db ?s)" using factor_sessions [OF ok(6)] by (simp add: d1_def)
    moreover have "s_db (after (password_login e now rq browser email password otp fresh s)) =
        s_db (after (issue_session e now rq fresh (u\<lparr>u_password_enabled := True\<rparr>) ''password'' browser True d1 ?s))"
      using ok lim by (auto simp: password_login_def limited_def Let_def d1_def)
    ultimately have "as_user_id c = u_id u \<and> reject_suppressed_account e (s_ledger s) (u_id u) = Inr ()"
      using issued_session [of c e now rq fresh "u\<lparr>u_password_enabled := True\<rparr>" "''password''" browser True d1 ?s] assms
      by simp
    with ok show ?thesis unfolding password_proved_def by blast
  qed
qed

definition google_proved ::
  "env \<Rightarrow> time \<Rightarrow> request \<Rightarrow> string option \<Rightarrow> string option \<Rightarrow> string option \<Rightarrow> google_claims option \<Rightarrow> db \<Rightarrow> user \<Rightarrow> bool" where
  "google_proved e now rq code state error exchange d u \<longleftrightarrow>
     u_disabled_at u = None \<and> u_totp_enabled_at u = None \<and>
     (\<exists>subject email. google_subject e now rq code state error exchange = Inr (subject, email) \<and>
        list_ex (\<lambda>i. ei_provider i = ''google'' \<and> ei_subject i = subject \<and> ei_user_id i = u_id u) (identities d))"

lemma google_account_result:
  assumes "google_account e now subject email name i salt password d = Inr (u, d')"
  shows "auth_sessions d' = auth_sessions d \<and>
    list_ex (\<lambda>x. ei_provider x = ''google'' \<and> ei_subject x = subject \<and> ei_user_id x = u_id u) (identities d')"
proof (cases "case sql_first (\<lambda>x. ei_provider x = ''google'' \<and> ei_subject x = subject) (identities d) of
    None \<Rightarrow> None | Some x \<Rightarrow> find_user d (ei_user_id x)")
  case (Some v)
  then obtain x where x: "sql_first (\<lambda>x. ei_provider x = ''google'' \<and> ei_subject x = subject) (identities d) = Some x"
    and v: "find_user d (ei_user_id x) = Some v" by (auto split: option.splits)
  from assms Some have "u = v" "d' = d" by (simp_all add: google_account_def)
  with sql_first_SomeD [OF x] sql_first_SomeD [OF v [unfolded find_user_def]] show ?thesis
    by (auto simp: list_ex_iff)
next
  case None
  with assms show ?thesis
    by (auto simp: google_account_def Let_def sbind_Inr_iff list_ex_iff set_sql_insert new_user_def
        split: option.splits if_splits dest!: insert_rows)
qed

lemma google_sign_in_opens:
  assumes "c \<in> set (auth_sessions (s_db (after (google_sign_in e now rq subject email name fresh s))))"
    "as_id c \<notin> as_id ` set (auth_sessions (s_db s))"
  shows "\<exists>u :: user. u_disabled_at u = None \<and> u_totp_enabled_at u = None \<and> as_user_id c = u_id u \<and>
    list_ex (\<lambda>i. ei_provider i = ''google'' \<and> ei_subject i = subject \<and> ei_user_id i = u_id u)
      (identities (s_db (after (google_sign_in e now rq subject email name fresh s)))) \<and>
    reject_suppressed_account e (s_ledger s) (u_id u) = Inr () \<and> as_reauthenticated_at c = None"
proof (cases "google_account e now subject email name (gf_user_id fresh) (gf_salt fresh) (gf_password fresh) (s_db s)")
  case (Inr x)
  obtain u d where x: "x = (u, d)" by (rule prod.exhaust)
  note acc = google_account_result [OF Inr [unfolded x]]
  let ?d = "record_event e rq ''google_login_succeeded'' (Some (u_id u)) JNull d"
  let ?issue = "issue_session e now rq (gf_session fresh) u ''google'' True False ?d s"
  have kept: "auth_sessions (s_db (after (google_mfa_required e now rq u purpose mode sid fr d s))) = auth_sessions (s_db s)"
    for purpose mode sid fr
    using acc by (auto simp: google_mfa_required_def create_account_token_def split: sum.splits prod.splits dest!: insert_token_Inr)
  from assms Inr x kept have u: "u_disabled_at u = None" "u_totp_enabled_at u = None"
    by (auto simp: google_sign_in_def split: if_splits)
  with Inr x have run: "s_db (after (google_sign_in e now rq subject email name fresh s)) = s_db (after ?issue)"
    by (simp add: google_sign_in_def)
  have opened: "as_user_id c = u_id u \<and> reject_suppressed_account e (s_ledger s) (u_id u) = Inr () \<and> as_reauthenticated_at c = None"
    using issued_session [of c e now rq "gf_session fresh" u "''google''" True False ?d s] assms acc unfolding run by simp
  have "identities (s_db (after ?issue)) = identities d"
  proof (cases "insert_session (new_session e now rq (gf_session fresh) (u_id u) True False) ?d")
    case (Inl x)
    with assms run show ?thesis by (auto simp: issue_session_def opened)
  next
    case (Inr d1)
    from insert_rows(1) [OF Inr] Inr opened show ?thesis
      by (simp add: issue_session_def Let_def record_event_def split: prod.split)
  qed
  with u opened acc show ?thesis unfolding run by (intro exI [of _ u]) simp
qed (use assms in \<open>auto simp: google_sign_in_def\<close>)

lemma google_callback_opens:
  assumes "c \<in> set (auth_sessions (s_db (after (google_callback e now rq code state error exchange fresh s))))"
    "as_id c \<notin> as_id ` set (auth_sessions (s_db s))"
  shows "\<exists>u. google_proved e now rq code state error exchange
      (s_db (after (google_callback e now rq code state error exchange fresh s))) u \<and> as_user_id c = u_id u \<and>
    reject_suppressed_account e (s_ledger s) (u_id u) = Inr () \<and> as_reauthenticated_at c = None"
proof (cases "google_subject e now rq code state error exchange")
  case (Inl x)
  with assms show ?thesis by (cases x) (auto simp: google_callback_def)
next
  case (Inr x)
  obtain subject email where x: "x = (subject, email)" by (rule prod.exhaust)
  show ?thesis
  proof (cases "sql_first (\<lambda>t. at_token_hash t = token_digest e (the state) \<and> at_purpose t = ''google_reauth'')
      (account_tokens (s_db s))")
    case (Some t)
    let ?a = "google_reauthenticate e now rq t subject (gf_token fresh) s"
    have "sessions_within {} (s_db s) (s_db (after ?a))"
      using openings.keeps_google_reauthenticate [where S = "{}" and e = e and fresh = "gf_token fresh"] by (simp add: openings.keeps_def)
    with assms Inr x Some show ?thesis by (auto simp: google_callback_def sessions_within_def)
  next
    case None
    show ?thesis
    proof (cases "reauth_state state")
      case True
      with assms Inr x None show ?thesis by (auto simp: google_callback_def)
    next
      case False
      with Inr x None have run: "google_callback e now rq code state error exchange fresh s =
          google_sign_in e now rq subject email (gc_name (the exchange)) fresh s" by (simp add: google_callback_def)
      from google_sign_in_opens [OF assms [unfolded run]] Inr x show ?thesis
        unfolding run google_proved_def by blast
    qed
  qed
qed

lemma consume_Some:
  assumes "consume_google_mfa_transaction e now rq purpose s = (Some (u, session, d), s')"
  shows "s' = s \<and> (\<exists>t \<in> set (account_tokens (s_db s)). at_purpose t = purpose \<and> at_user_id t = u_id u \<and> at_used_at t = None \<and>
      now < at_expires_at t \<and> rq_cookies rq (google_mfa_cookie_name e) \<noteq> None \<and>
      at_token_hash t = token_digest e (the (rq_cookies rq (google_mfa_cookie_name e))) \<and> d = use_token now t (s_db s)) \<and>
    find_user (s_db s) (u_id u) = Some u \<and> u_disabled_at u = None \<and> u_totp_enabled_at u \<noteq> None"
proof -
  note run = assms [unfolded consume_google_mfa_transaction_def Let_def]
  obtain raw where r: "rq_cookies rq (google_mfa_cookie_name e) = Some raw" using run
    by (cases "rq_cookies rq (google_mfa_cookie_name e)") simp_all
  have "raw \<noteq> []" using run r by (cases "raw = []") simp_all
  with run r obtain t where t: "sql_first (\<lambda>t. at_token_hash t = token_digest e raw \<and> at_purpose t = purpose)
      (account_tokens (s_db s)) = Some t"
    by (cases "sql_first (\<lambda>t. at_token_hash t = token_digest e raw \<and> at_purpose t = purpose) (account_tokens (s_db s))")
      simp_all
  have live: "at_used_at t = None" "\<not> at_expires_at t \<le> now"
    using run r \<open>raw \<noteq> []\<close> t by (simp_all split: if_splits)
  with run r \<open>raw \<noteq> []\<close> t obtain v where v: "find_user (s_db s) (at_user_id t) = Some v"
    by (cases "find_user (s_db s) (at_user_id t)") simp_all
  with run r \<open>raw \<noteq> []\<close> t live have u: "find_user (s_db s) (at_user_id t) = Some u" "u_disabled_at u = None"
      "u_totp_enabled_at u \<noteq> None" "d = use_token now t (s_db s)" "s' = s"
    by (auto split: if_splits)
  from sql_first_SomeD [OF t] sql_first_SomeD [OF u(1) [unfolded find_user_def]] r u live show ?thesis by auto
qed

lemma consume_sessions:
  "auth_sessions (s_db (snd (consume_google_mfa_transaction e now rq purpose s))) = auth_sessions (s_db s)"
  by (simp add: consume_google_mfa_transaction_def Let_def split: option.split)

lemma google_mfa_login_opens:
  assumes "c \<in> set (auth_sessions (s_db (after (complete_google_mfa_login e now rq code fresh s))))"
    "as_id c \<notin> as_id ` set (auth_sessions (s_db s))"
  shows "\<exists>u. google_mfa_proved e now rq code (s_db s) u \<and> as_user_id c = u_id u \<and>
    reject_suppressed_account e (s_ledger s) (u_id u) = Inr ()"
proof -
  obtain m s1 where m: "consume_google_mfa_transaction e now rq ''google_mfa_login'' s = (m, s1)" by (rule prod.exhaust)
  have s1: "auth_sessions (s_db s1) = auth_sessions (s_db s)"
    using m consume_sessions by (metis snd_conv)
  from assms m s1 obtain u session d where some: "m = Some (u, session, d)"
    by (cases m) (auto simp: complete_google_mfa_login_def from_browser_def split: sum.splits)
  note con = consume_Some [OF m [unfolded some]]
  obtain x r where lim: "enforce_rate_limit e now rq (sensitive_proof (u_id u)) (s_rates s) = (x, r)" by (rule prod.exhaust)
  let ?s = "s\<lparr>s_rates := r\<rparr>"
  from con have d: "auth_sessions d = auth_sessions (s_db s)" by auto
  show ?thesis
  proof (cases "\<exists>d1. x = Inr () \<and> require_browser_origin e rq = Inr () \<and> verify_second_factor e now u (Some code) d = Inr (True, d1)")
    case False
    then have "auth_sessions (s_db (after (complete_google_mfa_login e now rq code fresh s))) = auth_sessions (s_db s)"
      using m some con lim d
      by (auto simp: complete_google_mfa_login_def from_browser_def limited_def dest: factor_sessions
          split: sum.split bool.split prod.split)
    with assms show ?thesis by auto
  next
    case True
    then obtain d1 where ok: "x = Inr ()" "require_browser_origin e rq = Inr ()"
      "verify_second_factor e now u (Some code) d = Inr (True, d1)" by blast
    let ?d = "record_event e rq ''google_mfa_succeeded'' (Some (u_id u)) (JObj [(''mode'', JStr ''login'')]) d1"
    have run: "s_db (after (complete_google_mfa_login e now rq code fresh s)) =
        s_db (after (issue_session e now rq fresh u ''google+totp'' True True ?d ?s))"
      using m some con lim ok by (simp add: complete_google_mfa_login_def from_browser_def limited_def)
    have "as_user_id c = u_id u \<and> reject_suppressed_account e (s_ledger s) (u_id u) = Inr ()"
      using issued_session [of c e now rq fresh u "''google+totp''" True True ?d ?s] assms d factor_sessions [OF ok(3)]
      unfolding run by simp
    with con ok(3) show ?thesis unfolding google_mfa_proved_def by blast
  qed
qed


section \<open>Examples\<close>

text \<open>Anyone may register an account with an address that is not theirs.  When its owner signs in with
  Google, the account is linked and counts as verified, and the password chosen at registration stays
  valid: whoever registered the address can now sign in.\<close>

lemma sql_first_update_keeps:
  "sql_first P t = Some r \<Longrightarrow> (\<And>x. P (g x) = P x) \<Longrightarrow> Q r \<Longrightarrow> sql_first P (sql_update Q g t) = Some (g r)"
  by (induction t) (auto split: if_splits)

lemma google_verifies_foreign_password:
  assumes "find_email d email = Some u" "u_email_verified_at u = None" "u_totp_enabled_at u = None" "u_totp_secret u = None"
    "u_disabled_at u = None" "check_password e password (u_password_hash u)" "lower email = email"
    "sql_first (\<lambda>x. ei_provider x = ''google'' \<and> ei_subject x = subject) (identities d) = None"
  shows "\<exists>v d'. google_account e now subject email name i salt other d = Inr (v, d') \<and>
    password_proved e later email password None d' v"
proof -
  let ?g = "\<lambda>u. if u_email_verified_at u = None then u\<lparr>u_email_verified_at := Some now\<rparr> else u"
  have link: "\<not> list_ex (\<lambda>x. ei_provider x = ''google'' \<and> ei_subject x = subject) (identities (set_account (u_id u) ?g d))"
    using assms(8) by (auto simp: sql_first_None list_ex_iff set_account_def)
  obtain d' where d': "link_identity (u_id u) subject email (set_account (u_id u) ?g d) = Inr d'"
    using link by (simp add: link_identity_def)
  from assms(1) have "sql_first (\<lambda>x. u_email x = email) (sql_update (\<lambda>x. u_id x = u_id u) ?g (users d)) = Some (?g u)"
    unfolding find_email_def by (rule sql_first_update_keeps) auto
  then have "find_email d' email = Some (?g u)"
    using insert_rows(3) [OF d'] by (simp add: find_email_def set_account_def)
  then have "password_proved e later email password None d' (?g u)"
    using assms by (simp add: password_proved_def verify_second_factor_def)
  moreover have "google_account e now subject email name i salt other d = Inr (?g u, d')"
    using assms(1,8) d' by (simp add: google_account_def Let_def)
  ultimately show ?thesis by blast
qed

definition plain_request :: "(string \<rightharpoonup> string) \<Rightarrow> request" where
  "plain_request cookies = \<lparr>rq_peer = None, rq_bearer = None, rq_headers = Map.empty, rq_cookies = cookies, rq_rates_up = False\<rparr>"

definition sample_site :: "db \<Rightarrow> ledger \<Rightarrow> site" where
  "sample_site d l = \<lparr>s_db = d, s_rates = Map.empty, s_ledger = l, s_files = sample_fs [], s_outbox = []\<rparr>"

definition link_db :: db where
  "link_db = session_db\<lparr>account_tokens := [\<lparr>at_id = 3, at_user_id = 1, at_session_id = None, at_purpose = ''password_reset'',
     at_token_hash = sample_digest ''link'', at_expires_at = 100, at_used_at = None, at_created_at = 0\<rparr>]\<rparr>"

theorem mail_link_works_once_witness:
  "length (filter (\<lambda>(q, r). spends_link sample_env q = Some (sample_digest ''link'') \<and> \<not> isl r)
     (history sample_env [(5, plain_request Map.empty, ResetPassword ''link'' ''new'' ''salt''),
        (6, plain_request Map.empty, ResetPassword ''link'' ''newer'' ''salt'')] (sample_site link_db Missing))) \<le> 1"
  by (rule mail_link_works_once) (simp_all add: sample_site_def link_db_def session_db_def empty_db_def)

lemma sample_reset: "fst (reset_password sample_env 5 (plain_request Map.empty) ''link'' ''new'' ''salt'' (sample_site link_db Missing)) = Inr ()"
  by (simp add: reset_password_def sample_site_def link_db_def session_db_def valid_account_token_def token_digest_def
      sample_env_def find_user_def sample_user_def Let_def reply_def)

theorem password_reset_ends_sessions_witness:
  "\<exists>u \<in> set (users link_db). \<forall>now' rq' l w c. fst (current_auth sample_env now' rq' l (s_db (after
     (reset_password sample_env 5 (plain_request Map.empty) ''link'' ''new'' ''salt'' (sample_site link_db Missing))))) =
     Inr (w, c) \<longrightarrow> u_id w \<noteq> u_id u"
  using password_reset_ends_sessions [OF sample_reset] by (auto simp: Let_def sample_site_def)

lemma length_uuid_str [simp]: "length (uuid_str w) = 36"
  by (simp add: uuid_str_def Let_def uuid_hex_def)

definition leaving_db :: db where
  "leaving_db = session_db\<lparr>users := [(sample_user 1)\<lparr>u_password_enabled := False\<rparr>],
     auth_sessions := map (\<lambda>c. c\<lparr>as_reauthenticated_at := Some 0\<rparr>) (auth_sessions session_db)\<rparr>"

definition leaving_run :: deletion_run where
  "leaving_run = \<lparr>dl_job_id = 100, dl_nonce = ''n'', dl_commits = True, dl_replays = True, dl_replay_nonce = (\<lambda>_. ''n''),
     dl_published = Some True\<rparr>"

definition leaving_request :: request where
  "leaving_request = plain_request [''drivebound_session'' \<mapsto> uuid_str 1 @ uuid_str 9]"

lemma uuid_str_not_Nil [simp]: "uuid_str w \<noteq> []"
  by (metis length_uuid_str list.size(3) zero_neq_numeral)

lemma ledger_env_claims: "decode_access_claims ledger_env now (uuid_str a @ uuid_str b) = Inr (a, Some b)"
proof -
  have "jwt_claims ledger_env key (uuid_str a @ uuid_str b) now = Some (uuid_str a, Some (uuid_str b))" for key
    by (simp add: ledger_env_def ledger_codec_def sample_env_def)
  then show ?thesis by (simp add: decode_access_claims_def parse_uuid_str)
qed

lemma missing_ledger_grants: "reject_suppressed_account ledger_env Missing i = Inr ()"
  by (simp add: reject_suppressed_account_def suppression_subject_is_denied_def read_suppression_markers_def
      ledger_env_def ledger_codec_def sample_env_def sample_settings_def production_like_def)

lemma leaving_auth:
  "current_auth ledger_env 0 leaving_request Missing leaving_db = (Inr (hd (users leaving_db), hd (auth_sessions leaving_db)), leaving_db)"
proof -
  have "presented_token ledger_env leaving_request = Some (uuid_str 1 @ uuid_str 9)"
    by (simp add: presented_token_def truthy_def leaving_request_def plain_request_def ledger_env_def ledger_codec_def
        sample_env_def sample_settings_def)
  moreover have "sql_first (live_session 0 9 1) (auth_sessions leaving_db) = Some (hd (auth_sessions leaving_db))"
    "find_user leaving_db 1 = Some (hd (users leaving_db))" "u_disabled_at (hd (users leaving_db)) = None"
    "touch_session 0 (hd (auth_sessions leaving_db)) 1 leaving_db = leaving_db"
    by (simp_all add: leaving_db_def session_db_def live_session_def find_user_def sample_user_def touch_session_def)
  ultimately show ?thesis by (simp add: current_auth_def ledger_env_claims missing_ledger_grants)
qed

lemma leaving_accepted:
  "\<exists>m. fst (delete_account ledger_env 0 leaving_request None None ''DELETE MY ACCOUNT'' leaving_run (sample_site leaving_db Missing)) = Inr m"
proof -
  have u: "find_user leaving_db (u_id (hd (users leaving_db))) = Some (hd (users leaving_db))"
    "\<not> u_password_enabled (hd (users leaving_db))" "u_id (hd (users leaving_db)) = 1" "jobs leaving_db = []"
    by (simp_all add: leaving_db_def session_db_def find_user_def sample_user_def empty_db_def)
  have recent: "session_has_recent_auth ledger_env 0 (hd (auth_sessions leaving_db))"
    by (simp add: session_has_recent_auth_def leaving_db_def session_db_def ledger_env_def ledger_codec_def sample_env_def
        sample_settings_def)
  obtain d where p: "prepare_account_deletion ledger_env 0 100 ''n'' (hd (users leaving_db)) leaving_db =
      (new_job ledger_env 100 1 0, d)"
    using u(3,4) by (simp add: prepare_account_deletion_def Let_def)
  show ?thesis
    using leaving_auth u recent p sample_write
    by (simp add: delete_account_def authed_def locked_user_def sample_site_def store_deletion_def leaving_run_def new_job_def)
qed


lemma sample_login_opens:
  "\<exists>c \<in> set (auth_sessions (s_db (snd (perform sample_env (5, plain_request Map.empty,
     Login False ''ann@example.org'' [] None (10, ''q'')) (sample_site session_db (Directory True [])))))). as_id c = 10"
proof -
  have lim: "enforce_rate_limit sample_env 5 (plain_request Map.empty) i r = (Inr (), r)" for i r
    by (simp add: enforce_rate_limit_def plain_request_def sample_env_def sample_settings_def production_like_def)
  have u: "find_email session_db (lower ''ann@example.org'') = Some (sample_user 1)"
    by (simp add: find_email_def session_db_def sample_user_def lower_def lower_char_def)
  have proved: "u_disabled_at (sample_user 1) = None" "u_email_verified_at (sample_user 1) = Some 0"
    "check_password sample_env [] (u_password_hash (sample_user 1))" "u_password_enabled (sample_user 1)"
    "verify_second_factor sample_env 5 (sample_user 1) None session_db = Inr (True, session_db)"
    by (simp_all add: sample_user_def sample_env_def verify_second_factor_def)
  have "\<not> list_ex (\<lambda>y. as_id y = 10 \<or> as_refresh_token_hash y = token_digest sample_env ''q'') (auth_sessions session_db)"
    by (simp add: session_db_def token_digest_def sample_env_def sample_digest_def)
  then show ?thesis
    by (simp add: token_login_def password_login_def limited_def lim sample_site_def u proved Let_def issue_session_def
        empty_ledger_grants insert_session_def new_session_def set_sql_insert)
qed


end
