(* ===== verification/PasskeySafety.thy ===== *)
theory PasskeySafety
  imports AccountSafety
begin

text \<open>
  What holds of passkeys over any sequence of account calls: a challenge answers one ceremony, the
  tables of passkeys and challenges stay well-formed with at most ten passkeys to an account, and no
  call leaves an enabled account without a way to sign in.
\<close>

section \<open>Frames\<close>

lemma ceremony_frames [simp]:
  "challenges (set_account i g d) = challenges d" "passkeys (set_account i g d) = passkeys d"
  "identities (set_account i g d) = identities d" "users (set_account i g d) = sql_update (\<lambda>u. u_id u = i) g (users d)"
  "challenges (record_event e rq event j detail d) = challenges d"
  "identities (record_event e rq event j detail d) = identities d" "passkeys (record_event e rq event j detail d) = passkeys d"
  "challenges (set_passkey i k d) = challenges d" "users (set_passkey i k d) = users d"
  "identities (set_passkey i k d) = identities d" "passkeys (set_passkey i k d) = sql_update (\<lambda>p. pk_id p = i) k (passkeys d)"
  "challenges (use_passkey now p v d) = challenges d" "challenges (set_session c h d) = challenges d"
  "challenges (record_account_deletion_publish e now job ok d) = challenges d"
  "passkeys (record_account_deletion_publish e now job ok d) = passkeys d"
  "identities (record_account_deletion_publish e now job ok d) = identities d"
  "users (record_account_deletion_publish e now job ok d) = users d"
  by (simp_all add: set_account_def record_event_def set_passkey_def use_passkey_def set_session_def
      record_account_deletion_publish_def split: prod.split option.split)

lemma link_row:
  "link_identity j subject email d = Inr d' \<Longrightarrow> d' = d\<lparr>identities := sql_insert \<lparr>ei_user_id = j, ei_provider = ''google'',
     ei_subject = subject, ei_email_at_link = email\<rparr> (identities d)\<rparr>"
  by (auto simp: link_identity_def split: if_splits)

lemma user_row: "insert_user u d = Inr d' \<Longrightarrow> d' = d\<lparr>users := sql_insert u (users d)\<rparr> \<and> u_id u \<notin> u_id ` set (users d)"
  by (auto simp: insert_user_def list_ex_iff split: if_splits)

lemma staged_credentials:
  assumes "prepare_account_deletion e now job nonce u d = (j, d')"
  obtains (existing) "d' = d"
  | (staged) P where "challenges d' = sql_delete P (challenges d)"
      "passkeys d' = sql_delete (\<lambda>x. pk_user_id x = u_id u) (passkeys d)"
      "identities d' = sql_delete (\<lambda>x. ei_user_id x = u_id u) (identities d)"
      "users d' = sql_update (\<lambda>x. u_id x = u_id u) (lock_out now nonce) (users d)"
  using assms
proof (cases rule: prepare_cases)
  case existing
  from existing(2) show thesis by (rule that(1))
next
  case (staged d1)
  obtain P where "challenges (destroy_credentials (u_id u) d0) = sql_delete P (challenges d0)"
    if "auth_sessions d0 = auth_sessions d" for d0
    by (auto simp: destroy_credentials_def Let_def)
  then show thesis by (intro that(2) [of P]) (simp_all add: staged(3,4) destroy_credentials_tables)
qed

lemma other_rows:
  "insert_token t d = Inr d' \<Longrightarrow> passkeys d' = passkeys d \<and> challenges d' = challenges d \<and> users d' = users d \<and>
     identities d' = identities d"
  "insert_session x d = Inr d' \<Longrightarrow> passkeys d' = passkeys d \<and> challenges d' = challenges d \<and> users d' = users d \<and>
     identities d' = identities d"
  "insert_user u d = Inr d' \<Longrightarrow> passkeys d' = passkeys d \<and> challenges d' = challenges d"
  "link_identity j subject email d = Inr d' \<Longrightarrow> passkeys d' = passkeys d \<and> challenges d' = challenges d"
  by (auto dest: insert_token_Inr insert_rows(1) user_row link_row)

section \<open>A challenge answers one ceremony\<close>

abbreviation challenges_evolve :: "uuid \<Rightarrow> challenge list \<Rightarrow> challenge list \<Rightarrow> bool" where
  "challenges_evolve \<equiv> rows_evolve ch_id (\<lambda>c. ch_used_at c = None)"

abbreviation live_challenge :: "uuid \<Rightarrow> challenge list \<Rightarrow> bool" where
  "live_challenge \<equiv> live_row ch_id (\<lambda>c. ch_used_at c = None)"

interpretation ceremonies: account_relation "\<lambda>d d'. challenges_evolve k (challenges d) (challenges d')"
  "\<lambda>_. True" "\<lambda>_. True" "\<lambda>i. i \<noteq> k" for k
proof (unfold_locales, goal_cases)
  case (2 a b c)
  then show ?case by (rule rows_evolve_trans)
next
  case (12 u d a subject email d')
  from user_row [OF 12(1)] link_row [OF 12(2)] show ?case by simp
next
  case (13 d e now job nonce u)
  obtain j d' where run: "prepare_account_deletion e now job nonce u d = (j, d')" by (rule prod.exhaust)
  then show ?case by (cases rule: staged_credentials) (simp_all add: run rows_evolve_delete)
next
  case (15 ch d d')
  then show ?case by (auto dest!: ceremony_tables(1) intro!: rows_evolve_insert)
next
  case (16 d F now)
  then show ?case by (auto intro!: rows_evolve_update)
next
  case (17 d F)
  then show ?case by (simp add: rows_evolve_delete)
qed (auto dest: insert_rows(1) insert_token_Inr user_row link_row ceremony_tables(2))

fun spends_challenge :: "timed_call \<Rightarrow> uuid option" where
  "spends_challenge (now, rq, PasskeyLogin i credential fresh) = Some i"
| "spends_challenge (now, rq, RegisterPasskey i credential name new) = Some i"
| "spends_challenge (now, rq, ReauthenticatePasskey i credential) = Some i"
| "spends_challenge _ = None"

fun asks :: "timed_call \<Rightarrow> uuid option" where
  "asks (now, rq, q) = (case asked_by q of [] \<Rightarrow> None | i # _ \<Rightarrow> Some i)"

lemma challenges_kept:
  "asks q \<noteq> Some k \<Longrightarrow> challenges_evolve k (challenges (s_db s)) (challenges (s_db (snd (perform e q s))))"
proof -
  obtain now rq c where q: "q = (now, rq, c)" by (rule prod_cases3)
  show "asks q \<noteq> Some k \<Longrightarrow> challenges_evolve k (challenges (s_db s)) (challenges (s_db (snd (perform e q s))))"
    unfolding q by (rule ceremonies.performed; cases c; auto)
qed

text \<open>A ceremony that succeeds has consumed its challenge.\<close>

lemma auth_challenges: "current_auth e now rq l d = (r, d') \<Longrightarrow> challenges d' = challenges d"
  by (auto simp: current_auth_def touch_session_def split: option.splits if_splits sum.splits prod.splits)

definition consumes :: "time \<Rightarrow> uuid \<Rightarrow> db \<Rightarrow> db \<Rightarrow> bool" where
  "consumes now i d d' \<longleftrightarrow> live_challenge i (challenges d) \<and>
     challenges d' = sql_update (\<lambda>x. ch_id x = i) (\<lambda>x. x\<lparr>ch_used_at := Some now\<rparr>) (challenges d)"

lemma consumesI:
  assumes "consume_challenge now i purpose u sid d = (Inr c, d')" "challenges d = challenges d0" "challenges d'' = challenges d'"
  shows "consumes now i d0 d''"
  using assms by (auto simp: consumes_def live_row_def elim!: consume_Inr)

text \<open>Rules for the guards: an answer \<open>burns\<close> the challenge if it fails or has consumed it.\<close>

definition burns :: "time \<Rightarrow> uuid \<Rightarrow> site \<Rightarrow> 'a answer \<Rightarrow> bool" where
  "burns now i s a \<longleftrightarrow> (\<forall>v. fst a = Inr v \<longrightarrow> consumes now i (s_db s) (s_db (after a)))"

lemma burns_failed: "burns now i s (ceremony_failed e rq event j code x d s')" "burns now i s (fail x s')"
  by (simp_all add: burns_def failed_ceremony_frame) (simp add: fail_def)

lemma burns_limited: "(\<And>r. burns now i (s\<lparr>s_rates := r\<rparr>) (k (s\<lparr>s_rates := r\<rparr>))) \<Longrightarrow> burns now i s (limited e now' rq j s k)"
  by (auto simp: limited_def burns_failed split: prod.split sum.split) (simp add: burns_def)

lemma burns_authed:
  assumes "\<And>u c d. challenges d = challenges (s_db s) \<Longrightarrow> burns now i (commit s d) (k u c (commit s d))"
  shows "burns now i s (authed e now' rq s k)" "burns now i s (recently_authed e now' rq s k)"
proof -
  have "burns now i s (k u c (commit s d))" if "challenges d = challenges (s_db s)" for u c d
    using assms [OF that, of u c] that by (simp add: burns_def consumes_def)
  then show "burns now i s (authed e now' rq s k)" "burns now i s (recently_authed e now' rq s k)"
    by (auto simp: authed_def recently_authed_def require_recent_auth_def burns_failed split: prod.split sum.split
        dest: auth_challenges)
qed

lemma burns_locked: "(\<And>v. burns now i s (k v)) \<Longrightarrow> burns now i s (locked_user u s k)"
  by (simp add: locked_user_def burns_failed split: option.split)

lemma burns_reset: "burns now i s a \<Longrightarrow> burns now i s (reset_after e rq j a)"
  by (cases a; cases "fst a") (auto simp: burns_def reset_after_def after_def)

lemma burnsI:
  "consume_challenge now i purpose u sid d = (Inr c, d') \<Longrightarrow> s_db s = d \<Longrightarrow> challenges (s_db (after a)) = challenges d' \<Longrightarrow>
   burns now i s a"
  by (auto simp: burns_def intro: consumesI)

lemmas burning = burns_limited burns_authed burns_locked burns_reset

lemma login_burns: "burns now i s (passkey_login_verify e now rq i credential fresh s)"
proof (cases e now rq i credential fresh s rule: passkey_login_cases)
  case (signed parsed candidate c d u stored w r)
  have "challenges (s_db (after (passkey_signed_in e now rq u stored w fresh d s'))) = challenges d"
    if "fst (passkey_signed_in e now rq u stored w fresh d s') = Inr v" for v s'
    using that by (auto simp: passkey_signed_in_def issue_session_def reset_after_def after_def fail_def Let_def
        dest!: insert_rows(1) split: sum.splits prod.splits)
  with signed(5) show ?thesis by (auto simp: burns_def intro: consumesI [OF signed(3)])
qed (simp add: burns_def)

lemma stored_passkey_challenges:
  "challenges (s_db (after (store_passkey e now rq u name i checked d s))) = challenges d"
  by (cases checked) (auto simp: store_passkey_def Let_def split: sum.split dest: ceremony_tables(2))

lemma register_burns: "burns now i s (passkey_registration_verify e now rq i credential name new s)"
  unfolding passkey_registration_verify_def Let_def
  by (intro burning)
    (auto simp: burns_failed stored_passkey_challenges split: sum.split prod.split intro!: burns_reset intro: burnsI)

lemma reauthentication_burns: "burns now i s (passkey_reauthentication_verify e now rq i credential s)"
  unfolding passkey_reauthentication_verify_def Let_def
  by (intro burning)
    (auto simp: burns_failed stored_passkey_challenges split: sum.split prod.split intro!: burns_reset intro: burnsI)

lemma success_consumes:
  assumes "spends_challenge q = Some i" "fst (perform e q s) = Inr v"
  shows "\<exists>now. consumes now i (s_db s) (s_db (snd (perform e q s)))"
proof -
  obtain now rq c where q: "q = (now, rq, c)" by (rule prod_cases3)
  have "consumes now i (s_db s) (s_db (snd (perform e q s)))"
    using assms login_burns reauthentication_burns register_burns
    unfolding q by (cases c) (auto simp: burns_def)
  then show ?thesis by blast
qed

interpretation passkey_ceremonies: single_use "perform e" spends_challenge "\<lambda>q k. asks q = Some k"
  "\<lambda>k s. live_challenge k (challenges (s_db s))" "\<lambda>s. distinct (map ch_id (challenges (s_db s)))" for e
proof (unfold_locales, goal_cases)
  case (1 s q k v)
  from success_consumes [OF 1(2,3)] show ?case by (auto simp: consumes_def)
next
  case (2 s q k v)
  from success_consumes [OF 2(2,3)] show ?case by (auto simp: consumes_def live_row_def set_sql_update)
next
  case (3 s k q)
  with challenges_kept show ?case unfolding rows_evolve_def by blast
next
  case (4 s q)
  obtain k where "asks q \<noteq> Some k"
  proof (cases "asks q = Some 0")
    case True
    then have "asks q \<noteq> Some 1" by simp
    then show thesis by (rule that)
  qed (rule that)
  from challenges_kept [OF this, of s] 4 show ?case by (simp add: rows_evolve_def)
qed

lemma history_ceremonies: "history e qs s = passkey_ceremonies.outcomes e qs s"
  by (induction qs arbitrary: s) simp_all

text \<open>C20: A WebAuthn challenge answers at most one ceremony.  Over any sequence of account calls by any
  clients, at most one of the sign-ins, registrations and reauthentications that name the challenge
  succeeds, whatever assertions are replayed, as long as no new challenge is issued under its
  identifier.\<close>

theorem challenge_answers_once:
  assumes "distinct (map ch_id (challenges (s_db s)))" "\<forall>q \<in> set qs. asks q \<noteq> Some k"
  shows "length (filter (\<lambda>(q, r). spends_challenge q = Some k \<and> \<not> isl r) (history e qs s)) \<le> 1"
  unfolding history_ceremonies by (rule passkey_ceremonies.at_most_once [OF assms])

section \<open>Well-formed credentials\<close>

definition credentials_ok :: "db \<Rightarrow> bool" where
  "credentials_ok d \<longleftrightarrow>
     distinct (map pk_id (passkeys d)) \<and> distinct (map pk_credential_id (passkeys d)) \<and>
     (\<forall>p \<in> set (passkeys d). 0 \<le> pk_sign_count p \<and>
        length (filter (\<lambda>q. pk_user_id q = pk_user_id p) (passkeys d)) \<le> MAX_PASSKEYS_PER_ACCOUNT) \<and>
     distinct (map ch_id (challenges d)) \<and> distinct (map ch_challenge (challenges d)) \<and>
     (\<forall>c \<in> set (challenges d). bound_challenge c)"

lemma credentials_ok_same:
  "passkeys d' = passkeys d \<Longrightarrow> challenges d' = challenges d \<Longrightarrow> credentials_ok d \<longrightarrow> credentials_ok d'"
  by (simp add: credentials_ok_def)

lemma length_filter_sub: "length (filter P (sql_delete Q t)) \<le> length (filter P t)"
  by (induction t) auto

lemma length_filter_keep: "(\<And>x. P (g x) = P x) \<Longrightarrow> length (filter P (sql_update Q g t)) = length (filter P t)"
  by (induction t) auto

lemma credentials_ok_fewer:
  assumes "passkeys d' = sql_delete P (passkeys d)" "challenges d' = sql_delete Q (challenges d)"
  shows "credentials_ok d \<longrightarrow> credentials_ok d'"
proof
  assume ok: "credentials_ok d"
  have "length (filter (\<lambda>q. pk_user_id q = i) (passkeys d')) \<le> length (filter (\<lambda>q. pk_user_id q = i) (passkeys d))" for i
    unfolding assms(1) by (rule length_filter_sub)
  with ok show "credentials_ok d'"
    by (auto simp: credentials_ok_def assms set_sql_delete distinct_map_sql_delete intro: order_trans)
qed

lemma sql_delete_none: "sql_delete (\<lambda>_. False) t = t"
  by (simp add: sql_delete_def)

lemma no_owner_none: "(\<forall>q \<in> set t. k q \<noteq> i) \<Longrightarrow> filter (\<lambda>q. k q = i) t = []"
  by simp

interpretation credentials: account_relation "\<lambda>d d'. credentials_ok d \<longrightarrow> credentials_ok d'"
  "\<lambda>_. True" "\<lambda>_. True" "\<lambda>_. True"
proof (unfold_locales, goal_cases)
  case (2 a b c)
  then show ?case by blast
next
  case (12 u d a subject email d')
  from user_row [OF 12(1)] link_row [OF 12(2)] show ?case by (intro credentials_ok_same) simp_all
next
  case (13 d e now job nonce u)
  obtain j d' where run: "prepare_account_deletion e now job nonce u d = (j, d')" by (rule prod.exhaust)
  then show ?case by (cases rule: staged_credentials) (simp_all add: run credentials_ok_fewer)
next
  case (15 ch d d')
  then show ?case
    by (auto dest!: ceremony_tables(1) simp: credentials_ok_def set_sql_insert distinct_map_sql_insert)
next
  case (16 d F now)
  then show ?case
    by (auto simp: credentials_ok_def set_sql_update map_sql_update bound_challenge_def split: if_splits)
next
  case (17 d F)
  then show ?case by (intro credentials_ok_fewer [where P = "\<lambda>_. False"]) (simp_all add: sql_delete_none)
next
  case (18 k d i)
  have k: "pk_id (k p) = pk_id p" "pk_user_id (k p) = pk_user_id p" "pk_credential_id (k p) = pk_credential_id p"
    "0 \<le> pk_sign_count p \<Longrightarrow> 0 \<le> pk_sign_count (k p)" for p
    using 18 [of p] by simp_all
  then show ?case
    by (auto simp: credentials_ok_def set_sql_update map_sql_update length_filter_keep)
next
  case (19 p d d')
  from ceremony_tables(2) [OF 19(1)] 19(2,3) show ?case
    by (auto simp: credentials_ok_def set_sql_insert distinct_map_sql_insert sql_insert_def)
next
  case (20 d u p e)
  show ?case by (intro credentials_ok_fewer [where Q = "\<lambda>_. False"]) (simp_all add: sql_delete_none)
qed (rule credentials_ok_same; auto dest!: other_rows)+

abbreviation step :: "env \<Rightarrow> timed_call \<Rightarrow> site \<Rightarrow> site" where
  "step e q s \<equiv> snd (perform e q s)"

interpretation credential_steps: invariant_steps "\<lambda>s. credentials_ok (s_db s)" "step e" for e
proof
  fix s :: site and q :: timed_call
  assume ok: "credentials_ok (s_db s)"
  obtain now rq c where q: "q = (now, rq, c)" by (rule prod_cases3)
  show "credentials_ok (s_db (step e q s))" unfolding q by (rule credentials.performed [THEN mp, OF _ _ _ ok]) simp_all
qed

text \<open>C36: The tables of passkeys and challenges stay well-formed under every sequence of account calls:
  identifiers, credential identifiers and random challenges stay unique, signature counters never
  become negative, every challenge is bound as its purpose requires, and no account ever holds more
  than ten passkeys.\<close>

theorem credentials_stay_well_formed:
  assumes "credentials_ok (s_db s)"
  shows "credentials_ok (s_db (fold (step e) qs s))"
  using assms by (rule credential_steps.fold_inv)

section \<open>Nobody is locked out\<close>

definition can_sign_in :: "db \<Rightarrow> user \<Rightarrow> bool" where
  "can_sign_in d u \<longleftrightarrow> u_password_enabled u \<or>
     list_ex (\<lambda>x. ei_user_id x = u_id u \<and> ei_provider x = ''google'') (identities d) \<or>
     list_ex (\<lambda>p. pk_user_id p = u_id u) (passkeys d)"

definition nobody_locked_out :: "db \<Rightarrow> bool" where
  "nobody_locked_out d \<longleftrightarrow> distinct (map u_id (users d)) \<and> distinct (map pk_id (passkeys d)) \<and>
     (\<forall>u \<in> set (users d). u_disabled_at u = None \<longrightarrow> can_sign_in d u)"

lemma removal_keeps_method:
  assumes "find_user d (u_id u) = Some u" "p \<in> set (passkeys d)" "pk_user_id p = u_id u" "another_method e u p d"
    "nobody_locked_out d"
  shows "nobody_locked_out (d\<lparr>passkeys := sql_delete (\<lambda>x. pk_id x = pk_id p) (passkeys d)\<rparr>)"
proof -
  let ?d = "d\<lparr>passkeys := sql_delete (\<lambda>x. pk_id x = pk_id p) (passkeys d)\<rparr>"
  have uniq: "distinct (map u_id (users d))" "distinct (map pk_id (passkeys d))" using assms(5) by (simp_all add: nobody_locked_out_def)
  have "can_sign_in ?d w" if w: "w \<in> set (users d)" "u_disabled_at w = None" for w
  proof (cases "u_id w = u_id u")
    case True
    have "u \<in> set (users d)" using assms(1) by (auto simp: find_user_def dest: sql_first_SomeD)
    then have "w = u" using key_unique [OF uniq(1) w(1)] True by blast
    with assms(4) show ?thesis
      by (auto simp: another_method_def can_sign_in_def list_ex_iff set_sql_delete filter_empty_conv sql_first_None)
  next
    case False
    then have "q \<in> set (passkeys ?d)" if "q \<in> set (passkeys d)" "pk_user_id q = u_id w" for q
      using that key_unique [OF uniq(2) that(1) assms(2)] assms(3) by (auto simp: set_sql_delete)
    moreover have "can_sign_in d w" using assms(5) w by (simp add: nobody_locked_out_def)
    ultimately show ?thesis by (auto simp: can_sign_in_def list_ex_iff)
  qed
  then show ?thesis using uniq by (simp add: nobody_locked_out_def distinct_map_sql_delete)
qed

lemma account_update_keeps_method:
  assumes "\<And>u. same_account u (g u)" "nobody_locked_out d"
  shows "nobody_locked_out (set_account i g d)"
proof -
  have g: "u_id (g u) = u_id u" "u_disabled_at (g u) = u_disabled_at u" "u_password_enabled u \<Longrightarrow> u_password_enabled (g u)" for u
    using assms(1) [of u] by simp_all
  have "can_sign_in (set_account i g d) (g u)" if "can_sign_in d u" for u
    using that g [of u] by (auto simp: can_sign_in_def)
  moreover have "can_sign_in (set_account i g d) u = can_sign_in d u" for u by (simp add: can_sign_in_def)
  ultimately show ?thesis using assms(2) g by (auto simp: nobody_locked_out_def set_sql_update map_sql_update)
qed

interpretation methods: account_relation "\<lambda>d d'. nobody_locked_out d \<longrightarrow> nobody_locked_out d'"
  "\<lambda>_. True" "\<lambda>_. True" "\<lambda>_. True"
proof (unfold_locales, goal_cases)
  case (3 g d i)
  then show ?case using account_update_keeps_method by blast
next
  case (10 u d d')
  from user_row [OF 10(1)] 10(2) show ?case
    by (auto simp: nobody_locked_out_def can_sign_in_def set_sql_insert distinct_map_sql_insert)
next
  case (11 j subject email d d')
  from link_row [OF 11] show ?case
    by (auto simp: nobody_locked_out_def can_sign_in_def list_ex_iff set_sql_insert)
next
  case (12 u d a subject email d')
  from user_row [OF 12(1)] link_row [OF 12(2)] show ?case
    by (auto simp: nobody_locked_out_def can_sign_in_def list_ex_iff set_sql_insert distinct_map_sql_insert)
next
  case (13 d e now job nonce u)
  obtain j d' where run: "prepare_account_deletion e now job nonce u d = (j, d')" by (rule prod.exhaust)
  then show ?case
  proof (cases rule: staged_credentials)
    case (staged P)
    then show ?thesis
      by (auto simp: run nobody_locked_out_def can_sign_in_def list_ex_iff set_sql_update set_sql_delete map_sql_update
          distinct_map_sql_delete lock_out_def) metis
  qed (simp add: run)
next
  case (15 ch d d')
  then show ?case by (auto dest!: ceremony_tables(1) simp: nobody_locked_out_def can_sign_in_def)
next
  case (18 k d i)
  have k: "pk_id (k p) = pk_id p" "pk_user_id (k p) = pk_user_id p" for p using 18 [of p] by simp_all
  then show ?case
    by (auto simp: nobody_locked_out_def can_sign_in_def list_ex_iff map_sql_update bex_sql_update)
next
  case (19 p d d')
  from ceremony_tables(2) [OF 19(1)] show ?case
    by (auto simp: nobody_locked_out_def can_sign_in_def list_ex_iff set_sql_insert distinct_map_sql_insert)
next
  case (20 d u p e)
  then show ?case using removal_keeps_method by blast
qed (auto dest!: other_rows(1,2) simp: nobody_locked_out_def can_sign_in_def)

interpretation method_steps: invariant_steps "\<lambda>s. nobody_locked_out (s_db s)" "step e" for e
proof
  fix s :: site and q :: timed_call
  assume ok: "nobody_locked_out (s_db s)"
  obtain now rq c where q: "q = (now, rq, c)" by (rule prod_cases3)
  show "nobody_locked_out (s_db (step e q s))" unfolding q by (rule methods.performed [THEN mp, OF _ _ _ ok]) simp_all
qed


section \<open>Examples\<close>

definition ceremony_db :: db where
  "ceremony_db = session_db\<lparr>passkeys := [\<lparr>pk_id = 4, pk_user_id = 1, pk_credential_id = ''123'', pk_public_key = ''p'',
       pk_sign_count = 0, pk_name = ''phone'', pk_transports = [], pk_aaguid = None, pk_device_type = ''single_device'',
       pk_backed_up = False, pk_last_used_at = None, pk_created_at = 0\<rparr>],
     challenges := [\<lparr>ch_id = 7, ch_user_id = None, ch_session_id = None, ch_purpose = PasskeyAuthentication,
       ch_challenge = ''c'', ch_discoverable = True, ch_expires_at = 100, ch_used_at = None, ch_created_at = 0\<rparr>]\<rparr>"

definition two_sign_ins :: "timed_call list" where
  "two_sign_ins = [(5, plain_request Map.empty, PasskeyLogin 7 (JStr ''c'') (10, ''q'')),
     (6, plain_request Map.empty, PasskeyLogin 7 (JStr ''c'') (11, ''r''))]"

lemmas ceremony_sample = sample_site_def ceremony_db_def session_db_def empty_db_def two_sign_ins_def

theorem challenge_answers_once_witness:
  "length (filter (\<lambda>(q, r). spends_challenge q = Some 7 \<and> \<not> isl r)
     (history sample_env two_sign_ins (sample_site ceremony_db (Directory True [])))) \<le> 1"
  by (rule challenge_answers_once) (simp_all add: ceremony_sample)

theorem credentials_stay_well_formed_witness:
  "credentials_ok (s_db (fold (step sample_env) two_sign_ins (sample_site ceremony_db (Directory True []))))"
  by (rule credentials_stay_well_formed)
    (simp add: ceremony_sample credentials_ok_def MAX_PASSKEYS_PER_ACCOUNT_def bound_challenge_def)


end
