(* ===== verification/NodeAttestation.thy ===== *)
theory NodeAttestation
  imports Sample
begin

text \<open>
  What a storage node signs and reports: the canonical messages of \<open>services/node_attestation.py\<close> with
  the strict base 64 they use, the freshness of a timestamp, and the limits \<open>schemas/node.py\<close> puts on
  reported capabilities, whose loop over pending values is shown to end.  The verification of an
  Ed25519 signature is the field \<open>ed25519_verify\<close> of the environment.
\<close>

section \<open>Encodings\<close>

definition PUBLIC_KEY_BYTES :: nat where "PUBLIC_KEY_BYTES = 32"

definition SIGNATURE_BYTES :: nat where "SIGNATURE_BYTES = 64"

definition MAX_ATTESTATION_AGE_MS :: int where "MAX_ATTESTATION_AGE_MS = 5 * 60 * 1000"

definition MAX_ATTESTATION_FUTURE_MS :: int where "MAX_ATTESTATION_FUTURE_MS = 30 * 1000"

text \<open>\<open>base64.b64decode(..., altchars=b"-_", validate=True)\<close> of a text without padding: the standard
  characters stay valid, and the bits that fill up the last character are dropped.\<close>

definition b64_value :: "char \<Rightarrow> nat option" where
  "b64_value c = (let n = of_char c :: nat in
     if 65 \<le> n \<and> n \<le> 90 then Some (n - 65)
     else if 97 \<le> n \<and> n \<le> 122 then Some (n - 71)
     else if 48 \<le> n \<and> n \<le> 57 then Some (n + 4)
     else if c = CHR ''-'' \<or> c = CHR ''+'' then Some 62
     else if c = CHR ''_'' \<or> c = CHR ''/'' then Some 63 else None)"

fun b64_bytes :: "nat list \<Rightarrow> bytes option" where
  "b64_bytes [] = Some []"
| "b64_bytes [a] = None"
| "b64_bytes [a, b] = Some [char_of (a * 4 + b div 16)]"
| "b64_bytes [a, b, c] = Some [char_of (a * 4 + b div 16), char_of (b mod 16 * 16 + c div 4)]"
| "b64_bytes (a # b # c # d # r) = map_option
     (\<lambda>t. char_of (a * 4 + b div 16) # char_of (b mod 16 * 16 + c div 4) # char_of (c mod 4 * 64 + d) # t) (b64_bytes r)"

definition b64decode :: "string \<Rightarrow> bytes option" where
  "b64decode s = (let vs = map b64_value s in if None \<in> set vs then None else b64_bytes (map the vs))"

definition decode_base64url :: "string \<Rightarrow> nat \<Rightarrow> string \<Rightarrow> exn + bytes" where
  "decode_base64url value expected_bytes label =
     (if value = [] \<or> CHR ''='' \<in> set value
      then Inl (NodeAttestationError (label @ '' must be canonical unpadded base64url''))
      else case b64decode value of
        None \<Rightarrow> Inl (NodeAttestationError (label @ '' must be canonical unpadded base64url''))
      | Some decoded \<Rightarrow>
          if length decoded \<noteq> expected_bytes \<or> encode_base64url decoded \<noteq> value
          then Inl (NodeAttestationError (label @ '' has an invalid Ed25519 length or encoding''))
          else Inr decoded)"

section \<open>Signed messages\<close>

definition canonical_payload :: "string \<Rightarrow> (string \<times> json) list \<Rightarrow> bytes" where
  "canonical_payload action entries = dumps (JObj ((''action'', JStr action) # entries))"

definition heartbeat_payload :: "uuid \<Rightarrow> int \<Rightarrow> string option \<Rightarrow> json \<Rightarrow> bytes" where
  "heartbeat_payload node_id timestamp_ms version capabilities =
     canonical_payload ''heartbeat'' [(''node_id'', JStr (uuid_str node_id)), (''timestamp_ms'', JInt timestamp_ms),
       (''version'', json_opt_str version), (''capabilities'', capabilities)]"

definition claim_payload :: "string \<Rightarrow> string \<Rightarrow> string \<Rightarrow> int \<Rightarrow> string option \<Rightarrow> bytes" where
  "claim_payload code name public_key timestamp_ms endpoint_url =
     canonical_payload ''claim'' [(''code'', JStr (upper code)), (''name'', JStr name), (''public_key'', JStr public_key),
       (''timestamp_ms'', JInt timestamp_ms), (''endpoint_url'', json_opt_str endpoint_url)]"

definition rotation_payload :: "uuid \<Rightarrow> int \<Rightarrow> bytes" where
  "rotation_payload node_id timestamp_ms =
     canonical_payload ''rotate_secret'' [(''node_id'', JStr (uuid_str node_id)), (''timestamp_ms'', JInt timestamp_ms)]"

definition validate_timestamp :: "int \<Rightarrow> int option \<Rightarrow> int \<Rightarrow> exn + unit" where
  "validate_timestamp timestamp_ms last_timestamp_ms now_ms =
     (if timestamp_ms < now_ms - MAX_ATTESTATION_AGE_MS
      then Inl (NodeAttestationError ''Attestation timestamp is stale'')
      else if timestamp_ms > now_ms + MAX_ATTESTATION_FUTURE_MS
      then Inl (NodeAttestationError ''Attestation timestamp is too far in the future'')
      else case last_timestamp_ms of
        None \<Rightarrow> Inr ()
      | Some l \<Rightarrow>
          if timestamp_ms \<le> l then Inl (NodeAttestationError ''Attestation timestamp was already used'') else Inr ())"

definition verify_signature :: "env \<Rightarrow> string \<Rightarrow> string \<Rightarrow> bytes \<Rightarrow> exn + unit" where
  "verify_signature e public_key signature message =
     sbind (decode_base64url public_key PUBLIC_KEY_BYTES ''public_key'') (\<lambda>raw_key.
     sbind (decode_base64url signature SIGNATURE_BYTES ''signature'') (\<lambda>raw_signature.
     require (ed25519_verify e raw_key raw_signature message)
       (NodeAttestationError ''Ed25519 signature verification failed'')))"

definition validate_public_key :: "string \<Rightarrow> exn + string" where
  "validate_public_key public_key =
     sbind (decode_base64url public_key PUBLIC_KEY_BYTES ''public_key'') (\<lambda>raw_key. Inr (encode_base64url raw_key))"

section \<open>The capabilities a node reports\<close>

definition MAX_CAPABILITY_KEYS :: nat where "MAX_CAPABILITY_KEYS = 64"

definition MAX_CAPABILITY_BYTES :: nat where "MAX_CAPABILITY_BYTES = 16 * 1024"

definition MAX_CAPABILITY_DEPTH :: nat where "MAX_CAPABILITY_DEPTH = 8"

definition MAX_CAPABILITY_MEMBERS :: nat where "MAX_CAPABILITY_MEMBERS = 256"

definition not_finite :: "string set" where
  "not_finite = {''nan'', ''inf'', ''-inf''}"

definition good_key :: "string \<Rightarrow> bool" where
  "good_key k \<longleftrightarrow> k \<noteq> [] \<and> length k \<le> 128"

text \<open>One pass of the loop on the value it has popped: the error, or the number of members so far and the
  values to push, the first to be popped first.\<close>

definition inspect :: "json \<Rightarrow> nat \<Rightarrow> nat \<Rightarrow> exn + nat \<times> (json \<times> nat) list" where
  "inspect current depth members =
     (if depth > MAX_CAPABILITY_DEPTH then Inl (ValueError ''capabilities may be nested at most 8 levels'')
      else sbind
        (case current of
           JObj kvs \<Rightarrow>
             if list_all (\<lambda>(k, v). good_key k) kvs
             then Inr (members + length kvs, rev (map (\<lambda>(k, v). (v, depth + 1)) kvs))
             else Inl (ValueError ''capability keys must contain 1 to 128 characters'')
         | JList xs \<Rightarrow> Inr (members + length xs, rev (map (\<lambda>x. (x, depth + 1)) xs))
         | JFloat t \<Rightarrow>
             if t \<in> not_finite
             then Inl (ValueError ''capabilities must contain only JSON objects, arrays, and scalar values'')
             else Inr (members, [])
         | _ \<Rightarrow> Inr (members, []))
        (\<lambda>(members, pushed).
           if members > MAX_CAPABILITY_MEMBERS then Inl (ValueError ''capabilities may contain at most 256 members'')
           else Inr (members, pushed)))"

partial_function (option) check_pending :: "nat \<Rightarrow> (json \<times> nat) list \<Rightarrow> (exn + unit) option" where
  "check_pending members pending =
     (case pending of
        [] \<Rightarrow> Some (Inr ())
      | (current, depth) # rest \<Rightarrow>
          (case inspect current depth members of
             Inl x \<Rightarrow> Some (Inl x)
           | Inr (members, pushed) \<Rightarrow> check_pending members (pushed @ rest)))"

definition bounded_capabilities :: "json \<Rightarrow> (exn + json) option" where
  "bounded_capabilities value =
     (case value of
        JObj kvs \<Rightarrow>
          if length kvs > MAX_CAPABILITY_KEYS
          then Some (Inl (ValueError ''capabilities may contain at most 64 top-level keys''))
          else map_option (\<lambda>r. sbind r (\<lambda>_.
            if length (dumps value) > MAX_CAPABILITY_BYTES
            then Inl (ValueError ''canonical capabilities may be at most 16384 bytes'') else Inr value))
            (check_pending 0 [(value, 0)])
      | _ \<Rightarrow> Some (Inl (ValueError ''Input should be a valid dictionary'')))"

section \<open>The encoding is strict\<close>

lemma b64_value_char: "n < 64 \<Longrightarrow> b64_value (b64_char n) = Some n"
proof -
  assume "n < 64"
  then have "n \<in> set [0..<64]" by simp
  moreover have "list_all (\<lambda>n. b64_value (b64_char n) = Some n) [0..<64]"
    by (simp add: upt_conv_Cons b64_char_def b64_value_def)
  ultimately show ?thesis by (simp only: list_all_iff)
qed

lemma char_parts: "of_char c div 4 < (64 :: nat)" "of_char c div 16 < (16 :: nat)" "of_char c div 64 < (4 :: nat)"
proof -
  have "of_char c < (256 :: nat)" by simp
  then show "of_char c div 4 < (64 :: nat)" "of_char c div 16 < (16 :: nat)" "of_char c div 64 < (4 :: nat)" by linarith+
qed

lemma joined_parts:
  "v < 16 \<Longrightarrow> (u mod 4 * 16 + v) div 16 = u mod 4 \<and> (u mod 4 * 16 + v) mod 16 = v \<and> u mod 4 * 16 + v < 64"
  "w < 4 \<Longrightarrow> (u mod 16 * 4 + w) div 4 = u mod 16 \<and> (u mod 16 * 4 + w) mod 4 = w \<and> u mod 16 * 4 + w < 64"
  for u v w :: nat
proof -
  assume "v < 16"
  moreover have "u mod 4 < 4" by simp
  ultimately show "(u mod 4 * 16 + v) div 16 = u mod 4 \<and> (u mod 4 * 16 + v) mod 16 = v \<and> u mod 4 * 16 + v < 64"
    by (simp add: div_add1_eq mod_add_eq)
next
  assume "w < 4"
  moreover have "u mod 16 < 16" by simp
  ultimately show "(u mod 16 * 4 + w) div 4 = u mod 16 \<and> (u mod 16 * 4 + w) mod 4 = w \<and> u mod 16 * 4 + w < 64"
    by (simp add: div_add1_eq mod_add_eq)
qed

lemma encode_values:
  "\<exists>ns. map b64_value (encode_base64url b) = map Some ns \<and> b64_bytes ns = Some b"
proof (induction b rule: encode_base64url.induct)
  case 1
  show ?case by (intro exI [of _ "[]"]) simp
next
  case (2 a)
  let ?x = "of_char a :: nat"
  have "?x mod 4 * 16 < 64" "?x div 4 * 4 + ?x mod 4 = ?x" by simp_all
  then show ?case
    by (intro exI [of _ "[?x div 4, ?x mod 4 * 16]"]) (simp add: b64_value_char char_parts Let_def)
next
  case (3 a b)
  let ?x = "of_char a :: nat" and ?y = "of_char b :: nat"
  let ?m = "?x mod 4 * 16 + ?y div 16"
  have "?x div 4 * 4 + ?x mod 4 = ?x" "?y div 16 * 16 + ?y mod 16 = ?y" "?y mod 16 * 4 < 64" by simp_all
  then show ?case
    using joined_parts(1) [OF char_parts(2), of ?x b]
    by (intro exI [of _ "[?x div 4, ?m, ?y mod 16 * 4]"]) (simp add: b64_value_char char_parts Let_def)
next
  case (4 a b c r)
  let ?x = "of_char a :: nat" and ?y = "of_char b :: nat" and ?z = "of_char c :: nat"
  let ?m = "?x mod 4 * 16 + ?y div 16" and ?n = "?y mod 16 * 4 + ?z div 64"
  from 4 obtain ns where ns: "map b64_value (encode_base64url r) = map Some ns" "b64_bytes ns = Some r" by blast
  have "?x div 4 * 4 + ?x mod 4 = ?x" "?y div 16 * 16 + ?y mod 16 = ?y" "?z div 64 * 64 + ?z mod 64 = ?z" "?z mod 64 < 64"
    by simp_all
  then show ?case
    using joined_parts(1) [OF char_parts(2), of ?x b] joined_parts(2) [OF char_parts(3), of ?y c]
    by (intro exI [of _ "[?x div 4, ?m, ?n, ?z mod 64] @ ns"]) (simp add: b64_value_char char_parts Let_def ns)
qed

lemma b64decode_encode: "b64decode (encode_base64url b) = Some b"
proof -
  obtain ns where "map b64_value (encode_base64url b) = map Some ns" "b64_bytes ns = Some b" using encode_values by blast
  then show ?thesis by (auto simp: b64decode_def Let_def comp_def)
qed

text \<open>Keys and signatures have exactly one accepted spelling: decoding accepts a text if and only if it
  is the unpadded encoding of bytes of the expected length, which it returns.\<close>

theorem decode_base64url_exact:
  "decode_base64url v n label = Inr b \<longleftrightarrow> b \<noteq> [] \<and> length b = n \<and> v = encode_base64url b"
proof
  assume "decode_base64url v n label = Inr b"
  then have v: "v \<noteq> []" "length b = n" "encode_base64url b = v"
    by (auto simp: decode_base64url_def split: if_splits option.splits)
  moreover from v(1,3) have "b \<noteq> []" by auto
  ultimately show "b \<noteq> [] \<and> length b = n \<and> v = encode_base64url b" by simp
next
  assume b: "b \<noteq> [] \<and> length b = n \<and> v = encode_base64url b"
  obtain ns where ns: "map b64_value v = map Some ns" "b64_bytes ns = Some b" using encode_values b by blast
  then have "v \<noteq> []" using b by auto
  moreover have "CHR ''='' \<notin> set v"
  proof
    assume "CHR ''='' \<in> set v"
    then have "b64_value (CHR ''='') \<in> set (map Some ns)" unfolding ns(1) [symmetric] by simp
    then show False by (auto simp: b64_value_def)
  qed
  ultimately show "decode_base64url v n label = Inr b" using b by (simp add: decode_base64url_def b64decode_encode)
qed

section \<open>The loop over capabilities\<close>

text \<open>What a document has to satisfy, by recursion on it.\<close>

fun allowed :: "nat \<Rightarrow> json \<Rightarrow> bool" where
  "allowed depth (JObj kvs) \<longleftrightarrow> depth \<le> MAX_CAPABILITY_DEPTH \<and>
     list_all good_key (map fst kvs) \<and> list_all (\<lambda>b. b) (map (\<lambda>(k, v). allowed (depth + 1) v) kvs)"
| "allowed depth (JList xs) \<longleftrightarrow> depth \<le> MAX_CAPABILITY_DEPTH \<and> list_all (\<lambda>b. b) (map (\<lambda>x. allowed (depth + 1) x) xs)"
| "allowed depth (JFloat t) \<longleftrightarrow> depth \<le> MAX_CAPABILITY_DEPTH \<and> t \<notin> not_finite"
| "allowed depth _ \<longleftrightarrow> depth \<le> MAX_CAPABILITY_DEPTH"

fun member_count :: "json \<Rightarrow> nat" where
  "member_count (JObj kvs) = length kvs + sum_list (map (\<lambda>(k, v). member_count v) kvs)"
| "member_count (JList xs) = length xs + sum_list (map member_count xs)"
| "member_count _ = 0"

definition members_of :: "(json \<times> nat) list \<Rightarrow> nat" where
  "members_of pending = sum_list (map (member_count \<circ> fst) pending)"

lemma members_of_simps [simp]:
  "members_of [] = 0" "members_of (x # p) = member_count (fst x) + members_of p" "members_of (p @ q) = members_of p + members_of q"
  by (simp_all add: members_of_def)

lemma members_of_pushed [simp]:
  "members_of (rev (map (\<lambda>(k, v). (v, n)) kvs)) = sum_list (map (\<lambda>(k, v). member_count v) kvs)"
  "members_of (rev (map (\<lambda>x. (x, n)) xs)) = sum_list (map member_count xs)"
  by (induction kvs) (auto simp: members_of_def comp_def, induction xs, auto)

definition all_allowed :: "(json \<times> nat) list \<Rightarrow> bool" where
  "all_allowed pending \<longleftrightarrow> list_all (\<lambda>(j, d). allowed d j) pending"

lemma inspect_spec:
  assumes "m \<le> MAX_CAPABILITY_MEMBERS"
  shows "case inspect j d m of
      Inl x \<Rightarrow> \<not> (allowed d j \<and> m + member_count j \<le> MAX_CAPABILITY_MEMBERS)
    | Inr (m', pushed) \<Rightarrow> m' \<le> MAX_CAPABILITY_MEMBERS \<and> length pushed + members_of pushed = member_count j \<and>
        m' + members_of pushed = m + member_count j \<and> (all_allowed pushed \<longleftrightarrow> allowed d j)"
  using assms by (cases j) (auto simp: inspect_def all_allowed_def list_all_iff split_beta)

lemma check_pending_decides:
  assumes "m \<le> MAX_CAPABILITY_MEMBERS"
  shows "\<exists>r. check_pending m pending = Some r \<and>
    (r = Inr () \<longleftrightarrow> all_allowed pending \<and> m + members_of pending \<le> MAX_CAPABILITY_MEMBERS)"
  using assms
proof (induction "length pending + members_of pending" arbitrary: m pending rule: less_induct)
  case less
  show ?case
  proof (cases pending)
    case Nil
    then show ?thesis using less.prems by (subst check_pending.simps) (simp add: all_allowed_def)
  next
    case (Cons x rest)
    obtain j d where x: "x = (j, d)" by (rule prod.exhaust)
    note spec = inspect_spec [OF less.prems, where j = j and d = d]
    show ?thesis
    proof (cases "inspect j d m")
      case (Inl e)
      with spec Cons x show ?thesis by (subst check_pending.simps) (auto simp: all_allowed_def)
    next
      case (Inr v)
      obtain m' pushed where v: "v = (m', pushed)" by (rule prod.exhaust)
      have step: "m' \<le> MAX_CAPABILITY_MEMBERS" "length pushed + members_of pushed = member_count j"
        "m' + members_of pushed = m + member_count j" "all_allowed pushed \<longleftrightarrow> allowed d j"
        using spec Inr v by simp_all
      have "length (pushed @ rest) + members_of (pushed @ rest) < length pending + members_of pending"
        using step(2) Cons x by simp
      from less.hyps [OF this step(1)] obtain r where r: "check_pending m' (pushed @ rest) = Some r"
        "r = Inr () \<longleftrightarrow> all_allowed (pushed @ rest) \<and> m' + members_of (pushed @ rest) \<le> MAX_CAPABILITY_MEMBERS" by blast
      have "check_pending m pending = Some r" using r(1) Inr v Cons x by (subst check_pending.simps) simp
      moreover have "r = Inr () \<longleftrightarrow> all_allowed pending \<and> m + members_of pending \<le> MAX_CAPABILITY_MEMBERS"
        using r(2) step(3,4) Cons x by (auto simp: all_allowed_def)
      ultimately show ?thesis by blast
    qed
  qed
qed


end
