(* ===== verification/Nodes.thy ===== *)
theory Nodes
  imports Accounts NodeAttestation
begin

text \<open>
  The handlers of \<open>api/v1/nodes.py\<close>: pairing codes, claims, heartbeats, rotation of the secret, listing
  and revocation of storage nodes.
\<close>

definition current_user :: "env \<Rightarrow> time \<Rightarrow> request \<Rightarrow> site \<Rightarrow> (user \<Rightarrow> site \<Rightarrow> 'a answer) \<Rightarrow> 'a answer" where
  "current_user e now rq s k = authed e now rq s (\<lambda>u c s. k u s)"

definition insert_pairing_code :: "pairing_code \<Rightarrow> db \<Rightarrow> exn + db" where
  "insert_pairing_code p d =
     (if list_ex (\<lambda>x. pc_id x = pc_id p \<or> pc_code_hash x = pc_code_hash p) (pairing_codes d)
      then Inl IntegrityError else Inr (d\<lparr>pairing_codes := sql_insert p (pairing_codes d)\<rparr>))"

definition create_pairing_code :: "env \<Rightarrow> time \<Rightarrow> request \<Rightarrow> uuid \<times> string \<Rightarrow> site \<Rightarrow> (string \<times> time) answer" where
  "create_pairing_code e now rq fresh s = current_user e now rq s (\<lambda>u s.
     let expires = now + minutes (node_pairing_minutes (cfg e)) in
     case insert_pairing_code \<lparr>pc_id = fst fresh, pc_user_id = u_id u, pc_code_hash = token_digest e (snd fresh),
              pc_expires_at = expires, pc_claimed_at = None\<rparr> (s_db s) of
       Inl x \<Rightarrow> fail x s
     | Inr d \<Rightarrow> reply (snd fresh, expires) (commit s d))"

definition as_status :: "int \<Rightarrow> exn + 'a \<Rightarrow> exn + 'a" where
  "as_status code r = (case r of Inl (NodeAttestationError m) \<Rightarrow> Inl (HTTPException code m) | _ \<Rightarrow> r)"

text \<open>The body of a claim; the endpoint is its scheme and its text.\<close>

record node_claim =
  cl_code :: string
  cl_name :: string
  cl_public_key :: string
  cl_timestamp_ms :: int
  cl_signature :: string
  cl_endpoint :: "(string \<times> string) option"

record node_registration =
  rn_node_id :: uuid
  rn_node_secret :: string
  rn_attestation_state :: string

definition timestamp_of :: "time \<Rightarrow> int" where
  "timestamp_of now = now div 1000"

definition verified_claim :: "env \<Rightarrow> time \<Rightarrow> node_claim \<Rightarrow> exn + string" where
  "verified_claim e now c = as_status 400
     (sbind (validate_public_key (cl_public_key c)) (\<lambda>public_key.
      sbind (validate_timestamp (cl_timestamp_ms c) None (timestamp_of now)) (\<lambda>_.
      sbind (verify_signature e public_key (cl_signature c)
               (claim_payload (upper (cl_code c)) (cl_name c) public_key (cl_timestamp_ms c) (map_option snd (cl_endpoint c))))
        (\<lambda>_. Inr public_key))))"

text \<open>An active verified node owns its public key alone; the secrets of all nodes differ.\<close>

definition node_conflict :: "node \<Rightarrow> node list \<Rightarrow> bool" where
  "node_conflict n ns \<longleftrightarrow> list_ex (\<lambda>x. nd_id x = nd_id n \<or> nd_secret_hash x = nd_secret_hash n \<or>
     (nd_public_key x = nd_public_key n \<and> nd_revoked_at x = None \<and> nd_attestation_state x = ''verified'')) ns"

definition claimed_node :: "env \<Rightarrow> time \<Rightarrow> uuid \<Rightarrow> string \<Rightarrow> node_claim \<Rightarrow> uuid \<times> string \<Rightarrow> node" where
  "claimed_node e now user_id public_key c fresh =
     \<lparr>nd_id = fst fresh, nd_user_id = user_id, nd_name = cl_name c, nd_public_key = public_key,
      nd_endpoint_url = map_option snd (cl_endpoint c), nd_secret_hash = token_digest e (snd fresh), nd_status = ''online'',
      nd_version = None, nd_capabilities = None, nd_attestation_state = ''verified'', nd_last_attested_at = Some now,
      nd_last_attestation_timestamp_ms = Some (cl_timestamp_ms c), nd_secret_rotated_at = None,
      nd_last_seen_at = Some now, nd_revoked_at = None, nd_created_at = now\<rparr>"

definition claim_node :: "env \<Rightarrow> time \<Rightarrow> node_claim \<Rightarrow> uuid \<times> string \<Rightarrow> site \<Rightarrow> node_registration answer" where
  "claim_node e now c fresh s =
     (case verified_claim e now c of
        Inl x \<Rightarrow> fail x s
      | Inr public_key \<Rightarrow>
          (case sql_first (\<lambda>p. pc_code_hash p = token_digest e (upper (cl_code c)) \<and> pc_claimed_at p = None \<and>
                   pc_expires_at p > now) (pairing_codes (s_db s)) of
             None \<Rightarrow> fail (HTTPException 400 ''Pairing code is invalid or expired'') s
           | Some p \<Rightarrow>
               (case reject_suppressed_account e (s_ledger s) (pc_user_id p) of
                  Inl x \<Rightarrow> fail x s
                | Inr _ \<Rightarrow>
                    if remote_access_enabled (cfg e) \<and> cl_endpoint c \<noteq> None \<and> fst (the (cl_endpoint c)) \<noteq> ''https''
                    then fail (HTTPException 400 ''Remote nodes require an HTTPS endpoint'') s
                    else
                      (let n = claimed_node e now (pc_user_id p) public_key c fresh; d = s_db s in
                       if node_conflict n (nodes d)
                       then fail (HTTPException 409 ''This node identity is already paired'') s
                       else reply \<lparr>rn_node_id = nd_id n, rn_node_secret = snd fresh, rn_attestation_state = nd_attestation_state n\<rparr>
                              (commit s (d\<lparr>pairing_codes := sql_update (\<lambda>x. pc_id x = pc_id p)
                                             (\<lambda>x. x\<lparr>pc_claimed_at := Some now\<rparr>) (pairing_codes d),
                                           nodes := sql_insert n (nodes d)\<rparr>))))))"

definition node_from_secret :: "env \<Rightarrow> string option \<Rightarrow> site \<Rightarrow> exn + node" where
  "node_from_secret e secret s =
     (if \<not> truthy secret then Inl (HTTPException 401 ''X-Node-Token is required'')
      else case sql_first (\<lambda>n. nd_secret_hash n = token_digest e (the secret) \<and> nd_revoked_at n = None) (nodes (s_db s)) of
        None \<Rightarrow> Inl (HTTPException 401 ''Invalid node token'')
      | Some n \<Rightarrow> sbind (reject_suppressed_account e (s_ledger s) (nd_user_id n)) (\<lambda>_. Inr n))"

definition verify_attested_request :: "env \<Rightarrow> node \<Rightarrow> uuid \<Rightarrow> int \<Rightarrow> string \<Rightarrow> bytes \<Rightarrow> time \<Rightarrow> exn + unit" where
  "verify_attested_request e n node_id timestamp_ms signature message now =
     (if nd_attestation_state n \<noteq> ''verified''
      then Inl (HTTPException 409 ''Legacy node must be re-paired before signed requests are accepted'')
      else if node_id \<noteq> nd_id n
      then Inl (HTTPException 403 ''Signed node_id does not match the authenticated node'')
      else sbind (as_status 409 (validate_timestamp timestamp_ms (nd_last_attestation_timestamp_ms n) (timestamp_of now))) (\<lambda>_.
        as_status 401 (verify_signature e (nd_public_key n) signature message)))"

definition set_node :: "uuid \<Rightarrow> (node \<Rightarrow> node) \<Rightarrow> db \<Rightarrow> db" where
  "set_node i g d = d\<lparr>nodes := sql_update (\<lambda>n. nd_id n = i) g (nodes d)\<rparr>"

text \<open>The secret of a node is unique, so a rotation to a secret in use fails at the commit.\<close>

definition attested :: "env \<Rightarrow> time \<Rightarrow> string option \<Rightarrow> uuid \<Rightarrow> int \<Rightarrow> string \<Rightarrow> bytes \<Rightarrow> site \<Rightarrow> (node \<Rightarrow> 'a answer) \<Rightarrow> 'a answer" where
  "attested e now token node_id timestamp_ms signature message s k =
     (case node_from_secret e token s of
        Inl x \<Rightarrow> fail x s
      | Inr n \<Rightarrow>
          (case verify_attested_request e n node_id timestamp_ms signature message now of
             Inl x \<Rightarrow> fail x s
           | Inr _ \<Rightarrow> k n))"

definition reported_endpoint :: "json \<Rightarrow> string option" where
  "reported_endpoint capabilities =
     (case json_get ''endpoint_url'' capabilities of Some (JStr t) \<Rightarrow> if t = [] then None else Some t | _ \<Rightarrow> None)"

definition seen_node :: "time \<Rightarrow> int \<Rightarrow> string option \<Rightarrow> json \<Rightarrow> node \<Rightarrow> node" where
  "seen_node now timestamp_ms version capabilities n =
     n\<lparr>nd_last_seen_at := Some now, nd_last_attested_at := Some now, nd_last_attestation_timestamp_ms := Some timestamp_ms,
       nd_status := ''online'', nd_version := version, nd_capabilities := Some capabilities,
       nd_endpoint_url := (case reported_endpoint capabilities of None \<Rightarrow> nd_endpoint_url n | Some t \<Rightarrow> Some t)\<rparr>"

definition heartbeat ::
  "env \<Rightarrow> time \<Rightarrow> string option \<Rightarrow> uuid \<Rightarrow> int \<Rightarrow> string option \<Rightarrow> json \<Rightarrow> string \<Rightarrow> site \<Rightarrow> unit answer" where
  "heartbeat e now token node_id timestamp_ms version capabilities signature s =
     attested e now token node_id timestamp_ms signature (heartbeat_payload node_id timestamp_ms version capabilities) s
       (\<lambda>n. reply () (commit s (set_node (nd_id n) (seen_node now timestamp_ms version capabilities) (s_db s))))"

definition rotate_node_secret ::
  "env \<Rightarrow> time \<Rightarrow> string option \<Rightarrow> uuid \<Rightarrow> int \<Rightarrow> string \<Rightarrow> string \<Rightarrow> site \<Rightarrow> (uuid \<times> string \<times> time) answer" where
  "rotate_node_secret e now token node_id timestamp_ms signature replacement s =
     attested e now token node_id timestamp_ms signature (rotation_payload node_id timestamp_ms) s (\<lambda>n.
       if list_ex (\<lambda>x. nd_id x \<noteq> nd_id n \<and> nd_secret_hash x = token_digest e replacement) (nodes (s_db s))
       then fail IntegrityError s
       else reply (nd_id n, replacement, now)
              (commit s (set_node (nd_id n) (\<lambda>x. x\<lparr>nd_secret_hash := token_digest e replacement, nd_secret_rotated_at := Some now,
                 nd_last_attested_at := Some now, nd_last_attestation_timestamp_ms := Some timestamp_ms\<rparr>) (s_db s))))"

text \<open>The listing shows a silent node as offline; nothing is committed.\<close>

definition list_nodes :: "env \<Rightarrow> time \<Rightarrow> request \<Rightarrow> site \<Rightarrow> node list answer" where
  "list_nodes e now rq s = current_user e now rq s (\<lambda>u s.
     reply (map (\<lambda>n. if (case nd_last_seen_at n of None \<Rightarrow> True | Some t \<Rightarrow> t < now - minutes 5)
                     then n\<lparr>nd_status := ''offline''\<rparr> else n)
              (rev (sort_key nd_created_at (filter (\<lambda>n. nd_user_id n = u_id u \<and> nd_revoked_at n = None) (nodes (s_db s)))))) s)"

definition revoke_node :: "env \<Rightarrow> time \<Rightarrow> request \<Rightarrow> uuid \<Rightarrow> site \<Rightarrow> unit answer" where
  "revoke_node e now rq i s = current_user e now rq s (\<lambda>u s.
     case sql_first (\<lambda>n. nd_id n = i \<and> nd_user_id n = u_id u) (nodes (s_db s)) of
       None \<Rightarrow> fail (HTTPException 404 ''Node not found'') s
     | Some n \<Rightarrow> reply () (commit s (set_node (nd_id n) (\<lambda>x. x\<lparr>nd_revoked_at := Some now, nd_status := ''revoked''\<rparr>) (s_db s))))"

end
