(* ===== verification/NodeSafety.thy ===== *)
theory NodeSafety
  imports Nodes AccountCalls
begin

text \<open>
  What holds of storage nodes over any sequence of node requests: a signed message is accepted at most
  once, a pairing code is claimed at most once, and no two active nodes share a key or a secret.
\<close>

datatype node_call =
    CreatePairingCode request "uuid \<times> string"
  | ClaimNode node_claim "uuid \<times> string"
  | Heartbeat "string option" uuid int "string option" json string
  | RotateSecret "string option" uuid int string string
  | RevokeNode request uuid

fun node_perform :: "env \<Rightarrow> time \<times> node_call \<Rightarrow> site \<Rightarrow> (exn + unit) \<times> site" where
  "node_perform e (now, CreatePairingCode rq fresh) s = outcome (create_pairing_code e now rq fresh s)"
| "node_perform e (now, ClaimNode c fresh) s = outcome (claim_node e now c fresh s)"
| "node_perform e (now, Heartbeat token i ts version capabilities signature) s =
     outcome (heartbeat e now token i ts version capabilities signature s)"
| "node_perform e (now, RotateSecret token i ts signature replacement) s =
     outcome (rotate_node_secret e now token i ts signature replacement s)"
| "node_perform e (now, RevokeNode rq i) s = outcome (revoke_node e now rq i s)"

fun node_history :: "env \<Rightarrow> (time \<times> node_call) list \<Rightarrow> site \<Rightarrow> ((time \<times> node_call) \<times> (exn + unit)) list" where
  "node_history e [] s = []"
| "node_history e (q # qs) s = (q, fst (node_perform e q s)) # node_history e qs (snd (node_perform e q s))"

section \<open>What a request changes\<close>

lemma auth_tables:
  "current_auth e now rq l d = (r, d') \<Longrightarrow> nodes d' = nodes d \<and> pairing_codes d' = pairing_codes d"
  by (auto simp: current_auth_def touch_session_def split: option.splits if_splits sum.splits prod.splits)

definition tables_kept :: "site \<Rightarrow> 'a answer \<Rightarrow> bool" where
  "tables_kept s a \<longleftrightarrow> nodes (s_db (after a)) = nodes (s_db s) \<and> pairing_codes (s_db (after a)) = pairing_codes (s_db s)"

lemma tables_kept_fail [simp]: "tables_kept s (fail x s)"
  by (simp add: tables_kept_def)

text \<open>An authenticated handler either keeps both tables or does to them what its body does.\<close>

lemma current_user_cases:
  obtains (refused) x where "fst (current_user e now rq s k) = Inl x" "tables_kept s (current_user e now rq s k)"
  | (body) u d where "current_user e now rq s k = k u (commit s d)" "nodes d = nodes (s_db s)" "pairing_codes d = pairing_codes (s_db s)"
proof (cases "current_auth e now rq (s_ledger s) (s_db s)")
  case (Pair r d)
  note t = auth_tables [OF this]
  show thesis
  proof (cases r)
    case (Inl x)
    with Pair t show thesis
      by (intro refused [of x]) (simp_all add: current_user_def authed_def tables_kept_def, simp add: fail_def)
  next
    case (Inr v)
    obtain u c where "v = (u, c)" by (rule prod.exhaust)
    with Pair t Inr show thesis by (intro body [of u d]) (simp_all add: current_user_def authed_def)
  qed
qed

lemma current_user_keeps:
  assumes "\<And>u s'. nodes (s_db s') = nodes (s_db s) \<Longrightarrow> pairing_codes (s_db s') = pairing_codes (s_db s) \<Longrightarrow>
      R (pairing_codes (s_db (after (k u s'))))"
    and "R (pairing_codes (s_db s))"
  shows "R (pairing_codes (s_db (after (current_user e now rq s k))))"
  by (cases rule: current_user_cases [of e now rq s k]) (use assms in \<open>simp_all add: tables_kept_def\<close>)

text \<open>What an accepted signed request has shown of the node.\<close>

definition attests :: "env \<Rightarrow> time \<Rightarrow> string option \<Rightarrow> uuid \<Rightarrow> int \<Rightarrow> string \<Rightarrow> bytes \<Rightarrow> node \<Rightarrow> bool" where
  "attests e now token i ts signature message n \<longleftrightarrow>
     nd_id n = i \<and> nd_revoked_at n = None \<and> truthy token \<and> nd_secret_hash n = token_digest e (the token) \<and>
     nd_attestation_state n = ''verified'' \<and>
     validate_timestamp ts (nd_last_attestation_timestamp_ms n) (timestamp_of now) = Inr () \<and>
     verify_signature e (nd_public_key n) signature message = Inr ()"

lemma as_status_Inr: "as_status c r = Inr v \<longleftrightarrow> r = Inr v"
  by (auto simp: as_status_def split: sum.split exn.split)

lemma node_from_secret_Inr:
  assumes "node_from_secret e token s = Inr n"
  shows "n \<in> set (nodes (s_db s))" "nd_revoked_at n = None" "truthy token" "nd_secret_hash n = token_digest e (the token)"
proof -
  let ?P = "\<lambda>n. nd_secret_hash n = token_digest e (the token) \<and> nd_revoked_at n = None"
  show t: "truthy token" using assms by (simp add: node_from_secret_def split: if_splits)
  have "sql_first ?P (nodes (s_db s)) = Some n"
    using assms t by (cases "sql_first ?P (nodes (s_db s))") (auto simp: node_from_secret_def sbind_Inr_iff)
  from sql_first_SomeD [OF this] show "n \<in> set (nodes (s_db s))" "nd_revoked_at n = None"
    "nd_secret_hash n = token_digest e (the token)" by blast+
qed

lemma attested_cases:
  obtains (refused) x where "attested e now token i ts signature message s k = fail x s"
  | (accepted) n where "attested e now token i ts signature message s k = k n" "n \<in> set (nodes (s_db s))"
      "attests e now token i ts signature message n"
proof (cases "node_from_secret e token s")
  case (Inl x)
  then show thesis by (intro refused [of x]) (simp add: attested_def)
next
  case (Inr n)
  show thesis
  proof (cases "verify_attested_request e n i ts signature message now")
    case (Inl x)
    with Inr show thesis by (intro refused [of x]) (simp add: attested_def)
  next
    case v: (Inr u)
    then have "nd_attestation_state n = ''verified''" "nd_id n = i"
      "validate_timestamp ts (nd_last_attestation_timestamp_ms n) (timestamp_of now) = Inr ()"
      "verify_signature e (nd_public_key n) signature message = Inr ()"
      by (simp_all add: verify_attested_request_def sbind_Inr_iff as_status_Inr split: if_splits)
    with node_from_secret_Inr [OF Inr] Inr v show thesis
      by (intro accepted [of n]) (simp_all add: attested_def attests_def)
  qed
qed

lemma heartbeat_cases:
  obtains (refused) x where "fst (heartbeat e now token i ts version capabilities signature s) = Inl x"
      "after (heartbeat e now token i ts version capabilities signature s) = s"
  | (accepted) n where "n \<in> set (nodes (s_db s))"
      "attests e now token i ts signature (heartbeat_payload i ts version capabilities) n"
      "fst (heartbeat e now token i ts version capabilities signature s) = Inr ()"
      "after (heartbeat e now token i ts version capabilities signature s) =
         commit s (set_node i (seen_node now ts version capabilities) (s_db s))"
proof (cases rule: attested_cases [of e now token i ts signature "heartbeat_payload i ts version capabilities" s
    "\<lambda>n. reply () (commit s (set_node (nd_id n) (seen_node now ts version capabilities) (s_db s)))"])
  case (refused x)
  then show thesis by (intro that(1) [of x]) (simp_all add: heartbeat_def, simp add: fail_def)
next
  case (accepted n)
  then have "nd_id n = i" by (simp add: attests_def)
  with accepted show thesis by (intro that(2) [of n]) (simp_all add: heartbeat_def, simp add: reply_def)
qed

definition rotated_node :: "env \<Rightarrow> time \<Rightarrow> int \<Rightarrow> string \<Rightarrow> node \<Rightarrow> node" where
  "rotated_node e now ts replacement n = n\<lparr>nd_secret_hash := token_digest e replacement, nd_secret_rotated_at := Some now,
     nd_last_attested_at := Some now, nd_last_attestation_timestamp_ms := Some ts\<rparr>"

lemma rotate_cases:
  obtains (refused) x where "fst (rotate_node_secret e now token i ts signature replacement s) = Inl x"
      "after (rotate_node_secret e now token i ts signature replacement s) = s"
  | (accepted) n v where "n \<in> set (nodes (s_db s))" "attests e now token i ts signature (rotation_payload i ts) n"
      "\<forall>x \<in> set (nodes (s_db s)). nd_id x \<noteq> i \<longrightarrow> nd_secret_hash x \<noteq> token_digest e replacement"
      "fst (rotate_node_secret e now token i ts signature replacement s) = Inr v"
      "after (rotate_node_secret e now token i ts signature replacement s) =
         commit s (set_node i (rotated_node e now ts replacement) (s_db s))"
proof (cases rule: attested_cases [of e now token i ts signature "rotation_payload i ts" s
    "\<lambda>n. if list_ex (\<lambda>x. nd_id x \<noteq> nd_id n \<and> nd_secret_hash x = token_digest e replacement) (nodes (s_db s))
       then fail IntegrityError s else reply (nd_id n, replacement, now)
         (commit s (set_node (nd_id n) (\<lambda>x. x\<lparr>nd_secret_hash := token_digest e replacement, nd_secret_rotated_at := Some now,
            nd_last_attested_at := Some now, nd_last_attestation_timestamp_ms := Some ts\<rparr>) (s_db s)))"])
  case (refused x)
  then show thesis by (intro that(1) [of x]) (simp_all add: rotate_node_secret_def, simp add: fail_def)
next
  case (accepted n)
  then have n: "nd_id n = i" by (simp add: attests_def)
  show thesis
  proof (cases "list_ex (\<lambda>x. nd_id x \<noteq> nd_id n \<and> nd_secret_hash x = token_digest e replacement) (nodes (s_db s))")
    case True
    with accepted(1) have "rotate_node_secret e now token i ts signature replacement s = fail IntegrityError s"
      unfolding rotate_node_secret_def by simp
    then show thesis by (intro that(1) [of IntegrityError]) (simp_all add: fail_def after_def)
  next
    case False
    with accepted(1) have run: "rotate_node_secret e now token i ts signature replacement s =
        reply (i, replacement, now) (commit s (set_node i (rotated_node e now ts replacement) (s_db s)))"
      by (simp add: rotate_node_secret_def n rotated_node_def [abs_def])
    from False n have "\<forall>x \<in> set (nodes (s_db s)). nd_id x \<noteq> i \<longrightarrow> nd_secret_hash x \<noteq> token_digest e replacement"
      by (auto simp: list_ex_iff)
    with accepted(2,3) show thesis
      unfolding run by (intro that(2) [of n]) (simp_all, simp add: run reply_def, simp add: run)
  qed
qed

lemma node_claim_cases:
  obtains (refused) x where "fst (claim_node e now c fresh s) = Inl x" "after (claim_node e now c fresh s) = s"
  | (claimed) key p where "verified_claim e now c = Inr key" "p \<in> set (pairing_codes (s_db s))"
      "pc_code_hash p = token_digest e (upper (cl_code c))" "pc_claimed_at p = None" "now < pc_expires_at p"
      "\<not> node_conflict (claimed_node e now (pc_user_id p) key c fresh) (nodes (s_db s))"
      "fst (claim_node e now c fresh s) = Inr \<lparr>rn_node_id = fst fresh, rn_node_secret = snd fresh, rn_attestation_state = ''verified''\<rparr>"
      "after (claim_node e now c fresh s) = commit s ((s_db s)\<lparr>pairing_codes := sql_update (\<lambda>x. pc_id x = pc_id p)
          (\<lambda>x. x\<lparr>pc_claimed_at := Some now\<rparr>) (pairing_codes (s_db s)),
        nodes := sql_insert (claimed_node e now (pc_user_id p) key c fresh) (nodes (s_db s))\<rparr>)"
proof -
  let ?P = "\<lambda>p. pc_code_hash p = token_digest e (upper (cl_code c)) \<and> pc_claimed_at p = None \<and> pc_expires_at p > now"
  have fail: "claim_node e now c fresh s = fail x s \<Longrightarrow> thesis" for x
    by (rule refused [of x]) (simp_all add: fail_def after_def)
  show thesis
  proof (cases "verified_claim e now c")
    case (Inl x)
    then show thesis by (intro fail [of x]) (simp add: claim_node_def)
  next
    case v: (Inr key)
    show thesis
    proof (cases "sql_first ?P (pairing_codes (s_db s))")
      case None
      with v show thesis by (intro fail) (simp add: claim_node_def)
    next
      case p: (Some p)
      show thesis
      proof (cases "reject_suppressed_account e (s_ledger s) (pc_user_id p)")
        case (Inl x)
        with v p show thesis by (intro fail [of x]) (simp add: claim_node_def)
      next
        case (Inr _)
        with v p sql_first_SomeD [OF p] show thesis
          by (cases "remote_access_enabled (cfg e) \<and> cl_endpoint c \<noteq> None \<and> fst (the (cl_endpoint c)) \<noteq> ''https''";
              cases "node_conflict (claimed_node e now (pc_user_id p) key c fresh) (nodes (s_db s))")
            (auto simp: claim_node_def Let_def reply_def after_def claimed_node_def intro: fail claimed [of key p])
      qed
    qed
  qed
qed

section \<open>Each signed message is accepted once\<close>

text \<open>A node can still accept a message signed at \<open>ts\<close> while its last accepted timestamp is earlier.\<close>

definition accepts :: "uuid \<times> int \<Rightarrow> site \<Rightarrow> bool" where
  "accepts k s \<longleftrightarrow> (\<exists>n \<in> set (nodes (s_db s)). nd_id n = fst k \<and>
     (case nd_last_attestation_timestamp_ms n of None \<Rightarrow> True | Some l \<Rightarrow> l < snd k))"

fun signed_by :: "time \<times> node_call \<Rightarrow> (uuid \<times> int) option" where
  "signed_by (now, Heartbeat token i ts version capabilities signature) = Some (i, ts)"
| "signed_by (now, RotateSecret token i ts signature replacement) = Some (i, ts)"
| "signed_by _ = None"

fun creates :: "time \<times> node_call \<Rightarrow> uuid \<times> int \<Rightarrow> bool" where
  "creates (now, ClaimNode c fresh) k \<longleftrightarrow> fst k = fst fresh"
| "creates _ k \<longleftrightarrow> False"

text \<open>An accepted signed request moves the timestamp of its node forward, and only that row changes.\<close>

lemma set_node_accepts:
  assumes "distinct (map nd_id ns)" "n \<in> set ns" "\<And>x. nd_id (g x) = nd_id x"
    "\<And>x. nd_last_attestation_timestamp_ms (g x) = Some ts"
    "validate_timestamp ts (nd_last_attestation_timestamp_ms n) clock = Inr ()"
    "x' \<in> set (sql_update (\<lambda>x. nd_id x = nd_id n) g ns)"
  shows "\<exists>x \<in> set ns. nd_id x = nd_id x' \<and> (x' = x \<or> (x = n \<and> nd_last_attestation_timestamp_ms x' = Some ts \<and>
    (\<forall>l. nd_last_attestation_timestamp_ms n = Some l \<longrightarrow> l < ts)))"
proof -
  obtain x where x: "x \<in> set ns" "x' = (if nd_id x = nd_id n then g x else x)" using assms(6) by (auto simp: set_sql_update)
  have "\<forall>l. nd_last_attestation_timestamp_ms n = Some l \<longrightarrow> l < ts"
    using assms(5) by (auto simp: validate_timestamp_def split: if_splits)
  moreover have "x = n" if "nd_id x = nd_id n" using key_unique [OF assms(1) x(1) assms(2) that] .
  ultimately show ?thesis using x assms(3,4) by (intro bexI [of _ x]) auto
qed

definition node_ids_ok :: "site \<Rightarrow> bool" where
  "node_ids_ok s \<longleftrightarrow> distinct (map nd_id (nodes (s_db s)))"

text \<open>How the table of nodes may change: a timestamp never goes back.\<close>

lemma later_accepts:
  assumes "x \<in> set ns" "nd_id x = nd_id x'" "x' = x \<or> (\<exists>ts. nd_last_attestation_timestamp_ms x' = Some ts \<and>
      (\<forall>l. nd_last_attestation_timestamp_ms x = Some l \<longrightarrow> l < ts))"
    "case nd_last_attestation_timestamp_ms x' of None \<Rightarrow> True | Some l \<Rightarrow> l < t"
  shows "\<exists>n \<in> set ns. nd_id n = nd_id x' \<and> (case nd_last_attestation_timestamp_ms n of None \<Rightarrow> True | Some l \<Rightarrow> l < t)"
  using assms by (intro bexI [of _ x]) (auto split: option.splits)

lemma signed_request_effect:
  assumes "signed_by q = Some (i, ts)" "fst (node_perform e q s) = Inr v"
  obtains n g now where "n \<in> set (nodes (s_db s))" "nd_id n = i"
    "validate_timestamp ts (nd_last_attestation_timestamp_ms n) (timestamp_of now) = Inr ()"
    "\<And>x. nd_id (g x) = nd_id x" "\<And>x. nd_last_attestation_timestamp_ms (g x) = Some ts"
    "nodes (s_db (snd (node_perform e q s))) = sql_update (\<lambda>x. nd_id x = i) g (nodes (s_db s))"
proof -
  obtain now c where q: "q = (now, c)" by (rule prod.exhaust)
  show thesis
  proof (cases c)
    case (Heartbeat token j ts' version capabilities signature)
    with assms q have j: "j = i" "ts' = ts" by simp_all
    show thesis
    proof (cases e now token j ts' version capabilities signature s rule: heartbeat_cases)
      case (accepted n)
      with q Heartbeat j show thesis
        by (intro that [of n now "seen_node now ts' version capabilities"])
          (simp_all add: attests_def seen_node_def set_node_def)
    qed (use assms q Heartbeat in simp)
  next
    case (RotateSecret token j ts' signature replacement)
    with assms q have j: "j = i" "ts' = ts" by simp_all
    show thesis
    proof (cases e now token j ts' signature replacement s rule: rotate_cases)
      case (accepted n w)
      with q RotateSecret j show thesis
        by (intro that [of n now "rotated_node e now ts' replacement"])
          (simp_all add: attests_def rotated_node_def set_node_def)
    qed (use assms q RotateSecret in simp)
  qed (use assms q in simp_all)
qed

lemma other_requests:
  assumes "signed_by q = None \<or> isl (fst (node_perform e q s))"
  shows "(\<exists>P g. (\<forall>x. nd_id (g x) = nd_id x \<and> nd_last_attestation_timestamp_ms (g x) = nd_last_attestation_timestamp_ms x) \<and>
      nodes (s_db (snd (node_perform e q s))) = sql_update P g (nodes (s_db s))) \<or>
    (\<exists>n. creates q (nd_id n, 0) \<and> nd_id n \<notin> nd_id ` set (nodes (s_db s)) \<and>
      nodes (s_db (snd (node_perform e q s))) = sql_insert n (nodes (s_db s)))"
    (is "?updated \<or> ?inserted")
proof -
  obtain now c where q: "q = (now, c)" by (rule prod.exhaust)
  have same: "nodes (s_db (snd (node_perform e q s))) = nodes (s_db s) \<Longrightarrow> ?updated"
    by (rule exI [of _ "\<lambda>_. False"]) (auto simp: sql_update_def intro: exI [of _ id])
  show ?thesis
  proof (cases c)
    case (CreatePairingCode rq fresh)
    have "nodes (s_db (after (create_pairing_code e now rq fresh s))) = nodes (s_db s)"
      unfolding create_pairing_code_def
      by (cases rule: current_user_cases)
        (auto simp: tables_kept_def Let_def insert_pairing_code_def split: sum.split if_splits)
    with same q CreatePairingCode show ?thesis by simp
  next
    case (ClaimNode cl fresh)
    show ?thesis
    proof (cases e now cl fresh s rule: node_claim_cases)
      case (claimed key p)
      let ?n = "claimed_node e now (pc_user_id p) key cl fresh"
      have "nd_id ?n = fst fresh" by (simp add: claimed_node_def)
      moreover have "nd_id ?n \<notin> nd_id ` set (nodes (s_db s))"
        using claimed(6) by (auto simp: node_conflict_def list_ex_iff)
      ultimately have ?inserted using claimed(8) q ClaimNode by (intro exI [of _ ?n]) simp
      then show ?thesis ..
    qed (use same q ClaimNode in simp)
  next
    case (Heartbeat token i ts version capabilities signature)
    with assms q have "isl (fst (node_perform e q s))" by simp
    then have "after (heartbeat e now token i ts version capabilities signature s) = s"
      using q Heartbeat by (cases e now token i ts version capabilities signature s rule: heartbeat_cases) (auto simp: isl_def)
    with same q Heartbeat show ?thesis by simp
  next
    case (RotateSecret token i ts signature replacement)
    with assms q have "isl (fst (node_perform e q s))" by simp
    then have "after (rotate_node_secret e now token i ts signature replacement s) = s"
      using q RotateSecret by (cases e now token i ts signature replacement s rule: rotate_cases) (auto simp: isl_def)
    with same q RotateSecret show ?thesis by simp
  next
    case (RevokeNode rq i)
    have "nodes (s_db (after (revoke_node e now rq i s))) = nodes (s_db s) \<or>
        (\<exists>n :: node. nodes (s_db (after (revoke_node e now rq i s))) =
          sql_update (\<lambda>x. nd_id x = nd_id n) (\<lambda>x. x\<lparr>nd_revoked_at := Some now, nd_status := ''revoked''\<rparr>) (nodes (s_db s)))"
      (is "_ \<or> (\<exists>n. ?revoked n)")
    proof (cases rule: current_user_cases [of e now rq s "\<lambda>u s. case sql_first (\<lambda>n. nd_id n = i \<and> nd_user_id n = u_id u) (nodes (s_db s)) of
        None \<Rightarrow> fail (HTTPException 404 ''Node not found'') s
      | Some n \<Rightarrow> reply () (commit s (set_node (nd_id n) (\<lambda>x. x\<lparr>nd_revoked_at := Some now, nd_status := ''revoked''\<rparr>) (s_db s)))",
        folded revoke_node_def])
      case (1 x)
      then show ?thesis by (simp add: tables_kept_def)
    next
      case (2 u d)
      show ?thesis
      proof (cases "sql_first (\<lambda>n. nd_id n = i \<and> nd_user_id n = u_id u) (nodes (s_db s))")
        case None
        with 2 show ?thesis by simp
      next
        case (Some n)
        with 2 have "?revoked n" by (simp add: set_node_def)
        then show ?thesis by blast
      qed
    qed
    then show ?thesis
    proof
      assume "\<exists>n :: node. nodes (s_db (after (revoke_node e now rq i s))) =
          sql_update (\<lambda>x. nd_id x = nd_id n) (\<lambda>x. x\<lparr>nd_revoked_at := Some now, nd_status := ''revoked''\<rparr>) (nodes (s_db s))"
      then obtain n :: node where "nodes (s_db (after (revoke_node e now rq i s))) =
          sql_update (\<lambda>x. nd_id x = nd_id n) (\<lambda>x. x\<lparr>nd_revoked_at := Some now, nd_status := ''revoked''\<rparr>) (nodes (s_db s))" ..
      then have ?updated using q RevokeNode
        by (intro exI [of _ "\<lambda>x. nd_id x = nd_id n"] exI [of _ "\<lambda>x. x\<lparr>nd_revoked_at := Some now, nd_status := ''revoked''\<rparr>"]) simp
      then show ?thesis ..
    qed (use same q RevokeNode in simp)
  qed
qed

text \<open>Where a successful signed request leads, a node accepts only what it accepted before, and no longer this.\<close>

lemma signed_request_accepts:
  assumes "node_ids_ok s" "signed_by q = Some k" "fst (node_perform e q s) = Inr v"
  shows "accepts k s" "\<not> accepts k (snd (node_perform e q s))"
    "accepts k' (snd (node_perform e q s)) \<Longrightarrow> accepts k' s" "node_ids_ok (snd (node_perform e q s))"
proof -
  obtain i ts where k: "k = (i, ts)" by (rule prod.exhaust)
  obtain n :: node and g now where n: "n \<in> set (nodes (s_db s))" "nd_id n = i"
    "validate_timestamp ts (nd_last_attestation_timestamp_ms n) (timestamp_of now) = Inr ()"
    and g: "\<And>x. nd_id (g x) = nd_id x" "\<And>x. nd_last_attestation_timestamp_ms (g x) = Some ts"
    and after: "nodes (s_db (snd (node_perform e q s))) = sql_update (\<lambda>x. nd_id x = i) g (nodes (s_db s))"
    by (rule signed_request_effect [OF assms(2) [unfolded k] assms(3)]) (rule that)
  note ids = assms(1) [unfolded node_ids_ok_def]
  note row = set_node_accepts [OF ids n(1) g n(3), unfolded n(2)]
  have newer: "case nd_last_attestation_timestamp_ms n of None \<Rightarrow> True | Some l \<Rightarrow> l < ts"
    using n(3) by (auto simp: validate_timestamp_def split: if_splits option.splits)
  with n(1,2) show "accepts k s" unfolding accepts_def k fst_conv snd_conv by (intro bexI [of _ n]) simp_all
  have "\<not> (case nd_last_attestation_timestamp_ms x' of None \<Rightarrow> True | Some l \<Rightarrow> l < ts)"
    if x': "x' \<in> set (sql_update (\<lambda>x. nd_id x = i) g (nodes (s_db s)))" "nd_id x' = i" for x' :: node
  proof -
    from x'(1) obtain x :: node where "x' = (if nd_id x = i then g x else x)"
      unfolding set_sql_update by (rule imageE)
    with x'(2) g(1) have "x' = g x" by (simp split: if_splits)
    then show ?thesis by (simp add: g(2))
  qed
  then show "\<not> accepts k (snd (node_perform e q s))" unfolding accepts_def after k fst_conv snd_conv by blast
  show "node_ids_ok (snd (node_perform e q s))"
    using ids g(1) by (simp add: node_ids_ok_def after map_sql_update [where k = nd_id])
  assume "accepts k' (snd (node_perform e q s))"
  then obtain x' where x': "x' \<in> set (sql_update (\<lambda>x. nd_id x = i) g (nodes (s_db s)))" "nd_id x' = fst k'"
    "case nd_last_attestation_timestamp_ms x' of None \<Rightarrow> True | Some l \<Rightarrow> l < snd k'"
    unfolding accepts_def after by blast
  from row [OF x'(1)] obtain x :: node where "x \<in> set (nodes (s_db s))" "nd_id x = nd_id x'"
    "x' = x \<or> (x = n \<and> nd_last_attestation_timestamp_ms x' = Some ts \<and>
      (\<forall>l. nd_last_attestation_timestamp_ms n = Some l \<longrightarrow> l < ts))" by blast
  then have "x \<in> set (nodes (s_db s))" "nd_id x = nd_id x'" "x' = x \<or> (\<exists>ts. nd_last_attestation_timestamp_ms x' = Some ts \<and>
      (\<forall>l. nd_last_attestation_timestamp_ms x = Some l \<longrightarrow> l < ts))" by blast+
  from later_accepts [OF this x'(3)] x'(2) show "accepts k' s" by (simp add: accepts_def)
qed

lemma other_request_accepts:
  assumes "node_ids_ok s" "signed_by q = None \<or> isl (fst (node_perform e q s))"
  shows "node_ids_ok (snd (node_perform e q s))"
    "\<not> creates q k \<Longrightarrow> accepts k (snd (node_perform e q s)) \<Longrightarrow> accepts k s"
proof -
  have creates: "creates q (i, t) \<longleftrightarrow> creates q (i, t')" for i t t' by (cases "(q, (i, t))" rule: creates.cases) simp_all
  from other_requests [OF assms(2)]
  show "node_ids_ok (snd (node_perform e q s))"
  proof
    assume "\<exists>P g. (\<forall>x. nd_id (g x) = nd_id x \<and> nd_last_attestation_timestamp_ms (g x) = nd_last_attestation_timestamp_ms x) \<and>
      nodes (s_db (snd (node_perform e q s))) = sql_update P g (nodes (s_db s))"
    then show ?thesis using assms(1) by (auto simp: node_ids_ok_def map_sql_update [where k = nd_id])
  next
    assume "\<exists>n. creates q (nd_id n, 0) \<and> nd_id n \<notin> nd_id ` set (nodes (s_db s)) \<and>
      nodes (s_db (snd (node_perform e q s))) = sql_insert n (nodes (s_db s))"
    then show ?thesis using assms(1) by (auto simp: node_ids_ok_def distinct_map_sql_insert)
  qed
  assume k: "\<not> creates q k" "accepts k (snd (node_perform e q s))"
  from other_requests [OF assms(2)] show "accepts k s"
  proof
    assume "\<exists>P g. (\<forall>x. nd_id (g x) = nd_id x \<and> nd_last_attestation_timestamp_ms (g x) = nd_last_attestation_timestamp_ms x) \<and>
      nodes (s_db (snd (node_perform e q s))) = sql_update P g (nodes (s_db s))"
    with k(2) show ?thesis by (fastforce simp: accepts_def set_sql_update split: if_splits)
  next
    assume "\<exists>n. creates q (nd_id n, 0) \<and> nd_id n \<notin> nd_id ` set (nodes (s_db s)) \<and>
      nodes (s_db (snd (node_perform e q s))) = sql_insert n (nodes (s_db s))"
    with k creates [of "fst k" 0 "snd k"] show ?thesis by (auto simp: accepts_def set_sql_insert)
  qed
qed

interpretation signed_messages: single_use "node_perform e" signed_by creates accepts node_ids_ok for e
proof (unfold_locales, goal_cases)
  case (1 s q k v)
  then show ?case by (rule signed_request_accepts)
next
  case (2 s q k v)
  then show ?case by (rule signed_request_accepts)
next
  case (3 s k q)
  show ?case
  proof (cases "signed_by q = None \<or> isl (fst (node_perform e q s))")
    case True
    with 3 other_request_accepts show ?thesis by blast
  next
    case False
    then obtain k' v where "signed_by q = Some k'" "fst (node_perform e q s) = Inr v"
      by (cases "fst (node_perform e q s)") auto
    with 3 signed_request_accepts(3) show ?thesis by blast
  qed
next
  case (4 s q)
  show ?case
  proof (cases "signed_by q = None \<or> isl (fst (node_perform e q s))")
    case False
    then obtain k' v where "signed_by q = Some k'" "fst (node_perform e q s) = Inr v"
      by (cases "fst (node_perform e q s)") auto
    with 4 signed_request_accepts(4) show ?thesis by blast
  qed (rule other_request_accepts [OF 4])
qed

lemma node_history_outcomes: "node_history e qs s = signed_messages.outcomes e qs s"
  by (induction qs arbitrary: s) simp_all

text \<open>C21: A signed message of a storage node is accepted at most once.  Over any sequence of pairing, claim,
  heartbeat, rotation and revocation requests by any clients, at most one of the heartbeats and
  rotations that a node has signed for one timestamp succeeds, so a recorded message cannot be played
  again, not even as the other kind of request, as long as no new node is given the identifier.\<close>

theorem signed_message_accepted_once:
  assumes "distinct (map nd_id (nodes (s_db s)))" "\<forall>q \<in> set qs. \<not> creates q k"
  shows "length (filter (\<lambda>(q, r). signed_by q = Some k \<and> \<not> isl r) (node_history e qs s)) \<le> 1"
  unfolding node_history_outcomes
  by (rule signed_messages.at_most_once) (use assms in \<open>simp_all add: node_ids_ok_def\<close>)

section \<open>A pairing code is claimed once\<close>

definition code_live :: "string \<Rightarrow> site \<Rightarrow> bool" where
  "code_live k s \<longleftrightarrow> live_row pc_code_hash (\<lambda>p. pc_claimed_at p = None) k (pairing_codes (s_db s))"

definition codes_ok :: "site \<Rightarrow> bool" where
  "codes_ok s \<longleftrightarrow> distinct (map pc_code_hash (pairing_codes (s_db s)))"

fun claims :: "env \<Rightarrow> time \<times> node_call \<Rightarrow> string option" where
  "claims e (now, ClaimNode c fresh) = Some (token_digest e (upper (cl_code c)))"
| "claims e _ = None"

fun issues :: "env \<Rightarrow> time \<times> node_call \<Rightarrow> string \<Rightarrow> bool" where
  "issues e (now, CreatePairingCode rq fresh) k \<longleftrightarrow> k = token_digest e (snd fresh)"
| "issues e _ k \<longleftrightarrow> False"

abbreviation codes_evolve :: "string \<Rightarrow> site \<Rightarrow> site \<Rightarrow> bool" where
  "codes_evolve k s s' \<equiv> rows_evolve pc_code_hash (\<lambda>p. pc_claimed_at p = None) k (pairing_codes (s_db s)) (pairing_codes (s_db s'))"

lemma pairing_codes_kept:
  assumes "\<not> issues e q k"
  shows "codes_evolve k s (snd (node_perform e q s))"
proof -
  obtain now c where q: "q = (now, c)" by (rule prod.exhaust)
  have same: "pairing_codes (s_db (snd (node_perform e q s))) = pairing_codes (s_db s) \<Longrightarrow> ?thesis" by simp
  show ?thesis
  proof (cases c)
    case (CreatePairingCode rq fresh)
    have "codes_evolve k s (after (create_pairing_code e now rq fresh s))"
      unfolding create_pairing_code_def
      by (rule current_user_keeps) (use assms q CreatePairingCode in \<open>auto simp: Let_def insert_pairing_code_def list_ex_iff
          split: sum.split if_splits intro!: rows_evolve_insert\<close>)
    with q CreatePairingCode show ?thesis by simp
  next
    case (ClaimNode cl fresh)
    show ?thesis
    proof (cases e now cl fresh s rule: node_claim_cases)
      case (claimed key p)
      with q ClaimNode show ?thesis by (auto intro: rows_evolve_update)
    qed (use same q ClaimNode in simp)
  next
    case (Heartbeat token i ts version capabilities signature)
    with q show ?thesis
      by (cases e now token i ts version capabilities signature s rule: heartbeat_cases) (auto simp: set_node_def)
  next
    case (RotateSecret token i ts signature replacement)
    with q show ?thesis
      by (cases e now token i ts signature replacement s rule: rotate_cases) (auto simp: set_node_def)
  next
    case (RevokeNode rq i)
    have "codes_evolve k s (after (revoke_node e now rq i s))"
      unfolding revoke_node_def by (rule current_user_keeps) (simp_all add: set_node_def split: option.split)
    with q RevokeNode show ?thesis by simp
  qed
qed

lemma claim_uses_code:
  assumes "codes_ok s" "claims e q = Some k" "fst (node_perform e q s) = Inr v"
  shows "code_live k s" "\<not> code_live k (snd (node_perform e q s))"
proof -
  obtain now c fresh where q: "q = (now, ClaimNode c fresh)" "k = token_digest e (upper (cl_code c))"
    using assms(2) by (cases "(e, q)" rule: claims.cases) auto
  have "code_live k s \<and> \<not> code_live k (snd (node_perform e q s))"
  proof (cases e now c fresh s rule: node_claim_cases)
    case (claimed key p)
    have "\<not> live_row pc_code_hash (\<lambda>p. pc_claimed_at p = None) k
        (sql_update (\<lambda>x. pc_id x = pc_id p) (\<lambda>x. x\<lparr>pc_claimed_at := Some now\<rparr>) (pairing_codes (s_db s)))"
      using assms(1) claimed(2,3) q(2) by (intro used_row_dead [of _ _ p]) (simp_all add: codes_ok_def)
    moreover from claimed(2-4) q(2) have "code_live k s" by (auto simp: code_live_def live_row_def)
    ultimately show ?thesis using claimed(8) q(1) by (simp add: code_live_def)
  qed (use assms(3) q in simp_all)
  then show "code_live k s" "\<not> code_live k (snd (node_perform e q s))" by simp_all
qed

interpretation pairing: single_use "node_perform e" "claims e" "issues e" code_live codes_ok for e
proof (unfold_locales, goal_cases)
  case (1 s q k v)
  then show ?case by (rule claim_uses_code)
next
  case (2 s q k v)
  then show ?case by (rule claim_uses_code)
next
  case (3 s k q)
  with pairing_codes_kept show ?case unfolding rows_evolve_def code_live_def by blast
next
  case (4 s q)
  have "\<not> (issues e q [] \<and> issues e q ''a'')" by (auto elim!: issues.elims)
  then obtain k where "\<not> issues e q k" by blast
  from pairing_codes_kept [OF this, of s] 4 show ?case by (simp add: rows_evolve_def codes_ok_def)
qed

lemma node_history_claims: "node_history e qs s = pairing.outcomes e qs s"
  by (induction qs arbitrary: s) simp_all

text \<open>A pairing code admits at most one node.  Over any sequence of node requests at most one claim
  with the code succeeds, as long as the code is not issued again.\<close>

theorem pairing_code_claimed_once:
  assumes "distinct (map pc_code_hash (pairing_codes (s_db s)))" "\<forall>q \<in> set qs. \<not> issues e q k"
  shows "length (filter (\<lambda>(q, r). claims e q = Some k \<and> \<not> isl r) (node_history e qs s)) \<le> 1"
  unfolding node_history_claims
  by (rule pairing.at_most_once) (use assms in \<open>simp_all add: codes_ok_def\<close>)

section \<open>Endpoints\<close>

text \<open>A claim admits only HTTPS endpoints where remote access is on; a heartbeat admits every text.\<close>

lemma claim_requires_https:
  assumes "fst (claim_node e now c fresh s) = Inr r" "remote_access_enabled (cfg e)" "cl_endpoint c = Some (scheme, url)"
  shows "scheme = ''https''"
proof (rule ccontr)
  assume "scheme \<noteq> ''https''"
  with assms show False
    by (auto simp: claim_node_def fail_def reply_def Let_def split: sum.splits option.splits if_splits)
qed

lemma heartbeat_takes_any_endpoint:
  assumes "fst (heartbeat e now token i ts version capabilities signature s) = Inr r"
    "json_get ''endpoint_url'' capabilities = Some (JStr url)" "url \<noteq> []"
  shows "\<exists>n \<in> set (nodes (s_db (after (heartbeat e now token i ts version capabilities signature s)))).
    nd_id n = i \<and> nd_endpoint_url n = Some url"
proof (cases e now token i ts version capabilities signature s rule: heartbeat_cases)
  case (accepted n)
  let ?g = "seen_node now ts version capabilities"
  from accepted(2) have n: "nd_id n = i" by (simp add: attests_def)
  with accepted(1,4) have "?g n \<in> set (nodes (s_db (after (heartbeat e now token i ts version capabilities signature s))))"
    by (auto simp: set_node_def set_sql_update intro!: image_eqI [of _ _ n])
  moreover have "nd_id (?g n) = i" "nd_endpoint_url (?g n) = Some url"
    using n assms(2,3) by (simp_all add: seen_node_def reported_endpoint_def)
  ultimately show ?thesis by blast
qed (use assms in simp)

section \<open>Concrete instances\<close>

definition paired :: node where
  "paired = \<lparr>nd_id = 3, nd_user_id = 1, nd_name = ''nas'', nd_public_key = encode_base64url (replicate 32 (CHR ''p'')),
     nd_endpoint_url = None, nd_secret_hash = token_digest sample_env ''s'', nd_status = ''online'', nd_version = None,
     nd_capabilities = None, nd_attestation_state = ''verified'', nd_last_attested_at = None,
     nd_last_attestation_timestamp_ms = None, nd_secret_rotated_at = None, nd_last_seen_at = None, nd_revoked_at = None,
     nd_created_at = 0\<rparr>"

definition pairing_row :: pairing_code where
  "pairing_row = \<lparr>pc_id = 5, pc_user_id = 1, pc_code_hash = token_digest sample_env ''AB12CD34'', pc_expires_at = 900,
     pc_claimed_at = None\<rparr>"

definition node_db :: db where
  "node_db = empty_db\<lparr>users := [sample_user 1], nodes := [paired], pairing_codes := [pairing_row]\<rparr>"

definition node_site :: site where
  "node_site = \<lparr>s_db = node_db, s_rates = Map.empty, s_ledger = Directory True [], s_files = sample_fs [], s_outbox = []\<rparr>"

definition sample_signature :: string where
  "sample_signature = encode_base64url (replicate 64 (CHR ''s''))"

definition replayed :: "(time \<times> node_call) list" where
  "replayed = [(1000, Heartbeat (Some ''s'') 3 1 None (JObj []) sample_signature),
     (1000, Heartbeat (Some ''s'') 3 1 None (JObj []) sample_signature),
     (1000, RotateSecret (Some ''s'') 3 1 sample_signature ''t'')]"

definition claimed_twice :: "(time \<times> node_call) list" where
  "claimed_twice = [(100, ClaimNode \<lparr>cl_code = ''ab12cd34'', cl_name = ''a'', cl_public_key = encode_base64url (replicate 32 (CHR ''a'')),
       cl_timestamp_ms = 1, cl_signature = sample_signature, cl_endpoint = None\<rparr> (7, ''u'')),
     (200, ClaimNode \<lparr>cl_code = ''AB12CD34'', cl_name = ''b'', cl_public_key = encode_base64url (replicate 32 (CHR ''b'')),
       cl_timestamp_ms = 1, cl_signature = sample_signature, cl_endpoint = None\<rparr> (8, ''v''))]"

lemma signed_message_accepted_once_witness:
  "length (filter (\<lambda>(q, r). signed_by q = Some (3, 1) \<and> \<not> isl r) (node_history sample_env replayed node_site)) \<le> 1"
  by (rule signed_message_accepted_once) (simp_all add: node_site_def node_db_def replayed_def)

lemma pairing_code_claimed_once_witness:
  "length (filter (\<lambda>(q, r). claims sample_env q = Some (token_digest sample_env ''AB12CD34'') \<and> \<not> isl r)
     (node_history sample_env claimed_twice node_site)) \<le> 1"
  by (rule pairing_code_claimed_once) (simp_all add: node_site_def node_db_def claimed_twice_def)

end
