(* ===== verification/Replication.thy ===== *)
theory Replication
  imports Encryption Lifecycle "HOL-Library.Product_Lexorder"
begin

text \<open>
  \<open>services/replication.py\<close>: which drives can take protection copies, the checksum-verified copy with its
  recovery sidecar, the replication of an asset to as many drives as the policy wants, and the balancing of
  drives; with \<open>protect_asset\<close> and \<open>rebalance_user_storage\<close> of \<open>worker/tasks.py\<close>, which run them.  Disk
  percentages are computed exactly.  The unreachable legacy branch of \<open>protect_asset\<close> is left out.
\<close>

section \<open>Monitoring events\<close>

text \<open>New rows take their identifiers from a supply, by the number of rows before them.\<close>

definition add_event ::
  "(nat \<Rightarrow> uuid) \<Rightarrow> time \<Rightarrow> uuid \<Rightarrow> uuid \<Rightarrow> string \<Rightarrow> string \<Rightarrow> string \<Rightarrow> json option \<Rightarrow> db \<Rightarrow> db" where
  "add_event ev now user_id asset_id kind severity message detail d = d\<lparr>monitoring_events := sql_insert
     \<lparr>me_id = ev (length (monitoring_events d)), me_user_id = Some user_id, me_asset_id = Some asset_id, me_kind = kind,
      me_severity = severity, me_status = ''open'', me_message = message, me_detail = detail, me_resolved_at = None,
      me_created_at = now\<rparr> (monitoring_events d)\<rparr>"

definition set_replica :: "uuid \<Rightarrow> (replica \<Rightarrow> replica) \<Rightarrow> db \<Rightarrow> db" where
  "set_replica i g d = d\<lparr>replicas := sql_update (\<lambda>r. r_id r = i) g (replicas d)\<rparr>"

definition set_drive :: "uuid \<Rightarrow> (drive \<Rightarrow> drive) \<Rightarrow> db \<Rightarrow> db" where
  "set_drive i g d = d\<lparr>drives := sql_update (\<lambda>x. dr_id x = i) g (drives d)\<rparr>"

section \<open>Targets\<close>

record replica_target =
  tg_id :: "uuid option"
  tg_name :: string
  tg_root :: string
  tg_priority :: int

definition replica_path_for :: "replica_target \<Rightarrow> asset \<Rightarrow> string" where
  "replica_path_for t a =
     (if a_encryption_version a \<noteq> 0
      then path_join (path_join (path_join (tg_root t) (uuid_str (a_user_id a))) (take 2 (a_checksum a))) (a_checksum a)
      else path_join (path_join (tg_root t) (take 2 (a_checksum a))) (a_checksum a))"

definition source_path_for :: "env \<Rightarrow> fs \<Rightarrow> asset \<Rightarrow> exn + string" where
  "source_path_for e f a =
     (if a_storage_source a = ''external'' then validated_external_path e f (a_original_path a)
      else validated_storage_path e f (a_original_path a) (originals_path (cfg e)))"

definition used_percent :: "env \<Rightarrow> string \<Rightarrow> int" where
  "used_percent e p = (if disk_total e p = 0 then 100 else disk_used e p * 100 div disk_total e p)"

definition disk_score :: "env \<Rightarrow> replica_target \<Rightarrow> int \<times> int \<times> string" where
  "disk_score e t = (- tg_priority t, used_percent e (tg_root t), lower (tg_name t))"

text \<open>What the check of one drive finds, and the row it leaves.\<close>

definition drive_online :: "env \<Rightarrow> fs \<Rightarrow> drive \<Rightarrow> exn + replica_target option" where
  "drive_online e f dr = sbind (validated_replica_drive_path e f (dr_path dr)) (\<lambda>p.
     Inr (if is_dir e f p \<and> writable e p
          then Some \<lparr>tg_id = Some (dr_id dr), tg_name = dr_name dr, tg_root = p, tg_priority = dr_priority dr\<rparr> else None))"

definition checked_drive :: "env \<Rightarrow> time \<Rightarrow> fs \<Rightarrow> drive \<Rightarrow> drive" where
  "checked_drive e now f dr =
     (case drive_online e f dr of
        Inr (Some t) \<Rightarrow> dr\<lparr>dr_verification_status := ''online'', dr_last_error := None, dr_last_verified_at := Some now\<rparr>
      | Inr None \<Rightarrow> dr\<lparr>dr_verification_status := ''unavailable'', dr_last_error := Some ''Drive is not a writable directory'',
          dr_failure_count := dr_failure_count dr + 1\<rparr>
      | Inl x \<Rightarrow> dr\<lparr>dr_verification_status := ''unavailable'', dr_last_error := Some (take 1000 (exn_str x)),
          dr_failure_count := dr_failure_count dr + 1\<rparr>)"

definition eligible_drive :: "uuid \<Rightarrow> drive \<Rightarrow> bool" where
  "eligible_drive uid dr \<longleftrightarrow> dr_user_id dr = uid \<and> dr_eligible dr"

definition online_targets :: "env \<Rightarrow> fs \<Rightarrow> drive list \<Rightarrow> replica_target list" where
  "online_targets e f drs = concat (map (\<lambda>dr. case drive_online e f dr of Inr (Some t) \<Rightarrow> [t] | _ \<Rightarrow> []) drs)"

definition replica_targets :: "env \<Rightarrow> time \<Rightarrow> fs \<Rightarrow> uuid \<Rightarrow> db \<Rightarrow> (exn + replica_target list) \<times> db" where
  "replica_targets e now f uid d =
     (case require_storage e f [''replicas''] of
        Inl x \<Rightarrow> (Inl x, d)
      | Inr _ \<Rightarrow>
          (let drs = filter (eligible_drive uid) (drives d) in
           if drs = []
           then (Inr [\<lparr>tg_id = None, tg_name = ''Primary protection drive'', tg_root = resolve e (replica_path (cfg e)),
                      tg_priority = 100\<rparr>], d)
           else (Inr (sort_key (disk_score e) (online_targets e f drs)),
                 d\<lparr>drives := sql_update (eligible_drive uid) (checked_drive e now f) (drives d)\<rparr>)))"

section \<open>Verified copies\<close>

definition sidecar_path :: "asset \<Rightarrow> string \<Rightarrow> string" where
  "sidecar_path a destination = destination @ ''.'' @ uuid_str (a_id a) @ ''.metadata.json''"

definition json_time :: "time option \<Rightarrow> json" where
  "json_time t = (case t of None \<Rightarrow> JNull | Some t \<Rightarrow> JStr (isoformat t))"

definition sidecar_document :: "asset \<Rightarrow> json" where
  "sidecar_document a = JObj
     [(''schema'', JInt 2), (''asset_id'', JStr (uuid_str (a_id a))), (''logical_id'', JStr (uuid_str (a_logical_id a))),
      (''version'', JInt (a_version a)), (''checksum'', JStr (a_checksum a)),
      (''storage_checksum'', JStr (a_storage_checksum a)), (''encryption_version'', JInt (a_encryption_version a)),
      (''original_filename'', json_opt_str (a_original_filename a)), (''relative_path'', json_opt_str (a_relative_path a)),
      (''mime_type'', JStr (a_mime_type a)), (''file_size'', JInt (a_file_size a)), (''taken_at'', json_time (a_taken_at a)),
      (''file_created_at'', json_time (a_file_created_at a)), (''file_modified_at'', json_time (a_file_modified_at a)),
      (''embedded_metadata'', case m_metadata_json (a_media a) of None \<Rightarrow> JNull | Some j \<Rightarrow> j)]"

text \<open>A file that is written completely under another name and then renamed over the destination.\<close>

definition replace_file :: "env \<Rightarrow> string \<Rightarrow> bytes \<Rightarrow> fs \<Rightarrow> (exn + unit) \<times> fs" where
  "replace_file e destination content f =
     (if write_fails e destination then (Inl (OSError ''write''), f) else (Inr (), write_file e destination content f))"

definition write_replica_metadata :: "env \<Rightarrow> asset \<Rightarrow> string \<Rightarrow> fs \<Rightarrow> (exn + string) \<times> fs" where
  "write_replica_metadata e a destination f =
     (case require_storage_path e f destination of
        Inl x \<Rightarrow> (Inl x, f)
      | Inr _ \<Rightarrow>
          (let path = sidecar_path a destination in
           case replace_file e path (dumps_indent 0 (sidecar_document a)) f of
             (Inl x, f) \<Rightarrow> (Inl x, f)
           | (Inr _, f) \<Rightarrow> (Inr path, f)))"

definition path_exists :: "env \<Rightarrow> fs \<Rightarrow> string \<Rightarrow> bool" where
  "path_exists e f p \<longleftrightarrow> is_file e f p \<or> is_dir e f p"

definition drop_mismatch :: "env \<Rightarrow> string \<Rightarrow> string \<Rightarrow> fs \<Rightarrow> exn + fs" where
  "drop_mismatch e destination expected f =
     (if path_exists e f destination
      then sbind (sha256_file e f destination) (\<lambda>c. if c \<noteq> expected then unlink_missing_ok e destination f else Inr f)
      else Inr f)"

definition copy_verified :: "env \<Rightarrow> string \<Rightarrow> string \<Rightarrow> string \<Rightarrow> fs \<Rightarrow> (exn + string) \<times> fs" where
  "copy_verified e source destination expected f =
     (case sbind (require_storage_path e f source) (\<lambda>_. require_storage_path e f destination) of
        Inl x \<Rightarrow> (Inl x, f)
      | Inr _ \<Rightarrow>
          (let f = mkdirs e (parent_dir destination) f in
           case drop_mismatch e destination expected f of
             Inl x \<Rightarrow> (Inl x, f)
           | Inr f \<Rightarrow>
               (case (if path_exists e f destination then (Inr (), f)
                      else case read_bytes e f source of
                        Inl x \<Rightarrow> (Inl x, f)
                      | Inr content \<Rightarrow> replace_file e destination content f) of
                  (Inl x, f) \<Rightarrow> (Inl x, f)
                | (Inr _, f) \<Rightarrow>
                    (case sha256_file e f destination of
                       Inl x \<Rightarrow> (Inl x, f)
                     | Inr c \<Rightarrow>
                         if c \<noteq> expected then (Inl (ValueError ''Replica checksum verification failed''), f)
                         else (Inr c, f)))))"

definition copy_on :: "uuid \<Rightarrow> uuid option \<Rightarrow> replica \<Rightarrow> bool" where
  "copy_on asset_id drive_id r \<longleftrightarrow> r_asset_id r = asset_id \<and> r_drive_id r = drive_id"

definition upsert_row :: "env \<Rightarrow> time \<Rightarrow> uuid \<Rightarrow> asset \<Rightarrow> uuid option \<Rightarrow> string \<Rightarrow> string \<Rightarrow> string \<Rightarrow> db \<Rightarrow> db" where
  "upsert_row e now new_id a drive_id destination checksum metadata_path d =
     (case sql_first (copy_on (a_id a) drive_id) (replicas d) of
        None \<Rightarrow> d\<lparr>replicas := sql_insert \<lparr>r_id = new_id, r_asset_id = a_id a, r_drive_id = drive_id,
            r_path = canonical_storage_path e destination, r_checksum = checksum,
            r_metadata_path = Some (canonical_storage_path e metadata_path), r_status = ''verified'',
            r_verification_status = ''verified'', r_failure_count = 0, r_last_error = None, r_verified_at = now,
            r_created_at = now\<rparr> (replicas d)\<rparr>
      | Some r \<Rightarrow> set_replica (r_id r) (\<lambda>r. r\<lparr>r_path := canonical_storage_path e destination, r_checksum := checksum,
            r_metadata_path := Some (canonical_storage_path e metadata_path), r_status := ''verified'',
            r_verification_status := ''verified'', r_failure_count := 0, r_last_error := None, r_verified_at := now\<rparr>) d)"

definition upsert_replica ::
  "env \<Rightarrow> time \<Rightarrow> uuid \<Rightarrow> asset \<Rightarrow> replica_target \<Rightarrow> string \<Rightarrow> db \<Rightarrow> fs \<Rightarrow> (exn + string) \<times> db \<times> fs" where
  "upsert_replica e now new_id a t source d f =
     (let destination = resolve e (replica_path_for t a) in
      case copy_verified e source destination (a_storage_checksum a) f of
        (Inl x, f) \<Rightarrow> (Inl x, d, f)
      | (Inr checksum, f) \<Rightarrow>
          (case write_replica_metadata e a destination f of
             (Inl x, f) \<Rightarrow> (Inl x, d, f)
           | (Inr metadata_path, f) \<Rightarrow>
               (Inr checksum, upsert_row e now new_id a (tg_id t) destination checksum metadata_path d, f)))"

section \<open>Replication of one asset\<close>

definition failed_copy :: "exn \<Rightarrow> replica \<Rightarrow> replica" where
  "failed_copy x r = r\<lparr>r_status := ''failed'', r_verification_status := ''failed'', r_failure_count := r_failure_count r + 1,
     r_last_error := Some (take 1000 (exn_str x))\<rparr>"

definition note_failure :: "exn \<Rightarrow> replica_target \<Rightarrow> asset \<Rightarrow> db \<Rightarrow> db" where
  "note_failure x t a d =
     (let d = (case tg_id t of None \<Rightarrow> d | Some i \<Rightarrow> set_drive i (\<lambda>dr. dr\<lparr>dr_failure_count := dr_failure_count dr + 1,
                 dr_verification_status := ''failed'', dr_last_error := Some (take 1000 (exn_str x))\<rparr>) d)
      in case sql_first (copy_on (a_id a) (tg_id t)) (replicas d) of
           None \<Rightarrow> d
         | Some r \<Rightarrow> set_replica (r_id r) (failed_copy x) d)"

text \<open>The loop over the chosen targets: how many copies are verified, and the failures in order.\<close>

fun place_copies ::
  "env \<Rightarrow> time \<Rightarrow> (uuid option \<Rightarrow> uuid) \<Rightarrow> asset \<Rightarrow> string \<Rightarrow> replica_target list \<Rightarrow> db \<Rightarrow> fs \<Rightarrow> nat \<times> string list \<times> db \<times> fs" where
  "place_copies e now fresh a source [] d f = (0, [], d, f)"
| "place_copies e now fresh a source (t # ts) d f =
     (case upsert_replica e now (fresh (tg_id t)) a t source d f of
        (Inr _, d, f) \<Rightarrow>
          (case place_copies e now fresh a source ts d f of (n, failures, d, f) \<Rightarrow> (Suc n, failures, d, f))
      | (Inl x, d, f) \<Rightarrow>
          (case place_copies e now fresh a source ts (note_failure x t a d) f of
             (n, failures, d, f) \<Rightarrow> (n, (tg_name t @ '': '' @ exn_str x) # failures, d, f)))"

definition set_protection :: "asset \<Rightarrow> string \<Rightarrow> db \<Rightarrow> db" where
  "set_protection a s d = update_asset (a_id a) (\<lambda>x. x\<lparr>a_protection_status := s\<rparr>) d"

definition capacity_shortfall :: "(nat \<Rightarrow> uuid) \<Rightarrow> time \<Rightarrow> asset \<Rightarrow> policy \<Rightarrow> nat \<Rightarrow> db \<Rightarrow> db" where
  "capacity_shortfall ev now a p available d =
     add_event ev now (a_user_id a) (a_id a) ''replica_capacity_shortfall'' ''warning''
       ''Fewer eligible replica drives are online than the selected replica policy requires.''
       (Some (JObj [(''desired'', JInt (p_desired_replica_count p)), (''available'', JInt (int available))]))
       (set_protection a ''degraded'' d)"

text \<open>\<open>targets[:wanted]\<close>; a negative bound counts from the end.\<close>

definition first_targets :: "int \<Rightarrow> replica_target list \<Rightarrow> replica_target list" where
  "first_targets wanted ts = take (if wanted < 0 then length ts - nat (- wanted) else nat wanted) ts"

definition ensure_asset_replicas ::
  "env \<Rightarrow> time \<Rightarrow> (nat \<Rightarrow> uuid) \<Rightarrow> (uuid option \<Rightarrow> uuid) \<Rightarrow> asset \<Rightarrow> db \<Rightarrow> fs \<Rightarrow> (exn + nat) \<times> db \<times> fs" where
  "ensure_asset_replicas e now ev fresh a d f =
     (let (p, d) = storage_policy e (a_user_id a) d in
      case replica_targets e now f (a_user_id a) d of
        (Inl x, d) \<Rightarrow> (Inl x, d, f)
      | (Inr targets, d) \<Rightarrow>
          (let desired = p_desired_replica_count p;
               wanted = min desired (int (length targets));
               d = (if wanted < desired then capacity_shortfall ev now a p (length targets) d else d)
           in case source_path_for e f a of
                Inl x \<Rightarrow> (Inl x, d, f)
              | Inr source \<Rightarrow>
                  if \<not> is_file e f source then (Inl FileNotFoundError, set_protection a ''failed'' d, f)
                  else
                    (let (verified, failures, d, f) = place_copies e now fresh a source (first_targets wanted targets) d f;
                         d = set_protection a (if int verified \<ge> desired then ''protected'' else ''degraded'') d;
                         d = (if failures = [] then d
                              else add_event ev now (a_user_id a) (a_id a) ''replica_verification_failed'' ''warning''
                                ''One or more replica copies could not be verified.''
                                (Some (JObj [(''failures'', JList (map JStr failures))])) d)
                     in (Inr verified, d, f))))"

definition active_asset_for_write :: "uuid \<Rightarrow> db \<Rightarrow> (asset \<times> user) option" where
  "active_asset_for_write i d =
     (case sql_first (\<lambda>a. a_id a = i) (assets d) of
        None \<Rightarrow> None
      | Some a \<Rightarrow>
          (case active_user d (a_user_id a) of
             None \<Rightarrow> None
           | Some u \<Rightarrow>
               (case sql_first (\<lambda>a. a_id a = i \<and> a_user_id a = u_id u \<and> a_lifecycle_state a = Active) (assets d) of
                  None \<Rightarrow> None
                | Some a \<Rightarrow> Some (a, u))))"

text \<open>A failed replication is rolled back, recorded on the asset and raised again.\<close>

definition protect_asset ::
  "env \<Rightarrow> time \<Rightarrow> (nat \<Rightarrow> uuid) \<Rightarrow> (uuid option \<Rightarrow> uuid) \<Rightarrow> uuid \<Rightarrow> db \<Rightarrow> fs \<Rightarrow> (exn + unit) \<times> db \<times> fs" where
  "protect_asset e now ev fresh i d f =
     (case active_asset_for_write i d of
        None \<Rightarrow> (Inr (), d, f)
      | Some (a, u) \<Rightarrow>
          (case ensure_asset_replicas e now ev fresh a (set_protection a ''protecting'' d) f of
             (Inr _, d', f) \<Rightarrow> (Inr (), d', f)
           | (Inl x, _, f) \<Rightarrow> (Inl x, set_protection a ''failed'' d, f)))"

section \<open>Balancing\<close>

definition occupancy :: "env \<Rightarrow> replica_target \<Rightarrow> rat" where
  "occupancy e t = of_int (disk_used e (tg_root t)) / of_int (disk_total e (tg_root t)) * 100"

definition balance_failed :: "(nat \<Rightarrow> uuid) \<Rightarrow> time \<Rightarrow> uuid \<Rightarrow> asset \<Rightarrow> exn \<Rightarrow> db \<Rightarrow> db" where
  "balance_failed ev now uid a x d = add_event ev now uid (a_id a) ''replica_balance_failed'' ''warning''
     ''Storage balancing kept the existing verified copy after a destination failure.''
     (Some (JObj [(''reason'', JStr (take 500 (exn_str x)))])) d"

text \<open>The removal of a copy whose replacement is verified: its content, then its sidecar.\<close>

definition unlink_copy :: "env \<Rightarrow> replica \<Rightarrow> db \<Rightarrow> fs \<Rightarrow> (exn + unit) \<times> fs" where
  "unlink_copy e r d f =
     (case safely_unlink_catalog_path e d f (r_path r) None True None (Some (r_id r)) None of
        Inl x \<Rightarrow> (Inl x, f)
      | Inr (_, f) \<Rightarrow>
          (case r_metadata_path r of
             None \<Rightarrow> (Inr (), f)
           | Some m \<Rightarrow>
               if m = [] then (Inr (), f)
               else case safely_unlink_catalog_path e d f m None True None (Some (r_id r)) None of
                 Inl x \<Rightarrow> (Inl x, f)
               | Inr (_, f) \<Rightarrow> (Inr (), f)))"

definition move_copy ::
  "env \<Rightarrow> time \<Rightarrow> (nat \<Rightarrow> uuid) \<Rightarrow> (uuid \<Rightarrow> uuid) \<Rightarrow> uuid \<Rightarrow> replica_target \<Rightarrow> replica \<times> asset \<Rightarrow> db \<Rightarrow> fs \<Rightarrow> bool \<times> db \<times> fs" where
  "move_copy e now ev fresh uid low ra d f =
     (case ra of (r, a) \<Rightarrow>
        if list_ex (copy_on (a_id a) (tg_id low)) (replicas d) \<or> \<not> is_file e f (r_path r) then (False, d, f)
        else
          (case upsert_replica e now (fresh (r_id r)) a low (r_path r) d f of
             (Inl x, d, f) \<Rightarrow> (False, balance_failed ev now uid a x d, f)
           | (Inr checksum, d, f) \<Rightarrow>
               if checksum \<noteq> a_storage_checksum a then (False, d, f)
               else
                 (case unlink_copy e r d f of
                    (Inl x, f) \<Rightarrow> (False, balance_failed ev now uid a x d, f)
                  | (Inr _, f) \<Rightarrow> (True, d\<lparr>replicas := sql_delete (\<lambda>x. r_id x = r_id r) (replicas d)\<rparr>, f))))"

fun move_copies ::
  "env \<Rightarrow> time \<Rightarrow> (nat \<Rightarrow> uuid) \<Rightarrow> (uuid \<Rightarrow> uuid) \<Rightarrow> uuid \<Rightarrow> replica_target \<Rightarrow> (replica \<times> asset) list \<Rightarrow> db \<Rightarrow> fs \<Rightarrow> nat \<times> db \<times> fs" where
  "move_copies e now ev fresh uid low [] d f = (0, d, f)"
| "move_copies e now ev fresh uid low (ra # ras) d f =
     (case move_copy e now ev fresh uid low ra d f of
        (moved, d, f) \<Rightarrow>
          (case move_copies e now ev fresh uid low ras d f of (n, d, f) \<Rightarrow> (if moved then Suc n else n, d, f)))"

definition movable :: "uuid \<Rightarrow> replica_target \<Rightarrow> db \<Rightarrow> (replica \<times> asset) list" where
  "movable uid high d = concat (map (\<lambda>r. if r_status r = ''verified'' \<and> r_drive_id r = tg_id high then
     map (Pair r) (filter (\<lambda>a. a_id a = r_asset_id r \<and> a_user_id a = uid \<and> a_lifecycle_state a = Active) (assets d)) else [])
     (replicas d))"

definition rebalance_replicas ::
  "env \<Rightarrow> time \<Rightarrow> (nat \<Rightarrow> uuid) \<Rightarrow> (uuid \<Rightarrow> uuid) \<Rightarrow> uuid \<Rightarrow> nat \<Rightarrow> db \<Rightarrow> fs \<Rightarrow> (exn + nat) \<times> db \<times> fs" where
  "rebalance_replicas e now ev fresh uid limit d f =
     (let (p, d) = storage_policy e uid d in
      case replica_targets e now f uid d of
        (Inl x, d) \<Rightarrow> (Inl x, d, f)
      | (Inr targets, d) \<Rightarrow>
          if length targets < 2 then (Inr 0, d, f)
          else if list_ex (\<lambda>t. disk_total e (tg_root t) = 0) targets then (Inl ZeroDivisionError, d, f)
          else
            (let ordered = sort_key (occupancy e) targets; low = hd ordered; high = last ordered in
             if occupancy e high - occupancy e low < of_int (p_balance_threshold_percent p) then (Inr 0, d, f)
             else (case move_copies e now ev fresh uid low (take limit (movable uid high d)) d f of
                     (n, d, f) \<Rightarrow> (Inr n, d, f))))"

text \<open>An exception leaves the database as it was.\<close>

definition rebalance_user_storage ::
  "env \<Rightarrow> time \<Rightarrow> (nat \<Rightarrow> uuid) \<Rightarrow> (uuid \<Rightarrow> uuid) \<Rightarrow> uuid \<Rightarrow> db \<Rightarrow> fs \<Rightarrow> (exn + nat) \<times> db \<times> fs" where
  "rebalance_user_storage e now ev fresh uid d f =
     (case active_user d uid of
        None \<Rightarrow> (Inr 0, d, f)
      | Some u \<Rightarrow>
          (case rebalance_replicas e now ev fresh uid 25 d f of
             (Inl x, _, f) \<Rightarrow> (Inl x, d, f)
           | (Inr n, d, f) \<Rightarrow> (Inr n, d, f)))"

end
