(* ===== verification/Restoration.thy ===== *)
theory Restoration
  imports Replication
begin

text \<open>
  Recovery in \<open>worker/tasks.py\<close>: the restoration of a missing original from the first checksum-valid
  protection copy, the events it opens and resolves, and the pass that verifies originals and copies and queues
  restorations and replications.
  Reading a file fails in the model only when it is missing; metrics, push notifications (best effort, they
  never raise) and file timestamps are left out.
\<close>

section \<open>Copying back one file\<close>

definition copy_verified_replica :: "env \<Rightarrow> string \<Rightarrow> string \<Rightarrow> string \<Rightarrow> fs \<Rightarrow> (exn + unit) \<times> fs" where
  "copy_verified_replica e source destination expected f =
     (case sbind (require_storage_path e f source) (\<lambda>_. require_storage_path e f destination) of
        Inl x \<Rightarrow> (Inl x, f)
      | Inr _ \<Rightarrow>
          if \<not> is_file e f source then (Inl (InvalidReplicaError ''missing''), f)
          else
            (case sha256_file e f source of
               Inl x \<Rightarrow> (Inl (InvalidReplicaError ''missing''), f)
             | Inr c \<Rightarrow>
                 if c \<noteq> expected then (Inl (InvalidReplicaError ''checksum_mismatch''), f)
                 else
                   (let f = mkdirs e (parent_dir destination) f in
                    case read_bytes e f source of
                      Inl x \<Rightarrow> (Inl (InvalidReplicaError ''disappeared''), f)
                    | Inr content \<Rightarrow>
                        if write_fails e destination then (Inl (OSError ''write''), f)
                        else if sha256 e content \<noteq> expected then (Inl (InvalidReplicaError ''copy_checksum_mismatch''), f)
                        else
                          (case require_storage_path e f destination of
                             Inl x \<Rightarrow> (Inl x, f)
                           | Inr _ \<Rightarrow> (Inr (), write_file e destination content f)))))"

text \<open>The result is the replica that was copied, if any, and the failures before it.\<close>

fun restore_from_candidates ::
  "env \<Rightarrow> (uuid \<times> string) list \<Rightarrow> string \<Rightarrow> string \<Rightarrow> fs \<Rightarrow> (exn + uuid option \<times> (uuid \<times> string) list) \<times> fs" where
  "restore_from_candidates e [] destination expected f = (Inr (None, []), f)"
| "restore_from_candidates e ((i, path) # candidates) destination expected f =
     (case copy_verified_replica e path destination expected f of
        (Inr _, f) \<Rightarrow> (Inr (Some i, []), f)
      | (Inl x, f) \<Rightarrow>
          (case x of
             InvalidReplicaError code \<Rightarrow>
               (case restore_from_candidates e candidates destination expected f of
                  (Inl y, f) \<Rightarrow> (Inl y, f)
                | (Inr (chosen, failures), f) \<Rightarrow> (Inr (chosen, (i, code) # failures), f))
           | _ \<Rightarrow> (Inl x, f)))"

section \<open>Events\<close>

definition set_event :: "uuid \<Rightarrow> (monitoring_event \<Rightarrow> monitoring_event) \<Rightarrow> db \<Rightarrow> db" where
  "set_event i g d = d\<lparr>monitoring_events := sql_update (\<lambda>m. me_id m = i) g (monitoring_events d)\<rparr>"

definition open_event_of :: "uuid \<Rightarrow> string \<Rightarrow> db \<Rightarrow> monitoring_event option" where
  "open_event_of asset_id kind d =
     sql_first (\<lambda>m. me_asset_id m = Some asset_id \<and> me_kind m = kind \<and> me_status m = ''open'') (monitoring_events d)"

definition open_recovery_event ::
  "(nat \<Rightarrow> uuid) \<Rightarrow> time \<Rightarrow> asset \<Rightarrow> string \<Rightarrow> string \<Rightarrow> string \<Rightarrow> json option \<Rightarrow> db \<Rightarrow> db" where
  "open_recovery_event ev now a kind severity message detail d =
     (case open_event_of (a_id a) kind d of
        Some m \<Rightarrow> set_event (me_id m) (\<lambda>m. m\<lparr>me_detail := detail\<rparr>) d
      | None \<Rightarrow> add_event ev now (a_user_id a) (a_id a) kind severity message detail d)"

definition resolve_events :: "time \<Rightarrow> uuid \<Rightarrow> string list \<Rightarrow> db \<Rightarrow> db" where
  "resolve_events now asset_id kinds d = d\<lparr>monitoring_events := sql_update
     (\<lambda>m. me_asset_id m = Some asset_id \<and> me_status m = ''open'' \<and> me_kind m \<in> set kinds)
     (\<lambda>m. m\<lparr>me_status := ''resolved'', me_resolved_at := Some now\<rparr>) (monitoring_events d)\<rparr>"

section \<open>Restoration of one asset\<close>

definition drive_priority :: "db \<Rightarrow> uuid option \<Rightarrow> int" where
  "drive_priority d i =
     (case sql_first (\<lambda>x. Some (dr_id x) = i) (drives d) of None \<Rightarrow> 100 | Some x \<Rightarrow> dr_priority x)"

definition restore_order :: "db \<Rightarrow> uuid \<Rightarrow> replica list" where
  "restore_order d i = sort_key (\<lambda>r. (- drive_priority d (r_drive_id r), - r_verified_at r, r_id r))
     (filter (\<lambda>r. r_asset_id r = i \<and> r_status r = ''verified'' \<and> r_verification_status r = ''verified'') (replicas d))"

definition restore_candidates :: "env \<Rightarrow> fs \<Rightarrow> replica list \<Rightarrow> (uuid \<times> string) list" where
  "restore_candidates e f rs = concat (map (\<lambda>r. case validated_replica_drive_path e f (r_path r) of
     Inl x \<Rightarrow> [] | Inr p \<Rightarrow> [(r_id r, p)]) rs)"

definition invalid_paths :: "env \<Rightarrow> fs \<Rightarrow> replica list \<Rightarrow> (uuid \<times> string) list" where
  "invalid_paths e f rs = concat (map (\<lambda>r. case validated_replica_drive_path e f (r_path r) of
     Inl x \<Rightarrow> [(r_id r, ''invalid_path'')] | Inr p \<Rightarrow> []) rs)"

definition fail_candidate :: "uuid \<times> string \<Rightarrow> db \<Rightarrow> db" where
  "fail_candidate failure d = set_replica (fst failure) (\<lambda>r. r\<lparr>r_status := ''failed'', r_verification_status := ''failed'',
     r_failure_count := r_failure_count r + 1, r_last_error := Some (''Restore candidate failed: '' @ snd failure)\<rparr>) d"

definition verify_candidate :: "time \<Rightarrow> uuid \<Rightarrow> db \<Rightarrow> db" where
  "verify_candidate now i d = set_replica i (\<lambda>r. r\<lparr>r_status := ''verified'', r_verification_status := ''verified'',
     r_failure_count := 0, r_last_error := None, r_verified_at := now\<rparr>) d"

definition set_restore :: "asset \<Rightarrow> string \<Rightarrow> db \<Rightarrow> db" where
  "set_restore a s d = update_asset (a_id a) (\<lambda>x. x\<lparr>a_restore_status := s\<rparr>) d"

definition restore_destination :: "env \<Rightarrow> asset \<Rightarrow> string" where
  "restore_destination e a =
     resolve e (original_path_for e (a_checksum a) (if a_encryption_version a \<noteq> 0 then Some (a_user_id a) else None))"

definition resolved_by_restore :: "string list" where
  "resolved_by_restore = [''automatic_restore'', ''original_missing_recovery_available'', ''original_unrecoverable'',
     ''restore_write_failed'', ''storage_unavailable'']"

definition restored_asset :: "env \<Rightarrow> time \<Rightarrow> bool \<Rightarrow> asset \<Rightarrow> asset" where
  "restored_asset e now degraded a =
     a\<lparr>a_original_path := canonical_storage_path e (restore_destination e a), a_storage_source := ''managed'',
       a_external_library_id := None, a_restore_status := ''restored'', a_restored_at := Some now,
       a_protection_status := (if degraded then ''degraded'' else a_protection_status a)\<rparr>"

text \<open>What follows the attempt \<open>res\<close> on the candidates of the asset: success, no usable copy, or an error.\<close>

definition restore_outcome ::
  "env \<Rightarrow> time \<Rightarrow> (nat \<Rightarrow> uuid) \<Rightarrow> asset \<Rightarrow> replica list \<Rightarrow> (uuid \<times> string) list \<Rightarrow>
   exn + uuid option \<times> (uuid \<times> string) list \<Rightarrow> db \<Rightarrow> (exn + bool) \<times> db" where
  "restore_outcome e now ev a rs invalid res d =
     (case res of
        Inl (StorageUnavailableError rl) \<Rightarrow>
          (Inl (StorageUnavailableError rl),
           open_recovery_event ev now a ''storage_unavailable'' ''warning''
             ''Recovery is paused. Reconnect the approved storage drive; monitoring will retry restoration.''
             (Some (JObj [(''operation'', JStr ''restore'')])) (set_restore a ''failed'' d))
      | Inl x \<Rightarrow>
          (Inl x, open_recovery_event ev now a ''restore_write_failed'' ''warning''
             ''A verified copy was found, but the managed original could not be written.''
             (Some (JObj [(''reason'', JStr (exn_name x))])) (set_restore a ''failed'' d))
      | Inr (Some i, failures) \<Rightarrow>
          (let all = invalid @ failures in
           (Inr True, resolve_events now (a_id a) resolved_by_restore
             (update_asset (a_id a) (restored_asset e now (all \<noteq> []))
               (verify_candidate now i (fold fail_candidate all d)))))
      | Inr (None, failures) \<Rightarrow>
          (let all = invalid @ failures in
           (Inr False, open_recovery_event ev now a ''original_unrecoverable'' ''critical''
              ''The original is unavailable and every verified protection copy failed validation.''
              (Some (JObj [(''attempted_replicas'', JInt (int (length rs))),
                 (''failed_replica_ids'', JList (map (\<lambda>x. JStr (uuid_str (fst x))) all))]))
              (update_asset (a_id a) (\<lambda>x. x\<lparr>a_restore_status := ''failed'', a_protection_status := ''failed''\<rparr>)
                (fold fail_candidate all d)))))"

definition restore_asset :: "env \<Rightarrow> time \<Rightarrow> (nat \<Rightarrow> uuid) \<Rightarrow> uuid \<Rightarrow> db \<Rightarrow> fs \<Rightarrow> (exn + bool) \<times> db \<times> fs" where
  "restore_asset e now ev i d f =
     (case active_asset_for_write i d of
        None \<Rightarrow> (Inr False, d, f)
      | Some (a, u) \<Rightarrow>
          (let rs = restore_order d (a_id a);
               d = set_restore a ''restoring'' d;
               (res, f') = (case require_storage e f [''originals'', ''replicas''] of
                  Inl x \<Rightarrow> (Inl x, f)
                | Inr _ \<Rightarrow> restore_from_candidates e (restore_candidates e f rs) (restore_destination e a) (a_storage_checksum a) f);
               (out, d) = restore_outcome e now ev a rs (invalid_paths e f rs) res d
           in (out, d, f')))"

section \<open>Automatic restoration\<close>

definition json_true :: "json \<Rightarrow> bool" where
  "json_true j \<longleftrightarrow> j \<notin> {JNull, JBool False, JInt 0, JFloat ''0.0'', JFloat ''-0.0'', JStr [], JList [], JObj []}"

definition automatic_restore_retry_due :: "env \<Rightarrow> asset \<Rightarrow> monitoring_event option \<Rightarrow> time \<Rightarrow> bool" where
  "automatic_restore_retry_due e a event now =
     (case event of
        None \<Rightarrow> True
      | Some m \<Rightarrow>
          if a_restore_status a = ''failed'' then True
          else
            (let raw = Option.bind (me_detail m) (json_get ''queued_at'');
                 queued_at = (case raw of
                   Some j \<Rightarrow> if json_true j then (case parse_iso e (py_str j) of Some q \<Rightarrow> q | None \<Rightarrow> me_created_at m)
                     else me_created_at m
                 | None \<Rightarrow> me_created_at m)
             in now - queued_at \<ge> minutes 15))"

text \<open>Whether the broker accepts a task is the input \<open>refused\<close>.  Every change made so far is committed
  before the task is published.\<close>

definition queue_automatic_restore ::
  "env \<Rightarrow> time \<Rightarrow> (nat \<Rightarrow> uuid) \<Rightarrow> (uuid \<Rightarrow> bool) \<Rightarrow> asset \<Rightarrow> db \<Rightarrow> bool \<times> db" where
  "queue_automatic_restore e now ev refused a d =
     (let event = open_event_of (a_id a) ''automatic_restore'' d in
      if \<not> automatic_restore_retry_due e a event now then (False, d)
      else
        (let message = ''Original was missing; restore queued from verified protection copies.'';
             detail = Some (JObj [(''queued_at'', JStr (isoformat now))]);
             i = (case event of Some m \<Rightarrow> me_id m | None \<Rightarrow> ev (length (monitoring_events d)));
             d = (case event of
                 None \<Rightarrow> add_event ev now (a_user_id a) (a_id a) ''automatic_restore'' ''warning'' message detail d
               | Some m \<Rightarrow> set_event i (\<lambda>m. m\<lparr>me_message := message, me_detail := detail\<rparr>) d);
             d = set_restore a ''queued'' d
         in if refused (a_id a)
            then (False, set_event i (\<lambda>m. m\<lparr>me_message :=
                    ''Recovery could not be queued. Monitoring will retry after the background service is available.''\<rparr>)
                    (set_restore a ''failed'' d))
            else (True, d)))"

section \<open>The verification pass\<close>

definition replica_healthy :: "env \<Rightarrow> fs \<Rightarrow> asset \<Rightarrow> replica \<Rightarrow> exn + bool" where
  "replica_healthy e f a r = sbind (validated_replica_drive_path e f (r_path r)) (\<lambda>p.
     if \<not> is_file e f p then Inr False
     else sbind (sha256_file e f p) (\<lambda>c. Inr (c = a_storage_checksum a)))"

definition checked_replica :: "env \<Rightarrow> time \<Rightarrow> fs \<Rightarrow> asset \<Rightarrow> replica \<Rightarrow> replica" where
  "checked_replica e now f a r =
     (case replica_healthy e f a r of
        Inr True \<Rightarrow> r\<lparr>r_status := ''verified'', r_verification_status := ''verified'', r_failure_count := 0,
          r_last_error := None, r_verified_at := now\<rparr>
      | Inr False \<Rightarrow> r\<lparr>r_status := ''failed'', r_verification_status := ''failed'', r_failure_count := r_failure_count r + 1,
          r_last_error := Some ''Replica is missing or checksum verification failed''\<rparr>
      | Inl x \<Rightarrow> failed_copy x r)"

definition original_ok :: "env \<Rightarrow> fs \<Rightarrow> asset \<Rightarrow> bool" where
  "original_ok e f a \<longleftrightarrow> is_file e f (a_original_path a) \<and> sha256_file e f (a_original_path a) = Inr (a_storage_checksum a)"

definition healthy_replicas :: "env \<Rightarrow> fs \<Rightarrow> asset \<Rightarrow> db \<Rightarrow> replica list" where
  "healthy_replicas e f a d = filter (\<lambda>r. r_asset_id r = a_id a \<and> replica_healthy e f a r = Inr True) (replicas d)"

definition resolved_by_monitor :: "string list" where
  "resolved_by_monitor = [''automatic_restore'', ''original_missing_recovery_available'', ''storage_unavailable'',
     ''original_unrecoverable'', ''restore_write_failed'', ''replica_verification_failed'']"

datatype worker_task = RestoreAsset uuid | ProtectAsset uuid

text \<open>The state of a pass: the database as last committed, the session's view of it, and the tasks published.\<close>

record pass =
  committed :: db
  view :: db
  published :: "worker_task list"

definition monitor_asset ::
  "env \<Rightarrow> time \<Rightarrow> (nat \<Rightarrow> uuid) \<Rightarrow> (uuid \<Rightarrow> bool) \<Rightarrow> bool \<Rightarrow> fs \<Rightarrow> asset \<Rightarrow> pass \<Rightarrow> (exn + unit) \<times> pass" where
  "monitor_asset e now ev refused repair f a st =
     (case sbind (require_storage_path e f (a_original_path a)) (\<lambda>_. require_storage e f [''replicas'']) of
        Inl x \<Rightarrow> (Inr (), st\<lparr>view := open_recovery_event ev now a ''storage_unavailable'' ''warning''
          ''Reconnect the approved storage drive. Verification and recovery are paused until its identity is confirmed.''
          (Some (JObj [])) (view st)\<rparr>)
      | Inr _ \<Rightarrow>
          (let ok = original_ok e f a;
               attempted = length (filter (\<lambda>r. r_asset_id r = a_id a) (replicas (view st)));
               healthy = healthy_replicas e f a (view st);
               d = (view st)\<lparr>replicas := sql_update (\<lambda>r. r_asset_id r = a_id a) (checked_replica e now f a) (replicas (view st))\<rparr>
           in if \<not> ok \<and> healthy \<noteq> [] \<and> a_storage_source a = ''managed'' then
                (if repair then
                   (let (queued, d') = queue_automatic_restore e now ev refused a d;
                        due = automatic_restore_retry_due e a (open_event_of (a_id a) ''automatic_restore'' d) now
                    in (Inr (), st\<lparr>view := d', committed := (if due then d' else committed st),
                          published := published st @ (if queued then [RestoreAsset (a_id a)] else [])\<rparr>))
                 else (Inr (), st\<lparr>view := open_recovery_event ev now a ''original_missing_recovery_available'' ''warning''
                        ''The managed original is missing, but a checksum-valid protection copy is available.''
                        (Some (JObj [(''healthy_replicas'', JInt (int (length healthy)))])) d\<rparr>))
              else if \<not> ok \<and> healthy = [] then
                (Inr (), st\<lparr>view := open_recovery_event ev now a ''original_unrecoverable'' ''critical''
                   ''The original is unavailable and no checksum-valid protection copy is available.''
                   (Some (JObj [(''attempted_replicas'', JInt (int attempted))]))
                   (update_asset (a_id a) (\<lambda>x. x\<lparr>a_restore_status := ''failed'', a_protection_status := ''failed''\<rparr>) d)\<rparr>)
              else if repair \<and> ok \<and> auto_protect_uploads (cfg e) \<and> (length healthy < 1 \<or> a_protection_status a \<noteq> ''protected'') then
                (let d = set_protection a ''pending'' d in
                 if refused (a_id a) then (Inl (RuntimeError ''broker''), st\<lparr>view := d\<rparr>)
                 else (Inr (), st\<lparr>view := d, published := published st @ [ProtectAsset (a_id a)]\<rparr>))
              else if ok \<and> healthy \<noteq> [] then
                (Inr (), st\<lparr>view := resolve_events now (a_id a) resolved_by_monitor d\<rparr>)
              else (Inr (), st\<lparr>view := d\<rparr>)))"

fun monitor_assets ::
  "env \<Rightarrow> time \<Rightarrow> (nat \<Rightarrow> uuid) \<Rightarrow> (uuid \<Rightarrow> bool) \<Rightarrow> bool \<Rightarrow> fs \<Rightarrow> asset list \<Rightarrow> pass \<Rightarrow> (exn + unit) \<times> pass" where
  "monitor_assets e now ev refused repair f [] st = (Inr (), st)"
| "monitor_assets e now ev refused repair f (a # as) st =
     (case monitor_asset e now ev refused repair f a st of
        (Inl x, st) \<Rightarrow> (Inl x, st)
      | (Inr _, st) \<Rightarrow> monitor_assets e now ev refused repair f as st)"

definition monitored :: "uuid option \<Rightarrow> db \<Rightarrow> asset list" where
  "monitored user_id d = filter (\<lambda>a. a_lifecycle_state a = Active \<and> (user_id = None \<or> user_id = Some (a_user_id a))) (assets d)"

text \<open>Only a pass that ends commits its last changes.\<close>

definition monitor_storage ::
  "env \<Rightarrow> time \<Rightarrow> (nat \<Rightarrow> uuid) \<Rightarrow> (uuid \<Rightarrow> bool) \<Rightarrow> uuid option \<Rightarrow> bool \<Rightarrow> db \<Rightarrow> fs \<Rightarrow> (exn + unit) \<times> db \<times> worker_task list" where
  "monitor_storage e now ev refused user_id repair d f =
     (case monitor_assets e now ev refused repair f (monitored user_id d) \<lparr>committed = d, view = d, published = []\<rparr> of
        (Inr _, st) \<Rightarrow> (Inr (), view st, published st)
      | (Inl x, st) \<Rightarrow> (Inl x, committed st, published st))"

end
