(* ===== verification/RecoverySafety.thy ===== *)
theory RecoverySafety
  imports Restoration
begin

text \<open>
  What recovery promises.  A restoration succeeds exactly when some verified copy is intact, publishes only
  intact bytes and touches no other file; the verification pass marks exactly the intact copies as verified and
  publishes only the tasks that are needed.
\<close>

section \<open>Files\<close>

text \<open>The file at a path has the recorded digest.\<close>

definition intact :: "env \<Rightarrow> fs \<Rightarrow> string \<Rightarrow> string \<Rightarrow> bool" where
  "intact e f p c \<longleftrightarrow> (\<exists>b. files f (canonical e p) = Some b \<and> sha256 e b = c)"

definition other_files_kept :: "string set \<Rightarrow> fs \<Rightarrow> fs \<Rightarrow> bool" where
  "other_files_kept ps f f' \<longleftrightarrow> (\<forall>q. q \<notin> ps \<longrightarrow> files f' q = files f q)"

lemma other_files_refl [simp]: "other_files_kept ps f f"
  by (simp add: other_files_kept_def)

lemma other_files_same: "files f' = files f \<Longrightarrow> other_files_kept ps f f'"
  by (simp add: other_files_kept_def)

lemma other_files_trans: "other_files_kept ps f g \<Longrightarrow> other_files_kept ps g h \<Longrightarrow> other_files_kept ps f h"
  by (simp add: other_files_kept_def)

lemma sha256_file_Inr: "sha256_file e f p = Inr c \<longleftrightarrow> intact e f p c"
  by (auto simp: sha256_file_def sbind_Inr_iff read_bytes_def intact_def split: option.splits)

lemma is_file_intact: "intact e f p c \<Longrightarrow> is_file e f p"
  by (auto simp: intact_def is_file_def)

lemma intact_mkdirs [simp]: "intact e (mkdirs e q f) p c = intact e f p c" "is_file e (mkdirs e q f) p = is_file e f p"
  by (simp_all add: intact_def is_file_def)

lemma intact_canonical: "canonical e p = canonical e q \<Longrightarrow> intact e f p c = intact e f q c"
  by (simp add: intact_def)

lemma intact_kept: "other_files_kept ps f f' \<Longrightarrow> canonical e p \<notin> ps \<Longrightarrow> intact e f' p c = intact e f p c"
  by (simp add: intact_def other_files_kept_def)

section \<open>Restoration\<close>

lemma check_all_Inl: "check_all g xs = Inl x \<Longrightarrow> \<exists>y \<in> set xs. g y = Inl x"
  by (induction xs) (auto simp: sbind_Inl_iff)

lemma verify_binding_Inl: "verify_binding e f b = Inl x \<Longrightarrow> \<exists>rl. x = StorageUnavailableError rl"
  by (auto simp: verify_binding_def split: if_splits option.splits)

lemma load_manifest_Inl: "load_storage_manifest e f = Inl x \<Longrightarrow> \<exists>rl. x = StorageUnavailableError rl"
  by (auto simp: load_storage_manifest_def split: if_splits option.splits)

lemma require_path_Inl: "require_storage_path e f p = Inl x \<Longrightarrow> \<exists>rl. x = StorageUnavailableError rl"
  by (auto simp: require_storage_path_def sbind_Inl_iff Let_def split: option.splits if_splits
      dest!: check_all_Inl load_manifest_Inl verify_binding_Inl)

text \<open>The only exceptions of a single attempt, and what each leaves.\<close>

lemma copy_back_cases:
  obtains (unavailable) rl where "copy_verified_replica e source destination expected f = (Inl (StorageUnavailableError rl), f)"
      "\<not> (require_storage_path e f source = Inr () \<and> require_storage_path e f destination = Inr ())"
  | (skipped) code where "copy_verified_replica e source destination expected f = (Inl (InvalidReplicaError code), f)"
      "\<not> intact e f source expected"
  | (stopped) x f' where "copy_verified_replica e source destination expected f = (Inl x, f')" "files f' = files f"
      "\<forall>code. x \<noteq> InvalidReplicaError code" "write_fails e destination"
  | (copied) f' where "copy_verified_replica e source destination expected f = (Inr (), f')" "intact e f source expected"
      "intact e f' destination expected" "other_files_kept {canonical e destination} f f'"
proof (cases "sbind (require_storage_path e f source) (\<lambda>_. require_storage_path e f destination)")
  case (Inl x)
  then obtain rl where "x = StorageUnavailableError rl" by (auto simp: sbind_Inl_iff dest!: require_path_Inl)
  with Inl show thesis by (intro unavailable [of rl]) (auto simp: copy_verified_replica_def)
next
  case ok: (Inr u)
  show thesis
  proof (cases "intact e f source expected")
    case False
    then have "\<forall>c. sha256_file e f source = Inr c \<longrightarrow> c \<noteq> expected" by (auto simp: sha256_file_Inr)
    then have "copy_verified_replica e source destination expected f = (Inl (InvalidReplicaError ''missing''), f) \<or>
        copy_verified_replica e source destination expected f = (Inl (InvalidReplicaError ''checksum_mismatch''), f)"
      using ok by (auto simp: copy_verified_replica_def split: sum.split)
    with False show thesis using skipped by blast
  next
    case True
    then obtain b where b: "files f (canonical e source) = Some b" "sha256 e b = expected" by (auto simp: intact_def)
    let ?f = "mkdirs e (parent_dir destination) f"
    from ok have "require_storage_path e ?f destination = Inr ()"
      by (auto simp: sbind_Inr_iff intro: require_path_mkdirs)
    moreover have "sha256_file e f source = Inr expected" "is_file e f source" "read_bytes e f source = Inr b"
      using True b by (simp_all add: sha256_file_Inr is_file_intact read_bytes_def)
    ultimately show thesis
      using ok b stopped [of "OSError ''write''" ?f] True
      by (cases "write_fails e destination")
        (auto simp: copy_verified_replica_def Let_def intact_def other_files_kept_def
          intro!: copied [of "write_file e destination b ?f"])
  qed
qed

lemma restore_from_cases:
  assumes "restore_from_candidates e cs destination expected f = (res, f')"
  shows "files f' = files f \<and> (\<forall>i fl. res \<noteq> Inr (Some i, fl)) \<or>
    (\<exists>i fl p. res = Inr (Some i, fl) \<and> (i, p) \<in> set cs \<and> intact e f p expected \<and> intact e f' destination expected \<and>
      other_files_kept {canonical e destination} f f')"
  using assms
proof (induction cs arbitrary: res f')
  case (Cons c cs)
  obtain i p where c: "c = (i, p)" by (rule prod.exhaust)
  show ?case
  proof (cases rule: copy_back_cases [of e p destination expected f])
    case (unavailable rl)
    with Cons.prems c show ?thesis by auto
  next
    case (skipped code)
    obtain r g where rest: "restore_from_candidates e cs destination expected f = (r, g)" by (rule prod.exhaust)
    from Cons.prems c skipped(1) rest have "f' = g"
      "res = (case r of Inl y \<Rightarrow> Inl y | Inr (chosen, failures) \<Rightarrow> Inr (chosen, (i, code) # failures))"
      by (auto split: sum.splits prod.splits)
    with Cons.IH [OF rest] c show ?thesis by (cases r) auto
  next
    case (stopped x g)
    then have "res = Inl x \<and> f' = g" using Cons.prems c by (cases x) auto
    with stopped(2) show ?thesis by simp
  next
    case (copied g)
    with Cons.prems c show ?thesis by auto
  qed
qed simp

text \<open>If nothing else stands in the way, the attempt succeeds exactly when a candidate is intact.\<close>

lemma restore_from_decides:
  assumes "\<forall>c \<in> set cs. require_storage_path e f (snd c) = Inr ()" "require_storage_path e f destination = Inr ()"
    "\<not> write_fails e destination"
  shows "\<exists>chosen fl. fst (restore_from_candidates e cs destination expected f) = Inr (chosen, fl) \<and>
    (chosen \<noteq> None \<longleftrightarrow> (\<exists>c \<in> set cs. intact e f (snd c) expected))"
  using assms(1)
proof (induction cs)
  case (Cons c cs)
  obtain i p where c: "c = (i, p)" by (rule prod.exhaust)
  from Cons obtain chosen fl where ih: "fst (restore_from_candidates e cs destination expected f) = Inr (chosen, fl)"
    "chosen \<noteq> None \<longleftrightarrow> (\<exists>c \<in> set cs. intact e f (snd c) expected)" by (auto simp del: not_None_eq)
  then obtain g where rest: "restore_from_candidates e cs destination expected f = (Inr (chosen, fl), g)"
    by (cases "restore_from_candidates e cs destination expected f") auto
  show ?case
    using rest ih(2) c Cons.prems assms(2,3)
    by (cases rule: copy_back_cases [of e p destination expected f]) auto
qed simp


lemma active_asset_Some:
  assumes "active_asset_for_write i d = Some (a, u)"
  shows "a \<in> set (assets d)" "a_id a = i" "a_lifecycle_state a = Active"
  using assms by (auto simp: active_asset_for_write_def split: option.splits dest!: sql_first_Some)

lemma set_replica_frame [simp]:
  "assets (set_replica i g d) = assets d" "replicas (set_replica i g d) = sql_update (\<lambda>r. r_id r = i) g (replicas d)"
  "drives (set_replica i g d) = drives d" "uploads (set_replica i g d) = uploads d"
  by (simp_all add: set_replica_def)

lemma event_frames [simp]:
  "assets (add_event ev now u a k s t x d) = assets d" "replicas (add_event ev now u a k s t x d) = replicas d"
  "drives (add_event ev now u a k s t x d) = drives d" "policies (add_event ev now u a k s t x d) = policies d"
  "assets (open_recovery_event ev now b k s t x d) = assets d"
  "replicas (open_recovery_event ev now b k s t x d) = replicas d"
  "assets (resolve_events now i ks d) = assets d" "replicas (resolve_events now i ks d) = replicas d"
  "assets (set_event i g d) = assets d" "replicas (set_event i g d) = replicas d"
  by (simp_all add: add_event_def open_recovery_event_def resolve_events_def set_event_def split: option.split)

lemma status_frames [simp]:
  "replicas (set_restore a s d) = replicas d" "replicas (set_protection a s d) = replicas d"
  "drives (set_protection a s d) = drives d" "policies (set_protection a s d) = policies d"
  "assets (set_restore a s d) = sql_update (\<lambda>x. a_id x = a_id a) (\<lambda>x. x\<lparr>a_restore_status := s\<rparr>) (assets d)"
  "assets (set_protection a s d) = sql_update (\<lambda>x. a_id x = a_id a) (\<lambda>x. x\<lparr>a_protection_status := s\<rparr>) (assets d)"
  by (simp_all add: set_restore_def set_protection_def)

lemma candidate_frames [simp]:
  "assets (fold fail_candidate fs d) = assets d" "assets (verify_candidate now i d) = assets d"
  by (induction fs arbitrary: d) (simp_all add: fail_candidate_def verify_candidate_def)

lemma restore_candidates_iff:
  "(i, p) \<in> set (restore_candidates e f rs) \<longleftrightarrow>
     (\<exists>r \<in> set rs. r_id r = i \<and> validated_replica_drive_path e f (r_path r) = Inr p)"
proof -
  have "(i, p) \<in> set (case v of Inl x \<Rightarrow> [] | Inr q \<Rightarrow> [(j, q)]) \<longleftrightarrow> j = i \<and> v = Inr p"
    for j :: uuid and v :: "exn + string" by (auto split: sum.split)
  then show ?thesis by (simp add: restore_candidates_def)
qed

lemma recovery_cases:
  assumes "active_asset_for_write i d = Some (a, u)" "restore_asset e now ev i d f = (Inr True, d', f')"
  obtains (restored) j p degraded r where "r \<in> set (restore_order d (a_id a))" "r_id r = j" "p = resolve e (r_path r)"
    "intact e f p (a_storage_checksum a)" "intact e f' (restore_destination e a) (a_storage_checksum a)"
    "other_files_kept {canonical e (restore_destination e a)} f f'"
    "assets d' = sql_update (\<lambda>x. a_id x = i) (restored_asset e now degraded) (assets (set_restore a ''restoring'' d))"
proof -
  let ?rs = "restore_order d (a_id a)" and ?dst = "restore_destination e a" and ?c = "a_storage_checksum a"
  define res where "res = (case require_storage e f [''originals'', ''replicas''] of Inl x \<Rightarrow> (Inl x, f)
    | Inr _ \<Rightarrow> restore_from_candidates e (restore_candidates e f ?rs) ?dst ?c f)"
  obtain r g where r: "res = (r, g)" by (rule prod.exhaust)
  from assms have out: "restore_outcome e now ev a ?rs (invalid_paths e f ?rs) r (set_restore a ''restoring'' d) = (Inr True, d')" "g = f'"
    by (simp_all add: restore_asset_def Let_def res_def [symmetric] r split: prod.splits)
  obtain j fl where jr: "r = Inr (Some j, fl)"
    using out(1) by (auto simp: restore_outcome_def Let_def split: sum.splits exn.splits prod.splits option.splits)
  with r res_def have "restore_from_candidates e (restore_candidates e f ?rs) ?dst ?c f = (Inr (Some j, fl), g)"
    by (auto split: sum.splits)
  from restore_from_cases [OF this] obtain p where p: "(j, p) \<in> set (restore_candidates e f ?rs)" "intact e f p ?c"
    "intact e g ?dst ?c" "other_files_kept {canonical e ?dst} f g" by auto
  from p(1) obtain q where q: "q \<in> set ?rs" "r_id q = j" "p = resolve e (r_path q)"
    by (auto simp: restore_candidates_iff)
  have "assets d' = sql_update (\<lambda>x. a_id x = i) (restored_asset e now (invalid_paths e f ?rs @ fl \<noteq> [])) (assets (set_restore a ''restoring'' d))"
    using out(1) jr active_asset_Some(2) [OF assms(1)]
    by (auto simp: restore_outcome_def Let_def)
  from restored [OF q p(2-4) [unfolded out(2)] this] out(2) show thesis by simp
qed


text \<open>C9: A restoration that reports success has put the original back.  The row of the asset is a managed,
  restored one, the file it names has the recorded digest, and no other file has changed.\<close>

theorem restored_original_is_intact:
  assumes "restore_asset e now ev i d f = (Inr True, d', f')" "distinct (map a_id (assets d))" "host_paths e"
  shows "\<exists>a \<in> set (assets d'). a_id a = i \<and> a_restore_status a = ''restored'' \<and> a_storage_source a = ''managed'' \<and>
    intact e f' (a_original_path a) (a_storage_checksum a) \<and>
    (\<forall>q. q \<noteq> canonical e (a_original_path a) \<longrightarrow> files f' q = files f q)"
proof (cases "active_asset_for_write i d")
  case None
  with assms(1) show ?thesis by (simp add: restore_asset_def)
next
  case (Some au)
  obtain a u where au: "active_asset_for_write i d = Some (a, u)" using Some by (cases au) auto
  let ?dst = "restore_destination e a"
  show ?thesis
  proof (cases rule: recovery_cases [OF au assms(1)])
    case (1 j p degraded r)
    let ?a = "restored_asset e now degraded (a\<lparr>a_restore_status := ''restoring''\<rparr>)"
    have dst: "restore_destination e (a\<lparr>a_restore_status := s\<rparr>) = ?dst" for s by (simp add: restore_destination_def)
    have "?a \<in> set (assets d')" unfolding 1(7)
      using active_asset_Some(1,2) [OF au] by (auto simp: set_sql_update intro!: image_eqI)
    moreover have "canonical e (a_original_path ?a) = canonical e ?dst"
      using assms(3) by (simp add: restored_asset_def dst canonical_storage_path_def host_paths_def)
    moreover have "a_id ?a = i" "a_restore_status ?a = ''restored''" "a_storage_source ?a = ''managed''"
      "a_storage_checksum ?a = a_storage_checksum a"
      using active_asset_Some(2) [OF au] by (simp_all add: restored_asset_def)
    ultimately show ?thesis using 1(5,6)
      by (intro bexI [of _ ?a]) (auto simp: intact_def other_files_kept_def)
  qed
qed

text \<open>C26: Restoration succeeds exactly when it can.  With the approved storage present and the destination
  writable, restoring an active asset reports success if and only if one of its verified copies lies under an
  approved replica root and still has the recorded digest; otherwise it reports that nothing is usable.\<close>

theorem restoration_succeeds_iff_copy_intact:
  assumes "active_asset_for_write i d = Some (a, u)" "require_storage e f [''originals'', ''replicas''] = Inr ()"
    "require_storage_path e f (restore_destination e a) = Inr ()" "\<not> write_fails e (restore_destination e a)" "host_paths e"
  shows "fst (restore_asset e now ev i d f) = Inr (\<exists>r \<in> set (replicas d).
    r_asset_id r = i \<and> r_status r = ''verified'' \<and> r_verification_status r = ''verified'' \<and>
    validated_replica_drive_path e f (r_path r) = Inr (resolve e (r_path r)) \<and> intact e f (r_path r) (a_storage_checksum a))"
proof -
  let ?rs = "restore_order d (a_id a)" and ?dst = "restore_destination e a"
  let ?cs = "restore_candidates e f ?rs" and ?res = "\<lambda>cs. restore_from_candidates e cs ?dst (a_storage_checksum a) f"
  have "\<forall>c \<in> set ?cs. require_storage_path e f (snd c) = Inr ()" by (auto simp: restore_candidates_iff)
  from restore_from_decides [OF this assms(3,4)] obtain chosen fl where
    res: "fst (?res ?cs) = Inr (chosen, fl)" "chosen \<noteq> None \<longleftrightarrow> (\<exists>c \<in> set ?cs. intact e f (snd c) (a_storage_checksum a))"
    by blast
  have "(\<exists>c \<in> set ?cs. intact e f (snd c) (a_storage_checksum a)) \<longleftrightarrow>
      (\<exists>r \<in> set ?rs. validated_replica_drive_path e f (r_path r) = Inr (resolve e (r_path r)) \<and>
        intact e f (resolve e (r_path r)) (a_storage_checksum a))"
  proof -
    have "(\<exists>c \<in> set ?cs. intact e f (snd c) (a_storage_checksum a)) \<longleftrightarrow>
        (\<exists>j p. (j, p) \<in> set ?cs \<and> intact e f p (a_storage_checksum a))" by (metis prod.collapse snd_conv)
    also have "\<dots> \<longleftrightarrow> (\<exists>r \<in> set ?rs. \<exists>p. validated_replica_drive_path e f (r_path r) = Inr p \<and> intact e f p (a_storage_checksum a))"
      unfolding restore_candidates_iff by blast
    also have "\<dots> \<longleftrightarrow> (\<exists>r \<in> set ?rs. validated_replica_drive_path e f (r_path r) = Inr (resolve e (r_path r)) \<and>
        intact e f (resolve e (r_path r)) (a_storage_checksum a))" by (auto simp: validated_replica_drive_path_Inr)
    finally show ?thesis .
  qed
  also have "\<dots> \<longleftrightarrow> (\<exists>r \<in> set (replicas d). r_asset_id r = i \<and> r_status r = ''verified'' \<and> r_verification_status r = ''verified'' \<and>
    validated_replica_drive_path e f (r_path r) = Inr (resolve e (r_path r)) \<and> intact e f (r_path r) (a_storage_checksum a))"
    using active_asset_Some(2) [OF assms(1)] by (auto simp: restore_order_def intact_def canonical_resolve [OF assms(5)])
  finally have iff: "(\<exists>c \<in> set ?cs. intact e f (snd c) (a_storage_checksum a)) \<longleftrightarrow> \<dots>" .
  have "fst (restore_asset e now ev i d f) = Inr (chosen \<noteq> None)"
    using assms(1,2) res(1) by (cases "?res ?cs"; cases chosen) (simp_all add: restore_asset_def Let_def restore_outcome_def)
  with res(2) iff show ?thesis by simp
qed

section \<open>Verification\<close>

definition reachable :: "env \<Rightarrow> fs \<Rightarrow> asset \<Rightarrow> bool" where
  "reachable e f a \<longleftrightarrow> require_storage_path e f (a_original_path a) = Inr () \<and> require_storage e f [''replicas''] = Inr ()"

lemma checked_columns [simp]:
  "r_id (checked_replica e now f a r) = r_id r" "r_asset_id (checked_replica e now f a r) = r_asset_id r"
  "r_path (checked_replica e now f a r) = r_path r"
  by (auto simp: checked_replica_def failed_copy_def split: sum.split bool.split)

lemma checked_status:
  "r_status (checked_replica e now f a r) = ''verified'' \<longleftrightarrow> replica_healthy e f a r = Inr True"
  by (auto simp: checked_replica_def failed_copy_def split: sum.split bool.split)

lemma replica_healthy_path: "r_path r = r_path q \<Longrightarrow> replica_healthy e f a r = replica_healthy e f a q"
  by (simp add: replica_healthy_def)

definition rows_of :: "uuid \<Rightarrow> db \<Rightarrow> replica list" where
  "rows_of i d = filter (\<lambda>r. r_asset_id r = i) (replicas d)"

text \<open>When a task is needed, given the copies of the asset.\<close>

definition needed :: "env \<Rightarrow> fs \<Rightarrow> replica list \<Rightarrow> asset \<Rightarrow> worker_task \<Rightarrow> bool" where
  "needed e f rs a t \<longleftrightarrow>
     t = RestoreAsset (a_id a) \<and> \<not> original_ok e f a \<and> a_storage_source a = ''managed'' \<and>
       (\<exists>r \<in> set rs. replica_healthy e f a r = Inr True) \<or>
     t = ProtectAsset (a_id a) \<and> original_ok e f a"

lemma queue_frames [simp]:
  "replicas (snd (queue_automatic_restore e now ev refused a d)) = replicas d"
  by (auto simp: queue_automatic_restore_def Let_def split: option.split)

text \<open>A visit marks the copies of its asset, publishes at most one task for it, and only with reason.\<close>

lemma monitor_asset_effect:
  assumes "monitor_asset e now ev refused repair f a st = (r, st')"
  shows "replicas (view st') = (if reachable e f a
      then sql_update (\<lambda>r. r_asset_id r = a_id a) (checked_replica e now f a) (replicas (view st)) else replicas (view st))"
    "\<exists>ts. published st' = published st @ ts \<and>
      (\<forall>t \<in> set ts. repair \<and> needed e f (rows_of (a_id a) (view st)) a t)"
proof -
  let ?d = "(view st)\<lparr>replicas := sql_update (\<lambda>r. r_asset_id r = a_id a) (checked_replica e now f a) (replicas (view st))\<rparr>"
  have reach: "reachable e f a \<longleftrightarrow> sbind (require_storage_path e f (a_original_path a)) (\<lambda>_. require_storage e f [''replicas'']) = Inr ()"
    by (auto simp: reachable_def sbind_Inr_iff)
  have healthy: "healthy_replicas e f a (view st) \<noteq> [] \<longleftrightarrow> (\<exists>r \<in> set (rows_of (a_id a) (view st)). replica_healthy e f a r = Inr True)"
    by (auto simp: healthy_replicas_def rows_of_def filter_empty_conv)
  obtain queued d1 where q: "queue_automatic_restore e now ev refused a ?d = (queued, d1)" by (rule prod.exhaust)
  have d1: "replicas d1 = replicas ?d" using queue_frames [of e now ev refused a ?d] unfolding q by simp
  show "replicas (view st') = (if reachable e f a
      then sql_update (\<lambda>r. r_asset_id r = a_id a) (checked_replica e now f a) (replicas (view st)) else replicas (view st))"
    using assms reach q d1 by (auto simp: monitor_asset_def Let_def split: sum.splits if_splits)
  show "\<exists>ts. published st' = published st @ ts \<and>
      (\<forall>t \<in> set ts. repair \<and> needed e f (rows_of (a_id a) (view st)) a t)"
    unfolding needed_def healthy [symmetric]
    using assms q by (auto simp: monitor_asset_def Let_def needed_def split: sum.splits if_splits)
qed

lemma rows_of_update:
  "replicas d' = sql_update (\<lambda>r. r_asset_id r = j) g (replicas d) \<Longrightarrow> (\<And>r. r_asset_id (g r) = r_asset_id r) \<Longrightarrow>
   rows_of i d' = (if i = j then map g (rows_of i d) else rows_of i d)"
proof -
  assume "replicas d' = sql_update (\<lambda>r. r_asset_id r = j) g (replicas d)" and g: "\<And>r. r_asset_id (g r) = r_asset_id r"
  moreover have "filter (\<lambda>r. r_asset_id r = i) (sql_update (\<lambda>r. r_asset_id r = j) g t) =
      (if i = j then map g (filter (\<lambda>r. r_asset_id r = i) t) else filter (\<lambda>r. r_asset_id r = i) t)" for t
    by (induction t) (auto simp: g)
  ultimately show ?thesis by (simp add: rows_of_def)
qed

lemma monitor_assets_effect:
  assumes "monitor_assets e now ev refused repair f as st = (Inr (), st')" "distinct (map a_id as)"
  shows "(\<forall>i. rows_of i (view st') = (case sql_first (\<lambda>a. a_id a = i \<and> reachable e f a) as of
       None \<Rightarrow> rows_of i (view st) | Some a \<Rightarrow> map (checked_replica e now f a) (rows_of i (view st)))) \<and>
    (\<forall>t \<in> set (published st'). t \<in> set (published st) \<or> repair \<and> (\<exists>a \<in> set as. needed e f (rows_of (a_id a) (view st)) a t))"
  using assms
proof (induction as arbitrary: st)
  case (Cons a as)
  obtain r st1 where one: "monitor_asset e now ev refused repair f a st = (r, st1)" by (rule prod.exhaust)
  with Cons.prems have rest: "monitor_assets e now ev refused repair f as st1 = (Inr (), st')" by (auto split: sum.splits)
  note ih = Cons.IH [OF rest]
  note effect = monitor_asset_effect [OF one]
  have rows: "rows_of i (view st1) = (if i = a_id a \<and> reachable e f a then map (checked_replica e now f a) (rows_of i (view st))
      else rows_of i (view st))" for i
    using effect(1) rows_of_update [of "view st1" "a_id a" "checked_replica e now f a" "view st"]
    by (cases "reachable e f a") (auto simp: rows_of_def)
  have absent: "sql_first (\<lambda>x. a_id x = a_id a \<and> reachable e f x) as = None"
  proof -
    from Cons.prems(2) have "a_id a \<notin> a_id ` set as" by simp
    then have "\<forall>x \<in> set as. a_id x \<noteq> a_id a" by (metis imageI)
    then show ?thesis by (simp add: sql_first_None)
  qed
  show ?case
  proof (intro conjI allI ballI)
    fix i
    show "rows_of i (view st') = (case sql_first (\<lambda>a. a_id a = i \<and> reachable e f a) (a # as) of
       None \<Rightarrow> rows_of i (view st) | Some a \<Rightarrow> map (checked_replica e now f a) (rows_of i (view st)))"
    proof (cases "i = a_id a")
      case True
      with ih Cons.prems(2) rows absent show ?thesis by auto
    next
      case False
      have "rows_of i (view st') = (case sql_first (\<lambda>a. a_id a = i \<and> reachable e f a) as of
         None \<Rightarrow> rows_of i (view st1) | Some a \<Rightarrow> map (checked_replica e now f a) (rows_of i (view st1)))"
        using ih Cons.prems(2) by simp
      with False rows [of i] show ?thesis by (simp split: option.split)
    qed
  next
    fix t assume "t \<in> set (published st')"
    with ih Cons.prems(2) consider "t \<in> set (published st1)" | b where "b \<in> set as" "repair"
      "needed e f (rows_of (a_id b) (view st1)) b t" by auto
    then show "t \<in> set (published st) \<or> repair \<and> (\<exists>a \<in> set (a # as). needed e f (rows_of (a_id a) (view st)) a t)"
    proof cases
      case 1
      with effect(2) show ?thesis by auto
    next
      case 2
      from Cons.prems(2) have "a_id a \<notin> a_id ` set as" by simp
      with 2(1) have "a_id b \<noteq> a_id a" by (metis imageI)
      with 2 rows [of "a_id b"] show ?thesis by auto
    qed
  qed
qed auto

text \<open>A verification pass tells intact copies from others.  After a pass that ends, every copy of an asset
  whose storage could be reached is marked verified if and only if its path is approved, the file exists and
  has the recorded digest.\<close>

theorem verification_marks_intact_copies:
  assumes "monitor_storage e now ev refused user_id repair d f = (Inr (), d', tasks)" "distinct (map a_id (assets d))"
    "a \<in> set (monitored user_id d)" "reachable e f a" "r \<in> set (replicas d')" "r_asset_id r = a_id a"
  shows "r_status r = ''verified'' \<longleftrightarrow>
    validated_replica_drive_path e f (r_path r) = Inr (resolve e (r_path r)) \<and> intact e f (resolve e (r_path r)) (a_storage_checksum a)"
proof -
  let ?st = "\<lparr>committed = d, view = d, published = []\<rparr>"
  obtain st where run: "monitor_assets e now ev refused repair f (monitored user_id d) ?st = (Inr (), st)" "d' = view st"
    using assms(1) by (auto simp: monitor_storage_def split: prod.splits sum.splits)
  have ids: "distinct (map a_id (monitored user_id d))" using assms(2) by (simp add: monitored_def distinct_map_filter)
  have "sql_first (\<lambda>x. a_id x = a_id a \<and> reachable e f x) (monitored user_id d) = Some a"
  proof -
    obtain b where b: "sql_first (\<lambda>x. a_id x = a_id a \<and> reachable e f x) (monitored user_id d) = Some b"
      using assms(3,4) by (cases "sql_first (\<lambda>x. a_id x = a_id a \<and> reachable e f x) (monitored user_id d)") (auto simp: sql_first_None)
    with key_unique [OF ids _ assms(3)] show ?thesis by (auto dest: sql_first_SomeD)
  qed
  then have "rows_of (a_id a) d' = map (checked_replica e now f a) (rows_of (a_id a) d)"
    using monitor_assets_effect [OF run(1) ids] run(2) by simp
  moreover have "r \<in> set (rows_of (a_id a) d')" using assms(5,6) by (simp add: rows_of_def)
  ultimately obtain q where "r = checked_replica e now f a q" by auto
  then have "r_status r = ''verified'' \<longleftrightarrow> replica_healthy e f a r = Inr True"
    using checked_status [of e now f a q] replica_healthy_path [of r q e f a] by simp
  also have "\<dots> \<longleftrightarrow> validated_replica_drive_path e f (r_path r) = Inr (resolve e (r_path r)) \<and> intact e f (resolve e (r_path r)) (a_storage_checksum a)"
    by (auto simp: replica_healthy_def sbind_Inr_iff sha256_file_Inr dest: is_file_intact)
  finally show ?thesis .
qed

text \<open>A verification pass publishes only tasks that are needed.  A restoration is queued only for a managed
  asset whose original is missing or damaged and of which an intact copy was found, a replication only for an
  asset whose original is intact, and a pass that may not repair publishes nothing.\<close>

theorem verification_publishes_only_needed:
  assumes "monitor_storage e now ev refused user_id repair d f = (Inr (), d', tasks)" "distinct (map a_id (assets d))"
    "t \<in> set tasks"
  shows "repair \<and> (\<exists>a \<in> set (assets d). a_lifecycle_state a = Active \<and>
    (t = RestoreAsset (a_id a) \<and> \<not> original_ok e f a \<and> a_storage_source a = ''managed'' \<and>
       (\<exists>r \<in> set (replicas d). r_asset_id r = a_id a \<and> replica_healthy e f a r = Inr True) \<or>
     t = ProtectAsset (a_id a) \<and> original_ok e f a))"
proof -
  let ?st = "\<lparr>committed = d, view = d, published = []\<rparr>"
  obtain st where run: "monitor_assets e now ev refused repair f (monitored user_id d) ?st = (Inr (), st)" "tasks = published st"
    using assms(1) by (auto simp: monitor_storage_def split: prod.splits sum.splits)
  have ids: "distinct (map a_id (monitored user_id d))" using assms(2) by (simp add: monitored_def distinct_map_filter)
  have view: "view ?st = d" "published ?st = []" by simp_all
  from monitor_assets_effect [OF run(1) ids, unfolded view] have "\<forall>t \<in> set tasks. repair \<and> (\<exists>a \<in> set (monitored user_id d). needed e f (rows_of (a_id a) d) a t)" unfolding run(2) by simp
  with assms(3) obtain a where "repair" "a \<in> set (monitored user_id d)"
    "needed e f (rows_of (a_id a) d) a t" by blast
  then show ?thesis by (auto simp: monitored_def rows_of_def needed_def)
qed

section \<open>Concrete instances\<close>

text \<open>An account with one asset whose original is missing and whose only copy is intact.\<close>

definition recovery_db :: db where
  "recovery_db = empty_db\<lparr>users := [sample_user 1], assets := [sample_asset 1 1 ''/data/originals/dx/dx''],
     replicas := [sample_replica 7 1 ''/data/replicas/dx/dx'']\<rparr>"

definition recovery_fs :: fs where
  "recovery_fs = sample_fs [(''/data/replicas/dx/dx'', ''x'')]"

lemma sample_host [simp]: "sha256 sample_env b = ''d'' @ b" "\<not> write_fails sample_env p" "\<not> unlink_fails sample_env p"
  by (simp_all add: sample_env_def sample_digest_def)

lemma sample_replica_root: "''/data/replicas'' \<in> set (replica_root_list sample_env)"
  using default_replica_root [of sample_env] by (simp add: sample_settings_def) (simp add: sample_env_def sample_settings_def)

lemma sample_replica_path [simp]: "validated_replica_drive_path sample_env f ''/data/replicas/dx/dx'' = Inr ''/data/replicas/dx/dx''"
  by (auto simp: is_relative_to_def path_parts_def intro!: bexI [OF _ sample_replica_root])

lemma recovery_rows [simp]:
  "active_asset_for_write 1 recovery_db = Some (sample_asset 1 1 ''/data/originals/dx/dx'', sample_user 1)"
  "restore_order recovery_db 1 = [sample_replica 7 1 ''/data/replicas/dx/dx'']"
  "restore_destination sample_env (sample_asset 1 1 p) = ''/data/originals/dx/dx''"
  by (simp_all add: active_asset_for_write_def active_user_def recovery_db_def restore_order_def restore_destination_def
      original_path_for_def path_join_def sample_asset_def sample_user_def sample_replica_def)
    (simp_all add: sample_env_def sample_settings_def sample_digest_def)

lemma sample_restore: "fst (restore_asset sample_env 5 (\<lambda>n. 9) 1 recovery_db recovery_fs) = Inr True"
  by (simp add: restore_asset_def sample_asset_def restore_candidates_def copy_verified_replica_def Let_def sample_replica_def
      sha256_file_def read_bytes_def is_file_def recovery_fs_def sample_fs_def restore_outcome_def sample_digest_def)

lemma restored_original_is_intact_witness:
  "\<exists>d' f'. restore_asset sample_env 5 (\<lambda>n. 9) 1 recovery_db recovery_fs = (Inr True, d', f') \<and>
    (\<exists>a \<in> set (assets d'). a_id a = 1 \<and> a_restore_status a = ''restored'' \<and> a_storage_source a = ''managed'' \<and>
      intact sample_env f' (a_original_path a) (a_storage_checksum a) \<and>
      (\<forall>q. q \<noteq> canonical sample_env (a_original_path a) \<longrightarrow> files f' q = files recovery_fs q))"
proof -
  obtain d' f' where run: "restore_asset sample_env 5 (\<lambda>n. 9) 1 recovery_db recovery_fs = (Inr True, d', f')"
    using sample_restore by (cases "restore_asset sample_env 5 (\<lambda>n. 9) 1 recovery_db recovery_fs") auto
  moreover have "distinct (map a_id (assets recovery_db))" by (simp add: recovery_db_def)
  ultimately show ?thesis using restored_original_is_intact [OF run _ sample_host_paths] by blast
qed

lemma restoration_succeeds_iff_copy_intact_witness:
  "fst (restore_asset sample_env 5 (\<lambda>n. 9) 1 recovery_db recovery_fs) = Inr (\<exists>r \<in> set (replicas recovery_db).
    r_asset_id r = 1 \<and> r_status r = ''verified'' \<and> r_verification_status r = ''verified'' \<and>
    validated_replica_drive_path sample_env recovery_fs (r_path r) = Inr (resolve sample_env (r_path r)) \<and>
    intact sample_env recovery_fs (r_path r) (a_storage_checksum (sample_asset 1 1 ''/data/originals/dx/dx'')))"
  by (rule restoration_succeeds_iff_copy_intact [OF recovery_rows(1) _ _ _ sample_host_paths]) simp_all

lemma recovery_monitored [simp]: "monitored None recovery_db = [sample_asset 1 1 ''/data/originals/dx/dx'']"
  by (simp add: monitored_def recovery_db_def sample_asset_def)

lemma recovery_tables [simp]:
  "replicas recovery_db = [sample_replica 7 1 ''/data/replicas/dx/dx'']" "monitoring_events recovery_db = []"
  "a_id (sample_asset i u p) = i" "a_storage_source (sample_asset i u p) = ''managed''"
  "a_original_path (sample_asset i u p) = p" "r_asset_id (sample_replica j i p) = i"
  "\<not> original_ok sample_env recovery_fs (sample_asset i u ''/data/originals/dx/dx'')"
  "replica_healthy sample_env recovery_fs (sample_asset i u p) (sample_replica j i ''/data/replicas/dx/dx'') = Inr True"
  by (simp_all add: recovery_db_def empty_db_def original_ok_def is_file_def recovery_fs_def sample_fs_def replica_healthy_def
      sha256_file_def read_bytes_def sample_asset_def sample_replica_def sample_digest_def)

lemma sample_pass:
  "monitor_storage sample_env 5 (\<lambda>n. 9) (\<lambda>i. False) None True recovery_db recovery_fs =
     (Inr (), fst (snd (monitor_storage sample_env 5 (\<lambda>n. 9) (\<lambda>i. False) None True recovery_db recovery_fs)), [RestoreAsset 1])"
  by (simp add: monitor_storage_def monitor_asset_def healthy_replicas_def Let_def queue_automatic_restore_def open_event_of_def
      automatic_restore_retry_due_def)

lemma verification_marks_intact_copies_witness:
  "\<exists>d' tasks. monitor_storage sample_env 5 (\<lambda>n. 9) (\<lambda>i. False) None True recovery_db recovery_fs = (Inr (), d', tasks) \<and>
    (\<forall>r \<in> set (replicas d'). r_asset_id r = 1 \<longrightarrow> (r_status r = ''verified'' \<longleftrightarrow>
      validated_replica_drive_path sample_env recovery_fs (r_path r) = Inr (resolve sample_env (r_path r)) \<and>
      intact sample_env recovery_fs (resolve sample_env (r_path r)) (a_storage_checksum (sample_asset 1 1 ''/data/originals/dx/dx''))))"
proof -
  have "distinct (map a_id (assets recovery_db))" "a_id (sample_asset 1 1 p) = 1"
    "sample_asset 1 1 ''/data/originals/dx/dx'' \<in> set (monitored None recovery_db)"
    "reachable sample_env recovery_fs (sample_asset 1 1 ''/data/originals/dx/dx'')" for p
    by (simp_all add: reachable_def) (simp_all add: recovery_db_def sample_asset_def)
  with verification_marks_intact_copies [OF sample_pass] sample_pass show ?thesis by (metis (no_types, lifting))
qed

lemma verification_publishes_only_needed_witness:
  "\<exists>a \<in> set (assets recovery_db). a_lifecycle_state a = Active \<and> \<not> original_ok sample_env recovery_fs a \<and>
    (\<exists>r \<in> set (replicas recovery_db). r_asset_id r = a_id a \<and> replica_healthy sample_env recovery_fs a r = Inr True)"
proof -
  have "distinct (map a_id (assets recovery_db))" by (simp add: recovery_db_def)
  from verification_publishes_only_needed [OF sample_pass this, of "RestoreAsset 1"] show ?thesis by auto
qed

end
