(* ===== verification/ProtectionSafety.thy ===== *)
theory ProtectionSafety
  imports RecoverySafety
begin

text \<open>
  What protection promises.  An asset shown as protected has as many verified, intact copies on distinct drives
  as its policy wants, and balancing never takes the last intact copy of an asset.
\<close>

section \<open>Protection\<close>

lemma copy_verified_spec:
  assumes "copy_verified e source destination expected f = (res, f')"
  shows "other_files_kept {canonical e destination} f f'" "intact e f destination expected \<Longrightarrow> intact e f' destination expected"
    "res = Inr v \<Longrightarrow> v = expected \<and> intact e f' destination expected"
proof -
  let ?g = "mkdirs e (parent_dir destination) f"
  have drop: "other_files_kept {canonical e destination} f g" "intact e f destination expected \<Longrightarrow> g = ?g"
    if "drop_mismatch e destination expected ?g = Inr g" for g
    using that by (auto simp: drop_mismatch_def sbind_Inr_iff sha256_file_Inr unlink_missing_ok_def other_files_kept_def
        split: if_splits) (auto simp: intact_def)
  have "other_files_kept {canonical e destination} f f' \<and> (intact e f destination expected \<longrightarrow> intact e f' destination expected) \<and>
    (\<forall>v. res = Inr v \<longrightarrow> v = expected \<and> intact e f' destination expected)"
  proof (cases "sbind (require_storage_path e f source) (\<lambda>_. require_storage_path e f destination)")
    case (Inl x)
    with assms show ?thesis by (auto simp: copy_verified_def)
  next
    case ok: (Inr u)
    show ?thesis
    proof (cases "drop_mismatch e destination expected ?g")
      case (Inl x)
      with ok assms show ?thesis by (auto simp: copy_verified_def Let_def other_files_same)
    next
      case (Inr g)
      note g = drop [OF Inr]
      show ?thesis
      proof (cases "path_exists e g destination")
        case True
        with ok Inr assms g show ?thesis
          by (auto simp: copy_verified_def Let_def sha256_file_Inr split: sum.splits if_splits)
      next
        case False
        then have "\<not> intact e f destination expected" using g(2) by (auto simp: path_exists_def dest: is_file_intact)
        moreover have "other_files_kept {canonical e destination} f (write_file e destination b g)" for b
          using g(1) by (simp add: other_files_kept_def)
        ultimately show ?thesis
          using ok Inr assms g(1) False
          by (auto simp: copy_verified_def Let_def replace_file_def sha256_file_Inr split: sum.splits if_splits)
      qed
    qed
  qed
  then show "other_files_kept {canonical e destination} f f'" "intact e f destination expected \<Longrightarrow> intact e f' destination expected"
    "res = Inr v \<Longrightarrow> v = expected \<and> intact e f' destination expected" by simp_all
qed

lemma write_metadata_kept:
  "write_replica_metadata e a destination f = (res, f') \<Longrightarrow> other_files_kept {canonical e (sidecar_path a destination)} f f'"
  by (auto simp: write_replica_metadata_def replace_file_def Let_def other_files_kept_def split: sum.splits if_splits)

text \<open>The row of a copy is the only one its registration changes.\<close>

lemma upsert_row_spec:
  assumes "distinct (map r_id (replicas d))" "new_id \<notin> r_id ` set (replicas d)"
    and d'_def: "d' = upsert_row e now new_id a x destination c m d"
  shows "r \<in> set (replicas d) \<Longrightarrow> \<not> copy_on (a_id a) x r \<Longrightarrow> r \<in> set (replicas d')"
    "\<exists>r \<in> set (replicas d'). copy_on (a_id a) x r \<and> r_status r = ''verified'' \<and> r_path r = canonical e destination \<and>
      (r_id r = new_id \<or> (\<exists>q \<in> set (replicas d). copy_on (a_id a) x q \<and> r_id q = r_id r))"
    "distinct (map r_id (replicas d'))" "r_id ` set (replicas d') \<subseteq> insert new_id (r_id ` set (replicas d))"
    "assets d' = assets d" "uploads d' = uploads d" "drives d' = drives d"
proof -
  have "(r \<in> set (replicas d) \<longrightarrow> \<not> copy_on (a_id a) x r \<longrightarrow> r \<in> set (replicas d')) \<and>
    (\<exists>r \<in> set (replicas d'). copy_on (a_id a) x r \<and> r_status r = ''verified'' \<and> r_path r = canonical e destination \<and>
      (r_id r = new_id \<or> (\<exists>q \<in> set (replicas d). copy_on (a_id a) x q \<and> r_id q = r_id r))) \<and>
    distinct (map r_id (replicas d')) \<and> r_id ` set (replicas d') \<subseteq> insert new_id (r_id ` set (replicas d)) \<and>
    assets d' = assets d \<and> uploads d' = uploads d \<and> drives d' = drives d"
  proof (cases "sql_first (copy_on (a_id a) x) (replicas d)")
    case None
    then show ?thesis
      using assms(1,2) by (auto simp: d'_def upsert_row_def set_sql_insert distinct_map_sql_insert copy_on_def canonical_storage_path_def)
  next
    case (Some q)
    from sql_first_SomeD [OF Some] have q: "copy_on (a_id a) x q" "q \<in> set (replicas d)" .
    let ?g = "\<lambda>r. r\<lparr>r_path := canonical_storage_path e destination, r_checksum := c,
      r_metadata_path := Some (canonical_storage_path e m), r_status := ''verified'', r_verification_status := ''verified'',
      r_failure_count := 0, r_last_error := None, r_verified_at := now\<rparr>"
    have d': "d' = set_replica (r_id q) ?g d" using Some by (simp add: d'_def upsert_row_def)
    have "r \<in> set (replicas d')" if r: "r \<in> set (replicas d)" "\<not> copy_on (a_id a) x r"
    proof -
      have "r_id r \<noteq> r_id q" using key_unique [OF assms(1) r(1) q(2)] q(1) r(2) by auto
      with r(1) show ?thesis by (force simp: d' set_sql_update)
    qed
    moreover have "?g q \<in> set (replicas d')" using q(2) by (auto simp: d' set_sql_update intro!: image_eqI [of _ _ q])
    then have "\<exists>r \<in> set (replicas d'). copy_on (a_id a) x r \<and> r_status r = ''verified'' \<and> r_path r = canonical e destination \<and>
      (r_id r = new_id \<or> (\<exists>q \<in> set (replicas d). copy_on (a_id a) x q \<and> r_id q = r_id r))"
      using q by (intro bexI [of _ "?g q"]) (auto simp: copy_on_def canonical_storage_path_def)
    moreover have ids: "map r_id (replicas d') = map r_id (replicas d)" by (simp add: d' map_sql_update [where k = r_id])
    then have "r_id ` set (replicas d') = r_id ` set (replicas d)" by (metis set_map)
    moreover have "assets d' = assets d" "uploads d' = uploads d" "drives d' = drives d" by (simp_all add: d')
    ultimately show ?thesis using assms(1) ids by auto
  qed
  then show "r \<in> set (replicas d) \<Longrightarrow> \<not> copy_on (a_id a) x r \<Longrightarrow> r \<in> set (replicas d')"
    "\<exists>r \<in> set (replicas d'). copy_on (a_id a) x r \<and> r_status r = ''verified'' \<and> r_path r = canonical e destination \<and>
      (r_id r = new_id \<or> (\<exists>q \<in> set (replicas d). copy_on (a_id a) x q \<and> r_id q = r_id r))"
    "distinct (map r_id (replicas d'))" "r_id ` set (replicas d') \<subseteq> insert new_id (r_id ` set (replicas d))"
    "assets d' = assets d" "uploads d' = uploads d" "drives d' = drives d" by blast+
qed

abbreviation copy_target :: "env \<Rightarrow> asset \<Rightarrow> replica_target \<Rightarrow> string" where
  "copy_target e a t \<equiv> canonical e (resolve e (replica_path_for t a))"

abbreviation sidecar_target :: "env \<Rightarrow> asset \<Rightarrow> replica_target \<Rightarrow> string" where
  "sidecar_target e a t \<equiv> canonical e (sidecar_path a (resolve e (replica_path_for t a)))"

text \<open>No link gives the sidecar of one copy the name of the content of another.\<close>

definition copies_apart :: "env \<Rightarrow> asset \<Rightarrow> bool" where
  "copies_apart e a \<longleftrightarrow> (\<forall>t t'. sidecar_target e a t \<noteq> copy_target e a t')"

lemma upsert_replica_files:
  assumes "upsert_replica e now new_id a t source d f = (res, d', f')"
  shows "other_files_kept {copy_target e a t, sidecar_target e a t} f f'"
    "sidecar_target e a t \<noteq> copy_target e a t \<Longrightarrow> intact e f (resolve e (replica_path_for t a)) (a_storage_checksum a) \<or> (\<exists>v. res = Inr v) \<Longrightarrow>
      intact e f' (resolve e (replica_path_for t a)) (a_storage_checksum a)"
    "res = Inr v \<Longrightarrow> v = a_storage_checksum a \<and> (\<exists>m. d' = upsert_row e now new_id a (tg_id t) (resolve e (replica_path_for t a)) v m d)"
    "res = Inl x \<Longrightarrow> d' = d"
proof -
  let ?dst = "resolve e (replica_path_for t a)"
  obtain r g where c: "copy_verified e source ?dst (a_storage_checksum a) f = (r, g)" by (rule prod.exhaust)
  note spec = copy_verified_spec [OF c]
  obtain w h where m: "write_replica_metadata e a ?dst g = (w, h)" by (rule prod.exhaust)
  note kept = write_metadata_kept [OF m]
  have sub: "other_files_kept ps f h \<Longrightarrow> ps \<subseteq> qs \<Longrightarrow> other_files_kept qs f h" for ps qs and f h :: fs
    by (auto simp: other_files_kept_def)
  have g: "other_files_kept {copy_target e a t, sidecar_target e a t} f g" by (rule sub [OF spec(1)]) simp
  have h: "other_files_kept {copy_target e a t, sidecar_target e a t} f h"
    by (rule other_files_trans [OF g sub [OF kept]]) simp
  have keep: "sidecar_target e a t \<noteq> copy_target e a t \<Longrightarrow> intact e g ?dst (a_storage_checksum a) \<Longrightarrow> intact e h ?dst (a_storage_checksum a)"
    using intact_kept [OF kept, where p = ?dst] by auto
  show "other_files_kept {copy_target e a t, sidecar_target e a t} f f'" "res = Inl x \<Longrightarrow> d' = d"
    "res = Inr v \<Longrightarrow> v = a_storage_checksum a \<and> (\<exists>m. d' = upsert_row e now new_id a (tg_id t) ?dst v m d)"
    using assms c m g h spec(3) by (auto simp: upsert_replica_def Let_def split: sum.splits)
  assume "sidecar_target e a t \<noteq> copy_target e a t" "intact e f ?dst (a_storage_checksum a) \<or> (\<exists>v. res = Inr v)"
  then show "intact e f' ?dst (a_storage_checksum a)"
    using assms c m spec(2,3) keep by (auto simp: upsert_replica_def Let_def split: sum.splits)
qed

text \<open>A verified, intact copy of the asset on a drive.\<close>

definition placed :: "env \<Rightarrow> asset \<Rightarrow> uuid option \<Rightarrow> db \<Rightarrow> fs \<Rightarrow> bool" where
  "placed e a x d f \<longleftrightarrow> (\<exists>r \<in> set (replicas d). copy_on (a_id a) x r \<and> r_status r = ''verified'' \<and>
     (\<exists>t. canonical e (r_path r) = copy_target e a t) \<and> intact e f (r_path r) (a_storage_checksum a))"

lemma upsert_replica_places:
  assumes run: "upsert_replica e now new_id a t source d f = (res, d', f')" and "copies_apart e a" "host_paths e"
    and ids: "distinct (map r_id (replicas d))" "new_id \<notin> r_id ` set (replicas d)"
  shows "placed e a x d f \<Longrightarrow> x \<noteq> tg_id t \<Longrightarrow> placed e a x d' f'" "res = Inr v \<Longrightarrow> placed e a (tg_id t) d' f'"
    "distinct (map r_id (replicas d'))" "r_id ` set (replicas d') \<subseteq> insert new_id (r_id ` set (replicas d))"
proof -
  note files = upsert_replica_files [OF run]
  have apart: "sidecar_target e a s \<noteq> copy_target e a s'" for s s' using assms(2) by (simp add: copies_apart_def)
  have rows: "d' = d \<or> (\<exists>c m. d' = upsert_row e now new_id a (tg_id t) (resolve e (replica_path_for t a)) c m d)"
    using files(3,4) by (cases res) auto
  show "distinct (map r_id (replicas d'))" "r_id ` set (replicas d') \<subseteq> insert new_id (r_id ` set (replicas d))"
  proof -
    have "distinct (map r_id (replicas d')) \<and> r_id ` set (replicas d') \<subseteq> insert new_id (r_id ` set (replicas d))"
      using rows
    proof (elim disjE exE)
      fix c m assume "d' = upsert_row e now new_id a (tg_id t) (resolve e (replica_path_for t a)) c m d"
      from upsert_row_spec(3,4) [OF ids this] show ?thesis by simp
    qed (use ids in auto)
    then show "distinct (map r_id (replicas d'))" "r_id ` set (replicas d') \<subseteq> insert new_id (r_id ` set (replicas d))"
      by simp_all
  qed
  show "placed e a x d' f'" if "placed e a x d f" "x \<noteq> tg_id t"
  proof -
    from that obtain r s where r: "r \<in> set (replicas d)" "copy_on (a_id a) x r" "r_status r = ''verified''"
      "canonical e (r_path r) = copy_target e a s" "intact e f (r_path r) (a_storage_checksum a)" by (auto simp: placed_def)
    have "\<not> copy_on (a_id a) (tg_id t) r" using r(2) that(2) by (auto simp: copy_on_def)
    with rows r(1) upsert_row_spec(1) [OF ids refl] have "r \<in> set (replicas d')" by blast
    moreover have "intact e f' (r_path r) (a_storage_checksum a)"
    proof (cases "copy_target e a s = copy_target e a t")
      case True
      then have "canonical e (r_path r) = canonical e (resolve e (replica_path_for t a))" using r(4) by simp
      from intact_canonical [OF this] r(5) files(2) [OF apart] show ?thesis by simp
    next
      case False
      then have "canonical e (r_path r) \<notin> {copy_target e a t, sidecar_target e a t}" using r(4) apart [of t s] by auto
      from intact_kept [OF files(1) this] r(5) show ?thesis by simp
    qed
    ultimately show ?thesis using r by (auto simp: placed_def)
  qed
  assume "res = Inr v"
  then obtain m where d': "d' = upsert_row e now new_id a (tg_id t) (resolve e (replica_path_for t a)) v m d"
    and "intact e f' (resolve e (replica_path_for t a)) (a_storage_checksum a)"
    using files(2) [OF apart] files(3) by blast
  moreover obtain r where "r \<in> set (replicas d')" "copy_on (a_id a) (tg_id t) r" "r_status r = ''verified''"
    "r_path r = copy_target e a t"
    unfolding d' using upsert_row_spec(2) [OF ids refl] by blast
  moreover from this have "canonical e (r_path r) = copy_target e a t" using assms(3) by (simp add: host_paths_def)
  ultimately show "placed e a (tg_id t) d' f'"
    unfolding placed_def by (intro bexI [of _ r]) (auto simp: intact_def)
qed

lemma note_failure_spec:
  assumes "distinct (map r_id (replicas d))"
  shows "r \<in> set (replicas d) \<Longrightarrow> \<not> copy_on (a_id a) (tg_id t) r \<Longrightarrow> r \<in> set (replicas (note_failure x t a d))"
    "map r_id (replicas (note_failure x t a d)) = map r_id (replicas d)"
proof -
  have reps: "replicas (note_failure x t a d) = (case sql_first (copy_on (a_id a) (tg_id t)) (replicas d) of None \<Rightarrow> replicas d
      | Some q \<Rightarrow> sql_update (\<lambda>r. r_id r = r_id q) (failed_copy x) (replicas d))"
    by (auto simp: note_failure_def set_drive_def Let_def split: option.split)
  show "map r_id (replicas (note_failure x t a d)) = map r_id (replicas d)"
    by (auto simp: reps failed_copy_def map_sql_update [where k = r_id] split: option.split)
  assume r: "r \<in> set (replicas d)" "\<not> copy_on (a_id a) (tg_id t) r"
  show "r \<in> set (replicas (note_failure x t a d))"
  proof (cases "sql_first (copy_on (a_id a) (tg_id t)) (replicas d)")
    case (Some q)
    from sql_first_SomeD [OF Some] have "r_id r \<noteq> r_id q" using key_unique [OF assms r(1)] r(2) by blast
    with r(1) Some show ?thesis by (force simp: reps set_sql_update)
  qed (simp add: reps r(1))
qed

lemma place_copies_spec:
  assumes "place_copies e now fresh a source ts d f = (n, failures, d', f')" "copies_apart e a" "host_paths e"
    "distinct (map (fresh \<circ> tg_id) ts)" "distinct (map r_id (replicas d))"
    "\<forall>t \<in> set ts. fresh (tg_id t) \<notin> r_id ` set (replicas d)"
  shows "(\<forall>x. x \<notin> tg_id ` set ts \<longrightarrow> placed e a x d f \<longrightarrow> placed e a x d' f') \<and>
    (\<exists>xs. distinct xs \<and> length xs = n \<and> set xs \<subseteq> tg_id ` set ts \<and> (\<forall>x \<in> set xs. placed e a x d' f'))"
  using assms(1,4-6)
proof (induction ts arbitrary: d f n failures)
  case (Cons t ts)
  obtain res d1 f1 where up: "upsert_replica e now (fresh (tg_id t)) a t source d f = (res, d1, f1)" by (rule prod_cases3)
  have new: "fresh (tg_id t) \<notin> r_id ` set (replicas d)" using Cons.prems(4) by simp
  note up_spec = upsert_replica_places [OF up assms(2,3) Cons.prems(3) new]
  define d2 where "d2 = (case res of Inl x \<Rightarrow> note_failure x t a d1 | Inr v \<Rightarrow> d1)"
  obtain m fl where rest: "place_copies e now fresh a source ts d2 f1 = (m, fl, d', f')"
    and n: "n = (if isl res then m else Suc m)"
    using Cons.prems(1) up by (auto simp: d2_def split: sum.splits prod.splits)
  note failed = note_failure_spec [OF up_spec(3), where a = a and t = t]
  have ids2: "map r_id (replicas d2) = map r_id (replicas d1)" by (cases res) (simp_all add: d2_def failed(2))
  have ids: "distinct (map r_id (replicas d2))" using up_spec(3) ids2 by simp
  have "r_id ` set (replicas d2) = r_id ` set (replicas d1)" using ids2 by (metis set_map)
  then have "r_id ` set (replicas d2) \<subseteq> insert (fresh (tg_id t)) (r_id ` set (replicas d))" using up_spec(4) by simp
  moreover have "fresh (tg_id s) \<noteq> fresh (tg_id t)" if "s \<in> set ts" for s
  proof -
    from Cons.prems(2) have "fresh (tg_id t) \<notin> (fresh \<circ> tg_id) ` set ts" by simp
    moreover from that have "fresh (tg_id s) \<in> (fresh \<circ> tg_id) ` set ts" by force
    ultimately show ?thesis by metis
  qed
  ultimately have fresh: "\<forall>s \<in> set ts. fresh (tg_id s) \<notin> r_id ` set (replicas d2)" using Cons.prems(4) by fastforce
  from Cons.IH [OF rest _ ids fresh] Cons.prems(2) obtain xs where
    later: "\<forall>x. x \<notin> tg_id ` set ts \<longrightarrow> placed e a x d2 f1 \<longrightarrow> placed e a x d' f'" and
    xs: "distinct xs" "length xs = m" "set xs \<subseteq> tg_id ` set ts" "\<forall>x \<in> set xs. placed e a x d' f'" by auto
  have still: "placed e a x d2 f1" if "placed e a x d1 f1" "x \<noteq> tg_id t" for x
  proof (cases res)
    case (Inl y)
    have "\<not> copy_on (a_id a) (tg_id t) r" if "copy_on (a_id a) x r" for r
      using that \<open>x \<noteq> tg_id t\<close> by (auto simp: copy_on_def)
    with that(1) failed(1) show ?thesis by (fastforce simp: placed_def d2_def Inl)
  qed (use that in \<open>simp add: d2_def\<close>)
  have head: "tg_id t \<notin> tg_id ` set ts"
  proof
    assume "tg_id t \<in> tg_id ` set ts"
    then have "fresh (tg_id t) \<in> (fresh \<circ> tg_id) ` set ts" unfolding image_comp [symmetric] by (rule imageI)
    with Cons.prems(2) show False by simp
  qed
  show ?case
  proof (intro conjI allI impI)
    fix x assume "x \<notin> tg_id ` set (t # ts)" "placed e a x d f"
    with up_spec(1) still later show "placed e a x d' f'" by auto
  next
    show "\<exists>xs. distinct xs \<and> length xs = n \<and> set xs \<subseteq> tg_id ` set (t # ts) \<and> (\<forall>x \<in> set xs. placed e a x d' f')"
    proof (cases res)
      case (Inl y)
      with xs n show ?thesis by (intro exI [of _ xs]) auto
    next
      case (Inr v)
      then have "placed e a (tg_id t) d' f'" using up_spec(2) later head by (simp add: d2_def)
      with xs n Inr head show ?thesis by (intro exI [of _ "tg_id t # xs"]) auto
    qed
  qed
qed simp

lemma online_target_ids:
  "distinct (map dr_id drs) \<Longrightarrow> distinct (map tg_id (online_targets e f drs)) \<and>
     tg_id ` set (online_targets e f drs) \<subseteq> Some ` dr_id ` set drs"
proof (induction drs)
  case (Cons dr drs)
  have head: "online_targets e f (dr # drs) = (case drive_online e f dr of Inr (Some t) \<Rightarrow> [t] | _ \<Rightarrow> []) @ online_targets e f drs"
    by (simp add: online_targets_def)
  have "tg_id t = Some (dr_id dr)" if "drive_online e f dr = Inr (Some t)" for t
    using that by (auto simp: drive_online_def sbind_Inr_iff split: if_splits)
  with Cons show ?case unfolding head by (auto split: sum.split option.split)
qed (simp add: online_targets_def)

lemma replica_targets_spec:
  assumes "replica_targets e now f uid d = (Inr ts, d')" "distinct (map dr_id (drives d))"
  shows "distinct (map tg_id ts)" "tg_id ` set ts \<subseteq> insert None (Some ` dr_id ` set (drives d))" "replicas d' = replicas d"
proof -
  let ?drs = "filter (eligible_drive uid) (drives d)"
  let ?online = "online_targets e f ?drs"
  have "distinct (map dr_id ?drs)" using assms(2) by (simp add: distinct_map_filter)
  note online = online_target_ids [OF this, of e f]
  then have sub: "tg_id ` set ?online \<subseteq> insert None (Some ` dr_id ` set (drives d))"
    by (meson filter_is_subset image_mono subset_insertI2 subset_trans)
  have dist: "distinct (map tg_id (sort_key (disk_score e) ?online))" using online by (simp add: distinct_map)
  have cases: "ts = sort_key (disk_score e) ?online \<or> (\<exists>t. ts = [t] \<and> tg_id t = None)" "replicas d' = replicas d"
    using assms(1) by (auto simp: replica_targets_def Let_def split: sum.splits if_splits)
  then show "distinct (map tg_id ts)" using dist by auto
  show "replicas d' = replicas d" by (rule cases(2))
  from cases(1) have "set ts = set ?online \<or> tg_id ` set ts = {None}" by auto
  then show "tg_id ` set ts \<subseteq> insert None (Some ` dr_id ` set (drives d))" using sub by (elim disjE) simp_all
qed

text \<open>C8: An asset shown as protected is protected.  When the worker has replicated an active asset and its
  row says protected, there are at least as many distinct drives as the policy of the account wants, each with a
  verified copy whose file has the recorded digest, also after the copies made later in the same run.\<close>

theorem protected_asset_has_wanted_copies:
  assumes "protect_asset e now ev fresh i d f = (Inr (), d', f')" "active_asset_for_write i d = Some (a, u)"
    "b \<in> set (assets d')" "a_id b = i" "a_protection_status b = ''protected''"
    "copies_apart e a" "host_paths e" "distinct (map dr_id (drives d))" "distinct (map r_id (replicas d))"
    "inj_on fresh (insert None (Some ` dr_id ` set (drives d)))"
    "\<forall>x \<in> insert None (Some ` dr_id ` set (drives d)). fresh x \<notin> r_id ` set (replicas d)"
  shows "\<exists>xs. distinct xs \<and> p_desired_replica_count (fst (storage_policy e (a_user_id a) d)) \<le> int (length xs) \<and>
    (\<forall>x \<in> set xs. \<exists>r \<in> set (replicas d'). r_asset_id r = i \<and> r_drive_id r = x \<and> r_status r = ''verified'' \<and>
      intact e f' (r_path r) (a_storage_checksum a))"
proof -
  let ?d0 = "set_protection a ''protecting'' d"
  obtain p d1 where pol: "storage_policy e (a_user_id a) ?d0 = (p, d1)" by (rule prod.exhaust)
  have p: "p = fst (storage_policy e (a_user_id a) d)"
    using pol by (auto simp: storage_policy_def Let_def split: option.splits)
  have d1: "replicas d1 = replicas d" "drives d1 = drives d"
    using storage_policy_frame(3,5) [of e "a_user_id a" ?d0] pol by simp_all
  from assms(1,2) obtain verified where ensure: "ensure_asset_replicas e now ev fresh a ?d0 f = (Inr verified, d', f')"
    by (auto simp: protect_asset_def split: sum.splits prod.splits)
  obtain tr d2 where tg: "replica_targets e now f (a_user_id a) d1 = (tr, d2)" by (rule prod.exhaust)
  obtain ts where ts: "tr = Inr ts" using ensure pol tg by (cases tr) (simp_all add: ensure_asset_replicas_def)
  let ?desired = "p_desired_replica_count p" and ?wanted = "min (p_desired_replica_count p) (int (length ts))"
  define d3 where "d3 = (if ?wanted < ?desired then capacity_shortfall ev now a p (length ts) d2 else d2)"
  obtain source where src: "source_path_for e f a = Inr source" "is_file e f source"
    using ensure pol tg ts by (auto simp: ensure_asset_replicas_def Let_def split: sum.splits if_splits)
  obtain n failures d4 f4 where place: "place_copies e now fresh a source (first_targets ?wanted ts) d3 f = (n, failures, d4, f4)"
    by (metis prod_cases4)
  let ?status = "if int n \<ge> ?desired then ''protected'' else ''degraded''"
  have result: "f' = f4" "replicas d' = replicas d4" "assets d' = assets (set_protection a ?status d4)"
    using ensure pol tg ts src place by (auto simp: ensure_asset_replicas_def Let_def d3_def split: if_splits)
  note targets = replica_targets_spec [OF tg [unfolded ts]]
  have sub: "tg_id ` set (first_targets ?wanted ts) \<subseteq> insert None (Some ` dr_id ` set (drives d))"
    using targets(2) assms(8) d1 by (auto simp: first_targets_def dest: in_set_takeD)
  have "distinct (map tg_id (first_targets ?wanted ts))"
    using targets(1) assms(8) d1 by (simp add: first_targets_def take_map [symmetric] distinct_take)
  with inj_on_subset [OF assms(10) sub] have ids: "distinct (map (fresh \<circ> tg_id) (first_targets ?wanted ts))"
    by (auto simp: distinct_map intro: comp_inj_on)
  have d3: "replicas d3 = replicas d" using targets(3) assms(8) d1 by (simp add: d3_def capacity_shortfall_def)
  have fr: "\<forall>t \<in> set (first_targets ?wanted ts). fresh (tg_id t) \<notin> r_id ` set (replicas d3)"
  proof
    fix t assume "t \<in> set (first_targets ?wanted ts)"
    with sub have "tg_id t \<in> insert None (Some ` dr_id ` set (drives d))" by blast
    with assms(11) show "fresh (tg_id t) \<notin> r_id ` set (replicas d3)" unfolding d3 by (rule bspec)
  qed
  have "distinct (map r_id (replicas d3))" using assms(9) d3 by simp
  from place_copies_spec [OF place assms(6,7) ids this fr]
  obtain xs where xs: "distinct xs" "length xs = n" "\<forall>x \<in> set xs. placed e a x d4 f4" by blast
  have "\<exists>r \<in> set (replicas d'). r_asset_id r = i \<and> r_drive_id r = x \<and> r_status r = ''verified'' \<and>
      intact e f' (r_path r) (a_storage_checksum a)" if "x \<in> set xs" for x
  proof -
    from xs(3) that obtain r where "r \<in> set (replicas d4)" "copy_on (a_id a) x r" "r_status r = ''verified''"
      "intact e f4 (r_path r) (a_storage_checksum a)" by (auto simp: placed_def)
    with result(1,2) active_asset_Some(2) [OF assms(2)] show ?thesis by (intro bexI [of _ r]) (simp_all add: copy_on_def)
  qed
  moreover have "?desired \<le> int n"
  proof -
    from assms(3) obtain x :: asset where "b = (if a_id x = a_id a then x\<lparr>a_protection_status := ?status\<rparr> else x)"
      unfolding result(3) status_frames set_sql_update by (rule imageE)
    with assms(4) active_asset_Some(2) [OF assms(2)] have "a_protection_status b = ?status" by (cases "a_id x = a_id a") simp_all
    with assms(5) show ?thesis by (cases "?desired \<le> int n") simp_all
  qed
  ultimately show ?thesis using p xs(1,2) by (intro exI [of _ xs]) simp
qed

section \<open>Balancing\<close>

text \<open>An asset has a copy that is marked verified and is intact.\<close>

definition has_copy :: "env \<Rightarrow> asset \<Rightarrow> db \<Rightarrow> fs \<Rightarrow> bool" where
  "has_copy e a d f \<longleftrightarrow> (\<exists>r \<in> set (replicas d). r_asset_id r = a_id a \<and> r_status r = ''verified'' \<and>
     \<not> prefix ''duplicate:'' (r_path r) \<and> intact e f (r_path r) (a_storage_checksum a))"

text \<open>The physical names that hold copies, with the digest each must have.\<close>

definition locations :: "env \<Rightarrow> db \<Rightarrow> replica_target \<Rightarrow> (string \<times> string) set" where
  "locations e d t =
     {(canonical e (r_path r), a_storage_checksum b) | r b. r \<in> set (replicas d) \<and> b \<in> set (assets d) \<and> r_asset_id r = a_id b} \<union>
     {(copy_target e b t, a_storage_checksum b) | b. b \<in> set (assets d)}"

text \<open>Copies are addressed by content: a name at which a copy is to be made on the target holds no other content,
  is no sidecar, and is no reserved name.\<close>

definition addressed :: "env \<Rightarrow> asset list \<Rightarrow> (string \<times> string) set \<Rightarrow> replica_target \<Rightarrow> bool" where
  "addressed e as ls t \<longleftrightarrow> (\<forall>a \<in> set as. \<not> prefix ''duplicate:'' (copy_target e a t) \<and>
     (\<forall>(q, c) \<in> ls. (q = copy_target e a t \<longrightarrow> c = a_storage_checksum a) \<and> q \<noteq> sidecar_target e a t))"

lemma unlink_copy_keeps:
  assumes "unlink_copy e r d f = (res, f')" "references e d None (Some (r_id r)) None q" "host_paths e"
  shows "files f' q = files f q"
  using assms(1) unlink_keeps_referenced [OF _ assms(2,3)]
  by (auto simp: unlink_copy_def split: sum.splits option.splits prod.splits if_splits)

text \<open>The state between two moves; \<open>todo\<close> are the moves still to be made.\<close>

definition moving :: "env \<Rightarrow> (uuid \<Rightarrow> uuid) \<Rightarrow> replica_target \<Rightarrow> asset list \<Rightarrow> (string \<times> string) set \<Rightarrow> (replica \<times> asset) list \<Rightarrow> db \<Rightarrow> bool" where
  "moving e fresh t as ls todo d \<longleftrightarrow> assets d = as \<and> distinct (map r_id (replicas d)) \<and> locations e d t \<subseteq> ls \<and>
     (\<forall>(r, a) \<in> set todo. r \<in> set (replicas d) \<and> a \<in> set as \<and> r_asset_id r = a_id a \<and> fresh (r_id r) \<notin> r_id ` set (replicas d)) \<and>
     distinct (map (r_id \<circ> fst) todo) \<and> distinct (map (fresh \<circ> r_id \<circ> fst) todo)"

lemma locations_cong: "replicas d2 = replicas d \<Longrightarrow> assets d2 = assets d \<Longrightarrow> locations e d2 t = locations e d t"
  by (simp add: locations_def)

lemma locations_insert:
  assumes "set (replicas d') \<subseteq> insert r (set (replicas d))" "assets d' = assets d" "a \<in> set (assets d)" "r_asset_id r = a_id a"
    "canonical e (r_path r) = copy_target e a t" "distinct (map a_id (assets d))"
  shows "locations e d' t \<subseteq> locations e d t"
proof -
  have same: "b = a" if "b \<in> set (assets d)" "a_id b = a_id a" for b using key_unique [OF assms(6) that(1) assms(3) that(2)] .
  have "(canonical e (r_path q), a_storage_checksum b) \<in> locations e d t"
    if q: "q \<in> set (replicas d')" "b \<in> set (assets d)" "r_asset_id q = a_id b" for q b
  proof (cases "q \<in> set (replicas d)")
    case True
    with q(2,3) show ?thesis unfolding locations_def by blast
  next
    case False
    with q(1) assms(1) have "q = r" by blast
    with q(2,3) assms(4) same [of b] have "b = a" by simp
    with \<open>q = r\<close> assms(3,5) show ?thesis unfolding locations_def by auto
  qed
  moreover have "(copy_target e b t, a_storage_checksum b) \<in> locations e d t" if "b \<in> set (assets d)" for b
    using that unfolding locations_def by blast
  ultimately show ?thesis unfolding locations_def [of e d'] assms(2) by blast
qed

lemma upsert_new_row:
  assumes "\<not> list_ex (copy_on (a_id a) x) (replicas d)"
  shows "\<exists>r. replicas (upsert_row e now i a x destination c m d) = sql_insert r (replicas d) \<and> r_id r = i \<and> r_asset_id r = a_id a \<and>
    r_status r = ''verified'' \<and> r_path r = canonical e destination"
proof -
  have "sql_first (copy_on (a_id a) x) (replicas d) = None" using assms by (simp add: sql_first_None list_ex_iff)
  then have "replicas (upsert_row e now i a x destination c m d) = sql_insert \<lparr>r_id = i, r_asset_id = a_id a, r_drive_id = x,
      r_path = canonical e destination, r_checksum = c, r_metadata_path = Some (canonical e m), r_status = ''verified'',
      r_verification_status = ''verified'', r_failure_count = 0, r_last_error = None, r_verified_at = now, r_created_at = now\<rparr>
      (replicas d)" (is "_ = sql_insert ?n _")
    by (simp add: upsert_row_def canonical_storage_path_def)
  then show ?thesis by (intro exI [of _ ?n]) simp
qed

lemma balance_failed_frame [simp]:
  "replicas (balance_failed ev now uid a x d) = replicas d" "assets (balance_failed ev now uid a x d) = assets d"
  by (simp_all add: balance_failed_def)

text \<open>The copy made on the target is intact, and the file of a row that is intact stays so.\<close>

lemma upsert_keeps_intact:
  assumes "upsert_replica e now i a t source d f = (res, d1, f1)" "addressed e as ls t" "a \<in> set as"
    "(canonical e p, c) \<in> ls" "intact e f p c" "(copy_target e a t, a_storage_checksum a) \<in> ls"
  shows "intact e f1 p c"
proof -
  note files = upsert_replica_files [OF assms(1)]
  have apart: "sidecar_target e a t \<noteq> copy_target e a t" "canonical e p \<noteq> sidecar_target e a t"
    "canonical e p = copy_target e a t \<Longrightarrow> c = a_storage_checksum a"
    using assms(2-4,6) by (fastforce simp: addressed_def)+
  show ?thesis
  proof (cases "canonical e p = copy_target e a t")
    case True
    with files(2) [OF apart(1)] assms(5) apart(3) show ?thesis by (simp add: intact_def)
  next
    case False
    with intact_kept [OF files(1), where p = p] apart(2) assms(5) show ?thesis by simp
  qed
qed

lemma move_copy_keeps:
  assumes run: "move_copy e now ev fresh uid t (r, a) d f = (moved, d', f')" and hp: "host_paths e"
    and inv: "moving e fresh t as ls ((r, a) # todo) d" and addr: "addressed e as ls t" and ids: "distinct (map a_id as)"
  shows "moving e fresh t as ls todo d'" "b \<in> set as \<Longrightarrow> has_copy e b d f \<Longrightarrow> has_copy e b d' f'"
proof -
  from inv have as: "assets d = as" and rids: "distinct (map r_id (replicas d))" and locs: "locations e d t \<subseteq> ls"
    and r: "r \<in> set (replicas d)" "a \<in> set as" "r_asset_id r = a_id a" "fresh (r_id r) \<notin> r_id ` set (replicas d)"
    and todo: "\<forall>(q, b) \<in> set todo. q \<in> set (replicas d) \<and> b \<in> set as \<and> r_asset_id q = a_id b \<and> fresh (r_id q) \<notin> r_id ` set (replicas d)"
      "distinct (map (r_id \<circ> fst) todo)" "r_id r \<notin> (r_id \<circ> fst) ` set todo" "distinct (map (fresh \<circ> r_id \<circ> fst) todo)"
      "fresh (r_id r) \<notin> (fresh \<circ> r_id \<circ> fst) ` set todo"
    by (auto simp: moving_def)
  have target: "(copy_target e x t, a_storage_checksum x) \<in> ls" if "x \<in> set as" for x
    using locs that as by (auto simp: locations_def)
  have row: "(canonical e (r_path q), a_storage_checksum x) \<in> ls" if "q \<in> set (replicas d)" "x \<in> set as" "r_asset_id q = a_id x" for q x
    using locs that as by (auto simp: locations_def)
  have unchanged: "moving e fresh t as ls todo d2" if "replicas d2 = replicas d" "assets d2 = assets d" for d2
    using that inv locations_cong [OF that] by (auto simp: moving_def)
  obtain res d1 f1 where up: "upsert_replica e now (fresh (r_id r)) a t (r_path r) d f = (res, d1, f1)" by (rule prod_cases3)
  note files = upsert_replica_files [OF up]
  have apart: "sidecar_target e a t \<noteq> copy_target e a t" "\<not> prefix ''duplicate:'' (copy_target e a t)"
    using addr r(2) target [OF r(2)] by (fastforce simp: addressed_def)+
  have kept: "has_copy e b d2 f1" if "b \<in> set as" "has_copy e b d f" "set (replicas d) \<subseteq> set (replicas d2)" for b d2
  proof -
    from that(2) obtain q where q: "q \<in> set (replicas d)" "r_asset_id q = a_id b" "r_status q = ''verified''"
      "\<not> prefix ''duplicate:'' (r_path q)" "intact e f (r_path q) (a_storage_checksum b)" by (auto simp: has_copy_def)
    from upsert_keeps_intact [OF up addr r(2) row [OF q(1) that(1) q(2)] q(5) target [OF r(2)]] q that(3)
    show ?thesis by (auto simp: has_copy_def)
  qed
  have "moving e fresh t as ls todo d' \<and> (b \<in> set as \<longrightarrow> has_copy e b d f \<longrightarrow> has_copy e b d' f')"
  proof (cases "list_ex (copy_on (a_id a) (tg_id t)) (replicas d) \<or> \<not> is_file e f (r_path r)")
    case True
    with run unchanged [of d] show ?thesis by (simp add: move_copy_def)
  next
    case new: False
    show ?thesis
    proof (cases res)
      case (Inl x)
      with files(4) run new up have "d' = balance_failed ev now uid a x d" "f' = f1" by (simp_all add: move_copy_def)
      with unchanged [of d'] kept [of b d'] show ?thesis by (auto simp: has_copy_def)
    next
      case (Inr v)
      with files(3) obtain m where v: "v = a_storage_checksum a"
        and d1: "d1 = upsert_row e now (fresh (r_id r)) a (tg_id t) (resolve e (replica_path_for t a)) v m d" by blast
      obtain n where n: "replicas d1 = sql_insert n (replicas d)" "r_id n = fresh (r_id r)" "r_asset_id n = a_id a"
        "r_status n = ''verified''" "r_path n = copy_target e a t"
        unfolding d1 using upsert_new_row [of a "tg_id t" d] new by blast
      have can: "canonical e (r_path n) = copy_target e a t" using n(5) hp by (simp add: host_paths_def)
      have d1_assets: "assets d1 = assets d" unfolding d1 by (rule upsert_row_spec(5) [OF rids r(4) refl])
      have n_new: "r_id n \<noteq> r_id q" if "q \<in> set (replicas d)" for q using n(2) r(4) that by auto
      obtain out f2 where un: "unlink_copy e r d1 f1 = (out, f2)" by (rule prod.exhaust)
      let ?d2 = "d1\<lparr>replicas := sql_delete (\<lambda>x. r_id x = r_id r) (replicas d1)\<rparr>"
      have result: "f' = f2" "replicas d' = replicas d1 \<or> replicas d' = replicas ?d2" "assets d' = assets d"
        using run new up Inr v un d1_assets by (auto simp: move_copy_def split: sum.splits)
      have safe: "files f2 (canonical e (r_path q)) = files f1 (canonical e (r_path q))"
        if "q \<in> set (replicas d1)" "r_id q \<noteq> r_id r" "\<not> prefix ''duplicate:'' (r_path q)" for q
      proof (rule unlink_copy_keeps [OF un _ hp])
        have "\<exists>x \<in> set (replicas d1). \<not> excluded (Some (r_id r)) (r_id x) \<and>
            (\<exists>p \<in> set (replica_paths x). \<not> prefix ''duplicate:'' p \<and> canonical e p = canonical e (r_path q))"
          using that by (intro bexI [of _ q]) (auto simp: excluded_def set_replica_paths)
        then show "references e d1 None (Some (r_id r)) None (canonical e (r_path q))" unfolding references_def by blast
      qed
      have n_file: "intact e f2 (r_path n) (a_storage_checksum a)"
      proof -
        have "intact e f1 (r_path n) (a_storage_checksum a)"
          using files(2) [OF apart(1)] Inr can by (auto simp: intact_def)
        then show ?thesis using safe [of n] n_new [OF r(1)] apart(2) n(1,5) by (simp add: intact_def set_sql_insert)
      qed
      have n_stays: "n \<in> set (replicas d')" using result(2) n_new [OF r(1)] n(1) by (auto simp: set_sql_insert set_sql_delete)
      have copies: "has_copy e b d' f'" if "b \<in> set as" "has_copy e b d f"
      proof -
        from that(2) obtain q where q: "q \<in> set (replicas d)" "r_asset_id q = a_id b" "r_status q = ''verified''"
          "\<not> prefix ''duplicate:'' (r_path q)" "intact e f (r_path q) (a_storage_checksum b)" by (auto simp: has_copy_def)
        show ?thesis
        proof (cases "r_id q = r_id r")
          case True
          with key_unique [OF rids q(1) r(1)] have "q = r" by simp
          with q(2) r(3) key_unique [OF ids that(1) r(2)] have "b = a" by simp
          with n_file n_stays n(3-5) apart(2) result(1) show ?thesis by (auto simp: has_copy_def)
        next
          case False
          have "intact e f1 (r_path q) (a_storage_checksum b)"
            by (rule upsert_keeps_intact [OF up addr r(2) row [OF q(1) that(1) q(2)] q(5) target [OF r(2)]])
          with safe [of q] False q(1,4) n(1) have "intact e f2 (r_path q) (a_storage_checksum b)"
            by (simp add: intact_def set_sql_insert)
          moreover have "q \<in> set (replicas d')" using result(2) False q(1) n(1) by (auto simp: set_sql_insert set_sql_delete)
          ultimately show ?thesis using q(2-4) result(1) by (auto simp: has_copy_def)
        qed
      qed
      have sub: "set (replicas d') \<subseteq> insert n (set (replicas d))" using result(2) n(1) by (auto simp: set_sql_insert set_sql_delete)
      have "locations e d' t \<subseteq> ls"
        using locations_insert [OF sub result(3) _ n(3) can] as r(2) ids locs by auto
      moreover have "distinct (map r_id (replicas d1))" using rids r(4) n(1,2) by (simp add: distinct_map_sql_insert)
      then have "distinct (map r_id (replicas d'))" using result(2) by (auto simp: distinct_map_sql_delete)
      moreover have "q \<in> set (replicas d') \<and> fresh (r_id q) \<notin> r_id ` set (replicas d')" if "(q, x) \<in> set todo" for q x
      proof -
        from todo(3) that have "r_id q \<noteq> r_id r" by force
        moreover from todo(5) that have "fresh (r_id q) \<noteq> fresh (r_id r)" by force
        moreover have "q \<in> set (replicas d)" "fresh (r_id q) \<notin> r_id ` set (replicas d)" using todo(1) that by auto
        ultimately show ?thesis using result(2) sub n(1,2) by (auto simp: set_sql_insert set_sql_delete)
      qed
      ultimately have "moving e fresh t as ls todo d'" using todo(1,2,4) result(3) as by (fastforce simp: moving_def)
      with copies show ?thesis by blast
    qed
  qed
  then show "moving e fresh t as ls todo d'" "b \<in> set as \<Longrightarrow> has_copy e b d f \<Longrightarrow> has_copy e b d' f'" by simp_all
qed

lemma move_copies_keep:
  assumes "move_copies e now ev fresh uid t ras d f = (n, d', f')" "moving e fresh t as ls ras d" "has_copy e b d f"
    "host_paths e" "addressed e as ls t" "distinct (map a_id as)" "b \<in> set as"
  shows "has_copy e b d' f'"
  using assms(1-3)
proof (induction ras arbitrary: d f n)
  case (Cons ra ras)
  obtain r a where ra: "ra = (r, a)" by (rule prod.exhaust)
  obtain moved d1 f1 where one: "move_copy e now ev fresh uid t (r, a) d f = (moved, d1, f1)" by (rule prod_cases3)
  note step = move_copy_keeps [OF one assms(4) Cons.prems(2) [unfolded ra] assms(5,6)]
  obtain m where "move_copies e now ev fresh uid t ras d1 f1 = (m, d', f')"
    using Cons.prems(1) one ra by (auto split: prod.splits)
  from Cons.IH [OF this step(1) step(2) [OF assms(7) Cons.prems(3)]] show ?case .
qed simp

lemma movable_columns:
  assumes "distinct (map r_id (replicas d))" "distinct (map a_id (assets d))"
  shows "(r, a) \<in> set (movable uid high d) \<Longrightarrow> r \<in> set (replicas d) \<and> a \<in> set (assets d) \<and> r_asset_id r = a_id a"
    "distinct (map (r_id \<circ> fst) (movable uid high d))"
proof -
  show "(r, a) \<in> set (movable uid high d) \<Longrightarrow> r \<in> set (replicas d) \<and> a \<in> set (assets d) \<and> r_asset_id r = a_id a"
    by (auto simp: movable_def split: if_splits)
  let ?own = "\<lambda>r. if r_status r = ''verified'' \<and> r_drive_id r = tg_id high then
     map (Pair r) (filter (\<lambda>a. a_id a = r_asset_id r \<and> a_user_id a = uid \<and> a_lifecycle_state a = Active) (assets d)) else []"
  have one: "length (?own r) \<le> 1" for r
  proof -
    have "length (filter (\<lambda>a. a_id a = i \<and> P a) t) \<le> 1" if "distinct (map a_id t)" for i P and t :: "asset list"
      using that
    proof (induction t)
      case (Cons x t)
      have "filter (\<lambda>a. a_id a = i \<and> P a) t = []" if "a_id x = i"
        using Cons.prems that by (auto simp: filter_empty_conv image_iff)
      with Cons show ?case by auto
    qed simp
    with assms(2) show ?thesis by simp
  qed
  have own: "distinct (map (r_id \<circ> fst) (concat (map ?own rs))) \<and> (r_id \<circ> fst) ` set (concat (map ?own rs)) \<subseteq> r_id ` set rs"
    if "distinct (map r_id rs)" for rs
    using that
  proof (induction rs)
    case (Cons r rs)
    have "?own r = [] \<or> (\<exists>a. ?own r = [(r, a)])" using one [of r] by (cases "?own r") (auto split: if_splits)
    with Cons show ?case by auto
  qed simp
  show "distinct (map (r_id \<circ> fst) (movable uid high d))" unfolding movable_def by (rule conjunct1 [OF own [OF assms(1)]])
qed

text \<open>C12: Balancing never takes the last copy.  If an asset has a verified, intact protection copy before a
  balancing run, it has one after it, whatever failed on the way, even when the copy was moved and its old file
  removed, and even when two rows share one file.\<close>

theorem balancing_keeps_a_copy:
  assumes "rebalance_user_storage e now ev fresh uid d f = (res, d', f')" "a \<in> set (assets d)" "has_copy e a d f"
    "host_paths e" "distinct (map a_id (assets d))" "distinct (map r_id (replicas d))"
    "inj_on fresh (r_id ` set (replicas d))" "\<forall>i \<in> r_id ` set (replicas d). fresh i \<notin> r_id ` set (replicas d)"
    "\<forall>ts. fst (replica_targets e now f uid d) = Inr ts \<longrightarrow> (\<forall>t \<in> set ts. addressed e (assets d) (locations e d t) t)"
  shows "has_copy e a d' f'"
proof (cases "active_user d uid")
  case None
  with assms(1,3) show ?thesis by (simp add: rebalance_user_storage_def)
next
  case (Some u)
  obtain p d1 where pol: "storage_policy e uid d = (p, d1)" by (rule prod.exhaust)
  have d1: "replicas d1 = replicas d" "assets d1 = assets d" "drives d1 = drives d"
    using storage_policy_frame(2,3,5) [of e uid d] pol by simp_all
  obtain tr d2 where tg: "replica_targets e now f uid d1 = (tr, d2)" by (rule prod.exhaust)
  have d2: "replicas d2 = replicas d" "assets d2 = assets d"
    using tg d1 by (auto simp: replica_targets_def Let_def split: sum.splits if_splits)
  have same: "fst (replica_targets e now f uid d) = tr"
    using tg d1(3) by (auto simp: replica_targets_def Let_def split: sum.splits if_splits)
  have still: "has_copy e a d0 f" if "replicas d0 = replicas d" for d0 using that assms(3) by (simp add: has_copy_def)
  show ?thesis
  proof (cases "\<exists>ts low high n. tr = Inr ts \<and> low \<in> set ts \<and>
      move_copies e now ev fresh uid low (take 25 (movable uid high d2)) d2 f = (n, d', f')")
    case False
    with assms(1) Some pol tg have "f' = f \<and> (d' = d \<or> d' = d2)"
      by (auto simp: rebalance_user_storage_def rebalance_replicas_def Let_def split: sum.splits if_splits prod.splits)
        (metis hd_in_set length_0_conv length_sort not_numeral_le_zero set_sort linorder_not_less)+
    with still d2 show ?thesis by auto
  next
    case True
    then obtain ts low high n where run: "tr = Inr ts" "low \<in> set ts"
      "move_copies e now ev fresh uid low (take 25 (movable uid high d2)) d2 f = (n, d', f')" by blast
    let ?todo = "take 25 (movable uid high d2)"
    have ids: "distinct (map r_id (replicas d2))" "distinct (map a_id (assets d2))" using assms(5,6) d2 by simp_all
    have "distinct (map (r_id \<circ> fst) ?todo)"
      using movable_columns(2) [OF ids] by (simp add: take_map [symmetric])
    moreover have rows: "\<forall>(r, x) \<in> set ?todo. r \<in> set (replicas d) \<and> x \<in> set (assets d) \<and> r_asset_id r = a_id x"
      using movable_columns(1) [OF ids] d2 by (fastforce dest: in_set_takeD)
    moreover have "distinct (map (fresh \<circ> r_id \<circ> fst) ?todo)"
    proof -
      have "(r_id \<circ> fst) ` set ?todo \<subseteq> r_id ` set (replicas d)" using rows by force
      from inj_on_subset [OF assms(7) this] have "distinct (map fresh (map (r_id \<circ> fst) ?todo))"
        using \<open>distinct (map (r_id \<circ> fst) ?todo)\<close> by (simp only: distinct_map [of fresh] set_map)
      then show ?thesis by (simp add: comp_assoc)
    qed
    ultimately have "moving e fresh low (assets d) (locations e d low) ?todo d2"
      using ids d2 assms(8) locations_cong [OF d2] by (fastforce simp: moving_def)
    moreover have "addressed e (assets d) (locations e d low) low" using assms(9) same run(1,2) by simp
    ultimately show ?thesis
      using move_copies_keep [OF run(3)] still [OF d2(1)] assms(2,4,5) by blast
  qed
qed

section \<open>Concrete instances\<close>

text \<open>An account with one asset: unprotected on a host with one protection drive, and balanced between two.\<close>

definition plain_asset :: asset where
  "plain_asset = sample_asset 1 1 ''/data/originals/dx/dx''"

definition protection_db :: db where
  "protection_db = empty_db\<lparr>users := [sample_user 1], assets := [plain_asset]\<rparr>"

definition protection_fs :: fs where
  "protection_fs = \<lparr>files = [''/data/originals/dx/dx'' \<mapsto> ''x''], dirs = (\<lambda>p. False)\<rparr>"

lemma plain_columns [simp]:
  "a_id plain_asset = 1" "a_user_id plain_asset = 1" "a_storage_checksum plain_asset = ''dx''" "a_checksum plain_asset = ''dx''"
  "a_encryption_version plain_asset = 0" "a_storage_source plain_asset = ''managed''"
  "a_original_path plain_asset = ''/data/originals/dx/dx''"
  by (simp_all add: plain_asset_def sample_asset_def sample_digest_def)

lemma plain_copies_apart: "copies_apart sample_env plain_asset"
  unfolding copies_apart_def
proof (intro allI notI)
  fix t t' assume same: "sidecar_target sample_env plain_asset t = copy_target sample_env plain_asset t'"
  have "last (sidecar_target sample_env plain_asset t) = CHR ''n''" by (simp add: sidecar_path_def)
  moreover have "last (copy_target sample_env plain_asset t') = CHR ''x''" by (simp add: replica_path_for_def path_join_def)
  ultimately show False unfolding same by simp
qed

definition primary :: replica_target where
  "primary = \<lparr>tg_id = None, tg_name = ''Primary protection drive'', tg_root = ''/data/replicas'', tg_priority = 100\<rparr>"

lemma primary_target [simp]:
  "drives d = [] \<Longrightarrow> replica_targets sample_env now f u d = (Inr [primary], d)"
  "replica_path_for primary plain_asset = ''/data/replicas/dx/dx''" "tg_id primary = None"
  by (simp_all add: replica_targets_def primary_def replica_path_for_def path_join_def)
    (simp add: sample_env_def sample_settings_def)

lemma plain_source [simp]: "source_path_for sample_env f plain_asset = Inr ''/data/originals/dx/dx''"
proof -
  have "originals_path (cfg sample_env) = ''/data/originals''" by (simp add: sample_env_def sample_settings_def)
  then show ?thesis by (simp add: source_path_for_def is_relative_to_def path_parts_def)
qed

lemma plain_writable [simp]: "active_asset_for_write 1 protection_db = Some (plain_asset, sample_user 1)"
  by (simp add: active_asset_for_write_def active_user_def protection_db_def)
    (simp add: plain_asset_def sample_asset_def sample_user_def)

lemma plain_upsert:
  "\<exists>d f. upsert_replica sample_env 5 i plain_asset primary ''/data/originals/dx/dx'' d0 protection_fs = (Inr ''dx'', d, f) \<and>
    assets d = assets d0"
  by (simp add: upsert_replica_def Let_def copy_verified_def drop_mismatch_def path_exists_def is_file_def is_dir_def
      protection_fs_def mkdirs_def parent_dir_def read_bytes_def replace_file_def write_file_def sha256_file_def
      write_replica_metadata_def upsert_row_def split: option.split)

lemma protection_run:
  "\<exists>d f. protect_asset sample_env 5 (\<lambda>n. 9) (\<lambda>x. 8) 1 protection_db protection_fs = (Inr (), d, f) \<and>
     assets d = [plain_asset\<lparr>a_protection_status := ''protected''\<rparr>]"
proof -
  obtain p d0 where pol: "storage_policy sample_env 1 (set_protection plain_asset ''protecting'' protection_db) = (p, d0)"
    by (rule prod.exhaust)
  then have d0: "drives d0 = []" "assets d0 = [plain_asset\<lparr>a_protection_status := ''protecting''\<rparr>]"
    using storage_policy_frame(2,5) [of sample_env 1 "set_protection plain_asset ''protecting'' protection_db"]
    by (simp_all add: protection_db_def empty_db_def)
  have p: "p_desired_replica_count p = 1"
    using pol by (auto simp: storage_policy_def Let_def protection_db_def empty_db_def set_protection_def update_asset_def)
  obtain d f where up: "upsert_replica sample_env 5 8 plain_asset primary ''/data/originals/dx/dx'' d0 protection_fs = (Inr ''dx'', d, f)"
    "assets d = assets d0" using plain_upsert by blast
  have "is_file sample_env protection_fs ''/data/originals/dx/dx''" by (simp add: is_file_def protection_fs_def)
  with pol d0 p up show ?thesis
    by (simp add: protect_asset_def ensure_asset_replicas_def first_targets_def Let_def)
qed

lemma protected_asset_has_wanted_copies_witness:
  "\<exists>d f xs. protect_asset sample_env 5 (\<lambda>n. 9) (\<lambda>x. 8) 1 protection_db protection_fs = (Inr (), d, f) \<and>
    distinct xs \<and> 1 \<le> int (length xs) \<and>
    (\<forall>x \<in> set xs. \<exists>r \<in> set (replicas d). r_asset_id r = 1 \<and> r_drive_id r = x \<and> r_status r = ''verified'' \<and>
      intact sample_env f (r_path r) ''dx'')"
proof -
  obtain d f where run: "protect_asset sample_env 5 (\<lambda>n. 9) (\<lambda>x. 8) 1 protection_db protection_fs = (Inr (), d, f)"
    "assets d = [plain_asset\<lparr>a_protection_status := ''protected''\<rparr>]" using protection_run by blast
  have row: "plain_asset\<lparr>a_protection_status := ''protected''\<rparr> \<in> set (assets d)" by (simp add: run(2))
  have "p_desired_replica_count (fst (storage_policy sample_env 1 protection_db)) = 1" "drives protection_db = []"
    "replicas protection_db = []"
    by (simp_all add: storage_policy_def Let_def protection_db_def empty_db_def)
  with protected_asset_has_wanted_copies [OF run(1) plain_writable row _ _ plain_copies_apart sample_host_paths] run(1)
  show ?thesis by simp
qed

text \<open>Two drives of which the first is full; its copy is balanced onto the second.\<close>

definition balance_env :: env where
  "balance_env = sample_env\<lparr>disk_used := (\<lambda>p. if p = ''/data/replicas/one'' then 90 else 10)\<rparr>"

definition drive_at :: "uuid \<Rightarrow> string \<Rightarrow> drive" where
  "drive_at i p = \<lparr>dr_id = i, dr_user_id = 1, dr_name = p, dr_path = p, dr_priority = 100, dr_eligible = True,
     dr_failure_count = 0, dr_verification_status = ''online'', dr_last_verified_at = None, dr_last_error = None, dr_created_at = 0\<rparr>"

definition first_copy :: replica where
  "first_copy = (sample_replica 5 1 ''/data/replicas/one/dx/dx'')\<lparr>r_drive_id := Some 11\<rparr>"

definition balance_db :: db where
  "balance_db = protection_db\<lparr>replicas := [first_copy],
     drives := [drive_at 11 ''/data/replicas/one'', drive_at 12 ''/data/replicas/two'']\<rparr>"

definition balance_fs :: fs where
  "balance_fs = \<lparr>files = [''/data/replicas/one/dx/dx'' \<mapsto> ''x''],
     dirs = (\<lambda>p. p = ''/data/replicas/one'' \<or> p = ''/data/replicas/two'')\<rparr>"

definition drive_target :: "uuid \<Rightarrow> string \<Rightarrow> replica_target" where
  "drive_target i p = \<lparr>tg_id = Some i, tg_name = p, tg_root = p, tg_priority = 100\<rparr>"

lemma balance_env_fields [simp]:
  "cfg balance_env = sample_settings" "resolve balance_env p = p" "canonical balance_env p = p" "writable balance_env p"
  "disk_used balance_env p = (if p = ''/data/replicas/one'' then 90 else 10)" "disk_total balance_env p = 100"
  "sha256 balance_env b = ''d'' @ b" "\<not> write_fails balance_env p" "\<not> unlink_fails balance_env p"
  "require_storage balance_env f rs = Inr ()" "require_storage_path balance_env f p = Inr ()"
  by (simp_all add: balance_env_def sample_env_def canonical_def sample_digest_def require_storage_def require_storage_path_def
      load_storage_manifest_def sample_settings_def)

lemma balance_host_paths: "host_paths balance_env"
  by (simp add: host_paths_def)

lemma balance_roots: "replica_root_list balance_env = [''/data/replicas'']"
  by code_simp

lemma balance_targets:
  "fst (replica_targets balance_env now balance_fs 1 balance_db)
     = Inr [drive_target 12 ''/data/replicas/two'', drive_target 11 ''/data/replicas/one'']"
proof -
  have "online_targets balance_env balance_fs (drives balance_db)
      = [drive_target 11 ''/data/replicas/one'', drive_target 12 ''/data/replicas/two'']"
    by (simp add: online_targets_def balance_db_def drive_online_def drive_at_def validated_replica_drive_path_def
        drive_target_def is_dir_def balance_fs_def is_relative_to_def path_parts_def balance_roots)
  moreover have "filter (eligible_drive 1) (drives balance_db) = drives balance_db" "drives balance_db \<noteq> []"
    by (simp_all add: balance_db_def eligible_drive_def drive_at_def)
  moreover have "disk_score balance_env (drive_target 11 ''/data/replicas/one'') > disk_score balance_env (drive_target 12 ''/data/replicas/two'')"
    by (simp add: disk_score_def drive_target_def used_percent_def)
  ultimately show ?thesis by (simp add: replica_targets_def)
qed

lemma balance_addressed:
  assumes "t = drive_target 12 ''/data/replicas/two'' \<or> t = drive_target 11 ''/data/replicas/one''"
  shows "addressed balance_env (assets balance_db) (locations balance_env balance_db t) t"
proof -
  have apart: "sidecar_target balance_env plain_asset t \<noteq> q" if "last q = CHR ''x''" for q
  proof -
    have "last (sidecar_target balance_env plain_asset t) = CHR ''n''" by (simp add: sidecar_path_def)
    with that show ?thesis by force
  qed
  have copy: "copy_target balance_env plain_asset t = tg_root t @ ''/dx/dx''"
    using assms by (auto simp: replica_path_for_def path_join_def drive_target_def)
  have rows: "assets balance_db = [plain_asset]" "replicas balance_db = [first_copy]"
    by (simp_all add: balance_db_def protection_db_def)
  have copy_row: "r_asset_id first_copy = 1" "r_path first_copy = ''/data/replicas/one/dx/dx''"
    by (simp_all add: first_copy_def sample_replica_def)
  have "locations balance_env balance_db t = {(''/data/replicas/one/dx/dx'', ''dx''), (copy_target balance_env plain_asset t, ''dx'')}"
    unfolding locations_def rows using copy_row by auto
  moreover have "last (copy_target balance_env plain_asset t) = CHR ''x''" by (simp only: copy) simp
  moreover have "\<not> prefix ''duplicate:'' (copy_target balance_env plain_asset t)"
    unfolding copy using assms by (auto simp: drive_target_def)
  ultimately show ?thesis
    using apart [of "''/data/replicas/one/dx/dx''"] apart [of "copy_target balance_env plain_asset t"]
    unfolding addressed_def rows by (auto simp del: balance_env_fields)
qed

text \<open>The run moves the copy.\<close>

abbreviation emptier :: replica_target where
  "emptier \<equiv> drive_target 12 ''/data/replicas/two''"

lemma first_copy_columns [simp]:
  "r_id first_copy = 5" "r_asset_id first_copy = 1" "r_path first_copy = ''/data/replicas/one/dx/dx''" "r_drive_id first_copy = Some 11"
  "r_status first_copy = ''verified''" "r_metadata_path first_copy = None"
  by (simp_all add: first_copy_def sample_replica_def)

lemma emptier_path: "replica_path_for emptier plain_asset = ''/data/replicas/two/dx/dx''"
  by (simp add: replica_path_for_def path_join_def drive_target_def)

lemma balance_copy:
  "\<exists>f. copy_verified balance_env ''/data/replicas/one/dx/dx'' ''/data/replicas/two/dx/dx'' ''dx'' balance_fs = (Inr ''dx'', f) \<and>
     files f = (files balance_fs)(''/data/replicas/two/dx/dx'' \<mapsto> ''x'')"
  by (simp add: copy_verified_def Let_def drop_mismatch_def path_exists_def is_file_def is_dir_def
      balance_fs_def mkdirs_def parent_dir_def read_bytes_def replace_file_def write_file_def sha256_file_def)

lemma balance_unlink:
  assumes "assets d = [plain_asset]" "replicas d = [first_copy, r]" "r_path r = ''/data/replicas/two/dx/dx''"
    "r_metadata_path r = Some m" "last m = CHR ''n''" "uploads d = []"
  shows "unlink_copy balance_env first_copy d f = (Inr (), remove_file balance_env ''/data/replicas/one/dx/dx'' f)"
proof -
  let ?p = "''/data/replicas/one/dx/dx''"
  have "m \<noteq> ?p" using assms(5) by force
  then have "\<not> references balance_env d None (Some 5) None ?p"
    unfolding references_def assms by (simp add: assms asset_paths_def replica_paths_def excluded_def) (simp add: plain_asset_def sample_asset_def)
  then have "\<not> physical_path_has_other_reference balance_env d ?p None (Some 5) None"
    using has_other_reference_only_if [of balance_env d ?p None "Some 5" None] by auto
  moreover have "list_ex (is_relative_to ?p) (replica_root_list balance_env)"
    by (simp add: balance_roots is_relative_to_def path_parts_def)
  ultimately have "safely_unlink_catalog_path balance_env d f ?p None True None (Some 5) None = Inr (True, remove_file balance_env ?p f)"
    by (simp add: safely_unlink_catalog_path_def validated_replica_drive_path_def canonical_storage_path_def unlink_missing_ok_def)
  then show ?thesis by (simp add: unlink_copy_def)
qed

lemma balance_move:
  assumes "assets d0 = [plain_asset]" "replicas d0 = [first_copy]" "uploads d0 = []"
  shows "\<exists>d f. move_copy balance_env 5 (\<lambda>n. 9) (\<lambda>i. i + 100) 1 emptier (first_copy, plain_asset) d0 balance_fs = (True, d, f) \<and>
     map r_id (replicas d) = [105] \<and> files f ''/data/replicas/one/dx/dx'' = None"
proof -
  let ?p = "''/data/replicas/two/dx/dx''"
  obtain f where f: "copy_verified balance_env ''/data/replicas/one/dx/dx'' ?p ''dx'' balance_fs = (Inr ''dx'', f)"
     "files f = (files balance_fs)(?p \<mapsto> ''x'')" using balance_copy by blast
  obtain m f1 where m: "write_replica_metadata balance_env plain_asset ?p f = (Inr m, f1)" "last m = CHR ''n''"
    by (simp add: write_replica_metadata_def replace_file_def sidecar_path_def Let_def)
  have one: "is_file balance_env balance_fs ''/data/replicas/one/dx/dx''" by (simp add: is_file_def balance_fs_def)
  let ?d = "upsert_row balance_env 5 105 plain_asset (Some 12) ?p ''dx'' m d0"
  have rows: "assets ?d = [plain_asset]" "uploads ?d = []"
    "\<exists>r. replicas ?d = [first_copy, r] \<and> r_id r = 105 \<and> r_path r = ?p \<and> r_metadata_path r = Some m"
    using assms by (simp_all add: upsert_row_def copy_on_def sql_insert_def canonical_storage_path_def)
  then obtain r where r: "replicas ?d = [first_copy, r]" "r_id r = 105" "r_path r = ?p" "r_metadata_path r = Some m" by blast
  have up: "upsert_replica balance_env 5 105 plain_asset emptier ''/data/replicas/one/dx/dx'' d0 balance_fs = (Inr ''dx'', ?d, f1)"
    using f(1) m(1) by (simp add: upsert_replica_def emptier_path) (simp add: drive_target_def)
  show ?thesis
    using one up balance_unlink [OF rows(1) r(1,3,4) m(2) rows(2), of f1] assms(2) r(1,2)
    by (simp add: move_copy_def copy_on_def sql_delete_def) (simp add: drive_target_def)
qed

lemma balance_run:
  "\<exists>d f. rebalance_user_storage balance_env 5 (\<lambda>n. 9) (\<lambda>i. i + 100) 1 balance_db balance_fs = (Inr 1, d, f) \<and>
     map r_id (replicas d) = [105] \<and> files f ''/data/replicas/one/dx/dx'' = None"
proof -
  let ?high = "drive_target 11 ''/data/replicas/one''"
  obtain p d1 where pol: "storage_policy balance_env 1 balance_db = (p, d1)" by (rule prod.exhaust)
  then have d1: "assets d1 = [plain_asset]" "replicas d1 = [first_copy]" "uploads d1 = []" "drives d1 = drives balance_db"
    using storage_policy_frame [of balance_env 1 balance_db] by (simp_all add: balance_db_def protection_db_def empty_db_def)
  obtain d2 where tg: "replica_targets balance_env 5 balance_fs 1 d1 = (Inr [emptier, ?high], d2)"
    and d2: "assets d2 = [plain_asset]" "replicas d2 = [first_copy]" "uploads d2 = []"
    using balance_targets [of 5] d1 by (simp add: replica_targets_def Let_def split: if_splits)
  have "p_balance_threshold_percent p = 12"
    using pol by (auto simp: storage_policy_def Let_def balance_db_def protection_db_def empty_db_def)
  moreover have occ: "occupancy balance_env emptier = 10" "occupancy balance_env ?high = 90"
    by (simp_all add: occupancy_def drive_target_def)
  moreover have "movable 1 ?high d2 = [(first_copy, plain_asset)]"
    using d2 by (simp add: movable_def) (simp add: drive_target_def plain_asset_def sample_asset_def)
  moreover have "active_user balance_db 1 \<noteq> None"
    by (simp add: active_user_def balance_db_def protection_db_def sample_user_def)
  moreover obtain d f where "move_copy balance_env 5 (\<lambda>n. 9) (\<lambda>i. i + 100) 1 emptier (first_copy, plain_asset) d2 balance_fs = (True, d, f) \<and>
     map r_id (replicas d) = [105] \<and> files f ''/data/replicas/one/dx/dx'' = None" using balance_move [OF d2] by meson
  ultimately show ?thesis
    using pol tg by (auto simp: rebalance_user_storage_def rebalance_replicas_def)
qed

lemma balancing_keeps_a_copy_witness:
  "\<exists>d f. rebalance_user_storage balance_env 5 (\<lambda>n. 9) (\<lambda>i. i + 100) 1 balance_db balance_fs = (Inr 1, d, f) \<and>
     has_copy balance_env plain_asset d f \<and> files f ''/data/replicas/one/dx/dx'' = None"
proof -
  obtain d f where run: "rebalance_user_storage balance_env 5 (\<lambda>n. 9) (\<lambda>i. i + 100) 1 balance_db balance_fs = (Inr 1, d, f)"
    "files f ''/data/replicas/one/dx/dx'' = None" using balance_run by blast
  have copy: "has_copy balance_env plain_asset balance_db balance_fs"
    by (simp add: has_copy_def balance_db_def first_copy_def sample_replica_def intact_def balance_fs_def)
  have rows: "plain_asset \<in> set (assets balance_db)" "distinct (map a_id (assets balance_db))"
    "distinct (map r_id (replicas balance_db))" "inj_on (\<lambda>i. i + 100) (r_id ` set (replicas balance_db))"
    "\<forall>i \<in> r_id ` set (replicas balance_db). i + 100 \<notin> r_id ` set (replicas balance_db)"
    by (simp_all add: balance_db_def protection_db_def)
  have "\<forall>ts. fst (replica_targets balance_env 5 balance_fs 1 balance_db) = Inr ts \<longrightarrow>
      (\<forall>t \<in> set ts. addressed balance_env (assets balance_db) (locations balance_env balance_db t) t)"
    using balance_addressed by (simp add: balance_targets)
  from balancing_keeps_a_copy [OF run(1) rows(1) copy balance_host_paths rows(2-5) this] run show ?thesis by blast
qed

end
