(* ===== verification/Monitoring.thy ===== *)
theory Monitoring
  imports Restoration
begin

text \<open>
  \<open>api/v1/monitoring.py\<close> with \<open>monitor_storage_task\<close> and \<open>finish_account_verification\<close> of
  \<open>worker/tasks.py\<close>: a verification of the storage of one account is requested, locked against a second
  one, published, run and finished.  The lock is an open event of the account.  The request commits twice, before and after it
  publishes the task, so the two halves are operations of their own and the worker may run between them.
\<close>

section \<open>The lock\<close>

definition VERIFICATION_LOCK_MINUTES :: int where
  "VERIFICATION_LOCK_MINUTES = 60"

definition verification_kind :: string where
  "verification_kind = ''account_storage_verification''"

definition open_verification :: "uuid \<Rightarrow> monitoring_event \<Rightarrow> bool" where
  "open_verification uid m \<longleftrightarrow> me_user_id m = Some uid \<and> me_kind m = verification_kind \<and> me_status m = ''open''"

definition has_job :: "monitoring_event \<Rightarrow> bool" where
  "has_job m \<longleftrightarrow> (case Option.bind (me_detail m) (json_get ''job_id'') of None \<Rightarrow> False | Some j \<Rightarrow> json_true j)"

definition verification_lock_active :: "monitoring_event \<Rightarrow> time \<Rightarrow> bool" where
  "verification_lock_active m now \<longleftrightarrow>
     (if me_status m \<noteq> ''open'' then False
      else if has_job m then True
      else me_created_at m > now - minutes VERIFICATION_LOCK_MINUTES)"

text \<open>\<open>{**(detail or {}), key: value}\<close>\<close>

definition detail_with :: "string \<Rightarrow> json \<Rightarrow> json option \<Rightarrow> json option" where
  "detail_with k v detail =
     Some (JObj ((case detail of Some (JObj kvs) \<Rightarrow> filter (\<lambda>kv. fst kv \<noteq> k) kvs | _ \<Rightarrow> []) @ [(k, v)]))"

section \<open>The worker\<close>

definition finish_account_verification :: "time \<Rightarrow> uuid \<Rightarrow> uuid \<Rightarrow> string \<Rightarrow> db \<Rightarrow> db" where
  "finish_account_verification now uid verification_id outcome d =
     (case sql_first (\<lambda>m. me_id m = verification_id \<and> open_verification uid m) (monitoring_events d) of
        None \<Rightarrow> d
      | Some m \<Rightarrow> set_event (me_id m) (\<lambda>m. m\<lparr>
          me_status := (if outcome = ''completed'' then ''resolved'' else ''failed''), me_resolved_at := Some now,
          me_message := (if outcome = ''completed'' then ''Account storage verification completed.''
            else ''Account storage verification failed before completion.''),
          me_detail := detail_with ''outcome'' (JStr outcome) (me_detail m)\<rparr>) d)"

definition finish_run :: "time \<Rightarrow> uuid option \<Rightarrow> uuid option \<Rightarrow> string \<Rightarrow> db \<Rightarrow> db" where
  "finish_run now user_id verification_id outcome d =
     (case (user_id, verification_id) of
        (Some u, Some v) \<Rightarrow> finish_account_verification now u v outcome d
      | _ \<Rightarrow> d)"

definition monitor_storage_task ::
  "env \<Rightarrow> time \<Rightarrow> (nat \<Rightarrow> uuid) \<Rightarrow> (uuid \<Rightarrow> bool) \<Rightarrow> uuid option \<Rightarrow> bool \<Rightarrow> uuid option \<Rightarrow> db \<Rightarrow> fs \<Rightarrow>
   (exn + unit) \<times> db \<times> worker_task list" where
  "monitor_storage_task e now ev refused user_id repair verification_id d f =
     (case monitor_storage e now ev refused user_id repair d f of
        (Inl x, d, tasks) \<Rightarrow> (Inl x, finish_run now user_id verification_id ''failed'' d, tasks)
      | (Inr _, d, tasks) \<Rightarrow> (Inr (), finish_run now user_id verification_id ''completed'' d, tasks))"

section \<open>The request\<close>

definition already_running :: exn where
  "already_running = HTTPException 409 ''A storage verification is already running for this account''"

definition verification_mode :: "bool \<Rightarrow> string" where
  "verification_mode repair = (if repair then ''verify_and_repair'' else ''verify_only'')"

definition release_stale :: "time \<Rightarrow> monitoring_event \<Rightarrow> monitoring_event" where
  "release_stale now m = m\<lparr>me_status := ''resolved'', me_resolved_at := Some now,
     me_detail := detail_with ''outcome'' (JStr ''stale_lock_released'') (me_detail m)\<rparr>"

definition verification_detail :: "bool \<Rightarrow> json option" where
  "verification_detail repair = Some (JObj [(''mode'', JStr (verification_mode repair))])"

definition new_verification :: "time \<Rightarrow> uuid \<Rightarrow> uuid \<Rightarrow> bool \<Rightarrow> monitoring_event" where
  "new_verification now verification_id uid repair =
     \<lparr>me_id = verification_id, me_user_id = Some uid, me_asset_id = None, me_kind = verification_kind,
      me_severity = ''info'', me_status = ''open'', me_message = ''Account storage verification is running.'',
      me_detail = verification_detail repair, me_resolved_at = None, me_created_at = now\<rparr>"

text \<open>Up to the first commit.  The partial unique index on the open verifications of an account raises the
  \<open>IntegrityError\<close>.\<close>

definition lock_verification :: "time \<Rightarrow> uuid \<Rightarrow> uuid \<Rightarrow> bool \<Rightarrow> db \<Rightarrow> exn + db" where
  "lock_verification now verification_id uid repair d =
     (let existing = sql_first (open_verification uid) (monitoring_events d) in
      if (case existing of None \<Rightarrow> False | Some m \<Rightarrow> verification_lock_active m now) then Inl already_running
      else
        (let d = (case existing of None \<Rightarrow> d | Some m \<Rightarrow> set_event (me_id m) (release_stale now) d)
         in if list_ex (open_verification uid) (monitoring_events d) then Inl already_running
            else Inr (d\<lparr>monitoring_events :=
              sql_insert (new_verification now verification_id uid repair) (monitoring_events d)\<rparr>)))"

text \<open>After the task is published, or refused by the broker.  The session writes the detail it knows, not the
  one the row has.\<close>

definition record_job :: "uuid \<Rightarrow> bool \<Rightarrow> string \<Rightarrow> db \<Rightarrow> db" where
  "record_job verification_id repair job d = set_event verification_id
     (\<lambda>m. m\<lparr>me_detail := detail_with ''job_id'' (JStr job) (verification_detail repair)\<rparr>) d"

definition record_refusal :: "time \<Rightarrow> uuid \<Rightarrow> bool \<Rightarrow> db \<Rightarrow> db" where
  "record_refusal now verification_id repair d = set_event verification_id
     (\<lambda>m. m\<lparr>me_status := ''failed'', me_resolved_at := Some now,
        me_detail := detail_with ''outcome'' (JStr ''queue_failed'') (verification_detail repair)\<rparr>) d"

record verification_queued =
  vq_mode :: string
  vq_verification_id :: uuid
  vq_job_id :: string

text \<open>The broker's job, if it takes the task, is the input \<open>job\<close>; \<open>between\<close> is what other sessions commit
  between the two commits of the request.\<close>

definition queue_account_verification ::
  "time \<Rightarrow> uuid \<Rightarrow> uuid \<Rightarrow> bool \<Rightarrow> string option \<Rightarrow> (db \<Rightarrow> db) \<Rightarrow> db \<Rightarrow> (exn + verification_queued) \<times> db" where
  "queue_account_verification now verification_id uid repair job between d =
     (case lock_verification now verification_id uid repair d of
        Inl x \<Rightarrow> (Inl x, d)
      | Inr d \<Rightarrow>
          (case job of
             None \<Rightarrow> (Inl (HTTPException 503 ''Storage verification could not be queued''),
                       record_refusal now verification_id repair (between d))
           | Some j \<Rightarrow> (Inr \<lparr>vq_mode = verification_mode repair, vq_verification_id = verification_id, vq_job_id = j\<rparr>,
                         record_job verification_id repair j (between d))))"

definition verify_account_storage ::
  "time \<Rightarrow> uuid \<Rightarrow> user \<Rightarrow> string option \<Rightarrow> (db \<Rightarrow> db) \<Rightarrow> db \<Rightarrow> (exn + verification_queued) \<times> db" where
  "verify_account_storage now i u job between d = queue_account_verification now i (u_id u) False job between d"

definition run_monitor ::
  "time \<Rightarrow> uuid \<Rightarrow> user \<Rightarrow> string option \<Rightarrow> (db \<Rightarrow> db) \<Rightarrow> db \<Rightarrow> (exn + verification_queued) \<times> db" where
  "run_monitor now i u job between d = queue_account_verification now i (u_id u) True job between d"

section \<open>The overview\<close>

record monitoring_overview =
  mo_open_events :: nat
  mo_failed_assets :: nat
  mo_unprotected_assets :: nat
  mo_events :: "monitoring_event list"

definition overview :: "user \<Rightarrow> db \<Rightarrow> monitoring_overview" where
  "overview u d =
     \<lparr>mo_open_events = length (filter (\<lambda>m. me_user_id m = Some (u_id u) \<and> me_status m = ''open'') (monitoring_events d)),
      mo_failed_assets = length (filter (\<lambda>a. a_user_id a = u_id u \<and> a_processing_status a = ''failed'') (assets d)),
      mo_unprotected_assets = length (filter (\<lambda>a. a_user_id a = u_id u \<and> a_protection_status a \<noteq> ''protected'') (assets d)),
      mo_events = take 50 (sort_key (\<lambda>m. - me_created_at m) (filter (\<lambda>m. me_user_id m = Some (u_id u)) (monitoring_events d)))\<rparr>"

section \<open>Open verifications\<close>

text \<open>The open verifications of an account, by identifier.\<close>

definition verifications :: "uuid \<Rightarrow> db \<Rightarrow> uuid list" where
  "verifications uid d = map me_id (filter (open_verification uid) (monitoring_events d))"

definition one_verification :: "db \<Rightarrow> bool" where
  "one_verification d \<longleftrightarrow> (\<forall>uid. length (verifications uid d) \<le> 1)"

lemma verifications_cong: "monitoring_events d' = monitoring_events d \<Longrightarrow> verifications uid d' = verifications uid d"
  by (simp add: verifications_def)

lemma verifications_update:
  assumes "\<And>m. m \<in> set t \<Longrightarrow> P m \<Longrightarrow> open_verification uid (g m) = open_verification uid m \<and> me_id (g m) = me_id m"
  shows "map me_id (filter (open_verification uid) (sql_update P g t)) = map me_id (filter (open_verification uid) t)"
  using assms by (induction t) (auto simp: sql_update_def)

lemma verifications_set_event:
  assumes "\<And>m. open_verification uid (g m) = open_verification uid m" "\<And>m. me_id (g m) = me_id m"
  shows "verifications uid (set_event i g d) = verifications uid d"
  using assms by (simp add: verifications_def set_event_def verifications_update)

text \<open>An update that closes the events it is applied to.\<close>

lemma verifications_close:
  assumes "\<And>m. me_status (g m) \<noteq> ''open''"
  shows "verifications uid (set_event i g d) = filter (\<lambda>v. v \<noteq> i) (verifications uid d)"
proof -
  have "map me_id (filter (open_verification uid) (sql_update (\<lambda>m. me_id m = i) g t))
      = filter (\<lambda>v. v \<noteq> i) (map me_id (filter (open_verification uid) t))" for t
    using assms by (induction t) (auto simp: sql_update_def open_verification_def)
  then show ?thesis by (simp add: verifications_def set_event_def)
qed

lemma verifications_empty: "sql_first (open_verification uid) (monitoring_events d) = None \<longleftrightarrow> verifications uid d = []"
  by (simp add: verifications_def sql_first_None filter_empty_conv)

lemma verifications_add_event:
  "kind \<noteq> verification_kind \<Longrightarrow> verifications uid (add_event ev now u a kind severity message detail d) = verifications uid d"
  by (simp add: verifications_def add_event_def sql_insert_def open_verification_def)

lemma verifications_resolve:
  "verification_kind \<notin> set kinds \<Longrightarrow> verifications uid (resolve_events now a kinds d) = verifications uid d"
  unfolding verifications_def resolve_events_def by simp (rule verifications_update, auto simp: open_verification_def)

text \<open>A verification pass opens and closes no verification.\<close>

lemma verifications_monitor_asset:
  "verifications uid (view (snd (monitor_asset e now ev refused repair f a st))) = verifications uid (view st)"
  "verifications uid (committed st) = verifications uid (view st) \<Longrightarrow>
   verifications uid (committed (snd (monitor_asset e now ev refused repair f a st))) = verifications uid (view st)"
proof -
  have kinds: "verification_kind \<noteq> ''storage_unavailable''" "verification_kind \<noteq> ''original_missing_recovery_available''"
    "verification_kind \<noteq> ''original_unrecoverable''" "verification_kind \<noteq> ''automatic_restore''"
    "verification_kind \<notin> set resolved_by_monitor"
    by (simp_all add: verification_kind_def resolved_by_monitor_def)
  have status: "verifications uid (d\<lparr>replicas := t\<rparr>) = verifications uid d" "verifications uid (set_restore a s d) = verifications uid d"
    "verifications uid (set_protection a s d) = verifications uid d" "verifications uid (update_asset i g d) = verifications uid d" for d t a s i g
    by (simp_all add: verifications_def set_restore_def set_protection_def update_asset_def)
  have event: "verifications uid (set_event i (\<lambda>m. m\<lparr>me_detail := x\<rparr>) d) = verifications uid d"
    "verifications uid (set_event i (\<lambda>m. m\<lparr>me_message := t, me_detail := x\<rparr>) d) = verifications uid d"
    "verifications uid (set_event i (\<lambda>m. m\<lparr>me_message := t\<rparr>) d) = verifications uid d" for i x t d
    by (simp_all add: verifications_set_event open_verification_def)
  have opened: "verifications uid (open_recovery_event ev now a kind severity message detail d) = verifications uid d"
    if "verification_kind \<noteq> kind" for kind severity message detail d
    using that by (auto simp: open_recovery_event_def event verifications_add_event split: option.splits)
  have queued: "verifications uid (snd (queue_automatic_restore e now ev refused a d)) = verifications uid d" for d
    using kinds(4) by (auto simp: queue_automatic_restore_def Let_def event status verifications_add_event split: option.splits)
  let ?d = "(view st)\<lparr>replicas := sql_update (\<lambda>r. r_asset_id r = a_id a) (checked_replica e now f a) (replicas (view st))\<rparr>"
  obtain q d' where q: "queue_automatic_restore e now ev refused a ?d = (q, d')" by (rule prod.exhaust)
  with queued [of ?d] have d': "verifications uid d' = verifications uid (view st)" by (simp add: status)
  note facts = opened [OF kinds(1)] opened [OF kinds(2)] opened [OF kinds(3)] status verifications_resolve [OF kinds(5)] q d'
  show "verifications uid (view (snd (monitor_asset e now ev refused repair f a st))) = verifications uid (view st)"
    by (simp add: monitor_asset_def Let_def facts split: sum.split)
  assume "verifications uid (committed st) = verifications uid (view st)"
  then show "verifications uid (committed (snd (monitor_asset e now ev refused repair f a st))) = verifications uid (view st)"
    by (simp add: monitor_asset_def Let_def facts split: sum.split)
qed

lemma verifications_monitor_assets:
  assumes "verifications uid (committed st) = v" "verifications uid (view st) = v"
    "monitor_assets e now ev refused repair f as st = (res, st')"
  shows "verifications uid (committed st') = v \<and> verifications uid (view st') = v"
  using assms
proof (induction as arbitrary: st)
  case (Cons a as)
  obtain r st1 where one: "monitor_asset e now ev refused repair f a st = (r, st1)" by (rule prod.exhaust)
  with verifications_monitor_asset [where st = st and a = a] Cons.prems(1,2)
  have "verifications uid (committed st1) = v" "verifications uid (view st1) = v" by (metis snd_conv)+
  with Cons one show ?case by (auto split: sum.splits)
qed simp

lemma verifications_monitor:
  "monitor_storage e now ev refused user_id repair d f = (res, d', tasks) \<Longrightarrow> verifications uid d' = verifications uid d"
  using verifications_monitor_assets [of uid "\<lparr>committed = d, view = d, published = []\<rparr>" "verifications uid d"]
  by (auto simp: monitor_storage_def split: sum.splits prod.splits)

section \<open>The lock protocol\<close>

lemma verifications_insert:
  "verifications u (d\<lparr>monitoring_events := sql_insert (new_verification now i uid repair) t\<rparr>)
     = map me_id (filter (open_verification u) t) @ (if u = uid then [i] else [])"
  by (simp add: verifications_def sql_insert_def open_verification_def new_verification_def)

text \<open>A granted lock is the only open verification of its account, and opens none for another.\<close>

lemma lock_granted:
  assumes "lock_verification now i uid repair d = Inr d'"
  shows "verifications uid d' = [i]" "u \<noteq> uid \<Longrightarrow> length (verifications u d') \<le> length (verifications u d)"
proof -
  obtain d0 where d0: "d0 = d \<or> (\<exists>m :: monitoring_event. d0 = set_event (me_id m) (release_stale now) d)" "\<not> list_ex (open_verification uid) (monitoring_events d0)"
    "d' = d0\<lparr>monitoring_events := sql_insert (new_verification now i uid repair) (monitoring_events d0)\<rparr>"
  proof (cases "sql_first (open_verification uid) (monitoring_events d)")
    case None
    then show ?thesis using assms that [of d] by (simp add: lock_verification_def split: if_splits)
  next
    case (Some m)
    then show ?thesis
      using assms that [OF disjI2, OF exI, OF refl, of m] by (simp add: lock_verification_def Let_def split: if_splits)
  qed
  have "filter (open_verification uid) (monitoring_events d0) = []"
    using d0(2) by (simp add: filter_empty_conv list_ex_iff)
  with d0(3) show "verifications uid d' = [i]" by (simp add: verifications_insert)
  assume "u \<noteq> uid"
  with d0(3) have "verifications u d' = verifications u d0" by (simp add: verifications_insert) (simp add: verifications_def)
  also have "length (verifications u d0) \<le> length (verifications u d)"
    using d0(1) verifications_close [of "release_stale now" u] by (auto simp: release_stale_def)
  finally show "length (verifications u d') \<le> length (verifications u d)" .
qed

lemma verifications_record [simp]: "verifications u (record_job i repair job d) = verifications u d"
  unfolding record_job_def by (rule verifications_set_event) (simp_all add: open_verification_def)

lemma recorded_has_job:
  assumes "m \<in> set (monitoring_events (record_job i repair job d))" "me_id m = i" "job \<noteq> []"
  shows "has_job m"
proof -
  let ?x = "detail_with ''job_id'' (JStr job) (verification_detail repair)"
  have "m \<in> (\<lambda>n. if me_id n = i then n\<lparr>me_detail := ?x\<rparr> else n) ` set (monitoring_events d)"
    using assms(1) by (simp add: record_job_def set_event_def set_sql_update)
  then obtain n where "m = (if me_id n = i then n\<lparr>me_detail := ?x\<rparr> else n)" by (rule imageE)
  with assms(2) have "me_detail m = ?x" by (cases "me_id n = i") simp_all
  with assms(3) show ?thesis by (simp add: has_job_def detail_with_def verification_detail_def json_true_def json_get_def)
qed

lemma verifications_refusal [simp]: "verifications u (record_refusal now i repair d) = filter (\<lambda>v. v \<noteq> i) (verifications u d)"
  unfolding record_refusal_def by (rule verifications_close) simp

text \<open>Finishing closes the open verification with that identifier, if the account has it.\<close>

lemma verifications_finish:
  "verifications uid (finish_account_verification now uid i outcome d) = filter (\<lambda>v. v \<noteq> i) (verifications uid d)"
  "length (verifications u (finish_account_verification now uid i outcome d)) \<le> length (verifications u d)"
proof -
  let ?g = "\<lambda>m. m\<lparr>me_status := (if outcome = ''completed'' then ''resolved'' else ''failed''), me_resolved_at := Some now,
      me_message := (if outcome = ''completed'' then ''Account storage verification completed.''
        else ''Account storage verification failed before completion.''),
      me_detail := detail_with ''outcome'' (JStr outcome) (me_detail m)\<rparr>"
  let ?f = "sql_first (\<lambda>m. me_id m = i \<and> open_verification uid m) (monitoring_events d)"
  have close: "verifications u (set_event i ?g d) = filter (\<lambda>v. v \<noteq> i) (verifications u d)" for u
    by (rule verifications_close) simp
  have cases: "finish_account_verification now uid i outcome d = (if ?f = None then d else set_event i ?g d)"
    by (auto simp: finish_account_verification_def dest: sql_first_SomeD split: option.split)
  moreover have "i \<notin> set (verifications uid d)" if "?f = None"
    using that by (auto simp: verifications_def sql_first_None)
  moreover have "filter (\<lambda>v. v \<noteq> i) vs = vs" if "i \<notin> set vs" for vs using that by (induction vs) auto
  ultimately show "verifications uid (finish_account_verification now uid i outcome d) = filter (\<lambda>v. v \<noteq> i) (verifications uid d)"
    by (simp add: close)
  show "length (verifications u (finish_account_verification now uid i outcome d)) \<le> length (verifications u d)"
    by (simp add: cases close)
qed

lemma verifications_task:
  assumes "monitor_storage_task e now ev refused user_id repair i d f = (res, d', tasks)"
  shows "length (verifications u d') \<le> length (verifications u d)"
    "user_id = Some uid \<Longrightarrow> i = Some v \<Longrightarrow> verifications uid d' = filter (\<lambda>w. w \<noteq> v) (verifications uid d)"
proof -
  obtain r d1 ts where run: "monitor_storage e now ev refused user_id repair d f = (r, d1, ts)" by (rule prod_cases3)
  then obtain outcome where d': "d' = finish_run now user_id i outcome d1"
    using assms by (auto simp: monitor_storage_task_def split: sum.splits)
  from verifications_monitor [OF run] have same: "verifications w d1 = verifications w d" for w .
  show "length (verifications u d') \<le> length (verifications u d)"
    using verifications_finish(2) [where u = u and d = d1] by (auto simp: d' finish_run_def same split: option.split)
  show "user_id = Some uid \<Longrightarrow> i = Some v \<Longrightarrow> verifications uid d' = filter (\<lambda>w. w \<noteq> v) (verifications uid d)"
    by (simp add: d' finish_run_def verifications_finish(1) same)
qed

text \<open>What may happen to the events, in any order and from any number of sessions.\<close>

inductive verification_step :: "db \<Rightarrow> db \<Rightarrow> bool" where
  Lock: "lock_verification now i uid repair d = Inr d' \<Longrightarrow> verification_step d d'"
| Record: "verification_step d (record_job i repair job d)"
| Refuse: "verification_step d (record_refusal now i repair d)"
| Run: "monitor_storage_task e now ev refused user_id repair i d f = (res, d', tasks) \<Longrightarrow> verification_step d d'"

lemma verification_step_keeps:
  assumes "verification_step d d'" "one_verification d"
  shows "one_verification d'"
  using assms
proof cases
  case (Lock now i uid repair)
  have "length (verifications u d') \<le> 1" for u
    using lock_granted(1) [OF Lock] lock_granted(2) [OF Lock, of u] assms(2) unfolding one_verification_def by (cases "u = uid") (auto intro: le_trans)
  then show ?thesis by (simp add: one_verification_def)
next
  case (Refuse now i repair)
  then show ?thesis using assms(2) by (auto simp: one_verification_def intro: le_trans [OF length_filter_le])
next
  case (Run e now ev refused user_id repair i f res tasks)
  then show ?thesis using assms(2) verifications_task(1) [OF Run] by (auto simp: one_verification_def intro: le_trans)
qed (use assms(2) in \<open>simp add: one_verification_def\<close>)

text \<open>An account never has two verifications at a time.  Whatever requests, publications, refusals and runs
  happen, in any order and from any number of sessions, no account has more than one open verification.\<close>

theorem one_verification_at_a_time:
  assumes "verification_step\<^sup>*\<^sup>* d d'" "one_verification d"
  shows "one_verification d'"
  using assms by (induction rule: rtranclp_induct) (auto intro: verification_step_keeps)


lemma sample_lock:
  "lock_verification 5 7 1 True empty_db = Inr (empty_db\<lparr>monitoring_events := [new_verification 5 7 1 True]\<rparr>)"
  by (simp add: lock_verification_def empty_db_def sql_insert_def)

lemma one_verification_at_a_time_witness:
  "verification_step\<^sup>*\<^sup>* empty_db (empty_db\<lparr>monitoring_events := [new_verification 5 7 1 True]\<rparr>) \<and>
   one_verification (empty_db\<lparr>monitoring_events := [new_verification 5 7 1 True]\<rparr>)"
proof -
  have "verification_step\<^sup>*\<^sup>* empty_db (empty_db\<lparr>monitoring_events := [new_verification 5 7 1 True]\<rparr>)"
    using verification_step.Lock [OF sample_lock] by (rule r_into_rtranclp)
  moreover have "one_verification empty_db" by (simp add: one_verification_def verifications_def empty_db_def)
  ultimately show ?thesis using one_verification_at_a_time by blast
qed


end
