(* ===== verification/Timeline.thy ===== *)
theory Timeline
  imports NodeAttestation StoragePaths "HOL-Library.Product_Lexorder"
begin

text \<open>
  The timeline of an account: the opaque cursors of \<open>services/timeline.py\<close> and the paged listing of
  \<open>api/v1/assets.py\<close>.  A cursor survives its encoding, and following the cursors from page to page yields the
  whole timeline, each asset once and in order.
\<close>

section \<open>Text\<close>

text \<open>\<open>str.replace\<close>\<close>

function replace_text :: "string \<Rightarrow> string \<Rightarrow> string \<Rightarrow> string" where
  "replace_text old new s =
     (if s = [] then []
      else if old \<noteq> [] \<and> prefix old s then new @ replace_text old new (drop (length old) s)
      else hd s # replace_text old new (tl s))"
  by pat_completeness auto
termination by (relation "measure (\<lambda>(old, new, s). length s)") auto

declare replace_text.simps [simp del]

lemma replace_text_Nil [simp]: "replace_text old new [] = []"
  by (simp add: replace_text.simps)

lemma replace_text_other: "k \<noteq> c \<Longrightarrow> replace_text (k # r) new (c # t) = c # replace_text (k # r) new t"
  by (subst replace_text.simps) simp

lemma replace_text_skip: "k \<notin> set s \<Longrightarrow> replace_text (k # r) new (s @ t) = s @ replace_text (k # r) new t"
  by (induction s) (simp_all add: replace_text_other)

lemma replace_text_last: "replace_text (k # r) new (k # r) = new"
  by (subst replace_text.simps) simp

text \<open>\<open>base64.b64decode(value + "=" * (-len(value) % 4), altchars=b"-_", validate=True)\<close>\<close>

definition b64decode_padded :: "string \<Rightarrow> bytes option" where
  "b64decode_padded value =
     (let padded = value @ replicate ((4 - length value mod 4) mod 4) (CHR ''='');
          body = takeWhile (\<lambda>c. c \<noteq> CHR ''='') padded;
          padding = dropWhile (\<lambda>c. c \<noteq> CHR ''='') padded
      in if padding = replicate ((4 - length body mod 4) mod 4) (CHR ''='') then b64decode body else None)"

text \<open>\<open>uuid.UUID\<close> of a text.\<close>

definition uuid_of_text :: "string \<Rightarrow> uuid option" where
  "uuid_of_text s =
     (let t = replace_text ''uuid:'' [] (replace_text ''urn:'' [] s);
          brace = (\<lambda>c. c = CHR ''{'' \<or> c = CHR ''}'')
      in parse_uuid (lower (rev (dropWhile brace (rev (dropWhile brace t))))))"

section \<open>Cursors\<close>

record timeline_cursor =
  tc_timeline_at :: time
  tc_asset_id :: uuid

definition cursor_payload :: "timeline_cursor \<Rightarrow> (string \<times> json) list" where
  "cursor_payload c = [(''v'', JInt 1), (''t'', JStr (replace_text ''+00:00'' ''Z'' (isoformat (tc_timeline_at c)))),
     (''id'', JStr (uuid_str (tc_asset_id c)))]"

text \<open>\<open>json.dumps(..., separators=(",", ":"))\<close>, in the order of the entries.\<close>

definition compact_object :: "(string \<times> json) list \<Rightarrow> string" where
  "compact_object kvs = ''{'' @ joined '','' (map (\<lambda>(k, v). json_quote k @ '':'' @ dumps v) kvs) @ ''}''"

definition encode_cursor :: "timeline_cursor \<Rightarrow> string" where
  "encode_cursor c = encode_base64url (compact_object (cursor_payload c))"

definition invalid_cursor :: exn where
  "invalid_cursor = HTTPException 400 ''Invalid timeline cursor''"

definition is_one :: "json \<Rightarrow> bool" where
  "is_one j \<longleftrightarrow> j \<in> {JInt 1, JBool True, JFloat ''1.0''}"

text \<open>A timestamp has an offset when a sign follows its date.\<close>

definition has_offset :: "string \<Rightarrow> bool" where
  "has_offset t \<longleftrightarrow> list_ex (\<lambda>c. c = CHR ''+'' \<or> c = CHR ''-'') (drop 10 t)"

definition decode_payload :: "env \<Rightarrow> (string \<times> json) list \<Rightarrow> exn + timeline_cursor" where
  "decode_payload e kvs =
     (if \<not> (case map_of kvs ''v'' of None \<Rightarrow> False | Some v \<Rightarrow> is_one v) then Inl invalid_cursor
      else case map_of kvs ''t'' of
        None \<Rightarrow> Inl invalid_cursor
      | Some (JStr t) \<Rightarrow>
          (let t = replace_text ''Z'' ''+00:00'' t in
           case parse_iso e t of
             None \<Rightarrow> Inl invalid_cursor
           | Some moment \<Rightarrow>
               if \<not> has_offset t then Inl invalid_cursor
               else (case map_of kvs ''id'' of
                  None \<Rightarrow> Inl invalid_cursor
                | Some (JStr i) \<Rightarrow>
                    (case uuid_of_text i of
                       None \<Rightarrow> Inl invalid_cursor
                     | Some i \<Rightarrow> Inr \<lparr>tc_timeline_at = moment, tc_asset_id = i\<rparr>)
                | Some JNull \<Rightarrow> Inl invalid_cursor
                | Some _ \<Rightarrow> Inl (AttributeError ''replace'')))
      | Some _ \<Rightarrow> Inl (AttributeError ''replace''))"

definition decode_cursor :: "env \<Rightarrow> string \<Rightarrow> exn + timeline_cursor" where
  "decode_cursor e value =
     (case Option.bind (b64decode_padded value) (\<lambda>raw. Option.bind (decode_text e raw) (json_loads e)) of
        None \<Rightarrow> Inl invalid_cursor
      | Some (JObj kvs) \<Rightarrow> decode_payload e kvs
      | Some _ \<Rightarrow> Inl (AttributeError ''get''))"

text \<open>What the text and JSON decoders of the library do with the text of this cursor.\<close>

definition cursor_decodes :: "env \<Rightarrow> timeline_cursor \<Rightarrow> bool" where
  "cursor_decodes e c \<longleftrightarrow>
     decode_text e (compact_object (cursor_payload c)) = Some (compact_object (cursor_payload c)) \<and>
     json_loads e (compact_object (cursor_payload c)) = Some (JObj (cursor_payload c)) \<and>
     parse_iso e (isoformat (tc_timeline_at c)) = Some (tc_timeline_at c)"

section \<open>Pages\<close>

definition timeline_at :: "asset \<Rightarrow> time" where
  "timeline_at a = (case a_taken_at a of Some t \<Rightarrow> t | None \<Rightarrow> a_created_at a)"

text \<open>Newest first; the database compares identifiers by their bytes.\<close>

definition timeline_key :: "asset \<Rightarrow> int \<times> int" where
  "timeline_key a = (- timeline_at a, - uint (a_id a))"

definition after_cursor :: "timeline_cursor option \<Rightarrow> asset \<Rightarrow> bool" where
  "after_cursor cursor a \<longleftrightarrow> (case cursor of
     None \<Rightarrow> True
   | Some c \<Rightarrow> timeline_at a < tc_timeline_at c \<or> (timeline_at a = tc_timeline_at c \<and> a_id a < tc_asset_id c))"

definition timeline_statement :: "uuid \<Rightarrow> nat \<Rightarrow> timeline_cursor option \<Rightarrow> db \<Rightarrow> asset list" where
  "timeline_statement uid limit cursor d =
     take (limit + 1) (sort_key timeline_key
       (filter (\<lambda>a. a_user_id a = uid \<and> a_lifecycle_state a = Active \<and> after_cursor cursor a) (assets d)))"

record timeline_item =
  ti_id :: uuid
  ti_mime_type :: string
  ti_media :: media_info
  ti_taken_at :: "time option"
  ti_timeline_at :: time
  ti_day :: int
  ti_processing_status :: string
  ti_thumbnail :: bool
  ti_original_filename :: "string option"
  ti_protection_status :: string
  ti_restore_status :: string

text \<open>The two addresses of an item are determined by its identifier and by whether it has a thumbnail; the
  day is a number of days.\<close>

definition timeline_item :: "asset \<Rightarrow> timeline_item" where
  "timeline_item a = \<lparr>ti_id = a_id a, ti_mime_type = a_mime_type a, ti_media = a_media a, ti_taken_at = a_taken_at a,
     ti_timeline_at = timeline_at a, ti_day = timeline_at a div days 1, ti_processing_status = a_processing_status a,
     ti_thumbnail = (a_thumbnail_path a \<notin> {None, Some []}), ti_original_filename = a_original_filename a,
     ti_protection_status = a_protection_status a, ti_restore_status = a_restore_status a\<rparr>"

record timeline_page =
  tp_items :: "timeline_item list"
  tp_next_cursor :: "string option"
  tp_has_more :: bool

definition list_assets :: "env \<Rightarrow> user \<Rightarrow> nat \<Rightarrow> string option \<Rightarrow> db \<Rightarrow> exn + timeline_page" where
  "list_assets e u limit cursor d =
     sbind (case cursor of None \<Rightarrow> Inr None | Some t \<Rightarrow> sbind (decode_cursor e t) (\<lambda>c. Inr (Some c))) (\<lambda>c.
       let found = timeline_statement (u_id u) limit c d;
           has_more = length found > limit;
           page = take limit found
       in Inr \<lparr>tp_items = map timeline_item page,
               tp_next_cursor = (if has_more \<and> page \<noteq> []
                 then Some (encode_cursor \<lparr>tc_timeline_at = timeline_at (last page), tc_asset_id = a_id (last page)\<rparr>) else None),
               tp_has_more = has_more\<rparr>)"

text \<open>A client that follows the cursors, for at most \<open>n\<close> pages.\<close>

fun all_pages :: "nat \<Rightarrow> env \<Rightarrow> user \<Rightarrow> nat \<Rightarrow> string option \<Rightarrow> db \<Rightarrow> timeline_item list option" where
  "all_pages 0 e u limit cursor d = None"
| "all_pages (Suc n) e u limit cursor d =
     (case list_assets e u limit cursor d of
        Inl x \<Rightarrow> None
      | Inr p \<Rightarrow>
          (case tp_next_cursor p of
             None \<Rightarrow> Some (tp_items p)
           | Some c \<Rightarrow> map_option (\<lambda>rest. tp_items p @ rest) (all_pages n e u limit (Some c) d)))"

text \<open>The whole timeline, without pages.\<close>

definition whole_timeline :: "user \<Rightarrow> db \<Rightarrow> asset list" where
  "whole_timeline u d = sort_key timeline_key (filter (\<lambda>a. a_user_id a = u_id u \<and> a_lifecycle_state a = Active) (assets d))"

section \<open>The codec\<close>

definition hex_or_dash :: "char set" where
  "hex_or_dash = set ''0123456789abcdef-''"

lemma uuid_str_chars: "set (uuid_str i) \<subseteq> hex_or_dash"
proof -
  have "set (uuid_hex i) \<subseteq> set ''0123456789abcdef''" by (simp only: uuid_hex_def hexs_hex)
  also have "\<dots> \<subseteq> hex_or_dash" unfolding hex_or_dash_def by simp
  finally have "set (uuid_hex i) \<subseteq> hex_or_dash" .
  then have "set (take a (drop b (uuid_hex i))) \<subseteq> hex_or_dash" "set (take a (uuid_hex i)) \<subseteq> hex_or_dash"
    "set (drop b (uuid_hex i)) \<subseteq> hex_or_dash" for a b
    by (meson set_drop_subset set_take_subset subset_trans)+
  then show ?thesis by (simp add: uuid_str_def Let_def hex_or_dash_def)
qed

lemma lower_hex: "set s \<subseteq> hex_or_dash \<Longrightarrow> lower s = s"
  unfolding lower_def by (rule map_idI) (auto simp: hex_or_dash_def lower_char_def)

lemma dropWhile_id: "\<forall>x \<in> set s. \<not> P x \<Longrightarrow> dropWhile P s = s"
  by (cases s) auto

lemma uuid_of_text_str: "uuid_of_text (uuid_str i) = Some i"
proof -
  let ?s = "uuid_str i"
  have "CHR ''u'' \<notin> set ?s" using uuid_str_chars [of i] by (auto simp: hex_or_dash_def)
  then have "replace_text ''urn:'' [] ?s = ?s" "replace_text ''uuid:'' [] ?s = ?s"
    using replace_text_skip [of _ ?s _ _ "[]"] by simp_all
  moreover have "\<forall>c \<in> set ?s. c \<noteq> CHR ''{'' \<and> c \<noteq> CHR ''}''"
    using uuid_str_chars [of i] by (auto simp: hex_or_dash_def)
  then have "dropWhile (\<lambda>c. c = CHR ''{'' \<or> c = CHR ''}'') ?s = ?s" "dropWhile (\<lambda>c. c = CHR ''{'' \<or> c = CHR ''}'') (rev ?s) = rev ?s"
    by (simp_all add: dropWhile_id)
  ultimately show ?thesis by (simp add: uuid_of_text_def lower_hex [OF uuid_str_chars] parse_uuid_str)
qed

lemma pad_chars: "set (pad n i) \<subseteq> set ''0123456789''"
  using dec_digits [of "nat i"] by (auto simp: pad_def Let_def)

text \<open>The text before the offset has neither a sign of an offset nor the letter of the universal one.\<close>

lemma isoformat_split:
  obtains s where "isoformat t = s @ ''+00:00''" "CHR ''+'' \<notin> set s" "CHR ''Z'' \<notin> set s" "10 \<le> length s"
proof -
  obtain y m d where c: "civil_of_days (t div days 1) = (y, m, d)" by (rule prod_cases3)
  have digits: "CHR ''+'' \<notin> set (pad n i)" "CHR ''Z'' \<notin> set (pad n i)" for n i
    using pad_chars [of n i] by auto
  have len: "n \<le> length (pad n i)" for n i by (simp add: pad_def Let_def)
  let ?r = "t mod days 1"
  let ?s = "pad 4 y @ ''-'' @ pad 2 m @ ''-'' @ pad 2 d @ ''T'' @
         pad 2 (?r div hours 1) @ '':'' @ pad 2 (?r mod hours 1 div minutes 1) @ '':'' @
         pad 2 (?r mod minutes 1 div second) @ (if ?r mod second = 0 then [] else ''.'' @ pad 6 (?r mod second))"
  show ?thesis
  proof (rule that [of ?s])
    show "isoformat t = ?s @ ''+00:00''" unfolding isoformat_def Let_def c by simp
    show "CHR ''+'' \<notin> set ?s" "CHR ''Z'' \<notin> set ?s" by (simp_all add: digits)
    show "10 \<le> length ?s" using len [of 4 y] len [of 2 m] len [of 2 d] by simp
  qed
qed

lemma isoformat_zulu: "replace_text ''Z'' ''+00:00'' (replace_text ''+00:00'' ''Z'' (isoformat t)) = isoformat t"
proof -
  obtain s where s: "isoformat t = s @ ''+00:00''" "CHR ''+'' \<notin> set s" "CHR ''Z'' \<notin> set s" by (rule isoformat_split)
  have "replace_text ''+00:00'' ''Z'' (isoformat t) = s @ ''Z''"
    unfolding s(1) replace_text_skip [OF s(2)] replace_text_last ..
  then show ?thesis unfolding s(1) using replace_text_skip [OF s(3)] replace_text_last by metis
qed

lemma isoformat_offset: "has_offset (isoformat t)"
proof -
  obtain s where "isoformat t = s @ ''+00:00''" "10 \<le> length s" by (rule isoformat_split)
  then show ?thesis by (simp add: has_offset_def)
qed

lemma b64decode_padded_encode: "b64decode_padded (encode_base64url b) = Some b"
proof -
  let ?v = "encode_base64url b"
  obtain ns where "map b64_value ?v = map Some ns" using encode_values by blast
  from arg_cong [OF this, of set] have "None \<notin> b64_value ` set ?v" by auto
  moreover have "b64_value (CHR ''='') = None" by (simp add: b64_value_def)
  ultimately have "\<forall>c \<in> set ?v. c \<noteq> CHR ''=''" by (metis imageI)
  then have "takeWhile (\<lambda>c. c \<noteq> CHR ''='') (?v @ replicate k (CHR ''='')) = ?v"
    "dropWhile (\<lambda>c. c \<noteq> CHR ''='') (?v @ replicate k (CHR ''='')) = replicate k (CHR ''='')" for k
    by (cases k; simp add: takeWhile_append2 dropWhile_append2)+
  then show ?thesis by (simp add: b64decode_padded_def b64decode_encode)
qed

lemma cursor_read_back:
  assumes "cursor_decodes e c"
  shows "decode_cursor e (encode_cursor c) = Inr c"
  using assms
  by (simp add: cursor_decodes_def decode_cursor_def encode_cursor_def b64decode_padded_encode decode_payload_def cursor_payload_def
      is_one_def isoformat_zulu isoformat_offset uuid_of_text_str)

text \<open>A timeline cursor survives its encoding.  What a page hands to the client as a cursor decodes to the
  position it was made from, whenever the JSON and timestamp parsers read back that text.\<close>

theorem cursor_roundtrip:
  assumes "cursor_decodes e c"
  shows "decode_cursor e (encode_cursor c) = Inr c"
  by (rule cursor_read_back [OF assms])

section \<open>Pages\<close>

lemma after_cursor_key:
  "after_cursor (Some \<lparr>tc_timeline_at = timeline_at b, tc_asset_id = a_id b\<rparr>) a \<longleftrightarrow> timeline_key b < timeline_key a"
  by (auto simp: after_cursor_def timeline_key_def less_prod_def' word_less_def)

text \<open>What follows the cursor of a row in the sorted table is what the sorted table has after the row.\<close>

lemma sorted_after:
  assumes "sorted (map k xs)" "distinct (map k xs)" "n < length xs"
  shows "filter (\<lambda>x. k (xs ! n) < k x) xs = drop (Suc n) xs"
proof -
  have "sorted_wrt (<) (map k xs)" using assms(1,2) by (simp add: strict_sorted_iff)
  then have "sorted_wrt (\<lambda>x y. k x < k y) (take n xs @ xs ! n # drop (Suc n) xs)"
    using assms(3) by (simp add: sorted_wrt_map id_take_nth_drop [symmetric])
  then have order: "\<forall>x \<in> set (take n xs). \<not> k (xs ! n) < k x" "\<forall>x \<in> set (drop (Suc n) xs). k (xs ! n) < k x"
    by (auto simp: sorted_wrt_append not_less intro: less_imp_le)
  have "filter (\<lambda>x. k (xs ! n) < k x) xs = filter (\<lambda>x. k (xs ! n) < k x) (take n xs @ xs ! n # drop (Suc n) xs)"
    using assms(3) by (simp add: id_take_nth_drop [symmetric])
  also have "\<dots> = drop (Suc n) xs" using order unfolding filter_append by (simp add: filter_empty_conv)
  finally show ?thesis .
qed

definition cursor_of :: "asset \<Rightarrow> timeline_cursor" where
  "cursor_of a = \<lparr>tc_timeline_at = timeline_at a, tc_asset_id = a_id a\<rparr>"

text \<open>A page that starts after the first \<open>n\<close> assets of the timeline.\<close>

lemma page_from:
  assumes "distinct (map a_id (assets d))" "n \<le> length (whole_timeline u d)"
    "cursor = None \<and> n = 0 \<or> (0 < n \<and> cursor = Some (cursor_of (whole_timeline u d ! (n - 1))))"
  shows "timeline_statement (u_id u) limit cursor d = take (limit + 1) (drop n (whole_timeline u d))"
proof -
  let ?P = "\<lambda>a. a_user_id a = u_id u \<and> a_lifecycle_state a = Active"
  let ?W = "whole_timeline u d"
  have page: "timeline_statement (u_id u) limit cursor d = take (limit + 1) (filter (after_cursor cursor) ?W)"
    by (simp add: timeline_statement_def whole_timeline_def filter_sort conj_ac)
  show ?thesis
  proof (cases "n = 0")
    case True
    with assms(3) have "cursor = None" by simp
    then show ?thesis unfolding page using True by (simp add: after_cursor_def)
  next
    case False
    with assms(3) have c: "cursor = Some (cursor_of (?W ! (n - 1)))" by simp
    have "distinct (map a_id (filter ?P (assets d)))" using assms(1) by (simp add: distinct_map_filter)
    then have "distinct (map timeline_key (filter ?P (assets d)))"
      unfolding distinct_map by (auto simp: inj_on_def timeline_key_def word_uint_eq_iff)
    then have "distinct (map timeline_key ?W)"
      by (simp add: whole_timeline_def distinct_map)
    moreover have "sorted (map timeline_key ?W)" by (simp add: whole_timeline_def)
    ultimately have "filter (\<lambda>a. timeline_key (?W ! (n - 1)) < timeline_key a) ?W = drop n ?W"
      using sorted_after [of timeline_key ?W "n - 1"] False assms(2) by simp
    moreover have "after_cursor cursor = (\<lambda>a. timeline_key (?W ! (n - 1)) < timeline_key a)"
      unfolding c cursor_of_def by (rule ext) (rule after_cursor_key)
    ultimately show ?thesis unfolding page by simp
  qed
qed

lemma pages_from:
  assumes "distinct (map a_id (assets d))" "0 < limit"
    "\<forall>a \<in> set (assets d). a_user_id a = u_id u \<longrightarrow> cursor_decodes e (cursor_of a)"
    "n \<le> length (whole_timeline u d)" "length (whole_timeline u d) - n < fuel"
    "cursor = None \<and> n = 0 \<or> (0 < n \<and> cursor = Some (encode_cursor (cursor_of (whole_timeline u d ! (n - 1)))))"
  shows "all_pages fuel e u limit cursor d = Some (map timeline_item (drop n (whole_timeline u d)))"
  using assms(4-6)
proof (induction fuel arbitrary: n cursor)
  case (Suc fuel)
  let ?W = "whole_timeline u d"
  have rows: "cursor_decodes e (cursor_of a)" if "a \<in> set ?W" for a using that assms(3) by (simp add: whole_timeline_def)
  have decoded: "list_assets e u limit cursor d = (let found = take (limit + 1) (drop n ?W); page = take limit found in
      Inr \<lparr>tp_items = map timeline_item page,
        tp_next_cursor = (if length found > limit \<and> page \<noteq> [] then Some (encode_cursor (cursor_of (last page))) else None),
        tp_has_more = length found > limit\<rparr>)"
  proof (cases "n = 0")
    case True
    with Suc.prems(3) have "cursor = None" by simp
    with page_from [OF assms(1) Suc.prems(1), of None limit] True show ?thesis
      by (simp add: list_assets_def Let_def cursor_of_def)
  next
    case False
    with Suc.prems(1,3) have c: "cursor = Some (encode_cursor (cursor_of (?W ! (n - 1))))" "?W ! (n - 1) \<in> set ?W" by simp_all
    from cursor_read_back [OF rows [OF c(2)]] page_from [OF assms(1) Suc.prems(1), of "Some (cursor_of (?W ! (n - 1)))" limit] False c(1)
    show ?thesis by (simp add: list_assets_def Let_def cursor_of_def)
  qed
  show ?case
  proof (cases "length ?W - n \<le> limit")
    case True
    then show ?thesis by (simp add: decoded Let_def)
  next
    case False
    let ?page = "take limit (drop n ?W)"
    have last: "last ?page = ?W ! (n + limit - 1)" "?page \<noteq> []"
      using False assms(2) Suc.prems(1) by (auto simp: last_conv_nth)
    have more: "all_pages fuel e u limit (Some (encode_cursor (cursor_of (last ?page)))) d = Some (map timeline_item (drop (n + limit) ?W))"
      using False assms(2) Suc.prems(1,2) last(1) by (intro Suc.IH) auto
    have "min limit (limit + 1) = limit" by simp
    then have "take limit (take (limit + 1) (drop n ?W)) = ?page" by (simp only: take_take)
    moreover have "drop n ?W = ?page @ drop (n + limit) ?W" by (metis append_take_drop_id drop_drop add.commute)
    ultimately show ?thesis using False last(2) more
      by (simp add: decoded Let_def) (metis map_append)
  qed
qed simp

text \<open>C19: Following the cursors yields the whole timeline.  A client that starts without a cursor and follows the
  cursor of each page, whatever the page size, ends after at most one page more than there are assets, and the
  pages joined together are every active asset of the account, once each, newest first.\<close>

theorem pages_enumerate_timeline:
  assumes "distinct (map a_id (assets d))" "0 < limit" "length (whole_timeline u d) < fuel"
    "\<forall>a \<in> set (assets d). a_user_id a = u_id u \<longrightarrow> cursor_decodes e (cursor_of a)"
  shows "all_pages fuel e u limit None d = Some (map timeline_item (whole_timeline u d))"
  using pages_from [OF assms(1,2,4), of 0 fuel None] assms(3) by simp

section \<open>Concrete instances\<close>

definition first_asset :: asset where
  "first_asset = sample_asset 1 1 ''/data/originals/dx/dx''"

definition later_asset :: asset where
  "later_asset = (sample_asset 2 1 ''/data/originals/dy/dy'')\<lparr>a_taken_at := Some 7\<rparr>"

definition timeline_db :: db where
  "timeline_db = empty_db\<lparr>users := [sample_user 1], assets := [first_asset, later_asset]\<rparr>"

text \<open>A library that reads back the cursors of the two assets.\<close>

definition cursor_env :: env where
  "cursor_env = sample_env\<lparr>
     json_loads := (\<lambda>t. if t = compact_object (cursor_payload (cursor_of first_asset)) then Some (JObj (cursor_payload (cursor_of first_asset)))
       else if t = compact_object (cursor_payload (cursor_of later_asset)) then Some (JObj (cursor_payload (cursor_of later_asset))) else None),
     parse_iso := (\<lambda>t. if t = isoformat 0 then Some 0 else if t = isoformat 7 then Some 7 else None)\<rparr>"

lemma timeline_times [simp]: "tc_timeline_at (cursor_of first_asset) = 0" "tc_timeline_at (cursor_of later_asset) = 7"
  by (simp_all add: cursor_of_def timeline_at_def first_asset_def later_asset_def sample_asset_def)

lemma iso_apart: "isoformat 7 \<noteq> isoformat 0"
  by code_simp

lemma cursor_texts_apart:
  "compact_object (cursor_payload (cursor_of later_asset)) \<noteq> compact_object (cursor_payload (cursor_of first_asset))"
  by code_simp

lemma sample_cursors: "cursor_decodes cursor_env (cursor_of first_asset)" "cursor_decodes cursor_env (cursor_of later_asset)"
  using iso_apart cursor_texts_apart
  by (simp_all add: cursor_decodes_def cursor_env_def) (simp_all add: sample_env_def)

lemma cursor_roundtrip_witness:
  "decode_cursor cursor_env (encode_cursor (cursor_of later_asset)) = Inr (cursor_of later_asset)"
  by (rule cursor_roundtrip [OF sample_cursors(2)])

lemma pages_enumerate_timeline_witness:
  "all_pages 3 cursor_env (sample_user 1) 1 None timeline_db = Some [timeline_item later_asset, timeline_item first_asset]"
proof -
  have whole: "whole_timeline (sample_user 1) timeline_db = [later_asset, first_asset]"
    by (simp add: whole_timeline_def timeline_db_def first_asset_def later_asset_def sample_asset_def sample_user_def timeline_key_def
        timeline_at_def)
  have "distinct (map a_id (assets timeline_db))"
    "\<forall>a \<in> set (assets timeline_db). a_user_id a = u_id (sample_user 1) \<longrightarrow> cursor_decodes cursor_env (cursor_of a)"
    using sample_cursors by (simp_all add: timeline_db_def) (simp add: first_asset_def later_asset_def sample_asset_def)
  from pages_enumerate_timeline [OF this(1) _ _ this(2), of 1 3] whole show ?thesis by simp
qed

text \<open>A well-formed document of another shape is not reported as an invalid cursor.\<close>

lemma cursor_of_other_shape:
  assumes "decode_text e raw = Some t" "json_loads e t = Some (JList xs)"
  shows "decode_cursor e (encode_base64url raw) = Inl (AttributeError ''get'')"
  using assms by (simp add: decode_cursor_def b64decode_padded_encode)

end
