(* ===== verification/Sharing.thy ===== *)
theory Sharing
  imports Access Ingestion
begin

text \<open>
  Giving others access: albums, their members and invitations (\<open>api/v1/discovery.py\<close>), who may read an asset
  and the delivery of its bytes (\<open>api/v1/assets.py\<close>, \<open>services/media_delivery.py\<close>), and public links
  (\<open>api/v1/shares.py\<close>).  A handler takes the authenticated account, the suppression ledger and the database;
  random values are arguments.
\<close>

section \<open>Suppressed accounts\<close>

text \<open>The 401 of a suppressed account is an answer, any other failure is passed on.\<close>

definition is_suppressed :: "env \<Rightarrow> ledger \<Rightarrow> uuid \<Rightarrow> exn + bool" where
  "is_suppressed e l uid =
     (case reject_suppressed_account e l uid of
        Inr _ \<Rightarrow> Inr False
      | Inl (HTTPException c t) \<Rightarrow> if c = 401 then Inr True else Inl (HTTPException c t)
      | Inl x \<Rightarrow> Inl x)"

text \<open>The rows whose account is not suppressed, or the first failure of the check.\<close>

fun visible_rows :: "env \<Rightarrow> ledger \<Rightarrow> ('r \<Rightarrow> uuid) \<Rightarrow> 'r list \<Rightarrow> exn + 'r list" where
  "visible_rows e l owner [] = Inr []"
| "visible_rows e l owner (r # rs) =
     sbind (is_suppressed e l (owner r)) (\<lambda>gone.
     sbind (visible_rows e l owner rs) (\<lambda>rest. Inr (if gone then rest else r # rest)))"

section \<open>Albums and roles\<close>

definition find_album :: "uuid \<Rightarrow> db \<Rightarrow> album option" where
  "find_album i d = sql_first (\<lambda>x. al_id x = i) (albums d)"

definition find_member :: "uuid \<Rightarrow> uuid \<Rightarrow> db \<Rightarrow> album_member option" where
  "find_member i uid d = sql_first (\<lambda>m. am_album_id m = i \<and> am_user_id m = uid) (album_members d)"

definition album_role :: "env \<Rightarrow> ledger \<Rightarrow> uuid \<Rightarrow> uuid \<Rightarrow> db \<Rightarrow> exn + (album \<times> string) option" where
  "album_role e l i uid d =
     (case find_album i d of
        None \<Rightarrow> Inr None
      | Some x \<Rightarrow>
          sbind (is_suppressed e l (al_user_id x)) (\<lambda>gone.
            if gone then Inr None
            else if al_user_id x = uid then Inr (Some (x, ''owner''))
            else Inr (map_option (\<lambda>m. (x, am_role m)) (find_member i uid d))))"

definition role_rank :: "string \<Rightarrow> nat option" where
  "role_rank r = (if r = ''viewer'' then Some 0 else if r = ''editor'' then Some 1 else if r = ''owner'' then Some 2 else None)"

definition require_role :: "(album \<times> string) option \<Rightarrow> string \<Rightarrow> exn + album \<times> string" where
  "require_role access minimum =
     (case access of
        None \<Rightarrow> Inl (HTTPException 404 ''Album not found'')
      | Some (x, r) \<Rightarrow>
          (case (role_rank r, role_rank minimum) of
             (Some n, Some m) \<Rightarrow> if n < m then Inl (HTTPException 403 ''Album permission denied'') else Inr (x, r)
           | _ \<Rightarrow> Inl (RuntimeError ''KeyError'')))"

definition with_role :: "env \<Rightarrow> ledger \<Rightarrow> uuid \<Rightarrow> uuid \<Rightarrow> string \<Rightarrow> db \<Rightarrow> exn + album \<times> string" where
  "with_role e l i uid minimum d = sbind (album_role e l i uid d) (\<lambda>access. require_role access minimum)"

definition create_album :: "time \<Rightarrow> uuid \<Rightarrow> user \<Rightarrow> string \<Rightarrow> string option \<Rightarrow> db \<Rightarrow> (exn + album) \<times> db" where
  "create_album now i u name description d =
     (let x = \<lparr>al_id = i, al_user_id = u_id u, al_name = name, al_description = description, al_created_at = now\<rparr>
      in case sql_insert_unique al_id x (albums d) of
           Inl y \<Rightarrow> (Inl y, d)
         | Inr t \<Rightarrow> (Inr x, d\<lparr>albums := t\<rparr>))"

definition album_asset_count :: "uuid \<Rightarrow> db \<Rightarrow> nat" where
  "album_asset_count i d = length (remdups (map aa_asset_id (filter (\<lambda>x. aa_album_id x = i) (album_assets d))))"

text \<open>An absent description leaves the old one; a name that is \<open>None\<close> too.\<close>

definition update_album ::
  "env \<Rightarrow> ledger \<Rightarrow> user \<Rightarrow> uuid \<Rightarrow> string option \<Rightarrow> string option option \<Rightarrow> db \<Rightarrow> (exn + nat \<times> string) \<times> db" where
  "update_album e l u i name description d =
     (case with_role e l i (u_id u) ''editor'' d of
        Inl x \<Rightarrow> (Inl x, d)
      | Inr (x, r) \<Rightarrow>
          (let d = d\<lparr>albums := sql_update (\<lambda>y. al_id y = i) (\<lambda>y. y\<lparr>
                 al_name := (case name of None \<Rightarrow> al_name y | Some t \<Rightarrow> strip t),
                 al_description := (case description of None \<Rightarrow> al_description y | Some t \<Rightarrow> t)\<rparr>) (albums d)\<rparr>
           in case album_role e l i (u_id u) d of
                Inr (Some (_, r)) \<Rightarrow> (Inr (length (filter (\<lambda>x. aa_album_id x = i) (album_assets d)), r), d)
              | Inr None \<Rightarrow> (Inl (TypeError ''NoneType''), d)
              | Inl x \<Rightarrow> (Inl x, d)))"

definition delete_album :: "user \<Rightarrow> uuid \<Rightarrow> db \<Rightarrow> (exn + unit) \<times> db" where
  "delete_album u i d =
     (case sql_first (\<lambda>x. al_id x = i \<and> al_user_id x = u_id u) (albums d) of
        None \<Rightarrow> (Inl (HTTPException 404 ''Album not found''), d)
      | Some x \<Rightarrow> (Inr (), d\<lparr>albums := sql_delete (\<lambda>x. al_id x = i) (albums d),
           album_assets := sql_delete (\<lambda>x. aa_album_id x = i) (album_assets d),
           album_members := sql_delete (\<lambda>x. am_album_id x = i) (album_members d),
           album_invites := sql_delete (\<lambda>x. ai_album_id x = i) (album_invites d)\<rparr>))"

definition add_album_asset :: "env \<Rightarrow> ledger \<Rightarrow> time \<Rightarrow> user \<Rightarrow> uuid \<Rightarrow> uuid \<Rightarrow> db \<Rightarrow> (exn + unit) \<times> db" where
  "add_album_asset e l now u i asset_id d =
     (case with_role e l i (u_id u) ''editor'' d of
        Inl x \<Rightarrow> (Inl x, d)
      | Inr _ \<Rightarrow>
          if sql_first (\<lambda>a. a_id a = asset_id \<and> a_user_id a = u_id u) (assets d) = None
          then (Inl (HTTPException 404 ''Album or asset not found''), d)
          else if list_ex (\<lambda>x. aa_album_id x = i \<and> aa_asset_id x = asset_id) (album_assets d) then (Inr (), d)
          else (Inr (), d\<lparr>album_assets := sql_insert
                  \<lparr>aa_album_id = i, aa_asset_id = asset_id, aa_added_at = now\<rparr> (album_assets d)\<rparr>))"

definition remove_album_asset :: "env \<Rightarrow> ledger \<Rightarrow> user \<Rightarrow> uuid \<Rightarrow> uuid \<Rightarrow> db \<Rightarrow> (exn + unit) \<times> db" where
  "remove_album_asset e l u i asset_id d =
     (case with_role e l i (u_id u) ''editor'' d of
        Inl x \<Rightarrow> (Inl x, d)
      | Inr _ \<Rightarrow> (Inr (), d\<lparr>album_assets := sql_delete (\<lambda>x. aa_album_id x = i \<and> aa_asset_id x = asset_id) (album_assets d)\<rparr>))"

definition album_time :: "asset \<Rightarrow> time" where
  "album_time a = (case a_taken_at a of Some t \<Rightarrow> t | None \<Rightarrow> a_created_at a)"

definition album_contents :: "uuid \<Rightarrow> db \<Rightarrow> asset list" where
  "album_contents i d = sort_key (\<lambda>a. - album_time a)
     (filter (\<lambda>a. a_lifecycle_state a = Active \<and> list_ex (\<lambda>x. aa_album_id x = i \<and> aa_asset_id x = a_id a) (album_assets d)) (assets d))"

definition list_album_assets :: "env \<Rightarrow> ledger \<Rightarrow> user \<Rightarrow> uuid \<Rightarrow> db \<Rightarrow> exn + asset list" where
  "list_album_assets e l u i d =
     sbind (with_role e l i (u_id u) ''viewer'' d) (\<lambda>_. visible_rows e l a_user_id (album_contents i d))"

record album_view =
  av_album :: album
  av_asset_count :: nat
  av_role :: string
  av_cover :: "uuid option"

text \<open>The cover is the newest active asset that has a thumbnail, unless its account is suppressed.\<close>

definition album_cover :: "env \<Rightarrow> ledger \<Rightarrow> uuid \<Rightarrow> db \<Rightarrow> exn + uuid option" where
  "album_cover e l i d =
     (case album_contents i d of
        [] \<Rightarrow> Inr None
      | a # _ \<Rightarrow> sbind (is_suppressed e l (a_user_id a)) (\<lambda>gone.
          Inr (if gone \<or> a_thumbnail_path a \<in> {None, Some []} then None else Some (a_id a))))"

fun album_views :: "env \<Rightarrow> ledger \<Rightarrow> uuid \<Rightarrow> album list \<Rightarrow> db \<Rightarrow> exn + album_view list" where
  "album_views e l uid [] d = Inr []"
| "album_views e l uid (x # xs) d =
     sbind (album_role e l (al_id x) uid d) (\<lambda>access.
       case access of
         None \<Rightarrow> album_views e l uid xs d
       | Some (_, r) \<Rightarrow>
           sbind (album_cover e l (al_id x) d) (\<lambda>cover.
           sbind (album_views e l uid xs d) (\<lambda>rest.
             Inr (\<lparr>av_album = x, av_asset_count = album_asset_count (al_id x) d, av_role = r, av_cover = cover\<rparr> # rest))))"

definition list_albums :: "env \<Rightarrow> ledger \<Rightarrow> user \<Rightarrow> db \<Rightarrow> exn + album_view list" where
  "list_albums e l u d = album_views e l (u_id u) (sort_key (\<lambda>x. - al_created_at x)
     (filter (\<lambda>x. al_user_id x = u_id u \<or> find_member (al_id x) (u_id u) d \<noteq> None) (albums d))) d"

section \<open>Members and invitations\<close>

record invite_sent =
  is_mail :: "string \<times> string \<times> string"
  is_development_url :: "string option"

definition invite_url :: "env \<Rightarrow> string \<Rightarrow> string" where
  "invite_url e token = rstrip_slash (app_url (cfg e)) @ ''/albums/invite/'' @ token"

text \<open>The body of the request admits the roles viewer and editor only.  The row is committed before the mail is
  sent; \<open>mail_fails\<close> tells whether the server rejects it.\<close>

definition invite_album_member ::
  "env \<Rightarrow> ledger \<Rightarrow> time \<Rightarrow> user \<Rightarrow> uuid \<Rightarrow> string \<Rightarrow> string \<Rightarrow> uuid \<times> string \<Rightarrow> bool \<Rightarrow> db \<Rightarrow> (exn + invite_sent) \<times> db" where
  "invite_album_member e l now u i email r fresh mail_fails d =
     (if r \<noteq> ''viewer'' \<and> r \<noteq> ''editor'' then (Inl (HTTPException 422 ''role''), d)
      else case with_role e l i (u_id u) ''owner'' d of
        Inl x \<Rightarrow> (Inl x, d)
      | Inr (x, _) \<Rightarrow>
          (let row = \<lparr>ai_id = fst fresh, ai_album_id = i, ai_email = lower (strip email), ai_role = r,
                 ai_token_hash = token_digest e (snd fresh), ai_invited_by = u_id u, ai_expires_at = now + days 7,
                 ai_accepted_at = None\<rparr>
           in if list_ex (\<lambda>y. ai_id y = ai_id row \<or> ai_token_hash y = ai_token_hash row) (album_invites d) then (Inl IntegrityError, d)
              else
                (let d = d\<lparr>album_invites := sql_insert row (album_invites d)\<rparr>; url = invite_url e (snd fresh) in
                 if mail_fails \<and> email_delivery_mode (cfg e) = ''smtp'' then (Inl (OSError ''smtp''), d)
                 else (Inr \<lparr>is_mail = (email, ''You're invited to '' @ al_name x,
                         ''Open this link to join the Drivebound album:'' @ [CHR 0x0A, CHR 0x0A] @ url),
                       is_development_url = (if email_delivery_mode (cfg e) = ''console'' then Some url else None)\<rparr>, d))))"

definition invalid_invitation :: exn where
  "invalid_invitation = HTTPException 400 ''Invitation is invalid or expired''"

definition usable_invite :: "env \<Rightarrow> time \<Rightarrow> string \<Rightarrow> album_invite \<Rightarrow> bool" where
  "usable_invite e now token x \<longleftrightarrow> ai_token_hash x = token_digest e token \<and> ai_accepted_at x = None \<and> ai_expires_at x > now"

definition accept_album_invite :: "env \<Rightarrow> ledger \<Rightarrow> time \<Rightarrow> user \<Rightarrow> string \<Rightarrow> db \<Rightarrow> (exn + unit) \<times> db" where
  "accept_album_invite e l now u token d =
     (case sql_first (usable_invite e now token) (album_invites d) of
        None \<Rightarrow> (Inl invalid_invitation, d)
      | Some x \<Rightarrow>
          (case find_album (ai_album_id x) d of
             None \<Rightarrow> (Inl invalid_invitation, d)
           | Some y \<Rightarrow>
               (case sbind (is_suppressed e l (al_user_id y)) (\<lambda>gone. if gone then Inr True else is_suppressed e l (ai_invited_by x)) of
                  Inl z \<Rightarrow> (Inl z, d)
                | Inr True \<Rightarrow> (Inl invalid_invitation, d)
                | Inr False \<Rightarrow>
                    if lower (ai_email x) \<noteq> lower (u_email u) then (Inl (HTTPException 403 ''Sign in with the invited email address''), d)
                    else (Inr (), d\<lparr>
                      album_members := (if find_member (ai_album_id x) (u_id u) d = None
                        then sql_insert \<lparr>am_album_id = ai_album_id x, am_user_id = u_id u, am_role = ai_role x,
                               am_invited_by = Some (ai_invited_by x), am_joined_at = now\<rparr> (album_members d)
                        else album_members d),
                      album_invites := sql_update (\<lambda>z. ai_id z = ai_id x) (\<lambda>z. z\<lparr>ai_accepted_at := Some now\<rparr>) (album_invites d)\<rparr>))))"

record member_view =
  mv_user_id :: uuid
  mv_email :: string
  mv_display_name :: "string option"
  mv_role :: string
  mv_joined_at :: "time option"

definition joined_members :: "uuid \<Rightarrow> db \<Rightarrow> (album_member \<times> user) list" where
  "joined_members i d = concat (map (\<lambda>m. if am_album_id m = i
     then map (Pair m) (filter (\<lambda>v. u_id v = am_user_id m) (users d)) else []) (album_members d))"

definition list_album_members :: "env \<Rightarrow> ledger \<Rightarrow> user \<Rightarrow> uuid \<Rightarrow> db \<Rightarrow> exn + member_view list" where
  "list_album_members e l u i d =
     sbind (with_role e l i (u_id u) ''viewer'' d) (\<lambda>(x, _).
       case find_user d (al_user_id x) of
         None \<Rightarrow> Inl (AttributeError ''email'')
       | Some w \<Rightarrow>
           sbind (visible_rows e l (am_user_id \<circ> fst) (joined_members i d)) (\<lambda>rows.
             Inr (\<lparr>mv_user_id = al_user_id x, mv_email = u_email w, mv_display_name = u_display_name w, mv_role = ''owner'',
                   mv_joined_at = None\<rparr>
               # map (\<lambda>(m, v). \<lparr>mv_user_id = am_user_id m, mv_email = u_email v, mv_display_name = u_display_name v,
                   mv_role = am_role m, mv_joined_at = Some (am_joined_at m)\<rparr>) rows)))"

definition remove_album_member :: "env \<Rightarrow> ledger \<Rightarrow> user \<Rightarrow> uuid \<Rightarrow> uuid \<Rightarrow> db \<Rightarrow> (exn + unit) \<times> db" where
  "remove_album_member e l u i member_id d =
     (case with_role e l i (u_id u) ''owner'' d of
        Inl x \<Rightarrow> (Inl x, d)
      | Inr _ \<Rightarrow> (Inr (), d\<lparr>album_members := sql_delete (\<lambda>m. am_album_id m = i \<and> am_user_id m = member_id) (album_members d)\<rparr>))"

section \<open>Reading an asset\<close>

definition in_readable_album :: "uuid \<Rightarrow> uuid \<Rightarrow> db \<Rightarrow> bool" where
  "in_readable_album uid asset_id d \<longleftrightarrow>
     list_ex (\<lambda>x. aa_asset_id x = asset_id \<and>
       list_ex (\<lambda>y. al_id y = aa_album_id x \<and>
         (al_user_id y = uid \<or> list_ex (\<lambda>m. am_album_id m = al_id y \<and> am_user_id m = uid) (album_members d))) (albums d))
     (album_assets d)"

definition readable_asset :: "env \<Rightarrow> ledger \<Rightarrow> uuid \<Rightarrow> uuid \<Rightarrow> db \<Rightarrow> exn + asset option" where
  "readable_asset e l uid asset_id d =
     (case sql_first (\<lambda>a. a_id a = asset_id \<and> a_lifecycle_state a = Active \<and>
             (a_user_id a = uid \<or> in_readable_album uid asset_id d)) (assets d) of
        None \<Rightarrow> Inr None
      | Some a \<Rightarrow> sbind (is_suppressed e l (a_user_id a)) (\<lambda>gone. Inr (if gone then None else Some a)))"

definition get_asset :: "env \<Rightarrow> ledger \<Rightarrow> user \<Rightarrow> uuid \<Rightarrow> db \<Rightarrow> exn + asset" where
  "get_asset e l u i d = sbind (readable_asset e l (u_id u) i d) (\<lambda>a.
     case a of None \<Rightarrow> Inl (HTTPException 404 ''Asset not found'') | Some a \<Rightarrow> Inr a)"

section \<open>Delivery\<close>

text \<open>The pieces sent to the client and how the sending ends; the last piece of a file is the whole file.\<close>

record media_stream =
  ms_media_type :: string
  ms_disposition :: "(string \<times> string) option"
  ms_length :: "int option"
  ms_pieces :: "bytes list"
  ms_end :: "exn + unit"

definition safe_filename :: "string \<Rightarrow> string" where
  "safe_filename s = (let t = filter (\<lambda>c. of_char c \<ge> (32 :: nat) \<and> of_char c \<noteq> (127 :: nat)) s
     in if t = [] then ''download'' else t)"

definition media_response ::
  "env \<Rightarrow> asset \<Rightarrow> user \<Rightarrow> string \<Rightarrow> string \<Rightarrow> string option \<Rightarrow> string \<Rightarrow> fs \<Rightarrow> exn + media_stream" where
  "media_response e a owner path media_type filename disposition f =
     (let named = (case filename of Some s \<Rightarrow> s \<noteq> [] | None \<Rightarrow> False);
          header = (if named then Some (disposition, safe_filename (the filename)) else None)
      in if a_encryption_version a = 0
         then sbind (read_bytes e f path) (\<lambda>b. Inr \<lparr>ms_media_type = media_type, ms_disposition = header,
                ms_length = Some (int (length b)), ms_pieces = [b], ms_end = Inr ()\<rparr>)
         else sbind (user_media_key e owner) (\<lambda>key.
           let (cs, r) = iter_decrypted_chunks e path key f
           in Inr \<lparr>ms_media_type = media_type, ms_disposition = header,
                ms_length = (if named \<and> media_type = a_mime_type a then Some (a_file_size a) else None),
                ms_pieces = cs, ms_end = r\<rparr>))"

definition original_path_of :: "env \<Rightarrow> fs \<Rightarrow> asset \<Rightarrow> exn + string" where
  "original_path_of e f a =
     (if a_storage_source a = ''external'' then validated_external_path e f (a_original_path a)
      else validated_storage_path e f (a_original_path a) (originals_path (cfg e)))"

definition owner_of :: "user \<Rightarrow> asset \<Rightarrow> db \<Rightarrow> user option" where
  "owner_of u a d = (if a_user_id a = u_id u then Some u else find_user d (a_user_id a))"

definition get_original :: "env \<Rightarrow> ledger \<Rightarrow> user \<Rightarrow> uuid \<Rightarrow> db \<Rightarrow> fs \<Rightarrow> exn + media_stream" where
  "get_original e l u i d f =
     sbind (get_asset e l u i d) (\<lambda>a.
     sbind (original_path_of e f a) (\<lambda>path.
       let gone = Inl (HTTPException 404 ''Original file is unavailable'') in
       if \<not> is_file e f path then gone
       else case owner_of u a d of
         None \<Rightarrow> gone
       | Some w \<Rightarrow> media_response e a w path (a_mime_type a) (a_original_filename a) ''inline'' f))"

definition get_thumbnail :: "env \<Rightarrow> ledger \<Rightarrow> user \<Rightarrow> uuid \<Rightarrow> db \<Rightarrow> fs \<Rightarrow> exn + media_stream" where
  "get_thumbnail e l u i d f =
     (let gone = Inl (HTTPException 404 ''Thumbnail is not available'') in
      sbind (readable_asset e l (u_id u) i d) (\<lambda>found.
        case Option.bind found (\<lambda>a. map_option (Pair a) (a_thumbnail_path a)) of
          None \<Rightarrow> gone
        | Some (a, thumbnail) \<Rightarrow>
            sbind (validated_storage_path e f thumbnail (derivatives_path (cfg e))) (\<lambda>path.
              if \<not> is_file e f path then gone
              else case owner_of u a d of
                None \<Rightarrow> gone
              | Some w \<Rightarrow> media_response e a w path ''image/webp'' None ''inline'' f)))"

section \<open>Public links\<close>

definition resolve_share :: "env \<Rightarrow> ledger \<Rightarrow> time \<Rightarrow> string \<Rightarrow> string option \<Rightarrow> db \<Rightarrow> exn + share \<times> asset" where
  "resolve_share e l now token password d =
     (case sql_first (\<lambda>s. sh_token_hash s = token_digest e token) (shares d) of
        None \<Rightarrow> Inl (HTTPException 404 ''Share not found'')
      | Some s \<Rightarrow>
          sbind (reject_suppressed_account e l (sh_user_id s)) (\<lambda>_.
            if (case sh_expires_at s of None \<Rightarrow> False | Some t \<Rightarrow> t \<le> now) then Inl (HTTPException 410 ''Share has expired'')
            else if truthy (sh_password_hash s) \<and>
                    (\<not> truthy password \<or> \<not> check_password e (the password) (the (sh_password_hash s)))
            then Inl (HTTPException 401 ''Share password is required or incorrect'')
            else case sql_first (\<lambda>a. a_id a = sh_asset_id s) (assets d) of
              None \<Rightarrow> Inl (HTTPException 404 ''Shared asset not found'')
            | Some a \<Rightarrow> if a_lifecycle_state a \<noteq> Active then Inl (HTTPException 404 ''Shared asset not found'') else Inr (s, a)))"

definition create_share ::
  "env \<Rightarrow> time \<Rightarrow> user \<Rightarrow> uuid \<Rightarrow> string option \<Rightarrow> bool \<Rightarrow> int option \<Rightarrow> uuid \<times> string \<Rightarrow> string \<Rightarrow> db \<Rightarrow> (exn + share \<times> string) \<times> db" where
  "create_share e now u asset_id password allow_download expires_in_hours fresh salt d =
     (case sql_first (\<lambda>a. a_id a = asset_id \<and> a_user_id a = u_id u \<and> a_lifecycle_state a = Active) (assets d) of
        None \<Rightarrow> (Inl (HTTPException 404 ''Asset not found''), d)
      | Some a \<Rightarrow>
          (let s = \<lparr>sh_id = fst fresh, sh_user_id = u_id u, sh_asset_id = asset_id, sh_token_hash = token_digest e (snd fresh),
                 sh_password_hash = (if truthy password then Some (kdf e salt (the password)) else None),
                 sh_allow_download = allow_download,
                 sh_expires_at = (case expires_in_hours of None \<Rightarrow> None | Some h \<Rightarrow> if h = 0 then None else Some (now + hours h)),
                 sh_created_at = now\<rparr>
           in if list_ex (\<lambda>x. sh_id x = sh_id s \<or> sh_token_hash x = sh_token_hash s) (shares d) then (Inl IntegrityError, d)
              else (Inr (s, rstrip_slash (app_url (cfg e)) @ ''/share/'' @ snd fresh), d\<lparr>shares := sql_insert s (shares d)\<rparr>)))"

record public_share =
  ps_asset_id :: uuid
  ps_filename :: "string option"
  ps_mime_type :: string
  ps_created_at :: time
  ps_expires_at :: "time option"
  ps_password_required :: bool
  ps_allow_download :: bool
  ps_content_url :: string

definition public_share :: "env \<Rightarrow> ledger \<Rightarrow> time \<Rightarrow> string \<Rightarrow> string option \<Rightarrow> db \<Rightarrow> exn + public_share" where
  "public_share e l now token password d =
     sbind (resolve_share e l now token password d) (\<lambda>(s, a). Inr
       \<lparr>ps_asset_id = a_id a, ps_filename = a_original_filename a, ps_mime_type = a_mime_type a, ps_created_at = a_created_at a,
        ps_expires_at = sh_expires_at s, ps_password_required = (sh_password_hash s \<noteq> None), ps_allow_download = sh_allow_download s,
        ps_content_url = ''/api/v1/shares/public/'' @ token @ ''/content''\<rparr>)"

definition public_share_content ::
  "env \<Rightarrow> ledger \<Rightarrow> time \<Rightarrow> string \<Rightarrow> string option \<Rightarrow> db \<Rightarrow> fs \<Rightarrow> exn + media_stream" where
  "public_share_content e l now token password d f =
     sbind (resolve_share e l now token password d) (\<lambda>(s, a).
     sbind (original_path_of e f a) (\<lambda>path.
       let gone = Inl (HTTPException 404 ''Shared file is unavailable'') in
       if \<not> is_file e f path then gone
       else case find_user d (a_user_id a) of
         None \<Rightarrow> gone
       | Some w \<Rightarrow> media_response e a w path (a_mime_type a) (a_original_filename a)
           (if sh_allow_download s then ''attachment'' else ''inline'') f))"

end
