(* ===== verification/SharingSafety.thy ===== *)
theory SharingSafety
  imports Sharing
begin

text \<open>
  What sharing guarantees over any sequence of requests by any accounts: an asset its owner has not shared stays
  private, members of an album were invited by its owner under their own address, an invitation is accepted at
  most once; and what was ingested can be downloaded.
\<close>

section \<open>Requests\<close>

datatype sharing_call =
    CreateAlbum uuid string "string option"
  | UpdateAlbum uuid "string option" "string option option"
  | DeleteAlbum uuid
  | AddAlbumAsset uuid uuid
  | RemoveAlbumAsset uuid uuid
  | InviteMember uuid string string "uuid \<times> string" bool
  | AcceptInvite string
  | RemoveMember uuid uuid
  | CreateShare uuid "string option" bool "int option" "uuid \<times> string" string

text \<open>Who makes the request and when.\<close>

type_synonym sharing_request = "time \<times> uuid \<times> sharing_call"

definition done_with :: "(exn + 'a) \<times> db \<Rightarrow> (exn + unit) \<times> db" where
  "done_with r = (case r of (Inl x, d) \<Rightarrow> (Inl x, d) | (Inr _, d) \<Rightarrow> (Inr (), d))"

fun sharing_handler :: "env \<Rightarrow> ledger \<Rightarrow> time \<Rightarrow> user \<Rightarrow> sharing_call \<Rightarrow> db \<Rightarrow> (exn + unit) \<times> db" where
  "sharing_handler e l now u (CreateAlbum i name description) d = done_with (create_album now i u name description d)"
| "sharing_handler e l now u (UpdateAlbum i name description) d = done_with (update_album e l u i name description d)"
| "sharing_handler e l now u (DeleteAlbum i) d = delete_album u i d"
| "sharing_handler e l now u (AddAlbumAsset i a) d = add_album_asset e l now u i a d"
| "sharing_handler e l now u (RemoveAlbumAsset i a) d = remove_album_asset e l u i a d"
| "sharing_handler e l now u (InviteMember i email r fresh mf) d = done_with (invite_album_member e l now u i email r fresh mf d)"
| "sharing_handler e l now u (AcceptInvite token) d = accept_album_invite e l now u token d"
| "sharing_handler e l now u (RemoveMember i m) d = remove_album_member e l u i m d"
| "sharing_handler e l now u (CreateShare a password dl h fresh salt) d = done_with (create_share e now u a password dl h fresh salt d)"

definition sharing_perform :: "env \<Rightarrow> ledger \<Rightarrow> sharing_request \<Rightarrow> db \<Rightarrow> (exn + unit) \<times> db" where
  "sharing_perform e l q d = (case q of (now, uid, call) \<Rightarrow>
     case find_user d uid of
       None \<Rightarrow> (Inl (HTTPException 401 ''Authentication required''), d)
     | Some u \<Rightarrow> sharing_handler e l now u call d)"

definition sharing_run :: "env \<Rightarrow> ledger \<Rightarrow> sharing_request list \<Rightarrow> db \<Rightarrow> db" where
  "sharing_run e l qs d = fold (\<lambda>q d. snd (sharing_perform e l q d)) qs d"

lemma snd_done_with [simp]: "snd (done_with r) = snd r"
  by (auto simp: done_with_def split: prod.splits sum.splits)

lemma fst_done_with: "fst (done_with r) = Inr v \<longleftrightarrow> (\<exists>x. fst r = Inr x)"
  by (auto simp: done_with_def split: prod.splits sum.splits)

lemma find_user_id: "find_user d i = Some u \<Longrightarrow> u_id u = i \<and> u \<in> set (users d)"
  by (auto simp: find_user_def)

text \<open>A request leaves the accounts and the assets alone.\<close>

lemma sharing_frame:
  "users (snd (sharing_perform e l q d)) = users d" "assets (snd (sharing_perform e l q d)) = assets d"
proof -
  obtain now uid call where q: "q = (now, uid, call)" by (rule prod_cases3)
  have "users (snd (sharing_perform e l q d)) = users d \<and> assets (snd (sharing_perform e l q d)) = assets d"
    by (cases call)
      (auto simp: q sharing_perform_def create_album_def update_album_def delete_album_def add_album_asset_def remove_album_asset_def
        invite_album_member_def accept_album_invite_def remove_album_member_def create_share_def Let_def
        split: option.splits sum.splits prod.splits bool.splits)
  then show "users (snd (sharing_perform e l q d)) = users d" "assets (snd (sharing_perform e l q d)) = assets d" by simp_all
qed

section \<open>What is not shared stays private\<close>

definition unshared :: "uuid \<Rightarrow> uuid \<Rightarrow> db \<Rightarrow> bool" where
  "unshared i w d \<longleftrightarrow> (\<forall>a \<in> set (assets d). a_id a = i \<longrightarrow> a_user_id a = w) \<and>
     (\<forall>x \<in> set (album_assets d). aa_asset_id x \<noteq> i) \<and> (\<forall>s \<in> set (shares d). sh_asset_id s \<noteq> i)"

text \<open>The two requests that give access to the asset.\<close>

definition shares_asset :: "uuid \<Rightarrow> uuid \<Rightarrow> sharing_request \<Rightarrow> bool" where
  "shares_asset i w q \<longleftrightarrow> (case q of (now, uid, call) \<Rightarrow> uid = w \<and>
     (case call of AddAlbumAsset x a \<Rightarrow> a = i | CreateShare a p dl h fr s \<Rightarrow> a = i | _ \<Rightarrow> False))"

lemma unshared_step:
  assumes "unshared i w d" "\<not> shares_asset i w q"
  shows "unshared i w (snd (sharing_perform e l q d))"
proof -
  obtain now uid call where q: "q = (now, uid, call)" by (rule prod_cases3)
  show ?thesis
  proof (cases "find_user d uid")
    case None
    with assms(1) q show ?thesis by (simp add: sharing_perform_def)
  next
    case (Some u)
    note u = find_user_id [OF Some]
    show ?thesis
    proof (cases call)
      case (AddAlbumAsset x a)
      have "a \<noteq> i \<or> u_id u \<noteq> w" using assms(2) AddAlbumAsset u by (auto simp: q shares_asset_def)
      then have "a \<noteq> i \<or> sql_first (\<lambda>b. a_id b = a \<and> a_user_id b = u_id u) (assets d) = None"
        using assms(1) by (auto simp: unshared_def sql_first_None)
      then show ?thesis
        using assms(1) AddAlbumAsset Some by (auto simp: q sharing_perform_def add_album_asset_def unshared_def set_sql_insert split: sum.splits)
    next
      case (CreateShare a p dl h fr s)
      have "a \<noteq> i \<or> u_id u \<noteq> w" using assms(2) CreateShare u by (auto simp: q shares_asset_def)
      then have "a \<noteq> i \<or> sql_first (\<lambda>b. a_id b = a \<and> a_user_id b = u_id u \<and> a_lifecycle_state b = Active) (assets d) = None"
        using assms(1) by (auto simp: unshared_def sql_first_None)
      then show ?thesis
        using assms(1) CreateShare Some
        by (auto simp: q sharing_perform_def create_share_def unshared_def set_sql_insert Let_def split: option.splits)
    qed (use assms(1) Some in \<open>auto simp: q sharing_perform_def create_album_def update_album_def delete_album_def remove_album_asset_def
        invite_album_member_def accept_album_invite_def remove_album_member_def unshared_def set_sql_delete Let_def
        split: option.splits sum.splits prod.splits bool.splits\<close>)
  qed
qed

text \<open>C22: An asset its owner has not shared stays private.  If no album holds the asset and no link leads to it,
  then after any sequence of requests by any accounts, in which its owner neither adds it to an album nor makes a
  link to it, no other account can read it or its bytes and no link resolves to it.\<close>

theorem unshared_stays_private:
  assumes "unshared i w d" "\<forall>q \<in> set qs. \<not> shares_asset i w q" "u_id u \<noteq> w"
  shows "(\<forall>a. get_asset e l u i (sharing_run e l qs d) \<noteq> Inr a) \<and>
     (\<forall>m. get_original e l u i (sharing_run e l qs d) f \<noteq> Inr m) \<and>
     (\<forall>token password s a. resolve_share e l now token password (sharing_run e l qs d) = Inr (s, a) \<longrightarrow> a_id a \<noteq> i)"
proof -
  have "unshared i w (sharing_run e l qs d)"
    using assms(1,2) unfolding sharing_run_def
    by (induction qs arbitrary: d) (auto intro: unshared_step)
  then have safe: "unshared i w (sharing_run e l qs d)" .
  let ?d = "sharing_run e l qs d"
  have "\<not> in_readable_album (u_id u) i ?d" using safe by (auto simp: in_readable_album_def unshared_def list_ex_iff)
  then have "sql_first (\<lambda>a. a_id a = i \<and> a_lifecycle_state a = Active \<and> (a_user_id a = u_id u \<or> in_readable_album (u_id u) i ?d)) (assets ?d) = None"
    using safe assms(3) by (auto simp: sql_first_None unshared_def)
  then have no: "get_asset e l u i ?d = Inl (HTTPException 404 ''Asset not found'')"
    by (simp add: get_asset_def readable_asset_def)
  moreover have "get_original e l u i ?d f \<noteq> Inr m" for m by (simp add: get_original_def no)
  moreover have "a_id a \<noteq> i" if "resolve_share e l now token password ?d = Inr (s, a)" for token password s a
  proof -
    from that have "s \<in> set (shares ?d)" "a_id a = sh_asset_id s"
      by (auto simp: resolve_share_def sbind_Inr_iff split: option.splits if_splits)
    with safe show ?thesis by (auto simp: unshared_def)
  qed
  ultimately show ?thesis by simp
qed

section \<open>An invitation is accepted once\<close>

fun accepts_invite :: "env \<Rightarrow> sharing_request \<Rightarrow> string option" where
  "accepts_invite e (now, uid, AcceptInvite token) = Some (token_digest e token)"
| "accepts_invite e _ = None"

fun sends_invite :: "env \<Rightarrow> sharing_request \<Rightarrow> string \<Rightarrow> bool" where
  "sends_invite e (now, uid, InviteMember i email r fresh mf) k \<longleftrightarrow> k = token_digest e (snd fresh)"
| "sends_invite e _ k \<longleftrightarrow> False"

definition open_invite :: "string \<Rightarrow> db \<Rightarrow> bool" where
  "open_invite k d \<longleftrightarrow> (\<exists>x \<in> set (album_invites d). ai_token_hash x = k \<and> ai_accepted_at x = None)"

definition invites_ok :: "db \<Rightarrow> bool" where
  "invites_ok d \<longleftrightarrow> distinct (map ai_id (album_invites d)) \<and> distinct (map ai_token_hash (album_invites d))"

text \<open>What a request does to the table of invitations.\<close>

lemma invites_cases:
  assumes "snd (sharing_perform e l (now, uid, call) d) = d'"
  obtains (same) "album_invites d' = album_invites d"
  | (deleted) i where "album_invites d' = sql_delete (\<lambda>x. ai_album_id x = i) (album_invites d)"
  | (sent) x i email r fresh mf where "call = InviteMember i email r fresh mf" "ai_token_hash x = token_digest e (snd fresh)"
      "ai_accepted_at x = None" "\<forall>y \<in> set (album_invites d). ai_id y \<noteq> ai_id x \<and> ai_token_hash y \<noteq> ai_token_hash x"
      "album_invites d' = sql_insert x (album_invites d)"
  | (accepted) x token where "call = AcceptInvite token" "x \<in> set (album_invites d)" "usable_invite e now token x"
      "album_invites d' = sql_update (\<lambda>z. ai_id z = ai_id x) (\<lambda>z. z\<lparr>ai_accepted_at := Some now\<rparr>) (album_invites d)"
proof (cases "find_user d uid")
  case None
  with assms same show ?thesis by (simp add: sharing_perform_def)
next
  case (Some u)
  show ?thesis
  proof (cases call)
    case (DeleteAlbum i)
    with assms Some same deleted [of i] show ?thesis by (auto simp: sharing_perform_def delete_album_def split: option.splits)
  next
    case (InviteMember i email r fresh mf)
    let ?row = "\<lparr>ai_id = fst fresh, ai_album_id = i, ai_email = lower (strip email), ai_role = r,
        ai_token_hash = token_digest e (snd fresh), ai_invited_by = u_id u, ai_expires_at = now + days 7, ai_accepted_at = None\<rparr>"
    from assms Some InviteMember have "album_invites d' = album_invites d \<or>
        ((\<forall>y \<in> set (album_invites d). ai_id y \<noteq> ai_id ?row \<and> ai_token_hash y \<noteq> ai_token_hash ?row) \<and>
         album_invites d' = sql_insert ?row (album_invites d))"
      by (auto simp: sharing_perform_def invite_album_member_def Let_def list_ex_iff split: sum.splits prod.splits if_splits)
    with same sent [of i email r fresh mf ?row] InviteMember show ?thesis by auto
  next
    case (AcceptInvite token)
    from assms Some AcceptInvite have "album_invites d' = album_invites d \<or> (\<exists>x. sql_first (usable_invite e now token) (album_invites d) = Some x \<and>
        album_invites d' = sql_update (\<lambda>z. ai_id z = ai_id x) (\<lambda>z. z\<lparr>ai_accepted_at := Some now\<rparr>) (album_invites d))"
      by (auto simp: sharing_perform_def accept_album_invite_def split: option.splits sum.splits bool.splits if_splits)
    with same accepted [of token] AcceptInvite show ?thesis by auto
  qed (use assms Some same in \<open>auto simp: sharing_perform_def create_album_def update_album_def add_album_asset_def remove_album_asset_def
        remove_album_member_def create_share_def Let_def split: option.splits sum.splits prod.splits\<close>)
qed

lemma accepted_invite:
  assumes "fst (sharing_perform e l (now, uid, AcceptInvite token) d) = Inr v"
  obtains x where "x \<in> set (album_invites d)" "usable_invite e now token x"
    "album_invites (snd (sharing_perform e l (now, uid, AcceptInvite token) d))
       = sql_update (\<lambda>z. ai_id z = ai_id x) (\<lambda>z. z\<lparr>ai_accepted_at := Some now\<rparr>) (album_invites d)"
  using assms that
  by (auto simp: sharing_perform_def accept_album_invite_def split: option.splits sum.splits bool.splits if_splits)

lemma invites_ok_step:
  assumes "invites_ok d"
  shows "invites_ok (snd (sharing_perform e l q d))"
proof -
  obtain now uid call where q: "q = (now, uid, call)" by (rule prod_cases3)
  let ?d = "snd (sharing_perform e l (now, uid, call) d)"
  have "invites_ok ?d"
  proof (rule invites_cases [OF refl, of e l now uid call d])
    assume "album_invites ?d = album_invites d"
    with assms show ?thesis by (simp add: invites_ok_def)
  next
    fix i assume "album_invites ?d = sql_delete (\<lambda>x. ai_album_id x = i) (album_invites d)"
    with assms show ?thesis by (simp add: invites_ok_def distinct_map_sql_delete)
  next
    fix x :: album_invite
    assume "\<forall>y \<in> set (album_invites d). ai_id y \<noteq> ai_id x \<and> ai_token_hash y \<noteq> ai_token_hash x"
      "album_invites ?d = sql_insert x (album_invites d)"
    with assms show ?thesis by (auto simp: invites_ok_def distinct_map_sql_insert)
  next
    fix x assume "album_invites ?d = sql_update (\<lambda>z. ai_id z = ai_id x) (\<lambda>z. z\<lparr>ai_accepted_at := Some now\<rparr>) (album_invites d)"
    with assms show ?thesis by (simp add: invites_ok_def map_sql_update)
  qed
  with q show ?thesis by simp
qed

lemma closed_invite_step:
  assumes "\<not> open_invite k d" "\<not> sends_invite e q k"
  shows "\<not> open_invite k (snd (sharing_perform e l q d))"
proof -
  obtain now uid call where q: "q = (now, uid, call)" by (rule prod_cases3)
  let ?d = "snd (sharing_perform e l (now, uid, call) d)"
  have "\<not> open_invite k ?d"
  proof (rule invites_cases [OF refl, of e l now uid call d])
    assume "album_invites ?d = album_invites d"
    with assms show ?thesis by (simp add: open_invite_def)
  next
    fix i assume "album_invites ?d = sql_delete (\<lambda>x. ai_album_id x = i) (album_invites d)"
    with assms show ?thesis by (auto simp: open_invite_def set_sql_delete)
  next
    fix x :: album_invite and i email r fresh mf
    assume "call = InviteMember i email r fresh mf" "ai_token_hash x = token_digest e (snd fresh)" "album_invites ?d = sql_insert x (album_invites d)"
    with assms q show ?thesis by (auto simp: open_invite_def set_sql_insert)
  next
    fix x assume "album_invites ?d = sql_update (\<lambda>z. ai_id z = ai_id x) (\<lambda>z. z\<lparr>ai_accepted_at := Some now\<rparr>) (album_invites d)"
    with assms show ?thesis by (auto simp: open_invite_def set_sql_update split: if_splits)
  qed
  with q show ?thesis by simp
qed

interpretation invitations: single_use "sharing_perform e l" "accepts_invite e" "sends_invite e" open_invite invites_ok for e l
proof
  fix d q k v
  assume ok: "invites_ok d" and spend: "accepts_invite e q = Some k" and res: "fst (sharing_perform e l q d) = Inr v"
  obtain now uid token where q: "q = (now, uid, AcceptInvite token)" "k = token_digest e token"
    using spend by (cases "(e, q)" rule: accepts_invite.cases) auto
  from res obtain x where x: "x \<in> set (album_invites d)" "usable_invite e now token x"
    "album_invites (snd (sharing_perform e l q d))
       = sql_update (\<lambda>z. ai_id z = ai_id x) (\<lambda>z. z\<lparr>ai_accepted_at := Some now\<rparr>) (album_invites d)"
    unfolding q(1) by (rule accepted_invite)
  then show "open_invite k d" using q(2) by (auto simp: open_invite_def usable_invite_def)
  show "\<not> open_invite k (snd (sharing_perform e l q d))"
  proof
    assume "open_invite k (snd (sharing_perform e l q d))"
    then obtain y where y: "y \<in> set (album_invites d)" "ai_token_hash y = k" "ai_id y \<noteq> ai_id x"
      unfolding open_invite_def x(3) set_sql_update by (auto split: if_splits)
    have "ai_token_hash x = k" using x(2) q(2) by (simp add: usable_invite_def)
    with ok x(1) y(1,2) have "y = x" by (auto simp: invites_ok_def intro: key_unique)
    with y(3) show False by simp
  qed
next
  fix d k q assume "\<not> open_invite k d" "\<not> sends_invite e q k"
  then show "\<not> open_invite k (snd (sharing_perform e l q d))" by (rule closed_invite_step)
qed (rule invites_ok_step)

text \<open>An invitation is accepted at most once.  Over any sequence of sharing requests by any accounts, in
  which no new invitation is sent with the same secret, at most one acceptance with a given secret succeeds.\<close>

theorem invitation_accepted_once:
  assumes "invites_ok d" "\<forall>q \<in> set qs. \<not> sends_invite e q (token_digest e token)"
  shows "length (filter (\<lambda>(q, r). accepts_invite e q = Some (token_digest e token) \<and> \<not> isl r) (invitations.outcomes e l qs d)) \<le> 1"
  by (rule invitations.at_most_once [OF assms])


section \<open>Members were invited\<close>

text \<open>The invitation a membership rests on, and what holds of every invitation.\<close>

definition admits :: "db \<Rightarrow> album_member \<Rightarrow> album_invite \<Rightarrow> bool" where
  "admits d m x \<longleftrightarrow> ai_album_id x = am_album_id m \<and> ai_role x = am_role m \<and> ai_accepted_at x \<noteq> None \<and>
     (\<exists>v \<in> set (users d). u_id v = am_user_id m \<and> lower (u_email v) = lower (ai_email x))"

definition owners :: "db \<Rightarrow> (uuid \<times> uuid) set" where
  "owners d = (\<lambda>y. (al_id y, al_user_id y)) ` set (albums d)"

definition proper_invite :: "db \<Rightarrow> album_invite \<Rightarrow> bool" where
  "proper_invite d x \<longleftrightarrow> (ai_role x = ''viewer'' \<or> ai_role x = ''editor'') \<and>
     (ai_album_id x, ai_invited_by x) \<in> owners d"

definition memberships_ok :: "db \<Rightarrow> bool" where
  "memberships_ok d \<longleftrightarrow> (\<forall>m \<in> set (album_members d). \<exists>x \<in> set (album_invites d). admits d m x) \<and>
     (\<forall>x \<in> set (album_invites d). proper_invite d x)"

lemma admits_cong: "users d' = users d \<Longrightarrow> admits d' m x = admits d m x"
  by (simp add: admits_def)

lemma owner_rank: "role_rank r = Some n \<Longrightarrow> role_rank ''owner'' = Some k \<Longrightarrow> \<not> n < k \<Longrightarrow> r = ''owner''"
  by (auto simp: role_rank_def split: if_splits)

lemma require_owner: "require_role access ''owner'' = Inr (x, r) \<Longrightarrow> access = Some (x, ''owner'')"
  by (cases access) (auto simp: require_role_def split: option.splits if_splits dest: owner_rank)

lemma owner_role:
  assumes "with_role e l i uid ''owner'' d = Inr (x, r)" "\<forall>m \<in> set (album_members d). am_role m = ''viewer'' \<or> am_role m = ''editor''"
  shows "x \<in> set (albums d) \<and> al_id x = i \<and> al_user_id x = uid"
proof -
  have found: "album_role e l i uid d = Inr (Some (x, ''owner''))"
    using assms(1) by (auto simp: with_role_def sbind_Inr_iff dest: require_owner)
  then have "x \<in> set (albums d) \<and> al_id x = i"
    by (auto simp: album_role_def find_album_def sbind_Inr_iff split: option.splits if_splits)
  moreover have "al_user_id x = uid"
  proof (rule ccontr)
    assume "al_user_id x \<noteq> uid"
    with found obtain m where "find_member i uid d = Some m" "am_role m = ''owner''"
      by (auto simp: album_role_def sbind_Inr_iff split: option.splits if_splits)
    then have "m \<in> set (album_members d)" by (auto simp: find_member_def)
    with assms(2) \<open>am_role m = ''owner''\<close> show False by auto
  qed
  ultimately show ?thesis by simp
qed

lemma member_roles:
  assumes "memberships_ok d"
  shows "\<forall>m \<in> set (album_members d). am_role m = ''viewer'' \<or> am_role m = ''editor''"
  using assms unfolding memberships_ok_def admits_def proper_invite_def by metis


lemma proper_mono: "proper_invite d x \<Longrightarrow> owners d \<subseteq> owners d' \<Longrightarrow> proper_invite d' x"
  by (auto simp: proper_invite_def)

lemma memberships_same:
  assumes "memberships_ok d" "users d' = users d" "album_members d' = album_members d" "album_invites d' = album_invites d"
    "owners d \<subseteq> owners d'"
  shows "memberships_ok d'"
proof -
  have "proper_invite d' x" if "x \<in> set (album_invites d')" for x
    using that assms(1,4) proper_mono [OF _ assms(5), of x] by (simp add: memberships_ok_def)
  then show ?thesis using assms(1,3,4) by (simp add: memberships_ok_def admits_cong [OF assms(2)])
qed

lemma memberships_delete_album:
  assumes "memberships_ok d"
  shows "memberships_ok (snd (delete_album u i d))"
proof (cases "sql_first (\<lambda>x. al_id x = i \<and> al_user_id x = u_id u) (albums d)")
  case None
  with assms show ?thesis by (simp add: delete_album_def)
next
  case (Some y)
  let ?d = "snd (delete_album u i d)"
  have t: "set (album_members ?d) = {m \<in> set (album_members d). am_album_id m \<noteq> i}"
    "set (album_invites ?d) = {x \<in> set (album_invites d). ai_album_id x \<noteq> i}" "users ?d = users d"
    "owners ?d = {(a, b) \<in> owners d. a \<noteq> i}"
    by (auto simp: delete_album_def Some set_sql_delete owners_def)
  have "\<exists>x \<in> set (album_invites ?d). admits ?d m x" if m: "m \<in> set (album_members ?d)" for m
  proof -
    from m t(1) assms obtain x where x: "x \<in> set (album_invites d)" "admits d m x" by (auto simp: memberships_ok_def)
    then have "ai_album_id x \<noteq> i" using m t(1) by (simp add: admits_def)
    with x show ?thesis using t(2) admits_cong [OF t(3)] by auto
  qed
  moreover have "proper_invite ?d x" if "x \<in> set (album_invites ?d)" for x
    using that assms t(2,4) by (auto simp: memberships_ok_def proper_invite_def)
  ultimately show ?thesis by (simp add: memberships_ok_def)
qed

lemma invite_effect:
  assumes "memberships_ok d"
  shows "album_invites (snd (invite_album_member e l now u i email r fresh mf d)) = album_invites d \<or>
    (\<exists>x. (ai_role x = ''viewer'' \<or> ai_role x = ''editor'') \<and> (ai_album_id x, ai_invited_by x) \<in> owners d \<and>
       album_invites (snd (invite_album_member e l now u i email r fresh mf d)) = sql_insert x (album_invites d))"
proof (cases "r = ''viewer'' \<or> r = ''editor''")
  case False
  then show ?thesis by (simp add: invite_album_member_def)
next
  case True
  show ?thesis
  proof (cases "with_role e l i (u_id u) ''owner'' d")
    case (Inl x)
    with True show ?thesis by (simp add: invite_album_member_def)
  next
    case (Inr w)
    obtain x rl where w: "w = (x, rl)" by (rule prod.exhaust)
    let ?row = "\<lparr>ai_id = fst fresh, ai_album_id = i, ai_email = lower (strip email), ai_role = r,
        ai_token_hash = token_digest e (snd fresh), ai_invited_by = u_id u, ai_expires_at = now + days 7, ai_accepted_at = None\<rparr>"
    have "(i, u_id u) \<in> owners d"
      using owner_role [OF Inr [unfolded w] member_roles [OF assms]] by (auto simp: owners_def)
    moreover have "album_invites (snd (invite_album_member e l now u i email r fresh mf d)) \<in>
        {album_invites d, sql_insert ?row (album_invites d)}"
      using True Inr by (simp add: invite_album_member_def w Let_def)
    moreover have "ai_role ?row = r \<and> ai_album_id ?row = i \<and> ai_invited_by ?row = u_id u" by simp
    ultimately show ?thesis using True by (metis empty_iff insert_iff)
  qed
qed

lemma invite_frame:
  "users (snd (invite_album_member e l now u i email r fresh mf d)) = users d"
  "album_members (snd (invite_album_member e l now u i email r fresh mf d)) = album_members d"
  "albums (snd (invite_album_member e l now u i email r fresh mf d)) = albums d"
  by (simp_all add: invite_album_member_def Let_def split: sum.splits prod.splits)

lemma memberships_invite:
  assumes "memberships_ok d"
  shows "memberships_ok (snd (invite_album_member e l now u i email r fresh mf d))" (is "memberships_ok ?d")
proof -
  note frame = invite_frame [of e l now u i email r fresh mf d]
  have same: "owners ?d = owners d" by (simp add: owners_def frame)
  consider "album_invites ?d = album_invites d"
    | x where "ai_role x = ''viewer'' \<or> ai_role x = ''editor''" "(ai_album_id x, ai_invited_by x) \<in> owners d"
       "album_invites ?d = sql_insert x (album_invites d)"
    using invite_effect [OF assms] by blast
  then show ?thesis
  proof cases
    case 1
    then show ?thesis using memberships_same [OF assms frame(1,2)] same by simp
  next
    case 2
    have "proper_invite ?d x" using 2(1,2) same by (simp add: proper_invite_def)
    then show ?thesis
      using assms same admits_cong [OF frame(1)] 2(3) frame(2) by (auto simp: memberships_ok_def set_sql_insert proper_invite_def)
  qed
qed

lemma memberships_accept:
  assumes "memberships_ok d" "u \<in> set (users d)"
  shows "memberships_ok (snd (accept_album_invite e l now u token d))" (is "memberships_ok ?d")
proof (cases "fst (accept_album_invite e l now u token d)")
  case (Inl x)
  then have "?d = d"
    by (auto simp: accept_album_invite_def split: option.splits sum.splits bool.splits if_splits)
  with assms(1) show ?thesis by simp
next
  case (Inr v)
  obtain x where x: "sql_first (usable_invite e now token) (album_invites d) = Some x"
    "lower (ai_email x) = lower (u_email u)"
    "?d = d\<lparr>album_members := (if find_member (ai_album_id x) (u_id u) d = None
                        then sql_insert \<lparr>am_album_id = ai_album_id x, am_user_id = u_id u, am_role = ai_role x,
                               am_invited_by = Some (ai_invited_by x), am_joined_at = now\<rparr> (album_members d)
                        else album_members d),
                      album_invites := sql_update (\<lambda>z. ai_id z = ai_id x) (\<lambda>z. z\<lparr>ai_accepted_at := Some now\<rparr>) (album_invites d)\<rparr>"
    using Inr unfolding accept_album_invite_def by (auto split: option.splits sum.splits bool.splits if_splits)
  let ?g = "\<lambda>z. if ai_id z = ai_id x then z\<lparr>ai_accepted_at := Some now\<rparr> else z"
  let ?new = "\<lparr>am_album_id = ai_album_id x, am_user_id = u_id u, am_role = ai_role x,
      am_invited_by = Some (ai_invited_by x), am_joined_at = now\<rparr>"
  have t: "set (album_invites ?d) = ?g ` set (album_invites d)" "users ?d = users d" "owners ?d = owners d"
    "set (album_members ?d) \<subseteq> insert ?new (set (album_members d))"
    by (auto simp: x(3) set_sql_update set_sql_insert owners_def)
  have mem: "x \<in> set (album_invites d)" using x(1) by auto
  have "\<exists>y \<in> set (album_invites ?d). admits ?d m y" if m: "m \<in> set (album_members ?d)" for m
  proof (cases "m = ?new")
    case True
    have "admits ?d m (?g x)" using assms(2) x(2) by (auto simp: admits_def True t(2))
    then show ?thesis using mem unfolding t(1) by blast
  next
    case False
    with m t(4) have "m \<in> set (album_members d)" by blast
    with assms(1) obtain y where "y \<in> set (album_invites d)" "admits d m y" unfolding memberships_ok_def by blast
    moreover have "admits ?d m (?g y)" using \<open>admits d m y\<close> by (auto simp: admits_def t(2))
    ultimately show ?thesis unfolding t(1) by blast
  qed
  moreover have "proper_invite ?d y" if "y \<in> set (album_invites ?d)" for y
    using that assms(1) unfolding t(1) by (auto simp: memberships_ok_def proper_invite_def t(3))
  ultimately show ?thesis by (simp add: memberships_ok_def)
qed

lemma owners_update:
  "(\<lambda>y. (al_id y, al_user_id y)) ` set (sql_update P (\<lambda>y. y\<lparr>al_name := f y, al_description := g y\<rparr>) t)
     = (\<lambda>y. (al_id y, al_user_id y)) ` set t"
  unfolding set_sql_update image_image by (rule image_cong) simp_all

lemma memberships_step:
  assumes "memberships_ok d"
  shows "memberships_ok (snd (sharing_perform e l q d))"
proof -
  obtain now uid call where q: "q = (now, uid, call)" by (rule prod_cases3)
  show ?thesis
  proof (cases "find_user d uid")
    case None
    with assms q show ?thesis by (simp add: sharing_perform_def)
  next
    case (Some u)
    then have u: "u \<in> set (users d)" using find_user_id by blast
    show ?thesis
    proof (cases call)
      case (RemoveMember i m)
      have "memberships_ok (snd (remove_album_member e l u i m d))"
        using assms by (auto simp: remove_album_member_def memberships_ok_def set_sql_delete admits_def proper_invite_def owners_def
            split: sum.splits)
      with RemoveMember Some q show ?thesis by (simp add: sharing_perform_def)
    next
      case (UpdateAlbum i name description)
      have "owners (snd (update_album e l u i name description d)) = owners d"
        by (simp add: update_album_def owners_def owners_update Let_def split: sum.split option.split prod.split)
      then have "memberships_ok (snd (update_album e l u i name description d))"
        by (intro memberships_same [OF assms]) (auto simp: update_album_def Let_def split: sum.splits option.splits prod.splits)
      with UpdateAlbum Some q show ?thesis by (simp add: sharing_perform_def)
    next
      case (CreateAlbum i name description)
      have "memberships_ok (snd (create_album now i u name description d))"
        by (rule memberships_same [OF assms])
          (auto simp: create_album_def sql_insert_unique_def owners_def set_sql_insert Let_def split: sum.splits if_splits)
      with CreateAlbum Some q show ?thesis by (simp add: sharing_perform_def)
    next
      case (AddAlbumAsset i a)
      have "memberships_ok (snd (add_album_asset e l now u i a d))"
        by (rule memberships_same [OF assms]) (auto simp: add_album_asset_def owners_def split: sum.splits)
      with AddAlbumAsset Some q show ?thesis by (simp add: sharing_perform_def)
    next
      case (RemoveAlbumAsset i a)
      have "memberships_ok (snd (remove_album_asset e l u i a d))"
        by (rule memberships_same [OF assms]) (auto simp: remove_album_asset_def owners_def split: sum.splits)
      with RemoveAlbumAsset Some q show ?thesis by (simp add: sharing_perform_def)
    next
      case (CreateShare a password dl h fresh salt)
      have "memberships_ok (snd (create_share e now u a password dl h fresh salt d))"
        by (rule memberships_same [OF assms]) (auto simp: create_share_def owners_def Let_def split: option.splits)
      with CreateShare Some q show ?thesis by (simp add: sharing_perform_def)
    qed (use Some q u memberships_delete_album [OF assms] memberships_invite [OF assms] memberships_accept [OF assms] in
        \<open>simp_all add: sharing_perform_def\<close>)
  qed
qed

interpretation memberships: invariant_steps memberships_ok "\<lambda>q d. snd (sharing_perform e l q d)" for e l
  by unfold_locales (rule memberships_step)

text \<open>C33: Members of an album were invited.  After any sequence of sharing requests by any accounts, every member of
  an album holds a role below the owner's that an accepted invitation to the member's own address carries, and
  that invitation was sent by the owner of the album.\<close>

theorem members_were_invited:
  assumes "memberships_ok d" "m \<in> set (album_members (sharing_run e l qs d))"
  shows "\<exists>x \<in> set (album_invites (sharing_run e l qs d)). admits (sharing_run e l qs d) m x \<and>
    (am_role m = ''viewer'' \<or> am_role m = ''editor'') \<and>
    (\<exists>y \<in> set (albums (sharing_run e l qs d)). al_id y = am_album_id m \<and> al_user_id y = ai_invited_by x)"
proof -
  have ok: "memberships_ok (sharing_run e l qs d)"
    unfolding sharing_run_def by (rule memberships.fold_inv [OF assms(1)])
  with assms(2) obtain x where x: "x \<in> set (album_invites (sharing_run e l qs d))" "admits (sharing_run e l qs d) m x"
    by (auto simp: memberships_ok_def)
  with ok have "proper_invite (sharing_run e l qs d) x" by (simp add: memberships_ok_def)
  with x show ?thesis by (intro bexI [OF _ x(1)]) (auto simp: proper_invite_def admits_def owners_def)
qed


section \<open>What was uploaded can be downloaded\<close>

lemma sharing_run_frame: "users (sharing_run e l qs d) = users d" "assets (sharing_run e l qs d) = assets d"
  unfolding sharing_run_def by (induction qs arbitrary: d) (simp_all add: sharing_frame)

lemma readable_row: "get_asset e l v i d = Inr b \<Longrightarrow> b \<in> set (assets d) \<and> a_id b = i"
  by (auto simp: get_asset_def readable_asset_def sbind_Inr_iff split: option.splits if_splits)

lemma delivered_content:
  assumes "host_paths e" "get_asset e l v i d = Inr a" "original_path_of e f a = Inr p" "a_encryption_version a \<noteq> 0"
    "owner_of v a d = Some w" "user_media_key e w = Inr key" "holds_content e key c (a_original_path a) f"
  shows "\<exists>m. get_original e l v i d f = Inr m \<and> ms_end m = Inr () \<and> sha256 e (concat (ms_pieces m)) = c"
proof -
  from assms(3) have p: "p = resolve e (a_original_path a)" "require_storage_path e f p = Inr ()"
    by (auto simp: original_path_of_def split: if_splits)
  have "canonical e p = canonical e (a_original_path a)" using canonical_resolve [OF assms(1)] by (simp add: p(1))
  with assms(7) obtain stored cs where s: "files f (canonical e p) = Some stored" "decrypted_chunks e key stored = (cs, Inr ())"
    "sha256 e (concat cs) = c" by (auto simp: holds_content_def)
  have it: "iter_decrypted_chunks e p key f = (cs, Inr ())" using s(1,2) p(2) by (simp add: iter_decrypted_chunks_def read_bytes_def)
  have present: "is_file e f p" using s(1) by (simp add: is_file_def)
  show ?thesis
    using assms(2-6) present it s(3) by (simp add: get_original_def media_response_def Let_def)
qed


section \<open>On concrete requests\<close>

definition sharing_db :: db where
  "sharing_db = empty_db\<lparr>users := [sample_user 1, (sample_user 2)\<lparr>u_email := ''bob@example.org''\<rparr>],
     assets := [sample_asset 5 1 ''/data/originals/x'']\<rparr>"

definition sharing_start :: "sharing_request list" where
  "sharing_start = [(0, 1, CreateAlbum 7 ''Trip'' None), (0, 1, InviteMember 7 ''Bob@example.org'' ''editor'' (8, ''t'') False)]"

definition sharing_rest :: "sharing_request list" where
  "sharing_rest = [(1, 2, AcceptInvite ''t''), (2, 2, AddAlbumAsset 7 5), (2, 2, CreateShare 5 None True None (9, ''s'') ''n''),
     (3, 2, AcceptInvite ''t'')]"

lemma missing_grants: "reject_suppressed_account sample_env Missing i = Inr ()"
  by (simp add: reject_suppressed_account_def suppression_subject_is_denied_def read_suppression_markers_def
      ledger_files_def sample_env_def sample_settings_def production_like_def)

lemma nobody_suppressed: "is_suppressed sample_env Missing i = Inr False"
  by (simp add: is_suppressed_def missing_grants)

lemma sharing_joined:
  "album_members (sharing_run sample_env Missing (sharing_start @ sharing_rest) sharing_db) =
     [\<lparr>am_album_id = 7, am_user_id = 2, am_role = ''editor'', am_invited_by = Some 1, am_joined_at = 1\<rparr>]"
  by code_simp

lemma sharing_albums:
  "albums (sharing_run sample_env Missing (sharing_start @ sharing_rest) sharing_db) =
     [\<lparr>al_id = 7, al_user_id = 1, al_name = ''Trip'', al_description = None, al_created_at = 0\<rparr>]"
  by code_simp
theorem unshared_stays_private_witness:
  "\<forall>a. get_asset sample_env Missing ((sample_user 2)\<lparr>u_email := ''bob@example.org''\<rparr>) 5
     (sharing_run sample_env Missing (sharing_start @ sharing_rest) sharing_db) \<noteq> Inr a"
proof -
  have "unshared 5 1 sharing_db"
    by (simp add: unshared_def sharing_db_def empty_db_def sample_asset_def)
  moreover have "\<forall>q \<in> set (sharing_start @ sharing_rest). \<not> shares_asset 5 1 q"
    by (simp add: sharing_start_def sharing_rest_def shares_asset_def)
  moreover have "u_id ((sample_user 2)\<lparr>u_email := ''bob@example.org''\<rparr>) \<noteq> 1" by (simp add: sample_user_def)
  ultimately show ?thesis by (rule unshared_stays_private [THEN conjunct1])
qed

theorem members_were_invited_witness:
  "\<exists>x :: album_invite. ai_accepted_at x \<noteq> None \<and> ai_invited_by x = 1 \<and> ai_role x = ''editor''"
proof -
  let ?d = "sharing_run sample_env Missing (sharing_start @ sharing_rest) sharing_db"
  let ?m = "\<lparr>am_album_id = 7, am_user_id = 2, am_role = ''editor'', am_invited_by = Some 1, am_joined_at = 1\<rparr>"
  have "memberships_ok sharing_db" by (simp add: memberships_ok_def sharing_db_def empty_db_def)
  moreover have "?m \<in> set (album_members ?d)" by (simp add: sharing_joined)
  ultimately obtain x where x: "admits ?d ?m x" "\<exists>y \<in> set (albums ?d). al_id y = 7 \<and> al_user_id y = ai_invited_by x"
    using members_were_invited [of sharing_db ?m sample_env Missing "sharing_start @ sharing_rest"] by auto
  have "\<forall>y \<in> set (albums ?d). al_user_id y = 1" by (simp add: sharing_albums)
  with x show ?thesis by (intro exI [of _ x]) (auto simp: admits_def)
qed

theorem invitation_accepted_once_witness:
  "length (filter (\<lambda>(q, r). accepts_invite sample_env q = Some (token_digest sample_env ''t'') \<and> \<not> isl r)
     (invitations.outcomes sample_env Missing sharing_rest (sharing_run sample_env Missing sharing_start sharing_db))) \<le> 1"
proof (rule invitation_accepted_once)
  have "invites_ok sharing_db" by (simp add: invites_ok_def sharing_db_def empty_db_def)
  then show "invites_ok (sharing_run sample_env Missing sharing_start sharing_db)"
    unfolding sharing_start_def by (simp add: sharing_run_def invites_ok_step)
  show "\<forall>q \<in> set sharing_rest. \<not> sends_invite sample_env q (token_digest sample_env ''t'')"
    by (simp add: sharing_rest_def)
qed


end
