(* ===== verification/AssetRequests.thy ===== *)
theory AssetRequests
  imports Access Replication "HOL-Library.Product_Lexorder"
begin

text \<open>
  The requests of an account on its own revisions in \<open>api/v1/assets.py\<close>: trash, restore, roll-back, permanent
  deletion, indexing and protection.  A handler takes the authenticated account and the database; it answers, changes
  rows, and publishes background jobs.  Which jobs the broker refuses is the input \<open>refused\<close>.
\<close>

section \<open>Listing revisions\<close>

record revision_item =
  ri_id :: uuid
  ri_logical_id :: uuid
  ri_version :: int
  ri_lifecycle_state :: lifecycle
  ri_original_filename :: "string option"
  ri_checksum :: string
  ri_file_size :: int
  ri_created_at :: time
  ri_superseded_at :: "time option"
  ri_trashed_at :: "time option"
  ri_purge_after :: "time option"

definition revision_item :: "asset \<Rightarrow> revision_item" where
  "revision_item a = \<lparr>ri_id = a_id a, ri_logical_id = a_logical_id a, ri_version = a_version a,
     ri_lifecycle_state = a_lifecycle_state a, ri_original_filename = a_original_filename a, ri_checksum = a_checksum a,
     ri_file_size = a_file_size a, ri_created_at = a_created_at a, ri_superseded_at = a_superseded_at a,
     ri_trashed_at = a_trashed_at a, ri_purge_after = a_purge_after a\<rparr>"

text \<open>The newest first; the database sorts a missing time before the others.\<close>

definition list_trash :: "user \<Rightarrow> db \<Rightarrow> revision_item list" where
  "list_trash u d = map revision_item (sort_key (\<lambda>a. case a_trashed_at a of None \<Rightarrow> (0 :: int, 0) | Some t \<Rightarrow> (1, - t))
     (filter (\<lambda>a. a_user_id a = u_id u \<and> a_lifecycle_state a = Trashed) (assets d)))"

definition own_asset :: "user \<Rightarrow> uuid \<Rightarrow> db \<Rightarrow> asset option" where
  "own_asset u i d = sql_first (\<lambda>a. a_id a = i \<and> a_user_id a = u_id u) (assets d)"

definition own_active_asset :: "user \<Rightarrow> uuid \<Rightarrow> db \<Rightarrow> asset option" where
  "own_active_asset u i d = sql_first (\<lambda>a. a_id a = i \<and> a_user_id a = u_id u \<and> a_lifecycle_state a = Active) (assets d)"

definition asset_versions :: "user \<Rightarrow> uuid \<Rightarrow> db \<Rightarrow> exn + revision_item list" where
  "asset_versions u i d =
     (case own_asset u i d of
        None \<Rightarrow> Inl (HTTPException 404 ''Asset not found'')
      | Some a \<Rightarrow> Inr (map revision_item (sort_key (\<lambda>b. (- a_version b, - a_created_at b))
          (filter (\<lambda>b. a_user_id b = u_id u \<and> a_logical_id b = a_logical_id a) (assets d)))))"

section \<open>Lifecycle requests\<close>

definition lock_active_asset_writer :: "uuid \<Rightarrow> db \<Rightarrow> exn + user" where
  "lock_active_asset_writer i d =
     (case active_user d i of None \<Rightarrow> Inl (HTTPException 409 ''Account is unavailable'') | Some u \<Rightarrow> Inr u)"

text \<open>A \<open>ValueError\<close> of the transition is the answer 409; the request's session is discarded on any failure.\<close>

definition transition :: "(exn + asset) \<times> db \<Rightarrow> db \<Rightarrow> (exn + revision_item) \<times> db" where
  "transition r d =
     (case r of
        (Inr a, d') \<Rightarrow> (Inr (revision_item a), d')
      | (Inl (ValueError m), _) \<Rightarrow> (Inl (HTTPException 409 m), d)
      | (Inl x, _) \<Rightarrow> (Inl x, d))"

definition move_to_trash :: "env \<Rightarrow> time \<Rightarrow> user \<Rightarrow> uuid \<Rightarrow> db \<Rightarrow> (exn + revision_item) \<times> db" where
  "move_to_trash e now u i d =
     (case own_active_asset u i d of
        None \<Rightarrow> (Inl (HTTPException 404 ''Asset not found''), d)
      | Some a \<Rightarrow> transition (trash_asset e now (a_id a) ''web'' None d) d)"

definition delete_asset_request :: "env \<Rightarrow> time \<Rightarrow> user \<Rightarrow> uuid \<Rightarrow> db \<Rightarrow> (exn + revision_item) \<times> db" where
  "delete_asset_request e now u i d =
     (case own_active_asset u i d of
        None \<Rightarrow> (Inl (HTTPException 404 ''Active asset not found''), d)
      | Some a \<Rightarrow> transition (trash_asset e now (a_id a) ''web'' None d) d)"

definition restore_from_trash :: "user \<Rightarrow> uuid \<Rightarrow> db \<Rightarrow> (exn + revision_item) \<times> db" where
  "restore_from_trash u i d =
     (case lock_active_asset_writer (u_id u) d of
        Inl x \<Rightarrow> (Inl x, d)
      | Inr w \<Rightarrow>
          (case own_asset w i d of
             None \<Rightarrow> (Inl (HTTPException 404 ''Asset not found''), d)
           | Some a \<Rightarrow> transition (restore_asset_from_trash a ''web'' d) d))"

definition rollback_to_version :: "time \<Rightarrow> user \<Rightarrow> uuid \<Rightarrow> uuid \<Rightarrow> db \<Rightarrow> (exn + revision_item) \<times> db" where
  "rollback_to_version now u i version_id d =
     (case lock_active_asset_writer (u_id u) d of
        Inl x \<Rightarrow> (Inl x, d)
      | Inr w \<Rightarrow>
          (case (own_asset w i d, own_asset w version_id d) of
             (Some current, Some target) \<Rightarrow> transition (rollback_asset now current target ''web'' d) d
           | _ \<Rightarrow> (Inl (HTTPException 404 ''Asset revision not found''), d)))"

section \<open>Background jobs\<close>

datatype asset_job = ProcessJob uuid | ProtectJob uuid | RestoreJob uuid | PurgeJob uuid

type_synonym 'a asset_outcome = "(exn + 'a) \<times> db \<times> asset_job list"

definition purge_when_retained :: "time \<Rightarrow> (asset_job \<Rightarrow> bool) \<Rightarrow> user \<Rightarrow> uuid \<Rightarrow> db \<Rightarrow> uuid asset_outcome" where
  "purge_when_retained now refused u i d =
     (let fail = (\<lambda>c m. (Inl (HTTPException c m), d, [])) in
      case own_asset u i d of
        None \<Rightarrow> fail 404 ''Asset not found''
      | Some a \<Rightarrow>
          if a_lifecycle_state a \<noteq> Trashed then fail 409 ''Move the asset to trash before requesting permanent deletion''
          else case a_purge_after a of
            None \<Rightarrow> fail 409 ''The asset has no retention deadline''
          | Some t \<Rightarrow>
              if t > now then fail 409 ''The retention period has not elapsed''
              else if refused (PurgeJob (a_id a)) then fail 503 ''Permanent deletion could not be queued''
              else (Inr (a_id a), d, [PurgeJob (a_id a)]))"

definition protection_count :: "user \<Rightarrow> db \<Rightarrow> string \<Rightarrow> nat" where
  "protection_count u d s = length (filter (\<lambda>a. a_user_id a = u_id u \<and> a_protection_status a = s) (assets d))"

definition protection_summary :: "user \<Rightarrow> db \<Rightarrow> (string \<times> nat) list" where
  "protection_summary u d =
     [(''total'', length (filter (\<lambda>a. a_user_id a = u_id u) (assets d))),
      (''protected'', protection_count u d ''protected''),
      (''queued'', protection_count u d ''queued'' + protection_count u d ''protecting''),
      (''unprotected'', protection_count u d ''unprotected''),
      (''failed'', protection_count u d ''failed'')]"

text \<open>The text of a refusal of the broker is \<open>reason\<close>.\<close>

definition reindex_asset_metadata :: "(asset_job \<Rightarrow> bool) \<Rightarrow> string \<Rightarrow> user \<Rightarrow> db \<Rightarrow> nat asset_outcome" where
  "reindex_asset_metadata refused reason u d =
     (let own = filter (\<lambda>a. a_user_id a = u_id u) (assets d);
          jobs = map (ProcessJob \<circ> a_id) (filter (\<lambda>a. \<not> refused (ProcessJob (a_id a))) own)
      in (Inr (length jobs), d\<lparr>assets := sql_update (\<lambda>a. a_user_id a = u_id u)
            (\<lambda>a. if refused (ProcessJob (a_id a))
                 then a\<lparr>a_processing_status := ''pending'',
                        a_processing_error := Some (take 2000 (''Could not enqueue metadata re-index: '' @ reason))\<rparr>
                 else a\<lparr>a_processing_status := ''pending''\<rparr>) (assets d)\<rparr>, jobs))"

definition lacks_protection :: "db \<Rightarrow> asset \<Rightarrow> bool" where
  "lacks_protection d a \<longleftrightarrow> a_protection_status a = ''unprotected'' \<or> a_protection_status a = ''failed'' \<or>
     \<not> list_ex (\<lambda>r. r_asset_id r = a_id a) (replicas d) \<or>
     list_ex (\<lambda>r. r_asset_id r = a_id a \<and> r_metadata_path r = None) (replicas d)"

definition protect_all_assets :: "(asset_job \<Rightarrow> bool) \<Rightarrow> user \<Rightarrow> db \<Rightarrow> nat asset_outcome" where
  "protect_all_assets refused u d =
     (let chosen = filter (\<lambda>a. a_user_id a = u_id u \<and> lacks_protection d a) (assets d);
          jobs = map (ProtectJob \<circ> a_id) (filter (\<lambda>a. \<not> refused (ProtectJob (a_id a))) chosen)
      in (Inr (length jobs), d\<lparr>assets := sql_update (\<lambda>a. a_user_id a = u_id u \<and> lacks_protection d a)
            (\<lambda>a. a\<lparr>a_protection_status := (if refused (ProtectJob (a_id a)) then ''failed'' else ''queued'')\<rparr>) (assets d)\<rparr>, jobs))"

definition restore_asset_copy :: "(asset_job \<Rightarrow> bool) \<Rightarrow> user \<Rightarrow> uuid \<Rightarrow> db \<Rightarrow> asset asset_outcome" where
  "restore_asset_copy refused u i d =
     (case own_active_asset u i d of
        None \<Rightarrow> (Inl (HTTPException 404 ''Asset not found''), d, [])
      | Some a \<Rightarrow>
          if \<not> list_ex (\<lambda>r. r_asset_id r = a_id a \<and> r_status r = ''verified'' \<and> r_verification_status r = ''verified'') (replicas d)
          then (Inl (HTTPException 409 ''A verified protection copy is required before restore''), d, [])
          else
            (let no = refused (RestoreJob (a_id a));
                 b = a\<lparr>a_restore_status := (if no then ''failed'' else ''queued'')\<rparr>
             in (Inr b, update_asset (a_id a) (\<lambda>_. b) d, if no then [] else [RestoreJob (a_id a)])))"

definition protect_asset_copy :: "(asset_job \<Rightarrow> bool) \<Rightarrow> user \<Rightarrow> uuid \<Rightarrow> db \<Rightarrow> asset asset_outcome" where
  "protect_asset_copy refused u i d =
     (case own_asset u i d of
        None \<Rightarrow> (Inl (HTTPException 404 ''Asset not found''), d, [])
      | Some a \<Rightarrow>
          (let no = refused (ProtectJob (a_id a));
               b = a\<lparr>a_protection_status := (if no then ''failed'' else ''queued'')\<rparr>
           in (Inr b, update_asset (a_id a) (\<lambda>_. b) d, if no then [] else [ProtectJob (a_id a)])))"

section \<open>Requests\<close>

datatype asset_call =
    MoveToTrash uuid | DeleteAsset uuid | RestoreFromTrash uuid | RollbackTo uuid uuid | PurgeRetained uuid
  | Reindex | ProtectAll | RestoreCopy uuid | ProtectCopy uuid

definition plain :: "(exn + 'a) \<times> db \<Rightarrow> unit asset_outcome" where
  "plain r = (map_sum (\<lambda>x. x) (\<lambda>_. ()) (fst r), snd r, [])"

definition forget :: "'a asset_outcome \<Rightarrow> unit asset_outcome" where
  "forget r = (map_sum (\<lambda>x. x) (\<lambda>_. ()) (fst r), snd r)"

fun asset_handler :: "env \<Rightarrow> time \<Rightarrow> (asset_job \<Rightarrow> bool) \<Rightarrow> user \<Rightarrow> asset_call \<Rightarrow> db \<Rightarrow> unit asset_outcome" where
  "asset_handler e now refused u (MoveToTrash i) d = plain (move_to_trash e now u i d)"
| "asset_handler e now refused u (DeleteAsset i) d = plain (delete_asset_request e now u i d)"
| "asset_handler e now refused u (RestoreFromTrash i) d = plain (restore_from_trash u i d)"
| "asset_handler e now refused u (RollbackTo i v) d = plain (rollback_to_version now u i v d)"
| "asset_handler e now refused u (PurgeRetained i) d = forget (purge_when_retained now refused u i d)"
| "asset_handler e now refused u Reindex d = forget (reindex_asset_metadata refused ''broker'' u d)"
| "asset_handler e now refused u ProtectAll d = forget (protect_all_assets refused u d)"
| "asset_handler e now refused u (RestoreCopy i) d = forget (restore_asset_copy refused u i d)"
| "asset_handler e now refused u (ProtectCopy i) d = forget (protect_asset_copy refused u i d)"

section \<open>The machine of revisions\<close>

text \<open>
  What the requests promise, without rows and tables: every revision has a state, and revisions of one file are
  siblings.  An account may discard an active revision of its own, recover a discarded one that no sibling has
  replaced, or switch from the active sibling to an earlier one.
\<close>

inductive revision_step ::
  "uuid set \<Rightarrow> (uuid \<Rightarrow> uuid \<Rightarrow> bool) \<Rightarrow> (uuid \<rightharpoonup> lifecycle) \<Rightarrow> (uuid \<rightharpoonup> lifecycle) \<Rightarrow> bool" for own sib where
  stay: "revision_step own sib m m"
| discard: "i \<in> own \<Longrightarrow> m i = Some Active \<Longrightarrow> revision_step own sib m (m(i \<mapsto> Trashed))"
| recover: "i \<in> own \<Longrightarrow> m i = Some Trashed \<Longrightarrow> (\<And>j. sib i j \<Longrightarrow> m j \<noteq> Some Active) \<Longrightarrow>
    revision_step own sib m (m(i \<mapsto> Active))"
| switch: "i \<in> own \<Longrightarrow> m i = Some Superseded \<Longrightarrow> sib c i \<Longrightarrow> m c = Some Active \<Longrightarrow>
    revision_step own sib m (\<lambda>j. if j = i then Some Active else if j = c then Some Superseded else m j)"

definition revision_states :: "db \<Rightarrow> uuid \<rightharpoonup> lifecycle" where
  "revision_states d i = map_option a_lifecycle_state (sql_first (\<lambda>a. a_id a = i) (assets d))"

definition siblings :: "db \<Rightarrow> uuid \<Rightarrow> uuid \<Rightarrow> bool" where
  "siblings d i j \<longleftrightarrow> (\<exists>a \<in> set (assets d). \<exists>b \<in> set (assets d). a_id a = i \<and> a_id b = j \<and> same_item a b)"

definition owned :: "uuid \<Rightarrow> db \<Rightarrow> uuid set" where
  "owned uid d = a_id ` {a \<in> set (assets d). a_user_id a = uid}"

lemma sql_first_update_rows:
  "(\<And>r. r \<in> set t \<Longrightarrow> P r \<Longrightarrow> k (f r) = k r) \<Longrightarrow>
   sql_first (\<lambda>r. k r = i) (sql_update P f t) = map_option (\<lambda>r. if P r then f r else r) (sql_first (\<lambda>r. k r = i) t)"
  by (induction t) auto

lemma revision_states_row:
  assumes "catalog_ok d" "a \<in> set (assets d)"
  shows "revision_states d (a_id a) = Some (a_lifecycle_state a)"
  using assms sql_first_key [of a_id "assets d" a] by (simp add: revision_states_def catalog_ok_def assets_ok_distinct)

lemma revision_states_replace:
  assumes "a \<in> set (assets d)" "assets d' = sql_update (\<lambda>x. a_id x = a_id a) (\<lambda>_. b) (assets d)" "a_id b = a_id a"
  shows "revision_states d' = (revision_states d)(a_id a \<mapsto> a_lifecycle_state b)"
proof
  fix i
  have "sql_first (\<lambda>x. a_id x = a_id a) (assets d) \<noteq> None" unfolding sql_first_not_None using assms(1) by blast
  then show "revision_states d' i = ((revision_states d)(a_id a \<mapsto> a_lifecycle_state b)) i"
    using assms(3)
    by (cases "sql_first (\<lambda>x. a_id x = i) (assets d)") (auto simp: revision_states_def assms(2) sql_first_update_rows)
qed

lemma revision_states_own_row:
  assumes "catalog_ok d" "a \<in> set (assets d)" "a_id b = a_id a" "a_lifecycle_state b = a_lifecycle_state a"
  shows "revision_states (update_asset (a_id a) (\<lambda>_. b) d) = revision_states d"
  using revision_states_replace [OF assms(2) _ assms(3), of "update_asset (a_id a) (\<lambda>_. b) d"] assms(4)
    revision_states_row [OF assms(1,2)] by (simp add: fun_upd_idem)

lemma revision_states_same:
  assumes "\<And>r. a_id (f r) = a_id r" "\<And>r. a_lifecycle_state (f r) = a_lifecycle_state r" "assets d' = sql_update P f (assets d)"
  shows "revision_states d' = revision_states d"
  using assms by (auto simp: revision_states_def sql_first_update_rows option.map_comp intro!: ext option.map_cong)

lemma trash_refines:
  assumes "catalog_ok d" "own_active_asset u i d = Some a" "trash_asset e now (a_id a) actor rd d = (res, d')"
  shows "revision_step (owned (u_id u) d) (siblings d) (revision_states d) (revision_states d')"
proof -
  have a: "a \<in> set (assets d)" "a_user_id a = u_id u" "a_lifecycle_state a = Active"
    using assms(2) by (auto simp: own_active_asset_def)
  from assms(3) show ?thesis
  proof (cases rule: trash_asset_cases)
    case same
    then have "revision_states d' = revision_states d" by (auto simp: revision_states_def)
    then show ?thesis by (simp add: revision_step.stay)
  next
    case (trashed b n x)
    then have "b = a" using assms(1) a(1) by (auto simp: catalog_ok_def dest: assets_ok_id)
    with trashed have "revision_states d' = (revision_states d)(a_id a \<mapsto> Trashed)"
      using revision_states_replace [OF a(1), of d' "trashed_row now n actor a"] by simp
    moreover have "a_id a \<in> owned (u_id u) d" using a by (auto simp: owned_def)
    ultimately show ?thesis
      using revision_states_row [OF assms(1) a(1)] a(3) by (simp add: revision_step.discard)
  qed
qed

lemma restore_refines:
  assumes "catalog_ok d" "own_asset u i d = Some a" "restore_asset_from_trash a actor d = (res, d')"
  shows "revision_step (owned (u_id u) d) (siblings d) (revision_states d) (revision_states d')"
  using assms(3)
proof (cases rule: restore_cases)
  case (error x)
  then show ?thesis by (simp add: revision_step.stay)
next
  case (restored b)
  have a: "a \<in> set (assets d)" "a_user_id a = u_id u" using assms(2) by (auto simp: own_asset_def)
  have b: "b = a" using restored(1,3) a(1) assms(1) by (auto simp: catalog_ok_def dest: assets_ok_id)
  have new: "revision_states d' = (revision_states d)(a_id a \<mapsto> Active)"
    using restored(8) revision_states_replace [OF a(1), of d' "restored_row a"] b by auto
  have "revision_states d j \<noteq> Some Active" if "siblings d (a_id a) j" for j
  proof -
    from that obtain x c where x: "x \<in> set (assets d)" "c \<in> set (assets d)" "a_id x = a_id a" "a_id c = j" "same_item x c"
      by (auto simp: siblings_def)
    then have "x = a" using a(1) assms(1) by (auto simp: catalog_ok_def dest: assets_ok_id)
    with x restored(4,5) b have "a_lifecycle_state c \<noteq> Active"
      using assms(1) by (metis assets_ok_id catalog_ok_def lifecycle.distinct(3) same_item_sym)
    then show ?thesis using revision_states_row [OF assms(1) x(2)] x(4) by auto
  qed
  moreover have "a_id a \<in> owned (u_id u) d" using a by (auto simp: owned_def)
  ultimately show ?thesis
    unfolding new using revision_states_row [OF assms(1) a(1)] restored(4) b by (intro revision_step.recover) auto
qed

lemma rollback_refines:
  assumes ok: "catalog_ok d" and own: "own_asset u v d = Some target" and run: "rollback_asset now current target actor d = (res, d')"
  shows "revision_step (owned (u_id u) d) (siblings d) (revision_states d) (revision_states d')"
  using run
proof (cases rule: rollback_cases)
  case (rolled c t x)
  have rows: "assets_ok (assets d)" using ok by (simp add: catalog_ok_def)
  have "target \<in> set (assets d)" "a_user_id target = u_id u" using own by (auto simp: own_asset_def)
  with rolled(5,6) have t: "a_id t \<in> owned (u_id u) d" by (auto simp: owned_def same_item_def)
  let ?S = "set (superseded_ids d t)"
  have S: "\<And>b. b \<in> set (assets d) \<Longrightarrow> a_id b \<in> ?S \<longleftrightarrow> a_id t \<noteq> a_id c \<and> a_id b = a_id c"
  proof -
    fix b assume b: "b \<in> set (assets d)"
    have "same_item b t \<and> a_lifecycle_state b = Active \<Longrightarrow> a_id b = a_id c"
      using assets_ok_active [OF rows b rolled(1)] rolled(3,4) by (blast intro: same_item_trans same_item_sym)
    moreover have "a_id b = a_id c \<Longrightarrow> b = c" by (rule assets_ok_id [OF rows b rolled(1)])
    ultimately show "a_id b \<in> ?S \<longleftrightarrow> a_id t \<noteq> a_id c \<and> a_id b = a_id c"
      using superseded_id_iff [OF rows b, of t] rolled(3,4) by auto
  qed
  let ?mid = "d\<lparr>assets := sql_update (\<lambda>b. a_id b \<in> ?S) (supersede now) (assets d)\<rparr>"
  have mid: "revision_states ?mid j = (if j \<in> ?S then map_option (\<lambda>_. Superseded) (revision_states d j) else revision_states d j)" for j
    by (auto simp: revision_states_def sql_first_update_rows option.map_comp intro!: option.map_cong)
  have tmid: "t \<in> set (assets ?mid)" using rollback_assets(2) [OF rows rolled(5)] by simp
  have "revision_states d' = (revision_states ?mid)(a_id t \<mapsto> Active)"
    using revision_states_replace [OF tmid, of d' "activate t"] rolled(10) by simp
  then have new: "revision_states d' = (\<lambda>j. if j = a_id t then Some Active
      else if j \<in> ?S then map_option (\<lambda>_. Superseded) (revision_states d j) else revision_states d j)"
    by (auto simp: mid)
  show ?thesis
  proof (cases "a_lifecycle_state t = Active")
    case True
    then have "a_id t = a_id c" using assets_ok_active [OF rows rolled(5,1)] rolled(3,4) same_item_sym by blast
    then have "?S = {}" using S by (auto simp: set_superseded_ids)
    then have "revision_states d' = revision_states d"
      unfolding new using revision_states_row [OF ok rolled(5)] True by auto
    then show ?thesis by (simp add: revision_step.stay)
  next
    case False
    with rolled(8) have st: "a_lifecycle_state t = Superseded" by simp
    then have ne: "a_id t \<noteq> a_id c" using assets_ok_id [OF rows rolled(5,1)] rolled(3) by auto
    then have "?S = {a_id c}" using S rolled(1) by (auto simp: set_superseded_ids)
    then have "revision_states d' = (\<lambda>j. if j = a_id t then Some Active else if j = a_id c then Some Superseded else revision_states d j)"
      unfolding new using revision_states_row [OF ok rolled(1)] by auto
    moreover have "siblings d (a_id c) (a_id t)" using rolled(1,4,5) by (auto simp: siblings_def)
    ultimately show ?thesis
      using revision_step.switch [OF t, of "revision_states d" "siblings d" "a_id c"]
        revision_states_row [OF ok rolled(5)] revision_states_row [OF ok rolled(1)] st rolled(3) by simp
  qed
qed (simp_all add: revision_step.stay)

lemma transition_snd: "snd (transition r d) = (case fst r of Inr _ \<Rightarrow> snd r | Inl _ \<Rightarrow> d)"
  by (auto simp: transition_def split: prod.splits sum.splits exn.splits)

lemma snd_plain [simp]: "fst (snd (plain r)) = snd r" "snd (snd (plain r)) = []"
  by (simp_all add: plain_def)

lemma snd_forget [simp]: "snd (forget r) = snd r"
  by (simp add: forget_def)

text \<open>C31: The requests of an account implement the machine of revisions: whatever is asked of whichever revision, and
  whether or not the request succeeds, the states of the revisions change by at most one step of the machine, which
  concerns a revision of the account itself.\<close>

theorem requests_refine_revisions:
  assumes "catalog_ok d"
  shows "revision_step (owned (u_id u) d) (siblings d) (revision_states d)
     (revision_states (fst (snd (asset_handler e now refused u call d))))"
proof -
  note stay = revision_step.stay [of "owned (u_id u) d" "siblings d" "revision_states d"]
  have lock: "lock_active_asset_writer i d = Inr w \<Longrightarrow> u_id w = i" for i w
    by (auto simp: lock_active_asset_writer_def active_user_def split: option.splits)
  have discard: "revision_step (owned (u_id u) d) (siblings d) (revision_states d) (revision_states (snd (transition (trash_asset e now (a_id a) actor rd d) d)))"
    if "own_active_asset u i d = Some a" for a i actor rd
    using trash_refines [OF assms that, of e now actor rd] stay
    by (cases "trash_asset e now (a_id a) actor rd d") (auto simp: transition_snd split: sum.splits)
  have recover: "revision_step (owned (u_id w) d) (siblings d) (revision_states d) (revision_states (snd (transition (restore_asset_from_trash a actor d) d)))"
    if "own_asset w i d = Some a" for w a i actor
    using restore_refines [OF assms that, of actor] revision_step.stay
    by (cases "restore_asset_from_trash a actor d") (auto simp: transition_snd split: sum.splits)
  have switch: "revision_step (owned (u_id w) d) (siblings d) (revision_states d) (revision_states (snd (transition (rollback_asset now c a actor d) d)))"
    if "own_asset w i d = Some a" for w a i actor c
    using rollback_refines [OF assms that, of now c actor] revision_step.stay
    by (cases "rollback_asset now c a actor d") (auto simp: transition_snd split: sum.splits)
  show ?thesis
  proof (cases call)
    case (MoveToTrash i)
    with discard stay show ?thesis by (simp add: move_to_trash_def split: option.splits)
  next
    case (DeleteAsset i)
    with discard stay show ?thesis by (simp add: delete_asset_request_def split: option.splits)
  next
    case (RestoreFromTrash i)
    with recover stay lock show ?thesis by (simp add: restore_from_trash_def split: option.splits sum.splits) metis
  next
    case (RollbackTo i v)
    with switch stay lock show ?thesis by (simp add: rollback_to_version_def split: option.splits sum.splits) metis
  next
    case (PurgeRetained i)
    with stay show ?thesis by (simp add: purge_when_retained_def Let_def split: option.splits)
  next
    case Reindex
    then show ?thesis
      using revision_states_same [of "\<lambda>a. if refused (ProcessJob (a_id a))
                 then a\<lparr>a_processing_status := ''pending'',
                        a_processing_error := Some (take 2000 (''Could not enqueue metadata re-index: '' @ ''broker''))\<rparr>
                 else a\<lparr>a_processing_status := ''pending''\<rparr>"] stay
      by (simp add: reindex_asset_metadata_def Let_def)
  next
    case ProtectAll
    then show ?thesis
      using revision_states_same [of "\<lambda>a. a\<lparr>a_protection_status := (if refused (ProtectJob (a_id a)) then ''failed'' else ''queued'')\<rparr>"] stay
      by (simp add: protect_all_assets_def Let_def)
  next
    case (RestoreCopy i)
    show ?thesis
    proof (cases "own_active_asset u i d")
      case (Some a)
      then have "a \<in> set (assets d)" by (auto simp: own_active_asset_def)
      with RestoreCopy Some stay show ?thesis by (simp add: restore_asset_copy_def Let_def revision_states_own_row [OF assms])
    qed (use RestoreCopy stay in \<open>simp add: restore_asset_copy_def\<close>)
  next
    case (ProtectCopy i)
    show ?thesis
    proof (cases "own_asset u i d")
      case (Some a)
      then have "a \<in> set (assets d)" by (auto simp: own_asset_def)
      with ProtectCopy Some stay show ?thesis by (simp add: protect_asset_copy_def Let_def revision_states_own_row [OF assms])
    qed (use ProtectCopy stay in \<open>simp add: protect_asset_copy_def\<close>)
  qed
qed

section \<open>Accounts are apart\<close>

definition asset_perform ::
  "env \<Rightarrow> time \<times> (asset_job \<Rightarrow> bool) \<times> uuid \<times> asset_call \<Rightarrow> db \<times> asset_job list \<Rightarrow> db \<times> asset_job list" where
  "asset_perform e q s = (case q of (now, refused, uid, call) \<Rightarrow>
     case find_user (fst s) uid of
       None \<Rightarrow> s
     | Some u \<Rightarrow> (case asset_handler e now refused u call (fst s) of (r, d, js) \<Rightarrow> (d, snd s @ js)))"

fun asset_of_job :: "asset_job \<Rightarrow> uuid" where
  "asset_of_job (ProcessJob i) = i"
| "asset_of_job (ProtectJob i) = i"
| "asset_of_job (RestoreJob i) = i"
| "asset_of_job (PurgeJob i) = i"

definition owner_rows :: "uuid \<Rightarrow> db \<Rightarrow> asset list" where
  "owner_rows w d = filter (\<lambda>a. a_user_id a = w) (assets d)"

lemma filter_sql_update:
  "(\<And>r. r \<in> set t \<Longrightarrow> P r \<Longrightarrow> \<not> Q r \<and> \<not> Q (f r)) \<Longrightarrow> filter Q (sql_update P f t) = filter Q t"
  by (induction t) auto

lemma owner_rows_update:
  assumes "assets d' = sql_update P f (assets d)" "\<And>r. r \<in> set (assets d) \<Longrightarrow> P r \<Longrightarrow> a_user_id r \<noteq> w \<and> a_user_id (f r) \<noteq> w"
  shows "owner_rows w d' = owner_rows w d"
  using assms by (simp add: owner_rows_def filter_sql_update)

lemma owner_rows_own:
  assumes "catalog_ok d" "a \<in> set (assets d)" "a_user_id a \<noteq> w" "a_user_id b = a_user_id a"
  shows "owner_rows w (update_asset (a_id a) (\<lambda>_. b) d) = owner_rows w d"
proof (rule owner_rows_update)
  fix r assume "r \<in> set (assets d)" "a_id r = a_id a"
  then have "r = a" using assms(1,2) by (auto simp: catalog_ok_def dest: assets_ok_id)
  with assms(3,4) show "a_user_id r \<noteq> w \<and> a_user_id b \<noteq> w" by simp
qed simp

lemma trash_keeps_rows:
  assumes "catalog_ok d" "a \<in> set (assets d)" "a_user_id a \<noteq> w"
  shows "owner_rows w (snd (trash_asset e now (a_id a) actor rd d)) = owner_rows w d"
proof -
  obtain res d' where run: "trash_asset e now (a_id a) actor rd d = (res, d')" by (rule prod.exhaust)
  then have "owner_rows w d' = owner_rows w d"
  proof (cases rule: trash_asset_cases)
    case (trashed b n x)
    then have "b = a" using assms(1,2) by (auto simp: catalog_ok_def dest: assets_ok_id)
    moreover have "a_user_id (trashed_row now n actor a) = a_user_id a" by (simp add: trashed_row_def)
    ultimately show ?thesis
      using owner_rows_own [OF assms, of "trashed_row now n actor a"] trashed(7) by (simp add: owner_rows_def)
  qed (auto simp: owner_rows_def)
  with run show ?thesis by simp
qed

lemma restore_keeps_rows:
  assumes "catalog_ok d" "a \<in> set (assets d)" "a_user_id a \<noteq> w"
  shows "owner_rows w (snd (restore_asset_from_trash a actor d)) = owner_rows w d"
proof -
  obtain res d' where run: "restore_asset_from_trash a actor d = (res, d')" by (rule prod.exhaust)
  then have "owner_rows w d' = owner_rows w d"
  proof (cases rule: restore_cases)
    case (restored b)
    then have b: "b = a" using assms(1,2) by (auto simp: catalog_ok_def dest: assets_ok_id)
    moreover have "a_user_id (restored_row a) = a_user_id a" by (simp add: restored_row_def)
    ultimately show ?thesis
      using owner_rows_own [OF assms, of "restored_row a"] restored(8) by (auto simp: owner_rows_def)
  qed simp
  with run show ?thesis by simp
qed

lemma rollback_keeps_rows:
  assumes "catalog_ok d" "a \<in> set (assets d)" "a_user_id a \<noteq> w"
  shows "owner_rows w (snd (rollback_asset now c a actor d)) = owner_rows w d"
proof -
  obtain res d' where run: "rollback_asset now c a actor d = (res, d')" by (rule prod.exhaust)
  then have "owner_rows w d' = owner_rows w d"
  proof (cases rule: rollback_cases)
    case (rolled c' t x)
    have rows: "assets_ok (assets d)" using assms(1) by (simp add: catalog_ok_def)
    have owner: "a_user_id t = a_user_id a" using rolled(6) by (simp add: same_item_def)
    let ?mid = "d\<lparr>assets := sql_update (\<lambda>b. a_id b \<in> set (superseded_ids d t)) (supersede now) (assets d)\<rparr>"
    have "owner_rows w ?mid = owner_rows w d"
    proof (rule owner_rows_update)
      fix r assume r: "r \<in> set (assets d)" "a_id r \<in> set (superseded_ids d t)"
      then have "a_user_id r = a_user_id t" using superseded_id_iff [OF rows r(1)] by (simp add: same_item_def)
      with owner assms(3) show "a_user_id r \<noteq> w \<and> a_user_id (supersede now r) \<noteq> w" by (simp add: supersede_def)
    qed simp
    moreover have "catalog_ok ?mid" using rollback_assets(1) [OF rows rolled(5)] assms(1) by (simp add: catalog_ok_def)
    moreover have "a_user_id (activate t) = a_user_id t" by (simp add: activate_def)
    ultimately show ?thesis
      using owner_rows_own [of ?mid t w "activate t"] rollback_assets(2) [OF rows rolled(5)] rolled(10) owner assms(3)
      by (simp add: owner_rows_def)
  qed simp_all
  with run show ?thesis by simp
qed

lemma handler_keeps:
  assumes ok: "catalog_ok d" and w: "u_id u \<noteq> w"
  shows "owner_rows w (fst (snd (asset_handler e now refused u call d))) = owner_rows w d \<and>
    asset_of_job ` set (snd (snd (asset_handler e now refused u call d))) \<subseteq> owned (u_id u) d"
proof -
  have own: "a \<in> set (assets d) \<and> a_user_id a = u_id v" if "own_asset v i d = Some a" for a i v
    using that by (auto simp: own_asset_def)
  have active: "a \<in> set (assets d) \<and> a_user_id a = u_id u" if "own_active_asset u i d = Some a" for a i
    using that by (auto simp: own_active_asset_def)
  have lock: "lock_active_asset_writer (u_id u) d = Inr v \<Longrightarrow> u_id v = u_id u" for v
    by (auto simp: lock_active_asset_writer_def active_user_def split: option.splits)
  have cell: "owner_rows w (update_asset (a_id a) (\<lambda>_. b) d) = owner_rows w d" if "a \<in> set (assets d)" "a_user_id a = u_id u" "a_user_id b = a_user_id a" for a b
    using owner_rows_own [OF ok that(1) _ that(3)] that(2) w by simp
  have trans: "owner_rows w (snd (transition r d)) = owner_rows w d" if "owner_rows w (snd r) = owner_rows w d" for r
    using that by (simp add: transition_snd split: sum.splits)
  have mine: "a \<in> set (assets d) \<Longrightarrow> a_user_id a = u_id u \<Longrightarrow> a_id a \<in> owned (u_id u) d" for a by (auto simp: owned_def)
  show ?thesis
  proof (cases call)
    case (MoveToTrash i)
    with active w show ?thesis
      by (auto simp: move_to_trash_def intro!: trans trash_keeps_rows [OF ok] split: option.splits)
  next
    case (DeleteAsset i)
    with active w show ?thesis
      by (auto simp: delete_asset_request_def intro!: trans trash_keeps_rows [OF ok] split: option.splits)
  next
    case (RestoreFromTrash i)
    show ?thesis
    proof (cases "lock_active_asset_writer (u_id u) d")
      case (Inr v)
      with RestoreFromTrash own [of v i] lock [OF Inr] w show ?thesis
        by (auto simp: restore_from_trash_def intro!: trans restore_keeps_rows [OF ok] split: option.splits)
    qed (simp add: RestoreFromTrash restore_from_trash_def)
  next
    case (RollbackTo i version)
    show ?thesis
    proof (cases "lock_active_asset_writer (u_id u) d")
      case (Inr v)
      with RollbackTo own [of v version] lock [OF Inr] w show ?thesis
        by (auto simp: rollback_to_version_def intro!: trans rollback_keeps_rows [OF ok] split: option.splits)
    qed (simp add: RollbackTo rollback_to_version_def)
  next
    case (PurgeRetained i)
    with own [of u i] mine show ?thesis by (auto simp: purge_when_retained_def Let_def split: option.splits)
  next
    case Reindex
    have "owner_rows w (fst (snd (reindex_asset_metadata refused ''broker'' u d))) = owner_rows w d"
      unfolding reindex_asset_metadata_def Let_def owner_rows_def by (simp, rule filter_sql_update) (use w in auto)
    with Reindex mine show ?thesis by (auto simp: reindex_asset_metadata_def Let_def)
  next
    case ProtectAll
    have "owner_rows w (fst (snd (protect_all_assets refused u d))) = owner_rows w d"
      unfolding protect_all_assets_def Let_def owner_rows_def by (simp, rule filter_sql_update) (use w in auto)
    with ProtectAll mine show ?thesis by (auto simp: protect_all_assets_def Let_def)
  next
    case (RestoreCopy i)
    with active [of i] cell mine show ?thesis by (auto simp: restore_asset_copy_def Let_def split: option.splits)
  next
    case (ProtectCopy i)
    with own [of u i] cell mine show ?thesis by (auto simp: protect_asset_copy_def Let_def split: option.splits)
  qed
qed

lemma status_update_ok:
  assumes "assets_ok t"
    "\<And>r. a_id (f r) = a_id r \<and> same_item (f r) r \<and> a_version (f r) = a_version r \<and> a_lifecycle_state (f r) = a_lifecycle_state r \<and>
       a_trashed_at (f r) = a_trashed_at r \<and> a_purge_after (f r) = a_purge_after r \<and> a_deleted_by (f r) = a_deleted_by r \<and>
       a_superseded_at (f r) = a_superseded_at r"
  shows "assets_ok (sql_update P f t)"
proof (rule assets_ok_update [OF assms(1)])
  fix a assume a: "a \<in> set t" "P a"
  have "retention_ok a" using assets_ok_row [OF assms(1) a(1)] by simp
  then have "retention_ok (f a)" using assms(2) [of a] by (simp add: retention_ok_def)
  moreover have "a_id c = a_id a" if "c \<in> set t" "same_item c a" "a_lifecycle_state c = Active" "a_lifecycle_state a = Active" for c
    using assets_ok_active [OF assms(1) that(1) a(1) that(2,3,4)] .
  moreover have "same_item (f c) a = same_item c a" for c
    using assms(2) [of c] by (auto simp: same_item_def)
  ultimately show "a_id (f a) = a_id a \<and> same_item (f a) a \<and> a_version (f a) = a_version a \<and> retention_ok (f a) \<and>
      (a_lifecycle_state (f a) = Active \<longrightarrow>
       (\<forall>b \<in> set t. same_item b a \<longrightarrow> a_lifecycle_state b = Active \<longrightarrow> \<not> P b \<longrightarrow> a_id b = a_id a) \<and>
       (\<forall>b \<in> set t. P b \<longrightarrow> a_lifecycle_state (f b) = Active \<longrightarrow> same_item b a \<longrightarrow> a_id b = a_id a))"
    using assms(2) by auto
qed

lemma own_row_ok:
  assumes "catalog_ok d" "a \<in> set (assets d)"
    "a_id b = a_id a" "same_item b a" "a_version b = a_version a" "a_lifecycle_state b = a_lifecycle_state a"
    "a_trashed_at b = a_trashed_at a" "a_purge_after b = a_purge_after a" "a_deleted_by b = a_deleted_by a"
    "a_superseded_at b = a_superseded_at a"
  shows "catalog_ok (update_asset (a_id a) (\<lambda>_. b) d)"
proof -
  have rows: "assets_ok (assets d)" using assms(1) by (simp add: catalog_ok_def)
  have "retention_ok a" using assets_ok_row [OF rows assms(2)] by simp
  then have "retention_ok b" using assms(6-10) by (simp add: retention_ok_def)
  moreover have "a_lifecycle_state b = Active \<Longrightarrow> \<forall>c \<in> set (assets d). same_item c a \<longrightarrow> a_lifecycle_state c = Active \<longrightarrow> a_id c = a_id a"
    using assets_ok_active [OF rows _ assms(2)] assms(6) by simp
  ultimately have "assets_ok (assets (update_asset (a_id a) (\<lambda>_. b) d))"
    using assets_ok_replace [OF rows assms(2-5)] by simp
  with assms(1) show ?thesis by (simp add: catalog_ok_def)
qed

lemma handler_catalog:
  assumes ok: "catalog_ok d"
  shows "catalog_ok (fst (snd (asset_handler e now refused u call d)))"
proof -
  have trash: "catalog_ok (snd (trash_asset e now i actor rd d))" for i actor rd
    using trash_asset_ok [OF _ ok] by (metis prod.collapse)
  have restore: "catalog_ok (snd (restore_asset_from_trash a actor d))" for a actor
    using restore_asset_ok [OF _ ok] by (metis prod.collapse)
  have roll: "catalog_ok (snd (rollback_asset now c a actor d))" for c a actor
    using rollback_asset_ok [OF _ ok] by (metis prod.collapse)
  have trans: "catalog_ok (snd (transition r d))" if "catalog_ok (snd r)" for r
    using that ok by (simp add: transition_snd split: sum.splits)
  have replicas: "catalog_ok (d\<lparr>assets := t\<rparr>)" if "assets_ok t" for t using that ok by (simp add: catalog_ok_def)
  have rows: "assets_ok (assets d)" using ok by (simp add: catalog_ok_def)
  show ?thesis
  proof (cases call)
    case (MoveToTrash i)
    with ok show ?thesis by (simp add: move_to_trash_def trans trash split: option.splits)
  next
    case (DeleteAsset i)
    with ok show ?thesis by (simp add: delete_asset_request_def trans trash split: option.splits)
  next
    case (RestoreFromTrash i)
    with ok show ?thesis by (simp add: restore_from_trash_def trans restore split: option.splits sum.splits)
  next
    case (RollbackTo i v)
    with ok show ?thesis by (simp add: rollback_to_version_def trans roll split: option.splits sum.splits)
  next
    case (PurgeRetained i)
    with ok show ?thesis by (simp add: purge_when_retained_def Let_def split: option.splits)
  next
    case Reindex
    then show ?thesis
      by (simp add: reindex_asset_metadata_def Let_def) (rule replicas, rule status_update_ok [OF rows], simp add: same_item_def)
  next
    case ProtectAll
    then show ?thesis
      by (simp add: protect_all_assets_def Let_def) (rule replicas, rule status_update_ok [OF rows], simp add: same_item_def)
  next
    case (RestoreCopy i)
    show ?thesis
    proof (cases "own_active_asset u i d")
      case (Some a)
      then have "a \<in> set (assets d)" by (auto simp: own_active_asset_def)
      with RestoreCopy Some ok show ?thesis
        by (auto simp: restore_asset_copy_def Let_def same_item_def intro!: own_row_ok)
    qed (use RestoreCopy ok in \<open>simp add: restore_asset_copy_def\<close>)
  next
    case (ProtectCopy i)
    show ?thesis
    proof (cases "own_asset u i d")
      case (Some a)
      then have "a \<in> set (assets d)" by (auto simp: own_asset_def)
      with ProtectCopy Some ok show ?thesis
        by (auto simp: protect_asset_copy_def Let_def same_item_def intro!: own_row_ok)
    qed (use ProtectCopy ok in \<open>simp add: protect_asset_copy_def\<close>)
  qed
qed

definition asset_run ::
  "env \<Rightarrow> (time \<times> (asset_job \<Rightarrow> bool) \<times> uuid \<times> asset_call) list \<Rightarrow> db \<times> asset_job list \<Rightarrow> db \<times> asset_job list" where
  "asset_run e qs s = fold (asset_perform e) qs s"

definition requested_by :: "uuid \<Rightarrow> time \<times> (asset_job \<Rightarrow> bool) \<times> uuid \<times> asset_call \<Rightarrow> bool" where
  "requested_by w q \<longleftrightarrow> fst (snd (snd q)) = w"

definition jobs_avoid :: "uuid \<Rightarrow> db \<times> asset_job list \<Rightarrow> bool" where
  "jobs_avoid w s \<longleftrightarrow> (\<forall>j \<in> set (snd s). asset_of_job j \<notin> owned w (fst s))"

lemma owned_rows: "owned w d = a_id ` set (owner_rows w d)"
  by (auto simp: owned_def owner_rows_def)

lemma perform_keeps:
  assumes "catalog_ok (fst s)" "jobs_avoid w s" "\<not> requested_by w q"
  shows "catalog_ok (fst (asset_perform e q s)) \<and> owner_rows w (fst (asset_perform e q s)) = owner_rows w (fst s) \<and>
    jobs_avoid w (asset_perform e q s)"
proof -
  obtain now refused uid call where q: "q = (now, refused, uid, call)" by (metis prod.exhaust)
  show ?thesis
  proof (cases "find_user (fst s) uid")
    case None
    with assms q show ?thesis by (simp add: asset_perform_def)
  next
    case (Some u)
    then have u: "u_id u = uid" by (auto simp: find_user_def)
    obtain r d js where h: "asset_handler e now refused u call (fst s) = (r, d, js)" by (rule prod_cases3)
    have kept: "owner_rows w d = owner_rows w (fst s)" "asset_of_job ` set js \<subseteq> owned (u_id u) (fst s)"
      using handler_keeps [OF assms(1), of u w e now refused call] u assms(3) q h by (simp_all add: requested_by_def)
    have ne: "u_id u \<noteq> w" using assms(3) u q by (simp add: requested_by_def)
    have apart: "i \<notin> owned w (fst s)" if "i \<in> owned (u_id u) (fst s)" for i
    proof
      assume "i \<in> owned w (fst s)"
      with that obtain a b where ab: "a \<in> set (assets (fst s))" "b \<in> set (assets (fst s))" "a_id a = a_id b"
        "a_user_id a = u_id u" "a_user_id b = w" by (auto simp: owned_def)
      with assms(1) have "a = b" by (auto simp: catalog_ok_def intro: assets_ok_id)
      with ab(4,5) ne show False by simp
    qed
    have "asset_of_job j \<notin> owned w (fst s)" if "j \<in> set (snd s) \<union> set js" for j
      using that assms(2) kept(2) apart unfolding jobs_avoid_def by blast
    moreover have "owned w d = owned w (fst s)" by (simp add: owned_rows kept(1))
    ultimately have "jobs_avoid w (d, snd s @ js)" by (simp add: jobs_avoid_def)
    moreover have "catalog_ok d" using handler_catalog [OF assms(1), of e now refused u call] h by simp
    ultimately show ?thesis using q Some h kept(1) by (simp add: asset_perform_def)
  qed
qed

text \<open>C37: Accounts are apart.  Over any sequence of requests on revisions, in which none is made by the account \<open>w\<close>,
  the rows of that account stay exactly as they were, and no job is published for any of its assets.\<close>

theorem requests_leave_other_accounts_alone:
  assumes "catalog_ok d" "\<forall>q \<in> set qs. \<not> requested_by w q"
  shows "owner_rows w (fst (asset_run e qs (d, []))) = owner_rows w d \<and>
    (\<forall>j \<in> set (snd (asset_run e qs (d, []))). asset_of_job j \<notin> owned w d)"
proof -
  have "owner_rows w (fst (asset_run e qs s)) = owner_rows w (fst s) \<and> jobs_avoid w (asset_run e qs s)"
    if "catalog_ok (fst s)" "jobs_avoid w s" for s
    using that assms(2) unfolding asset_run_def
  proof (induction qs arbitrary: s)
    case (Cons q qs)
    from perform_keeps [OF Cons.prems(1,2), of q e] Cons.prems(3) Cons.IH [of "asset_perform e q s"]
    show ?case by simp
  qed simp
  then have same: "owner_rows w (fst (asset_run e qs (d, []))) = owner_rows w d" and apart: "jobs_avoid w (asset_run e qs (d, []))"
    using assms(1) by (simp_all add: jobs_avoid_def)
  have "owned w (fst (asset_run e qs (d, []))) = owned w d" by (simp add: owned_rows same)
  with same apart show ?thesis by (simp add: jobs_avoid_def)
qed

text \<open>A request for protection is accepted for a revision in the trash, but the worker leaves such a revision as it is:
  its status stays at ``queued''.\<close>

lemma trashed_protection_stays_queued:
  assumes "catalog_ok d" "own_asset u i d = Some a" "a_lifecycle_state a = Trashed" "\<not> refused (ProtectJob i)"
    "protect_asset_copy refused u i d = (r, d', js)"
  shows "js = [ProtectJob i] \<and> (\<exists>b \<in> set (assets d'). a_id b = i \<and> a_protection_status b = ''queued'') \<and>
    protect_asset e now ev fresh i d' f = (Inr (), d', f)"
proof -
  have a: "a \<in> set (assets d)" "a_id a = i" using assms(2) by (auto simp: own_asset_def)
  let ?b = "a\<lparr>a_protection_status := ''queued''\<rparr>"
  have run: "d' = update_asset i (\<lambda>_. ?b) d" "js = [ProtectJob i]"
    using assms(2,4,5) a(2) by (auto simp: protect_asset_copy_def Let_def)
  have state: "a_lifecycle_state ?b \<noteq> Active" "a_id ?b = i" using assms(3) a(2) by simp_all
  have "c = ?b" if "c \<in> set (assets d')" "a_id c = i" for c
    using that by (auto simp: run(1) set_sql_update split: if_splits)
  with state(1) have "sql_first (\<lambda>c. a_id c = i \<and> P c \<and> a_lifecycle_state c = Active) (assets d') = None" for P
    unfolding sql_first_None by blast
  then have "active_asset_for_write i d' = None"
    unfolding active_asset_for_write_def by (simp split: option.split)
  moreover have "?b \<in> set (assets d')" using a by (force simp: run(1) set_sql_update)
  ultimately show ?thesis using run(2) state(2) by (auto simp: protect_asset_def intro!: bexI [of _ ?b])
qed

section \<open>On concrete requests\<close>

definition request_db :: db where
  "request_db = empty_db\<lparr>users := [sample_user 1, (sample_user 2)\<lparr>u_email := ''bob@example.org''\<rparr>],
     assets := [sample_asset 5 1 ''/data/originals/x'', (sample_asset 6 2 ''/data/originals/y'')\<lparr>a_checksum := ''y''\<rparr>]\<rparr>"

lemma request_db_ok: "catalog_ok request_db"
  by (simp add: request_db_def catalog_ok_def assets_ok_def empty_db_def sample_asset_def retention_ok_def same_item_def)

theorem requests_refine_revisions_witness:
  "revision_step {5} (siblings request_db) (revision_states request_db)
     (revision_states (fst (snd (asset_handler sample_env 0 (\<lambda>_. False) (sample_user 1) (MoveToTrash 5) request_db))))"
proof -
  have "owned (u_id (sample_user 1)) request_db = {5}"
    unfolding owned_rows by (simp add: owner_rows_def request_db_def sample_user_def sample_asset_def empty_db_def)
  with requests_refine_revisions [OF request_db_ok, of "sample_user 1" sample_env 0 "\<lambda>_. False" "MoveToTrash 5"]
  show ?thesis by simp
qed

theorem requests_leave_other_accounts_alone_witness:
  "owner_rows 2 (fst (asset_run sample_env [(0, \<lambda>_. False, 1, MoveToTrash 6), (1, \<lambda>_. False, 1, ProtectAll)] (request_db, [])))
     = [(sample_asset 6 2 ''/data/originals/y'')\<lparr>a_checksum := ''y''\<rparr>]"
proof -
  have "\<forall>q \<in> set [(0, \<lambda>_. False, 1, MoveToTrash 6), (1, \<lambda>_. False, 1, ProtectAll)]. \<not> requested_by 2 q"
    by (simp add: requested_by_def)
  from requests_leave_other_accounts_alone [OF request_db_ok this, of sample_env]
  show ?thesis by (simp add: owner_rows_def request_db_def sample_asset_def empty_db_def)
qed

end
