(* ===== verification/Processing.thy ===== *)
theory Processing
  imports Ingestion Restoration
begin

text \<open>
  Media processing by the worker (\<open>worker/tasks.py\<close>): the plaintext of an asset for the duration of a task, the
  metadata and thumbnail of a new asset, and its search index.  The tools that read media (an image library,
  \<open>ffprobe\<close>, text recognition, the embedding model) are the parameters of \<open>media_tools\<close>.
\<close>

section \<open>What the media tools report\<close>

record image_details =
  im_width :: int
  im_height :: int
  im_hash :: string
  im_taken_at :: time
  im_latitude :: "rat option"
  im_longitude :: "rat option"
  im_camera_make :: "string option"
  im_camera_model :: "string option"
  im_lens_model :: "string option"
  im_orientation :: "int option"
  im_metadata :: json

record video_details =
  vd_width :: "int option"
  vd_height :: "int option"
  vd_duration_seconds :: "rat option"
  vd_taken_at :: time
  vd_latitude :: "rat option"
  vd_longitude :: "rat option"
  vd_camera_make :: "string option"
  vd_camera_model :: "string option"
  vd_orientation :: "int option"
  vd_metadata :: json

text \<open>
  \<open>mt_image\<close> takes the bytes of an image and the time to fall back on; it reports the thumbnail it saved, if it came to
  that, and how it ended.  \<open>mt_float\<close> and \<open>mt_int\<close> are \<open>float\<close> and \<open>int\<close> of a text, \<open>None\<close> a \<open>ValueError\<close>.
\<close>

record media_tools =
  mt_image :: "bytes \<Rightarrow> time \<Rightarrow> bytes option \<times> (exn + image_details)"
  mt_probe :: "bytes \<Rightarrow> exn + json"
  mt_float :: "string \<Rightarrow> rat option"
  mt_int :: "string \<Rightarrow> int option"
  mt_ocr :: "bytes \<Rightarrow> string"
  mt_embed :: "string \<Rightarrow> rat list"

section \<open>Metadata of a video\<close>

definition media_text :: "json option \<Rightarrow> string option" where
  "media_text v =
     (case v of
        None \<Rightarrow> None
      | Some JNull \<Rightarrow> None
      | Some j \<Rightarrow>
          (let drop_ends = dropWhile (\<lambda>c. c = CHR 0x00 \<or> c = CHR '' '');
               t = rev (drop_ends (rev (drop_ends (py_str j))))
           in if t = [] then None else Some t))"

text \<open>\<open>a or b\<close> of two optional values.\<close>

definition either :: "json option \<Rightarrow> json option \<Rightarrow> json option" where
  "either x y = (case x of Some j \<Rightarrow> if json_true j then x else y | None \<Rightarrow> y)"

definition present :: "json option \<Rightarrow> bool" where
  "present x \<longleftrightarrow> (case x of Some j \<Rightarrow> json_true j | None \<Rightarrow> False)"

definition float_of :: "media_tools \<Rightarrow> json \<Rightarrow> exn + rat" where
  "float_of m j =
     (case j of
        JInt i \<Rightarrow> Inr (of_int i)
      | JBool b \<Rightarrow> Inr (if b then 1 else 0)
      | JFloat t \<Rightarrow> (case mt_float m t of Some q \<Rightarrow> Inr q | None \<Rightarrow> Inl (ValueError ''float''))
      | JStr t \<Rightarrow> (case mt_float m t of Some q \<Rightarrow> Inr q | None \<Rightarrow> Inl (ValueError ''float''))
      | _ \<Rightarrow> Inl (TypeError ''float''))"

definition truncate_rat :: "rat \<Rightarrow> int" where
  "truncate_rat q = (if q < 0 then - \<lfloor>- q\<rfloor> else \<lfloor>q\<rfloor>)"

definition int_of :: "media_tools \<Rightarrow> json \<Rightarrow> exn + int" where
  "int_of m j =
     (case j of
        JStr t \<Rightarrow> (case mt_int m t of Some i \<Rightarrow> Inr i | None \<Rightarrow> Inl (ValueError ''int''))
      | _ \<Rightarrow> sbind (float_of m j) (\<lambda>q. Inr (truncate_rat q)))"

definition media_datetime :: "env \<Rightarrow> json option \<Rightarrow> time \<Rightarrow> time" where
  "media_datetime e v fallback =
     (if \<not> present v then fallback
      else case parse_iso e (concat (map (\<lambda>c. if c = CHR ''Z'' then ''+00:00'' else [c]) (py_str (the v)))) of
        Some t \<Rightarrow> t | None \<Rightarrow> fallback)"

text \<open>The two signed numbers a location starts with.\<close>

definition digit :: "char \<Rightarrow> bool" where
  "digit c \<longleftrightarrow> CHR ''0'' \<le> c \<and> c \<le> CHR ''9''"

definition signed_number :: "string \<Rightarrow> (string \<times> string) option" where
  "signed_number s =
     (case s of
        [] \<Rightarrow> None
      | c # r \<Rightarrow>
          (let whole = takeWhile digit r; rest = dropWhile digit r;
               fraction = takeWhile digit (tl rest)
           in if (c \<noteq> CHR ''+'' \<and> c \<noteq> CHR ''-'') \<or> whole = [] then None
              else if rest \<noteq> [] \<and> hd rest = CHR ''.'' \<and> fraction \<noteq> []
              then Some (c # whole @ ''.'' @ fraction, dropWhile digit (tl rest))
              else Some (c # whole, rest)))"

definition location_of :: "media_tools \<Rightarrow> json option \<Rightarrow> (rat \<times> rat) option" where
  "location_of m v =
     (if \<not> present v then None
      else case signed_number (py_str (the v)) of
        None \<Rightarrow> None
      | Some (latitude, rest) \<Rightarrow>
          (case signed_number rest of
             None \<Rightarrow> None
           | Some (longitude, _) \<Rightarrow>
               (case (mt_float m latitude, mt_float m longitude) of (Some x, Some y) \<Rightarrow> Some (x, y) | _ \<Rightarrow> None)))"

definition is_object :: "json option \<Rightarrow> bool" where
  "is_object v \<longleftrightarrow> (case v of Some (JObj _) \<Rightarrow> True | _ \<Rightarrow> False)"

definition entries_of :: "json option \<Rightarrow> (string \<times> json) list" where
  "entries_of v = (case v of Some (JObj kvs) \<Rightarrow> kvs | _ \<Rightarrow> [])"

definition items_of :: "json option \<Rightarrow> json list" where
  "items_of v = (case v of Some (JList xs) \<Rightarrow> xs | _ \<Rightarrow> [])"

definition given :: "json option \<Rightarrow> bool" where
  "given v \<longleftrightarrow> v \<noteq> None \<and> v \<noteq> Some JNull"

definition rotation_of :: "json \<Rightarrow> json option" where
  "rotation_of video =
     (let rotate = map_of (entries_of (json_get ''tags'' video)) ''rotate'' in
      if given rotate then rotate
      else Option.bind (sql_first (\<lambda>x. given (json_get ''rotation'' x)) (items_of (json_get ''side_data_list'' video)))
        (json_get ''rotation''))"

text \<open>An absent value is skipped, a present one has to convert.\<close>

definition converted :: "(json \<Rightarrow> exn + 'a) \<Rightarrow> json option \<Rightarrow> exn + 'a option" where
  "converted f v = (if present v then sbind (f (the v)) (\<lambda>x. Inr (Some x)) else Inr None)"

definition video_metadata_from_probe :: "env \<Rightarrow> media_tools \<Rightarrow> json \<Rightarrow> time \<Rightarrow> exn + video_details" where
  "video_metadata_from_probe e m probe fallback =
     (let video = (case sql_first (\<lambda>x. is_object (Some x) \<and> json_get ''codec_type'' x = Some (JStr ''video''))
                          (items_of (json_get ''streams'' probe)) of Some x \<Rightarrow> x | None \<Rightarrow> JObj []);
          format_data = JObj (entries_of (json_get ''format'' probe));
          tags = map_of (entries_of (json_get ''tags'' video) @ entries_of (json_get ''tags'' format_data));
          place = location_of m (either (tags ''location'') (tags ''com.apple.quicktime.location.ISO6709''))
      in sbind (converted (int_of m) (json_get ''width'' video)) (\<lambda>width.
         sbind (converted (int_of m) (json_get ''height'' video)) (\<lambda>height.
         sbind (converted (float_of m) (either (json_get ''duration'' video) (json_get ''duration'' format_data))) (\<lambda>duration.
         sbind (case rotation_of video of None \<Rightarrow> Inr None
                | Some j \<Rightarrow> sbind (float_of m j) (\<lambda>q. Inr (Some (truncate_rat q)))) (\<lambda>rotation.
           Inr \<lparr>vd_width = width, vd_height = height, vd_duration_seconds = duration,
                vd_taken_at = media_datetime e (tags ''creation_time'') fallback,
                vd_latitude = map_option fst place, vd_longitude = map_option snd place,
                vd_camera_make = media_text (either (tags ''com.apple.quicktime.make'') (tags ''make'')),
                vd_camera_model = media_text (either (tags ''com.apple.quicktime.model'') (tags ''model'')),
                vd_orientation = rotation, vd_metadata = JObj [(''ffprobe'', probe)]\<rparr>)))))"

section \<open>Plaintext for the duration of a task\<close>

text \<open>\<open>tmp\<close> is the name of the temporary file, which does not exist.  The file is removed however the task ends; a
  failure to remove it replaces the outcome.\<close>

definition decrypted_temporary_file ::
  "env \<Rightarrow> string \<Rightarrow> bytes \<Rightarrow> string \<Rightarrow> uuid \<Rightarrow> (string \<Rightarrow> fs \<Rightarrow> (exn + 'a) \<times> fs) \<Rightarrow> fs \<Rightarrow> (exn + 'a) \<times> fs" where
  "decrypted_temporary_file e source key tmp user_id body f =
     (let dir = path_join (staging_path (cfg e)) (uuid_str user_id); destination = path_join dir tmp in
      case sbind (require_storage_path e f source) (\<lambda>_. require_storage_path e f dir) of
        Inl x \<Rightarrow> (Inl x, f)
      | Inr _ \<Rightarrow>
          (let (r, f) = (case decrypt_file e source destination key (mkdirs e dir f) of
                 (Inl x, f) \<Rightarrow> (Inl x, f)
               | (Inr _, f) \<Rightarrow> body destination f)
           in case sbind (require_storage_path e f destination) (\<lambda>_. unlink_missing_ok e destination f) of
                Inl x \<Rightarrow> (Inl x, f)
              | Inr f \<Rightarrow> (r, f)))"

definition plaintext_asset_file ::
  "env \<Rightarrow> asset \<Rightarrow> user \<Rightarrow> string \<Rightarrow> (string \<Rightarrow> fs \<Rightarrow> (exn + 'a) \<times> fs) \<Rightarrow> fs \<Rightarrow> (exn + 'a) \<times> fs" where
  "plaintext_asset_file e a u tmp body f =
     (case require_storage_path e f (a_original_path a) of
        Inl x \<Rightarrow> (Inl x, f)
      | Inr _ \<Rightarrow>
          if a_encryption_version a = 0 then body (a_original_path a) f
          else (case user_media_key e u of
             Inl x \<Rightarrow> (Inl x, f)
           | Inr key \<Rightarrow> decrypted_temporary_file e (a_original_path a) key tmp (a_user_id a) body f))"

definition extract_and_thumbnail ::
  "env \<Rightarrow> media_tools \<Rightarrow> string \<Rightarrow> string \<Rightarrow> time \<Rightarrow> fs \<Rightarrow> (exn + image_details) \<times> fs" where
  "extract_and_thumbnail e m original thumbnail fallback f =
     (case sbind (require_storage_path e f original) (\<lambda>_. sbind (require_storage_path e f thumbnail) (\<lambda>_. read_bytes e f original)) of
        Inl x \<Rightarrow> (Inl x, f)
      | Inr content \<Rightarrow>
          (case mt_image m content fallback of
             (None, r) \<Rightarrow> ((case r of Inl x \<Rightarrow> Inl x | Inr _ \<Rightarrow> Inl (OSError ''save'')), f)
           | (Some webp, r) \<Rightarrow>
               (let f = mkdirs e (parent_dir thumbnail) f in
                if write_fails e thumbnail then (Inl (OSError ''write''), f)
                else (r, write_file e thumbnail webp f))))"

section \<open>Processing an asset\<close>

datatype media_job = IndexMedia uuid | GroupMedia uuid | ProtectMedia uuid

text \<open>The random parts of the names and the nonce of a derivative.\<close>

record process_fresh =
  pf_plaintext :: string
  pf_thumbnail :: uuid
  pf_nonce :: bytes

definition with_video :: "video_details \<Rightarrow> asset \<Rightarrow> asset" where
  "with_video v a = a\<lparr>a_taken_at := Some (vd_taken_at v), a_media := (a_media a)\<lparr>m_width := vd_width v, m_height := vd_height v,
     m_duration_seconds := vd_duration_seconds v, m_latitude := vd_latitude v, m_longitude := vd_longitude v,
     m_camera_make := vd_camera_make v, m_camera_model := vd_camera_model v, m_orientation := vd_orientation v,
     m_metadata_json := Some (vd_metadata v)\<rparr>\<rparr>"

definition with_image :: "image_details \<Rightarrow> string \<Rightarrow> asset \<Rightarrow> asset" where
  "with_image v thumbnail a = a\<lparr>a_taken_at := Some (im_taken_at v), a_thumbnail_path := Some thumbnail,
     a_media := (a_media a)\<lparr>m_width := Some (im_width v), m_height := Some (im_height v), m_perceptual_hash := Some (im_hash v),
       m_latitude := im_latitude v, m_longitude := im_longitude v, m_camera_make := im_camera_make v,
       m_camera_model := im_camera_model v, m_lens_model := im_lens_model v, m_orientation := im_orientation v,
       m_metadata_json := Some (im_metadata v)\<rparr>\<rparr>"

definition media_time :: "asset \<Rightarrow> time" where
  "media_time a = (case a_file_modified_at a of Some t \<Rightarrow> t | None \<Rightarrow> a_created_at a)"

definition plain_thumbnail :: "env \<Rightarrow> asset \<Rightarrow> string" where
  "plain_thumbnail e a = resolve e (path_join (path_join (path_join (derivatives_path (cfg e)) ''thumbnails'')
     (take 2 (a_checksum a))) (a_checksum a @ ''.webp''))"

definition staged_thumbnail :: "env \<Rightarrow> asset \<Rightarrow> uuid \<Rightarrow> string" where
  "staged_thumbnail e a fresh = resolve e (path_join (path_join (staging_path (cfg e)) (uuid_str (a_user_id a)))
     (uuid_str (a_id a) @ ''.'' @ uuid_hex fresh @ ''.thumbnail.webp''))"

definition image_of ::
  "env \<Rightarrow> media_tools \<Rightarrow> process_fresh \<Rightarrow> asset \<Rightarrow> user \<Rightarrow> string \<Rightarrow> fs \<Rightarrow> (exn + asset) \<times> fs" where
  "image_of e m fresh a u original f =
     (if a_encryption_version a = 0 then
        (let thumbnail = plain_thumbnail e a
         in case extract_and_thumbnail e m original thumbnail (media_time a) f of
              (Inl x, f) \<Rightarrow> (Inl x, f)
            | (Inr v, f) \<Rightarrow> (Inr (with_image v (canonical_storage_path e thumbnail) a), f))
      else
        (let dir = path_join (staging_path (cfg e)) (uuid_str (a_user_id a));
             thumbnail = staged_thumbnail e a (pf_thumbnail fresh);
             final = resolve e (derivative_path_for e ''thumbnails'' (a_checksum a) (a_user_id a))
         in case require_storage_path e f dir of
              Inl x \<Rightarrow> (Inl x, f)
            | Inr _ \<Rightarrow>
                (case extract_and_thumbnail e m original thumbnail (media_time a) (mkdirs e dir f) of
                   (Inl x, f) \<Rightarrow> (Inl x, f)
                 | (Inr v, f) \<Rightarrow>
                     (case user_media_key e u of
                        Inl x \<Rightarrow> (Inl x, f)
                      | Inr key \<Rightarrow>
                          (case commit_encrypted_derivative e thumbnail final key (pf_nonce fresh) f of
                             (Inl x, f) \<Rightarrow> (Inl x, f)
                           | (Inr _, f) \<Rightarrow> (Inr (with_image v (canonical_storage_path e final) a), f))))))"

definition process_media ::
  "env \<Rightarrow> media_tools \<Rightarrow> process_fresh \<Rightarrow> asset \<Rightarrow> user \<Rightarrow> string \<Rightarrow> fs \<Rightarrow> (exn + asset) \<times> fs" where
  "process_media e m fresh a u original f =
     (if prefix ''video/'' (a_mime_type a) then
        (case sbind (read_bytes e f original) (mt_probe m) of
           Inl x \<Rightarrow> (Inl x, f)
         | Inr probe \<Rightarrow> (sbind (video_metadata_from_probe e m probe (media_time a)) (\<lambda>v. Inr (with_video v a)), f))
      else if \<not> prefix ''image/'' (a_mime_type a) then (Inr (a\<lparr>a_taken_at := Some (media_time a)\<rparr>), f)
      else image_of e m fresh a u original f)"

text \<open>Each job is published on its own; that grouping could not be queued is ignored.\<close>

definition publish_jobs :: "env \<Rightarrow> (media_job \<Rightarrow> bool) \<Rightarrow> uuid \<Rightarrow> db \<Rightarrow> db \<times> media_job list" where
  "publish_jobs e refused i d =
     (let wanted = [IndexMedia i, GroupMedia i] @ (if auto_protect_uploads (cfg e) then [ProtectMedia i] else []);
          d = (if refused (IndexMedia i)
               then update_asset i (\<lambda>a. a\<lparr>a_media := (a_media a)\<lparr>m_intelligence_status := ''failed''\<rparr>\<rparr>) d else d);
          d = (if auto_protect_uploads (cfg e) \<and> refused (ProtectMedia i)
               then update_asset i (\<lambda>a. a\<lparr>a_protection_status := ''failed''\<rparr>) d else d)
      in (d, filter (\<lambda>j. \<not> refused j) wanted))"

definition process_asset ::
  "env \<Rightarrow> media_tools \<Rightarrow> process_fresh \<Rightarrow> (media_job \<Rightarrow> bool) \<Rightarrow> uuid \<Rightarrow> db \<Rightarrow> fs \<Rightarrow> (exn + unit) \<times> db \<times> fs \<times> media_job list" where
  "process_asset e m fresh refused i d f =
     (case active_asset_for_write i d of
        None \<Rightarrow> (Inr (), d, f, [])
      | Some (a, u) \<Rightarrow>
          (let working = a\<lparr>a_processing_status := ''processing'', a_processing_error := None\<rparr>;
               (r, f) = (case require_storage e f [''derivatives'', ''staging''] of
                   Inl x \<Rightarrow> (Inl x, f)
                 | Inr _ \<Rightarrow> plaintext_asset_file e working u (pf_plaintext fresh) (process_media e m fresh working u) f)
           in case r of
                Inr b \<Rightarrow>
                  (case publish_jobs e refused i (update_asset i (\<lambda>_. b\<lparr>a_processing_status := ''complete''\<rparr>) d) of
                     (d, js) \<Rightarrow> (Inr (), d, f, js))
              | Inl x \<Rightarrow>
                  (Inl x, update_asset i (\<lambda>a. a\<lparr>a_processing_status := ''failed'',
                      a_processing_error := Some (take 2000 (exn_str x))\<rparr>) d, f, [])))"

section \<open>The search index\<close>

text \<open>Text is recognised in images only; a failure of the tool is an empty text.\<close>

definition extract_ocr :: "env \<Rightarrow> media_tools \<Rightarrow> string \<Rightarrow> string \<Rightarrow> fs \<Rightarrow> string" where
  "extract_ocr e m mime original f =
     (if \<not> prefix ''image/'' mime then []
      else case read_bytes e f original of Inl _ \<Rightarrow> [] | Inr b \<Rightarrow> take 100000 (mt_ocr m b))"

definition index_text :: "asset \<Rightarrow> string \<Rightarrow> string" where
  "index_text a ocr =
     (let opt = (\<lambda>x. case x of None \<Rightarrow> [] | Some t \<Rightarrow> t) in
      strip (joined '' '' (filter (\<lambda>t. t \<noteq> [])
        [opt (a_original_filename a), opt (a_relative_path a), a_mime_type a, opt (m_camera_make (a_media a)),
         opt (m_camera_model (a_media a)), opt (m_lens_model (a_media a)),
         (case a_taken_at a of None \<Rightarrow> [] | Some t \<Rightarrow> isoformat t), ocr])))"

definition with_index :: "media_tools \<Rightarrow> time \<Rightarrow> string \<Rightarrow> asset \<Rightarrow> asset" where
  "with_index m now ocr a =
     (let t = index_text a ocr in
      a\<lparr>a_media := (a_media a)\<lparr>m_ocr_text := (if ocr = [] then None else Some ocr), m_semantic_text := Some t,
         m_embedding := Some (mt_embed m (if t = [] then ''media'' else t)), m_intelligence_status := ''complete'',
         m_indexed_at := Some now\<rparr>\<rparr>)"

definition index_asset ::
  "env \<Rightarrow> media_tools \<Rightarrow> time \<Rightarrow> string \<Rightarrow> uuid \<Rightarrow> db \<Rightarrow> fs \<Rightarrow> (exn + unit) \<times> db \<times> fs" where
  "index_asset e m now tmp i d f =
     (case active_asset_for_write i d of
        None \<Rightarrow> (Inr (), d, f)
      | Some (a, u) \<Rightarrow>
          (case plaintext_asset_file e a u tmp (\<lambda>original f. (Inr (extract_ocr e m (a_mime_type a) original f), f)) f of
             (Inr ocr, f) \<Rightarrow> (Inr (), update_asset i (\<lambda>_. with_index m now ocr a) d, f)
           | (Inl x, f) \<Rightarrow>
               (Inl x, update_asset i (\<lambda>a. a\<lparr>a_media := (a_media a)\<lparr>m_intelligence_status := ''failed''\<rparr>\<rparr>) d, f)))"

section \<open>What the tasks leave on the disk\<close>

lemma extract_files:
  assumes "extract_and_thumbnail e m original thumbnail fallback f = (r, f')"
  shows "files f' = files f \<or> (\<exists>webp. files f' = (files f)(canonical e thumbnail \<mapsto> webp))"
  using assms by (auto simp: extract_and_thumbnail_def Let_def split: sum.splits prod.splits option.splits if_splits)

lemma derivative_files:
  assumes "commit_encrypted_derivative e staged final key nonce f = (Inr v, f')"
  shows "files f' = (files f)(canonical e staged := None) \<or>
    (\<exists>plain. files f (canonical e final) = None \<and>
       files f' = ((files f)(canonical e final \<mapsto> sealed_object e key nonce plain))(canonical e staged := None))"
proof -
  obtain r g where enc: "encrypt_file e staged final key nonce f = (r, g)" by (rule prod.exhaust)
  with assms have "f' = remove_file e staged g" 
    by (auto simp: commit_encrypted_derivative_def Let_def split: sum.splits dest: unlink_checked_Inr)
  with enc show ?thesis by (elim encrypt_cases) auto
qed

text \<open>The names that are private to a task: its temporary file and the staged thumbnail.\<close>

definition private_names :: "env \<Rightarrow> process_fresh \<Rightarrow> asset \<Rightarrow> string set" where
  "private_names e fresh a = {canonical e (path_join (path_join (staging_path (cfg e)) (uuid_str (a_user_id a))) (pf_plaintext fresh)),
     canonical e (staged_thumbnail e a (pf_thumbnail fresh))}"

definition derivative_name :: "env \<Rightarrow> asset \<Rightarrow> string" where
  "derivative_name e a = canonical e (resolve e (derivative_path_for e ''thumbnails'' (a_checksum a) (a_user_id a)))"

text \<open>Outside the private names a file is kept, unless it is the derivative, which then is an encrypted object.\<close>

definition sealed_only :: "env \<Rightarrow> bytes \<Rightarrow> bytes \<Rightarrow> string set \<Rightarrow> string \<Rightarrow> fs \<Rightarrow> fs \<Rightarrow> bool" where
  "sealed_only e key nonce N target f f' \<longleftrightarrow> (\<forall>p. p \<notin> N \<longrightarrow> files f' p = files f p \<or>
     (p = target \<and> (\<exists>plain. files f' p = Some (sealed_object e key nonce plain))))"

lemma image_of_files:
  assumes "image_of e m fresh a u original f = (Inr b, f')" "a_encryption_version a \<noteq> 0" "user_media_key e u = Inr key"
  shows "sealed_only e key (pf_nonce fresh) (private_names e fresh a) (derivative_name e a) f f' \<and>
    files f' (canonical e (staged_thumbnail e a (pf_thumbnail fresh))) = None"
proof -
  let ?dir = "path_join (staging_path (cfg e)) (uuid_str (a_user_id a))" and ?st = "staged_thumbnail e a (pf_thumbnail fresh)"
  let ?fin = "resolve e (derivative_path_for e ''thumbnails'' (a_checksum a) (a_user_id a))"
  obtain r g where ex: "extract_and_thumbnail e m original ?st (media_time a) (mkdirs e ?dir f) = (r, g)" by (rule prod.exhaust)
  with assms obtain v w where c: "commit_encrypted_derivative e ?st ?fin key (pf_nonce fresh) g = (Inr w, f')"
    by (auto simp: image_of_def Let_def split: sum.splits prod.splits)
  have "\<forall>p. p \<noteq> canonical e ?st \<longrightarrow> files g p = files f p" using extract_files [OF ex] by auto
  with derivative_files [OF c] show ?thesis
    by (auto simp: sealed_only_def private_names_def derivative_name_def split: if_splits)
qed

lemma process_media_files:
  assumes "process_media e m fresh a u original f = (Inr b, f')" "a_encryption_version a \<noteq> 0" "user_media_key e u = Inr key"
  shows "sealed_only e key (pf_nonce fresh) (private_names e fresh a) (derivative_name e a) f f' \<and>
    (files f' (canonical e (staged_thumbnail e a (pf_thumbnail fresh))) = None \<or> f' = f)"
  using assms image_of_files [OF _ assms(2,3)]
  by (auto simp: process_media_def sealed_only_def split: if_splits sum.splits)

lemma temporary_files:
  assumes "decrypted_temporary_file e source key tmp uid body f = (Inr b, f')"
  defines "t \<equiv> path_join (path_join (staging_path (cfg e)) (uuid_str uid)) tmp"
  obtains g h content where "files g = (files f)(canonical e t \<mapsto> content)" "body t g = (Inr b, h)"
    "files f' = (files h)(canonical e t := None)"
proof -
  let ?dir = "path_join (staging_path (cfg e)) (uuid_str uid)"
  obtain r g where dec: "decrypt_file e source t key (mkdirs e ?dir f) = (r, g)" by (rule prod.exhaust)
  from assms(1) dec obtain h where h: "r = Inr ()" "body t g = (Inr b, h)" "f' = remove_file e t h"
    by (auto simp: decrypted_temporary_file_def Let_def t_def unlink_missing_ok_def sbind_Inr_iff
        split: sum.splits prod.splits if_splits)
  from dec h(1) obtain cs where "files g = (files f)(canonical e t \<mapsto> concat cs)"
    by (elim decrypt_cases) auto
  from that [OF this h(2)] h(3) show ?thesis by simp
qed

lemma plaintext_removed:
  assumes "plaintext_asset_file e a u (pf_plaintext fresh) (process_media e m fresh a u) f = (Inr b, f')" "a_encryption_version a \<noteq> 0"
    "user_media_key e u = Inr key" "\<forall>p \<in> private_names e fresh a. files f p = None"
  shows "\<forall>p. files f' p = files f p \<or> (p = derivative_name e a \<and> (\<exists>plain. files f' p = Some (sealed_object e key (pf_nonce fresh) plain)))"
proof -
  let ?t = "path_join (path_join (staging_path (cfg e)) (uuid_str (a_user_id a))) (pf_plaintext fresh)"
  from assms(1-3) have "decrypted_temporary_file e (a_original_path a) key (pf_plaintext fresh) (a_user_id a) (process_media e m fresh a u) f = (Inr b, f')"
    by (auto simp: plaintext_asset_file_def split: sum.splits)
  then obtain g h content where s: "files g = (files f)(canonical e ?t \<mapsto> content)" "process_media e m fresh a u ?t g = (Inr b, h)"
    "files f' = (files h)(canonical e ?t := None)" by (rule temporary_files)
  have h: "sealed_only e key (pf_nonce fresh) (private_names e fresh a) (derivative_name e a) g h"
    "files h (canonical e (staged_thumbnail e a (pf_thumbnail fresh))) = None \<or> h = g"
    using process_media_files [OF s(2) assms(2,3)] by simp_all
  have "files f' p = files f p" if "p \<in> private_names e fresh a" for p
    using that h(2) s(1,3) assms(4) by (auto simp: private_names_def)
  moreover have "files f' p = files f p \<or> (p = derivative_name e a \<and> (\<exists>plain. files f' p = Some (sealed_object e key (pf_nonce fresh) plain)))"
    if "p \<notin> private_names e fresh a" for p
  proof -
    have "p \<noteq> canonical e ?t" using that by (auto simp: private_names_def)
    with s(1,3) have "files g p = files f p" "files f' p = files h p" by simp_all
    with h(1) that show ?thesis by (auto simp: sealed_only_def)
  qed
  ultimately show ?thesis by blast
qed

text \<open>C16: Processing leaves no plaintext behind.  When the processing of an encrypted asset has succeeded, every file of
  the installation is as it was before, with one exception: the thumbnail of the asset, which may have been
  added and is an object encrypted under the key of the owner.\<close>

theorem processing_leaves_no_plaintext:
  assumes "process_asset e m fresh refused i d f = (Inr (), d', f', js)" "active_asset_for_write i d = Some (a, u)"
    "a_encryption_version a \<noteq> 0" "\<forall>p \<in> private_names e fresh a. files f p = None"
  shows "\<forall>p. files f' p = files f p \<or>
    (p = derivative_name e a \<and> (\<exists>key plain. user_media_key e u = Inr key \<and> files f' p = Some (sealed_object e key (pf_nonce fresh) plain)))"
proof -
  let ?w = "a\<lparr>a_processing_status := ''processing'', a_processing_error := None\<rparr>"
  from assms(1,2) obtain b where run: "plaintext_asset_file e ?w u (pf_plaintext fresh) (process_media e m fresh ?w u) f = (Inr b, f')"
    by (auto simp: process_asset_def Let_def split: sum.splits prod.splits)
  with assms(3) obtain key where key: "user_media_key e u = Inr key"
    by (auto simp: plaintext_asset_file_def split: sum.splits)
  have names: "private_names e fresh ?w = private_names e fresh a" "derivative_name e ?w = derivative_name e a"
    by (simp_all add: private_names_def derivative_name_def staged_thumbnail_def)
  from plaintext_removed [OF run _ key] assms(3,4) names key show ?thesis by simp
qed

text \<open>A failed run is not so clean: when the image tool fails after it saved the thumbnail, the thumbnail of an encrypted
  asset stays in the staging directory, unencrypted.\<close>

lemma failed_thumbnail_left_unencrypted:
  assumes "a_encryption_version a \<noteq> 0" "\<And>p. require_storage_path e f p = Inr ()" "read_bytes e f original = Inr content"
    "mt_image m content (media_time a) = (Some webp, Inl x)" "\<not> write_fails e (staged_thumbnail e a (pf_thumbnail fresh))"
  shows "\<exists>f'. image_of e m fresh a u original f = (Inl x, f') \<and>
    files f' (canonical e (staged_thumbnail e a (pf_thumbnail fresh))) = Some webp"
proof -
  have "require_storage_path e (mkdirs e p f) q = Inr ()" for p q using assms(2) by (rule require_path_mkdirs)
  with assms show ?thesis by (auto simp: image_of_def extract_and_thumbnail_def Let_def read_bytes_def)
qed

section \<open>On a concrete asset\<close>

definition process_tools :: media_tools where
  "process_tools = \<lparr>mt_image = (\<lambda>b t. (Some ''webp'', Inr \<lparr>im_width = 4, im_height = 3, im_hash = ''0'', im_taken_at = t, im_latitude = None,
      im_longitude = None, im_camera_make = None, im_camera_model = None, im_lens_model = None, im_orientation = None,
      im_metadata = JNull\<rparr>)),
     mt_probe = (\<lambda>_. Inr JNull), mt_float = (\<lambda>_. None), mt_int = (\<lambda>_. None), mt_ocr = (\<lambda>b. b), mt_embed = (\<lambda>_. [])\<rparr>"

definition process_sample :: process_fresh where
  "process_sample = \<lparr>pf_plaintext = ''decrypt-1.jpg'', pf_thumbnail = 3, pf_nonce = sample_nonce\<rparr>"

abbreviation process_user :: user where
  "process_user \<equiv> (sample_user 1)\<lparr>u_media_key := Some ''w''\<rparr>"

abbreviation process_row :: asset where
  "process_row \<equiv> (sample_asset 5 1 ''/data/originals/x'')\<lparr>a_encryption_version := 1\<rparr>"

definition process_db :: db where
  "process_db = empty_db\<lparr>users := [process_user], assets := [process_row]\<rparr>"

definition process_files :: fs where
  "process_files = sample_fs [(''/data/originals/x'', sealed_object sample_env (replicate 32 (CHR ''k'')) sample_nonce ''abc'')]"

lemma process_writable: "active_asset_for_write 5 process_db = Some (process_row, process_user)"
  by (simp add: active_asset_for_write_def active_user_def process_db_def empty_db_def sample_asset_def sample_user_def)

lemma process_decrypted:
  "\<exists>g. decrypt_file sample_env ''/data/originals/x'' t (replicate 32 (CHR ''k'')) (mkdirs sample_env p process_files) = (Inr (), g) \<and>
     files g = (files process_files)(t \<mapsto> ''abc'')" if "t \<noteq> ''/data/originals/x''"
proof -
  have "length sample_nonce = NONCE_SIZE" by (simp add: sample_nonce_def NONCE_SIZE_def)
  note sealed = parse_sealed [OF sample_aead this]
  show ?thesis using that
    by (simp add: decrypt_file_def Let_def read_bytes_def process_files_def sample_fs_def sealed
        concat_update_chunks [OF sample_aead] aead_okD [OF sample_aead] publish_def) (simp add: sample_env_def)
qed

lemma process_sample_runs:
  "\<exists>d f js. process_asset sample_env process_tools process_sample (\<lambda>_. False) 5 process_db process_files = (Inr (), d, f, js)"
proof -
  let ?t = "path_join (path_join (staging_path (cfg sample_env)) (uuid_str 1)) ''decrypt-1.jpg''"
  let ?w = "process_row\<lparr>a_processing_status := ''processing'', a_processing_error := None\<rparr>"
  have "?t \<noteq> ''/data/originals/x''" by code_simp
  then obtain g where g: "decrypt_file sample_env ''/data/originals/x'' ?t (replicate 32 (CHR ''k''))
      (mkdirs sample_env (path_join (staging_path (cfg sample_env)) (uuid_str 1)) process_files) = (Inr (), g)"
    "files g = (files process_files)(?t \<mapsto> ''abc'')" using process_decrypted by blast
  have nf: "\<not> write_fails sample_env x" "\<not> unlink_fails sample_env x" for x by (simp_all add: sample_env_def)
  have key: "user_media_key sample_env process_user = Inr (replicate 32 (CHR ''k''))"
    by (simp add: user_media_key_def unwrap_user_media_key_def sample_user_def sample_env_def)
  have "\<exists>b h. process_media sample_env process_tools process_sample ?w process_user ?t g = (Inr b, h)"
    using g(2)
    by (auto simp: process_media_def image_of_def extract_and_thumbnail_def process_tools_def read_bytes_def nf key Let_def
        sample_asset_def commit_encrypted_derivative_def encrypt_file_def publish_def unlink_checked_def unlink_missing_ok_def
        split: prod.splits)
  then obtain b h where "process_media sample_env process_tools process_sample ?w process_user ?t g = (Inr b, h)" by blast
  with g(1) have "\<exists>c f. plaintext_asset_file sample_env ?w process_user (pf_plaintext process_sample)
      (process_media sample_env process_tools process_sample ?w process_user) process_files = (Inr c, f)"
    by (simp add: plaintext_asset_file_def decrypted_temporary_file_def key Let_def process_sample_def unlink_missing_ok_def nf
        sample_asset_def)
  then show ?thesis
    by (auto simp: process_asset_def process_writable Let_def split: prod.splits)
qed

lemma process_names: "''/data/originals/x'' \<notin> private_names sample_env process_sample process_row"
  by code_simp

theorem processing_leaves_no_plaintext_witness:
  "\<exists>d f js. process_asset sample_env process_tools process_sample (\<lambda>_. False) 5 process_db process_files = (Inr (), d, f, js) \<and>
     (\<forall>p. files f p = files process_files p \<or> p = derivative_name sample_env process_row)"
proof -
  obtain d f js where run: "process_asset sample_env process_tools process_sample (\<lambda>_. False) 5 process_db process_files = (Inr (), d, f, js)"
    using process_sample_runs by blast
  have "\<forall>p \<in> private_names sample_env process_sample process_row. files process_files p = None"
    using process_names by (auto simp: process_files_def sample_fs_def)
  moreover have "a_encryption_version process_row \<noteq> 0" by simp
  ultimately show ?thesis using processing_leaves_no_plaintext [OF run process_writable] run by blast
qed

end
