(* ===== verification/Migration.thy ===== *)
theory Migration
  imports AssetRequests Processing
begin

text \<open>
  The migration of media stored before encryption was enabled (\<open>migrate_legacy_media\<close> in \<open>worker/tasks.py\<close>): original
  and thumbnail of an asset are encrypted under the key of its owner, the catalogue is switched over, and the
  plaintext is removed once nothing refers to it.  Whatever fails on the way, no content is lost.
\<close>

section \<open>One asset\<close>

record migrate_fresh =
  mf_wrapped_key :: string
  mf_nonce :: bytes
  mf_thumbnail_nonce :: bytes

definition legacy :: "uuid \<Rightarrow> uuid \<Rightarrow> asset \<Rightarrow> bool" where
  "legacy i uid a \<longleftrightarrow> a_id a = i \<and> a_user_id a = uid \<and> a_lifecycle_state a = Active \<and> a_encryption_version a = 0"

text \<open>An existing object is adopted only if it decrypts to what is expected.\<close>

definition encrypt_or_adopt ::
  "env \<Rightarrow> string \<Rightarrow> string \<Rightarrow> bytes \<Rightarrow> bytes \<Rightarrow> int option \<Rightarrow> (fs \<Rightarrow> exn + string) \<Rightarrow> exn \<Rightarrow> fs \<Rightarrow> (exn + unit) \<times> fs" where
  "encrypt_or_adopt e source destination key nonce expected_size expected mismatch f =
     (if \<not> path_exists e f destination then encrypt_file e source destination key nonce f
      else (sbind (encrypted_plaintext_checksum e destination key expected_size f) (\<lambda>c.
            sbind (expected f) (\<lambda>x. require (c = x) mismatch)), f))"

definition old_thumbnail :: "asset \<Rightarrow> string option" where
  "old_thumbnail a = (case a_thumbnail_path a of None \<Rightarrow> None | Some t \<Rightarrow> if t = [] then None else Some t)"

definition migrate_thumbnail ::
  "env \<Rightarrow> asset \<Rightarrow> bytes \<Rightarrow> bytes \<Rightarrow> fs \<Rightarrow> (exn + string option) \<times> fs" where
  "migrate_thumbnail e a key nonce f =
     (case old_thumbnail a of
        None \<Rightarrow> (Inr None, f)
      | Some t \<Rightarrow>
          if \<not> is_file e f t then (Inr None, f)
          else
            (let target = resolve e (derivative_path_for e ''thumbnails'' (a_checksum a) (a_user_id a))
             in case encrypt_or_adopt e t target key nonce None (\<lambda>f. sha256_file e f t)
                  (ValueError ''Existing encrypted thumbnail does not authenticate'') f of
                  (Inl x, f) \<Rightarrow> (Inl x, f)
                | (Inr _, f) \<Rightarrow> (Inr (Some target), f)))"

definition migrated_row :: "env \<Rightarrow> string \<Rightarrow> string \<Rightarrow> string option \<Rightarrow> asset \<Rightarrow> asset" where
  "migrated_row e destination stored thumbnail a =
     a\<lparr>a_original_path := canonical_storage_path e destination, a_storage_checksum := stored, a_encryption_version := 1,
       a_thumbnail_path := (case thumbnail of None \<Rightarrow> a_thumbnail_path a | Some t \<Rightarrow> Some (canonical_storage_path e t)),
       a_protection_status := ''unprotected''\<rparr>"

definition collect_plaintext :: "env \<Rightarrow> db \<Rightarrow> bool \<Rightarrow> string \<Rightarrow> string \<Rightarrow> fs \<Rightarrow> (exn + unit) \<times> fs" where
  "collect_plaintext e d wanted path rt f =
     (if \<not> wanted then (Inr (), f)
      else case safely_unlink_catalog_path e d f (resolve e path) (Some rt) False None None None of
        Inl x \<Rightarrow> (Inl x, f)
      | Inr (_, f) \<Rightarrow> (Inr (), f))"

definition finish_migration ::
  "env \<Rightarrow> (uuid \<Rightarrow> bool) \<Rightarrow> uuid \<Rightarrow> bool \<Rightarrow> string \<Rightarrow> bool \<Rightarrow> string \<Rightarrow> db \<Rightarrow> fs \<Rightarrow> (exn + bool) \<times> db \<times> fs \<times> uuid list" where
  "finish_migration e refused i drop_original source drop_thumbnail thumbnail d f =
     (case collect_plaintext e d drop_original source (originals_path (cfg e)) f of
        (Inl x, f) \<Rightarrow> (Inl x, d, f, [])
      | (Inr _, f) \<Rightarrow>
          (case collect_plaintext e d drop_thumbnail thumbnail (derivatives_path (cfg e)) f of
             (Inl x, f) \<Rightarrow> (Inl x, d, f, [])
           | (Inr _, f) \<Rightarrow>
               if refused i then (Inr True, update_asset i (\<lambda>b. b\<lparr>a_protection_status := ''failed''\<rparr>) d, f, [])
               else (Inr True, d, f, [i])))"

text \<open>The asset and its owner are locked; the plaintext is a file.  The catalogue is committed before plaintext is
  removed.\<close>

definition migrate_files ::
  "env \<Rightarrow> migrate_fresh \<Rightarrow> (uuid \<Rightarrow> bool) \<Rightarrow> asset \<Rightarrow> user \<Rightarrow> string \<Rightarrow> db \<Rightarrow> fs \<Rightarrow> (exn + bool) \<times> db \<times> fs \<times> uuid list" where
  "migrate_files e fresh refused a u source d f =
     (let destination = resolve e (original_path_for e (a_checksum a) (Some (a_user_id a))) in
      case user_media_key e u of
        Inl x \<Rightarrow> (Inl x, d, f, [])
      | Inr key \<Rightarrow>
          (case encrypt_or_adopt e source destination key (mf_nonce fresh) (Some (a_file_size a)) (\<lambda>_. Inr (a_checksum a))
             (ValueError ''Existing encrypted migration destination does not authenticate'') f of
             (Inl x, f) \<Rightarrow> (Inl x, d, f, [])
           | (Inr _, f) \<Rightarrow>
               (case migrate_thumbnail e a key (mf_thumbnail_nonce fresh) f of
                  (Inl x, f) \<Rightarrow> (Inl x, d, f, [])
                | (Inr thumbnail, f) \<Rightarrow>
                    (case sha256_file e f destination of
                       Inl x \<Rightarrow> (Inl x, d, f, [])
                     | Inr stored \<Rightarrow>
                         (let other = (\<lambda>g. list_ex (\<lambda>b. g b = g a \<and> a_encryption_version b = 0 \<and> a_id b \<noteq> a_id a) (assets d));
                              shared_original = other (\<lambda>b. Some (a_original_path b));
                              shared_thumbnail = other a_thumbnail_path;
                              d = update_asset (a_id a) (\<lambda>_. migrated_row e destination stored thumbnail a) d
                          in finish_migration e refused (a_id a) (\<not> shared_original) source
                               (old_thumbnail a \<noteq> None \<and> \<not> shared_thumbnail) (the (old_thumbnail a)) d f)))))"

text \<open>A key the owner lacks is committed before any ciphertext is published.\<close>

definition migrate_asset ::
  "env \<Rightarrow> migrate_fresh \<Rightarrow> (uuid \<Rightarrow> bool) \<Rightarrow> uuid \<times> uuid \<Rightarrow> db \<Rightarrow> fs \<Rightarrow> (exn + bool) \<times> db \<times> fs \<times> uuid list" where
  "migrate_asset e fresh refused candidate d f =
     (case active_user d (snd candidate) of
        None \<Rightarrow> (Inr False, d, f, [])
      | Some u \<Rightarrow>
          (case sql_first (legacy (fst candidate) (u_id u)) (assets d) of
             None \<Rightarrow> (Inr False, d, f, [])
           | Some a \<Rightarrow>
               (case (if u_media_key u = None then initialize_user_media_key e (mf_wrapped_key fresh) u else Inr u) of
                  Inl x \<Rightarrow> (Inl x, d, f, [])
                | Inr u \<Rightarrow>
                    (let d = set_user (u_id u) (\<lambda>_. u) d in
                     case validated_storage_path e f (a_original_path a) (originals_path (cfg e)) of
                       Inl x \<Rightarrow> (Inl x, d, f, [])
                     | Inr source \<Rightarrow>
                         if \<not> is_file e f source then (Inr False, d, f, [])
                         else migrate_files e fresh refused a u source d f))))"

section \<open>The task\<close>

fun migrate_assets ::
  "env \<Rightarrow> (uuid \<Rightarrow> migrate_fresh) \<Rightarrow> (uuid \<Rightarrow> bool) \<Rightarrow> (uuid \<times> uuid) list \<Rightarrow> nat \<Rightarrow> db \<Rightarrow> fs \<Rightarrow> (exn + nat) \<times> db \<times> fs \<times> uuid list" where
  "migrate_assets e fresh refused [] n d f = (Inr n, d, f, [])"
| "migrate_assets e fresh refused (c # cs) n d f =
     (case migrate_asset e (fresh (fst c)) refused c d f of
        (Inl x, d, f, js) \<Rightarrow> (Inl x, d, f, js)
      | (Inr done_one, d, f, js) \<Rightarrow>
          (case migrate_assets e fresh refused cs (if done_one then Suc n else n) d f of
             (r, d, f, js') \<Rightarrow> (r, d, f, js @ js')))"

definition legacy_candidates :: "nat \<Rightarrow> db \<Rightarrow> (uuid \<times> uuid) list" where
  "legacy_candidates limit d = map (\<lambda>a. (a_id a, a_user_id a)) (take limit (sort_key a_created_at
     (filter (\<lambda>a. a_encryption_version a = 0 \<and> a_storage_source a = ''managed'' \<and> a_lifecycle_state a = Active) (assets d))))"

definition migrate_legacy_media ::
  "env \<Rightarrow> (uuid \<Rightarrow> migrate_fresh) \<Rightarrow> (uuid \<Rightarrow> bool) \<Rightarrow> nat \<Rightarrow> db \<Rightarrow> fs \<Rightarrow> (exn + nat) \<times> db \<times> fs \<times> uuid list" where
  "migrate_legacy_media e fresh refused limit d f =
     (case require_storage e f [''originals'', ''derivatives'', ''staging'', ''replicas''] of
        Inl x \<Rightarrow> (Inl x, d, f, [])
      | Inr _ \<Rightarrow> migrate_assets e fresh refused (legacy_candidates limit d) 0 d f)"

section \<open>Nothing is lost\<close>

text \<open>The content of a revision is available when its original is a file with the right bytes, in plaintext or
  encrypted under the key of its owner.\<close>

definition available :: "env \<Rightarrow> db \<Rightarrow> fs \<Rightarrow> asset \<Rightarrow> bool" where
  "available e d f a \<longleftrightarrow> \<not> prefix ''duplicate:'' (a_original_path a) \<and>
     (if a_encryption_version a = 0
      then \<exists>b. files f (canonical e (a_original_path a)) = Some b \<and> sha256 e b = a_checksum a
      else \<exists>u key. u \<in> set (users d) \<and> u_id u = a_user_id a \<and> user_media_key e u = Inr key \<and>
             holds_content e key (a_checksum a) (a_original_path a) f)"

definition grows :: "fs \<Rightarrow> fs \<Rightarrow> bool" where
  "grows f f' \<longleftrightarrow> (\<forall>p b. files f p = Some b \<longrightarrow> files f' p = Some b)"

lemma grows_refl [simp]: "grows f f" by (simp add: grows_def)

lemma grows_trans: "grows f g \<Longrightarrow> grows g h \<Longrightarrow> grows f h" by (simp add: grows_def)

lemma holds_grows: "holds_content e key c p f \<Longrightarrow> grows f f' \<Longrightarrow> holds_content e key c p f'"
  by (auto simp: holds_content_def grows_def)

lemma adopt_grows:
  assumes "encrypt_or_adopt e source destination key nonce expected_size expected mismatch f = (r, f')"
  shows "grows f f'"
proof (cases "path_exists e f destination")
  case True
  with assms show ?thesis by (simp add: encrypt_or_adopt_def)
next
  case False
  with assms have "encrypt_file e source destination key nonce f = (r, f')" by (simp add: encrypt_or_adopt_def)
  then show ?thesis by (cases rule: encrypt_cases) (auto simp: grows_def)
qed

lemma adopt_holds:
  assumes run: "encrypt_or_adopt e source destination key nonce expected_size (\<lambda>_. Inr c) mismatch f = (Inr v, f')"
    and aead: "aead_ok e" "length nonce = NONCE_SIZE"
    and plain: "\<And>b. read_bytes e f source = Inr b \<Longrightarrow> sha256 e b = c"
  shows "holds_content e key c destination f'"
proof (cases "path_exists e f destination")
  case True
  with run have "encrypted_plaintext_checksum e destination key expected_size f = Inr c" "f' = f"
    by (auto simp: encrypt_or_adopt_def sbind_Inr_iff)
  then show ?thesis using checksum_holds_content by metis
next
  case False
  with run have "encrypt_file e source destination key nonce f = (Inr v, f')" by (simp add: encrypt_or_adopt_def)
  then obtain b where b: "read_bytes e f source = Inr b"
    "files f' = (files f)(canonical e destination \<mapsto> sealed_object e key nonce b)"
    by (cases rule: encrypt_cases) auto
  obtain cs where "decrypted_chunks e key (sealed_object e key nonce b) = (cs, Inr ())" "concat cs = b"
    using decrypted_chunks_sealed [OF aead] by blast
  with b plain [OF b(1)] show ?thesis by (simp add: holds_content_def)
qed

lemma thumbnail_grows: "migrate_thumbnail e a key nonce f = (r, f') \<Longrightarrow> grows f f'"
  by (auto simp: migrate_thumbnail_def Let_def split: option.splits if_splits prod.splits sum.splits dest: adopt_grows)

lemma collect_keeps:
  assumes "collect_plaintext e d wanted path rt f = (r, f')" "host_paths e"
    "b \<in> set (assets d)" "\<not> prefix ''duplicate:'' (a_original_path b)"
  shows "files f' (canonical e (a_original_path b)) = files f (canonical e (a_original_path b))"
proof -
  have "references e d None None None (canonical e (a_original_path b))"
    using assms(3,4) by (auto simp: references_def excluded_def set_asset_paths)
  with assms(1,2) show ?thesis
    by (auto simp: collect_plaintext_def split: if_splits sum.splits prod.splits dest: unlink_keeps_referenced)
qed

lemma available_cong:
  assumes "users d' = users d" "files f' (canonical e (a_original_path b)) = files f (canonical e (a_original_path b))"
  shows "available e d' f' b = available e d f b"
  using assms by (simp add: available_def holds_content_def)

lemma available_grows: "available e d f b \<Longrightarrow> grows f f' \<Longrightarrow> users d' = users d \<Longrightarrow> available e d' f' b"
  by (auto simp: available_def grows_def split: if_splits intro: holds_grows [unfolded grows_def])

lemma available_status: "available e d f (b\<lparr>a_protection_status := s\<rparr>) = available e d f b"
  by (simp add: available_def)

text \<open>The revision \<open>b\<close> is still there, with its content.\<close>

definition retained :: "env \<Rightarrow> asset \<Rightarrow> db \<Rightarrow> fs \<Rightarrow> bool" where
  "retained e b d f \<longleftrightarrow> (\<exists>c \<in> set (assets d). a_id c = a_id b \<and> a_checksum c = a_checksum b \<and> available e d f c)"

lemma retained_collect:
  assumes "collect_plaintext e d wanted path rt f = (r, f')" "host_paths e" "retained e b d f"
  shows "retained e b d f'"
proof -
  from assms(3) obtain c where c: "c \<in> set (assets d)" "a_id c = a_id b" "a_checksum c = a_checksum b" "available e d f c"
    by (auto simp: retained_def)
  then have "\<not> prefix ''duplicate:'' (a_original_path c)" by (simp add: available_def)
  from collect_keeps [OF assms(1,2) c(1) this] have "available e d f' c"
    using available_cong [of d d f' e c f] c(4) by simp
  with c show ?thesis by (auto simp: retained_def)
qed

lemma retained_grows: "retained e b d f \<Longrightarrow> grows f f' \<Longrightarrow> retained e b d f'"
  unfolding retained_def using available_grows [of e d f _ f' d] by blast

lemma retained_status:
  "retained e b d f \<Longrightarrow> retained e b (update_asset i (\<lambda>c. c\<lparr>a_protection_status := s\<rparr>) d) f"
  unfolding retained_def
proof (elim bexE conjE)
  fix c assume c: "c \<in> set (assets d)" "a_id c = a_id b" "a_checksum c = a_checksum b" "available e d f c"
  let ?g = "\<lambda>c. if a_id c = i then c\<lparr>a_protection_status := s\<rparr> else c"
  have "?g c \<in> set (assets (update_asset i (\<lambda>c. c\<lparr>a_protection_status := s\<rparr>) d))"
    using c(1) by (auto simp: set_sql_update)
  moreover have "available e (update_asset i (\<lambda>c. c\<lparr>a_protection_status := s\<rparr>) d) f (?g c)"
    using c(4) by (auto simp: available_def split: if_splits)
  ultimately show "\<exists>x \<in> set (assets (update_asset i (\<lambda>c. c\<lparr>a_protection_status := s\<rparr>) d)).
      a_id x = a_id b \<and> a_checksum x = a_checksum b \<and> available e (update_asset i (\<lambda>c. c\<lparr>a_protection_status := s\<rparr>) d) f x"
    using c(2,3) by (intro bexI [of _ "?g c"]) auto
qed

lemma retained_migrated:
  assumes "catalog_ok d" "a \<in> set (assets d)" "u \<in> set (users d)" "u_id u = a_user_id a" "user_media_key e u = Inr key"
    "host_paths e" "\<not> prefix ''duplicate:'' (canonical e destination)"
    "available e d f a \<Longrightarrow> holds_content e key (a_checksum a) destination f'" "grows f f'" "retained e b d f"
  shows "retained e b (update_asset (a_id a) (\<lambda>_. migrated_row e destination stored thumbnail a) d) f'"
proof -
  let ?m = "migrated_row e destination stored thumbnail a"
  let ?d = "update_asset (a_id a) (\<lambda>_. ?m) d"
  from assms(10) obtain c where c: "c \<in> set (assets d)" "a_id c = a_id b" "a_checksum c = a_checksum b" "available e d f c"
    by (auto simp: retained_def)
  show ?thesis
  proof (cases "a_id c = a_id a")
    case True
    then have "c = a" using assms(1,2) c(1) by (auto simp: catalog_ok_def intro: assets_ok_id)
    with c(4) assms(8) have "holds_content e key (a_checksum a) (canonical e destination) f'"
      using holds_content_canonical [OF assms(6)] by simp
    then have "available e ?d f' ?m"
      using assms(3-5,7) by (auto simp: available_def migrated_row_def canonical_storage_path_def)
    moreover have "?m \<in> set (assets ?d)" using assms(2) by (force simp: set_sql_update)
    ultimately show ?thesis using c(2,3) \<open>c = a\<close> by (auto simp: retained_def migrated_row_def intro!: bexI [of _ ?m])
  next
    case False
    then have "c \<in> set (assets ?d)" using c(1) by (force simp: set_sql_update)
    moreover have "available e ?d f' c" using available_grows [OF c(4) assms(9), of ?d] by simp
    ultimately show ?thesis using c(2,3) by (auto simp: retained_def)
  qed
qed

text \<open>What every step keeps: the constraints of the catalogue, the accounts, and the content of \<open>b\<close>.\<close>

definition content_safe :: "env \<Rightarrow> asset \<Rightarrow> db \<times> fs \<Rightarrow> bool" where
  "content_safe e b s \<longleftrightarrow> catalog_ok (fst s) \<and> distinct (map u_id (users (fst s))) \<and> retained e b (fst s) (snd s)"

text \<open>Originals are stored under an absolute path.\<close>

definition migration_ok :: "env \<Rightarrow> bool" where
  "migration_ok e \<longleftrightarrow> host_paths e \<and> aead_ok e \<and> 
     (\<forall>c uid. \<not> prefix ''duplicate:'' (canonical e (resolve e (original_path_for e c (Some uid)))))"

lemma migrated_row_ok:
  assumes "catalog_ok d" "a \<in> set (assets d)"
  shows "catalog_ok (update_asset (a_id a) (\<lambda>_. migrated_row e p s t a) d)"
  by (rule own_row_ok [OF assms]) (simp_all add: migrated_row_def same_item_def)

lemma failed_row_ok:
  "catalog_ok d \<Longrightarrow> catalog_ok (update_asset i (\<lambda>b. b\<lparr>a_protection_status := s\<rparr>) d)"
  by (simp add: catalog_ok_def) (rule status_update_ok, simp_all add: same_item_def)

lemma finish_safe:
  assumes "host_paths e" "catalog_ok d" "distinct (map u_id (users d))" "retained e b d f"
    "finish_migration e refused i w1 p1 w2 p2 d f = (r, d', f', js)"
  shows "content_safe e b (d', f')"
proof -
  obtain r1 f1 where s1: "collect_plaintext e d w1 p1 (originals_path (cfg e)) f = (r1, f1)" by (rule prod.exhaust)
  have kept1: "retained e b d f1" using retained_collect [OF s1 assms(1,4)] .
  obtain r2 f2 where s2: "collect_plaintext e d w2 p2 (derivatives_path (cfg e)) f1 = (r2, f2)" by (rule prod.exhaust)
  have kept2: "retained e b d f2" using retained_collect [OF s2 assms(1) kept1] .
  show ?thesis
    using assms(5) s1 s2 assms(2,3) kept1 kept2 retained_status [OF kept2] failed_row_ok [OF assms(2)]
    by (cases r1; cases r2) (auto simp: finish_migration_def content_safe_def split: if_splits)
qed

lemma migrate_files_safe:
  assumes env: "migration_ok e" and len: "length (mf_nonce fresh) = NONCE_SIZE"
    and a: "a \<in> set (assets d)" "a_encryption_version a = 0" and u: "u \<in> set (users d)" "u_id u = a_user_id a"
    and source: "source = resolve e (a_original_path a)"
    and run: "migrate_files e fresh refused a u source d f = (r, d', f', js)" and safe: "content_safe e b (d, f)"
  shows "content_safe e b (d', f')"
proof -
  have hp: "host_paths e" and aead: "aead_ok e" and abs: "\<And>c uid. \<not> prefix ''duplicate:'' (canonical e (resolve e (original_path_for e c (Some uid))))"
    using env by (auto simp: migration_ok_def)
  have ok: "catalog_ok d" "distinct (map u_id (users d))" "retained e b d f" using safe by (auto simp: content_safe_def)
  let ?dst = "resolve e (original_path_for e (a_checksum a) (Some (a_user_id a)))"
  let ?root = "originals_path (cfg e)"
  show ?thesis
  proof (cases "user_media_key e u")
    case (Inl x)
    with run safe show ?thesis by (simp add: migrate_files_def)
  next
    case key: (Inr key)
    obtain r1 f1 where s1: "encrypt_or_adopt e source ?dst key (mf_nonce fresh) (Some (a_file_size a)) (\<lambda>_. Inr (a_checksum a))
             (ValueError ''Existing encrypted migration destination does not authenticate'') f = (r1, f1)" by (rule prod.exhaust)
    have g1: "grows f f1" using adopt_grows [OF s1] .
    have safe1: "content_safe e b (d, f1)" using ok retained_grows [OF ok(3) g1] by (simp add: content_safe_def)
    show ?thesis
    proof (cases r1)
      case (Inl x)
      with run key s1 safe1 show ?thesis by (simp add: migrate_files_def)
    next
      case r1: (Inr v)
      obtain r2 f2 where s2: "migrate_thumbnail e a key (mf_thumbnail_nonce fresh) f1 = (r2, f2)" by (rule prod.exhaust)
      have g2: "grows f1 f2" using thumbnail_grows [OF s2] .
      have safe2: "content_safe e b (d, f2)" using safe1 retained_grows [OF _ g2] by (simp add: content_safe_def)
      show ?thesis
      proof (cases "\<exists>t stored. r2 = Inr t \<and> sha256_file e f2 ?dst = Inr stored")
        case False
        then have "d' = d \<and> f' = f2" using run key s1 s2 r1
          by (cases r2; cases "sha256_file e f2 ?dst") (simp_all add: migrate_files_def Let_def)
        with safe2 show ?thesis by simp
      next
        case True
        then obtain t stored where r2: "r2 = Inr t" "sha256_file e f2 ?dst = Inr stored" by blast
        let ?d = "update_asset (a_id a) (\<lambda>_. migrated_row e ?dst stored t a) d"
        have plain: "sha256 e x = a_checksum a" if "available e d f a" "read_bytes e f source = Inr x" for x
          using that a(2) canonical_resolve [OF hp] by (auto simp: available_def read_bytes_def source split: option.splits)
        have holds: "holds_content e key (a_checksum a) ?dst f2" if "available e d f a"
          using adopt_holds [OF s1 [unfolded r1] aead len plain [OF that]] holds_grows [OF _ g2] by blast
        have kept: "retained e b ?d f2"
          by (rule retained_migrated [OF ok(1) a(1) u key hp abs holds grows_trans [OF g1 g2] ok(3)])
        have rest: "catalog_ok ?d" "distinct (map u_id (users ?d))" using migrated_row_ok [OF ok(1) a(1)] ok(2) by simp_all
        obtain w1 w2 where "finish_migration e refused (a_id a) w1 source w2 (the (old_thumbnail a)) ?d f2 = (r, d', f', js)"
          using run key s1 s2 r1 r2 by (auto simp: migrate_files_def Let_def)
        then show ?thesis using finish_safe [OF hp _ _ kept] rest by simp
      qed
    qed
  qed
qed

lemma set_owner_safe:
  assumes safe: "content_safe e b (d, f)" and u: "u \<in> set (users d)" "u_media_key u = None"
    and init: "initialize_user_media_key e w u = Inr v"
  shows "content_safe e b (set_user (u_id v) (\<lambda>_. v) d, f)"
proof -
  have dist: "distinct (map u_id (users d))" and kept: "retained e b d f" and ok: "catalog_ok d"
    using safe by (auto simp: content_safe_def)
  have id: "u_id v = u_id u" using init by (auto simp: initialize_user_media_key_def sbind_Inr_iff Let_def split: if_splits option.splits)
  let ?d = "set_user (u_id v) (\<lambda>_. v) d"
  have dist': "distinct (map u_id (users ?d))"
  proof -
    have "map u_id (users ?d) = map u_id (users d)" using id by (auto simp: sql_update_def)
    with dist show ?thesis by simp
  qed
  have "available e ?d f c" if av: "available e d f c" for c
  proof (cases "a_encryption_version c = 0")
    case True
    with av show ?thesis by (simp add: available_def)
  next
    case False
    with av obtain x key where x: "x \<in> set (users d)" "u_id x = a_user_id c" "user_media_key e x = Inr key"
      "holds_content e key (a_checksum c) (a_original_path c) f" by (auto simp: available_def)
    have "x \<noteq> u" using x(3) u(2) by (auto simp: user_media_key_def split: if_splits)
    then have "u_id x \<noteq> u_id v" using key_unique [OF dist x(1) u(1)] id by auto
    then have "x \<in> set (users ?d)" using x(1) by (force simp: set_sql_update)
    with x False av show ?thesis by (auto simp: available_def)
  qed
  then have "retained e b ?d f" using kept by (auto simp: retained_def)
  with dist' ok show ?thesis by (simp add: content_safe_def catalog_ok_def)
qed

lemma migrate_asset_safe:
  assumes env: "migration_ok e" "length (mf_nonce fresh) = NONCE_SIZE"
    and run: "migrate_asset e fresh refused c d f = (r, d', f', js)" and safe: "content_safe e b (d, f)"
  shows "content_safe e b (d', f')"
proof (cases "active_user d (snd c)")
  case None
  with run safe show ?thesis by (simp add: migrate_asset_def)
next
  case (Some u)
  then have u: "u \<in> set (users d)" by (auto simp: active_user_def)
  show ?thesis
  proof (cases "sql_first (legacy (fst c) (u_id u)) (assets d)")
    case None
    with Some run safe show ?thesis by (simp add: migrate_asset_def)
  next
    case a: (Some a)
    then have a': "a \<in> set (assets d)" "a_encryption_version a = 0" "u_id u = a_user_id a" by (auto simp: legacy_def)
    define k where "k = (if u_media_key u = None then initialize_user_media_key e (mf_wrapped_key fresh) u else Inr u)"
    show ?thesis
    proof (cases k)
      case (Inl x)
      with Some a run safe show ?thesis by (simp add: migrate_asset_def k_def [symmetric])
    next
      case k: (Inr v)
      have id: "u_id v = u_id u"
        using k by (auto simp: k_def initialize_user_media_key_def sbind_Inr_iff Let_def split: if_splits option.splits)
      let ?d = "set_user (u_id v) (\<lambda>_. v) d"
      have safe': "content_safe e b (?d, f)"
      proof (cases "u_media_key u = None")
        case True
        then show ?thesis using set_owner_safe [OF safe u True] k by (simp add: k_def)
      next
        case False
        then have "v = u" using k by (auto simp: k_def split: if_splits)
        moreover have "u = x" if "x \<in> set (users d)" "u_id x = u_id u" for x
          using key_unique [of u_id "users d" u x] that u safe by (simp add: content_safe_def)
        then have "sql_update (\<lambda>x. u_id x = u_id u) (\<lambda>_. u) (users d) = users d"
          by (auto simp: sql_update_def intro!: map_idI)
        ultimately have "?d = d" by (simp add: set_user_def)
        with safe show ?thesis by simp
      qed
      have v: "v \<in> set (users ?d)" using u id by (force simp: set_sql_update)
      show ?thesis
      proof (cases "validated_storage_path e f (a_original_path a) (originals_path (cfg e))")
        case (Inl x)
        with Some a run safe' k show ?thesis by (simp add: migrate_asset_def k_def [symmetric])
      next
        case (Inr source)
        then have source: "source = resolve e (a_original_path a)" by simp
        show ?thesis
        proof (cases "is_file e f source")
          case False
          with Some a run safe' k Inr show ?thesis by (simp add: migrate_asset_def k_def [symmetric] del: validated_storage_path_Inr)
        next
          case True
          with Some a run k Inr have "migrate_files e fresh refused a v source ?d f = (r, d', f', js)"
            by (simp add: migrate_asset_def k_def [symmetric] del: validated_storage_path_Inr)
          then show ?thesis
            using migrate_files_safe [OF env _ a'(2) v _ source _ safe'] a'(1,3) id by simp
        qed
      qed
    qed
  qed
qed

lemma migrate_assets_safe:
  assumes "migration_ok e" "\<And>i. length (mf_nonce (fresh i)) = NONCE_SIZE"
  shows "migrate_assets e fresh refused cs n d f = (r, d', f', js) \<Longrightarrow> content_safe e b (d, f) \<Longrightarrow> content_safe e b (d', f')"
proof (induction cs arbitrary: n d f r d' f' js)
  case (Cons c cs)
  obtain r1 d1 f1 j1 where s: "migrate_asset e (fresh (fst c)) refused c d f = (r1, d1, f1, j1)" by (metis prod.exhaust)
  have safe: "content_safe e b (d1, f1)" by (rule migrate_asset_safe [OF assms s Cons.prems(2)])
  show ?case
  proof (cases r1)
    case (Inl x)
    with s safe Cons.prems(1) show ?thesis by simp
  next
    case (Inr v)
    obtain r2 d2 f2 j2 where t: "migrate_assets e fresh refused cs (if v then Suc n else n) d1 f1 = (r2, d2, f2, j2)" by (metis prod.exhaust)
    with Inr s Cons.prems(1) have "d' = d2" "f' = f2" by simp_all
    with Cons.IH [OF t safe] show ?thesis by simp
  qed
qed simp

text \<open>C14: Migration loses nothing.  However many assets a run of the migration takes on, and wherever it fails, every
  revision whose content was available before is in the catalogue afterwards with the same checksum, and its
  content is available: as the same plaintext or encrypted under the key of its owner.\<close>

theorem migration_loses_nothing:
  assumes "migrate_legacy_media e fresh refused limit d f = (r, d', f', js)" "migration_ok e"
    "\<forall>i. length (mf_nonce (fresh i)) = NONCE_SIZE" "catalog_ok d" "distinct (map u_id (users d))"
    "b \<in> set (assets d)" "available e d f b"
  shows "\<exists>c \<in> set (assets d'). a_id c = a_id b \<and> a_checksum c = a_checksum b \<and> available e d' f' c"
proof -
  have safe: "content_safe e b (d, f)" using assms(4-7) by (auto simp: content_safe_def retained_def)
  have "content_safe e b (d', f')"
  proof (cases "require_storage e f [''originals'', ''derivatives'', ''staging'', ''replicas'']")
    case (Inl x)
    with assms(1) safe show ?thesis by (simp add: migrate_legacy_media_def)
  next
    case (Inr v)
    with assms(1) have "migrate_assets e fresh refused (legacy_candidates limit d) 0 d f = (r, d', f', js)"
      by (simp add: migrate_legacy_media_def)
    from migrate_assets_safe [OF assms(2) assms(3) [rule_format] this safe] show ?thesis .
  qed
  then show ?thesis by (simp add: content_safe_def retained_def)
qed

section \<open>On a concrete catalogue\<close>

definition legacy_row :: asset where
  "legacy_row = (sample_asset 5 1 ''/data/originals/ab/abc'')\<lparr>a_checksum := sample_digest ''abc'', a_file_size := 3\<rparr>"

definition legacy_db :: db where
  "legacy_db = empty_db\<lparr>users := [sample_user 1], assets := [legacy_row]\<rparr>"

definition legacy_files :: fs where
  "legacy_files = \<lparr>files = [''/data/originals/ab/abc'' \<mapsto> ''abc''], dirs = (\<lambda>p. p = ''/data/originals'')\<rparr>"

definition legacy_fresh :: migrate_fresh where
  "legacy_fresh = \<lparr>mf_wrapped_key = ''w'', mf_nonce = sample_nonce, mf_thumbnail_nonce = sample_nonce\<rparr>"

lemma path_join_absolute: "prefix ''/'' p \<Longrightarrow> prefix ''/'' (path_join p q)"
  by (auto simp: path_join_def prefix_def)

lemma absolute_not_duplicate: "prefix ''/'' p \<Longrightarrow> \<not> prefix ''duplicate:'' p"
  by (cases p) auto

lemma sample_migration_ok: "migration_ok sample_env"
proof -
  have "prefix ''/'' (original_path_for sample_env c (Some uid))" for c uid
    unfolding original_path_for_def by (simp add: path_join_absolute) (simp add: path_join_absolute sample_env_def sample_settings_def)
  then have "\<not> prefix ''duplicate:'' (original_path_for sample_env c (Some uid))" for c uid
    by (rule absolute_not_duplicate)
  then show ?thesis using sample_aead sample_host_paths by (simp add: migration_ok_def)
qed

lemma legacy_run: "snd (snd (snd (migrate_legacy_media sample_env (\<lambda>_. legacy_fresh) (\<lambda>_. False) 10 legacy_db legacy_files))) = [5]"
proof -
  define dst where "dst = original_path_for sample_env (sample_digest ''abc'') (Some 1)"
  define u where "u = (sample_user 1)\<lparr>u_media_key := Some ''w'', u_media_key_version := 1\<rparr>"
  have dst: "dst \<noteq> ''/data/originals/ab/abc''" "dst \<noteq> ''/data/originals''" unfolding dst_def by code_simp+
  have nf: "\<not> write_fails sample_env x" "\<not> unlink_fails sample_env x" for x by (simp_all add: sample_env_def)
  have key: "user_media_key sample_env u = Inr (replicate 32 (CHR ''k''))"
    by (simp add: user_media_key_def unwrap_user_media_key_def sample_user_def sample_env_def u_def)
  have cands: "legacy_candidates 10 legacy_db = [(5, 1)]"
    by (simp add: legacy_candidates_def legacy_db_def legacy_row_def sample_asset_def empty_db_def)
  have init: "initialize_user_media_key sample_env ''w'' (sample_user 1) = Inr u"
    by (simp add: initialize_user_media_key_def unwrap_user_media_key_def sample_user_def sample_env_def u_def)
  have row: "a_original_path legacy_row = ''/data/originals/ab/abc''" "a_checksum legacy_row = sample_digest ''abc''" "a_user_id legacy_row = 1"
    "a_id legacy_row = 5" "a_thumbnail_path legacy_row = None" "legacy 5 1 legacy_row" "a_file_size legacy_row = 3"
    by (simp_all add: legacy_row_def sample_asset_def legacy_def)
  have db: "active_user legacy_db 1 = Some (sample_user 1)" "assets legacy_db = [legacy_row]" "u_id (sample_user 1) = 1"
      "u_media_key (sample_user 1) = None" "replicas legacy_db = []" "uploads legacy_db = []"
    by (simp_all add: legacy_db_def active_user_def empty_db_def sample_user_def)
  have "is_relative_to ''/data/originals/ab/abc'' (originals_path (cfg sample_env))" by code_simp
  then have src: "validated_storage_path sample_env g ''/data/originals/ab/abc'' (originals_path (cfg sample_env)) = Inr ''/data/originals/ab/abc''" for g
    by simp
  have unlink: "\<exists>b h. safely_unlink_catalog_path sample_env d g ''/data/originals/ab/abc'' (Some (originals_path (cfg sample_env))) False None None None = Inr (b, h)" for d g
    by (auto simp add: safely_unlink_catalog_path_def src canonical_storage_path_def unlink_missing_ok_def nf simp del: validated_storage_path_Inr)
  have "\<exists>h. collect_plaintext sample_env d True ''/data/originals/ab/abc'' (originals_path (cfg sample_env)) g = (Inr (), h)" for d g
    using unlink [of d g] by (auto simp: collect_plaintext_def)
  note collect = this
  have finish: "\<exists>h. finish_migration sample_env (\<lambda>_. False) 5 True ''/data/originals/ab/abc'' False t d g = (Inr True, d, h, [5])" for t d g
  proof -
    obtain h where "collect_plaintext sample_env d True ''/data/originals/ab/abc'' (originals_path (cfg sample_env)) g = (Inr (), h)"
      using collect [of d g] by blast
    then show ?thesis by (simp add: finish_migration_def collect_plaintext_def [of _ _ False])
  qed
  have "\<exists>d f. migrate_asset sample_env legacy_fresh (\<lambda>_. False) (5, 1) legacy_db legacy_files = (Inr True, d, f, [5])"
    using dst
    by (simp add: migrate_asset_def db init row Let_def src legacy_files_def is_file_def legacy_fresh_def migrate_files_def
        dst_def [symmetric] key encrypt_or_adopt_def path_exists_def is_dir_def encrypt_file_def read_bytes_def publish_def nf
        migrate_thumbnail_def old_thumbnail_def sha256_file_def set_user_def
        del: validated_storage_path_Inr) (rule exI, rule finish)
  then show ?thesis by (auto simp: migrate_legacy_media_def cands)
qed

theorem migration_loses_nothing_witness:
  "\<exists>d' f' c. snd (migrate_legacy_media sample_env (\<lambda>_. legacy_fresh) (\<lambda>_. False) 10 legacy_db legacy_files) = (d', f', [5]) \<and>
     c \<in> set (assets d') \<and> a_checksum c = sample_digest ''abc'' \<and> available sample_env d' f' c"
proof -
  obtain r d' f' js where run: "migrate_legacy_media sample_env (\<lambda>_. legacy_fresh) (\<lambda>_. False) 10 legacy_db legacy_files = (r, d', f', js)"
    by (metis prod.exhaust)
  have "catalog_ok legacy_db"
    by (simp add: legacy_db_def legacy_row_def catalog_ok_def assets_ok_def empty_db_def sample_asset_def retention_ok_def)
  moreover have "distinct (map u_id (users legacy_db))" "legacy_row \<in> set (assets legacy_db)"
    by (simp_all add: legacy_db_def)
  moreover have "available sample_env legacy_db legacy_files legacy_row"
    by (simp add: available_def legacy_row_def legacy_files_def sample_asset_def) (simp add: sample_env_def)
  moreover have "\<forall>i :: uuid. length (mf_nonce legacy_fresh) = NONCE_SIZE" by (simp add: legacy_fresh_def sample_nonce_def NONCE_SIZE_def)
  ultimately obtain c where "c \<in> set (assets d')" "a_checksum c = a_checksum legacy_row" "available sample_env d' f' c"
    using migration_loses_nothing [OF run sample_migration_ok] by blast
  moreover have "js = [5]" using legacy_run run by simp
  ultimately show ?thesis using run by (auto simp: legacy_row_def)
qed

end
