(* ===== verification/Libraries.thy ===== *)
theory Libraries
  imports Processing
begin

text \<open>
  Photo folders of the host that an account connects (\<open>api/v1/libraries.py\<close>) and the scan that catalogues them
  (\<open>scan_external_library\<close> in \<open>worker/tasks.py\<close>).  Folders of two accounts never overlap, and a scan that ends has
  catalogued every media file it found.  The scan only reads the file system.
\<close>

section \<open>Connecting a folder\<close>

definition overlaps :: "string \<Rightarrow> string \<Rightarrow> bool" where
  "overlaps p q \<longleftrightarrow> is_relative_to p q \<or> is_relative_to q p"

definition assigned_elsewhere :: exn where
  "assigned_elsewhere = HTTPException 409
     ''This photo folder is already assigned to another account. Ask the PC owner to review its configuration.''"

text \<open>The check against the connected folders, in order: the first that decides does.\<close>

fun check_libraries :: "env \<Rightarrow> user \<Rightarrow> string \<Rightarrow> bool \<Rightarrow> library list \<Rightarrow> exn + library option" where
  "check_libraries e u path reuse [] = Inr None"
| "check_libraries e u path reuse (x # xs) =
     (let there = resolve e (li_path x) in
      if overlaps path there \<and> li_user_id x \<noteq> u_id u then Inl assigned_elsewhere
      else if li_user_id x = u_id u \<and> there = path
      then (if reuse then Inr (Some x) else Inl (HTTPException 409 ''That photo folder is already connected''))
      else check_libraries e u path reuse xs)"

definition persist_library ::
  "env \<Rightarrow> fs \<Rightarrow> time \<Rightarrow> uuid \<Rightarrow> user \<Rightarrow> string \<Rightarrow> string \<Rightarrow> bool \<Rightarrow> db \<Rightarrow> (exn + library) \<times> db" where
  "persist_library e f now fresh u name path reuse d =
     (if strip name = [] then (Inl (HTTPException 422 ''Give this photo collection a name.''), d)
      else case active_user d (u_id u) of
        None \<Rightarrow> (Inl (HTTPException 401 ''Account is unavailable''), d)
      | Some owner \<Rightarrow>
          (case require_host_owner e f owner of
             Inl x \<Rightarrow> (Inl x, d)
           | Inr _ \<Rightarrow>
               (case check_libraries e u path reuse (libraries d) of
                  Inl x \<Rightarrow> (Inl x, d)
                | Inr (Some x) \<Rightarrow> (Inr x, d)
                | Inr None \<Rightarrow>
                    (let z = \<lparr>li_id = fresh, li_user_id = u_id u, li_name = strip name, li_path = canonical_storage_path e path,
                           li_status = ''idle'', li_file_count = 0, li_last_scanned_at = None, li_error = None, li_created_at = now\<rparr>
                     in if list_ex (\<lambda>y. li_id y = li_id z \<or> li_path y = li_path z) (libraries d) then (Inl IntegrityError, d)
                        else (Inr z, d\<lparr>libraries := sql_insert z (libraries d)\<rparr>)))))"

definition connect_library :: "env \<Rightarrow> fs \<Rightarrow> time \<Rightarrow> uuid \<Rightarrow> user \<Rightarrow> string \<Rightarrow> db \<Rightarrow> (exn + library) \<times> db" where
  "connect_library e f now fresh u name d =
     (case approved_import_root e f u of
        Inl x \<Rightarrow> (Inl x, d)
      | Inr root_path \<Rightarrow> persist_library e f now fresh u name root_path True d)"

definition create_library :: "env \<Rightarrow> fs \<Rightarrow> time \<Rightarrow> uuid \<Rightarrow> user \<Rightarrow> string \<Rightarrow> string \<Rightarrow> db \<Rightarrow> (exn + library) \<times> db" where
  "create_library e f now fresh u name path d =
     (case sbind (require_host_owner e f u) (\<lambda>_. validated_external_path e f path) of
        Inl x \<Rightarrow> (Inl x, d)
      | Inr p \<Rightarrow>
          if \<not> is_dir e f p then (Inl (HTTPException 400 ''External library path is not a readable directory''), d)
          else persist_library e f now fresh u name p False d)"

definition list_libraries :: "user \<Rightarrow> db \<Rightarrow> library list" where
  "list_libraries u d = sort_key li_created_at (filter (\<lambda>x. li_user_id x = u_id u) (libraries d))"

record library_setup =
  ls_configured :: bool
  ls_can_connect :: bool
  ls_folder_name :: "string option"
  ls_library :: "library option"
  ls_storage_available :: bool
  ls_message :: string

definition path_name :: "string \<Rightarrow> string" where
  "path_name p = (case rev (path_parts p) of [] \<Rightarrow> [] | t # _ \<Rightarrow> if t = ''/'' then [] else t)"

definition setup_answer :: "bool \<Rightarrow> string \<Rightarrow> library_setup" where
  "setup_answer configured message = \<lparr>ls_configured = configured, ls_can_connect = False, ls_folder_name = None, ls_library = None,
     ls_storage_available = False, ls_message = message\<rparr>"

definition library_setup :: "env \<Rightarrow> fs \<Rightarrow> user \<Rightarrow> db \<Rightarrow> exn + library_setup" where
  "library_setup e f u d =
     (case sbind (configured_owner_email e f) (\<lambda>owner. sbind (is_host_owner e f u) (\<lambda>ok.
             if \<not> ok then Inr (owner \<noteq> None, None)
             else sbind (approved_import_root e f u) (\<lambda>r. Inr (owner \<noteq> None, Some r)))) of
        Inl (StorageUnavailableError t) \<Rightarrow> Inr (setup_answer True ''Reconnect the approved photo drive, then retry.'')
      | Inl (HTTPException c t) \<Rightarrow> Inr (setup_answer True t)
      | Inl x \<Rightarrow> Inl x
      | Inr (configured, None) \<Rightarrow>
          Inr (setup_answer configured ''The PC owner has not approved this verified account to connect its photo folder.'')
      | Inr (_, Some r) \<Rightarrow>
          (let found = sql_first (\<lambda>x. li_user_id x = u_id u \<and> li_path x = canonical_storage_path e r) (libraries d)
           in sbind (load_storage_manifest e f) (\<lambda>m. Inr
                \<lparr>ls_configured = True, ls_can_connect = True,
                 ls_folder_name = Some (case m of Some m \<Rightarrow> import_display_name m | None \<Rightarrow> path_name r),
                 ls_library = found, ls_storage_available = True,
                 ls_message = (if found = None then ''Your PC photo folder is ready to connect.''
                   else ''Your PC photo folder is connected.'')\<rparr>)))"

definition set_library :: "uuid \<Rightarrow> (library \<Rightarrow> library) \<Rightarrow> db \<Rightarrow> db" where
  "set_library i g d = d\<lparr>libraries := sql_update (\<lambda>x. li_id x = i) g (libraries d)\<rparr>"

definition not_started :: string where
  "not_started = ''The photo scan could not start. Check that the background service is running and retry.''"

text \<open>The answer is the library as it stands; the identifiers of the scans queued come last.\<close>

definition scan_library :: "env \<Rightarrow> fs \<Rightarrow> (uuid \<Rightarrow> bool) \<Rightarrow> user \<Rightarrow> uuid \<Rightarrow> db \<Rightarrow> (exn + unit) \<times> db \<times> uuid list" where
  "scan_library e f refused u i d =
     (case sql_first (\<lambda>x. li_id x = i \<and> li_user_id x = u_id u) (libraries d) of
        None \<Rightarrow> (Inl (HTTPException 404 ''Library not found''), d, [])
      | Some x \<Rightarrow>
          (case sbind (configured_owner_email e f) (\<lambda>owner. if owner \<noteq> None then require_host_owner e f u else Inr ()) of
             Inl y \<Rightarrow> (Inl y, d, [])
           | Inr _ \<Rightarrow>
               (case validated_external_path e f (li_path x) of
                  Inl y \<Rightarrow> (Inl y, d, [])
                | Inr _ \<Rightarrow>
                    if refused i
                    then (Inl (HTTPException 503 not_started), set_library i (\<lambda>x. x\<lparr>li_status := ''failed'', li_error := Some not_started\<rparr>) d, [])
                    else (Inr (), set_library i (\<lambda>x. x\<lparr>li_status := ''queued'', li_error := None\<rparr>) d, [i]))))"

section \<open>Folders of two accounts never overlap\<close>

definition libraries_apart :: "env \<Rightarrow> db \<Rightarrow> bool" where
  "libraries_apart e d \<longleftrightarrow> (\<forall>x \<in> set (libraries d). \<forall>y \<in> set (libraries d). li_user_id x \<noteq> li_user_id y \<longrightarrow>
     \<not> overlaps (resolve e (li_path x)) (resolve e (li_path y)))"

datatype library_call =
    ConnectLibrary string | CreateLibrary string string | ScanLibrary uuid

text \<open>A request by an account on a host whose files are \<open>f\<close> at that time.\<close>

type_synonym library_request = "time \<times> fs \<times> uuid \<times> (uuid \<Rightarrow> bool) \<times> uuid \<times> library_call"

definition library_perform :: "env \<Rightarrow> library_request \<Rightarrow> db \<Rightarrow> db" where
  "library_perform e q d = (case q of (now, f, fresh, refused, uid, call) \<Rightarrow>
     case active_user d uid of
       None \<Rightarrow> d
     | Some u \<Rightarrow>
         (case call of
            ConnectLibrary name \<Rightarrow> snd (connect_library e f now fresh u name d)
          | CreateLibrary name path \<Rightarrow> snd (create_library e f now fresh u name path d)
          | ScanLibrary i \<Rightarrow> fst (snd (scan_library e f refused u i d))))"

lemma overlaps_sym: "overlaps p q = overlaps q p"
  by (auto simp: overlaps_def)

lemma check_libraries_None:
  "check_libraries e u path reuse xs = Inr None \<Longrightarrow> x \<in> set xs \<Longrightarrow> li_user_id x \<noteq> u_id u \<Longrightarrow> \<not> overlaps path (resolve e (li_path x))"
  by (induction xs) (auto simp: Let_def split: if_splits)

lemma persist_apart:
  assumes "libraries_apart e d" "resolve e (canonical_storage_path e path) = path"
  shows "libraries_apart e (snd (persist_library e f now fresh u name path reuse d))"
proof (cases "check_libraries e u path reuse (libraries d)")
  case (Inl x)
  with assms(1) show ?thesis by (auto simp: persist_library_def split: option.splits sum.splits)
next
  case (Inr found)
  show ?thesis
  proof (cases found)
    case (Some x)
    with Inr assms(1) show ?thesis by (auto simp: persist_library_def split: option.splits sum.splits)
  next
    case None
    note free = check_libraries_None [OF Inr [unfolded None]]
    let ?z = "\<lparr>li_id = fresh, li_user_id = u_id u, li_name = strip name, li_path = canonical_storage_path e path,
                           li_status = ''idle'', li_file_count = 0, li_last_scanned_at = None, li_error = None, li_created_at = now\<rparr>"
    have "libraries (snd (persist_library e f now fresh u name path reuse d)) \<in> {libraries d, sql_insert ?z (libraries d)}"
      using Inr None by (auto simp: persist_library_def Let_def split: option.splits sum.splits)
    then show ?thesis
      using assms free by (auto simp: libraries_apart_def set_sql_insert overlaps_sym)
  qed
qed

text \<open>A host on which paths differ by their letters: case is not folded.\<close>

definition posix_host :: "env \<Rightarrow> bool" where
  "posix_host e \<longleftrightarrow> (\<forall>p. resolve e (resolve e p) = resolve e p) \<and> (\<forall>p. normcase e p = p)"

lemma posix_canonical: "posix_host e \<Longrightarrow> resolve e (canonical_storage_path e (resolve e p)) = resolve e p"
  by (simp add: posix_host_def canonical_storage_path_def canonical_def)

lemma root_resolved: "approved_import_root e f u = Inr r \<Longrightarrow> \<exists>p. r = resolve e p"
  by (auto simp: approved_import_root_def sbind_Inr_iff external_root_list_def split: option.splits list.splits if_splits)

lemma set_library_apart:
  assumes "libraries_apart e d" "\<And>x. li_user_id (g x) = li_user_id x" "\<And>x. li_path (g x) = li_path x"
  shows "libraries_apart e (set_library i g d)"
  using assms by (auto simp: libraries_apart_def set_library_def set_sql_update)

lemma library_perform_apart:
  assumes "posix_host e" "libraries_apart e d"
  shows "libraries_apart e (library_perform e q d)"
proof -
  obtain now f fresh refused uid call where q: "q = (now, f, fresh, refused, uid, call)" by (metis prod.exhaust)
  show ?thesis
  proof (cases "active_user d uid")
    case None
    with assms q show ?thesis by (simp add: library_perform_def)
  next
    case (Some u)
    show ?thesis
    proof (cases call)
      case (ConnectLibrary name)
      have "libraries_apart e (snd (connect_library e f now fresh u name d))"
      proof (cases "approved_import_root e f u")
        case (Inl x)
        with assms(2) show ?thesis by (simp add: connect_library_def)
      next
        case (Inr r)
        obtain p where "r = resolve e p" using root_resolved [OF Inr] by blast
        with Inr persist_apart [OF assms(2)] posix_canonical [OF assms(1)] show ?thesis by (simp add: connect_library_def)
      qed
      with Some ConnectLibrary q show ?thesis by (simp add: library_perform_def)
    next
      case (CreateLibrary name path)
      have "libraries_apart e (snd (create_library e f now fresh u name path d))"
        using assms(2) persist_apart [OF assms(2)] posix_canonical [OF assms(1)]
        by (auto simp: create_library_def sbind_Inr_iff split: sum.splits)
      with Some CreateLibrary q show ?thesis by (simp add: library_perform_def)
    next
      case (ScanLibrary i)
      have "libraries_apart e (fst (snd (scan_library e f refused u i d)))"
        using assms(2) by (auto simp: scan_library_def intro!: set_library_apart split: option.splits sum.splits)
      with Some ScanLibrary q show ?thesis by (simp add: library_perform_def)
    qed
  qed
qed

interpretation folders: invariant_steps "\<lambda>d. posix_host e \<and> libraries_apart e d" "library_perform e" for e
  by unfold_locales (simp add: library_perform_apart)

text \<open>C38: The folders of two accounts never overlap: on a host that distinguishes the case of letters, after any
  sequence of requests to connect or scan folders, by any accounts and whatever the host's files are at each
  request, no folder of one account contains or equals a folder of another.\<close>

theorem library_folders_stay_apart:
  assumes "posix_host e" "libraries_apart e d"
  shows "libraries_apart e (fold (library_perform e) qs d)"
  using folders.fold_inv [of e d qs] assms by simp

section \<open>The scan\<close>

definition MEDIA_EXTENSIONS :: "string list" where
  "MEDIA_EXTENSIONS = [''.jpg'', ''.jpeg'', ''.png'', ''.webp'', ''.gif'', ''.bmp'', ''.tif'', ''.tiff'', ''.heic'', ''.heif'',
     ''.mp4'', ''.mov'', ''.m4v'', ''.avi'', ''.mkv'', ''.webm'']"

text \<open>\<open>PurePath.suffix\<close>\<close>

definition path_suffix :: "string \<Rightarrow> string" where
  "path_suffix p =
     (let t = path_name p; after = takeWhile (\<lambda>c. c \<noteq> CHR ''.'') (rev t); before = drop (length after + 1) (rev t)
      in if CHR ''.'' \<in> set t \<and> after \<noteq> [] \<and> before \<noteq> [] then ''.'' @ rev after else [])"

text \<open>What the host reports of a file, and the type that its name suggests.\<close>

record file_report =
  fr_size :: int
  fr_created :: "time option"
  fr_modified :: time
  fr_mime :: "string option"

record scanned =
  sc_path :: string
  sc_checksum :: string
  sc_size :: int
  sc_mime :: string
  sc_created :: "time option"
  sc_modified :: time

definition relative_to :: "string \<Rightarrow> string \<Rightarrow> string" where
  "relative_to p r = joined ''/'' (drop (length (path_parts r)) (path_parts p))"

definition external_asset ::
  "env \<Rightarrow> time \<Rightarrow> (string \<Rightarrow> uuid \<times> uuid) \<Rightarrow> library \<Rightarrow> string \<Rightarrow> scanned \<Rightarrow> asset" where
  "external_asset e now fresh x r s =
     \<lparr>a_id = fst (fresh (sc_path s)), a_user_id = li_user_id x, a_logical_id = snd (fresh (sc_path s)), a_version = 1,
      a_lifecycle_state = Active, a_superseded_at = None, a_trashed_at = None, a_purge_after = None, a_deleted_by = None,
      a_original_path = canonical_storage_path e (resolve e (sc_path s)), a_checksum = sc_checksum s,
      a_storage_checksum = sc_checksum s, a_encryption_version = 0, a_file_size = sc_size s, a_mime_type = sc_mime s,
      a_taken_at = None, a_file_created_at = sc_created s, a_file_modified_at = Some (sc_modified s),
      a_media = \<lparr>m_width = None, m_height = None, m_duration_seconds = None, m_latitude = None, m_longitude = None,
        m_camera_make = None, m_camera_model = None, m_lens_model = None, m_orientation = None, m_metadata_json = None,
        m_ocr_text = None, m_semantic_text = None, m_embedding = None, m_perceptual_hash = None,
        m_intelligence_status = ''pending'', m_indexed_at = None\<rparr>,
      a_thumbnail_path = None, a_preview_path = None, a_processing_status = ''pending'', a_processing_error = None,
      a_storage_source = ''external'', a_external_library_id = Some (li_id x), a_original_filename = Some (path_name (sc_path s)),
      a_relative_path = Some (relative_to (sc_path s) r), a_protection_status = ''unprotected'',
      a_restore_status = ''not_requested'', a_restored_at = None, a_created_at = now\<rparr>"

text \<open>The rows for contents that are new, each once.\<close>

fun new_externals ::
  "env \<Rightarrow> time \<Rightarrow> (string \<Rightarrow> uuid \<times> uuid) \<Rightarrow> library \<Rightarrow> string \<Rightarrow> string list \<Rightarrow> scanned list \<Rightarrow> asset list" where
  "new_externals e now fresh x r known [] = []"
| "new_externals e now fresh x r known (s # ss) =
     (if sc_checksum s \<in> set known then new_externals e now fresh x r known ss
      else external_asset e now fresh x r s # new_externals e now fresh x r (sc_checksum s # known) ss)"

fun publish_all :: "(uuid \<Rightarrow> bool) \<Rightarrow> uuid list \<Rightarrow> (exn + unit) \<times> uuid list" where
  "publish_all refused [] = (Inr (), [])"
| "publish_all refused (i # is) =
     (if refused i then (Inl (OSError ''broker''), [])
      else case publish_all refused is of (r, js) \<Rightarrow> (r, i # js))"

text \<open>\<open>Inr False\<close>: the account or the folder is gone, and the scan stops.\<close>

definition save_batch ::
  "env \<Rightarrow> fs \<Rightarrow> time \<Rightarrow> (string \<Rightarrow> uuid \<times> uuid) \<Rightarrow> (uuid \<Rightarrow> bool) \<Rightarrow> library \<Rightarrow> string \<Rightarrow> scanned list \<Rightarrow> db \<Rightarrow>
   (exn + bool) \<times> db \<times> uuid list" where
  "save_batch e f now fresh refused x r batch d =
     (if batch = [] then (Inr True, d, [])
      else case (active_user d (li_user_id x), sql_first (\<lambda>y. li_id y = li_id x \<and> li_user_id y = li_user_id x) (libraries d)) of
        (Some owner, Some y) \<Rightarrow>
          (case sbind (configured_owner_email e f) (\<lambda>approved. if approved \<noteq> None then require_host_owner e f owner else Inr ()) of
             Inl z \<Rightarrow> (Inl z, d, [])
           | Inr _ \<Rightarrow>
               (case require_storage_path e f r of
                  Inl z \<Rightarrow> (Inl z, d, [])
                | Inr _ \<Rightarrow>
                    (let existing = filter (\<lambda>a. a_user_id a = li_user_id x \<and> a_checksum a \<in> sc_checksum ` set batch) (assets d);
                         retry = filter (\<lambda>a. (a_processing_status a = ''pending'' \<or> a_processing_status a = ''failed'') \<and>
                           a_lifecycle_state a = Active) existing;
                         created = new_externals e now fresh y r (map a_checksum existing) batch
                     in case publish_all refused (map a_id (created @ retry)) of
                          (Inl z, js) \<Rightarrow> (Inl z, d\<lparr>assets := assets d @ created\<rparr>, js)
                        | (Inr _, js) \<Rightarrow> (Inr True, d\<lparr>assets := assets d @ created\<rparr>, js))))
      | _ \<Rightarrow> (Inr False, d, []))"

definition report_file :: "env \<Rightarrow> fs \<Rightarrow> (string \<Rightarrow> file_report) \<Rightarrow> string \<Rightarrow> exn + scanned" where
  "report_file e f host p =
     sbind (validated_external_path e f p) (\<lambda>_. sbind (sha256_file e f p) (\<lambda>c.
       Inr \<lparr>sc_path = p, sc_checksum = c, sc_size = fr_size (host p),
            sc_mime = (case fr_mime (host p) of None \<Rightarrow> ''application/octet-stream'' | Some t \<Rightarrow> if t = [] then ''application/octet-stream'' else t),
            sc_created = fr_created (host p), sc_modified = fr_modified (host p)\<rparr>))"

fun scan_paths ::
  "env \<Rightarrow> fs \<Rightarrow> time \<Rightarrow> (string \<Rightarrow> file_report) \<Rightarrow> (string \<Rightarrow> uuid \<times> uuid) \<Rightarrow> (uuid \<Rightarrow> bool) \<Rightarrow> library \<Rightarrow> string \<Rightarrow>
   string list \<Rightarrow> scanned list \<Rightarrow> db \<Rightarrow> (exn + bool) \<times> db \<times> uuid list" where
  "scan_paths e f now host fresh refused x r [] batch d = save_batch e f now fresh refused x r batch d"
| "scan_paths e f now host fresh refused x r (p # ps) batch d =
     (case report_file e f host p of
        Inl z \<Rightarrow> (Inl z, d, [])
      | Inr s \<Rightarrow>
          if length batch + 1 < 100 then scan_paths e f now host fresh refused x r ps (batch @ [s]) d
          else (case save_batch e f now fresh refused x r (batch @ [s]) d of
             (Inr True, d, js) \<Rightarrow>
               (case scan_paths e f now host fresh refused x r ps [] d of (q, d, js') \<Rightarrow> (q, d, js @ js'))
           | (q, d, js) \<Rightarrow> (q, d, js)))"

definition scan_failure :: "exn \<Rightarrow> string" where
  "scan_failure z = (case z of StorageUnavailableError _ \<Rightarrow> ''Reconnect the approved photo drive and retry the scan.''
     | _ \<Rightarrow> ''The photo scan could not finish. Check the drive and background service, then retry.'')"

text \<open>\<open>listing\<close> is what \<open>rglob\<close> yields below the folder.\<close>

definition media_paths :: "env \<Rightarrow> fs \<Rightarrow> string list \<Rightarrow> string list" where
  "media_paths e f listing = filter (\<lambda>p. is_file e f p \<and> lower (path_suffix p) \<in> set MEDIA_EXTENSIONS) listing"

definition scan_root :: "env \<Rightarrow> fs \<Rightarrow> user \<Rightarrow> library \<Rightarrow> exn + string" where
  "scan_root e f owner x =
     sbind (configured_owner_email e f) (\<lambda>approved.
     sbind (if approved \<noteq> None then require_host_owner e f owner else Inr ()) (\<lambda>_.
     sbind (validated_external_path e f (li_path x)) (\<lambda>r.
       if is_dir e f r then Inr r else Inl FileNotFoundError)))"

definition scan_external_library ::
  "env \<Rightarrow> fs \<Rightarrow> time \<Rightarrow> (string \<Rightarrow> file_report) \<Rightarrow> (string \<Rightarrow> uuid \<times> uuid) \<Rightarrow> (uuid \<Rightarrow> bool) \<Rightarrow> string list \<Rightarrow> uuid \<Rightarrow> db \<Rightarrow>
   (exn + unit) \<times> db \<times> uuid list" where
  "scan_external_library e f now host fresh refused listing i d =
     (case sql_first (\<lambda>x. li_id x = i) (libraries d) of
        None \<Rightarrow> (Inr (), d, [])
      | Some x \<Rightarrow>
          (case active_user d (li_user_id x) of
             None \<Rightarrow> (Inr (), d, [])
           | Some owner \<Rightarrow>
               (let d = set_library i (\<lambda>x. x\<lparr>li_status := ''scanning'', li_error := None\<rparr>) d;
                    paths = media_paths e f listing;
                    (q, d, js) = (case scan_root e f owner x of
                        Inl z \<Rightarrow> (Inl z, d, [])
                      | Inr r \<Rightarrow> scan_paths e f now host fresh refused x r paths [] d)
                in case q of
                     Inr False \<Rightarrow> (Inr (), d, js)
                   | Inr True \<Rightarrow>
                       (if active_user d (li_user_id x) = None then (Inr (), d, js)
                        else (Inr (), set_library i (\<lambda>x. x\<lparr>li_status := ''idle'', li_file_count := int (length paths),
                          li_last_scanned_at := Some now\<rparr>) d, js))
                   | Inl z \<Rightarrow>
                       (Inl z, set_library i (\<lambda>x. x\<lparr>li_status := ''failed'', li_error := Some (scan_failure z)\<rparr>) d, js))))"

section \<open>A scan that ends has seen everything\<close>

definition catalogued :: "uuid \<Rightarrow> string \<Rightarrow> db \<Rightarrow> bool" where
  "catalogued uid c d \<longleftrightarrow> (\<exists>a \<in> set (assets d). a_user_id a = uid \<and> a_checksum a = c)"

lemma new_externals_cover:
  "s \<in> set ss \<Longrightarrow> sc_checksum s \<in> set known \<or>
     (\<exists>a \<in> set (new_externals e now fresh x r known ss). a_user_id a = li_user_id x \<and> a_checksum a = sc_checksum s)"
proof (induction ss arbitrary: known)
  case (Cons t ss)
  show ?case
  proof (cases "s = t")
    case True
    then show ?thesis by (simp add: external_asset_def)
  next
    case False
    with Cons.prems have s: "s \<in> set ss" by simp
    show ?thesis
      using Cons.IH [OF s, of known] Cons.IH [OF s, of "sc_checksum t # known"] by (auto simp: external_asset_def)
  qed
qed simp

lemma save_batch_effect:
  assumes "save_batch e f now fresh refused x r batch d = (q, d', js)"
  shows "set (assets d) \<subseteq> set (assets d') \<and> users d' = users d \<and> libraries d' = libraries d"
  using assms by (auto simp: save_batch_def Let_def split: if_splits option.splits sum.splits prod.splits)

lemma save_batch_stops:
  assumes "save_batch e f now fresh refused x r batch d = (Inr False, d', js)"
  shows "active_user d (li_user_id x) = None \<or> sql_first (\<lambda>y. li_id y = li_id x \<and> li_user_id y = li_user_id x) (libraries d) = None"
  using assms by (auto simp: save_batch_def Let_def split: if_splits option.splits sum.splits prod.splits)

lemma save_batch_covers:
  assumes "save_batch e f now fresh refused x r batch d = (Inr True, d', js)" "s \<in> set batch"
  shows "catalogued (li_user_id x) (sc_checksum s) d'"
proof -
  let ?old = "filter (\<lambda>a. a_user_id a = li_user_id x \<and> a_checksum a \<in> sc_checksum ` set batch) (assets d)"
  obtain y where y: "li_user_id y = li_user_id x" "assets d' = assets d @ new_externals e now fresh y r (map a_checksum ?old) batch"
    using assms by (auto simp: save_batch_def Let_def split: option.splits sum.splits prod.splits if_splits)
  from new_externals_cover [OF assms(2), of "map a_checksum ?old" e now fresh y r] show ?thesis
    using y by (auto simp: catalogued_def)
qed

lemma catalogued_mono: "catalogued uid c d \<Longrightarrow> set (assets d) \<subseteq> set (assets d') \<Longrightarrow> catalogued uid c d'"
  by (auto simp: catalogued_def)

lemma scan_paths_effect:
  "scan_paths e f now host fresh refused x r ps batch d = (q, d', js) \<Longrightarrow>
   set (assets d) \<subseteq> set (assets d') \<and> users d' = users d \<and> libraries d' = libraries d"
proof (induction ps arbitrary: batch d q d' js)
  case Nil
  then show ?case using save_batch_effect by simp
next
  case (Cons p ps)
  show ?case
  proof (cases "report_file e f host p")
    case (Inl z)
    with Cons.prems show ?thesis by simp
  next
    case (Inr s)
    obtain q1 d1 j1 where b: "save_batch e f now fresh refused x r (batch @ [s]) d = (q1, d1, j1)" by (metis prod.exhaust)
    obtain q2 d2 j2 where t: "scan_paths e f now host fresh refused x r ps [] d1 = (q2, d2, j2)" by (metis prod.exhaust)
    show ?thesis
      using Cons.prems Cons.IH [of "batch @ [s]" d q d' js] Cons.IH [OF t] save_batch_effect [OF b] Inr b t
      by (auto split: if_splits sum.splits bool.splits)
  qed
qed

lemma scan_paths_stops:
  "scan_paths e f now host fresh refused x r ps batch d = (Inr False, d', js) \<Longrightarrow>
   active_user d (li_user_id x) = None \<or> sql_first (\<lambda>y. li_id y = li_id x \<and> li_user_id y = li_user_id x) (libraries d) = None"
proof (induction ps arbitrary: batch d d' js)
  case Nil
  then show ?case using save_batch_stops by simp
next
  case (Cons p ps)
  obtain s where s: "report_file e f host p = Inr s" using Cons.prems by (auto split: sum.splits)
  obtain q1 d1 j1 where b: "save_batch e f now fresh refused x r (batch @ [s]) d = (q1, d1, j1)" by (metis prod.exhaust)
  obtain q2 d2 j2 where t: "scan_paths e f now host fresh refused x r ps [] d1 = (q2, d2, j2)" by (metis prod.exhaust)
  have same: "users d1 = users d" "libraries d1 = libraries d" using save_batch_effect [OF b] by simp_all
  show ?case
  proof (cases "length batch + 1 < 100")
    case True
    with Cons.prems s Cons.IH [of "batch @ [s]" d d' js] show ?thesis by simp
  next
    case False
    show ?thesis
    proof (cases "q1 = Inr True")
      case True
      with False Cons.prems s b t have "q2 = Inr False" by simp
      with Cons.IH [of "[]" d1 d2 j2] t same show ?thesis by (simp add: active_user_def)
    next
      case no: False
      with False Cons.prems s b have "q1 = Inr False" by (auto split: sum.splits bool.splits)
      with save_batch_stops [of e f now fresh refused x r "batch @ [s]" d d1 j1] b show ?thesis by simp
    qed
  qed
qed

lemma report_file_checksum: "report_file e f host p = Inr s \<Longrightarrow> sha256_file e f p = Inr (sc_checksum s)"
  by (auto simp: report_file_def sbind_Inr_iff)

lemma scan_paths_covers:
  "scan_paths e f now host fresh refused x r ps batch d = (Inr True, d', js) \<Longrightarrow>
   (\<forall>s \<in> set batch. catalogued (li_user_id x) (sc_checksum s) d') \<and>
   (\<forall>p \<in> set ps. \<exists>c. sha256_file e f p = Inr c \<and> catalogued (li_user_id x) c d')"
proof (induction ps arbitrary: batch d d' js)
  case Nil
  then show ?case using save_batch_covers by simp
next
  case (Cons p ps)
  obtain s where s: "report_file e f host p = Inr s" using Cons.prems by (auto split: sum.splits)
  note sum = report_file_checksum [OF s]
  show ?case
  proof (cases "length batch + 1 < 100")
    case True
    with Cons.prems s have "scan_paths e f now host fresh refused x r ps (batch @ [s]) d = (Inr True, d', js)" by simp
    from Cons.IH [OF this] sum show ?thesis by auto
  next
    case False
    obtain q1 d1 j1 where b: "save_batch e f now fresh refused x r (batch @ [s]) d = (q1, d1, j1)" by (metis prod.exhaust)
    obtain q2 d2 j2 where t: "scan_paths e f now host fresh refused x r ps [] d1 = (q2, d2, j2)" by (metis prod.exhaust)
    have q: "q1 = Inr True" "q2 = Inr True" "d' = d2" using Cons.prems False s b t by (auto split: sum.splits bool.splits)
    have grows: "set (assets d1) \<subseteq> set (assets d2)" using scan_paths_effect [OF t] by simp
    have "catalogued (li_user_id x) (sc_checksum y) d2" if "y \<in> set (batch @ [s])" for y
      using save_batch_covers [OF b [unfolded q(1)] that] catalogued_mono grows by blast
    with Cons.IH [OF t [unfolded q(2)]] sum q(3) show ?thesis by auto
  qed
qed

text \<open>C27: A scan that ends has catalogued everything: when the scan of a connected folder of an active account returns,
  every media file it found below the folder is a revision of that account with the checksum of the file, every
  revision that was in the catalogue is still there unchanged, and the folder counts the files found.\<close>

theorem completed_scan_catalogues_everything:
  assumes "scan_external_library e f now host fresh refused listing i d = (Inr (), d', js)"
    "sql_first (\<lambda>x. li_id x = i) (libraries d) = Some x" "active_user d (li_user_id x) \<noteq> None"
  shows "(\<forall>p \<in> set (media_paths e f listing). \<exists>c. sha256_file e f p = Inr c \<and> catalogued (li_user_id x) c d') \<and>
    set (assets d) \<subseteq> set (assets d') \<and>
    (\<exists>y \<in> set (libraries d'). li_id y = i \<and> li_status y = ''idle'' \<and> li_file_count y = int (length (media_paths e f listing)))"
proof -
  have x: "x \<in> set (libraries d)" "li_id x = i" using assms(2) by auto
  let ?g = "\<lambda>x. x\<lparr>li_status := ''scanning'', li_error := None\<rparr>"
  let ?d = "set_library i ?g d"
  obtain owner where owner: "active_user d (li_user_id x) = Some owner" using assms(3) by auto
  have found: "sql_first (\<lambda>y. li_id y = li_id x \<and> li_user_id y = li_user_id x) (libraries ?d) \<noteq> None"
    unfolding sql_first_not_None set_library_def using x by (auto simp: set_sql_update intro!: bexI [of _ "?g x"])
  obtain r where r: "scan_root e f owner x = Inr r"
    using assms owner by (cases "scan_root e f owner x") (auto simp: scan_external_library_def Let_def)
  obtain q d1 j1 where run: "scan_paths e f now host fresh refused x r (media_paths e f listing) [] ?d = (q, d1, j1)" by (metis prod.exhaust)
  have eff: "set (assets d) \<subseteq> set (assets d1)" "users d1 = users d" "libraries d1 = libraries ?d"
    using scan_paths_effect [OF run] by (simp_all add: set_library_def)
  have "q \<noteq> Inr False"
    using scan_paths_stops [of e f now host fresh refused x r "media_paths e f listing" "[]" ?d d1 j1] run found assms(3)
    by (auto simp: active_user_def set_library_def)
  with assms(1,2) owner r run eff(2) have q: "q = Inr True" and d': "d' = set_library i (\<lambda>x. x\<lparr>li_status := ''idle'',
      li_file_count := int (length (media_paths e f listing)), li_last_scanned_at := Some now\<rparr>) d1"
    by (auto simp: scan_external_library_def Let_def active_user_def split: sum.splits bool.splits)
  let ?idle = "\<lambda>x. x\<lparr>li_status := ''idle'', li_file_count := int (length (media_paths e f listing)), li_last_scanned_at := Some now\<rparr>"
  obtain y where "y \<in> set (libraries d1)" "li_id y = i" using found x(2) eff(3) by (auto simp: sql_first_not_None)
  then have "?idle y \<in> set (libraries d')" "li_id (?idle y) = i" "li_status (?idle y) = ''idle''"
    "li_file_count (?idle y) = int (length (media_paths e f listing))"
    unfolding d' by (auto simp: set_library_def set_sql_update)
  then have "\<exists>y \<in> set (libraries d'). li_id y = i \<and> li_status y = ''idle'' \<and> li_file_count y = int (length (media_paths e f listing))"
    by blast
  moreover have "catalogued u c d' = catalogued u c d1" for u c by (simp add: catalogued_def d' set_library_def)
  ultimately show ?thesis
    using scan_paths_covers [OF run [unfolded q]] eff(1) by (simp add: d' set_library_def)
qed

text \<open>One media file that leads out of the approved folders, as a link may, stops the scan: the files listed after it are
  not catalogued, and neither are those of its own batch.\<close>

lemma foreign_link_stops_scan:
  assumes "length batch + length ps < 99" "\<forall>p \<in> set ps. report_file e f host p = Inr (scan_of p)" "validated_external_path e f q = Inl z"
  shows "scan_paths e f now host fresh refused x r (ps @ q # rest) batch d = (Inl z, d, [])"
  using assms
proof (induction ps arbitrary: batch)
  case Nil
  then show ?case by (simp add: report_file_def)
qed simp

section \<open>On a concrete folder\<close>

definition folder :: "uuid \<Rightarrow> uuid \<Rightarrow> string \<Rightarrow> library" where
  "folder i u p = \<lparr>li_id = i, li_user_id = u, li_name = ''Photos'', li_path = p, li_status = ''queued'', li_file_count = 0,
     li_last_scanned_at = None, li_error = None, li_created_at = 0\<rparr>"

definition folder_db :: db where
  "folder_db = empty_db\<lparr>users := [sample_user 1, (sample_user 2)\<lparr>u_email := ''bob@example.org''\<rparr>],
     libraries := [folder 7 1 ''/data/imports/ann'']\<rparr>"

definition folder_env :: env where
  "folder_env = sample_env\<lparr>cfg := sample_settings\<lparr>host_owner_email := Some ''bob@example.org''\<rparr>\<rparr>"

theorem library_folders_stay_apart_witness:
  "libraries_apart folder_env (fold (library_perform folder_env)
     [(0, sample_fs [], 8, \<lambda>_. False, 2, CreateLibrary ''Mine'' ''/data/imports/ann/2024''),
      (0, sample_fs [], 9, \<lambda>_. False, 2, CreateLibrary ''Mine'' ''/data/imports/bob'')] folder_db)"
proof (rule library_folders_stay_apart)
  show "posix_host folder_env" by (simp add: posix_host_def folder_env_def sample_env_def)
  show "libraries_apart folder_env folder_db" by (simp add: libraries_apart_def folder_db_def folder_def)
qed

abbreviation folder_scan :: "(exn + unit) \<times> db \<times> uuid list" where
  "folder_scan \<equiv> scan_external_library sample_env (sample_fs [(''/data/imports/ann/a.JPG'', ''abc''), (''/data/imports/ann/note.txt'', ''x'')]) 5
     (\<lambda>_. \<lparr>fr_size = 3, fr_created = None, fr_modified = 1, fr_mime = Some ''image/jpeg''\<rparr>) (\<lambda>_. (40, 41)) (\<lambda>_. False)
     [''/data/imports/ann/a.JPG'', ''/data/imports/ann/note.txt'', ''/data/imports/ann''] 7 folder_db"

lemma folder_scan_returns: "fst folder_scan = Inr ()"
  by code_simp

lemma folder_scan_finds: "media_paths sample_env (sample_fs [(''/data/imports/ann/a.JPG'', ''abc''), (''/data/imports/ann/note.txt'', ''x'')])
     [''/data/imports/ann/a.JPG'', ''/data/imports/ann/note.txt'', ''/data/imports/ann''] = [''/data/imports/ann/a.JPG'']"
  by code_simp

theorem completed_scan_catalogues_everything_witness:
  "catalogued 1 (sample_digest ''abc'') (fst (snd folder_scan))"
proof -
  have "folder_scan = (Inr (), fst (snd folder_scan), snd (snd folder_scan))"
    using folder_scan_returns by (simp add: prod_eq_iff)
  moreover have "sql_first (\<lambda>x. li_id x = 7) (libraries folder_db) = Some (folder 7 1 ''/data/imports/ann'')"
    "active_user folder_db (li_user_id (folder 7 1 ''/data/imports/ann'')) \<noteq> None"
    by (simp_all add: folder_db_def folder_def active_user_def sample_user_def)
  ultimately have "\<forall>p \<in> set [''/data/imports/ann/a.JPG'']. \<exists>c. sha256_file sample_env (sample_fs [(''/data/imports/ann/a.JPG'', ''abc''),
      (''/data/imports/ann/note.txt'', ''x'')]) p = Inr c \<and> catalogued (li_user_id (folder 7 1 ''/data/imports/ann'')) c (fst (snd folder_scan))"
    unfolding folder_scan_finds [symmetric] by (rule completed_scan_catalogues_everything [THEN conjunct1])
  then show ?thesis by (auto simp: sha256_file_def read_bytes_def sample_fs_def folder_def sample_env_def canonical_def)
qed

end
