(* ===== verification/Backups.thy ===== *)
theory Backups
  imports Timeline Lifecycle
begin

text \<open>
  Operational backups (\<open>services/operational_backups.py\<close>) and the task that makes them
  (\<open>backup_operational_state\<close> in \<open>worker/tasks.py\<close>): the snapshot of the configuration, the dump of the database,
  the verification of every archive of the catalogue and the removal of those past their retention; and the
  report on recoverability of \<open>api/v1/storage_status.py\<close>.  What \<open>pg_dump\<close> writes, what \<open>pg_restore --list\<close> answers
  of an archive and whether a file changes while it is read are parameters.
\<close>

text \<open>\<open>bt_dump\<close> gives how \<open>pg_dump\<close> ended and what it left at the destination, \<open>bt_list\<close> the number of objects
  \<open>pg_restore\<close> lists, \<open>bt_disturbed\<close> whether the file named changes during the check.\<close>

record backup_tools =
  bt_dump :: "string \<Rightarrow> (exn + unit) \<times> bytes option"
  bt_list :: "bytes \<Rightarrow> exn + nat"
  bt_disturbed :: "string \<Rightarrow> bool"

text \<open>The start of the transaction, which dates its rows, and the clock at each step.\<close>

record backup_times =
  ru_started :: time
  ru_configuration :: time
  ru_database :: time
  ru_verify :: time
  ru_prune :: time

record backup_fresh =
  bf_configuration :: "uuid \<times> string"
  bf_database :: "uuid \<times> string"

section \<open>JSON documents\<close>

text \<open>\<open>sort_keys=True\<close>, and \<open>json.dumps\<close> with its default separators.\<close>

fun sort_keys :: "json \<Rightarrow> json" where
  "sort_keys (JList xs) = JList (map sort_keys xs)"
| "sort_keys (JObj kvs) = JObj (sort_key fst (map (\<lambda>(k, v). (k, sort_keys v)) kvs))"
| "sort_keys j = j"

fun dumps_spaced :: "json \<Rightarrow> string" where
  "dumps_spaced (JList xs) = ''['' @ joined '', '' (map dumps_spaced xs) @ '']''"
| "dumps_spaced (JObj kvs) = ''{'' @ joined '', '' (map (\<lambda>(k, t). json_quote k @ '': '' @ t)
     (map (\<lambda>(k, v). (k, dumps_spaced v)) kvs)) @ ''}''"
| "dumps_spaced j = dumps j"

fun occurs :: "string \<Rightarrow> string \<Rightarrow> bool" where
  "occurs p [] = (p = [])"
| "occurs p (c # s) = (prefix p (c # s) \<or> occurs p s)"

section \<open>The configuration document\<close>

definition configuration_state :: "env \<Rightarrow> json" where
  "configuration_state e = JObj
     [(''deployment_mode'', JStr (deployment_mode (cfg e))),
      (''paths'', JObj
        [(''originals'', JStr (originals_path (cfg e))), (''derivatives'', JStr (derivatives_path (cfg e))),
         (''replica_roots'', JList (map JStr (replica_root_list e))), (''backups'', JStr (backups_path (cfg e)))]),
      (''lifecycle'', JObj
        [(''retention_days'', JInt (lifecycle_retention_days (cfg e))),
         (''database_backup_retention_days'', JInt (database_backup_retention_days (cfg e)))]),
      (''encryption'', JObj
        [(''enabled'', JBool (media_encryption_enabled (cfg e))), (''format'', JStr ''per-user-aes-256-gcm'')])]"

definition configuration_document :: "env \<Rightarrow> time \<Rightarrow> json" where
  "configuration_document e now = JObj
     [(''schema'', JInt 1), (''created_at'', JStr (isoformat now)), (''configuration'', configuration_state e)]"

text \<open>\<open>json.loads(path.read_text(encoding="utf-8"))\<close>.\<close>

definition read_json :: "env \<Rightarrow> fs \<Rightarrow> string \<Rightarrow> exn + json" where
  "read_json e f path = sbind (read_bytes e f path) (\<lambda>b.
     case Option.bind (decode_text e b) (json_loads e) of
       None \<Rightarrow> Inl (ValueError ''JSON'') | Some j \<Rightarrow> Inr j)"

text \<open>Objects compare equal in any order of their keys.  A document that is not an object has no \<open>get\<close>, and that
  error is not among those the source catches.\<close>

definition same_configuration_snapshot :: "env \<Rightarrow> fs \<Rightarrow> string \<Rightarrow> exn + bool" where
  "same_configuration_snapshot e f path =
     (case read_json e f path of
        Inl x \<Rightarrow> Inr False
      | Inr (JObj kvs) \<Rightarrow>
          Inr ((case map_of kvs ''schema'' of None \<Rightarrow> False | Some v \<Rightarrow> is_one v) \<and>
               (case map_of kvs ''configuration'' of None \<Rightarrow> False | Some c \<Rightarrow> sort_keys c = sort_keys (configuration_state e)))
      | Inr _ \<Rightarrow> Inl (AttributeError ''get''))"

definition compact_time :: "time \<Rightarrow> string" where
  "compact_time t =
     (let (y, m, d) = civil_of_days (t div days 1); r = t mod days 1
      in pad 4 y @ pad 2 m @ pad 2 d @ ''T'' @ pad 2 (r div hours 1) @ pad 2 (r mod hours 1 div minutes 1) @
         pad 2 (r mod minutes 1 div second) @ ''Z'')"

definition backup_name :: "env \<Rightarrow> string \<Rightarrow> time \<Rightarrow> string \<Rightarrow> string \<Rightarrow> string" where
  "backup_name e kind now token extension =
     path_join (backups_path (cfg e)) (kind @ ''-'' @ compact_time now @ ''-'' @ take 8 token @ extension)"

section \<open>Verification of one archive\<close>

definition check_archive_bytes :: "env \<Rightarrow> backup_tools \<Rightarrow> fs \<Rightarrow> archive \<Rightarrow> exn + string" where
  "check_archive_bytes e t f a =
     sbind (validated_backup_path e f (ba_path a)) (\<lambda>path.
     case files f (canonical e path) of
       None \<Rightarrow> Inl (if is_dir e f path then ValueError ''Archive checksum or size does not match'' else FileNotFoundError)
     | Some b \<Rightarrow>
         if int (length b) \<noteq> ba_size_bytes a \<or> sha256 e b \<noteq> ba_checksum a
         then Inl (ValueError ''Archive checksum or size does not match'')
         else if bt_disturbed t path then Inl (ValueError ''Archive changed during verification'')
         else sbind (validated_backup_path e f (ba_path a)) (\<lambda>_. Inr path))"

definition archive_evidence_current :: "env \<Rightarrow> backup_tools \<Rightarrow> fs \<Rightarrow> archive option \<Rightarrow> bool" where
  "archive_evidence_current e t f archive =
     (case archive of
        None \<Rightarrow> False
      | Some a \<Rightarrow> ba_status a = ''created'' \<and> ba_verification_status a = ''verified'' \<and> \<not> isl (check_archive_bytes e t f a))"

definition verify_database_dump :: "env \<Rightarrow> backup_tools \<Rightarrow> fs \<Rightarrow> string \<Rightarrow> exn + string" where
  "verify_database_dump e t f path = sbind (read_bytes e f path) (\<lambda>b. sbind (bt_list t b) (\<lambda>n.
     Inr (''Logical archive is readable ('' @ dec n @ '' objects listed).'')))"

definition forbidden_fields :: "string list" where
  "forbidden_fields = [''jwt_secret'', ''smtp_password'', ''master_key'', ''database_url'', ''redis_url'']"

definition verify_configuration_snapshot :: "env \<Rightarrow> fs \<Rightarrow> string \<Rightarrow> exn + string" where
  "verify_configuration_snapshot e f path =
     sbind (read_json e f path) (\<lambda>j. case j of
       JObj kvs \<Rightarrow>
         if \<not> (case map_of kvs ''schema'' of None \<Rightarrow> False | Some v \<Rightarrow> is_one v) \<or>
            \<not> (case map_of kvs ''configuration'' of Some (JObj c) \<Rightarrow> True | _ \<Rightarrow> False)
         then Inl (ValueError ''Configuration snapshot has an unsupported format'')
         else if list_ex (\<lambda>name. occurs name (lower (dumps_spaced j))) forbidden_fields
         then Inl (ValueError ''Configuration snapshot contains a forbidden secret field'')
         else Inr ''Checksum-verified, secret-free configuration snapshot.''
     | _ \<Rightarrow> Inl (AttributeError ''get''))"

definition archive_detail :: "env \<Rightarrow> backup_tools \<Rightarrow> fs \<Rightarrow> archive \<Rightarrow> exn + string" where
  "archive_detail e t f a =
     sbind (check_archive_bytes e t f a) (\<lambda>path.
     sbind (if ba_kind a = ''database'' then verify_database_dump e t f path
            else if ba_kind a = ''configuration'' then verify_configuration_snapshot e f path
            else Inl (ValueError ''Unsupported backup archive kind'')) (\<lambda>detail.
     sbind (check_archive_bytes e t f a) (\<lambda>_. Inr detail)))"

definition revalidate_archive :: "env \<Rightarrow> backup_tools \<Rightarrow> time \<Rightarrow> fs \<Rightarrow> archive \<Rightarrow> bool \<times> archive" where
  "revalidate_archive e t now f a =
     (case archive_detail e t f a of
        Inr detail \<Rightarrow> (True, a\<lparr>ba_verification_status := ''verified'', ba_verified_at := Some now,
                         ba_verification_detail := Some detail\<rparr>)
      | Inl x \<Rightarrow> (False, a\<lparr>ba_verification_status := ''failed'', ba_verification_detail := Some (take 2000 (exn_str x))\<rparr>))"

section \<open>Making archives\<close>

definition latest_archive :: "(archive \<Rightarrow> bool) \<Rightarrow> db \<Rightarrow> archive option" where
  "latest_archive P d = (case sort_key (\<lambda>a. - ba_created_at a) (filter P (archives d)) of [] \<Rightarrow> None | a # _ \<Rightarrow> Some a)"

definition of_kind :: "string \<Rightarrow> archive \<Rightarrow> bool" where
  "of_kind kind a \<longleftrightarrow> ba_kind a = kind"

definition insert_archive :: "archive \<Rightarrow> db \<Rightarrow> exn + db" where
  "insert_archive a d = sbind (sql_insert_unique ba_path a (archives d)) (\<lambda>t. Inr (d\<lparr>archives := t\<rparr>))"

text \<open>A stored path that is refused becomes the empty path, which is no file.\<close>

definition reusable_snapshot :: "env \<Rightarrow> time \<Rightarrow> fs \<Rightarrow> archive \<Rightarrow> exn + bool" where
  "reusable_snapshot e now f a =
     (if ba_created_at a \<ge> now - days (database_backup_retention_days (cfg e)) \<and>
         ba_status a = ''created'' \<and> ba_verification_status a = ''verified''
      then case validated_backup_path e f (ba_path a) of
          Inl x \<Rightarrow> Inr False
        | Inr path \<Rightarrow>
            if \<not> is_file e f path then Inr False
            else sbind (sha256_file e f path) (\<lambda>c.
              if c \<noteq> ba_checksum a then Inr False else same_configuration_snapshot e f path)
      else Inr False)"

definition new_snapshot :: "env \<Rightarrow> backup_times \<Rightarrow> uuid \<times> string \<Rightarrow> bytes \<Rightarrow> archive" where
  "new_snapshot e ru fresh encoded = \<lparr>ba_id = fst fresh, ba_kind = ''configuration'',
     ba_path = backup_name e ''configuration'' (ru_configuration ru) (snd fresh) ''.json'', ba_checksum = sha256 e encoded,
     ba_size_bytes = int (length encoded), ba_status = ''created'', ba_verification_status = ''verified'',
     ba_verified_at = Some (ru_configuration ru),
     ba_verification_detail = Some ''Checksum-verified JSON configuration snapshot.'', ba_created_at = ru_started ru\<rparr>"

definition create_configuration_backup :: "env \<Rightarrow> backup_times \<Rightarrow> uuid \<times> string \<Rightarrow> db \<Rightarrow> fs \<Rightarrow> (exn + archive) \<times> db \<times> fs" where
  "create_configuration_backup e ru fresh d f =
     (case require_storage e f [''backups''] of
        Inl x \<Rightarrow> (Inl x, d, f)
      | Inr _ \<Rightarrow>
          (let f = mkdirs e (backups_path (cfg e)) f;
               found = latest_archive (of_kind ''configuration'') d
           in case (case found of None \<Rightarrow> Inr False | Some a \<Rightarrow> reusable_snapshot e (ru_configuration ru) f a) of
                Inl x \<Rightarrow> (Inl x, d, f)
              | Inr True \<Rightarrow> (Inr (the found), d, f)
              | Inr False \<Rightarrow>
                  (let encoded = dumps_indent 0 (sort_keys (configuration_document e (ru_configuration ru)));
                       a = new_snapshot e ru fresh encoded;
                       temporary = backup_name e ''configuration'' (ru_configuration ru) (snd fresh) ''.tmp''
                   in if write_fails e (canonical e temporary) then (Inl (OSError ''write''), d, f)
                      else (let f = write_file e (ba_path a) encoded (remove_file e temporary f)
                            in case insert_archive a d of
                                 Inl x \<Rightarrow> (Inl x, d, f)
                               | Inr d \<Rightarrow> (Inr a, d, f)))))"

definition new_dump :: "env \<Rightarrow> backup_times \<Rightarrow> uuid \<times> string \<Rightarrow> archive" where
  "new_dump e ru fresh = \<lparr>ba_id = fst fresh, ba_kind = ''database'',
     ba_path = backup_name e ''database'' (ru_database ru) (snd fresh) ''.dump'', ba_checksum = replicate 64 (CHR ''0''),
     ba_size_bytes = 0, ba_status = ''failed'', ba_verification_status = ''failed'', ba_verified_at = None,
     ba_verification_detail = None, ba_created_at = ru_started ru\<rparr>"

text \<open>The dump itself.  A failure removes whatever was left at the destination and is recorded as a row.\<close>

definition dump_database :: "env \<Rightarrow> backup_tools \<Rightarrow> backup_times \<Rightarrow> uuid \<times> string \<Rightarrow> fs \<Rightarrow> (exn + archive) \<times> fs" where
  "dump_database e t ru fresh f =
     (let a = new_dump e ru fresh; (r, left) = bt_dump t (ba_path a);
          f = (case left of None \<Rightarrow> f | Some b \<Rightarrow> write_file e (ba_path a) b f)
      in case sbind r (\<lambda>_. read_bytes e f (ba_path a)) of
           Inr b \<Rightarrow> (Inr (a\<lparr>ba_checksum := sha256 e b, ba_size_bytes := int (length b), ba_status := ''created'',
                          ba_verification_status := ''pending''\<rparr>), f)
         | Inl x \<Rightarrow>
             (case unlink_missing_ok e (ba_path a) f of
                Inl y \<Rightarrow> (Inl y, f)
              | Inr f \<Rightarrow> (Inr (a\<lparr>ba_verification_detail := Some (take 2000 (exn_str x))\<rparr>), f)))"

definition set_archive :: "uuid \<Rightarrow> (archive \<Rightarrow> archive) \<Rightarrow> db \<Rightarrow> db" where
  "set_archive i g d = d\<lparr>archives := sql_update (\<lambda>a. ba_id a = i) g (archives d)\<rparr>"

definition recent_dump :: "env \<Rightarrow> time \<Rightarrow> archive \<Rightarrow> bool" where
  "recent_dump e now a \<longleftrightarrow> ba_status a = ''created'' \<and>
     (ba_verification_status a = ''pending'' \<or> ba_verification_status a = ''verified'') \<and>
     ba_created_at a + hours (database_backup_interval_hours (cfg e)) > now"

definition reusable_dump :: "env \<Rightarrow> time \<Rightarrow> bool \<Rightarrow> db \<Rightarrow> archive option" where
  "reusable_dump e now force d =
     (case latest_archive (of_kind ''database'') d of
        None \<Rightarrow> None
      | Some a \<Rightarrow> if \<not> force \<and> recent_dump e now a then Some a else None)"

definition record_dump ::
  "env \<Rightarrow> backup_tools \<Rightarrow> backup_times \<Rightarrow> uuid \<times> string \<Rightarrow> db \<Rightarrow> fs \<Rightarrow> (exn + archive option) \<times> db \<times> fs" where
  "record_dump e t ru fresh d f =
     (case dump_database e t ru fresh (mkdirs e (backups_path (cfg e)) f) of
        (Inl x, f) \<Rightarrow> (Inl x, d, f)
      | (Inr a, f) \<Rightarrow>
          (case insert_archive a d of
             Inl x \<Rightarrow> (Inl x, d, f)
           | Inr d \<Rightarrow> (Inr (Some a), d, f)))"

definition create_database_backup ::
  "env \<Rightarrow> backup_tools \<Rightarrow> backup_times \<Rightarrow> bool \<Rightarrow> uuid \<times> string \<Rightarrow> db \<Rightarrow> fs \<Rightarrow> (exn + archive option) \<times> db \<times> fs" where
  "create_database_backup e t ru force fresh d f =
     (case require_storage e f [''backups''] of
        Inl x \<Rightarrow> (Inl x, d, f)
      | Inr _ \<Rightarrow>
          if \<not> database_backup_enabled (cfg e) then (Inr None, d, f)
          else case reusable_dump e (ru_database ru) force d of
            None \<Rightarrow> record_dump e t ru fresh d f
          | Some a \<Rightarrow>
              (let check = revalidate_archive e t (ru_database ru) f;
                   d = set_archive (ba_id a) (snd \<circ> check) d
               in if fst (check a) then (Inr (Some (snd (check a))), d, f) else record_dump e t ru fresh d f))"

section \<open>Verifying and pruning the catalogue of archives\<close>

definition to_verify :: "uuid option \<Rightarrow> archive \<Rightarrow> bool" where
  "to_verify only a \<longleftrightarrow> ba_status a = ''created'' \<and> (case only of None \<Rightarrow> True | Some i \<Rightarrow> ba_id a = i)"

definition verify_operational_backups ::
  "env \<Rightarrow> backup_tools \<Rightarrow> time \<Rightarrow> uuid option \<Rightarrow> db \<Rightarrow> fs \<Rightarrow> (exn + nat) \<times> db" where
  "verify_operational_backups e t now only d f =
     (case require_storage e f [''backups''] of
        Inl x \<Rightarrow> (Inl x, d)
      | Inr _ \<Rightarrow>
          (Inr (length (filter (\<lambda>a. to_verify only a \<and> fst (revalidate_archive e t now f a)) (archives d))),
           d\<lparr>archives := sql_update (to_verify only) (\<lambda>a. snd (revalidate_archive e t now f a)) (archives d)\<rparr>))"

fun prune_each :: "env \<Rightarrow> archive list \<Rightarrow> db \<Rightarrow> fs \<Rightarrow> nat \<times> db \<times> fs" where
  "prune_each e [] d f = (0, d, f)"
| "prune_each e (a # as) d f =
     (case sbind (validated_backup_path e f (ba_path a)) (\<lambda>path. unlink_missing_ok e path f) of
        Inl x \<Rightarrow> prune_each e as d f
      | Inr f \<Rightarrow>
          (case prune_each e as (d\<lparr>archives := sql_delete (\<lambda>x. ba_id x = ba_id a) (archives d)\<rparr>) f of
             (n, d, f) \<Rightarrow> (Suc n, d, f)))"

definition prune_operational_backups :: "env \<Rightarrow> time \<Rightarrow> db \<Rightarrow> fs \<Rightarrow> (exn + nat) \<times> db \<times> fs" where
  "prune_operational_backups e now d f =
     (case require_storage e f [''backups''] of
        Inl x \<Rightarrow> (Inl x, d, f)
      | Inr _ \<Rightarrow>
          (case prune_each e (filter (\<lambda>a. ba_created_at a < now - days (database_backup_retention_days (cfg e))) (archives d)) d f of
             (n, d, f) \<Rightarrow> (Inr n, d, f)))"

text \<open>One transaction: an error anywhere leaves the catalogue as it was, but not the files.\<close>

definition backup_operational_state ::
  "env \<Rightarrow> backup_tools \<Rightarrow> backup_times \<Rightarrow> backup_fresh \<Rightarrow> db \<Rightarrow> fs \<Rightarrow> (exn + unit) \<times> db \<times> fs" where
  "backup_operational_state e t ru fresh d f =
     (case create_configuration_backup e ru (bf_configuration fresh) d f of
        (Inl x, _, f) \<Rightarrow> (Inl x, d, f)
      | (Inr _, d1, f) \<Rightarrow>
          (case create_database_backup e t ru False (bf_database fresh) d1 f of
             (Inl x, _, f) \<Rightarrow> (Inl x, d, f)
           | (Inr _, d2, f) \<Rightarrow>
               (case verify_operational_backups e t (ru_verify ru) None d2 f of
                  (Inl x, _) \<Rightarrow> (Inl x, d, f)
                | (Inr _, d3) \<Rightarrow>
                    (case prune_operational_backups e (ru_prune ru) d3 f of
                       (Inl x, _, f) \<Rightarrow> (Inl x, d, f)
                     | (Inr _, d4, f) \<Rightarrow> (Inr (), d4, f)))))"

section \<open>Reports\<close>

record archive_view =
  bv_id :: uuid
  bv_kind :: string
  bv_size_bytes :: int
  bv_status :: string
  bv_verification_status :: string
  bv_verified_at :: "time option"
  bv_verification_detail :: "string option"
  bv_created_at :: time

definition archive_response :: "archive \<Rightarrow> archive_view" where
  "archive_response a = \<lparr>bv_id = ba_id a, bv_kind = ba_kind a, bv_size_bytes = ba_size_bytes a, bv_status = ba_status a,
     bv_verification_status = ba_verification_status a, bv_verified_at = ba_verified_at a,
     bv_verification_detail = (if ba_status a = ''failed'' \<or> ba_verification_status a = ''failed''
       then Some ''Backup failed verification; inspect the worker logs as the host operator.'' else ba_verification_detail a),
     bv_created_at = ba_created_at a\<rparr>"

definition backup_status :: "db \<Rightarrow> archive_view list" where
  "backup_status d = map archive_response (take 50 (sort_key (\<lambda>a. - ba_created_at a) (archives d)))"

record recovery_report =
  rr_enabled :: bool
  rr_recoverable :: bool
  rr_fresh :: bool
  rr_database_status :: string
  rr_configuration_status :: string
  rr_database_at :: "time option"
  rr_configuration_at :: "time option"
  rr_failed_archives :: nat
  rr_purges_in_progress :: nat
  rr_retention_days :: int

definition recoverable_archive :: "string \<Rightarrow> db \<Rightarrow> archive option" where
  "recoverable_archive kind d =
     latest_archive (\<lambda>a. ba_kind a = kind \<and> ba_status a = ''created'' \<and> ba_verification_status a = ''verified'') d"

definition recovery_readiness :: "env \<Rightarrow> backup_tools \<Rightarrow> time \<Rightarrow> user \<Rightarrow> db \<Rightarrow> fs \<Rightarrow> recovery_report" where
  "recovery_readiness e t now u d f =
     (let database = recoverable_archive ''database'' d; configuration = recoverable_archive ''configuration'' d;
          cutoff = now - hours (max (database_backup_interval_hours (cfg e) * 2) 1);
          fresh = (case database of None \<Rightarrow> False | Some a \<Rightarrow> ba_created_at a \<ge> cutoff);
          database_evidence = archive_evidence_current e t f database;
          configuration_ready = archive_evidence_current e t f configuration;
          database_ready = (database \<noteq> None \<and> fresh \<and> database_evidence);
          latest = (\<lambda>kind. case latest_archive (of_kind kind) d of None \<Rightarrow> ''missing'' | Some a \<Rightarrow> ba_verification_status a)
      in \<lparr>rr_enabled = database_backup_enabled (cfg e),
          rr_recoverable = (database_backup_enabled (cfg e) \<and> database_ready \<and> configuration_ready),
          rr_fresh = fresh,
          rr_database_status =
            (if \<not> database_backup_enabled (cfg e) then ''disabled'' else if database_ready then ''verified''
             else if database \<noteq> None \<and> \<not> database_evidence then ''failed''
             else if database \<noteq> None \<and> \<not> fresh then ''stale'' else latest ''database''),
          rr_configuration_status =
            (if configuration_ready then ''verified'' else if configuration \<noteq> None then ''failed'' else latest ''configuration''),
          rr_database_at = map_option ba_created_at database, rr_configuration_at = map_option ba_created_at configuration,
          rr_failed_archives = length (filter (\<lambda>a. ba_status a = ''failed'' \<or> ba_verification_status a = ''failed'') (archives d)),
          rr_purges_in_progress = length (filter (\<lambda>a. a_user_id a = u_id u \<and> a_lifecycle_state a = Purging) (assets d)),
          rr_retention_days = database_backup_retention_days (cfg e)\<rparr>)"

end
