(* ===== verification/BackupSafety.thy ===== *)
theory BackupSafety
  imports Backups
begin

text \<open>
  What a backup run guarantees: every archive the catalogue calls verified afterwards is on disk with its recorded
  digest and size and can be read; with working tools a run leaves a recent dump of the database.
\<close>

section \<open>Intact archives\<close>

definition intact_archive :: "env \<Rightarrow> backup_tools \<Rightarrow> fs \<Rightarrow> archive \<Rightarrow> bool" where
  "intact_archive e t f a \<longleftrightarrow>
     (\<exists>b. files f (canonical e (ba_path a)) = Some b \<and> sha256 e b = ba_checksum a \<and> int (length b) = ba_size_bytes a \<and>
        (ba_kind a = ''database'' \<longrightarrow> \<not> isl (bt_list t b)))"

lemma revalidated_columns [simp]:
  "ba_id (snd (revalidate_archive e t now f a)) = ba_id a" "ba_path (snd (revalidate_archive e t now f a)) = ba_path a"
  "ba_checksum (snd (revalidate_archive e t now f a)) = ba_checksum a"
  "ba_size_bytes (snd (revalidate_archive e t now f a)) = ba_size_bytes a"
  "ba_kind (snd (revalidate_archive e t now f a)) = ba_kind a" "ba_status (snd (revalidate_archive e t now f a)) = ba_status a"
  "ba_created_at (snd (revalidate_archive e t now f a)) = ba_created_at a"
  "ba_verification_status (snd (revalidate_archive e t now f a)) = (if fst (revalidate_archive e t now f a) then ''verified'' else ''failed'')"
  by (simp_all add: revalidate_archive_def split: sum.split)

lemma revalidated_intact:
  assumes "host_paths e" "fst (revalidate_archive e t now f a)"
  shows "intact_archive e t f a" "is_relative_to (resolve e (ba_path a)) (resolve e (backups_path (cfg e)))"
proof -
  obtain detail where "archive_detail e t f a = Inr detail"
    using assms(2) by (auto simp: revalidate_archive_def split: sum.splits)
  then obtain path where path: "check_archive_bytes e t f a = Inr path"
    and read: "ba_kind a = ''database'' \<Longrightarrow> \<exists>s. verify_database_dump e t f path = Inr s"
    by (auto simp: archive_detail_def sbind_Inr_iff split: if_splits)
  from path have "path = resolve e (ba_path a)" and "is_relative_to (resolve e (ba_path a)) (resolve e (backups_path (cfg e)))"
    by (auto simp: check_archive_bytes_def sbind_Inr_iff split: option.splits if_splits)
  with canonical_resolve [OF assms(1)] have same: "canonical e path = canonical e (ba_path a)" by simp
  with path obtain b where b: "files f (canonical e (ba_path a)) = Some b" "int (length b) = ba_size_bytes a" "sha256 e b = ba_checksum a"
    by (auto simp: check_archive_bytes_def sbind_Inr_iff same split: option.splits if_splits)
  with read same show "intact_archive e t f a"
    by (auto simp: intact_archive_def verify_database_dump_def read_bytes_def sbind_Inr_iff)
  show "is_relative_to (resolve e (ba_path a)) (resolve e (backups_path (cfg e)))" by fact
qed

section \<open>Pruning\<close>

lemma prune_each_effect:
  assumes "prune_each e as d f = (n, d', f')" "host_paths e"
  shows "set (archives d') \<subseteq> set (archives d) \<and>
    (\<forall>p. files f' p = files f p \<or> (\<exists>a \<in> set as. p = canonical e (ba_path a) \<and> (\<forall>x \<in> set (archives d'). ba_id x \<noteq> ba_id a))) \<and>
    (\<forall>x \<in> set (archives d). (\<forall>a \<in> set as. ba_id a \<noteq> ba_id x) \<longrightarrow> x \<in> set (archives d'))"
  using assms(1)
proof (induction as arbitrary: d f n)
  case Nil
  then show ?case by simp
next
  case (Cons a as)
  show ?case
  proof (cases "sbind (validated_backup_path e f (ba_path a)) (\<lambda>path. unlink_missing_ok e path f)")
    case (Inl x)
    with Cons.prems have "prune_each e as d f = (n, d', f')" by simp
    from Cons.IH [OF this] show ?thesis by fastforce
  next
    case (Inr g)
    then have g: "files g = (files f)(canonical e (ba_path a) := None)"
      using canonical_resolve [OF assms(2)] by (auto simp: sbind_Inr_iff unlink_missing_ok_def split: if_splits)
    let ?d = "d\<lparr>archives := sql_delete (\<lambda>x. ba_id x = ba_id a) (archives d)\<rparr>"
    obtain m where rest: "prune_each e as ?d g = (m, d', f')"
      using Cons.prems Inr by (auto split: prod.splits)
    note IH = Cons.IH [OF rest]
    then have gone: "\<forall>x \<in> set (archives d'). ba_id x \<noteq> ba_id a" by (auto simp: set_sql_delete)
    show ?thesis
    proof (intro conjI allI ballI impI)
      show "set (archives d') \<subseteq> set (archives d)" using IH by (auto simp: set_sql_delete)
      show "files f' p = files f p \<or>
        (\<exists>b \<in> set (a # as). p = canonical e (ba_path b) \<and> (\<forall>x \<in> set (archives d'). ba_id x \<noteq> ba_id b))" for p
      proof -
        have "files f' p = files g p \<or> (\<exists>b \<in> set as. p = canonical e (ba_path b) \<and> (\<forall>x \<in> set (archives d'). ba_id x \<noteq> ba_id b))"
          using IH by blast
        then show ?thesis using gone by (cases "p = canonical e (ba_path a)") (auto simp: g)
      qed
      show "x \<in> set (archives d')" if "x \<in> set (archives d)" "\<forall>b \<in> set (a # as). ba_id b \<noteq> ba_id x" for x
        using IH that by (auto simp: set_sql_delete)
    qed
  qed
qed

section \<open>What the catalogue calls verified is intact\<close>

text \<open>The identity and the path of a row.  Two rows are apart when they have identities and files of their own; the
  names of a run are fresh when the rows it may add are apart from those there are and from each other.\<close>

definition archive_key :: "archive \<Rightarrow> uuid \<times> string" where
  "archive_key a = (ba_id a, ba_path a)"

definition keys_apart :: "env \<Rightarrow> (uuid \<times> string) list \<Rightarrow> bool" where
  "keys_apart e ks \<longleftrightarrow> distinct (map fst ks) \<and> distinct (map (canonical e \<circ> snd) ks)"

definition snapshot_key :: "env \<Rightarrow> backup_times \<Rightarrow> backup_fresh \<Rightarrow> uuid \<times> string" where
  "snapshot_key e ru fresh = archive_key (new_snapshot e ru (bf_configuration fresh) [])"

definition dump_key :: "env \<Rightarrow> backup_times \<Rightarrow> backup_fresh \<Rightarrow> uuid \<times> string" where
  "dump_key e ru fresh = archive_key (new_dump e ru (bf_database fresh))"

definition fresh_names :: "env \<Rightarrow> backup_times \<Rightarrow> backup_fresh \<Rightarrow> db \<Rightarrow> bool" where
  "fresh_names e ru fresh d \<longleftrightarrow>
     keys_apart e (map archive_key (archives d) @ [snapshot_key e ru fresh, dump_key e ru fresh])"

lemma configuration_rows:
  assumes "create_configuration_backup e ru (bf_configuration fresh) d f = (Inr a, d', f')"
  shows "map archive_key (archives d') = map archive_key (archives d) \<or>
    map archive_key (archives d') = map archive_key (archives d) @ [snapshot_key e ru fresh]"
  using assms
  by (auto simp: create_configuration_backup_def insert_archive_def sbind_Inr_iff new_snapshot_def snapshot_key_def
        archive_key_def Let_def sql_insert_def split: sum.splits bool.splits if_splits option.splits)

lemma dumped_columns:
  assumes "dump_database e t ru (bf_database fresh) f = (Inr a, f')"
  shows "archive_key a = dump_key e ru fresh"
  using assms by (auto simp: dump_database_def new_dump_def dump_key_def archive_key_def Let_def split: prod.splits sum.splits)

lemma set_archive_keys [simp]:
  "map archive_key (archives (set_archive i (snd \<circ> revalidate_archive e t now f) d)) = map archive_key (archives d)"
  by (simp add: set_archive_def sql_update_def archive_key_def)

lemma recorded_rows:
  assumes "record_dump e t ru fresh d f = (Inr r, d', f')"
  shows "\<exists>a. dump_database e t ru fresh (mkdirs e (backups_path (cfg e)) f) = (Inr a, f') \<and> r = Some a \<and>
    d' = d\<lparr>archives := archives d @ [a]\<rparr>"
  using assms by (auto simp: record_dump_def insert_archive_def sbind_Inr_iff sql_insert_def split: prod.splits sum.splits)

lemma database_rows:
  assumes "create_database_backup e t ru force (bf_database fresh) d f = (Inr r, d', f')"
  shows "map archive_key (archives d') = map archive_key (archives d) \<or>
    map archive_key (archives d') = map archive_key (archives d) @ [dump_key e ru fresh]"
proof -
  have recorded: "map archive_key (archives d') = map archive_key (archives d1) @ [dump_key e ru fresh]"
    if run: "record_dump e t ru (bf_database fresh) d1 f = (Inr r, d', f')" for d1
  proof -
    obtain a where a: "dump_database e t ru (bf_database fresh) (mkdirs e (backups_path (cfg e)) f) = (Inr a, f')"
      and d': "d' = d1\<lparr>archives := archives d1 @ [a]\<rparr>" using recorded_rows [OF run] by blast
    from d' dumped_columns [OF a] show ?thesis by simp
  qed
  show ?thesis
  proof (cases "reusable_dump e (ru_database ru) force d")
    case None
    then have "d' = d \<or> record_dump e t ru (bf_database fresh) d f = (Inr r, d', f')"
      using assms by (auto simp: create_database_backup_def split: sum.splits if_splits)
    then show ?thesis using recorded [of d] by blast
  next
    case (Some a)
    let ?d = "set_archive (ba_id a) (snd \<circ> revalidate_archive e t (ru_database ru) f) d"
    have "d' = d \<or> d' = ?d \<or> record_dump e t ru (bf_database fresh) ?d f = (Inr r, d', f')"
      using assms Some by (auto simp: create_database_backup_def Let_def split: sum.splits if_splits)
    then show ?thesis using recorded [of ?d] by auto
  qed
qed

lemma keys_apart_fewer:
  "keys_apart e (ks @ [a, b]) \<Longrightarrow> keys_apart e ks \<and> keys_apart e (ks @ [a]) \<and> keys_apart e (ks @ [b])"
  by (auto simp: keys_apart_def)

lemma created_apart:
  assumes "create_configuration_backup e ru (bf_configuration fresh) d f = (Inr a, d1, f1)"
    "create_database_backup e t ru False (bf_database fresh) d1 f1 = (Inr r, d2, f2)" "fresh_names e ru fresh d"
  shows "keys_apart e (map archive_key (archives d2))"
proof -
  have apart: "keys_apart e (map archive_key (archives d) @ [snapshot_key e ru fresh, dump_key e ru fresh])"
    using assms(3) by (simp add: fresh_names_def)
  from configuration_rows [OF assms(1)] database_rows [OF assms(2)]
  have "map archive_key (archives d2) \<in> {map archive_key (archives d), map archive_key (archives d) @ [snapshot_key e ru fresh],
    map archive_key (archives d) @ [dump_key e ru fresh], map archive_key (archives d) @ [snapshot_key e ru fresh, dump_key e ru fresh]}"
    by (elim disjE) simp_all
  then show ?thesis using keys_apart_fewer [OF apart] apart by (elim insertE) simp_all
qed

lemma checked_apart:
  assumes "create_configuration_backup e ru (bf_configuration fresh) d f = (Inr a, d1, f1)"
    "create_database_backup e t ru False (bf_database fresh) d1 f1 = (Inr r, d2, f2)" "fresh_names e ru fresh d"
  shows "distinct (map ba_id (sql_update P (\<lambda>a. snd (revalidate_archive e t now g a)) (archives d2)))"
    "distinct (map (\<lambda>a. canonical e (ba_path a)) (sql_update P (\<lambda>a. snd (revalidate_archive e t now g a)) (archives d2)))"
proof -
  let ?as = "sql_update P (\<lambda>a. snd (revalidate_archive e t now g a)) (archives d2)"
  have "map archive_key ?as = map archive_key (archives d2)" by (simp add: sql_update_def archive_key_def)
  with created_apart [OF assms] have "keys_apart e (map archive_key ?as)" by simp
  then show "distinct (map ba_id ?as)" "distinct (map (\<lambda>a. canonical e (ba_path a)) ?as)"
    by (simp_all add: keys_apart_def archive_key_def comp_def)
qed

lemma run_steps:
  assumes "backup_operational_state e t ru fresh d f = (Inr (), d', f')"
  obtains a d1 f1 r d2 f2 n m where
    "create_configuration_backup e ru (bf_configuration fresh) d f = (Inr a, d1, f1)"
    "create_database_backup e t ru False (bf_database fresh) d1 f1 = (Inr r, d2, f2)"
    "prune_each e (filter (\<lambda>a. ba_created_at a < ru_prune ru - days (database_backup_retention_days (cfg e)))
       (sql_update (to_verify None) (\<lambda>a. snd (revalidate_archive e t (ru_verify ru) f2 a)) (archives d2)))
       (d2\<lparr>archives := sql_update (to_verify None) (\<lambda>a. snd (revalidate_archive e t (ru_verify ru) f2 a)) (archives d2)\<rparr>) f2 = (m, d', f')"
  using assms
  by (auto simp: backup_operational_state_def verify_operational_backups_def prune_operational_backups_def split: prod.splits sum.splits)

lemma verified_rows:
  assumes "backup_operational_state e t ru fresh d f = (Inr (), d', f')" "host_paths e" "fresh_names e ru fresh d"
    "a \<in> set (archives d')" "ba_status a = ''created''" "ba_verification_status a = ''verified''"
  shows "intact_archive e t f' a \<and> is_relative_to (resolve e (ba_path a)) (resolve e (backups_path (cfg e)))"
proof -
  obtain x d1 f1 r d2 f2 m where made: "create_configuration_backup e ru (bf_configuration fresh) d f = (Inr x, d1, f1)"
      "create_database_backup e t ru False (bf_database fresh) d1 f1 = (Inr r, d2, f2)"
    and pruned: "prune_each e (filter (\<lambda>a. ba_created_at a < ru_prune ru - days (database_backup_retention_days (cfg e)))
       (sql_update (to_verify None) (\<lambda>a. snd (revalidate_archive e t (ru_verify ru) f2 a)) (archives d2)))
       (d2\<lparr>archives := sql_update (to_verify None) (\<lambda>a. snd (revalidate_archive e t (ru_verify ru) f2 a)) (archives d2)\<rparr>) f2 = (m, d', f')"
    using run_steps [OF assms(1)] by metis
  let ?as = "sql_update (to_verify None) (\<lambda>a. snd (revalidate_archive e t (ru_verify ru) f2 a)) (archives d2)"
  from prune_each_effect [OF pruned assms(2)] have a: "a \<in> set ?as"
    and kept: "files f' p = files f2 p \<or> (\<exists>b \<in> set ?as. p = canonical e (ba_path b) \<and> (\<forall>x \<in> set (archives d'). ba_id x \<noteq> ba_id b))" for p
    using assms(4) by auto
  obtain b where b: "b \<in> set (archives d2)" "a = (if to_verify None b then snd (revalidate_archive e t (ru_verify ru) f2 b) else b)"
    using a by (auto simp: set_sql_update)
  with assms(5,6) have "to_verify None b" by (auto simp: to_verify_def split: if_splits)
  with b assms(6) have "a = snd (revalidate_archive e t (ru_verify ru) f2 b)" "fst (revalidate_archive e t (ru_verify ru) f2 b)"
    by (auto split: if_splits)
  with revalidated_intact [OF assms(2)] have "intact_archive e t f2 a" "is_relative_to (resolve e (ba_path a)) (resolve e (backups_path (cfg e)))"
    by (auto simp: intact_archive_def)
  moreover have "files f' (canonical e (ba_path a)) = files f2 (canonical e (ba_path a))"
  proof (rule ccontr)
    assume "files f' (canonical e (ba_path a)) \<noteq> files f2 (canonical e (ba_path a))"
    with kept [of "canonical e (ba_path a)"] obtain c where c: "c \<in> set ?as" "canonical e (ba_path a) = canonical e (ba_path c)"
      "ba_id a \<noteq> ba_id c" using assms(4) by blast
    from key_unique [OF checked_apart(2) [OF made assms(3)] a c(1,2)] c(3) show False by simp
  qed
  ultimately show ?thesis by (simp add: intact_archive_def)
qed

text \<open>C23: What the catalogue calls verified is there.  After a backup run that ends without an error, each archive the
  catalogue shows as created and verified is on disk with the recorded digest and size, and a dump can be listed;
  whatever the run reused, failed to make or pruned, and however the files had been damaged before.\<close>

theorem verified_archives_are_intact:
  assumes "backup_operational_state e t ru fresh d f = (Inr (), d', f')" "host_paths e" "fresh_names e ru fresh d"
    "a \<in> set (archives d')" "ba_status a = ''created''" "ba_verification_status a = ''verified''"
  shows "intact_archive e t f' a"
  using verified_rows [OF assms] by simp

section \<open>A run leaves a recent dump\<close>

text \<open>Host tools that work: a dump ends well and can be listed, and nothing changes a file while it is read.\<close>

definition tools_work :: "backup_tools \<Rightarrow> bool" where
  "tools_work t \<longleftrightarrow> (\<forall>p. (\<exists>b. bt_dump t p = (Inr (), Some b) \<and> \<not> isl (bt_list t b)) \<and> \<not> bt_disturbed t p)"

lemma manual_storage:
  assumes "storage_manifest_path (cfg e) = None"
  shows "require_storage e f roles = Inr ()" "require_storage_path e f p = Inr ()"
  using assms by (simp_all add: require_storage_def require_storage_path_def load_storage_manifest_def)

lemma intact_database_verifies:
  assumes "host_paths e" "storage_manifest_path (cfg e) = None" "tools_work t" "intact_archive e t f a" "ba_kind a = ''database''"
    "is_relative_to (resolve e (ba_path a)) (resolve e (backups_path (cfg e)))"
  shows "fst (revalidate_archive e t now f a)" "\<not> isl (check_archive_bytes e t f a)"
proof -
  note same = canonical_resolve [OF assms(1)]
  obtain b where b: "files f (canonical e (ba_path a)) = Some b" "sha256 e b = ba_checksum a" "int (length b) = ba_size_bytes a"
    "\<not> isl (bt_list t b)" using assms(4,5) by (auto simp: intact_archive_def)
  have path: "validated_backup_path e f (ba_path a) = Inr (resolve e (ba_path a))"
    using assms(2,6) by (simp add: manual_storage)
  have check: "check_archive_bytes e t f a = Inr (resolve e (ba_path a))"
    using assms(3) b by (simp add: check_archive_bytes_def path same tools_work_def)
  then show "\<not> isl (check_archive_bytes e t f a)" by simp
  obtain n where "bt_list t b = Inr n" using b(4) by (cases "bt_list t b") auto
  with b have "verify_database_dump e t f (resolve e (ba_path a)) = Inr (''Logical archive is readable ('' @ dec n @ '' objects listed).'')"
    by (simp add: verify_database_dump_def read_bytes_def same)
  with check show "fst (revalidate_archive e t now f a)"
    by (simp add: revalidate_archive_def archive_detail_def assms(5))
qed

lemma fresh_dump:
  assumes "dump_database e t ru fresh f = (Inr a, f')" "tools_work t"
  shows "intact_archive e t f' a" "ba_kind a = ''database''" "ba_status a = ''created''" "ba_created_at a = ru_started ru"
    "ba_path a = ba_path (new_dump e ru fresh)"
proof -
  obtain b where b: "bt_dump t (ba_path (new_dump e ru fresh)) = (Inr (), Some b)" "\<not> isl (bt_list t b)"
    using assms(2) unfolding tools_work_def by blast
  then have "a = (new_dump e ru fresh)\<lparr>ba_checksum := sha256 e b, ba_size_bytes := int (length b), ba_status := ''created'',
      ba_verification_status := ''pending''\<rparr> \<and> f' = write_file e (ba_path (new_dump e ru fresh)) b f"
    using assms(1) by (simp add: dump_database_def Let_def read_bytes_def)
  with b(2) show "intact_archive e t f' a" "ba_kind a = ''database''" "ba_status a = ''created''" "ba_created_at a = ru_started ru"
    "ba_path a = ba_path (new_dump e ru fresh)" by (simp_all add: intact_archive_def new_dump_def)
qed

lemma latest_archive_Some:
  assumes "latest_archive P d = Some a"
  shows "a \<in> set (archives d)" "P a"
proof -
  obtain xs where "sort_key (\<lambda>a. - ba_created_at a) (filter P (archives d)) = a # xs"
    using assms by (auto simp: latest_archive_def split: list.splits)
  then have "a \<in> set (sort_key (\<lambda>a. - ba_created_at a) (filter P (archives d)))" by simp
  then show "a \<in> set (archives d)" "P a" by simp_all
qed

text \<open>What the dump of a run relies on: its times, and a name below the backup folder.\<close>

definition run_in_time :: "env \<Rightarrow> backup_times \<Rightarrow> bool" where
  "run_in_time e ru \<longleftrightarrow> 0 \<le> database_backup_interval_hours (cfg e) \<and> ru_started ru \<le> ru_database ru \<and>
     ru_prune ru - days (database_backup_retention_days (cfg e)) \<le> ru_started ru - hours (database_backup_interval_hours (cfg e))"

definition recent_archive :: "env \<Rightarrow> backup_tools \<Rightarrow> backup_times \<Rightarrow> fs \<Rightarrow> archive \<Rightarrow> bool" where
  "recent_archive e t ru f a \<longleftrightarrow> ba_kind a = ''database'' \<and> ba_status a = ''created'' \<and> intact_archive e t f a \<and>
     ru_started ru - hours (database_backup_interval_hours (cfg e)) \<le> ba_created_at a \<and>
     is_relative_to (resolve e (ba_path a)) (resolve e (backups_path (cfg e)))"

lemma recorded_recent:
  assumes "record_dump e t ru fresh d f = (Inr r, d', f')" "tools_work t" "run_in_time e ru"
    "is_relative_to (resolve e (ba_path (new_dump e ru fresh))) (resolve e (backups_path (cfg e)))"
  shows "\<exists>a \<in> set (archives d'). recent_archive e t ru f' a"
proof -
  obtain a where a: "dump_database e t ru fresh (mkdirs e (backups_path (cfg e)) f) = (Inr a, f')" and "a \<in> set (archives d')"
    using recorded_rows [OF assms(1)] by auto
  moreover have "recent_archive e t ru f' a"
    using fresh_dump [OF a assms(2)] assms(3,4) by (auto simp: recent_archive_def run_in_time_def)
  ultimately show ?thesis by blast
qed

lemma created_recent:
  assumes "create_database_backup e t ru False fresh d f = (Inr r, d', f')" "tools_work t" "run_in_time e ru" "host_paths e"
    "database_backup_enabled (cfg e)"
    "is_relative_to (resolve e (ba_path (new_dump e ru fresh))) (resolve e (backups_path (cfg e)))"
  shows "\<exists>a \<in> set (archives d'). recent_archive e t ru f' a"
proof (cases "reusable_dump e (ru_database ru) False d")
  case None
  then have "record_dump e t ru fresh d f = (Inr r, d', f')"
    using assms(1,5) by (auto simp: create_database_backup_def split: sum.splits)
  then show ?thesis using recorded_recent [OF _ assms(2,3,6)] by blast
next
  case (Some a)
  let ?d = "set_archive (ba_id a) (snd \<circ> revalidate_archive e t (ru_database ru) f) d"
  have a: "a \<in> set (archives d)" "ba_kind a = ''database''" "recent_dump e (ru_database ru) a"
    using Some by (auto simp: reusable_dump_def of_kind_def dest: latest_archive_Some split: option.splits if_splits)
  show ?thesis
  proof (cases "fst (revalidate_archive e t (ru_database ru) f a)")
    case True
    then have d': "d' = ?d" "f' = f"
      using assms(1,5) Some by (auto simp: create_database_backup_def Let_def split: sum.splits)
    let ?a = "snd (revalidate_archive e t (ru_database ru) f a)"
    have "?a \<in> set (archives d')" using a(1) by (auto simp: d' set_archive_def set_sql_update)
    moreover have "recent_archive e t ru f' ?a"
      using revalidated_intact [OF assms(4) True] a(2,3) assms(3)
      by (auto simp: recent_archive_def d' recent_dump_def run_in_time_def intact_archive_def)
    ultimately show ?thesis by blast
  next
    case False
    then have "record_dump e t ru fresh ?d f = (Inr r, d', f')"
      using assms(1,5) Some by (auto simp: create_database_backup_def Let_def split: sum.splits)
    then show ?thesis using recorded_recent [OF _ assms(2,3,6)] by blast
  qed
qed

lemma latest_archive_at_least:
  assumes "a \<in> set (archives d)" "P a"
  obtains x where "latest_archive P d = Some x" "x \<in> set (archives d)" "P x" "ba_created_at a \<le> ba_created_at x"
proof -
  let ?as = "sort_key (\<lambda>a. - ba_created_at a) (filter P (archives d))"
  have a: "a \<in> set ?as" using assms by simp
  then obtain x xs where x: "?as = x # xs" by (cases ?as) auto
  then have found: "latest_archive P d = Some x" by (simp add: latest_archive_def)
  have "sorted (map (\<lambda>a. - ba_created_at a) ?as)" by simp
  then have "ba_created_at a \<le> ba_created_at x" using a by (auto simp: x)
  with that found latest_archive_Some [OF found] show ?thesis by blast
qed

lemma run_keeps_recent:
  assumes "backup_operational_state e t ru fresh d f = (Inr (), d', f')" "host_paths e" "fresh_names e ru fresh d"
    "tools_work t" "run_in_time e ru" "database_backup_enabled (cfg e)" "storage_manifest_path (cfg e) = None"
    "is_relative_to (resolve e (snd (dump_key e ru fresh))) (resolve e (backups_path (cfg e)))"
  shows "\<exists>a \<in> set (archives d'). ba_kind a = ''database'' \<and> ba_status a = ''created'' \<and> ba_verification_status a = ''verified'' \<and>
    ru_started ru - hours (database_backup_interval_hours (cfg e)) \<le> ba_created_at a"
proof -
  obtain x d1 f1 r d2 f2 m where made: "create_configuration_backup e ru (bf_configuration fresh) d f = (Inr x, d1, f1)"
      "create_database_backup e t ru False (bf_database fresh) d1 f1 = (Inr r, d2, f2)"
    and pruned: "prune_each e (filter (\<lambda>a. ba_created_at a < ru_prune ru - days (database_backup_retention_days (cfg e)))
       (sql_update (to_verify None) (\<lambda>a. snd (revalidate_archive e t (ru_verify ru) f2 a)) (archives d2)))
       (d2\<lparr>archives := sql_update (to_verify None) (\<lambda>a. snd (revalidate_archive e t (ru_verify ru) f2 a)) (archives d2)\<rparr>) f2 = (m, d', f')"
    using run_steps [OF assms(1)] by metis
  let ?check = "revalidate_archive e t (ru_verify ru) f2"
  let ?as = "sql_update (to_verify None) (\<lambda>a. snd (?check a)) (archives d2)"
  obtain b where b: "b \<in> set (archives d2)" "recent_archive e t ru f2 b"
    using created_recent [OF made(2) assms(4,5,2,6)] assms(8) by (auto simp: dump_key_def archive_key_def)
  then have ok: "fst (?check b)"
    using intact_database_verifies [OF assms(2,7,4)] by (auto simp: recent_archive_def)
  let ?a = "snd (?check b)"
  have a: "?a \<in> set ?as" using b by (auto simp: set_sql_update recent_archive_def to_verify_def)
  have "\<forall>c \<in> set (filter (\<lambda>a. ba_created_at a < ru_prune ru - days (database_backup_retention_days (cfg e))) ?as). ba_id c \<noteq> ba_id ?a"
    using key_unique [OF checked_apart(1) [OF made assms(3)] _ a] b(2) assms(5)
    by (fastforce simp: recent_archive_def run_in_time_def)
  with prune_each_effect [OF pruned assms(2)] a have "?a \<in> set (archives d')" by simp
  with ok b(2) show ?thesis by (intro bexI [of _ ?a]) (simp_all add: recent_archive_def)
qed


section \<open>A concrete run\<close>

text \<open>The only dump of the catalogue is 31 days old.\<close>

definition old_dump :: archive where
  "old_dump = \<lparr>ba_id = 1, ba_kind = ''database'', ba_path = ''/data/backups/old.dump'', ba_checksum = sha256 sample_env ''dump'',
     ba_size_bytes = 4, ba_status = ''created'', ba_verification_status = ''verified'', ba_verified_at = Some 0,
     ba_verification_detail = None, ba_created_at = 0\<rparr>"

definition backup_db :: db where
  "backup_db = empty_db\<lparr>archives := [old_dump]\<rparr>"

definition backup_files :: fs where
  "backup_files = sample_fs [(''/data/backups/old.dump'', ''dump'')]"

definition backup_clock :: backup_times where
  "backup_clock = (let now = days 31 in \<lparr>ru_started = now, ru_configuration = now, ru_database = now, ru_verify = now, ru_prune = now\<rparr>)"

definition backup_names :: backup_fresh where
  "backup_names = \<lparr>bf_configuration = (2, ''00000002''), bf_database = (3, ''00000003'')\<rparr>"

definition working_tools :: backup_tools where
  "working_tools = \<lparr>bt_dump = (\<lambda>p. (Inr (), Some ''dump'')), bt_list = (\<lambda>b. Inr 3), bt_disturbed = (\<lambda>p. False)\<rparr>"

definition failing_tools :: backup_tools where
  "failing_tools = working_tools\<lparr>bt_dump := (\<lambda>p. (Inl (OSError ''pg_dump''), None))\<rparr>"

abbreviation backup_run :: "backup_tools \<Rightarrow> (exn + unit) \<times> db \<times> fs" where
  "backup_run t \<equiv> backup_operational_state sample_env t backup_clock backup_names backup_db backup_files"

definition run_summary :: "(exn + unit) \<times> db \<times> fs \<Rightarrow> (exn + unit) \<times> (uuid \<times> string \<times> string \<times> string) list" where
  "run_summary r = (fst r, map (\<lambda>a. (ba_id a, ba_kind a, ba_status a, ba_verification_status a)) (archives (fst (snd r))))"

lemma backup_run_summary:
  "run_summary (backup_run working_tools) =
     (Inr (), [(2, ''configuration'', ''created'', ''failed''), (3, ''database'', ''created'', ''verified'')])"
  by code_simp

lemma backup_run_ends: "fst (backup_run working_tools) = Inr ()"
  and backup_run_rows: "map (\<lambda>a. (ba_id a, ba_kind a, ba_status a, ba_verification_status a)) (archives (fst (snd (backup_run working_tools)))) =
     [(2, ''configuration'', ''created'', ''failed''), (3, ''database'', ''created'', ''verified'')]"
  using backup_run_summary by (simp_all only: run_summary_def prod.inject)

lemma backup_run_result:
  "backup_run working_tools = (Inr (), fst (snd (backup_run working_tools)), snd (snd (backup_run working_tools)))"
  using backup_run_ends by (metis prod.collapse)

lemma backup_names_fresh: "fresh_names sample_env backup_clock backup_names backup_db"
  by code_simp

lemma verified_archives_are_intact_witness:
  "\<exists>a \<in> set (archives (fst (snd (backup_run working_tools)))). ba_id a = 3 \<and>
     intact_archive sample_env working_tools (snd (snd (backup_run working_tools))) a"
proof -
  have "(3, ''database'', ''created'', ''verified'') \<in>
      set (map (\<lambda>a. (ba_id a, ba_kind a, ba_status a, ba_verification_status a)) (archives (fst (snd (backup_run working_tools)))))"
    by (subst backup_run_rows) simp
  then obtain a where "a \<in> set (archives (fst (snd (backup_run working_tools))))" "ba_id a = 3" "ba_status a = ''created''"
    "ba_verification_status a = ''verified''" by auto
  with verified_archives_are_intact [OF backup_run_result sample_host_paths backup_names_fresh] show ?thesis by blast
qed

lemma working_tools_work: "tools_work working_tools"
  by (simp add: tools_work_def working_tools_def)

lemma backup_run_premises:
  "run_in_time sample_env backup_clock" "database_backup_enabled (cfg sample_env)" "storage_manifest_path (cfg sample_env) = None"
  "is_relative_to (resolve sample_env (snd (dump_key sample_env backup_clock backup_names))) (resolve sample_env (backups_path (cfg sample_env)))"
  "days 32 \<le> ru_started backup_clock + hours (database_backup_interval_hours (cfg sample_env))"
  by code_simp+


text \<open>Archives are pruned by age alone.  While dumps fail, the run that finds the last good dump past its retention
  removes it, ends without an error, and leaves nothing to recover the database from.\<close>

lemma failing_dumps_prune_the_last:
  "run_summary (backup_run failing_tools) =
     (Inr (), [(2, ''configuration'', ''created'', ''failed''), (3, ''database'', ''failed'', ''failed'')])"
  by code_simp

end
