(* ===== verification/BackupRuns.thy ===== *)
theory BackupRuns
  imports HostStorage Sample
begin

text \<open>
  Who may run a backup and when: the request \<open>run_operational_backup\<close> of \<open>api/v1/storage_status.py\<close> and the lock
  that \<open>backup_operational_state_task\<close> (\<open>worker/tasks.py\<close>) takes in Redis, as one step relation on the clock, the
  lock, the published requests and the runs in progress.  The queue may deliver a request late, twice or never, a
  worker may be killed in the middle of a run, and a task never outlives its time limit.
\<close>

section \<open>The lock\<close>

text \<open>A key with its value and the time it expires at.\<close>

type_synonym lock = "(string \<times> time) option"

definition BACKUP_LOCK_SECONDS :: int where
  "BACKUP_LOCK_SECONDS = 7200"

text \<open>The hard \<open>time_limit\<close> of the task.\<close>

definition run_time_limit :: time where
  "run_time_limit = 6600 * second"

definition lock_value :: "time \<Rightarrow> lock \<Rightarrow> string option" where
  "lock_value now l = (case l of Some (token, expires) \<Rightarrow> if now < expires then Some token else None | None \<Rightarrow> None)"

definition held_until :: "string \<Rightarrow> time \<Rightarrow> lock" where
  "held_until token now = Some (token, now + BACKUP_LOCK_SECONDS * second)"

text \<open>\<open>SET key token NX EX\<close>, and the two scripts: delete the key, or replace its value, if it holds the token.\<close>

definition set_if_free :: "time \<Rightarrow> string \<Rightarrow> lock \<Rightarrow> bool \<times> lock" where
  "set_if_free now token l = (if lock_value now l = None then (True, held_until token now) else (False, l))"

definition delete_if_held :: "time \<Rightarrow> string \<Rightarrow> lock \<Rightarrow> lock" where
  "delete_if_held now token l = (if lock_value now l = Some token then None else l)"

definition replace_if_held :: "time \<Rightarrow> string \<Rightarrow> string \<Rightarrow> lock \<Rightarrow> bool \<times> lock" where
  "replace_if_held now token fresh l = (if lock_value now l = Some token then (True, held_until fresh now) else (False, l))"

section \<open>Requesting and running\<close>

text \<open>\<open>reachable\<close> tells whether Redis answers, \<open>queued\<close> whether the broker takes the job.  The result is the answer,
  the lock and whether the request was published.\<close>

definition run_operational_backup ::
  "env \<Rightarrow> fs \<Rightarrow> user \<Rightarrow> time \<Rightarrow> string \<Rightarrow> bool \<Rightarrow> bool \<Rightarrow> lock \<Rightarrow> (exn + string) \<times> lock \<times> bool" where
  "run_operational_backup e f u now token reachable queued l =
     (case sbind (require_host_owner e f u) (\<lambda>_. require_storage e f [''backups'']) of
        Inl x \<Rightarrow> (Inl x, l, False)
      | Inr _ \<Rightarrow>
          if \<not> database_backup_enabled (cfg e)
          then (Inl (HTTPException 409 ''Database backups are disabled by the host operator.''), l, False)
          else if \<not> reachable
          then (Inl (HTTPException 503 ''The backup service is unavailable. Retry after the PC is ready.''), l, False)
          else
            (case set_if_free now token l of
               (False, l) \<Rightarrow>
                 (Inl (HTTPException 409 ''A database backup is already queued or running. Check the archive list for its result.''), l, False)
             | (True, l) \<Rightarrow>
                 if queued then (Inr ''queued'', l, True)
                 else (Inl (HTTPException 503 ''The backup could not be queued. Check the background service and retry.''),
                       delete_if_held now token l, False)))"

text \<open>The first half of the task: the token it runs under, if it may run.  A scheduled run has no request.\<close>

definition begin_backup_task :: "time \<Rightarrow> string option \<Rightarrow> string \<Rightarrow> lock \<Rightarrow> string option \<times> lock" where
  "begin_backup_task now request fresh l =
     (case (case request of Some token \<Rightarrow> replace_if_held now token fresh l | None \<Rightarrow> set_if_free now fresh l) of
        (True, l) \<Rightarrow> (Some fresh, l)
      | (False, l) \<Rightarrow> (None, l))"

definition end_backup_task :: "time \<Rightarrow> string \<Rightarrow> lock \<Rightarrow> lock" where
  "end_backup_task = delete_if_held"

section \<open>The system of requests and workers\<close>

record backup_site =
  bs_now :: time
  bs_lock :: lock
  bs_published :: "string set"
  bs_running :: "(string \<times> time) list"

definition unused_token :: "string \<Rightarrow> backup_site \<Rightarrow> bool" where
  "unused_token token s \<longleftrightarrow> token \<notin> bs_published s \<and> token \<notin> fst ` set (bs_running s)"

inductive backup_step :: "env \<Rightarrow> backup_site \<Rightarrow> backup_site \<Rightarrow> bool" for e where
  tick: "bs_now s \<le> now \<Longrightarrow> \<forall>(token, began) \<in> set (bs_running s). now \<le> began + run_time_limit \<Longrightarrow>
    backup_step e s (s\<lparr>bs_now := now\<rparr>)"
| request: "unused_token token s \<Longrightarrow>
    run_operational_backup e f u (bs_now s) token reachable queued (bs_lock s) = (r, l, published) \<Longrightarrow>
    backup_step e s (s\<lparr>bs_lock := l, bs_published := (if published then insert token (bs_published s) else bs_published s)\<rparr>)"
| start: "unused_token fresh s \<Longrightarrow> (case request of Some token \<Rightarrow> token \<in> bs_published s | None \<Rightarrow> True) \<Longrightarrow>
    begin_backup_task (bs_now s) request fresh (bs_lock s) = (Some token, l) \<Longrightarrow>
    backup_step e s (s\<lparr>bs_lock := l, bs_running := (token, bs_now s) # bs_running s\<rparr>)"
| skip: "begin_backup_task (bs_now s) request fresh (bs_lock s) = (None, l) \<Longrightarrow> backup_step e s (s\<lparr>bs_lock := l\<rparr>)"
| finish: "(token, began) \<in> set (bs_running s) \<Longrightarrow>
    backup_step e s (s\<lparr>bs_lock := end_backup_task (bs_now s) token (bs_lock s),
      bs_running := filter (\<lambda>r. fst r \<noteq> token) (bs_running s)\<rparr>)"
| killed: "(token, began) \<in> set (bs_running s) \<Longrightarrow> backup_step e s (s\<lparr>bs_running := filter (\<lambda>r. fst r \<noteq> token) (bs_running s)\<rparr>)"

text \<open>A run in progress holds the lock, which outlives it.\<close>

definition lock_guards_run :: "backup_site \<Rightarrow> bool" where
  "lock_guards_run s \<longleftrightarrow> bs_running s = [] \<or>
     (\<exists>token began. bs_running s = [(token, began)] \<and> bs_lock s = held_until token began \<and>
        bs_now s \<le> began + run_time_limit \<and> token \<notin> bs_published s)"

definition idle_site :: "time \<Rightarrow> backup_site" where
  "idle_site now = \<lparr>bs_now = now, bs_lock = None, bs_published = {}, bs_running = []\<rparr>"

text \<open>The lock lives longer than any run: a holder within its time limit still has it.\<close>

lemma lock_outlives_run:
  "now \<le> began + run_time_limit \<Longrightarrow> lock_value now (held_until token began) = Some token"
  by (simp add: lock_value_def held_until_def run_time_limit_def BACKUP_LOCK_SECONDS_def)

lemmas lock_operations = set_if_free_def delete_if_held_def replace_if_held_def

lemma request_keeps_held:
  assumes "run_operational_backup e f u now token reachable queued l = (r, l', published)" "lock_value now l = Some other"
  shows "l' = l \<and> \<not> published"
  using assms by (auto simp: run_operational_backup_def lock_operations split: sum.splits if_splits)

lemma guard_step:
  assumes "backup_step e s s'" "lock_guards_run s"
  shows "lock_guards_run s'"
  using assms
proof cases
  case (tick now)
  with assms(2) show ?thesis by (auto simp: lock_guards_run_def)
next
  case (request token f u reachable queued r l published)
  show ?thesis
  proof (cases "bs_running s = []")
    case False
    then obtain other began where run: "bs_running s = [(other, began)]" "bs_lock s = held_until other began"
      "bs_now s \<le> began + run_time_limit" using assms(2) by (auto simp: lock_guards_run_def)
    then have "l = bs_lock s \<and> \<not> published"
      using request_keeps_held [OF request(3)] lock_outlives_run by simp
    with request(1) assms(2) show ?thesis by (auto simp: lock_guards_run_def)
  qed (simp add: request(1) lock_guards_run_def)
next
  case (start fresh request token l)
  then have taken: "token = fresh" "l = held_until fresh (bs_now s)"
    and free: "lock_value (bs_now s) (bs_lock s) = None \<or> (\<exists>t. lock_value (bs_now s) (bs_lock s) = Some t \<and> t \<in> bs_published s)"
    by (auto simp: begin_backup_task_def lock_operations split: option.splits if_splits)
  have "bs_running s = []"
    using assms(2) free lock_outlives_run by (fastforce simp: lock_guards_run_def)
  with start(1,2) taken show ?thesis
    by (auto simp: lock_guards_run_def run_time_limit_def unused_token_def)
next
  case (skip request fresh l)
  then have "l = bs_lock s" by (auto simp: begin_backup_task_def lock_operations split: option.splits if_splits)
  with skip(1) assms(2) show ?thesis by (simp add: lock_guards_run_def)
next
  case (finish token began)
  with assms(2) have "bs_running s' = []" by (auto simp: lock_guards_run_def)
  then show ?thesis by (simp add: lock_guards_run_def)
next
  case (killed token began)
  with assms(2) have "bs_running s' = []" by (auto simp: lock_guards_run_def)
  then show ?thesis by (simp add: lock_guards_run_def)
qed

lemma guard_reachable: "(backup_step e)\<^sup>*\<^sup>* s s' \<Longrightarrow> lock_guards_run s \<Longrightarrow> lock_guards_run s'"
  by (induction rule: rtranclp_induct) (auto intro: guard_step)

text \<open>C34: Backup runs never overlap.  However requests, deliveries, crashes and the clock interleave from an idle
  installation, at most one run of the backup task is in progress, and while it is, the lock is in its hands.\<close>

theorem backup_runs_never_overlap:
  assumes "(backup_step e)\<^sup>*\<^sup>* (idle_site now) s"
  shows "length (bs_running s) \<le> 1 \<and> (\<forall>(token, began) \<in> set (bs_running s). lock_value (bs_now s) (bs_lock s) = Some token)"
  using guard_reachable [OF assms] lock_outlives_run
  by (fastforce simp: lock_guards_run_def idle_site_def)

lemma sample_run_started: "(backup_step sample_env)\<^sup>*\<^sup>* (idle_site 0)
    \<lparr>bs_now = 0, bs_lock = held_until ''t'' 0, bs_published = {}, bs_running = [(''t'', 0)]\<rparr>"
proof (rule r_into_rtranclp)
  have "begin_backup_task (bs_now (idle_site 0)) None ''t'' (bs_lock (idle_site 0)) = (Some ''t'', held_until ''t'' 0)"
    by code_simp
  then show "backup_step sample_env (idle_site 0)
    \<lparr>bs_now = 0, bs_lock = held_until ''t'' 0, bs_published = {}, bs_running = [(''t'', 0)]\<rparr>"
    using backup_step.start [of "''t''" "idle_site 0" None "''t''" "held_until ''t'' 0" sample_env]
    by (simp add: idle_site_def unused_token_def)
qed

lemma backup_runs_never_overlap_witness:
  "lock_value 0 (held_until ''t'' 0) = Some ''t'' \<and> length [(''t'', 0 :: time)] \<le> 1"
  using backup_runs_never_overlap [OF sample_run_started] by simp

end
