(* ===== verification/StorageSettings.thy ===== *)
theory StorageSettings
  imports Lifecycle
begin

text \<open>
  The storage settings of an account (\<open>api/v1/storage_status.py\<close>): the retention and protection policy, the drives
  that may hold protection copies, and the report on the state of every root.  The bodies of the requests are
  bounded by the models of \<open>schemas/lifecycle.py\<close>; the share of a disk in use, a rounded float, is left out of the report.
\<close>

section \<open>Requests\<close>

record policy_update =
  pu_desired_replica_count :: "int option"
  pu_retention_days :: "int option"
  pu_balance_threshold_percent :: "int option"
  pu_backup_retention_days :: "int option"

definition in_range :: "int \<Rightarrow> int \<Rightarrow> int option \<Rightarrow> bool" where
  "in_range lo hi v = (case v of None \<Rightarrow> True | Some n \<Rightarrow> lo \<le> n \<and> n \<le> hi)"

definition valid_policy_update :: "policy_update \<Rightarrow> bool" where
  "valid_policy_update q \<longleftrightarrow> in_range 1 8 (pu_desired_replica_count q) \<and> in_range 1 3650 (pu_retention_days q) \<and>
     in_range 1 80 (pu_balance_threshold_percent q) \<and> in_range 1 3650 (pu_backup_retention_days q)"

record drive_create =
  dc_name :: string
  dc_path :: string
  dc_priority :: int
  dc_eligible :: bool

definition valid_name :: "string \<Rightarrow> bool" where
  "valid_name s \<longleftrightarrow> 1 \<le> length s \<and> length s \<le> 255"

definition valid_drive_create :: "drive_create \<Rightarrow> bool" where
  "valid_drive_create q \<longleftrightarrow> valid_name (dc_name q) \<and> dc_path q \<noteq> [] \<and> 0 \<le> dc_priority q \<and> dc_priority q \<le> 1000"

record drive_update =
  du_name :: "string option"
  du_priority :: "int option"
  du_eligible :: "bool option"

definition valid_drive_update :: "drive_update \<Rightarrow> bool" where
  "valid_drive_update q \<longleftrightarrow> (case du_name q of None \<Rightarrow> True | Some s \<Rightarrow> valid_name s) \<and> in_range 0 1000 (du_priority q)"

definition given_or :: "'a option \<Rightarrow> 'a \<Rightarrow> 'a" where
  "given_or v x = (case v of None \<Rightarrow> x | Some y \<Rightarrow> y)"

definition invalid_body :: exn where
  "invalid_body = HTTPException 422 ''validation''"

section \<open>The policy\<close>

definition get_policy :: "env \<Rightarrow> user \<Rightarrow> db \<Rightarrow> policy" where
  "get_policy e u d = fst (storage_policy e (u_id u) d)"

definition updated_policy :: "policy_update \<Rightarrow> policy \<Rightarrow> policy" where
  "updated_policy q p = p\<lparr>p_desired_replica_count := given_or (pu_desired_replica_count q) (p_desired_replica_count p),
     p_retention_days := given_or (pu_retention_days q) (p_retention_days p),
     p_balance_threshold_percent := given_or (pu_balance_threshold_percent q) (p_balance_threshold_percent p),
     p_backup_retention_days := given_or (pu_backup_retention_days q) (p_backup_retention_days p)\<rparr>"

definition update_policy :: "env \<Rightarrow> user \<Rightarrow> policy_update \<Rightarrow> db \<Rightarrow> (exn + policy) \<times> db" where
  "update_policy e u q d =
     (if \<not> valid_policy_update q then (Inl invalid_body, d)
      else
        (let (p, d) = storage_policy e (u_id u) d
         in (Inr (updated_policy q p),
             d\<lparr>policies := sql_update (\<lambda>x. p_user_id x = u_id u) (updated_policy q) (policies d)\<rparr>)))"

section \<open>Drives\<close>

definition list_replica_drives :: "user \<Rightarrow> db \<Rightarrow> drive list" where
  "list_replica_drives u d = sort_key (\<lambda>x. - dr_priority x) (sort_key dr_name (filter (\<lambda>x. dr_user_id x = u_id u) (drives d)))"

definition new_drive :: "time \<Rightarrow> uuid \<Rightarrow> user \<Rightarrow> drive_create \<Rightarrow> string \<Rightarrow> drive" where
  "new_drive now i u q path = \<lparr>dr_id = i, dr_user_id = u_id u, dr_name = strip (dc_name q), dr_path = path,
     dr_priority = dc_priority q, dr_eligible = dc_eligible q, dr_failure_count = 0, dr_verification_status = ''online'',
     dr_last_verified_at = Some now, dr_last_error = None, dr_created_at = now\<rparr>"

definition add_replica_drive :: "env \<Rightarrow> fs \<Rightarrow> time \<Rightarrow> uuid \<Rightarrow> user \<Rightarrow> drive_create \<Rightarrow> db \<Rightarrow> (exn + drive) \<times> db" where
  "add_replica_drive e f now i u q d =
     (if \<not> valid_drive_create q then (Inl invalid_body, d)
      else case validated_replica_drive_path e f (dc_path q) of
        Inl x \<Rightarrow> (Inl x, d)
      | Inr path \<Rightarrow>
          if \<not> is_dir e f path then (Inl (HTTPException 400 ''Replica drive path is not an available directory''), d)
          else if list_ex (\<lambda>x. dr_user_id x = u_id u \<and> dr_path x = path) (drives d)
          then (Inl (HTTPException 409 ''This replica drive is already configured''), d)
          else case sql_insert_unique dr_id (new_drive now i u q path) (drives d) of
            Inl x \<Rightarrow> (Inl x, d)
          | Inr t \<Rightarrow> (Inr (new_drive now i u q path), d\<lparr>drives := t\<rparr>))"

definition own_drive :: "user \<Rightarrow> uuid \<Rightarrow> db \<Rightarrow> drive option" where
  "own_drive u i d = sql_first (\<lambda>x. dr_id x = i \<and> dr_user_id x = u_id u) (drives d)"

definition change_drive :: "user \<Rightarrow> uuid \<Rightarrow> (drive \<Rightarrow> drive) \<Rightarrow> db \<Rightarrow> (exn + drive) \<times> db" where
  "change_drive u i g d =
     (case own_drive u i d of
        None \<Rightarrow> (Inl (HTTPException 404 ''Replica drive not found''), d)
      | Some x \<Rightarrow> (Inr (g x), d\<lparr>drives := sql_update (\<lambda>y. dr_id y = i) g (drives d)\<rparr>))"

definition updated_drive :: "drive_update \<Rightarrow> drive \<Rightarrow> drive" where
  "updated_drive q x = x\<lparr>dr_name := given_or (map_option strip (du_name q)) (dr_name x),
     dr_priority := given_or (du_priority q) (dr_priority x), dr_eligible := given_or (du_eligible q) (dr_eligible x)\<rparr>"

definition update_replica_drive :: "user \<Rightarrow> uuid \<Rightarrow> drive_update \<Rightarrow> db \<Rightarrow> (exn + drive) \<times> db" where
  "update_replica_drive u i q d = (if \<not> valid_drive_update q then (Inl invalid_body, d) else change_drive u i (updated_drive q) d)"

definition disable_replica_drive :: "user \<Rightarrow> uuid \<Rightarrow> db \<Rightarrow> (exn + drive) \<times> db" where
  "disable_replica_drive u i d = change_drive u i (\<lambda>x. x\<lparr>dr_eligible := False\<rparr>) d"

text \<open>The publication of the balancing run is not guarded: a broker that refuses it is a server error.\<close>

definition balance_storage :: "bool \<Rightarrow> user \<Rightarrow> exn + uuid" where
  "balance_storage refused u = (if refused then Inl (RuntimeError ''broker'') else Inr (u_id u))"

section \<open>The state of the roots\<close>

record root_report =
  rt_name :: string
  rt_path :: string
  rt_role :: string
  rt_online :: bool
  rt_writable :: bool
  rt_total_bytes :: "int option"
  rt_used_bytes :: "int option"

definition inspect_root :: "env \<Rightarrow> fs \<Rightarrow> string \<Rightarrow> string \<Rightarrow> string \<Rightarrow> root_report" where
  "inspect_root e f name path rl =
     (let resolved = resolve e path in
      if isl (require_storage_path e f resolved) \<or> \<not> is_dir e f resolved
      then \<lparr>rt_name = name, rt_path = resolved, rt_role = rl, rt_online = False, rt_writable = False,
            rt_total_bytes = None, rt_used_bytes = None\<rparr>
      else \<lparr>rt_name = name, rt_path = resolved, rt_role = rl, rt_online = True, rt_writable = writable e resolved,
            rt_total_bytes = Some (disk_total e resolved), rt_used_bytes = Some (disk_used e resolved)\<rparr>)"

definition storage_roots :: "env \<Rightarrow> user \<Rightarrow> bool \<Rightarrow> db \<Rightarrow> (string \<times> string \<times> string) list" where
  "storage_roots e u host_owner d =
     [(''Managed originals'', originals_path (cfg e), ''managed''), (''Protection copies'', replica_path (cfg e), ''replica'')] @
     (if host_owner then map (\<lambda>(k, r). (''External library '' @ dec (Suc k), r, ''external'')) (enumerate 0 (external_root_list e)) else []) @
     map (\<lambda>x. (dr_name x, dr_path x, ''replica'')) (list_replica_drives u d)"

definition storage_status :: "env \<Rightarrow> fs \<Rightarrow> user \<Rightarrow> db \<Rightarrow> exn + string \<times> root_report list" where
  "storage_status e f u d =
     sbind (is_host_owner e f u) (\<lambda>host_owner.
       let reports = map (\<lambda>(name, path, rl). inspect_root e f name path rl) (storage_roots e u host_owner d)
       in Inr (if list_all rt_online reports then ''ok'' else if list_ex rt_online reports then ''degraded'' else ''unavailable'', reports))"

section \<open>Bounds\<close>

datatype settings_call =
    UpdatePolicy policy_update
  | AddDrive uuid drive_create
  | UpdateDrive uuid drive_update
  | DisableDrive uuid

text \<open>The files of the host are those at the time of the request.\<close>

type_synonym settings_request = "time \<times> fs \<times> user \<times> settings_call"

fun settings_perform :: "env \<Rightarrow> settings_request \<Rightarrow> db \<Rightarrow> db" where
  "settings_perform e (now, f, u, UpdatePolicy q) d = snd (update_policy e u q d)"
| "settings_perform e (now, f, u, AddDrive i q) d = snd (add_replica_drive e f now i u q d)"
| "settings_perform e (now, f, u, UpdateDrive i q) d = snd (update_replica_drive u i q d)"
| "settings_perform e (now, f, u, DisableDrive i) d = snd (disable_replica_drive u i d)"

definition policy_ok :: "policy \<Rightarrow> bool" where
  "policy_ok p \<longleftrightarrow> 1 \<le> p_desired_replica_count p \<and> p_desired_replica_count p \<le> 8 \<and>
     1 \<le> p_retention_days p \<and> p_retention_days p \<le> 3650 \<and>
     1 \<le> p_balance_threshold_percent p \<and> p_balance_threshold_percent p \<le> 80 \<and>
     1 \<le> p_backup_retention_days p \<and> p_backup_retention_days p \<le> 3650"

definition drive_ok :: "env \<Rightarrow> drive \<Rightarrow> bool" where
  "drive_ok e x \<longleftrightarrow> 0 \<le> dr_priority x \<and> dr_priority x \<le> 1000 \<and> (\<exists>r \<in> set (replica_root_list e). is_relative_to (dr_path x) r)"

definition settings_ok :: "env \<Rightarrow> db \<Rightarrow> bool" where
  "settings_ok e d \<longleftrightarrow> distinct (map p_user_id (policies d)) \<and> (\<forall>p \<in> set (policies d). policy_ok p) \<and>
     distinct (map dr_id (drives d)) \<and> distinct (map (\<lambda>x. (dr_user_id x, dr_path x)) (drives d)) \<and> (\<forall>x \<in> set (drives d). drive_ok e x)"

text \<open>The defaults of the configuration, which nothing checks at start-up.\<close>

definition defaults_ok :: "env \<Rightarrow> bool" where
  "defaults_ok e \<longleftrightarrow> 1 \<le> lifecycle_retention_days (cfg e) \<and> lifecycle_retention_days (cfg e) \<le> 3650 \<and>
     1 \<le> database_backup_retention_days (cfg e) \<and> database_backup_retention_days (cfg e) \<le> 3650"

lemma updated_policy_ok:
  assumes "policy_ok p" "valid_policy_update q"
  shows "policy_ok (updated_policy q p)"
  using assms by (simp add: policy_ok_def updated_policy_def valid_policy_update_def in_range_def given_or_def split: option.splits)

lemma storage_policy_ok:
  assumes "settings_ok e d" "defaults_ok e"
  shows "settings_ok e (snd (storage_policy e uid d))"
  using assms
  by (auto simp: settings_ok_def defaults_ok_def storage_policy_def policy_ok_def sql_insert_def sql_first_None Let_def split: option.split)

lemma update_policy_ok:
  assumes "settings_ok e d" "defaults_ok e"
  shows "settings_ok e (snd (update_policy e u q d))"
proof (cases "valid_policy_update q")
  case True
  let ?d = "snd (storage_policy e (u_id u) d)"
  have "settings_ok e ?d" by (rule storage_policy_ok [OF assms])
  moreover have "map p_user_id (sql_update (\<lambda>x. p_user_id x = u_id u) (updated_policy q) (policies ?d)) = map p_user_id (policies ?d)"
    by (simp add: sql_update_def updated_policy_def)
  ultimately show ?thesis
    using updated_policy_ok True
    by (auto simp: update_policy_def settings_ok_def set_sql_update case_prod_unfold Let_def)
qed (simp add: update_policy_def assms(1))

lemma change_drive_ok:
  assumes "settings_ok e d" "\<And>x. dr_id (g x) = dr_id x \<and> dr_user_id (g x) = dr_user_id x \<and> dr_path (g x) = dr_path x"
    "\<And>x. drive_ok e x \<Longrightarrow> drive_ok e (g x)"
  shows "settings_ok e (snd (change_drive u i g d))"
proof (cases "own_drive u i d")
  case (Some x)
  have "map dr_id (sql_update (\<lambda>y. dr_id y = i) g (drives d)) = map dr_id (drives d)"
    "map (\<lambda>x. (dr_user_id x, dr_path x)) (sql_update (\<lambda>y. dr_id y = i) g (drives d)) = map (\<lambda>x. (dr_user_id x, dr_path x)) (drives d)"
    using assms(2) by (simp_all add: sql_update_def)
  with assms(1,3) Some show ?thesis
    by (auto simp: change_drive_def settings_ok_def set_sql_update)
qed (simp add: change_drive_def assms(1))

lemma add_drive_ok:
  assumes "settings_ok e d" "host_paths e"
  shows "settings_ok e (snd (add_replica_drive e f now i u q d))"
  using assms
  by (auto simp: add_replica_drive_def settings_ok_def new_drive_def drive_ok_def valid_drive_create_def sql_insert_def list_ex_iff
      split: sum.splits)

lemma settings_perform_ok:
  assumes "settings_ok e d" "defaults_ok e" "host_paths e"
  shows "settings_ok e (settings_perform e q d)"
proof -
  obtain now f u call where q: "q = (now, f, u, call)" by (cases q) auto
  show ?thesis
  proof (cases call)
    case (UpdateDrive i c)
    have "settings_ok e (snd (change_drive u i (updated_drive c) d))" if "valid_drive_update c"
      using that assms(1)
      by (intro change_drive_ok) (auto simp: updated_drive_def drive_ok_def given_or_def valid_drive_update_def in_range_def split: option.splits)
    then show ?thesis by (simp add: q UpdateDrive update_replica_drive_def assms(1))
  next
    case (DisableDrive i)
    then show ?thesis using assms(1)
      by (simp add: q disable_replica_drive_def) (intro change_drive_ok, simp_all add: drive_ok_def)
  qed (simp_all add: q update_policy_ok add_drive_ok assms)
qed

interpretation settings_steps: invariant_steps "\<lambda>d. host_paths e \<and> defaults_ok e \<and> settings_ok e d" "settings_perform e" for e
  by unfold_locales (blast intro: settings_perform_ok)

text \<open>C39: Settings stay in bounds.  Over any sequence of settings requests, valid or not, every policy asks for one to
  eight copies and one day to ten years of retention, and every drive has a priority in range, lies below an
  approved root and is configured once for its account, provided the defaults of the host are in those bounds.\<close>

theorem settings_stay_in_bounds:
  assumes "host_paths e" "defaults_ok e" "settings_ok e d"
  shows "settings_ok e (fold (settings_perform e) qs d)"
  using settings_steps.fold_inv [of e d qs] assms by simp

text \<open>The configuration itself is not checked: with a default of no days, an account that never set a policy cannot
  move anything to the trash.\<close>

lemma default_retention_unchecked:
  "p_retention_days (get_policy (sample_env\<lparr>cfg := sample_settings\<lparr>lifecycle_retention_days := 0\<rparr>\<rparr>) (sample_user 1) empty_db) = 0"
  by code_simp

definition sample_settings_requests :: "settings_request list" where
  "sample_settings_requests =
     [(0, sample_fs [], sample_user 1, UpdatePolicy \<lparr>pu_desired_replica_count = Some 2, pu_retention_days = Some 7,
        pu_balance_threshold_percent = None, pu_backup_retention_days = Some 0\<rparr>),
      (1, sample_fs [], sample_user 1, UpdatePolicy \<lparr>pu_desired_replica_count = Some 2, pu_retention_days = Some 7,
        pu_balance_threshold_percent = None, pu_backup_retention_days = None\<rparr>),
      (2, sample_fs [], sample_user 1, AddDrive 5 \<lparr>dc_name = ''Shelf'', dc_path = ''/data/replicas/b'', dc_priority = 7, dc_eligible = True\<rparr>)]"

lemma settings_stay_in_bounds_witness:
  "settings_ok sample_env (fold (settings_perform sample_env) sample_settings_requests empty_db)"
proof (rule settings_stay_in_bounds)
  show "host_paths sample_env" by simp
  show "defaults_ok sample_env" by code_simp
  show "settings_ok sample_env empty_db" by (simp add: settings_ok_def empty_db_def)
qed

end
