(* ===== verification/Devices.thy ===== *)
theory Devices
  imports Access
begin

text \<open>
  Mobile devices (\<open>api/v1/devices.py\<close>) and the notifications sent to them (\<open>services/notifications.py\<close>): enrolment
  with a secret, revocation, the question whether a checksum is backed up, push tokens and backup events.  Whether
  the push service reports a device as gone is an argument; a delivery that fails changes nothing.
\<close>

section \<open>Requests\<close>

definition set_device :: "uuid \<Rightarrow> (device \<Rightarrow> device) \<Rightarrow> db \<Rightarrow> db" where
  "set_device i g d = d\<lparr>devices := sql_update (\<lambda>x. de_id x = i) g (devices d)\<rparr>"

definition authenticated_device :: "env \<Rightarrow> ledger \<Rightarrow> string option \<Rightarrow> db \<Rightarrow> exn + device" where
  "authenticated_device e l device_token d =
     (if \<not> truthy device_token then Inl (HTTPException 401 ''X-Device-Token is required'')
      else case sql_first (\<lambda>x. de_token_hash x = token_digest e (the device_token)) (devices d) of
        None \<Rightarrow> Inl (HTTPException 401 ''Invalid device token'')
      | Some x \<Rightarrow> sbind (reject_suppressed_account e l (de_user_id x)) (\<lambda>_. Inr x))"

text \<open>The sighting of the device, which the handler commits.\<close>

definition seen :: "time \<Rightarrow> device \<Rightarrow> db \<Rightarrow> db" where
  "seen now x = set_device (de_id x) (\<lambda>y. y\<lparr>de_last_seen_at := Some now\<rparr>)"

definition new_device :: "env \<Rightarrow> time \<Rightarrow> user \<Rightarrow> string \<Rightarrow> string \<Rightarrow> uuid \<times> string \<Rightarrow> device" where
  "new_device e now u name platform fresh = \<lparr>de_id = fst fresh, de_user_id = u_id u, de_name = name, de_platform = platform,
     de_token_hash = token_digest e (snd fresh), de_last_seen_at = None, de_last_backup_at = None, de_files_backed_up = 0,
     de_bytes_backed_up = 0, de_push_token = None, de_push_token_updated_at = None, de_created_at = now\<rparr>"

definition register_device :: "env \<Rightarrow> time \<Rightarrow> user \<Rightarrow> string \<Rightarrow> string \<Rightarrow> uuid \<times> string \<Rightarrow> db \<Rightarrow> (exn + device \<times> string) \<times> db" where
  "register_device e now u name platform fresh d =
     (if name = [] \<or> length name > 255 \<or> platform = [] \<or> length platform > 64 then (Inl (HTTPException 422 ''validation''), d)
      else
        (let x = new_device e now u name platform fresh in
         if list_ex (\<lambda>y. de_id y = de_id x \<or> de_token_hash y = de_token_hash x) (devices d) then (Inl IntegrityError, d)
         else (Inr (x, snd fresh), d\<lparr>devices := sql_insert x (devices d)\<rparr>)))"

definition list_devices :: "user \<Rightarrow> db \<Rightarrow> device list" where
  "list_devices u d = sort_key de_created_at (filter (\<lambda>x. de_user_id x = u_id u) (devices d))"

definition revoke_device :: "user \<Rightarrow> uuid \<Rightarrow> db \<Rightarrow> (exn + unit) \<times> db" where
  "revoke_device u i d =
     (case sql_first (\<lambda>x. de_id x = i \<and> de_user_id x = u_id u) (devices d) of
        None \<Rightarrow> (Inl (HTTPException 404 ''Device not found''), d)
      | Some x \<Rightarrow> (Inr (), d\<lparr>devices := sql_delete (\<lambda>x. de_id x = i) (devices d)\<rparr>))"

text \<open>\<open>backup_status\<close>: whether the account of the device has a revision with the checksum.\<close>

definition checksum_backed_up :: "env \<Rightarrow> ledger \<Rightarrow> time \<Rightarrow> string option \<Rightarrow> string \<Rightarrow> db \<Rightarrow> (exn + uuid option) \<times> db" where
  "checksum_backed_up e l now device_token checksum d =
     (if length checksum \<noteq> 64 then (Inl (HTTPException 422 ''checksum''), d)
      else case authenticated_device e l device_token d of
        Inl x \<Rightarrow> (Inl x, d)
      | Inr x \<Rightarrow> (Inr (map_option a_id (sql_first (\<lambda>a. a_user_id a = de_user_id x \<and> a_checksum a = checksum) (assets d))), seen now x d))"

section \<open>Push tokens\<close>

definition with_push_token :: "string option \<Rightarrow> time option \<Rightarrow> device \<Rightarrow> device" where
  "with_push_token token changed x = x\<lparr>de_push_token := token, de_push_token_updated_at := changed\<rparr>"

definition push_holder :: "string option \<Rightarrow> device \<Rightarrow> db \<Rightarrow> device option" where
  "push_holder token x d = (if truthy token
     then sql_first (\<lambda>y. de_push_token y = token \<and> de_id y \<noteq> de_id x) (devices d) else None)"

text \<open>The push token is a unique column, checked at each statement, and the session writes changed rows in the order
  of their primary keys: the former holder gives the token up before the device takes it only if its key is smaller.\<close>

definition take_push_token :: "time \<Rightarrow> string option \<Rightarrow> device \<Rightarrow> db \<Rightarrow> exn + db" where
  "take_push_token now token x d =
     (let clear = (case push_holder token x d of None \<Rightarrow> (\<lambda>d. d) | Some y \<Rightarrow> set_device (de_id y) (with_push_token None None));
          first = (case push_holder token x d of None \<Rightarrow> False | Some y \<Rightarrow> de_id y < de_id x);
          d = (if first then clear d else d)
      in if token \<noteq> None \<and> list_ex (\<lambda>y. de_push_token y = token \<and> de_id y \<noteq> de_id x) (devices d) then Inl IntegrityError
         else let d = set_device (de_id x) (with_push_token token (if truthy token then Some now else None)) d
              in Inr (if first then d else clear d))"

definition update_push_token :: "env \<Rightarrow> ledger \<Rightarrow> time \<Rightarrow> string option \<Rightarrow> string option \<Rightarrow> db \<Rightarrow> (exn + unit) \<times> db" where
  "update_push_token e l now device_token token d =
     (if (case token of None \<Rightarrow> False | Some t \<Rightarrow> length t > 255) then (Inl (HTTPException 422 ''token''), d)
      else case sbind (authenticated_device e l device_token d) (\<lambda>x. take_push_token now token x (seen now x d)) of
        Inl x \<Rightarrow> (Inl x, d)
      | Inr d \<Rightarrow> (Inr (), d))"

section \<open>Notifications\<close>

definition is_expo_push_token :: "string option \<Rightarrow> bool" where
  "is_expo_push_token token \<longleftrightarrow> (case token of None \<Rightarrow> False
     | Some t \<Rightarrow> prefix ''ExpoPushToken['' t \<or> prefix ''ExponentPushToken['' t)"

text \<open>\<open>gone\<close> tells of a push token whether the service answers that the device is not registered.\<close>

definition send_device_notification :: "(string \<Rightarrow> bool) \<Rightarrow> device \<Rightarrow> db \<Rightarrow> db" where
  "send_device_notification gone x d =
     (if is_expo_push_token (de_push_token x) \<and> gone (the (de_push_token x))
      then set_device (de_id x) (with_push_token None None) d else d)"

definition notify_user_devices :: "(string \<Rightarrow> bool) \<Rightarrow> uuid \<Rightarrow> db \<Rightarrow> db" where
  "notify_user_devices gone uid d =
     fold (send_device_notification gone) (filter (\<lambda>x. de_user_id x = uid \<and> de_push_token x \<noteq> None) (devices d)) d"

record backup_event_notification =
  be_completed :: bool
  be_uploaded :: int
  be_skipped :: int
  be_detail :: "string option"

definition backup_message :: "backup_event_notification \<Rightarrow> string \<times> string" where
  "backup_message q =
     (if be_completed q then (''Backup complete'', show_int (be_uploaded q) @ '' uploaded, '' @ show_int (be_skipped q) @ '' already protected.'')
      else (''Backup needs attention'', if truthy (be_detail q) then the (be_detail q) else ''Drivebound could not finish the latest backup.''))"

definition backup_event ::
  "env \<Rightarrow> ledger \<Rightarrow> time \<Rightarrow> (string \<Rightarrow> bool) \<Rightarrow> string option \<Rightarrow> backup_event_notification \<Rightarrow> db \<Rightarrow> (exn + string \<times> string) \<times> db" where
  "backup_event e l now gone device_token q d =
     (if be_uploaded q < 0 \<or> be_skipped q < 0 \<or> (case be_detail q of None \<Rightarrow> False | Some t \<Rightarrow> length t > 240)
      then (Inl (HTTPException 422 ''validation''), d)
      else case authenticated_device e l device_token d of
        Inl x \<Rightarrow> (Inl x, d)
      | Inr x \<Rightarrow> (Inr (backup_message q), send_device_notification gone x (seen now x d)))"

section \<open>Sequences of requests\<close>

datatype device_call =
    RegisterDevice user string string "uuid \<times> string"
  | RevokeDevice user uuid
  | AskBackedUp "string option" string
  | UpdatePushToken "string option" "string option"
  | ReportBackup "string \<Rightarrow> bool" "string option" backup_event_notification
  | NotifyUser "string \<Rightarrow> bool" uuid

fun device_perform :: "env \<Rightarrow> ledger \<Rightarrow> time \<times> device_call \<Rightarrow> db \<Rightarrow> db" where
  "device_perform e l (now, RegisterDevice u name platform fresh) d = snd (register_device e now u name platform fresh d)"
| "device_perform e l (now, RevokeDevice u i) d = snd (revoke_device u i d)"
| "device_perform e l (now, AskBackedUp token checksum) d = snd (checksum_backed_up e l now token checksum d)"
| "device_perform e l (now, UpdatePushToken device_token token) d = snd (update_push_token e l now device_token token d)"
| "device_perform e l (now, ReportBackup gone token q) d = snd (backup_event e l now gone token q d)"
| "device_perform e l (now, NotifyUser gone uid) d = notify_user_devices gone uid d"

definition push_tokens_apart :: "device set \<Rightarrow> bool" where
  "push_tokens_apart X \<longleftrightarrow> (\<forall>x \<in> X. \<forall>y \<in> X. de_push_token x = de_push_token y \<and> de_push_token x \<noteq> None \<longrightarrow> x = y)"

definition devices_ok :: "db \<Rightarrow> bool" where
  "devices_ok d \<longleftrightarrow> distinct (map de_id (devices d)) \<and> distinct (map de_token_hash (devices d)) \<and> push_tokens_apart (set (devices d))"

text \<open>What a change of one device keeps: who it is and the secret it signs in with.\<close>

definition keeps_identity :: "(device \<Rightarrow> device) \<Rightarrow> bool" where
  "keeps_identity g \<longleftrightarrow> (\<forall>x. de_id (g x) = de_id x \<and> de_token_hash (g x) = de_token_hash x)"

lemma set_device_identity:
  assumes "keeps_identity g"
  shows "map de_id (devices (set_device i g d)) = map de_id (devices d)"
    "map de_token_hash (devices (set_device i g d)) = map de_token_hash (devices d)"
  using assms by (simp_all add: set_device_def sql_update_def keeps_identity_def)

lemma push_identity [simp]: "keeps_identity (with_push_token token changed)" "keeps_identity (\<lambda>y. y\<lparr>de_last_seen_at := v\<rparr>)"
  by (simp_all add: keeps_identity_def with_push_token_def)

lemma set_device_ok:
  assumes "devices_ok d" "keeps_identity g"
    "\<And>x. x \<in> set (devices d) \<Longrightarrow> de_id x = i \<Longrightarrow> de_push_token (g x) = de_push_token x \<or> de_push_token (g x) = None \<or>
       (\<forall>y \<in> set (devices d). de_id y \<noteq> i \<longrightarrow> de_push_token y \<noteq> de_push_token (g x))"
  shows "devices_ok (set_device i g d)"
proof -
  have key: "x = y" if "x \<in> set (devices d)" "y \<in> set (devices d)" "de_id x = de_id y" for x y
    using assms(1) that by (auto simp: devices_ok_def dest: key_unique)
  have unique: "x = y" if "x \<in> set (devices d)" "y \<in> set (devices d)" "de_push_token x = de_push_token y" "de_push_token x \<noteq> None" for x y
    using assms(1) that unfolding devices_ok_def push_tokens_apart_def by blast
  have apart: "de_push_token (g x) \<noteq> de_push_token y"
    if "x \<in> set (devices d)" "y \<in> set (devices d)" "de_id x = i" "de_id y \<noteq> i" "de_push_token y \<noteq> None" for x y
    using assms(3) [OF that(1,3)] unique [of x y] that by (metis (no_types))
  have "push_tokens_apart (set (devices (set_device i g d)))"
    unfolding push_tokens_apart_def
  proof (intro ballI impI, elim conjE)
    fix x y assume "x \<in> set (devices (set_device i g d))" "y \<in> set (devices (set_device i g d))"
      and push: "de_push_token x = de_push_token y" "de_push_token x \<noteq> None"
    then obtain a b where a: "a \<in> set (devices d)" "x = (if de_id a = i then g a else a)"
      and b: "b \<in> set (devices d)" "y = (if de_id b = i then g b else b)"
      by (auto simp: set_device_def set_sql_update)
    show "x = y"
    proof (cases "de_id a = i"; cases "de_id b = i")
      assume "de_id a = i" "de_id b = i"
      with key [OF a(1) b(1)] a(2) b(2) show ?thesis by simp
    next
      assume "de_id a = i" "de_id b \<noteq> i"
      with apart [OF a(1) b(1)] a(2) b(2) push show ?thesis by simp
    next
      assume "de_id a \<noteq> i" "de_id b = i"
      with apart [OF b(1) a(1)] a(2) b(2) push show ?thesis by simp
    next
      assume "de_id a \<noteq> i" "de_id b \<noteq> i"
      with unique [OF a(1) b(1)] a(2) b(2) push show ?thesis by simp
    qed
  qed
  then show ?thesis using assms(1) set_device_identity [OF assms(2), of i d] by (simp add: devices_ok_def)
qed

lemma seen_ok: "devices_ok d \<Longrightarrow> devices_ok (seen now x d)"
  by (auto simp: seen_def intro: set_device_ok)

lemma cleared_ok: "devices_ok d \<Longrightarrow> devices_ok (set_device i (with_push_token None None) d)"
  by (rule set_device_ok) (auto simp: with_push_token_def)

lemma take_push_token_ok:
  assumes "take_push_token now token x d = Inr d'" "devices_ok d"
  shows "devices_ok d'"
proof -
  define clear where "clear = (case push_holder token x d of None \<Rightarrow> (\<lambda>d. d) | Some y \<Rightarrow> set_device (de_id y) (with_push_token None None))"
  have clear: "devices_ok (clear c)" if "devices_ok c" for c
    using that cleared_ok by (simp add: clear_def split: option.split)
  define d1 where "d1 = (if (case push_holder token x d of None \<Rightarrow> False | Some y \<Rightarrow> de_id y < de_id x) then clear d else d)"
  let ?d = "set_device (de_id x) (with_push_token token (if truthy token then Some now else None)) d1"
  have "d' = ?d \<or> d' = clear ?d" and free: "token = None \<or> (\<forall>y \<in> set (devices d1). de_push_token y = token \<longrightarrow> de_id y = de_id x)"
    using assms(1) by (auto simp: take_push_token_def Let_def clear_def [symmetric] d1_def [symmetric] list_ex_iff split: if_splits)
  moreover have "devices_ok ?d"
  proof (rule set_device_ok)
    show "devices_ok d1" using assms(2) clear by (simp add: d1_def)
  qed (use free in \<open>auto simp: with_push_token_def\<close>)
  ultimately show ?thesis using clear by blast
qed

lemma sent_ok: "devices_ok d \<Longrightarrow> devices_ok (send_device_notification gone x d)"
  by (simp add: send_device_notification_def cleared_ok)

lemma notified_ok: "devices_ok d \<Longrightarrow> devices_ok (fold (send_device_notification gone) xs d)"
  by (induction xs arbitrary: d) (simp_all add: sent_ok)

lemma apart_insert: "push_tokens_apart X \<Longrightarrow> de_push_token x = None \<Longrightarrow> push_tokens_apart (insert x X)"
  unfolding push_tokens_apart_def by (metis insert_iff)

lemma registered_ok: "devices_ok d \<Longrightarrow> devices_ok (snd (register_device e now u name platform fresh d))"
proof -
  assume ok: "devices_ok d"
  let ?x = "new_device e now u name platform fresh"
  have "push_tokens_apart (insert ?x (set (devices d)))"
    using ok by (intro apart_insert) (simp_all add: devices_ok_def new_device_def)
  with ok show ?thesis
    by (auto simp: register_device_def devices_ok_def Let_def sql_insert_def list_ex_iff)
qed

lemma revoked_ok: "devices_ok d \<Longrightarrow> devices_ok (snd (revoke_device u i d))"
  by (auto simp: revoke_device_def devices_ok_def push_tokens_apart_def sql_delete_def distinct_map_filter split: option.split)

lemma device_perform_ok:
  assumes "devices_ok d"
  shows "devices_ok (device_perform e l q d)"
proof -
  obtain now call where q: "q = (now, call)" by (cases q)
  show ?thesis
  proof (cases call)
    case (UpdatePushToken device_token token)
    then show ?thesis
      using assms seen_ok take_push_token_ok
      by (auto simp: q update_push_token_def sbind_Inr_iff split: sum.split)
  qed (simp_all add: q assms registered_ok revoked_ok checksum_backed_up_def backup_event_def notify_user_devices_def
      seen_ok sent_ok notified_ok split: sum.split)
qed

interpretation device_steps: invariant_steps devices_ok "device_perform e l" for e l
  by unfold_locales (rule device_perform_ok)

section \<open>Revocation\<close>

definition no_token :: "string \<Rightarrow> db \<Rightarrow> bool" where
  "no_token h d \<longleftrightarrow> h \<notin> set (map de_token_hash (devices d))"

definition registers :: "env \<Rightarrow> string \<Rightarrow> time \<times> device_call \<Rightarrow> bool" where
  "registers e token q = (case snd q of RegisterDevice u name platform fresh \<Rightarrow> token_digest e (snd fresh) = token_digest e token | _ \<Rightarrow> False)"

lemma set_device_tokens [simp]: "keeps_identity g \<Longrightarrow> no_token h (set_device i g d) = no_token h d"
  by (simp only: no_token_def set_device_identity(2))

lemma seen_tokens [simp]: "no_token h (seen now x d) = no_token h d"
  by (simp add: seen_def)

lemma sent_tokens [simp]: "no_token h (send_device_notification gone x d) = no_token h d"
  by (simp add: send_device_notification_def)

lemma notified_tokens [simp]: "no_token h (fold (send_device_notification gone) xs d) = no_token h d"
  by (induction xs arbitrary: d) simp_all

lemma taken_tokens: "take_push_token now token x d = Inr d' \<Longrightarrow> no_token h d' = no_token h d"
  by (auto simp: take_push_token_def Let_def split: if_splits option.splits)

lemma no_token_step:
  assumes "no_token (token_digest e token) d" "\<not> registers e token q"
  shows "no_token (token_digest e token) (device_perform e l q d)"
proof -
  obtain now call where q: "q = (now, call)" by (cases q)
  show ?thesis
  proof (cases call)
    case (RegisterDevice u name platform fresh)
    with assms show ?thesis
      by (auto simp: q registers_def register_device_def new_device_def no_token_def sql_insert_def Let_def)
  next
    case (RevokeDevice u i)
    with assms(1) show ?thesis by (auto simp: q revoke_device_def no_token_def sql_delete_def split: option.split)
  next
    case (UpdatePushToken device_token push)
    with assms(1) show ?thesis
      by (auto simp: q update_push_token_def sbind_Inr_iff dest!: taken_tokens split: sum.split)
  qed (simp_all add: q assms(1) checksum_backed_up_def backup_event_def notify_user_devices_def split: sum.split)
qed

lemma no_token_run:
  assumes "no_token (token_digest e token) d" "\<forall>q \<in> set qs. \<not> registers e token q"
  shows "no_token (token_digest e token) (fold (device_perform e l) qs d)"
  using assms by (induction qs arbitrary: d) (simp_all add: no_token_step)

text \<open>C40: A revoked device is shut out.  Once its owner has revoked a device, and whatever device requests follow, its
  secret neither opens the endpoints of devices nor stands for its account anywhere else, unless a device is
  enrolled with the same secret again.\<close>

theorem revoked_device_is_shut_out:
  assumes "devices_ok d" "x \<in> set (devices d)" "de_token_hash x = token_digest e token"
    "fst (revoke_device u (de_id x) d) = Inr ()" "\<forall>q \<in> set qs. \<not> registers e token q"
  shows "(\<exists>r. authenticated_device e l (Some token) (fold (device_perform e l) qs (snd (revoke_device u (de_id x) d))) = Inl (HTTPException 401 r)) \<and>
    (\<not> truthy (rq_bearer rq) \<and> \<not> truthy (rq_cookies rq (auth_cookie_name (cfg e))) \<and> rq_headers rq ''x-device-token'' = Some token \<longrightarrow>
     fst (current_user_or_device e now rq l (fold (device_perform e l) qs (snd (revoke_device u (de_id x) d)))) =
       Inl (HTTPException 401 ''Authentication required''))"
proof -
  have "\<forall>y \<in> set (devices d). de_token_hash y = de_token_hash x \<longrightarrow> y = x"
    using assms(1,2) by (auto simp: devices_ok_def dest: key_unique)
  with assms(3,4) have "no_token (token_digest e token) (snd (revoke_device u (de_id x) d))"
    by (auto simp: revoke_device_def no_token_def sql_delete_def split: option.splits)
  from no_token_run [OF this assms(5), of l]
  have "sql_first (\<lambda>y. de_token_hash y = token_digest e token) (devices (fold (device_perform e l) qs (snd (revoke_device u (de_id x) d)))) = None"
    unfolding no_token_def sql_first_None by (metis image_eqI set_map)
  then show ?thesis by (cases "token = []") (simp_all add: authenticated_device_def current_user_or_device_def truthy_def Let_def)
qed

section \<open>Concrete devices\<close>

definition sample_device :: "uuid \<Rightarrow> string \<Rightarrow> string option \<Rightarrow> device" where
  "sample_device i secret push = (new_device sample_env 0 (sample_user 1) ''phone'' ''ios'' (i, secret))\<lparr>de_push_token := push\<rparr>"

definition device_db :: db where
  "device_db = empty_db\<lparr>users := [sample_user 1], devices := [sample_device 1 ''s'' None, sample_device 2 ''t'' (Some ''p'')]\<rparr>"

definition device_request :: request where
  "device_request = \<lparr>rq_peer = None, rq_bearer = None, rq_headers = [''x-device-token'' \<mapsto> ''s''], rq_cookies = Map.empty, rq_rates_up = True\<rparr>"

lemma device_db_ok: "devices_ok device_db"
  by (simp add: devices_ok_def push_tokens_apart_def device_db_def sample_device_def new_device_def token_digest_def
      sample_env_def sample_digest_def)

lemma revoked_device_is_shut_out_witness:
  "fst (current_user_or_device sample_env 9 device_request (Directory True [])
     (fold (device_perform sample_env (Directory True [])) [(5, AskBackedUp (Some ''t'') ''c''), (6, RegisterDevice (sample_user 1) ''pad'' ''ios'' (3, ''v''))]
       (snd (revoke_device (sample_user 1) 1 device_db)))) = Inl (HTTPException 401 ''Authentication required'')"
proof -
  let ?x = "sample_device 1 ''s'' None"
  have "?x \<in> set (devices device_db)" "de_token_hash ?x = token_digest sample_env ''s''" "de_id ?x = 1"
    "fst (revoke_device (sample_user 1) (de_id ?x) device_db) = Inr ()"
    by (simp_all add: device_db_def sample_device_def new_device_def revoke_device_def sample_user_def)
  then show ?thesis
    using revoked_device_is_shut_out [OF device_db_ok, of ?x sample_env "''s''" "sample_user 1"
        "[(5, AskBackedUp (Some ''t'') ''c''), (6, RegisterDevice (sample_user 1) ''pad'' ''ios'' (3, ''v''))]" "Directory True []" device_request 9]
    by (simp add: registers_def device_request_def truthy_def token_digest_def sample_env_def sample_digest_def)
qed

text \<open>A push token cannot move to a device with a smaller key: the two rows are written in the order of their keys, and
  the device takes the token while its former holder still has it.\<close>

lemma push_token_stays_behind:
  "take_push_token now (Some ''p'') (sample_device 1 ''s'' None) device_db = Inl IntegrityError"
  "\<exists>d. take_push_token now (Some ''q'') (sample_device 1 ''s'' None) device_db = Inr d"
  by (simp_all add: take_push_token_def push_holder_def device_db_def sample_device_def new_device_def truthy_def Let_def)

text \<open>A revision in the trash counts as backed up: a device that asks before it uploads is told that the photo is safe,
  while its bytes are due to be purged.\<close>

lemma trashed_counts_as_backed_up:
  assumes "reject_suppressed_account sample_env l 1 = Inr ()"
    "a = (sample_asset 7 1 ''/data/originals/x'')\<lparr>a_lifecycle_state := Trashed, a_checksum := replicate 64 (CHR ''c'')\<rparr>"
  shows "fst (checksum_backed_up sample_env l now (Some ''s'') (replicate 64 (CHR ''c'')) (device_db\<lparr>assets := [a]\<rparr>)) = Inr (Some 7)"
  using assms(1)
  by (simp add: assms(2) checksum_backed_up_def authenticated_device_def device_db_def sample_device_def new_device_def
      truthy_def token_digest_def sample_asset_def sample_user_def)

end
