(* ===== verification/Spec2Isabelle.thy ===== *)
theory Spec2Isabelle
  imports Sync DeletionSafety Uploads PasskeySafety NodeSafety ProtectionSafety Monitoring
    Timeline SharingSafety Migration Libraries BackupSafety BackupRuns StorageSettings Devices
begin

text \<open>
  A verification library for the Drivebound server (\<open>src/backend/app\<close>), a self-hosted photo store: a web
  application over a SQL catalogue and a content-addressed file store, with background workers that share both.

  \<^bold>\<open>The program and its parts.\<close>  A request is authenticated (\<open>core/security.py\<close>), checked against the ledger of
  deleted accounts (\<open>services/account_deletion.py\<close>) and changes the catalogue in a transaction.  An upload
  (\<open>api/v1/uploads.py\<close>, \<open>api/v1/assets.py\<close>) is staged, digested and handed to \<open>services/ingestion.py\<close>, which
  publishes it under the key of the account (\<open>services/storage.py\<close>, \<open>services/encryption.py\<close>) and inserts the
  revision; the worker (\<open>worker/tasks.py\<close>) then derives its thumbnail and metadata, copies it to protection drives
  (\<open>services/replication.py\<close>), verifies the copies and restores a lost original from them.  Revisions move between
  active, superseded and trashed (\<open>services/lifecycle.py\<close>) until a purge removes the row and the bytes no other row
  names.  Folder synchronisation (\<open>services/sync.py\<close>), sharing (\<open>api/v1/discovery.py\<close>, \<open>api/v1/shares.py\<close>), photo
  folders of the host (\<open>api/v1/libraries.py\<close>) and storage nodes (\<open>api/v1/nodes.py\<close>) stand beside this path.  The
  deletion of an account disables it at once and erases its rows and files in leased batches later.

  \<^bold>\<open>How state is represented.\<close>  The catalogue is the record \<open>db\<close>, one list of row records per table and one field
  per column; the file store is the record \<open>fs\<close>, a map from canonical paths to bytes.  A transaction is a function
  from \<open>db\<close> to an outcome and a \<open>db\<close>; where a handler commits several times or is rolled back after a commit, the
  returned \<open>db\<close> is the last committed one.  Files are never rolled back, as on the host.  Every raise is an \<open>Inl\<close> of
  the type \<open>exn\<close>.  The clock and fresh random values are arguments; rows added by one statement keep their order.
  Locks are not modelled: a handler is one step, and the interleavings that the properties quantify over are those
  of whole requests and of worker runs or batches.

  \<^bold>\<open>Theories and sources.\<close>
    \<^item> \<open>Prelude\<close>: table operations (\<open>sql_first\<close>, \<open>sql_update\<close>, \<open>sql_delete\<close>, \<open>sql_insert\<close>), exceptions and the two
      shared interfaces; \<open>Values\<close>: JSON, times, \<open>core/config.py\<close>, the host \<open>env\<close> and the file store; \<open>Catalog\<close>:
      \<open>models/*.py\<close>; \<open>Sample\<close>: the small installation on which properties are applied.
    \<^item> \<open>HostStorage\<close> (\<open>services/host_storage.py\<close>) and \<open>StoragePaths\<close> (the paths of \<open>services/storage.py\<close>): which
      volumes may be touched, and the identity of a path.
    \<^item> \<open>Lifecycle\<close> (\<open>services/lifecycle.py\<close>) and \<open>AssetRequests\<close> (its requests in \<open>api/v1/assets.py\<close>).
    \<^item> \<open>Encryption\<close> (\<open>services/encryption.py\<close> and the moves of \<open>services/storage.py\<close>), \<open>Ingestion\<close>
      (\<open>services/ingestion.py\<close>, \<open>upload_asset\<close>), \<open>Uploads\<close> (\<open>api/v1/uploads.py\<close>).
    \<^item> \<open>Processing\<close> (\<open>process_asset\<close>, \<open>index_asset\<close> and what they call), \<open>Migration\<close> (\<open>migrate_legacy_media\<close>) and
      \<open>Libraries\<close> (\<open>api/v1/libraries.py\<close>, \<open>scan_external_library\<close>), all of \<open>worker/tasks.py\<close>.
    \<^item> \<open>Replication\<close> (\<open>services/replication.py\<close>), \<open>Restoration\<close> (restoration and the verification pass of
      \<open>worker/tasks.py\<close>), \<open>RecoverySafety\<close> and \<open>ProtectionSafety\<close> (what they guarantee), \<open>Monitoring\<close>
      (\<open>api/v1/monitoring.py\<close>).
    \<^item> \<open>Backups\<close> (\<open>services/operational_backups.py\<close>, \<open>backup_operational_state\<close> of \<open>worker/tasks.py\<close> and the
      recovery report of \<open>api/v1/storage_status.py\<close>) and \<open>BackupSafety\<close> (what a backup run guarantees);
      \<open>BackupRuns\<close> (the lock of \<open>services/readiness.py\<close> that the request and the task share) and \<open>StorageSettings\<close>
      (policy, drives and root reports of \<open>api/v1/storage_status.py\<close>).
    \<^item> \<open>Devices\<close> (\<open>api/v1/devices.py\<close>, \<open>services/notifications.py\<close>).
    \<^item> \<open>Access\<close> (\<open>core/security.py\<close>, \<open>services/accounts.py\<close>), \<open>Accounts\<close> (\<open>api/v1/auth.py\<close>), \<open>Passkeys\<close>
      (\<open>services/passkeys.py\<close>), \<open>AccountCalls\<close> (every call of the account interface as one step), \<open>AccountSafety\<close> and
      \<open>PasskeySafety\<close> (what holds over sequences of calls).
    \<^item> \<open>Ledger\<close> and \<open>Deletion\<close> (\<open>services/account_deletion.py\<close>), \<open>DeletionSafety\<close>.
    \<^item> \<open>Sync\<close> (\<open>services/sync.py\<close>, \<open>schemas/sync.py\<close>, \<open>api/v1/sync.py\<close>).
    \<^item> \<open>NodeAttestation\<close> (\<open>services/node_attestation.py\<close>, \<open>schemas/node.py\<close>), \<open>Nodes\<close> (\<open>api/v1/nodes.py\<close>),
      \<open>NodeSafety\<close>.
    \<^item> \<open>Timeline\<close> (\<open>services/timeline.py\<close>, \<open>list_assets\<close>), \<open>Sharing\<close> (albums, members, invitations and links of
      \<open>api/v1/discovery.py\<close> and \<open>api/v1/shares.py\<close>, delivery of \<open>services/media_delivery.py\<close>), \<open>SharingSafety\<close>.

  \<^bold>\<open>What the lemmas show.\<close>
    \<^item> Bytes: sealing and opening are inverse, streaming agrees with opening, nothing published is overwritten, what
      was uploaded can be downloaded by whoever may read it, processing leaves no plaintext and migration loses
      nothing.
    \<^item> Catalogue: the table constraints (one active revision of a logical asset, no two revisions with one version) are kept by the
      life cycle, ingestion and synchronisation; the requests implement an abstract machine of revisions.
    \<^item> Retention: a purge removes nothing that the surviving catalogue names, and nothing live disappears within a day.
    \<^item> Protection: what is shown as protected has its copies, balancing never takes the last one, and a restoration
      succeeds exactly when an intact copy is there and then leaves the right bytes in place; after a backup run what
      the catalogue calls verified is intact, with working tools the database can be recovered, and two runs never
      overlap.
    \<^item> Accounts: sessions come from proofs of identity; mail links, passkey challenges, second factors, pairing codes,
      signed node messages and invitations are used at most once; nobody is locked out; a deletion is final, and a
      batch of its worker touches no other account and a finished job has erased its own.
    \<^item> Reading: the pages of the timeline are the timeline, what is not shared stays private, folders of two accounts
      stay apart, a pull of the journal misses nothing, a finished scan has catalogued every file.

  \<^bold>\<open>Interfaces.\<close>  \<open>invariant_steps\<close> (\<open>Prelude\<close>): an operation that keeps an invariant keeps it over any sequence; its
  instances are the marker writes of the ledger, the account calls on passkeys and on sign-in methods, the
  sharing requests on members, the requests on photo folders, on storage settings and on devices.  \<open>single_use\<close> (\<open>Prelude\<close>): a credential that an accepted
  request spends and no request revives is accepted at most once over any sequence; its instances are mail links,
  passkey challenges, signed node messages, pairing codes and invitations.  \<open>account_relation\<close> (\<open>AccountCalls\<close>): a
  relation between catalogues that every write of an account handler satisfies is satisfied by every call; its
  instances are links, sessions, challenges, credentials and sign-in methods.  The life cycle, the journal of a sync
  root, the locks of verification and backup runs and the machine of revisions are inductive step relations.

  \<^bold>\<open>Loops and fuel.\<close>  Loops over rows, chunks, files or batches are structural recursion.  \<open>replace_text\<close> is
  well-founded recursion on the length of the text.  The scan of reported capabilities, a work list that grows while
  it is read, is the partial function \<open>check_pending\<close>, and its termination is a theorem.  A client that follows
  cursors takes fuel: more fuel than the timeline has assets is shown to be enough.

  \<^bold>\<open>Parameters.\<close>  The record \<open>env\<close> holds what the sources call and do not define: path resolution, digests, the
  AES-GCM stream and tag, key wrapping, password hashing, the token codec, JSON and date parsing, WebAuthn, Ed25519,
  disk usage, and which writes and unlinks fail.  \<open>media_tools\<close> (\<open>Processing\<close>) holds the answers of Pillow, ffprobe,
  OCR and the embedding model, \<open>backup_tools\<close> (\<open>Backups\<close>) those of \<open>pg_dump\<close> and \<open>pg_restore\<close>.  What is assumed of them is stated by name where it is used: \<open>host_paths\<close> (resolved
  paths are their own identity), \<open>aead_ok\<close> (the stream is an involution of the right length), \<open>codec_ok\<close> (a
  marker is read back as written), \<open>jwt_ok\<close> (a token is read back as issued, until it expires), \<open>posix_host\<close>
  (letter case is significant), \<open>cursor_decodes\<close> (the JSON and date parsers read back the text of a cursor),
  \<open>tools_work\<close> and \<open>run_in_time\<close> (dumps end well, within their time), \<open>migration_ok\<close> (the paths of the store are resolved and its areas disjoint).  Each property with such a hypothesis
  is applied to a concrete installation by its witness.

  \<^bold>\<open>Not modelled.\<close>
    \<^item> \<open>main.py\<close>, \<open>db/session.py\<close>, \<open>worker/celery_app.py\<close>, health and heartbeats: framework assembly.  The engine of a
      task, its retries by the queue and its advisory locks are left out with them.
    \<^item> \<open>core/observability.py\<close>: counters that no modelled decision reads.
    \<^item> \<open>services/media_groups.py\<close>, the vectors of \<open>services/intelligence.py\<close> and the EXIF helpers of
      \<open>worker/tasks.py\<close>: floating-point heuristics over the answers of third-party models.
    \<^item> The listings by folder, text search, map and memories of \<open>api/v1/discovery.py\<close>: SQL pattern matching over
      textual casts of columns.
    \<^item> \<open>services/recovery_drill.py\<close> and \<open>src/tools\<close>: command-line programs that drive containers, subprocesses and
      HTTP clients; \<open>alembic\<close>: its tables and constraints are those of \<open>Catalog\<close>.
    \<^item> In modelled parts: the exchange with Google, mail transport, the audit listing and the export of an account;
      server defaults of columns nothing reads; time stamps of files; percent-encoding of header values.
\<close>

end
